(* ===== verification/Prelude.thy ===== *)
theory Prelude
  imports
    Main
    "HOL-Library.Word"
    "HOL-Library.Finite_Map"
    "HOL-Library.Char_ord"
    "HOL-Library.List_Lexorder"
begin

text \<open>
  What the component theories share.

  \<^item> Machine integers: Go's \<open>int32\<close> and 64-bit \<open>int\<close> are words; a signed comparison
    reads them with \<^const>\<open>sint\<close>, and \<open>+\<close>, \<open>-\<close>, \<open>*\<close> wrap as Go's do.
  \<^item> Go maps are finite maps. A Go map that may be \<open>nil\<close> is an \<open>option\<close> of one, read
    with \<open>go_get\<close> (a nil map reads as empty) and made non-nil with \<open>go_make\<close>.
  \<^item> Go strings are byte strings, so \<^const>\<open>length\<close> is \<open>len\<close>; \<open>List_Lexorder\<close> orders
    them as Go's \<open><\<close> and \<open>sort.Strings\<close> do.
  \<^item> A fallible operation returns \<open>error + result\<close>; \<open>sum_bind\<close> sequences two of them and
    \<open>fold_res\<close> runs a fallible step over a list, stopping at the first error.
  \<^item> \<open>show_int\<close> is \<open>%d\<close>, \<open>nat_of_digits\<close> the digits part of \<open>strconv.Atoi\<close>.
\<close>

type_synonym int32 = "32 word"
type_synonym go_int = "64 word"

named_theorems fold_arms \<comment> \<open>the definitions of the fold's arms, one per event variant\<close>
named_theorems wf_defs \<comment> \<open>the parts of the well-formedness invariants\<close>

subsection \<open>Fallible computations\<close>

fun sum_bind :: "'e + 'a \<Rightarrow> ('a \<Rightarrow> 'e + 'b) \<Rightarrow> 'e + 'b" where
  "sum_bind (Inl e) k = Inl e"
| "sum_bind (Inr a) k = k a"

lemma sum_bind_eq_Inr [simp]:
  "sum_bind m k = Inr b \<longleftrightarrow> (\<exists>a. m = Inr a \<and> k a = Inr b)"
  by (cases m) auto

lemma sum_bind_eq_Inl: "sum_bind m k = Inl e \<longleftrightarrow> m = Inl e \<or> (\<exists>a. m = Inr a \<and> k a = Inl e)"
  by (cases m) auto

lemma sum_bind_assoc: "sum_bind (sum_bind m k) h = sum_bind m (\<lambda>x. sum_bind (k x) h)"
  by (cases m) auto

fun fold_res :: "('s \<Rightarrow> 'e \<Rightarrow> 'err + 's) \<Rightarrow> 's \<Rightarrow> 'e list \<Rightarrow> 'err + 's" where
  "fold_res f s [] = Inr s"
| "fold_res f s (x # xs) = sum_bind (f s x) (\<lambda>s'. fold_res f s' xs)"

lemma fold_res_append:
  "fold_res f s (xs @ ys) = sum_bind (fold_res f s xs) (\<lambda>s'. fold_res f s' ys)"
  by (induction xs arbitrary: s) (auto simp: sum_bind_assoc)

lemma fold_res_invariant:
  assumes "fold_res f s xs = Inr s'" and "P s"
    and "\<And>s x s'. x \<in> set xs \<Longrightarrow> P s \<Longrightarrow> f s x = Inr s' \<Longrightarrow> P s'"
  shows "P s'"
  using assms
proof (induction xs arbitrary: s)
  case Nil
  then show ?case by simp
next
  case (Cons x xs)
  then obtain t where t: "f s x = Inr t" "fold_res f t xs = Inr s'" by auto
  have "P t" using Cons.prems(2,3) t(1) by auto
  with Cons t show ?case by (metis list.set_intros(2))
qed

lemma fold_res_cong:
  assumes "\<And>s x. x \<in> set xs \<Longrightarrow> f s x = g s x"
  shows "fold_res f s xs = fold_res g s xs"
  using assms
proof (induction xs arbitrary: s)
  case Nil
  show ?case by simp
next
  case (Cons x xs)
  then have "fold_res f t xs = fold_res g t xs" for t by simp
  then show ?case using Cons.prems[of x s] by simp
qed

subsection \<open>Go maps\<close>

definition keys :: "('k::linorder, 'v) fmap \<Rightarrow> 'k list" where
  "keys m = sorted_list_of_fset (fmdom m)"

lemma set_keys [simp]: "set (keys m) = fmdom' m"
  by (simp add: keys_def fmdom'_alt_def)

lemma distinct_keys [simp]: "distinct (keys m)"
  by (simp add: keys_def sorted_list_of_fset.rep_eq)

lemma sorted_keys [simp]: "sorted (keys m)"
  by (simp add: keys_def sorted_list_of_fset.rep_eq)

lemma keys_empty [simp]: "keys fmempty = []"
  by (simp add: keys_def sorted_list_of_fset.rep_eq)

lemma keys_upd [simp]: "keys (fmupd k v m) = (if k \<in> fmdom' m then keys m else insort k (keys m))"
proof (cases "k \<in> fmdom' m")
  case True
  then have "finsert k (fmdom m) = fmdom m" by (auto simp: fmdom'_alt_def)
  with True show ?thesis by (simp add: keys_def)
next
  case False
  then have "k \<notin> fset (fmdom m)" by (simp add: fmdom'_alt_def)
  with False show ?thesis by (simp add: keys_def sorted_list_of_fset.rep_eq)
qed

lemma in_keys_iff: "k \<in> set (keys m) \<longleftrightarrow> fmlookup m k \<noteq> None"
  by (simp add: fmlookup_dom'_iff)

lemma keys_eq_Nil_iff [simp]: "keys m = [] \<longleftrightarrow> m = fmempty"
proof
  assume "keys m = []"
  then have "fmdom' m = {}" using set_keys[of m] by simp
  then have "fmlookup m x = fmlookup fmempty x" for x
    by (metis empty_iff fmdom'_notD fmempty_lookup)
  then show "m = fmempty" by (rule fmap_ext)
qed simp

definition go_make :: "('k, 'v) fmap option \<Rightarrow> ('k, 'v) fmap" where
  "go_make m = (case m of None \<Rightarrow> fmempty | Some f \<Rightarrow> f)"

definition go_get :: "('k, 'v) fmap option \<Rightarrow> 'k \<Rightarrow> 'v option" where
  "go_get m k = fmlookup (go_make m) k"

lemma go_make_simps [simp]: "go_make None = fmempty" "go_make (Some f) = f"
  by (simp_all add: go_make_def)

lemma go_get_simps [simp]: "go_get None k = None" "go_get (Some f) k = fmlookup f k"
  by (simp_all add: go_get_def)

lemma fmlookup_go_make [simp]: "fmlookup (go_make m) k = go_get m k"
  by (simp add: go_get_def)

text \<open>A Go \<open>map[string]bool\<close> read at a key it does not hold gives \<open>false\<close>.\<close>

definition go_flag :: "('k, bool) fmap option \<Rightarrow> 'k \<Rightarrow> bool" where
  "go_flag m k = (go_get m k = Some True)"

lemma go_flag_simps [simp]:
  "go_flag None k = False"
  "go_flag (Some (fmupd k' b f)) k = (if k = k' then b else go_flag (Some f) k)"
  "go_flag (Some (fmdrop k' f)) k = (k \<noteq> k' \<and> go_flag (Some f) k)"
  "go_flag (Some fmempty) k = False"
  by (auto simp: go_flag_def)

subsection \<open>Signed machine arithmetic\<close>

text \<open>Where the mathematical result fits, the wrapped one is it.\<close>

lemma sint_inject [simp]: "sint (a :: 'a::len word) = sint b \<longleftrightarrow> a = b"
  by (metis of_int_sint scast_id)

lemma sint32_bounds: "- 2147483648 \<le> sint (w :: int32)" "sint (w :: int32) < 2147483648"
  using sint_ge[of w] sint_lt[of w] by simp_all

lemma sint64_bounds: "- (2 ^ 63) \<le> sint (w :: go_int)" "sint (w :: go_int) < 2 ^ 63"
  using sint_ge[of w] sint_lt[of w] by simp_all

lemma sint_add_int32:
  assumes "- 2147483648 \<le> sint (a :: int32) + sint b" and "sint a + sint b < 2147483648"
  shows "sint (a + b) = sint a + sint b"
  using assms by (simp add: sint_word_ariths signed_take_bit_int_eq_self)

lemma sint_add_go_int:
  assumes "- (2 ^ 63) \<le> sint (a :: go_int) + sint b" and "sint a + sint b < 2 ^ 63"
  shows "sint (a + b) = sint a + sint b"
  using assms by (simp add: sint_word_ariths signed_take_bit_int_eq_self)

text \<open>\<open>int64(x)\<close> and \<open>int(x)\<close> of an \<open>int32\<close> keep its value.\<close>

definition widen :: "int32 \<Rightarrow> go_int" where
  "widen x = word_of_int (sint x)"

definition narrow :: "go_int \<Rightarrow> int32" where
  "narrow x = word_of_int (sint x)"

lemma sint_of_int64: "- (2 ^ 63) \<le> k \<Longrightarrow> k < 2 ^ 63 \<Longrightarrow> sint (word_of_int k :: go_int) = k"
  by (simp add: signed_of_int signed_take_bit_int_eq_self)

lemma sint_of_int32: "- 2147483648 \<le> k \<Longrightarrow> k < 2147483648 \<Longrightarrow> sint (word_of_int k :: int32) = k"
  by (simp add: signed_of_int signed_take_bit_int_eq_self)

lemma sint_widen [simp]: "sint (widen x) = sint x"
  unfolding widen_def using sint32_bounds[of x] by (intro sint_of_int64) simp_all

lemma sint_narrow:
  "- 2147483648 \<le> sint x \<Longrightarrow> sint x < 2147483648 \<Longrightarrow> sint (narrow x) = sint x"
  unfolding narrow_def by (intro sint_of_int32)

lemma narrow_widen [simp]: "narrow (widen x) = x"
  by (rule sint_inject [THEN iffD1]) (use sint32_bounds[of x] in \<open>simp add: sint_narrow\<close>)

subsection \<open>Decimal text\<close>

definition digit_char :: "nat \<Rightarrow> char" where
  "digit_char d = char_of (48 + d :: nat)"

definition is_digit :: "char \<Rightarrow> bool" where
  "is_digit c = (48 \<le> (of_char c :: nat) \<and> (of_char c :: nat) \<le> 57)"

definition digit_val :: "char \<Rightarrow> nat" where
  "digit_val c = (of_char c :: nat) - 48"

fun show_nat :: "nat \<Rightarrow> string" where
  "show_nat n = (if n < 10 then [digit_char n] else show_nat (n div 10) @ [digit_char (n mod 10)])"

declare show_nat.simps [simp del]

definition show_int :: "int \<Rightarrow> string" where
  "show_int i = (if i < 0 then CHR ''-'' # show_nat (nat (- i)) else show_nat (nat i))"

definition nat_of_digits :: "string \<Rightarrow> nat" where
  "nat_of_digits s = foldl (\<lambda>n c. 10 * n + digit_val c) 0 s"

lemma of_char_digit_char: "d < 10 \<Longrightarrow> (of_char (digit_char d) :: nat) = 48 + d"
  by (simp add: digit_char_def)

lemma is_digit_digit_char [simp]: "d < 10 \<Longrightarrow> is_digit (digit_char d)"
  by (simp add: is_digit_def of_char_digit_char)

lemma digit_val_digit_char [simp]: "d < 10 \<Longrightarrow> digit_val (digit_char d) = d"
  by (simp add: digit_val_def of_char_digit_char)

lemma digit_char_simps [simp]:
  "digit_char 0 = CHR ''0''" "digit_char 1 = CHR ''1''" "digit_char (Suc 0) = CHR ''1''"
  "digit_char 2 = CHR ''2''" "digit_char 3 = CHR ''3''" "digit_char 4 = CHR ''4''"
  "digit_char 5 = CHR ''5''" "digit_char 6 = CHR ''6''" "digit_char 7 = CHR ''7''"
  "digit_char 8 = CHR ''8''" "digit_char 9 = CHR ''9''"
  by (simp_all add: digit_char_def char_of_def bit_iff_odd)

lemma show_nat_nonempty [simp]: "show_nat n \<noteq> []"
  by (subst show_nat.simps) simp

lemma show_nat_digits: "c \<in> set (show_nat n) \<Longrightarrow> is_digit c"
proof (induction n rule: show_nat.induct)
  case (1 n)
  then show ?case
    by (subst (asm) (2) show_nat.simps) (auto split: if_splits)
qed

lemma nat_of_digits_snoc: "nat_of_digits (s @ [c]) = 10 * nat_of_digits s + digit_val c"
  by (simp add: nat_of_digits_def)

lemma nat_of_digits_show_nat [simp]: "nat_of_digits (show_nat n) = n"
proof (induction n rule: show_nat.induct)
  case (1 n)
  show ?case
  proof (cases "n < 10")
    case True
    then show ?thesis by (subst show_nat.simps) (simp add: nat_of_digits_def)
  next
    case False
    with 1 show ?thesis by (subst show_nat.simps) (simp add: nat_of_digits_snoc)
  qed
qed

lemma show_nat_inj [simp]: "show_nat m = show_nat n \<longleftrightarrow> m = n"
  by (metis nat_of_digits_show_nat)

lemma minus_not_digit [simp]: "\<not> is_digit (CHR ''-'')" "\<not> is_digit (CHR '','')"
  by (simp_all add: is_digit_def)

lemma show_nat_hd: "show_nat n = c # cs \<Longrightarrow> is_digit c"
  using show_nat_digits[of c n] by simp

lemma show_int_inj [simp]: "show_int i = show_int j \<longleftrightarrow> i = j"
proof
  assume eq: "show_int i = show_int j"
  show "i = j"
  proof (cases "i < 0"; cases "j < 0")
    assume "i < 0" "\<not> j < 0"
    with eq have "show_nat (nat j) = CHR ''-'' # show_nat (nat (- i))" by (simp add: show_int_def)
    from show_nat_hd[OF this] show ?thesis by simp
  next
    assume "\<not> i < 0" "j < 0"
    with eq have "show_nat (nat i) = CHR ''-'' # show_nat (nat (- j))" by (simp add: show_int_def)
    from show_nat_hd[OF this] show ?thesis by simp
  qed (use eq in \<open>auto simp: show_int_def\<close>)
qed simp

lemma comma_notin_show_int [simp]: "CHR '','' \<notin> set (show_int i)"
  using show_nat_digits[of "CHR '',''"] by (auto simp: show_int_def)

text \<open>Two texts joined by a separator neither side holds split uniquely.\<close>

lemma append_sep_inj:
  assumes "c \<notin> set a" and "c \<notin> set a'"
  shows "a @ c # b = a' @ c # b' \<longleftrightarrow> a = a' \<and> b = b'"
  using assms
proof (induction a arbitrary: a')
  case Nil
  then show ?case by (cases a') auto
next
  case (Cons x xs)
  then show ?case by (cases a') auto
qed

subsection \<open>Bytes as text\<close>

text \<open>\<open>hex.EncodeToString\<close> and \<open>base64.RawURLEncoding.EncodeToString\<close>.\<close>

definition hex_digit :: "nat \<Rightarrow> char" where
  "hex_digit d = (if d < 10 then digit_char d else char_of (87 + d))"

definition hex_text :: "8 word list \<Rightarrow> string" where
  "hex_text bytes = concat (map (\<lambda>b. [hex_digit (unat b div 16), hex_digit (unat b mod 16)]) bytes)"

definition base64_digit :: "nat \<Rightarrow> char" where
  "base64_digit d =
     (if d < 26 then char_of (65 + d) else if d < 52 then char_of (71 + d)
      else if d < 62 then digit_char (d - 52) else if d = 62 then CHR ''-'' else CHR ''_'')"

fun base64_text :: "8 word list \<Rightarrow> string" where
  "base64_text [] = []"
| "base64_text [a] = [base64_digit (unat a div 4), base64_digit (16 * (unat a mod 4))]"
| "base64_text [a, b] =
     [base64_digit (unat a div 4), base64_digit (16 * (unat a mod 4) + unat b div 16), base64_digit (4 * (unat b mod 16))]"
| "base64_text (a # b # c # bs) =
     [base64_digit (unat a div 4), base64_digit (16 * (unat a mod 4) + unat b div 16),
      base64_digit (4 * (unat b mod 16) + unat c div 64), base64_digit (unat c mod 64)] @ base64_text bs"

end
