(* ===== verification/Wire.thy ===== *)
theory Wire
  imports Prelude
begin

text \<open>
  The event contract (\<open>contract/vtt/v1/events.proto\<close>): the messages the log stores and
  every component exchanges. A message is a record, or a constructor with its fields where
  it has one or two; a message field that may be absent (a Go pointer that may be
  \<open>nil\<close>) is an \<open>option\<close>. Proto3 enums are open, so an unknown number is a value too.
  \<open>Struct\<close> and \<open>Timestamp\<close> payloads are carried, never read: they are opaque values
  (their encoded bytes; seconds and nanoseconds).
\<close>

subsection \<open>Values\<close>

record grid_position =
  gp_x :: int32
  gp_y :: int32

record resource =
  res_current :: int32
  res_max :: int32

datatype actor_kind =
    KIND_UNSPECIFIED
  | KIND_PARTY_MEMBER
  | KIND_NON_PARTY
  | KIND_OTHER int32

datatype note_visibility =
    VISIBILITY_UNSPECIFIED
  | VISIBILITY_PUBLIC
  | VISIBILITY_SECRET
  | VISIBILITY_OTHER int32

record actor =
  actor_id :: string
  actor_name :: string
  actor_module_id :: string
  actor_attributes :: "(string, int32) fmap"
  actor_resources :: "(string, resource) fmap"
  actor_module_data :: "string option"
  actor_controller_id :: string
  actor_controller_ids :: "string list"
  actor_kind_of :: actor_kind

record tile_ref =
  tr_kind :: string
  tr_material :: string
  tr_art :: string

record wire_object =
  wo_object_id :: string
  wo_kind :: string
  wo_at :: "grid_position option"
  wo_width :: int32
  wo_height :: int32
  wo_rotation :: int32
  wo_blocks_sight :: bool
  wo_blocks_move :: bool
  wo_art :: string

subsection \<open>Payloads\<close>

record scene_created =
  scr_scene_id :: string
  scr_name :: string
  scr_grid_width :: int32
  scr_grid_height :: int32
  scr_tiles :: "(string, tile_ref) fmap"
  scr_objects :: "wire_object list"

record scene_seen =
  ssn_scene_id :: string
  ssn_tiles :: "(string, tile_ref) fmap"
  ssn_objects :: "wire_object list"
  ssn_visible :: "string list"

record token_placed =
  tp_token_id :: string
  tp_scene_id :: string
  tp_actor_id :: string
  tp_position :: "grid_position option"
  tp_name :: string
  tp_notes :: string
  tp_gm_name :: string
  tp_gm_notes :: string

record token_described =
  td_token_id :: string
  td_name :: string
  td_notes :: string
  td_gm_name :: string
  td_gm_notes :: string

record token_moved =
  tm_token_id :: string
  tm_scene_id :: string
  tm_from :: "grid_position option"
  tm_to :: "grid_position option"
  tm_reason :: string

record control_granted =
  cg_actor_id :: string
  cg_participant_id :: string
  cg_kind :: actor_kind

record attack_rolled =
  ar_attacker_id :: string
  ar_target_id :: string
  ar_expression :: string
  ar_rolls :: "(int32 \<times> int32) list"
  ar_modifiers :: "(string \<times> int32) list"
  ar_total :: int32
  ar_versus :: string
  ar_outcome :: string

record used_roll =
  ur_expression :: string
  ur_results :: "int32 list"
  ur_total :: int32

record used_outcome =
  uo_target_id :: string
  uo_result :: string
  uo_total :: int32

record ability_used =
  au_actor_id :: string
  au_ability_id :: string
  au_target_ids :: "string list"
  au_rolls :: "used_roll list"
  au_outcome_summary :: string
  au_outcomes :: "used_outcome list"

record resource_changed =
  rc_actor_id :: string
  rc_resource :: string
  rc_delta :: int32
  rc_new_value :: int32
  rc_reason :: string

record condition_event =
  ce_actor_id :: string
  ce_condition_id :: string
  ce_source :: string \<comment> \<open>\<open>source\<close> of an application, \<open>reason\<close> of a removal\<close>

record narration_added =
  na_text :: string
  na_as :: string
  na_anchor_from :: int
  na_anchor_to :: int
  na_out_of_character :: bool

record whisper_added =
  wa_text :: string
  wa_to_actor_ids :: "string list"
  wa_from_actor_id :: string

record note_upserted =
  nu_key :: string
  nu_title :: string
  nu_text :: string
  nu_visibility :: note_visibility

datatype payload =
    TokenMoved token_moved
  | AttackRolled attack_rolled
  | SceneCreated scene_created
  | ActorAdded "actor option"
  | TokenPlaced token_placed
  | SessionStarted string
  | SessionEnded
  | AbilityUsed ability_used
  | ResourceChanged resource_changed
  | ConditionApplied condition_event
  | ConditionRemoved condition_event
  | NarrationAdded narration_added
  | NoteUpserted note_upserted
  | NoteDeleted string
  | AdventureLoaded string string
  | ActorControlGranted control_granted
  | ActorControlRevoked string string
  | DoorOpened string "grid_position option"
  | DoorClosed string "grid_position option"
  | TokenHidden string
  | SceneSeen scene_seen
  | TokenRemoved string
  | ActorRemoved string
  | TokenDescribed token_described
  | WhisperAdded whisper_added

text \<open>A \<^const>\<open>None\<close> payload is an envelope whose oneof no field sets, which is also how
  a variant this contract does not know decodes.\<close>

record envelope =
  env_event_id :: string
  env_sequence :: int
  env_occurred_at :: "(int \<times> int) option"
  env_session_id :: string
  env_actor_role :: string
  env_participant_id :: string
  env_payload :: "payload option"

definition payload_only :: "payload \<Rightarrow> envelope" where
  "payload_only p = \<lparr>env_event_id = [], env_sequence = 0, env_occurred_at = None,
     env_session_id = [], env_actor_role = [], env_participant_id = [], env_payload = Some p\<rparr>"

lemma payload_only_simps [simp]:
  "env_payload (payload_only p) = Some p"
  "env_sequence (payload_only p) = 0"
  "env_session_id (payload_only p) = []"
  by (simp_all add: payload_only_def)

text \<open>The generated getters read an absent message as its zero value.\<close>

definition pos_x :: "grid_position option \<Rightarrow> int32" where
  "pos_x p = (case p of None \<Rightarrow> 0 | Some q \<Rightarrow> gp_x q)"

definition pos_y :: "grid_position option \<Rightarrow> int32" where
  "pos_y p = (case p of None \<Rightarrow> 0 | Some q \<Rightarrow> gp_y q)"

lemma pos_simps [simp]:
  "pos_x None = 0" "pos_x (Some q) = gp_x q" "pos_y None = 0" "pos_y (Some q) = gp_y q"
  by (simp_all add: pos_x_def pos_y_def)

end
