(* ===== verification/World.thy ===== *)
theory World
  imports Wire
begin

text \<open>
  The derived game state of \<open>internal/engine\<close>: \<open>state.go\<close> (the records, \<open>NewState\<close>,
  \<open>Snapshot\<close>, \<open>openSession\<close>), \<open>terrain.go\<close> (\<open>Blocked\<close>, \<open>IsDoor\<close>, \<open>covers\<close>) and
  \<open>actorkind.go\<close>. A Go map whose nil-ness the code keeps apart from empty is an
  \<open>option\<close>. The lemmas say what a snapshot keeps, that a square's key names one square,
  and what blocks a square.
\<close>

subsection \<open>State\<close>

record tile =
  tile_kind :: string
  tile_material :: string
  tile_art :: string

record scene_object =
  so_object_id :: string
  so_kind :: string
  so_x :: int32
  so_y :: int32
  so_width :: int32
  so_height :: int32
  so_rotation :: int32
  so_blocks_sight :: bool
  so_blocks_move :: bool
  so_art :: string

record scene =
  sc_id :: string
  sc_name :: string
  sc_grid_width :: int32
  sc_grid_height :: int32
  sc_tiles :: "(string, tile) fmap option"
  sc_objects :: "scene_object list"
  sc_open_doors :: "(string, bool) fmap option"
  sc_explored :: "(string, bool) fmap option"
  sc_visible :: "(string, bool) fmap option"

record token =
  tok_id :: string
  tok_scene_id :: string
  tok_actor_id :: string
  tok_x :: int32
  tok_y :: int32
  tok_name :: string
  tok_notes :: string
  tok_gm_name :: string
  tok_gm_notes :: string

record session =
  ses_id :: string
  ses_name :: string
  ses_start :: int
  ses_end :: int

record actor_condition =
  ac_id :: string
  ac_source :: string
  ac_applied_seq :: int

record world_note =
  wn_title :: string
  wn_text :: string
  wn_updated_seq :: int
  wn_visibility :: note_visibility

record state =
  st_scenes :: "(string, scene) fmap"
  st_actors :: "(string, actor) fmap"
  st_tokens :: "(string, token) fmap"
  st_sessions :: "session list"
  st_conditions :: "(string, actor_condition list) fmap"
  st_notes :: "(string, world_note) fmap"

definition new_state :: state where
  "new_state = \<lparr>st_scenes = fmempty, st_actors = fmempty, st_tokens = fmempty,
     st_sessions = [], st_conditions = fmempty, st_notes = fmempty\<rparr>"

text \<open>Reading a Go map of slices at an absent key gives the nil slice.\<close>

definition conditions_of :: "state \<Rightarrow> string \<Rightarrow> actor_condition list" where
  "conditions_of st a = (case fmlookup (st_conditions st) a of None \<Rightarrow> [] | Some cs \<Rightarrow> cs)"

text \<open>
  \<open>Snapshot\<close> copies every component. Tiles and open doors are rebuilt with \<open>make\<close>, so a
  nil map comes back empty; explored and visible squares keep nil apart from empty.
\<close>

definition snapshot_scene :: "scene \<Rightarrow> scene" where
  "snapshot_scene v =
     \<lparr>sc_id = sc_id v, sc_name = sc_name v,
      sc_grid_width = sc_grid_width v, sc_grid_height = sc_grid_height v,
      sc_tiles = Some (go_make (sc_tiles v)),
      sc_objects = sc_objects v,
      sc_open_doors = Some (go_make (sc_open_doors v)),
      sc_explored = (case sc_explored v of None \<Rightarrow> None | Some m \<Rightarrow> Some m),
      sc_visible = (case sc_visible v of None \<Rightarrow> None | Some m \<Rightarrow> Some m)\<rparr>"

definition snapshot :: "state \<Rightarrow> state" where
  "snapshot st =
     \<lparr>st_scenes = fmmap snapshot_scene (st_scenes st),
      st_actors = st_actors st,
      st_tokens = st_tokens st,
      st_sessions = st_sessions st,
      st_conditions = st_conditions st,
      st_notes = st_notes st\<rparr>"

text \<open>The index of the first session whose \<open>EndSeq\<close> is 0; \<^const>\<open>None\<close> is Go's -1.\<close>

fun open_session_from :: "nat \<Rightarrow> session list \<Rightarrow> nat option" where
  "open_session_from i [] = None"
| "open_session_from i (s # ss) = (if ses_end s = 0 then Some i else open_session_from (Suc i) ss)"

definition open_session :: "state \<Rightarrow> nat option" where
  "open_session st = open_session_from 0 (st_sessions st)"

lemma open_session_from_None:
  "open_session_from i ss = None \<longleftrightarrow> (\<forall>s \<in> set ss. ses_end s \<noteq> 0)"
  by (induction ss arbitrary: i) auto

lemma open_session_from_Some:
  "open_session_from i ss = Some j \<Longrightarrow>
     i \<le> j \<and> j - i < length ss \<and> ses_end (ss ! (j - i)) = 0 \<and> (\<forall>k < j - i. ses_end (ss ! k) \<noteq> 0)"
proof (induction ss arbitrary: i)
  case Nil
  then show ?case by simp
next
  case (Cons s ss)
  show ?case
  proof (cases "ses_end s = 0")
    case True
    with Cons.prems show ?thesis by auto
  next
    case False
    with Cons.prems have "open_session_from (Suc i) ss = Some j" by simp
    from Cons.IH[OF this] have IH: "Suc i \<le> j" "j - Suc i < length ss"
      "ses_end (ss ! (j - Suc i)) = 0" "\<forall>k < j - Suc i. ses_end (ss ! k) \<noteq> 0" by auto
    then have "j - i = Suc (j - Suc i)" by simp
    with IH False show ?thesis by (auto simp: nth_Cons split: nat.splits)
  qed
qed

lemma open_session_None:
  "open_session st = None \<longleftrightarrow> (\<forall>s \<in> set (st_sessions st). ses_end s \<noteq> 0)"
  by (simp add: open_session_def open_session_from_None)

lemma open_session_Some:
  assumes "open_session st = Some i"
  shows "i < length (st_sessions st)" "ses_end (st_sessions st ! i) = 0"
    "k < i \<Longrightarrow> ses_end (st_sessions st ! k) \<noteq> 0"
  using open_session_from_Some[of 0 "st_sessions st" i] assms by (auto simp: open_session_def)

lemma snapshot_scene_simps [simp]:
  "sc_id (snapshot_scene v) = sc_id v"
  "sc_grid_width (snapshot_scene v) = sc_grid_width v"
  "sc_grid_height (snapshot_scene v) = sc_grid_height v"
  "sc_objects (snapshot_scene v) = sc_objects v"
  "sc_explored (snapshot_scene v) = sc_explored v"
  "sc_visible (snapshot_scene v) = sc_visible v"
  "go_get (sc_tiles (snapshot_scene v)) k = go_get (sc_tiles v) k"
  "go_flag (sc_open_doors (snapshot_scene v)) k = go_flag (sc_open_doors v) k"
  by (simp_all add: snapshot_scene_def go_flag_def split: option.splits)

lemma snapshot_simps [simp]:
  "st_actors (snapshot st) = st_actors st"
  "st_tokens (snapshot st) = st_tokens st"
  "st_sessions (snapshot st) = st_sessions st"
  "st_conditions (snapshot st) = st_conditions st"
  "st_notes (snapshot st) = st_notes st"
  "fmlookup (st_scenes (snapshot st)) k = map_option snapshot_scene (fmlookup (st_scenes st) k)"
  by (simp_all add: snapshot_def)

text \<open>On scenes whose maps are non-nil a snapshot is the scene itself.\<close>

definition scene_made :: "scene \<Rightarrow> bool" where
  "scene_made sc = (sc_tiles sc \<noteq> None \<and> sc_open_doors sc \<noteq> None)"

lemma snapshot_scene_id: "scene_made v \<Longrightarrow> snapshot_scene v = v"
  by (cases v) (auto simp: snapshot_scene_def scene_made_def split: option.splits)

lemma scene_made_snapshot [simp]: "scene_made (snapshot_scene v)"
  by (simp add: snapshot_scene_def scene_made_def)

lemma snapshot_id:
  assumes "\<And>k v. fmlookup (st_scenes st) k = Some v \<Longrightarrow> scene_made v"
  shows "snapshot st = st"
proof -
  have "fmlookup (fmmap snapshot_scene (st_scenes st)) k = fmlookup (st_scenes st) k" for k
    using assms[of k] by (cases "fmlookup (st_scenes st) k") (auto simp: snapshot_scene_id)
  then have "fmmap snapshot_scene (st_scenes st) = st_scenes st" by (rule fmap_ext)
  then show ?thesis by (simp add: snapshot_def)
qed

subsection \<open>Terrain\<close>

definition is_party_member :: "actor option \<Rightarrow> bool" where
  "is_party_member a = (case a of None \<Rightarrow> False | Some x \<Rightarrow> actor_kind_of x = KIND_PARTY_MEMBER)"

definition grid_key :: "int32 \<Rightarrow> int32 \<Rightarrow> string" where
  "grid_key x y = show_int (sint x) @ CHR '','' # show_int (sint y)"

lemma grid_key_inj [simp]: "grid_key x y = grid_key x' y' \<longleftrightarrow> x = x' \<and> y = y'"
  by (simp add: grid_key_def append_sep_inj)

text \<open>The sums are Go's \<open>int32\<close> sums: they wrap.\<close>

definition covers :: "scene_object \<Rightarrow> int32 \<Rightarrow> int32 \<Rightarrow> bool" where
  "covers ob x y =
     (sint (so_x ob) \<le> sint x \<and> sint x < sint (so_x ob + so_width ob) \<and>
      sint (so_y ob) \<le> sint y \<and> sint y < sint (so_y ob + so_height ob))"

datatype block_reason = UnknownScene string | OutsideGrid | AWall | AClosedDoor | Scenery string

text \<open>\<^term>\<open>Some r\<close> is \<open>(true, r)\<close>, \<^const>\<open>None\<close> is \<open>(false, "")\<close>.\<close>

fun blocked_by_objects :: "scene_object list \<Rightarrow> int32 \<Rightarrow> int32 \<Rightarrow> block_reason option" where
  "blocked_by_objects [] x y = None"
| "blocked_by_objects (ob # obs) x y =
     (if so_blocks_move ob \<and> covers ob x y then Some (Scenery (so_kind ob))
      else blocked_by_objects obs x y)"

text \<open>The kind of the tile at a key; the zero \<open>Tile\<close> of an absent one has kind \<open>""\<close>.\<close>

definition tile_kind_at :: "scene \<Rightarrow> string \<Rightarrow> string" where
  "tile_kind_at sc k = (case go_get (sc_tiles sc) k of None \<Rightarrow> [] | Some t \<Rightarrow> tile_kind t)"

definition blocked :: "state \<Rightarrow> string \<Rightarrow> int32 \<Rightarrow> int32 \<Rightarrow> block_reason option" where
  "blocked st scene_id x y =
     (case fmlookup (st_scenes st) scene_id of
        None \<Rightarrow> Some (UnknownScene scene_id)
      | Some sc \<Rightarrow>
          if sint x < 0 \<or> sint y < 0 \<or> sint (sc_grid_width sc) \<le> sint x \<or> sint (sc_grid_height sc) \<le> sint y
          then Some OutsideGrid
          else let key = grid_key x y; k = tile_kind_at sc key in
            if k = ''wall'' then Some AWall
            else if k = ''door'' \<and> \<not> go_flag (sc_open_doors sc) key then Some AClosedDoor
            else blocked_by_objects (sc_objects sc) x y)"

definition is_door :: "state \<Rightarrow> string \<Rightarrow> int32 \<Rightarrow> int32 \<Rightarrow> bool" where
  "is_door st scene_id x y =
     (case fmlookup (st_scenes st) scene_id of
        None \<Rightarrow> False
      | Some sc \<Rightarrow> tile_kind_at sc (grid_key x y) = ''door'')"

lemma blocked_by_objects_iff:
  "blocked_by_objects obs x y \<noteq> None \<longleftrightarrow> (\<exists>ob \<in> set obs. so_blocks_move ob \<and> covers ob x y)"
  by (induction obs) auto

text \<open>When the corner and the far edge fit \<open>int32\<close>, a footprint is the rectangle it names.\<close>

lemma covers_rectangle:
  assumes "sint (so_x ob) + sint (so_width ob) < 2147483648" "0 \<le> sint (so_width ob)"
    and "sint (so_y ob) + sint (so_height ob) < 2147483648" "0 \<le> sint (so_height ob)"
  shows "covers ob x y \<longleftrightarrow>
     sint x \<in> {sint (so_x ob) ..< sint (so_x ob) + sint (so_width ob)} \<and>
     sint y \<in> {sint (so_y ob) ..< sint (so_y ob) + sint (so_height ob)}"
  using assms sint32_bounds[of "so_x ob"] sint32_bounds[of "so_y ob"]
  by (auto simp: covers_def sint_add_int32)

end
