(* ===== verification/Fold.thy ===== *)
theory Fold
  imports World
begin

text \<open>
  The fold of \<open>internal/engine/apply.go\<close>: one definition per arm of \<open>Apply\<close>'s switch
  (collected in \<open>fold_arms\<close>), with its guards in the code's order, and \<open>apply_event\<close>
  that dispatches on the payload. A refusal is a value of \<open>apply_error\<close>, one
  constructor per wording. The invariants of the state it builds are in \<open>Fold_Inv\<close>.
\<close>

datatype apply_error =
    ErrUnknownVariant
  | ErrSessionAlreadyOpen
  | ErrNoOpenSession
  | ErrAtMost string nat nat \<comment> \<open>\<open>must be at most %d bytes, got %d\<close>\<close>
  | ErrOneTo string nat nat \<comment> \<open>\<open>must be 1-%d bytes, got %d\<close>\<close>
  | ErrSceneExists string
  | ErrDuplicateObject string string
  | ErrActorRequired
  | ErrActorExists string
  | ErrActorDeclaresController string
  | ErrParticipantRequired string
  | ErrUnknownActor string string
  | ErrUnknownScene string string
  | ErrUnknownToken string string
  | ErrUnknownResource string string
  | ErrTokenExists string
  | ErrNoPosition string
  | ErrStandingToken string string
  | ErrNewValue string string int32 go_int
  | ErrConditionPresent string string
  | ErrConditionAbsent string string
  | ErrAnchorNegative int int
  | ErrAnchorHalf int int
  | ErrAnchorOrder int int
  | ErrAnchorForward int int
  | ErrNoteAbsent string

subsection \<open>Bounds\<close>

definition max_note_key_bytes :: nat where [simp]: "max_note_key_bytes = 128"
definition max_note_title_bytes :: nat where [simp]: "max_note_title_bytes = 256"
definition max_text_bytes :: nat where [simp]: "max_text_bytes = 8192"
definition max_narration_as_bytes :: nat where [simp]: "max_narration_as_bytes = 256"
definition max_move_reason_bytes :: nat where [simp]: "max_move_reason_bytes = 256"
definition max_name_bytes :: nat where [simp]: "max_name_bytes = 256"
definition max_id_bytes :: nat where [simp]: "max_id_bytes = 128"

definition bad_id :: "string \<Rightarrow> bool" where
  "bad_id s = (length s = 0 \<or> max_id_bytes < length s)"

subsection \<open>Helpers\<close>

text \<open>The length a refusal names: \<^const>\<open>None\<close> for no keys, 0 when a key is empty,
  otherwise the longest.\<close>

definition key_length :: "(string, 'v) fmap \<Rightarrow> nat option" where
  "key_length m =
     (if keys m = [] then None
      else if fmlookup m [] \<noteq> None then Some 0
      else Some (fold (\<lambda>k n. max n (length k)) (keys m) 0))"

definition bad_keys :: "(string, 'v) fmap \<Rightarrow> bool" where
  "bad_keys m = (case key_length m of None \<Rightarrow> False | Some n \<Rightarrow> n = 0 \<or> max_id_bytes < n)"

definition tile_of_ref :: "tile_ref \<Rightarrow> tile" where
  "tile_of_ref t = \<lparr>tile_kind = tr_kind t, tile_material = tr_material t, tile_art = tr_art t\<rparr>"

definition object_of_wire :: "wire_object \<Rightarrow> scene_object" where
  "object_of_wire w =
     \<lparr>so_object_id = wo_object_id w, so_kind = wo_kind w,
      so_x = pos_x (wo_at w), so_y = pos_y (wo_at w),
      so_width = wo_width w, so_height = wo_height w,
      so_rotation = wo_rotation w,
      so_blocks_sight = wo_blocks_sight w, so_blocks_move = wo_blocks_move w,
      so_art = wo_art w\<rparr>"

definition control_target :: "state \<Rightarrow> string \<Rightarrow> string \<Rightarrow> string \<Rightarrow> apply_error + actor" where
  "control_target st aid pid event =
     (if pid = [] then Inl (ErrParticipantRequired event)
      else if max_id_bytes < length pid then Inl (ErrAtMost ''participant id'' max_id_bytes (length pid))
      else case fmlookup (st_actors st) aid of
        None \<Rightarrow> Inl (ErrUnknownActor event aid)
      | Some a \<Rightarrow> Inr a)"

definition mirror_control :: "actor \<Rightarrow> actor" where
  "mirror_control a =
     (case actor_controller_ids a of
        [] \<Rightarrow> a\<lparr>actor_controller_id := []\<rparr>
      | c # _ \<Rightarrow> a\<lparr>actor_controller_id := c\<rparr>)"

text \<open>\<open>byID\<close> maps an id to its index in \<open>have\<close>; a later duplicate overwrites an earlier.\<close>

fun index_objects :: "nat \<Rightarrow> scene_object list \<Rightarrow> (string, nat) fmap \<Rightarrow> (string, nat) fmap" where
  "index_objects i [] by_id = by_id"
| "index_objects i (ob # obs) by_id = index_objects (Suc i) obs (fmupd (so_object_id ob) i by_id)"

fun merge_loop :: "(string, nat) fmap \<Rightarrow> scene_object list \<Rightarrow> wire_object list \<Rightarrow> scene_object list" where
  "merge_loop by_id have [] = have"
| "merge_loop by_id have (w # ws) =
     (let got = object_of_wire w in
      case fmlookup by_id (so_object_id got) of
        Some i \<Rightarrow> merge_loop by_id (have[i := got]) ws
      | None \<Rightarrow> merge_loop (fmupd (so_object_id got) (length have) by_id) (have @ [got]) ws)"

definition merge_objects :: "scene_object list \<Rightarrow> wire_object list \<Rightarrow> scene_object list" where
  "merge_objects have incoming = merge_loop (index_objects 0 have fmempty) have incoming"

text \<open>The loop over a created scene's objects, with the ids it has seen.\<close>

fun created_objects :: "string \<Rightarrow> string set \<Rightarrow> wire_object list \<Rightarrow> apply_error + scene_object list" where
  "created_objects scene_id seen [] = Inr []"
| "created_objects scene_id seen (w # ws) =
     (if bad_id (wo_object_id w)
      then Inl (ErrOneTo ''object id'' max_id_bytes (length (wo_object_id w)))
      else if wo_object_id w \<in> seen then Inl (ErrDuplicateObject (wo_object_id w) scene_id)
      else case created_objects scene_id (insert (wo_object_id w) seen) ws of
        Inl e \<Rightarrow> Inl e
      | Inr obs \<Rightarrow> Inr (object_of_wire w # obs))"

text \<open>The least id among an actor's tokens, \<open>""\<close> when it has none: Go ranges over the map
  in random order and keeps the smallest, so the order of the walk does not matter.\<close>

definition standing_token :: "state \<Rightarrow> string \<Rightarrow> string" where
  "standing_token st aid =
     fold (\<lambda>id standing.
        case fmlookup (st_tokens st) id of
          None \<Rightarrow> standing
        | Some tok \<Rightarrow>
            if tok_actor_id tok = aid \<and> (standing = [] \<or> id < standing) then id else standing)
       (keys (st_tokens st)) []"

subsection \<open>Arms: sessions and scenes\<close>

definition apply_session_started :: "state \<Rightarrow> envelope \<Rightarrow> string \<Rightarrow> apply_error + state" where
  [fold_arms]: "apply_session_started st env name =
     (if open_session st \<noteq> None then Inl ErrSessionAlreadyOpen
      else if max_name_bytes < length name
      then Inl (ErrAtMost ''session name'' max_name_bytes (length name))
      else if bad_id (env_session_id env)
      then Inl (ErrOneTo ''session id'' max_id_bytes (length (env_session_id env)))
      else Inr (st\<lparr>st_sessions := st_sessions st @
             [\<lparr>ses_id = env_session_id env, ses_name = name,
               ses_start = env_sequence env, ses_end = 0\<rparr>]\<rparr>))"

definition apply_session_ended :: "state \<Rightarrow> envelope \<Rightarrow> apply_error + state" where
  [fold_arms]: "apply_session_ended st env =
     (case open_session st of
        None \<Rightarrow> Inl ErrNoOpenSession
      | Some i \<Rightarrow> Inr (st\<lparr>st_sessions :=
          (st_sessions st)[i := (st_sessions st ! i)\<lparr>ses_end := env_sequence env\<rparr>]\<rparr>))"

definition apply_scene_created :: "state \<Rightarrow> scene_created \<Rightarrow> apply_error + state" where
  [fold_arms]: "apply_scene_created st sc =
     (if bad_id (scr_scene_id sc)
      then Inl (ErrOneTo ''scene id'' max_id_bytes (length (scr_scene_id sc)))
      else if fmlookup (st_scenes st) (scr_scene_id sc) \<noteq> None
      then Inl (ErrSceneExists (scr_scene_id sc))
      else if max_name_bytes < length (scr_name sc)
      then Inl (ErrAtMost ''scene name'' max_name_bytes (length (scr_name sc)))
      else case created_objects (scr_scene_id sc) {} (scr_objects sc) of
        Inl e \<Rightarrow> Inl e
      | Inr obs \<Rightarrow> Inr (st\<lparr>st_scenes := fmupd (scr_scene_id sc)
          \<lparr>sc_id = scr_scene_id sc, sc_name = scr_name sc,
           sc_grid_width = scr_grid_width sc, sc_grid_height = scr_grid_height sc,
           sc_tiles = Some (fmmap tile_of_ref (scr_tiles sc)), sc_objects = obs,
           sc_open_doors = Some fmempty, sc_explored = None, sc_visible = None\<rparr>
          (st_scenes st)\<rparr>))"

definition put_scene :: "state \<Rightarrow> string \<Rightarrow> scene \<Rightarrow> state" where
  "put_scene st k sc = st\<lparr>st_scenes := fmupd k sc (st_scenes st)\<rparr>"

definition apply_door_opened :: "state \<Rightarrow> string \<Rightarrow> grid_position option \<Rightarrow> apply_error + state" where
  [fold_arms]: "apply_door_opened st sid at =
     (case fmlookup (st_scenes st) sid of
        None \<Rightarrow> Inl (ErrUnknownScene ''door opened'' sid)
      | Some sc \<Rightarrow>
          (case at of
             None \<Rightarrow> Inl (ErrNoPosition ''door opened'')
           | Some p \<Rightarrow> Inr (put_scene st sid (sc\<lparr>sc_open_doors :=
               Some (fmupd (grid_key (gp_x p) (gp_y p)) True (go_make (sc_open_doors sc)))\<rparr>))))"

definition apply_door_closed :: "state \<Rightarrow> string \<Rightarrow> grid_position option \<Rightarrow> apply_error + state" where
  [fold_arms]: "apply_door_closed st sid at =
     (case fmlookup (st_scenes st) sid of
        None \<Rightarrow> Inl (ErrUnknownScene ''door closed'' sid)
      | Some sc \<Rightarrow>
          (case at of
             None \<Rightarrow> Inl (ErrNoPosition ''door closed'')
           | Some p \<Rightarrow> Inr (put_scene st sid (sc\<lparr>sc_open_doors :=
               Some (fmdrop (grid_key (gp_x p) (gp_y p)) (go_make (sc_open_doors sc)))\<rparr>))))"

text \<open>\<open>Visible\<close> is replaced by the message's own list; \<open>Tiles\<close> and \<open>Explored\<close> gain its tiles.\<close>

definition apply_scene_seen :: "state \<Rightarrow> scene_seen \<Rightarrow> apply_error + state" where
  [fold_arms]: "apply_scene_seen st ss =
     (case fmlookup (st_scenes st) (ssn_scene_id ss) of
        None \<Rightarrow> Inl (ErrUnknownScene ''scene seen'' (ssn_scene_id ss))
      | Some sc \<Rightarrow>
          let tiles = go_make (sc_tiles sc) ++\<^sub>f fmmap tile_of_ref (ssn_tiles ss);
              explored = go_make (sc_explored sc) ++\<^sub>f fmmap (\<lambda>_. True) (ssn_tiles ss);
              visible = fold (\<lambda>sq m. fmupd sq True m) (ssn_visible ss) fmempty;
              objs = (if 0 < length (ssn_objects ss) then merge_objects (sc_objects sc) (ssn_objects ss)
                      else sc_objects sc)
          in Inr (put_scene st (ssn_scene_id ss)
               (sc\<lparr>sc_tiles := Some tiles, sc_explored := Some explored,
                   sc_visible := Some visible, sc_objects := objs\<rparr>)))"

subsection \<open>Arms: actors\<close>

definition put_actor :: "state \<Rightarrow> string \<Rightarrow> actor \<Rightarrow> state" where
  "put_actor st k a = st\<lparr>st_actors := fmupd k a (st_actors st)\<rparr>"

definition apply_actor_added :: "state \<Rightarrow> actor option \<Rightarrow> apply_error + state" where
  [fold_arms]: "apply_actor_added st ao =
     (case ao of
        None \<Rightarrow> Inl ErrActorRequired
      | Some a \<Rightarrow>
          if actor_id a = [] then Inl ErrActorRequired
          else if max_id_bytes < length (actor_id a)
          then Inl (ErrAtMost ''actor id'' max_id_bytes (length (actor_id a)))
          else if fmlookup (st_actors st) (actor_id a) \<noteq> None then Inl (ErrActorExists (actor_id a))
          else if actor_controller_id a \<noteq> [] \<or> 0 < length (actor_controller_ids a)
          then Inl (ErrActorDeclaresController (actor_id a))
          else if max_name_bytes < length (actor_name a)
          then Inl (ErrAtMost ''actor name'' max_name_bytes (length (actor_name a)))
          else if max_id_bytes < length (actor_module_id a)
          then Inl (ErrAtMost ''module id'' max_id_bytes (length (actor_module_id a)))
          else if bad_keys (actor_resources a)
          then Inl (ErrOneTo ''resource name'' max_id_bytes (the (key_length (actor_resources a))))
          else if bad_keys (actor_attributes a)
          then Inl (ErrOneTo ''attribute name'' max_id_bytes (the (key_length (actor_attributes a))))
          else Inr (put_actor st (actor_id a) a))"

definition apply_control_granted :: "state \<Rightarrow> control_granted \<Rightarrow> apply_error + state" where
  [fold_arms]: "apply_control_granted st g =
     (case control_target st (cg_actor_id g) (cg_participant_id g) ''actor_control_granted'' of
        Inl e \<Rightarrow> Inl e
      | Inr a0 \<Rightarrow>
          let a = (if cg_kind g \<noteq> KIND_UNSPECIFIED then a0\<lparr>actor_kind_of := cg_kind g\<rparr> else a0)
          in if cg_participant_id g \<in> set (actor_controller_ids a)
             then Inr (put_actor st (cg_actor_id g) a)
             else Inr (put_actor st (cg_actor_id g) (mirror_control
                    (a\<lparr>actor_controller_ids := actor_controller_ids a @ [cg_participant_id g]\<rparr>))))"

definition apply_control_revoked :: "state \<Rightarrow> string \<Rightarrow> string \<Rightarrow> apply_error + state" where
  [fold_arms]: "apply_control_revoked st aid pid =
     (case control_target st aid pid ''actor_control_revoked'' of
        Inl e \<Rightarrow> Inl e
      | Inr a \<Rightarrow> Inr (put_actor st aid (mirror_control
          (a\<lparr>actor_controller_ids := filter (\<lambda>id. id \<noteq> pid) (actor_controller_ids a)\<rparr>))))"

definition apply_actor_removed :: "state \<Rightarrow> string \<Rightarrow> apply_error + state" where
  [fold_arms]: "apply_actor_removed st aid =
     (if fmlookup (st_actors st) aid = None then Inl (ErrUnknownActor ''removed'' aid)
      else if standing_token st aid \<noteq> [] then Inl (ErrStandingToken aid (standing_token st aid))
      else Inr (st\<lparr>st_actors := fmdrop aid (st_actors st),
                   st_conditions := fmdrop aid (st_conditions st)\<rparr>))"

text \<open>The clamp is computed in \<open>int64\<close> and compared with the event's own new value.\<close>

definition clamped_value :: "resource \<Rightarrow> int32 \<Rightarrow> go_int" where
  "clamped_value res delta =
     (let computed = widen (res_current res) + widen delta;
          computed = (if sint computed < 0 then 0 else computed)
      in if 0 < sint (res_max res) \<and> sint (widen (res_max res)) < sint computed
         then widen (res_max res) else computed)"

definition apply_resource_changed :: "state \<Rightarrow> resource_changed \<Rightarrow> apply_error + state" where
  [fold_arms]: "apply_resource_changed st rc =
     (case fmlookup (st_actors st) (rc_actor_id rc) of
        None \<Rightarrow> Inl (ErrUnknownActor ''resource changed'' (rc_actor_id rc))
      | Some a \<Rightarrow>
          (case fmlookup (actor_resources a) (rc_resource rc) of
             None \<Rightarrow> Inl (ErrUnknownResource (rc_resource rc) (rc_actor_id rc))
           | Some res \<Rightarrow>
               let computed = clamped_value res (rc_delta rc) in
               if computed \<noteq> widen (rc_new_value rc)
               then Inl (ErrNewValue (rc_resource rc) (rc_actor_id rc) (rc_new_value rc) computed)
               else Inr (put_actor st (rc_actor_id rc) (a\<lparr>actor_resources :=
                      fmupd (rc_resource rc)
                        \<lparr>res_current = narrow computed, res_max = res_max res\<rparr>
                        (actor_resources a)\<rparr>))))"

definition apply_condition_applied :: "state \<Rightarrow> envelope \<Rightarrow> condition_event \<Rightarrow> apply_error + state" where
  [fold_arms]: "apply_condition_applied st env ca =
     (if bad_id (ce_condition_id ca)
      then Inl (ErrOneTo ''condition id'' max_id_bytes (length (ce_condition_id ca)))
      else if fmlookup (st_actors st) (ce_actor_id ca) = None
      then Inl (ErrUnknownActor ''condition applied'' (ce_actor_id ca))
      else if ce_condition_id ca \<in> ac_id ` set (conditions_of st (ce_actor_id ca))
      then Inl (ErrConditionPresent (ce_condition_id ca) (ce_actor_id ca))
      else Inr (st\<lparr>st_conditions := fmupd (ce_actor_id ca)
             (conditions_of st (ce_actor_id ca) @
               [\<lparr>ac_id = ce_condition_id ca, ac_source = ce_source ca, ac_applied_seq = env_sequence env\<rparr>])
             (st_conditions st)\<rparr>))"

text \<open>\<open>append(list[:idx], list[idx+1:]...)\<close> at the first index that matches.\<close>

fun remove_first_condition :: "string \<Rightarrow> actor_condition list \<Rightarrow> actor_condition list option" where
  "remove_first_condition cid [] = None"
| "remove_first_condition cid (c # cs) =
     (if ac_id c = cid then Some cs else map_option ((#) c) (remove_first_condition cid cs))"

definition apply_condition_removed :: "state \<Rightarrow> condition_event \<Rightarrow> apply_error + state" where
  [fold_arms]: "apply_condition_removed st cr =
     (if fmlookup (st_actors st) (ce_actor_id cr) = None
      then Inl (ErrUnknownActor ''condition removed'' (ce_actor_id cr))
      else case remove_first_condition (ce_condition_id cr) (conditions_of st (ce_actor_id cr)) of
        None \<Rightarrow> Inl (ErrConditionAbsent (ce_condition_id cr) (ce_actor_id cr))
      | Some cs \<Rightarrow> Inr (st\<lparr>st_conditions := fmupd (ce_actor_id cr) cs (st_conditions st)\<rparr>))"

subsection \<open>Arms: tokens\<close>

definition put_token :: "state \<Rightarrow> string \<Rightarrow> token \<Rightarrow> state" where
  "put_token st k t = st\<lparr>st_tokens := fmupd k t (st_tokens st)\<rparr>"

definition apply_token_placed :: "state \<Rightarrow> token_placed \<Rightarrow> apply_error + state" where
  [fold_arms]: "apply_token_placed st tp =
     (if bad_id (tp_token_id tp)
      then Inl (ErrOneTo ''token id'' max_id_bytes (length (tp_token_id tp)))
      else if fmlookup (st_tokens st) (tp_token_id tp) \<noteq> None then Inl (ErrTokenExists (tp_token_id tp))
      else if fmlookup (st_scenes st) (tp_scene_id tp) = None
      then Inl (ErrUnknownScene ''token placed'' (tp_scene_id tp))
      else if fmlookup (st_actors st) (tp_actor_id tp) = None
      then Inl (ErrUnknownActor ''token placed'' (tp_actor_id tp))
      else case tp_position tp of
        None \<Rightarrow> Inl (ErrNoPosition ''token placed'')
      | Some p \<Rightarrow> Inr (put_token st (tp_token_id tp)
          \<lparr>tok_id = tp_token_id tp, tok_scene_id = tp_scene_id tp, tok_actor_id = tp_actor_id tp,
           tok_x = gp_x p, tok_y = gp_y p,
           tok_name = tp_name tp, tok_notes = tp_notes tp,
           tok_gm_name = tp_gm_name tp, tok_gm_notes = tp_gm_notes tp\<rparr>))"

definition apply_token_described :: "state \<Rightarrow> token_described \<Rightarrow> apply_error + state" where
  [fold_arms]: "apply_token_described st td =
     (case fmlookup (st_tokens st) (td_token_id td) of
        None \<Rightarrow> Inl (ErrUnknownToken ''described'' (td_token_id td))
      | Some tok \<Rightarrow> Inr (put_token st (td_token_id td)
          (tok\<lparr>tok_name := td_name td, tok_notes := td_notes td,
               tok_gm_name := td_gm_name td, tok_gm_notes := td_gm_notes td\<rparr>)))"

definition apply_token_moved :: "state \<Rightarrow> token_moved \<Rightarrow> apply_error + state" where
  [fold_arms]: "apply_token_moved st tm =
     (case fmlookup (st_tokens st) (tm_token_id tm) of
        None \<Rightarrow> Inl (ErrUnknownToken ''moved'' (tm_token_id tm))
      | Some tok \<Rightarrow>
          (case tm_to tm of
             None \<Rightarrow> Inl (ErrNoPosition ''token move'')
           | Some p \<Rightarrow>
               if max_move_reason_bytes < length (tm_reason tm)
               then Inl (ErrAtMost ''move reason'' max_move_reason_bytes (length (tm_reason tm)))
               else if bad_id (tm_scene_id tm)
               then Inl (ErrOneTo ''move scene id'' max_id_bytes (length (tm_scene_id tm)))
               else Inr (put_token st (tm_token_id tm) (tok\<lparr>tok_x := gp_x p, tok_y := gp_y p\<rparr>))))"

definition apply_token_removed :: "state \<Rightarrow> string \<Rightarrow> apply_error + state" where
  [fold_arms]: "apply_token_removed st tid =
     (if fmlookup (st_tokens st) tid = None then Inl (ErrUnknownToken ''removed'' tid)
      else Inr (st\<lparr>st_tokens := fmdrop tid (st_tokens st)\<rparr>))"

definition apply_token_hidden :: "state \<Rightarrow> string \<Rightarrow> apply_error + state" where
  [fold_arms]: "apply_token_hidden st tid = Inr (st\<lparr>st_tokens := fmdrop tid (st_tokens st)\<rparr>)"

subsection \<open>Arms: testimony, speech and notes\<close>

definition apply_ability_used :: "state \<Rightarrow> ability_used \<Rightarrow> apply_error + state" where
  [fold_arms]: "apply_ability_used st au =
     (if bad_id (au_ability_id au)
      then Inl (ErrOneTo ''ability id'' max_id_bytes (length (au_ability_id au)))
      else Inr st)"

definition apply_adventure_loaded :: "state \<Rightarrow> string \<Rightarrow> string \<Rightarrow> apply_error + state" where
  [fold_arms]: "apply_adventure_loaded st adv name =
     (if bad_id adv then Inl (ErrOneTo ''adventure id'' max_id_bytes (length adv))
      else if max_name_bytes < length name
      then Inl (ErrAtMost ''adventure name'' max_name_bytes (length name))
      else Inr st)"

definition apply_narration_added :: "state \<Rightarrow> envelope \<Rightarrow> narration_added \<Rightarrow> apply_error + state" where
  [fold_arms]: "apply_narration_added st env na =
     (let f = na_anchor_from na; t = na_anchor_to na in
      if length (na_text na) = 0 \<or> max_text_bytes < length (na_text na)
      then Inl (ErrOneTo ''narration text'' max_text_bytes (length (na_text na)))
      else if max_narration_as_bytes < length (na_as na)
      then Inl (ErrAtMost ''narration as'' max_narration_as_bytes (length (na_as na)))
      else if f < 0 \<or> t < 0 then Inl (ErrAnchorNegative f t)
      else if f \<noteq> 0 \<or> t \<noteq> 0 then
        (if f = 0 \<or> t = 0 then Inl (ErrAnchorHalf f t)
         else if t < f then Inl (ErrAnchorOrder f t)
         else if env_sequence env \<le> t then Inl (ErrAnchorForward t (env_sequence env))
         else Inr st)
      else Inr st)"

fun first_unknown :: "state \<Rightarrow> string list \<Rightarrow> string option" where
  "first_unknown st [] = None"
| "first_unknown st (aid # aids) =
     (if fmlookup (st_actors st) aid = None then Some aid else first_unknown st aids)"

definition apply_whisper_added :: "state \<Rightarrow> whisper_added \<Rightarrow> apply_error + state" where
  [fold_arms]: "apply_whisper_added st w =
     (if length (wa_text w) = 0 \<or> max_text_bytes < length (wa_text w)
      then Inl (ErrOneTo ''whisper text'' max_text_bytes (length (wa_text w)))
      else case first_unknown st (wa_to_actor_ids w) of
        Some aid \<Rightarrow> Inl (ErrUnknownActor ''whisper'' aid)
      | None \<Rightarrow>
          if wa_from_actor_id w \<noteq> [] \<and> fmlookup (st_actors st) (wa_from_actor_id w) = None
          then Inl (ErrUnknownActor ''whisper'' (wa_from_actor_id w))
          else Inr st)"

definition apply_note_upserted :: "state \<Rightarrow> envelope \<Rightarrow> note_upserted \<Rightarrow> apply_error + state" where
  [fold_arms]: "apply_note_upserted st env nu =
     (if length (nu_key nu) = 0 \<or> max_note_key_bytes < length (nu_key nu)
      then Inl (ErrOneTo ''note key'' max_note_key_bytes (length (nu_key nu)))
      else if max_note_title_bytes < length (nu_title nu)
      then Inl (ErrAtMost ''note title'' max_note_title_bytes (length (nu_title nu)))
      else if length (nu_text nu) = 0 \<or> max_text_bytes < length (nu_text nu)
      then Inl (ErrOneTo ''note text'' max_text_bytes (length (nu_text nu)))
      else Inr (st\<lparr>st_notes := fmupd (nu_key nu)
             \<lparr>wn_title = nu_title nu, wn_text = nu_text nu,
              wn_updated_seq = env_sequence env, wn_visibility = nu_visibility nu\<rparr>
             (st_notes st)\<rparr>))"

definition apply_note_deleted :: "state \<Rightarrow> string \<Rightarrow> apply_error + state" where
  [fold_arms]: "apply_note_deleted st key =
     (if fmlookup (st_notes st) key = None then Inl (ErrNoteAbsent key)
      else Inr (st\<lparr>st_notes := fmdrop key (st_notes st)\<rparr>))"

subsection \<open>The fold\<close>

definition apply_payload :: "state \<Rightarrow> envelope \<Rightarrow> payload \<Rightarrow> apply_error + state" where
  "apply_payload st env p =
     (case p of
        SessionStarted name \<Rightarrow> apply_session_started st env name
      | SessionEnded \<Rightarrow> apply_session_ended st env
      | SceneCreated sc \<Rightarrow> apply_scene_created st sc
      | ActorAdded a \<Rightarrow> apply_actor_added st a
      | ActorControlGranted g \<Rightarrow> apply_control_granted st g
      | ActorControlRevoked aid pid \<Rightarrow> apply_control_revoked st aid pid
      | TokenPlaced tp \<Rightarrow> apply_token_placed st tp
      | TokenDescribed td \<Rightarrow> apply_token_described st td
      | TokenMoved tm \<Rightarrow> apply_token_moved st tm
      | TokenRemoved tid \<Rightarrow> apply_token_removed st tid
      | ActorRemoved aid \<Rightarrow> apply_actor_removed st aid
      | DoorOpened sid at \<Rightarrow> apply_door_opened st sid at
      | DoorClosed sid at \<Rightarrow> apply_door_closed st sid at
      | AttackRolled _ \<Rightarrow> Inr st
      | AbilityUsed au \<Rightarrow> apply_ability_used st au
      | AdventureLoaded adv name \<Rightarrow> apply_adventure_loaded st adv name
      | ResourceChanged rc \<Rightarrow> apply_resource_changed st rc
      | ConditionApplied ca \<Rightarrow> apply_condition_applied st env ca
      | NarrationAdded na \<Rightarrow> apply_narration_added st env na
      | WhisperAdded w \<Rightarrow> apply_whisper_added st w
      | NoteUpserted nu \<Rightarrow> apply_note_upserted st env nu
      | NoteDeleted key \<Rightarrow> apply_note_deleted st key
      | TokenHidden tid \<Rightarrow> apply_token_hidden st tid
      | SceneSeen ss \<Rightarrow> apply_scene_seen st ss
      | ConditionRemoved cr \<Rightarrow> apply_condition_removed st cr)"

definition apply_event :: "state \<Rightarrow> envelope \<Rightarrow> apply_error + state" where
  "apply_event st env =
     (case env_payload env of
        None \<Rightarrow> Inl ErrUnknownVariant
      | Some p \<Rightarrow> apply_payload st env p)"

definition apply_events :: "state \<Rightarrow> envelope list \<Rightarrow> apply_error + state" where
  "apply_events = fold_res apply_event"

end
