(* ===== verification/Fold_Inv.thy ===== *)
theory Fold_Inv
  imports Fold
begin

text \<open>
  The invariant the fold keeps. \<open>wf_state\<close> says that every entry is filed under its own
  id, that ids are within their bounds, that a token's scene and actor and a condition's
  actor are in the state, that the controller mirror agrees with the controller list, and
  that at most the last session is open. One preservation lemma per arm (collected in
  \<open>fold_wf\<close>), then \<open>apply_event_wf\<close> for all of them.
\<close>

named_theorems fold_wf \<comment> \<open>preservation of \<open>wf_state\<close>, one fact per arm\<close>

subsection \<open>The invariant\<close>

definition wf_scene :: "string \<Rightarrow> scene \<Rightarrow> bool" where
  [wf_defs]: "wf_scene k sc =
     (sc_id sc = k \<and> \<not> bad_id k \<and> scene_made sc \<and> distinct (map so_object_id (sc_objects sc)))"

definition control_ok :: "actor \<Rightarrow> bool" where
  [wf_defs]: "control_ok a =
     (distinct (actor_controller_ids a) \<and>
      (\<forall>c \<in> set (actor_controller_ids a). \<not> bad_id c) \<and>
      actor_controller_id a = (case actor_controller_ids a of [] \<Rightarrow> [] | c # _ \<Rightarrow> c))"

definition wf_actor :: "string \<Rightarrow> actor \<Rightarrow> bool" where
  [wf_defs]: "wf_actor k a = (actor_id a = k \<and> \<not> bad_id k \<and> control_ok a)"

definition wf_token :: "state \<Rightarrow> string \<Rightarrow> token \<Rightarrow> bool" where
  [wf_defs]: "wf_token st k t =
     (tok_id t = k \<and> \<not> bad_id k \<and>
      tok_scene_id t \<in> fmdom' (st_scenes st) \<and> tok_actor_id t \<in> fmdom' (st_actors st))"

definition wf_conditions :: "state \<Rightarrow> string \<Rightarrow> actor_condition list \<Rightarrow> bool" where
  [wf_defs]: "wf_conditions st k cs =
     (k \<in> fmdom' (st_actors st) \<and> distinct (map ac_id cs) \<and> (\<forall>c \<in> set cs. \<not> bad_id (ac_id c)))"

definition wf_sessions :: "session list \<Rightarrow> bool" where
  [wf_defs]: "wf_sessions ss = (\<forall>i < length ss. ses_end (ss ! i) = 0 \<longrightarrow> Suc i = length ss)"

definition wf_state :: "state \<Rightarrow> bool" where
  [wf_defs]: "wf_state st =
     ((\<forall>k sc. fmlookup (st_scenes st) k = Some sc \<longrightarrow> wf_scene k sc) \<and>
      (\<forall>k a. fmlookup (st_actors st) k = Some a \<longrightarrow> wf_actor k a) \<and>
      (\<forall>k t. fmlookup (st_tokens st) k = Some t \<longrightarrow> wf_token st k t) \<and>
      (\<forall>k cs. fmlookup (st_conditions st) k = Some cs \<longrightarrow> wf_conditions st k cs) \<and>
      wf_sessions (st_sessions st))"

lemma wf_stateD:
  assumes "wf_state st"
  shows "fmlookup (st_scenes st) k = Some sc \<Longrightarrow> wf_scene k sc"
    and "fmlookup (st_actors st) k = Some a \<Longrightarrow> wf_actor k a"
    and "fmlookup (st_tokens st) k = Some t \<Longrightarrow> wf_token st k t"
    and "fmlookup (st_conditions st) k = Some cs \<Longrightarrow> wf_conditions st k cs"
    and "wf_sessions (st_sessions st)"
  using assms by (simp_all add: wf_state_def)

lemma wf_new_state [simp]: "wf_state new_state"
  by (simp add: wf_defs new_state_def)

subsection \<open>Objects\<close>

lemma created_objects_ids:
  "created_objects sid seen ws = Inr obs \<Longrightarrow>
     map so_object_id obs = map wo_object_id ws \<and> distinct (map wo_object_id ws) \<and>
     seen \<inter> set (map wo_object_id ws) = {} \<and> (\<forall>w \<in> set ws. \<not> bad_id (wo_object_id w))"
  by (induction ws arbitrary: seen obs)
    (auto simp: object_of_wire_def split: if_splits sum.splits)

lemma created_objects_complete:
  assumes "distinct (map wo_object_id ws)" "\<forall>w \<in> set ws. \<not> bad_id (wo_object_id w)"
    and "seen \<inter> set (map wo_object_id ws) = {}"
  shows "created_objects sid seen ws = Inr (map object_of_wire ws)"
  using assms by (induction ws arbitrary: seen) auto

lemma so_object_id_of_wire [simp]: "so_object_id (object_of_wire w) = wo_object_id w"
  by (simp add: object_of_wire_def)

text \<open>\<open>byID\<close> is exact when it names, for each id of the list, an index that holds it.\<close>

definition index_ok :: "(string, nat) fmap \<Rightarrow> scene_object list \<Rightarrow> bool" where
  "index_ok m obs =
     (\<forall>k i. fmlookup m k = Some i \<longleftrightarrow> i < length obs \<and> so_object_id (obs ! i) = k)"

lemma index_objects_other:
  "k \<notin> set (map so_object_id obs) \<Longrightarrow> fmlookup (index_objects n obs m) k = fmlookup m k"
  by (induction obs arbitrary: n m) auto

lemma index_objects_nth:
  "distinct (map so_object_id obs) \<Longrightarrow> i < length obs \<Longrightarrow>
     fmlookup (index_objects n obs m) (so_object_id (obs ! i)) = Some (n + i)"
proof (induction obs arbitrary: n m i)
  case Nil
  then show ?case by simp
next
  case (Cons ob obs)
  then show ?case by (cases i) (auto simp: index_objects_other)
qed

lemma index_ok_init:
  assumes "distinct (map so_object_id obs)"
  shows "index_ok (index_objects 0 obs fmempty) obs"
  unfolding index_ok_def
proof (intro allI)
  fix k i
  show "fmlookup (index_objects 0 obs fmempty) k = Some i \<longleftrightarrow>
      i < length obs \<and> so_object_id (obs ! i) = k"
  proof (cases "k \<in> set (map so_object_id obs)")
    case True
    then obtain j where "j < length obs" "so_object_id (obs ! j) = k"
      by (auto simp: in_set_conv_nth)
    moreover from this have "i < length obs \<and> so_object_id (obs ! i) = k \<longleftrightarrow> i = j"
      using assms by (auto simp: distinct_conv_nth)
    ultimately show ?thesis using index_objects_nth[OF assms, of j 0 fmempty] by auto
  next
    case False
    then show ?thesis by (auto simp: index_objects_other)
  qed
qed

lemma index_ok_update:
  "index_ok m obs \<Longrightarrow> fmlookup m (so_object_id got) = Some i \<Longrightarrow> index_ok m (obs[i := got])"
  unfolding index_ok_def by (auto simp: nth_list_update split: if_splits)

lemma index_ok_append:
  "index_ok m obs \<Longrightarrow> fmlookup m (so_object_id got) = None \<Longrightarrow>
     index_ok (fmupd (so_object_id got) (length obs) m) (obs @ [got])"
  unfolding index_ok_def by (auto simp: nth_append less_Suc_eq) (metis option.distinct(1))

lemma index_ok_distinct:
  assumes "index_ok m obs"
  shows "distinct (map so_object_id obs)"
proof -
  have "i = j" if "i < length obs" "j < length obs" "so_object_id (obs ! i) = so_object_id (obs ! j)" for i j
    using assms that unfolding index_ok_def by (metis option.inject)
  then show ?thesis by (auto simp: distinct_conv_nth)
qed

lemma index_ok_None: "index_ok m obs \<Longrightarrow> fmlookup m k = None \<longleftrightarrow> k \<notin> so_object_id ` set obs"
  unfolding index_ok_def by (metis (no_types, lifting) image_iff in_set_conv_nth not_Some_eq)

lemma merge_loop_distinct:
  "index_ok m have' \<Longrightarrow> distinct (map so_object_id (merge_loop m have' ws))"
proof (induction ws arbitrary: m have')
  case Nil
  then show ?case by (simp add: index_ok_distinct)
next
  case (Cons w ws)
  then show ?case
    by (auto simp: Let_def split: option.splits
        intro!: Cons.IH index_ok_update index_ok_append simp del: so_object_id_of_wire)
qed

lemma merge_objects_distinct:
  "distinct (map so_object_id obs) \<Longrightarrow> distinct (map so_object_id (merge_objects obs ws))"
  by (simp add: merge_objects_def merge_loop_distinct index_ok_init)

subsection \<open>Control\<close>

lemma control_ok_mirror:
  "control_ok (mirror_control a) \<longleftrightarrow>
     distinct (actor_controller_ids a) \<and> (\<forall>c \<in> set (actor_controller_ids a). \<not> bad_id c)"
  by (auto simp: control_ok_def mirror_control_def split: list.splits)

lemma mirror_control_simps [simp]:
  "actor_id (mirror_control a) = actor_id a"
  "actor_controller_ids (mirror_control a) = actor_controller_ids a"
  "actor_kind_of (mirror_control a) = actor_kind_of a"
  "actor_resources (mirror_control a) = actor_resources a"
  "actor_attributes (mirror_control a) = actor_attributes a"
  by (auto simp: mirror_control_def split: list.splits)

lemma control_target_Inr:
  "control_target st aid pid ev = Inr a \<longleftrightarrow> \<not> bad_id pid \<and> fmlookup (st_actors st) aid = Some a"
  by (auto simp: control_target_def bad_id_def split: option.splits)

subsection \<open>Standing tokens\<close>

lemma standing_fold:
  fixes ks :: "string list"
  defines "f \<equiv> \<lambda>P. fold (\<lambda>k s. if P k \<and> (s = [] \<or> k < s) then k else s)"
  assumes "\<forall>k \<in> set ks. k \<noteq> []"
  shows "(f P ks s0 = [] \<longleftrightarrow> s0 = [] \<and> (\<forall>k \<in> set ks. \<not> P k)) \<and>
     (f P ks s0 = s0 \<or> f P ks s0 \<in> set ks \<and> P (f P ks s0)) \<and>
     (\<forall>k \<in> set ks. P k \<longrightarrow> f P ks s0 \<le> k) \<and> (s0 \<noteq> [] \<longrightarrow> f P ks s0 \<le> s0)"
  using assms(2)
proof (induction ks arbitrary: s0)
  case Nil
  then show ?case by (simp add: f_def)
next
  case (Cons k ks)
  define s1 where "s1 = (if P k \<and> (s0 = [] \<or> k < s0) then k else s0)"
  have step: "f P (k # ks) s0 = f P ks s1" by (simp add: f_def s1_def)
  from Cons.prems have "k \<noteq> []" and IH: "(f P ks s1 = [] \<longleftrightarrow> s1 = [] \<and> (\<forall>k \<in> set ks. \<not> P k)) \<and>
     (f P ks s1 = s1 \<or> f P ks s1 \<in> set ks \<and> P (f P ks s1)) \<and>
     (\<forall>k \<in> set ks. P k \<longrightarrow> f P ks s1 \<le> k) \<and> (s1 \<noteq> [] \<longrightarrow> f P ks s1 \<le> s1)"
    using Cons.IH[of s1] by auto
  consider "\<not> P k" | "P k" "s0 = []" | "P k" "s0 \<noteq> []" "k < s0" | "P k" "s0 \<noteq> []" "s0 \<le> k"
    by (meson not_le)
  then show ?case
  proof cases
    case 1
    then have "s1 = s0" by (simp add: s1_def)
    with 1 IH step show ?thesis by auto
  next
    case 2
    with IH step \<open>k \<noteq> []\<close> show ?thesis by (auto simp: s1_def)
  next
    case 3
    then have "s1 = k" by (simp add: s1_def)
    with 3 IH step \<open>k \<noteq> []\<close> show ?thesis by auto
  next
    case 4
    then have "s1 = s0" by (auto simp: s1_def)
    with 4 IH step show ?thesis by auto
  qed
qed

definition tokens_of :: "state \<Rightarrow> string \<Rightarrow> string set" where
  "tokens_of st aid =
     {k \<in> fmdom' (st_tokens st). tok_actor_id (the (fmlookup (st_tokens st) k)) = aid}"

lemma tokens_of_iff:
  "k \<in> tokens_of st aid \<longleftrightarrow> (\<exists>t. fmlookup (st_tokens st) k = Some t \<and> tok_actor_id t = aid)"
  by (auto simp: tokens_of_def fmlookup_dom'_iff)

lemma standing_token_least:
  assumes "fmlookup (st_tokens st) [] = None"
  shows "standing_token st aid = [] \<longleftrightarrow> tokens_of st aid = {}"
    and "standing_token st aid \<noteq> [] \<Longrightarrow> standing_token st aid \<in> tokens_of st aid"
    and "k \<in> tokens_of st aid \<Longrightarrow> standing_token st aid \<le> k"
proof -
  let ?P = "\<lambda>k. tok_actor_id (the (fmlookup (st_tokens st) k)) = aid"
  have ne: "\<forall>k \<in> set (keys (st_tokens st)). k \<noteq> []" using assms by (auto simp: fmlookup_dom'_iff)
  have eq: "standing_token st aid =
      fold (\<lambda>k s. if ?P k \<and> (s = [] \<or> k < s) then k else s) (keys (st_tokens st)) []"
    unfolding standing_token_def by (rule fold_cong) (auto simp: fmlookup_dom'_iff)
  note * = standing_fold[OF ne, of ?P "[]", folded eq]
  from * show "standing_token st aid = [] \<longleftrightarrow> tokens_of st aid = {}"
    and "standing_token st aid \<noteq> [] \<Longrightarrow> standing_token st aid \<in> tokens_of st aid"
    and "k \<in> tokens_of st aid \<Longrightarrow> standing_token st aid \<le> k"
    by (auto simp: tokens_of_def)
qed

lemma wf_no_empty_token: "wf_state st \<Longrightarrow> fmlookup (st_tokens st) [] = None"
  by (cases "fmlookup (st_tokens st) []") (auto dest: wf_stateD(3) simp: wf_token_def bad_id_def)

subsection \<open>Every arm keeps the invariant\<close>

lemma put_scene_wf:
  "wf_state st \<Longrightarrow> wf_scene k sc \<Longrightarrow> wf_state (put_scene st k sc)"
  by (auto simp: wf_state_def wf_token_def wf_conditions_def put_scene_def)

lemma put_actor_wf:
  "wf_state st \<Longrightarrow> wf_actor k a \<Longrightarrow> wf_state (put_actor st k a)"
  by (auto simp: wf_state_def wf_token_def wf_conditions_def put_actor_def)

lemma put_token_wf:
  "wf_state st \<Longrightarrow> wf_token st k t \<Longrightarrow> wf_state (put_token st k t)"
  by (auto simp: wf_state_def wf_token_def wf_conditions_def put_token_def)

lemma drop_token_wf: "wf_state st \<Longrightarrow> wf_state (st\<lparr>st_tokens := fmdrop k (st_tokens st)\<rparr>)"
  by (auto simp: wf_state_def wf_token_def wf_conditions_def)

lemma put_conditions_wf:
  "wf_state st \<Longrightarrow> wf_conditions st k cs \<Longrightarrow>
     wf_state (st\<lparr>st_conditions := fmupd k cs (st_conditions st)\<rparr>)"
  by (auto simp: wf_state_def wf_token_def wf_conditions_def)

lemma conditions_of_wf:
  "wf_state st \<Longrightarrow> distinct (map ac_id (conditions_of st k)) \<and>
     (\<forall>c \<in> set (conditions_of st k). \<not> bad_id (ac_id c))"
  by (auto simp: conditions_of_def wf_conditions_def split: option.splits dest: wf_stateD(4))

lemma session_started_wf [fold_wf]:
  "wf_state st \<Longrightarrow> apply_session_started st env name = Inr st' \<Longrightarrow> wf_state st'"
  by (auto simp: apply_session_started_def wf_state_def wf_token_def wf_conditions_def
      wf_sessions_def nth_append open_session_None split: if_splits)

lemma session_ended_wf [fold_wf]:
  assumes "wf_state st" "apply_session_ended st env = Inr st'"
  shows "wf_state st'"
proof -
  from assms(2) obtain i where i: "open_session st = Some i"
    and st': "st' = st\<lparr>st_sessions := (st_sessions st)[i := (st_sessions st ! i)\<lparr>ses_end := env_sequence env\<rparr>]\<rparr>"
    by (auto simp: apply_session_ended_def split: option.splits)
  note open_session_Some(1,2)[OF i]
  with assms(1) show ?thesis unfolding st'
    by (auto simp: wf_state_def wf_token_def wf_conditions_def wf_sessions_def nth_list_update)
qed

lemma scene_created_wf [fold_wf]:
  assumes "wf_state st" "apply_scene_created st sc = Inr st'"
  shows "wf_state st'"
proof -
  from assms(2) obtain obs where obs: "created_objects (scr_scene_id sc) {} (scr_objects sc) = Inr obs"
    and id_ok: "\<not> bad_id (scr_scene_id sc)"
    and st': "st' = put_scene st (scr_scene_id sc)
        \<lparr>sc_id = scr_scene_id sc, sc_name = scr_name sc,
         sc_grid_width = scr_grid_width sc, sc_grid_height = scr_grid_height sc,
         sc_tiles = Some (fmmap tile_of_ref (scr_tiles sc)), sc_objects = obs,
         sc_open_doors = Some fmempty, sc_explored = None, sc_visible = None\<rparr>"
    by (auto simp: apply_scene_created_def put_scene_def split: if_splits sum.splits)
  from created_objects_ids[OF obs] have "distinct (map so_object_id obs)" by simp
  with id_ok show ?thesis unfolding st'
    by (intro put_scene_wf assms(1)) (simp add: wf_scene_def scene_made_def)
qed

lemma door_opened_wf [fold_wf]:
  "wf_state st \<Longrightarrow> apply_door_opened st sid at = Inr st' \<Longrightarrow> wf_state st'"
  by (auto simp: apply_door_opened_def split: option.splits intro!: put_scene_wf
      dest: wf_stateD(1) simp: wf_scene_def scene_made_def)

lemma door_closed_wf [fold_wf]:
  "wf_state st \<Longrightarrow> apply_door_closed st sid at = Inr st' \<Longrightarrow> wf_state st'"
  by (auto simp: apply_door_closed_def split: option.splits intro!: put_scene_wf
      dest: wf_stateD(1) simp: wf_scene_def scene_made_def)

lemma scene_seen_wf [fold_wf]:
  "wf_state st \<Longrightarrow> apply_scene_seen st ss = Inr st' \<Longrightarrow> wf_state st'"
  by (auto simp: apply_scene_seen_def Let_def split: option.splits if_splits intro!: put_scene_wf
      dest: wf_stateD(1) simp: wf_scene_def scene_made_def merge_objects_distinct)

lemma actor_added_wf [fold_wf]:
  "wf_state st \<Longrightarrow> apply_actor_added st ao = Inr st' \<Longrightarrow> wf_state st'"
  by (auto simp: apply_actor_added_def split: option.splits if_splits intro!: put_actor_wf
      simp: wf_actor_def control_ok_def bad_id_def)

lemma control_granted_wf [fold_wf]:
  assumes "wf_state st" "apply_control_granted st g = Inr st'"
  shows "wf_state st'"
proof -
  from assms(2) obtain a where a: "\<not> bad_id (cg_participant_id g)"
      "fmlookup (st_actors st) (cg_actor_id g) = Some a"
    by (auto simp: apply_control_granted_def control_target_Inr split: sum.splits)
  from wf_stateD(2)[OF assms(1) a(2)] have "actor_id a = cg_actor_id g" "\<not> bad_id (cg_actor_id g)"
    and c: "control_ok a" "distinct (actor_controller_ids a)"
      "\<forall>c \<in> set (actor_controller_ids a). \<not> bad_id c"
    by (auto simp: wf_actor_def control_ok_def)
  moreover from c have "control_ok (a\<lparr>actor_kind_of := k\<rparr>)" for k by (simp add: control_ok_def)
  ultimately show ?thesis using assms a
    by (auto simp: apply_control_granted_def control_target_Inr Let_def split: sum.splits if_splits
        intro!: put_actor_wf simp: wf_actor_def control_ok_mirror)
qed

lemma control_revoked_wf [fold_wf]:
  assumes "wf_state st" "apply_control_revoked st aid pid = Inr st'"
  shows "wf_state st'"
proof -
  from assms(2) obtain a where a: "fmlookup (st_actors st) aid = Some a"
    and st': "st' = put_actor st aid (mirror_control
          (a\<lparr>actor_controller_ids := filter (\<lambda>id. id \<noteq> pid) (actor_controller_ids a)\<rparr>))"
    by (auto simp: apply_control_revoked_def control_target_Inr split: sum.splits)
  from wf_stateD(2)[OF assms(1) a] have "actor_id a = aid" "\<not> bad_id aid"
    "distinct (actor_controller_ids a)" "\<forall>c \<in> set (actor_controller_ids a). \<not> bad_id c"
    by (auto simp: wf_actor_def control_ok_def)
  then show ?thesis unfolding st'
    by (intro put_actor_wf assms(1)) (simp add: wf_actor_def control_ok_mirror)
qed

lemma resource_changed_wf [fold_wf]:
  "wf_state st \<Longrightarrow> apply_resource_changed st rc = Inr st' \<Longrightarrow> wf_state st'"
  by (auto simp: apply_resource_changed_def Let_def split: option.splits if_splits intro!: put_actor_wf
      dest: wf_stateD(2) simp: wf_actor_def control_ok_def)

lemma actor_removed_wf [fold_wf]:
  assumes "wf_state st" "apply_actor_removed st aid = Inr st'"
  shows "wf_state st'"
proof -
  have "standing_token st aid = []" and st': "st' = st\<lparr>st_actors := fmdrop aid (st_actors st),
      st_conditions := fmdrop aid (st_conditions st)\<rparr>"
    using assms(2) by (auto simp: apply_actor_removed_def split: if_splits)
  then have "tokens_of st aid = {}"
    using standing_token_least(1)[OF wf_no_empty_token[OF assms(1)]] by simp
  then have "fmlookup (st_tokens st) k = Some t \<Longrightarrow> tok_actor_id t \<noteq> aid" for k t
    using tokens_of_iff[of k st aid] by auto
  with assms(1) show ?thesis unfolding st'
    by (auto simp: wf_state_def wf_token_def wf_conditions_def)
qed

lemma condition_applied_wf [fold_wf]:
  "wf_state st \<Longrightarrow> apply_condition_applied st env ca = Inr st' \<Longrightarrow> wf_state st'"
  using conditions_of_wf[of st "ce_actor_id ca"]
  by (auto simp: apply_condition_applied_def split: if_splits intro!: put_conditions_wf
      simp: wf_conditions_def fmlookup_dom'_iff)

lemma remove_first_condition_split:
  "remove_first_condition cid cs = Some cs' \<Longrightarrow>
     \<exists>ys c zs. cs = ys @ c # zs \<and> ac_id c = cid \<and> cid \<notin> ac_id ` set ys \<and> cs' = ys @ zs"
proof (induction cs arbitrary: cs')
  case Nil
  then show ?case by simp
next
  case (Cons d cs)
  show ?case
  proof (cases "ac_id d = cid")
    case True
    with Cons.prems show ?thesis by (intro exI[of _ "[]"] exI[of _ d] exI[of _ cs]) simp
  next
    case False
    with Cons.prems obtain ds where ds: "remove_first_condition cid cs = Some ds" "cs' = d # ds" by auto
    from Cons.IH[OF ds(1)] obtain ys c zs where
      "cs = ys @ c # zs" "ac_id c = cid" "cid \<notin> ac_id ` set ys" "ds = ys @ zs" by blast
    with False ds(2) show ?thesis
      by (intro exI[of _ "d # ys"] exI[of _ c] exI[of _ zs]) simp
  qed
qed

lemma condition_removed_wf [fold_wf]:
  assumes "wf_state st" "apply_condition_removed st cr = Inr st'"
  shows "wf_state st'"
proof -
  from assms(2) obtain cs where
    cs: "remove_first_condition (ce_condition_id cr) (conditions_of st (ce_actor_id cr)) = Some cs"
    and known: "fmlookup (st_actors st) (ce_actor_id cr) \<noteq> None"
    and st': "st' = st\<lparr>st_conditions := fmupd (ce_actor_id cr) cs (st_conditions st)\<rparr>"
    by (auto simp: apply_condition_removed_def split: if_splits option.splits)
  from remove_first_condition_split[OF cs] obtain ys c zs where
    "conditions_of st (ce_actor_id cr) = ys @ c # zs" "cs = ys @ zs" by blast
  with conditions_of_wf[OF assms(1), of "ce_actor_id cr"] known
  show ?thesis unfolding st'
    by (intro put_conditions_wf assms(1)) (auto simp: wf_conditions_def fmlookup_dom'_iff)
qed

lemma token_placed_wf [fold_wf]:
  "wf_state st \<Longrightarrow> apply_token_placed st tp = Inr st' \<Longrightarrow> wf_state st'"
  by (auto simp: apply_token_placed_def split: option.splits if_splits intro!: put_token_wf
      simp: wf_token_def fmlookup_dom'_iff)

lemma token_described_wf [fold_wf]:
  "wf_state st \<Longrightarrow> apply_token_described st td = Inr st' \<Longrightarrow> wf_state st'"
  by (auto simp: apply_token_described_def split: option.splits intro!: put_token_wf
      dest: wf_stateD(3) simp: wf_token_def)

lemma token_moved_wf [fold_wf]:
  "wf_state st \<Longrightarrow> apply_token_moved st tm = Inr st' \<Longrightarrow> wf_state st'"
  by (auto simp: apply_token_moved_def split: option.splits if_splits intro!: put_token_wf
      dest: wf_stateD(3) simp: wf_token_def)

lemma token_removed_wf [fold_wf]:
  "wf_state st \<Longrightarrow> apply_token_removed st tid = Inr st' \<Longrightarrow> wf_state st'"
  by (auto simp: apply_token_removed_def drop_token_wf split: if_splits)

lemma token_hidden_wf [fold_wf]:
  "wf_state st \<Longrightarrow> apply_token_hidden st tid = Inr st' \<Longrightarrow> wf_state st'"
  by (auto simp: apply_token_hidden_def drop_token_wf)

lemma notes_wf: "wf_state st \<Longrightarrow> wf_state (st\<lparr>st_notes := m\<rparr>)"
  by (auto simp: wf_state_def wf_token_def wf_conditions_def)

lemma note_arms_wf [fold_wf]:
  "wf_state st \<Longrightarrow> apply_note_upserted st env nu = Inr st' \<Longrightarrow> wf_state st'"
  "wf_state st \<Longrightarrow> apply_note_deleted st key = Inr st' \<Longrightarrow> wf_state st'"
  by (auto simp: apply_note_upserted_def apply_note_deleted_def notes_wf split: if_splits)

text \<open>Testimony and speech change nothing.\<close>

lemma testimony_unchanged:
  "apply_ability_used st au = Inr st' \<Longrightarrow> st' = st"
  "apply_adventure_loaded st adv name = Inr st' \<Longrightarrow> st' = st"
  "apply_narration_added st env na = Inr st' \<Longrightarrow> st' = st"
  "apply_whisper_added st w = Inr st' \<Longrightarrow> st' = st"
  by (auto simp: apply_ability_used_def apply_adventure_loaded_def apply_narration_added_def
      apply_whisper_added_def Let_def split: if_splits option.splits)

lemma testimony_wf [fold_wf]:
  "wf_state st \<Longrightarrow> apply_ability_used st au = Inr st' \<Longrightarrow> wf_state st'"
  "wf_state st \<Longrightarrow> apply_adventure_loaded st adv name = Inr st' \<Longrightarrow> wf_state st'"
  "wf_state st \<Longrightarrow> apply_narration_added st env na = Inr st' \<Longrightarrow> wf_state st'"
  "wf_state st \<Longrightarrow> apply_whisper_added st w = Inr st' \<Longrightarrow> wf_state st'"
  by (auto dest!: testimony_unchanged)

lemma apply_event_wf: "wf_state st \<Longrightarrow> apply_event st env = Inr st' \<Longrightarrow> wf_state st'"
  by (auto simp: apply_event_def apply_payload_def split: option.splits payload.splits elim: fold_wf)

lemma apply_events_wf: "wf_state st \<Longrightarrow> apply_events st envs = Inr st' \<Longrightarrow> wf_state st'"
  unfolding apply_events_def by (rule fold_res_invariant) (auto intro: apply_event_wf)

end
