(* ===== verification/Engine_Props.thy ===== *)
theory Engine_Props
  imports Fold_Inv
begin

text \<open>
  What \<open>internal/engine\<close> promises of its fold: the invariant over a whole log, the exact
  resource clamp, the control set, removal, doors and terrain, what a seen scene remembers,
  and which parts of the state an event may touch.
\<close>

subsection \<open>A small log the witnesses replay\<close>

definition demo_actor :: actor where
  "demo_actor = \<lparr>actor_id = ''a1'', actor_name = ''Ada'', actor_module_id = [],
     actor_attributes = fmempty,
     actor_resources = fmupd ''hp'' \<lparr>res_current = 5, res_max = 10\<rparr> fmempty,
     actor_module_data = None, actor_controller_id = [], actor_controller_ids = [],
     actor_kind_of = KIND_PARTY_MEMBER\<rparr>"

definition demo_scene :: scene_created where
  "demo_scene = \<lparr>scr_scene_id = ''s1'', scr_name = ''Cellar'', scr_grid_width = 4, scr_grid_height = 4,
     scr_tiles = fmupd ''1,0'' \<lparr>tr_kind = ''door'', tr_material = [], tr_art = []\<rparr> fmempty,
     scr_objects = []\<rparr>"

definition demo_token :: token_placed where
  "demo_token = \<lparr>tp_token_id = ''t1'', tp_scene_id = ''s1'', tp_actor_id = ''a1'',
     tp_position = Some \<lparr>gp_x = 0, gp_y = 0\<rparr>,
     tp_name = [], tp_notes = [], tp_gm_name = [], tp_gm_notes = []\<rparr>"

definition demo_log :: "envelope list" where
  "demo_log = map payload_only
     [SceneCreated demo_scene, ActorAdded (Some demo_actor), TokenPlaced demo_token]"

definition demo_state :: state where
  "demo_state =
     \<lparr>st_scenes = fmupd ''s1''
        \<lparr>sc_id = ''s1'', sc_name = ''Cellar'', sc_grid_width = 4, sc_grid_height = 4,
         sc_tiles = Some (fmmap tile_of_ref (scr_tiles demo_scene)), sc_objects = [],
         sc_open_doors = Some fmempty, sc_explored = None, sc_visible = None\<rparr> fmempty,
      st_actors = fmupd ''a1'' demo_actor fmempty,
      st_tokens = fmupd ''t1''
        \<lparr>tok_id = ''t1'', tok_scene_id = ''s1'', tok_actor_id = ''a1'', tok_x = 0, tok_y = 0,
         tok_name = [], tok_notes = [], tok_gm_name = [], tok_gm_notes = []\<rparr> fmempty,
      st_sessions = [], st_conditions = fmempty, st_notes = fmempty\<rparr>"

lemma demo_replay: "apply_events new_state demo_log = Inr demo_state"
  by (simp add: apply_events_def demo_log_def apply_event_def apply_payload_def fold_arms
      new_state_def demo_scene_def demo_actor_def demo_token_def demo_state_def bad_id_def
      bad_keys_def key_length_def put_actor_def put_token_def)

lemma demo_wf: "wf_state demo_state"
  using apply_events_wf[OF wf_new_state demo_replay] .

subsection \<open>The invariant of every replayed log\<close>

text \<open>C1: Replaying any log the fold accepts gives a well-formed state: every token stands in a
  scene and belongs to an actor the state holds, every condition's actor is there, every entry
  is filed under its own bounded id, no condition or object id occurs twice, the controller
  mirror is the first controller, and at most the last session is open.\<close>

theorem replay_wf:
  assumes "apply_events new_state envs = Inr st"
  shows "wf_state st"
  using apply_events_wf[OF wf_new_state assms] .

theorem replay_wf_witness: "wf_state demo_state \<and> fmlookup (st_tokens demo_state) ''t1'' \<noteq> None"
  using replay_wf[OF demo_replay] by (simp add: demo_state_def)

subsection \<open>Resources\<close>

definition clamp_spec :: "int \<Rightarrow> int \<Rightarrow> int" where
  "clamp_spec mx v = (if 0 < mx then min mx (max 0 v) else max 0 v)"

lemma sint_clamped: "sint (clamped_value res d) = clamp_spec (sint (res_max res)) (sint (res_current res) + sint d)"
proof -
  have s: "sint (widen (res_current res) + widen d) = sint (res_current res) + sint d"
    using sint32_bounds[of "res_current res"] sint32_bounds[of d] by (subst sint_add_go_int) auto
  show ?thesis by (auto simp: clamped_value_def Let_def s clamp_spec_def)
qed

lemma clamped_eq_widen:
  "clamped_value res d = widen n \<longleftrightarrow>
     sint n = clamp_spec (sint (res_max res)) (sint (res_current res) + sint d)"
  by (metis sint_clamped sint_inject sint_widen)

text \<open>A ResourceChanged folds exactly when its new value is the mathematical clamp of
  current + delta (floor 0, cap max when max is positive), whatever the \<open>int32\<close> operands: the
  \<open>int64\<close> sum never wraps. It stores that value, keeps the max and touches nothing else.\<close>

theorem resource_changed_exact:
  assumes "fmlookup (st_actors st) (rc_actor_id rc) = Some a"
    and "fmlookup (actor_resources a) (rc_resource rc) = Some res"
  shows "apply_resource_changed st rc = Inr st' \<longleftrightarrow>
     sint (rc_new_value rc) = clamp_spec (sint (res_max res)) (sint (res_current res) + sint (rc_delta rc)) \<and>
     st' = put_actor st (rc_actor_id rc) (a\<lparr>actor_resources :=
       fmupd (rc_resource rc) \<lparr>res_current = rc_new_value rc, res_max = res_max res\<rparr> (actor_resources a)\<rparr>)"
  using assms by (auto simp: apply_resource_changed_def Let_def simp flip: clamped_eq_widen)

theorem resource_changed_exact_witness:
  "apply_resource_changed demo_state \<lparr>rc_actor_id = ''a1'', rc_resource = ''hp'', rc_delta = 2147483647,
       rc_new_value = 10, rc_reason = []\<rparr> =
     Inr (put_actor demo_state ''a1'' (demo_actor\<lparr>actor_resources :=
       fmupd ''hp'' \<lparr>res_current = 10, res_max = 10\<rparr> (actor_resources demo_actor)\<rparr>))"
  by (subst resource_changed_exact[where a = demo_actor and res = "\<lparr>res_current = 5, res_max = 10\<rparr>"])
    (simp_all add: demo_state_def demo_actor_def clamp_spec_def)

subsection \<open>Control\<close>

definition controllers :: "state \<Rightarrow> string \<Rightarrow> string set" where
  "controllers st aid = (case fmlookup (st_actors st) aid of None \<Rightarrow> {} | Some a \<Rightarrow> set (actor_controller_ids a))"

definition kind_in :: "state \<Rightarrow> string \<Rightarrow> actor_kind option" where
  "kind_in st aid = map_option actor_kind_of (fmlookup (st_actors st) aid)"

text \<open>What one control event leaves of its actor, given the set of controllers and the kind it
  must have then.\<close>

definition control_outcome :: "state \<Rightarrow> state \<Rightarrow> string \<Rightarrow> string set \<Rightarrow> actor_kind option \<Rightarrow> bool" where
  "control_outcome st st' aid cs k =
     (controllers st' aid = cs \<and> kind_in st' aid = k \<and>
      (\<forall>a. fmlookup (st_actors st') aid = Some a \<longrightarrow> control_ok a) \<and>
      (\<forall>b. b \<noteq> aid \<longrightarrow> fmlookup (st_actors st') b = fmlookup (st_actors st) b))"

lemma control_granted_outcome:
  assumes "wf_state st" "apply_control_granted st g = Inr st'"
  shows "control_outcome st st' (cg_actor_id g)
     (insert (cg_participant_id g) (controllers st (cg_actor_id g)))
     (if cg_kind g = KIND_UNSPECIFIED then kind_in st (cg_actor_id g) else Some (cg_kind g))"
proof -
  have "control_ok a" if "fmlookup (st_actors st') (cg_actor_id g) = Some a" for a
    using wf_stateD(2)[OF control_granted_wf[OF assms] that] by (simp add: wf_actor_def)
  with assms(2) show ?thesis
    by (auto simp: control_outcome_def apply_control_granted_def control_target_Inr controllers_def
        kind_in_def put_actor_def Let_def split: sum.splits if_splits)
qed

lemma control_revoked_outcome:
  assumes "wf_state st" "apply_control_revoked st aid pid = Inr st'"
  shows "control_outcome st st' aid (controllers st aid - {pid}) (kind_in st aid)"
proof -
  have "control_ok a" if "fmlookup (st_actors st') aid = Some a" for a
    using wf_stateD(2)[OF control_revoked_wf[OF assms] that] by (simp add: wf_actor_def)
  with assms(2) show ?thesis
    by (auto simp: control_outcome_def apply_control_revoked_def control_target_Inr controllers_def
        kind_in_def put_actor_def split: sum.splits)
qed

text \<open>Control is a set: an accepted grant adds the participant once and states the actor's
  kind only when it names one; an accepted revocation takes the participant out and never
  touches the kind. Both leave the mirror naming the first controller and every other actor as
  it was.\<close>

theorem control_events_spec:
  assumes "wf_state st"
  shows "(\<forall>g st'. apply_control_granted st g = Inr st' \<longrightarrow>
       control_outcome st st' (cg_actor_id g)
         (insert (cg_participant_id g) (controllers st (cg_actor_id g)))
         (if cg_kind g = KIND_UNSPECIFIED then kind_in st (cg_actor_id g) else Some (cg_kind g))) \<and>
     (\<forall>aid pid st'. apply_control_revoked st aid pid = Inr st' \<longrightarrow>
       control_outcome st st' aid (controllers st aid - {pid}) (kind_in st aid))"
  using control_granted_outcome[OF assms] control_revoked_outcome[OF assms] by blast

definition demo_grant :: control_granted where
  "demo_grant = \<lparr>cg_actor_id = ''a1'', cg_participant_id = ''p1'', cg_kind = KIND_UNSPECIFIED\<rparr>"

definition demo_granted :: state where
  "demo_granted = put_actor demo_state ''a1''
     (demo_actor\<lparr>actor_controller_ids := [''p1''], actor_controller_id := ''p1''\<rparr>)"

theorem control_events_spec_witness:
  "apply_control_granted demo_state demo_grant = Inr demo_granted \<and>
   controllers demo_granted ''a1'' = {''p1''} \<and> kind_in demo_granted ''a1'' = Some KIND_PARTY_MEMBER"
proof -
  have step: "apply_control_granted demo_state demo_grant = Inr demo_granted"
    by (simp add: apply_control_granted_def control_target_def demo_grant_def demo_granted_def
        demo_state_def demo_actor_def mirror_control_def put_actor_def)
  from control_events_spec[OF demo_wf, THEN conjunct1, rule_format, OF step]
  have "control_outcome demo_state demo_granted ''a1'' (insert ''p1'' (controllers demo_state ''a1''))
      (kind_in demo_state ''a1'')"
    by (simp add: demo_grant_def)
  with step show ?thesis
    by (simp add: control_outcome_def controllers_def kind_in_def demo_state_def demo_actor_def)
qed

subsection \<open>Removal\<close>

text \<open>C2: In a well-formed state an ActorRemoved of a known actor is refused exactly while a token
  of it stands, naming the least such token; accepted, it leaves the actor, its conditions and
  nothing else out, so that the id can be added and given conditions again.\<close>

theorem actor_removed_spec:
  assumes "wf_state st" and "fmlookup (st_actors st) aid = Some a"
  shows "(\<forall>k. apply_actor_removed st aid = Inl (ErrStandingToken aid k) \<longleftrightarrow>
       k \<in> tokens_of st aid \<and> (\<forall>j \<in> tokens_of st aid. k \<le> j)) \<and>
     (\<forall>st'. apply_actor_removed st aid = Inr st' \<longleftrightarrow>
       tokens_of st aid = {} \<and>
       st' = st\<lparr>st_actors := fmdrop aid (st_actors st), st_conditions := fmdrop aid (st_conditions st)\<rparr>) \<and>
     (\<forall>st'. apply_actor_removed st aid = Inr st' \<longrightarrow> conditions_of st' aid = [] \<and>
       (\<forall>b st2 env cid. apply_actor_added st' (Some b) = Inr st2 \<longrightarrow> actor_id b = aid \<longrightarrow> \<not> bad_id cid \<longrightarrow>
          (\<exists>st3. apply_condition_applied st2 env
             \<lparr>ce_actor_id = aid, ce_condition_id = cid, ce_source = []\<rparr> = Inr st3)))"
proof -
  note least = standing_token_least[OF wf_no_empty_token[OF assms(1)], where aid = aid]
  have 1: "apply_actor_removed st aid = Inl (ErrStandingToken aid k) \<longleftrightarrow>
      k \<in> tokens_of st aid \<and> (\<forall>j \<in> tokens_of st aid. k \<le> j)" for k
    using least assms(2) by (auto simp: apply_actor_removed_def intro: antisym)
  have 2: "apply_actor_removed st aid = Inr st' \<longleftrightarrow> tokens_of st aid = {} \<and>
      st' = st\<lparr>st_actors := fmdrop aid (st_actors st), st_conditions := fmdrop aid (st_conditions st)\<rparr>" for st'
    using least(1) assms(2) by (auto simp: apply_actor_removed_def)
  have 3: "conditions_of st' aid = [] \<and>
       (\<forall>b st2 env cid. apply_actor_added st' (Some b) = Inr st2 \<longrightarrow> actor_id b = aid \<longrightarrow> \<not> bad_id cid \<longrightarrow>
          (\<exists>st3. apply_condition_applied st2 env
             \<lparr>ce_actor_id = aid, ce_condition_id = cid, ce_source = []\<rparr> = Inr st3))"
    if "apply_actor_removed st aid = Inr st'" for st'
    using that unfolding 2
    by (auto simp: conditions_of_def apply_actor_added_def apply_condition_applied_def put_actor_def
        split: if_splits)
  show ?thesis using 1 2 3 by blast
qed

theorem actor_removed_spec_witness:
  "apply_actor_removed demo_state ''a1'' = Inl (ErrStandingToken ''a1'' ''t1'')"
proof -
  have known: "fmlookup (st_actors demo_state) ''a1'' = Some demo_actor" by (simp add: demo_state_def)
  have "tokens_of demo_state ''a1'' = {''t1''}"
    by (auto simp: tokens_of_iff demo_state_def split: if_splits)
  with actor_removed_spec[OF demo_wf known] show ?thesis by simp
qed

end
