(* ===== verification/Scene_Props.thy ===== *)
theory Scene_Props
  imports Engine_Props
begin

text \<open>
  What the scene arms of \<open>internal/engine\<close> promise: the doors, what a seen scene remembers, which
  parts of the state each event variant may touch, and that scenes and explored ground last.
\<close>

subsection \<open>Doors\<close>

definition in_grid :: "scene \<Rightarrow> int32 \<Rightarrow> int32 \<Rightarrow> bool" where
  "in_grid sc x y = (0 \<le> sint x \<and> 0 \<le> sint y \<and>
     sint x < sint (sc_grid_width sc) \<and> sint y < sint (sc_grid_height sc))"

text \<open>On a door square of a scene the state holds, DoorOpened and DoorClosed are accepted.
  Opened, the square is blocked by scenery alone; closed, it is blocked as a closed door. No
  other square of any scene changes, and opening and closing a door never toggled before gives
  the state back.\<close>

theorem door_toggle_spec:
  assumes "fmlookup (st_scenes st) sid = Some sc" and "in_grid sc x y"
    and "tile_kind_at sc (grid_key x y) = ''door''"
  shows "\<exists>st1 st2. apply_door_opened st sid (Some \<lparr>gp_x = x, gp_y = y\<rparr>) = Inr st1 \<and>
     apply_door_closed st1 sid (Some \<lparr>gp_x = x, gp_y = y\<rparr>) = Inr st2 \<and>
     blocked st1 sid x y = blocked_by_objects (sc_objects sc) x y \<and>
     blocked st2 sid x y = Some AClosedDoor \<and>
     (\<forall>k x' y'. (k, x', y') \<noteq> (sid, x, y) \<longrightarrow>
        blocked st1 k x' y' = blocked st k x' y' \<and> blocked st2 k x' y' = blocked st k x' y') \<and>
     (scene_made sc \<longrightarrow> go_get (sc_open_doors sc) (grid_key x y) = None \<longrightarrow> st2 = st)"
proof -
  let ?key = "grid_key x y" and ?p = "Some \<lparr>gp_x = x, gp_y = y\<rparr>"
  define sc1 where "sc1 = sc\<lparr>sc_open_doors := Some (fmupd ?key True (go_make (sc_open_doors sc)))\<rparr>"
  define sc2 where "sc2 = sc\<lparr>sc_open_doors := Some (fmdrop ?key (fmupd ?key True (go_make (sc_open_doors sc))))\<rparr>"
  have 1: "apply_door_opened st sid ?p = Inr (put_scene st sid sc1)"
    using assms(1) by (simp add: apply_door_opened_def sc1_def)
  have 2: "apply_door_closed (put_scene st sid sc1) sid ?p = Inr (put_scene (put_scene st sid sc1) sid sc2)"
    by (simp add: apply_door_closed_def put_scene_def sc1_def sc2_def)
  have kinds: "tile_kind_at sc1 = tile_kind_at sc" "tile_kind_at sc2 = tile_kind_at sc"
    by (simp_all add: tile_kind_at_def sc1_def sc2_def fun_eq_iff)
  have flag: "go_flag (sc_open_doors sc1) k = (k = ?key \<or> go_flag (sc_open_doors sc) k)"
    "go_flag (sc_open_doors sc2) k = (k \<noteq> ?key \<and> go_flag (sc_open_doors sc) k)" for k
    by (auto simp: sc1_def sc2_def go_flag_def)
  have grid: "sc_grid_width sc1 = sc_grid_width sc" "sc_grid_height sc1 = sc_grid_height sc"
    "sc_objects sc1 = sc_objects sc" "sc_grid_width sc2 = sc_grid_width sc"
    "sc_grid_height sc2 = sc_grid_height sc" "sc_objects sc2 = sc_objects sc"
    by (simp_all add: sc1_def sc2_def)
  have b1: "blocked (put_scene st sid sc1) sid x y = blocked_by_objects (sc_objects sc) x y"
    using assms by (auto simp: blocked_def put_scene_def Let_def kinds flag in_grid_def grid)
  have b2: "blocked (put_scene (put_scene st sid sc1) sid sc2) sid x y = Some AClosedDoor"
    using assms by (auto simp: blocked_def put_scene_def Let_def kinds flag in_grid_def grid)
  have other: "blocked (put_scene st sid sc1) k x' y' = blocked st k x' y' \<and>
      blocked (put_scene (put_scene st sid sc1) sid sc2) k x' y' = blocked st k x' y'"
    if "(k, x', y') \<noteq> (sid, x, y)" for k x' y'
    using that assms(1) by (auto simp: blocked_def put_scene_def Let_def kinds flag grid)
  have undo: "put_scene (put_scene st sid sc1) sid sc2 = st"
    if "scene_made sc" "go_get (sc_open_doors sc) ?key = None"
  proof -
    from that obtain m where m: "sc_open_doors sc = Some m" "fmlookup m ?key = None"
      by (auto simp: scene_made_def)
    have "fmdrop ?key (fmupd ?key True m) = m" by (rule fmap_ext) (use m in auto)
    then have "sc2 = sc" using m by (simp add: sc2_def)
    moreover have "fmupd sid sc (fmupd sid sc1 (st_scenes st)) = st_scenes st"
      by (rule fmap_ext) (use assms(1) in auto)
    ultimately show ?thesis by (simp add: put_scene_def)
  qed
  show ?thesis
    by (rule exI[of _ "put_scene st sid sc1"],
        rule exI[of _ "put_scene (put_scene st sid sc1) sid sc2"], intro conjI allI impI)
      (use 1 2 b1 b2 other undo in simp_all)
qed

theorem door_toggle_spec_witness:
  "\<exists>st1 st2. apply_door_opened demo_state ''s1'' (Some \<lparr>gp_x = 1, gp_y = 0\<rparr>) = Inr st1 \<and>
     apply_door_closed st1 ''s1'' (Some \<lparr>gp_x = 1, gp_y = 0\<rparr>) = Inr st2 \<and>
     blocked st1 ''s1'' 1 0 = None \<and> blocked st2 ''s1'' 1 0 = Some AClosedDoor \<and> st2 = demo_state"
proof -
  obtain sc where sc: "fmlookup (st_scenes demo_state) ''s1'' = Some sc" "in_grid sc 1 0"
    "tile_kind_at sc (grid_key 1 0) = ''door''" "scene_made sc" "sc_objects sc = []"
    "go_get (sc_open_doors sc) (grid_key 1 0) = None"
    by (simp add: demo_state_def in_grid_def tile_kind_at_def grid_key_def show_int_def
        show_nat.simps demo_scene_def tile_of_ref_def scene_made_def)
  from door_toggle_spec[OF sc(1-3)] sc(4-6) show ?thesis by fastforce
qed

subsection \<open>Seen scenes\<close>

definition object_named :: "scene_object list \<Rightarrow> string \<Rightarrow> scene_object option" where
  "object_named obs k = find (\<lambda>ob. so_object_id ob = k) obs"

definition last_incoming :: "wire_object list \<Rightarrow> string \<Rightarrow> wire_object option" where
  "last_incoming ws k = find (\<lambda>w. wo_object_id w = k) (rev ws)"

lemma object_named_index:
  assumes "index_ok m obs"
  shows "object_named obs k = map_option (\<lambda>i. obs ! i) (fmlookup m k)"
proof (cases "fmlookup m k")
  case None
  then have "k \<notin> so_object_id ` set obs" using index_ok_None[OF assms] by simp
  with None show ?thesis by (auto simp: object_named_def find_None_iff)
next
  case (Some i)
  with assms have i: "i < length obs" "so_object_id (obs ! i) = k" by (auto simp: index_ok_def)
  moreover have "j < i \<Longrightarrow> so_object_id (obs ! j) \<noteq> k" for j
    using index_ok_distinct[OF assms] i by (fastforce simp: distinct_conv_nth)
  ultimately show ?thesis using Some by (auto simp: object_named_def find_Some_iff)
qed

lemma last_incoming_Cons:
  "last_incoming (w # ws) k =
     (case last_incoming ws k of Some v \<Rightarrow> Some v | None \<Rightarrow> if wo_object_id w = k then Some w else None)"
proof -
  have "find P (xs @ [x]) = (case find P xs of Some v \<Rightarrow> Some v | None \<Rightarrow> if P x then Some x else None)"
    for P and xs :: "wire_object list" and x by (induction xs) auto
  then show ?thesis by (simp add: last_incoming_def)
qed

lemma merge_loop_spec:
  assumes "index_ok m obs"
  shows "object_named (merge_loop m obs ws) k =
       (case last_incoming ws k of Some w \<Rightarrow> Some (object_of_wire w) | None \<Rightarrow> object_named obs k) \<and>
     (\<exists>new. map so_object_id (merge_loop m obs ws) = map so_object_id obs @ new)"
  using assms
proof (induction ws arbitrary: m obs)
  case Nil
  then show ?case by (simp add: last_incoming_def)
next
  case (Cons w ws)
  let ?got = "object_of_wire w"
  show ?case
  proof (cases "fmlookup m (wo_object_id w)")
    case None
    note ok = index_ok_append[OF Cons.prems, of ?got, simplified, OF None]
    have "object_named (obs @ [?got]) k =
        (if k = wo_object_id w then Some ?got else object_named obs k)"
    proof (cases "k = wo_object_id w")
      case True
      then show ?thesis using index_ok_None[OF Cons.prems] None
        by (auto simp: object_named_index[OF ok])
    next
      case False
      have "i < length obs" if "fmlookup m k = Some i" for i
        using that Cons.prems by (simp add: index_ok_def)
      with False show ?thesis
        by (cases "fmlookup m k") (simp_all add: object_named_index[OF ok] object_named_index[OF Cons.prems] nth_append)
    qed
    with Cons.IH[OF ok] None show ?thesis
      by (auto simp: last_incoming_Cons split: option.splits)
  next
    case (Some i)
    note ok = index_ok_update[OF Cons.prems, of ?got, simplified, OF Some]
    have i: "i < length obs" "so_object_id (obs ! i) = wo_object_id w"
      using Some Cons.prems by (auto simp: index_ok_def)
    have "object_named (obs[i := ?got]) k =
        (if k = wo_object_id w then Some ?got else object_named obs k)"
    proof (cases "k = wo_object_id w")
      case True
      with Some i show ?thesis by (simp add: object_named_index[OF ok])
    next
      case False
      have "j \<noteq> i" if "fmlookup m k = Some j" for j
        using that Cons.prems False i by (auto simp: index_ok_def)
      with False show ?thesis
        by (cases "fmlookup m k") (auto simp add: object_named_index[OF ok] object_named_index[OF Cons.prems])
    qed
    moreover have "map so_object_id (obs[i := ?got]) = map so_object_id obs"
      using i by (simp add: map_update list_update_same_conv)
    ultimately show ?thesis using Cons.IH[OF ok] Some
      by (auto simp: last_incoming_Cons split: option.splits)
  qed
qed

text \<open>A SceneSeen that folds replaces what is visible by exactly the squares it lists, adds its
  tile squares to what was explored and forgets none, overwrites terrain only where it carries a
  tile, and replaces or appends each object it carries by id (the last one sent wins), keeping
  every other object and the order of those it knew.\<close>

theorem scene_seen_spec:
  assumes "wf_state st" and "fmlookup (st_scenes st) (ssn_scene_id ss) = Some sc"
  shows "\<exists>st' sc'. apply_scene_seen st ss = Inr st' \<and> fmlookup (st_scenes st') (ssn_scene_id ss) = Some sc' \<and>
     (\<forall>k. go_flag (sc_visible sc') k \<longleftrightarrow> k \<in> set (ssn_visible ss)) \<and> sc_visible sc' \<noteq> None \<and>
     (\<forall>k. go_flag (sc_explored sc') k \<longleftrightarrow> go_flag (sc_explored sc) k \<or> k \<in> fmdom' (ssn_tiles ss)) \<and>
     (\<forall>k. go_get (sc_tiles sc') k =
        (case fmlookup (ssn_tiles ss) k of Some t \<Rightarrow> Some (tile_of_ref t) | None \<Rightarrow> go_get (sc_tiles sc) k)) \<and>
     (\<forall>k. object_named (sc_objects sc') k =
        (case last_incoming (ssn_objects ss) k of
           Some w \<Rightarrow> Some (object_of_wire w) | None \<Rightarrow> object_named (sc_objects sc) k)) \<and>
     (\<exists>new. map so_object_id (sc_objects sc') = map so_object_id (sc_objects sc) @ new) \<and>
     (\<forall>k. k \<noteq> ssn_scene_id ss \<longrightarrow> fmlookup (st_scenes st') k = fmlookup (st_scenes st) k)"
proof -
  have vis: "go_flag (Some (fold (\<lambda>sq m. fmupd sq True m) sqs m)) k \<longleftrightarrow> k \<in> set sqs \<or> go_flag (Some m) k"
    for sqs k and m :: "(string, bool) fmap"
    by (induction sqs arbitrary: m) auto
  have "distinct (map so_object_id (sc_objects sc))"
    using wf_stateD(1)[OF assms] by (simp add: wf_scene_def)
  from merge_loop_spec[OF index_ok_init[OF this], of "ssn_objects ss"]
  have obj: "object_named (if 0 < length (ssn_objects ss) then merge_objects (sc_objects sc) (ssn_objects ss) else sc_objects sc) k =
       (case last_incoming (ssn_objects ss) k of Some w \<Rightarrow> Some (object_of_wire w) | None \<Rightarrow> object_named (sc_objects sc) k)"
    and ord: "\<exists>new. map so_object_id (if 0 < length (ssn_objects ss) then merge_objects (sc_objects sc) (ssn_objects ss) else sc_objects sc)
       = map so_object_id (sc_objects sc) @ new" for k
    by (auto simp: merge_objects_def last_incoming_def)
  define sc' where "sc' = sc\<lparr>sc_tiles := Some (go_make (sc_tiles sc) ++\<^sub>f fmmap tile_of_ref (ssn_tiles ss)),
      sc_explored := Some (go_make (sc_explored sc) ++\<^sub>f fmmap (\<lambda>_. True) (ssn_tiles ss)),
      sc_visible := Some (fold (\<lambda>sq m. fmupd sq True m) (ssn_visible ss) fmempty),
      sc_objects := (if 0 < length (ssn_objects ss) then merge_objects (sc_objects sc) (ssn_objects ss)
                     else sc_objects sc)\<rparr>"
  have 1: "apply_scene_seen st ss = Inr (put_scene st (ssn_scene_id ss) sc')"
    by (simp only: apply_scene_seen_def assms(2) option.case Let_def sc'_def)
  have expl: "go_flag (sc_explored sc') k \<longleftrightarrow> go_flag (sc_explored sc) k \<or> k \<in> fmdom' (ssn_tiles ss)" for k
    by (auto simp: sc'_def go_flag_def fmlookup_dom'_iff)
  have tiles: "go_get (sc_tiles sc') k =
        (case fmlookup (ssn_tiles ss) k of Some t \<Rightarrow> Some (tile_of_ref t) | None \<Rightarrow> go_get (sc_tiles sc) k)" for k
    by (auto simp: sc'_def fmlookup_dom'_iff split: option.splits)
  have objs: "sc_objects sc' = (if 0 < length (ssn_objects ss) then merge_objects (sc_objects sc) (ssn_objects ss)
                     else sc_objects sc)" and lit: "sc_visible sc' = Some (fold (\<lambda>sq m. fmupd sq True m) (ssn_visible ss) fmempty)"
    by (simp_all add: sc'_def)
  show ?thesis
    by (rule exI[of _ "put_scene st (ssn_scene_id ss) sc'"], rule exI[of _ sc'], intro conjI allI impI)
      (use 1 vis lit expl tiles obj ord in \<open>simp_all add: put_scene_def objs\<close>)
qed

definition demo_seen :: scene_seen where
  "demo_seen = \<lparr>ssn_scene_id = ''s1'', ssn_tiles = fmupd ''0,0'' \<lparr>tr_kind = ''floor'', tr_material = [], tr_art = []\<rparr> fmempty,
     ssn_objects = [], ssn_visible = [''0,0'', ''2,2'']\<rparr>"

theorem scene_seen_spec_witness:
  "\<exists>st' sc'. apply_scene_seen demo_state demo_seen = Inr st' \<and> fmlookup (st_scenes st') ''s1'' = Some sc' \<and>
     go_flag (sc_visible sc') ''2,2'' \<and> go_flag (sc_explored sc') ''0,0'' \<and> \<not> go_flag (sc_explored sc') ''2,2'' \<and>
     \<not> go_flag (sc_visible sc') ''1,0'' \<and> tile_kind_at sc' ''1,0'' = ''door''"
proof -
  obtain sc where sc: "fmlookup (st_scenes demo_state) (ssn_scene_id demo_seen) = Some sc"
    "sc_explored sc = None" "tile_kind_at sc ''1,0'' = ''door''"
    by (simp add: demo_state_def demo_seen_def demo_scene_def tile_kind_at_def tile_of_ref_def)
  from scene_seen_spec[OF demo_wf sc(1)] obtain st' sc' where
    st': "apply_scene_seen demo_state demo_seen = Inr st'"
      "fmlookup (st_scenes st') (ssn_scene_id demo_seen) = Some sc'"
    and vis: "\<forall>k. go_flag (sc_visible sc') k \<longleftrightarrow> k \<in> set (ssn_visible demo_seen)"
    and ex: "\<forall>k. go_flag (sc_explored sc') k \<longleftrightarrow> go_flag (sc_explored sc) k \<or> k \<in> fmdom' (ssn_tiles demo_seen)"
    and tiles: "\<forall>k. go_get (sc_tiles sc') k = (case fmlookup (ssn_tiles demo_seen) k of
        Some t \<Rightarrow> Some (tile_of_ref t) | None \<Rightarrow> go_get (sc_tiles sc) k)" by blast
  show ?thesis
    by (rule exI[of _ st'], rule exI[of _ sc'])
      (use st' vis ex tiles sc in \<open>simp add: demo_seen_def tile_kind_at_def\<close>)
qed

subsection \<open>What an event may touch\<close>

datatype state_part = Scenes | Actors | Tokens | Sessions | Conditions | Notes

definition touches :: "payload \<Rightarrow> state_part set" where
  "touches p =
     (case p of
        SessionStarted _ \<Rightarrow> {Sessions} | SessionEnded \<Rightarrow> {Sessions}
      | SceneCreated _ \<Rightarrow> {Scenes} | SceneSeen _ \<Rightarrow> {Scenes}
      | DoorOpened _ _ \<Rightarrow> {Scenes} | DoorClosed _ _ \<Rightarrow> {Scenes}
      | ActorAdded _ \<Rightarrow> {Actors} | ActorControlGranted _ \<Rightarrow> {Actors}
      | ActorControlRevoked _ _ \<Rightarrow> {Actors} | ResourceChanged _ \<Rightarrow> {Actors}
      | ActorRemoved _ \<Rightarrow> {Actors, Conditions}
      | TokenPlaced _ \<Rightarrow> {Tokens} | TokenDescribed _ \<Rightarrow> {Tokens} | TokenMoved _ \<Rightarrow> {Tokens}
      | TokenRemoved _ \<Rightarrow> {Tokens} | TokenHidden _ \<Rightarrow> {Tokens}
      | ConditionApplied _ \<Rightarrow> {Conditions} | ConditionRemoved _ \<Rightarrow> {Conditions}
      | NoteUpserted _ \<Rightarrow> {Notes} | NoteDeleted _ \<Rightarrow> {Notes}
      | _ \<Rightarrow> {})"

definition agrees_outside :: "state_part set \<Rightarrow> state \<Rightarrow> state \<Rightarrow> bool" where
  "agrees_outside P st st' =
     ((Scenes \<notin> P \<longrightarrow> st_scenes st' = st_scenes st) \<and> (Actors \<notin> P \<longrightarrow> st_actors st' = st_actors st) \<and>
      (Tokens \<notin> P \<longrightarrow> st_tokens st' = st_tokens st) \<and> (Sessions \<notin> P \<longrightarrow> st_sessions st' = st_sessions st) \<and>
      (Conditions \<notin> P \<longrightarrow> st_conditions st' = st_conditions st) \<and> (Notes \<notin> P \<longrightarrow> st_notes st' = st_notes st))"

named_theorems fold_frame

lemma frame_arms [fold_frame]:
  "apply_session_started st env name = Inr st' \<Longrightarrow> agrees_outside {Sessions} st st'"
  "apply_session_ended st env = Inr st' \<Longrightarrow> agrees_outside {Sessions} st st'"
  "apply_scene_created st sc = Inr st' \<Longrightarrow> agrees_outside {Scenes} st st'"
  "apply_scene_seen st ss = Inr st' \<Longrightarrow> agrees_outside {Scenes} st st'"
  "apply_door_opened st sid at = Inr st' \<Longrightarrow> agrees_outside {Scenes} st st'"
  "apply_door_closed st sid at = Inr st' \<Longrightarrow> agrees_outside {Scenes} st st'"
  "apply_actor_added st ao = Inr st' \<Longrightarrow> agrees_outside {Actors} st st'"
  "apply_control_granted st g = Inr st' \<Longrightarrow> agrees_outside {Actors} st st'"
  "apply_control_revoked st aid pid = Inr st' \<Longrightarrow> agrees_outside {Actors} st st'"
  "apply_resource_changed st rc = Inr st' \<Longrightarrow> agrees_outside {Actors} st st'"
  "apply_actor_removed st aid = Inr st' \<Longrightarrow> agrees_outside {Actors, Conditions} st st'"
  "apply_token_placed st tp = Inr st' \<Longrightarrow> agrees_outside {Tokens} st st'"
  "apply_token_described st td = Inr st' \<Longrightarrow> agrees_outside {Tokens} st st'"
  "apply_token_moved st tm = Inr st' \<Longrightarrow> agrees_outside {Tokens} st st'"
  "apply_token_removed st tid = Inr st' \<Longrightarrow> agrees_outside {Tokens} st st'"
  "apply_token_hidden st tid = Inr st' \<Longrightarrow> agrees_outside {Tokens} st st'"
  "apply_condition_applied st env ca = Inr st' \<Longrightarrow> agrees_outside {Conditions} st st'"
  "apply_condition_removed st cr = Inr st' \<Longrightarrow> agrees_outside {Conditions} st st'"
  "apply_note_upserted st env nu = Inr st' \<Longrightarrow> agrees_outside {Notes} st st'"
  "apply_note_deleted st key = Inr st' \<Longrightarrow> agrees_outside {Notes} st st'"
  by (auto simp: fold_arms agrees_outside_def put_scene_def put_actor_def put_token_def Let_def
      split: if_splits option.splits sum.splits)

lemma frame_testimony [fold_frame]:
  "apply_ability_used st au = Inr st' \<Longrightarrow> agrees_outside {} st st'"
  "apply_adventure_loaded st adv name = Inr st' \<Longrightarrow> agrees_outside {} st st'"
  "apply_narration_added st env na = Inr st' \<Longrightarrow> agrees_outside {} st st'"
  "apply_whisper_added st w = Inr st' \<Longrightarrow> agrees_outside {} st st'"
  by (auto dest!: testimony_unchanged simp: agrees_outside_def)

lemma event_frame_helper:
  assumes "apply_event st env = Inr st'" and "env_payload env = Some p"
  shows "agrees_outside (touches p) st st'"
  using assms
  by (cases p) (auto simp: apply_event_def apply_payload_def touches_def agrees_outside_def[of "{}"] dest: fold_frame)

text \<open>An event changes only the parts of the state its variant is about: testimony and speech
  (attacks, abilities, adventures, narration, whispers) change nothing, notes change only by note
  events, tokens only by token events, sessions only by session events, and so on.\<close>

theorem event_frame:
  assumes "apply_event st env = Inr st'" and "env_payload env = Some p"
  shows "agrees_outside (touches p) st st'"
  using event_frame_helper[OF assms] .

theorem event_frame_witness:
  "agrees_outside {} demo_state demo_state"
proof -
  let ?p = "AdventureLoaded ''adv'' ''Cellar''"
  have "apply_event demo_state (payload_only ?p) = Inr demo_state"
    by (simp add: apply_event_def apply_payload_def apply_adventure_loaded_def bad_id_def)
  from event_frame[OF this, of ?p] show ?thesis by (simp add: touches_def)
qed

subsection \<open>Scenes last\<close>

definition scene_grows :: "scene \<Rightarrow> scene \<Rightarrow> bool" where
  "scene_grows sc sc' =
     (sc_id sc' = sc_id sc \<and> sc_name sc' = sc_name sc \<and>
      sc_grid_width sc' = sc_grid_width sc \<and> sc_grid_height sc' = sc_grid_height sc \<and>
      (\<forall>k. go_get (sc_tiles sc) k \<noteq> None \<longrightarrow> go_get (sc_tiles sc') k \<noteq> None) \<and>
      (\<forall>k. go_flag (sc_explored sc) k \<longrightarrow> go_flag (sc_explored sc') k))"

lemma scene_grows_refl [simp]: "scene_grows sc sc"
  by (simp add: scene_grows_def)

lemma scene_grows_trans: "scene_grows a b \<Longrightarrow> scene_grows b c \<Longrightarrow> scene_grows a c"
  by (simp add: scene_grows_def)

lemma event_scene_grows:
  assumes "apply_event st env = Inr st'" "fmlookup (st_scenes st) k = Some sc"
  shows "\<exists>sc'. fmlookup (st_scenes st') k = Some sc' \<and> scene_grows sc sc'"
proof -
  obtain p where p: "env_payload env = Some p" "apply_payload st env p = Inr st'"
    using assms(1) by (auto simp: apply_event_def split: option.splits)
  show ?thesis
  proof (cases "Scenes \<in> touches p")
    case False
    with event_frame_helper[OF assms(1) p(1)] assms(2) show ?thesis by (auto simp: agrees_outside_def)
  next
    case True
    then consider (created) s where "p = SceneCreated s" | (seen) s where "p = SceneSeen s"
      | (opened) i a where "p = DoorOpened i a" | (closed) i a where "p = DoorClosed i a"
      by (cases p) (auto simp: touches_def)
    then show ?thesis
    proof cases
      case created
      with p(2) assms(2) show ?thesis
        by (auto simp: apply_payload_def apply_scene_created_def split: if_splits sum.splits)
    next
      case seen
      with p(2) assms(2) show ?thesis
        by (auto simp: apply_payload_def apply_scene_seen_def put_scene_def Let_def scene_grows_def go_flag_def
            fmlookup_dom_iff split: option.splits)
    next
      case opened
      with p(2) assms(2) show ?thesis
        by (auto simp: apply_payload_def apply_door_opened_def put_scene_def scene_grows_def split: option.splits)
    next
      case closed
      with p(2) assms(2) show ?thesis
        by (auto simp: apply_payload_def apply_door_closed_def put_scene_def scene_grows_def split: option.splits)
    qed
  qed
qed

text \<open>No event removes a scene: over any accepted log a scene keeps its id, name and grid, no
  square with terrain loses it, and what a viewer explored only grows.\<close>

theorem scenes_never_shrink:
  assumes "apply_events st envs = Inr st'" and "fmlookup (st_scenes st) k = Some sc"
  shows "\<exists>sc'. fmlookup (st_scenes st') k = Some sc' \<and> scene_grows sc sc'"
  using assms
proof (induction envs arbitrary: st sc)
  case Nil
  then show ?case by (simp add: apply_events_def)
next
  case (Cons env envs)
  then obtain t where t: "apply_event st env = Inr t" "apply_events t envs = Inr st'"
    by (auto simp: apply_events_def)
  from event_scene_grows[OF t(1) Cons.prems(2)] obtain sc1 where
    sc1: "fmlookup (st_scenes t) k = Some sc1" "scene_grows sc sc1" by blast
  from Cons.IH[OF t(2) sc1(1)] sc1(2) show ?case by (blast intro: scene_grows_trans)
qed

theorem scenes_never_shrink_witness:
  "\<exists>st' sc sc'. apply_events demo_state [payload_only (SceneSeen demo_seen)] = Inr st' \<and>
     fmlookup (st_scenes demo_state) ''s1'' = Some sc \<and>
     fmlookup (st_scenes st') ''s1'' = Some sc' \<and> scene_grows sc sc'"
proof -
  obtain sc where sc: "fmlookup (st_scenes demo_state) ''s1'' = Some sc" by (simp add: demo_state_def)
  obtain st' where st': "apply_events demo_state [payload_only (SceneSeen demo_seen)] = Inr st'"
    by (simp add: apply_events_def apply_event_def apply_payload_def apply_scene_seen_def demo_state_def
        demo_seen_def Let_def)
  from scenes_never_shrink[OF st' sc] st' sc show ?thesis by blast
qed

end

