(* ===== verification/Expr.thy ===== *)
theory Expr
  imports Prelude "HOL-Library.Signed_Division"
begin

text \<open>
  The expression language of \<open>internal/rules/expr.go\<close>, after parsing: the tree, the walks the
  loader uses (\<open>Refs\<close>, \<open>Scopes\<close>, \<open>ScopedRefs\<close>, \<open>HasDice\<close>) and the two evaluators.

  Go's \<open>int\<close> is 64 bits wide and wraps. A \<open>Roller\<close> is an interface the caller supplies: a
  function over a state of its own, passed through and returned, so that an evaluation that
  fails after a roll still shows the roll. \<open>None\<close> is Go's nil roller.
\<close>

subsection \<open>The tree\<close>

datatype scope = ScopeNone | ScopeCaster | ScopeTarget

definition scope_name :: "scope \<Rightarrow> string" where
  "scope_name s = (case s of ScopeCaster \<Rightarrow> ''caster'' | ScopeTarget \<Rightarrow> ''target'' | ScopeNone \<Rightarrow> [])"

definition parse_scope_name :: "string \<Rightarrow> scope option" where
  "parse_scope_name s =
     (if s = ''caster'' then Some ScopeCaster else if s = ''target'' then Some ScopeTarget else None)"

datatype node =
    NInt go_int
  | NDice node node
  | NAttr string scope
  | NRes string scope
  | NBin char node node
  | NFunc string "node list"

record expr =
  ex_root :: node
  ex_src :: string

record eval_context =
  ec_attrs :: "(string, go_int) fmap"
  ec_resources :: "(string, go_int) fmap"

subsection \<open>Walks\<close>

definition add_ref :: "string \<Rightarrow> string list \<Rightarrow> string list" where
  "add_ref k ks = (if k \<in> set ks then ks else ks @ [k])"

fun refs_walk :: "node \<Rightarrow> string list \<times> string list \<Rightarrow> string list \<times> string list" where
  "refs_walk (NAttr k sc) (attrs, res) = (add_ref k attrs, res)"
| "refs_walk (NRes k sc) (attrs, res) = (attrs, add_ref k res)"
| "refs_walk (NBin c l r) acc = refs_walk r (refs_walk l acc)"
| "refs_walk (NFunc f args) acc = fold refs_walk args acc"
| "refs_walk (NDice n s) acc = refs_walk s (refs_walk n acc)"
| "refs_walk (NInt i) acc = acc"

definition expr_refs :: "expr \<Rightarrow> string list \<times> string list" where
  "expr_refs e = refs_walk (ex_root e) ([], [])"

fun scopes_walk :: "node \<Rightarrow> scope list" where
  "scopes_walk (NAttr k sc) = [sc]"
| "scopes_walk (NRes k sc) = [sc]"
| "scopes_walk (NBin c l r) = scopes_walk l @ scopes_walk r"
| "scopes_walk (NFunc f args) = concat (map scopes_walk args)"
| "scopes_walk (NDice n s) = scopes_walk n @ scopes_walk s"
| "scopes_walk (NInt i) = []"

definition expr_scopes :: "expr \<Rightarrow> scope list" where
  "expr_scopes e = scopes_walk (ex_root e)"

record scoped_ref =
  sr_sigil :: char
  sr_scope :: scope
  sr_name :: string

fun scoped_walk :: "node \<Rightarrow> scoped_ref list" where
  "scoped_walk (NAttr k sc) = [\<lparr>sr_sigil = CHR ''@'', sr_scope = sc, sr_name = k\<rparr>]"
| "scoped_walk (NRes k sc) = [\<lparr>sr_sigil = CHR ''#'', sr_scope = sc, sr_name = k\<rparr>]"
| "scoped_walk (NBin c l r) = scoped_walk l @ scoped_walk r"
| "scoped_walk (NFunc f args) = concat (map scoped_walk args)"
| "scoped_walk (NDice n s) = scoped_walk n @ scoped_walk s"
| "scoped_walk (NInt i) = []"

definition expr_scoped_refs :: "expr \<Rightarrow> scoped_ref list" where
  "expr_scoped_refs e = scoped_walk (ex_root e)"

fun dice_walk :: "node \<Rightarrow> bool" where
  "dice_walk (NDice n s) = True"
| "dice_walk (NBin c l r) = (dice_walk l \<or> dice_walk r)"
| "dice_walk (NFunc f args) = list_ex dice_walk args"
| "dice_walk _ = False"

definition expr_has_dice :: "expr \<Rightarrow> bool" where
  "expr_has_dice e = dice_walk (ex_root e)"

subsection \<open>Evaluation\<close>

type_synonym 'r roller = "go_int \<Rightarrow> go_int \<Rightarrow> 'r \<Rightarrow> (go_int list \<times> go_int) \<times> 'r"

datatype eval_error =
    ScopedNotAllowed string
  | BareNotAllowed string
  | UnknownAttribute string scope
  | UnknownResource string scope
  | NotARef
  | DiceCountBounds go_int
  | DiceSidesBounds go_int
  | NilRoller
  | DivisionByZero
  | UnknownOperator char
  | UnknownFunction string
  | IndexPanic

abbreviation min_dice_count :: int where "min_dice_count \<equiv> 1"
abbreviation max_dice_count :: int where "max_dice_count \<equiv> 100"
abbreviation min_dice_sides :: int where "min_dice_sides \<equiv> 1"
abbreviation max_dice_sides :: int where "max_dice_sides \<equiv> 1000"

text \<open>Go's \<open>/\<close> and \<open>%\<close> truncate towards zero; the quotient wraps at the one input that overflows.\<close>

definition go_div :: "go_int \<Rightarrow> go_int \<Rightarrow> go_int" where
  "go_div a b = word_of_int (sint a sdiv sint b)"

definition go_rem :: "go_int \<Rightarrow> go_int \<Rightarrow> go_int" where
  "go_rem a b = word_of_int (sint a smod sint b)"

definition floor_div :: "go_int \<Rightarrow> go_int \<Rightarrow> go_int" where
  "floor_div a b =
     (let q = go_div a b
      in if go_rem a b \<noteq> 0 \<and> (sint a < 0) \<noteq> (sint b < 0) then q - 1 else q)"

definition vals_max :: "go_int \<Rightarrow> go_int list \<Rightarrow> go_int" where
  "vals_max v vs = foldl (\<lambda>m v. if sint m < sint v then v else m) v vs"

definition vals_min :: "go_int \<Rightarrow> go_int list \<Rightarrow> go_int" where
  "vals_min v vs = foldl (\<lambda>m v. if sint v < sint m then v else m) v vs"

definition apply_func :: "string \<Rightarrow> go_int list \<Rightarrow> eval_error + go_int" where
  "apply_func f vals =
     (if f = ''floor'' then (case vals of [] \<Rightarrow> Inl IndexPanic | v # vs \<Rightarrow> Inr v)
      else if f = ''half'' then (case vals of [] \<Rightarrow> Inl IndexPanic | v # vs \<Rightarrow> Inr (floor_div v 2))
      else if f = ''max'' then (case vals of [] \<Rightarrow> Inl IndexPanic | v # vs \<Rightarrow> Inr (vals_max v vs))
      else if f = ''min'' then (case vals of [] \<Rightarrow> Inl IndexPanic | v # vs \<Rightarrow> Inr (vals_min v vs))
      else Inl (UnknownFunction f))"

definition apply_op :: "char \<Rightarrow> go_int \<Rightarrow> go_int \<Rightarrow> eval_error + go_int" where
  "apply_op c l r =
     (if c = CHR ''+'' then Inr (l + r)
      else if c = CHR ''-'' then Inr (l - r)
      else if c = CHR ''*'' then Inr (l * r)
      else if c = CHR ''/'' then if r = 0 then Inl DivisionByZero else Inr (floor_div l r)
      else Inl (UnknownOperator c))"

fun eval_bind :: "('e + 'a) \<times> 'r \<Rightarrow> ('a \<Rightarrow> 'r \<Rightarrow> ('e + 'b) \<times> 'r) \<Rightarrow> ('e + 'b) \<times> 'r" where
  "eval_bind (Inl e, r) k = (Inl e, r)"
| "eval_bind (Inr a, r) k = k a r"

lemma eval_bind_cong [fundef_cong]:
  assumes "m = m'" and "\<And>a r. m' = (Inr a, r) \<Longrightarrow> k a r = k' a r"
  shows "eval_bind m k = eval_bind m' k'"
  using assms by (cases m') (auto elim: sumE split: sum.splits intro: obj_sumE[of "fst m'"])

lemma eval_bind_eq_Inr [simp]:
  "eval_bind m k = (Inr b, r') \<longleftrightarrow> (\<exists>a r. m = (Inr a, r) \<and> k a r = (Inr b, r'))"
  by (cases m; cases "fst m") auto

lemma eval_bind_eq_Inl:
  "eval_bind m k = (Inl e, r') \<longleftrightarrow> m = (Inl e, r') \<or> (\<exists>a r. m = (Inr a, r) \<and> k a r = (Inl e, r'))"
  by (cases m; cases "fst m") auto

text \<open>One roll, with the bounds that only evaluation can check.\<close>

definition roll_dice :: "'r roller option \<Rightarrow> go_int \<Rightarrow> go_int \<Rightarrow> 'r \<Rightarrow> (eval_error + go_int) \<times> 'r" where
  "roll_dice roller count sides r =
     (if sint count < min_dice_count \<or> max_dice_count < sint count then (Inl (DiceCountBounds count), r)
      else if sint sides < min_dice_sides \<or> max_dice_sides < sint sides then (Inl (DiceSidesBounds sides), r)
      else (case roller of
              None \<Rightarrow> (Inl NilRoller, r)
            | Some roll \<Rightarrow> (case roll count sides r of ((dice, tot), r') \<Rightarrow> (Inr tot, r'))))"

fun eval_tree :: "(node \<Rightarrow> eval_error + go_int) \<Rightarrow> 'r roller option \<Rightarrow> node \<Rightarrow> 'r \<Rightarrow> (eval_error + go_int) \<times> 'r"
  and eval_args :: "(node \<Rightarrow> eval_error + go_int) \<Rightarrow> 'r roller option \<Rightarrow> node list \<Rightarrow> 'r \<Rightarrow> (eval_error + go_int list) \<times> 'r" where
  "eval_tree resolve roller (NInt i) r = (Inr i, r)"
| "eval_tree resolve roller (NAttr k sc) r = (resolve (NAttr k sc), r)"
| "eval_tree resolve roller (NRes k sc) r = (resolve (NRes k sc), r)"
| "eval_tree resolve roller (NDice n s) r =
     eval_bind (eval_tree resolve roller n r) (\<lambda>count r1.
       eval_bind (eval_tree resolve roller s r1) (\<lambda>sides r2. roll_dice roller count sides r2))"
| "eval_tree resolve roller (NBin c a b) r =
     eval_bind (eval_tree resolve roller a r) (\<lambda>l r1.
       eval_bind (eval_tree resolve roller b r1) (\<lambda>v r2. (apply_op c l v, r2)))"
| "eval_tree resolve roller (NFunc f args) r =
     eval_bind (eval_args resolve roller args r) (\<lambda>vals r1. (apply_func f vals, r1))"
| "eval_args resolve roller [] r = (Inr [], r)"
| "eval_args resolve roller (a # as) r =
     eval_bind (eval_tree resolve roller a r) (\<lambda>v r1.
       eval_bind (eval_args resolve roller as r1) (\<lambda>vs r2. (Inr (v # vs), r2)))"

definition ref_display :: "node \<Rightarrow> string" where
  "ref_display n =
     (case n of
        NRes k sc \<Rightarrow> ''#'' @ (if sc = ScopeNone then k else scope_name sc @ ''.'' @ k)
      | NAttr k sc \<Rightarrow> ''@'' @ (if sc = ScopeNone then k else scope_name sc @ ''.'' @ k)
      | _ \<Rightarrow> ''@'')"

definition node_scope :: "node \<Rightarrow> scope" where
  "node_scope n = (case n of NAttr k sc \<Rightarrow> sc | NRes k sc \<Rightarrow> sc | _ \<Rightarrow> ScopeNone)"

definition resolve_single :: "(string, go_int) fmap \<Rightarrow> (string, go_int) fmap \<Rightarrow> node \<Rightarrow> eval_error + go_int" where
  "resolve_single attrs resources n =
     (if node_scope n \<noteq> ScopeNone then Inl (ScopedNotAllowed (ref_display n))
      else (case n of
        NAttr k sc \<Rightarrow> (case fmlookup attrs k of None \<Rightarrow> Inl (UnknownAttribute k ScopeNone) | Some v \<Rightarrow> Inr v)
      | NRes k sc \<Rightarrow> (case fmlookup resources k of None \<Rightarrow> Inl (UnknownResource k ScopeNone) | Some v \<Rightarrow> Inr v)
      | _ \<Rightarrow> Inl NotARef))"

definition eval_single :: "expr \<Rightarrow> (string, go_int) fmap \<Rightarrow> (string, go_int) fmap \<Rightarrow> 'r roller option \<Rightarrow> 'r \<Rightarrow> (eval_error + go_int) \<times> 'r" where
  "eval_single e attrs resources roller r = eval_tree (resolve_single attrs resources) roller (ex_root e) r"

definition resolve_in :: "eval_context \<Rightarrow> scope \<Rightarrow> node \<Rightarrow> eval_error + go_int" where
  "resolve_in ctx sc n =
     (case n of
        NAttr k s \<Rightarrow> (case fmlookup (ec_attrs ctx) k of None \<Rightarrow> Inl (UnknownAttribute k sc) | Some v \<Rightarrow> Inr v)
      | NRes k s \<Rightarrow> (case fmlookup (ec_resources ctx) k of None \<Rightarrow> Inl (UnknownResource k sc) | Some v \<Rightarrow> Inr v)
      | _ \<Rightarrow> Inl NotARef)"

definition resolve_scoped :: "eval_context \<Rightarrow> eval_context \<Rightarrow> node \<Rightarrow> eval_error + go_int" where
  "resolve_scoped caster target n =
     (case node_scope n of
        ScopeCaster \<Rightarrow> resolve_in caster ScopeCaster n
      | ScopeTarget \<Rightarrow> resolve_in target ScopeTarget n
      | ScopeNone \<Rightarrow> Inl (BareNotAllowed (ref_display n)))"

definition eval_scoped :: "expr \<Rightarrow> eval_context \<Rightarrow> eval_context \<Rightarrow> 'r roller option \<Rightarrow> 'r \<Rightarrow> (eval_error + go_int) \<times> 'r" where
  "eval_scoped e caster target roller r = eval_tree (resolve_scoped caster target) roller (ex_root e) r"

end
