(* ===== verification/Expr_Parse.thy ===== *)
theory Expr_Parse
  imports Expr
begin

text \<open>
  The lexer and the parser of \<open>internal/rules/expr.go\<close>.

  The lexer's \<open>src\<close> and \<open>pos\<close> are the position and the rest of the text from it. The depth the
  parser counts up to \<open>maxExprDepth\<close> and down again on return is the argument it recurses on,
  counted down: \<open>parse_expr k\<close> and \<open>parse_factor k\<close> may open \<open>k\<close> more levels. The three token
  loops (terms, factors, arguments) run on fuel, the number of characters left plus the token in
  hand, of which every round uses up at least one: \<open>MLoopFuel\<close> is never returned, which
  \<open>Parse_Props\<close> proves. Error texts are tags with the values the text quotes.
\<close>

subsection \<open>Tokens\<close>

datatype token_kind =
    TokEOF | TokInt | TokDice | TokIdent | TokAt | TokHash | TokDot | TokLParen | TokRParen
  | TokComma | TokPlus | TokMinus | TokStar | TokSlash

record lex_token =
  tk_kind :: token_kind
  tk_pos :: nat
  tk_text :: string
  tk_int :: go_int
  tk_dice_n :: go_int
  tk_dice_sides :: go_int

record lexer =
  lx_pos :: nat
  lx_rest :: string

datatype parse_msg =
    MTrailing "string option"
  | MExpectedExpr "string option"
  | MExpectedRParen "string option"
  | MExpectedRParenOrComma "string option"
  | MUnexpectedChar char
  | MOutOfRange string
  | MDiceCount go_int
  | MDiceSides go_int
  | MTooDeep
  | MAmbiguousDice
  | MNoIdentAfterSigil string
  | MUnknownScope string
  | MNoIdentAfterDot
  | MBareIdent string
  | MUnknownFunc string
  | MArityExact string nat nat
  | MArityMin string nat nat
  | MLoopFuel

datatype parse_error = ParseError nat parse_msg

definition is_ident_start :: "char \<Rightarrow> bool" where
  "is_ident_start c = (c = CHR ''_'' \<or> (65 \<le> (of_char c :: nat) \<and> (of_char c :: nat) \<le> 90) \<or>
     (97 \<le> (of_char c :: nat) \<and> (of_char c :: nat) \<le> 122))"

definition is_ident_cont :: "char \<Rightarrow> bool" where
  "is_ident_cont c = (is_ident_start c \<or> is_digit c)"

definition is_valid_ident_name :: "string \<Rightarrow> bool" where
  "is_valid_ident_name s = (case s of [] \<Rightarrow> False | c # cs \<Rightarrow> is_ident_start c \<and> list_all is_ident_cont cs)"

definition is_space :: "char \<Rightarrow> bool" where
  "is_space c = (c = CHR '' '' \<or> c = CHR 9 \<or> c = CHR 10 \<or> c = CHR 13)"

text \<open>\<open>strconv.Atoi\<close> on a run of digits: an error past the largest \<open>int\<close>.\<close>

definition atoi_digits :: "string \<Rightarrow> go_int option" where
  "atoi_digits s = (let n = int (nat_of_digits s) in if n < 2 ^ 63 then Some (word_of_int n) else None)"

definition eat :: "nat \<Rightarrow> lexer \<Rightarrow> lexer" where
  "eat n l = \<lparr>lx_pos = lx_pos l + n, lx_rest = drop n (lx_rest l)\<rparr>"

definition skip_space :: "lexer \<Rightarrow> lexer" where
  "skip_space l = eat (length (takeWhile is_space (lx_rest l))) l"

definition plain_token :: "token_kind \<Rightarrow> nat \<Rightarrow> string \<Rightarrow> lex_token" where
  "plain_token k pos txt =
     \<lparr>tk_kind = k, tk_pos = pos, tk_text = txt, tk_int = 0, tk_dice_n = 0, tk_dice_sides = 0\<rparr>"

definition lex_ident :: "lexer \<Rightarrow> parse_error + lex_token \<times> lexer" where
  "lex_ident l =
     (let txt = takeWhile is_ident_cont (lx_rest l)
      in Inr (plain_token TokIdent (lx_pos l) txt, eat (length txt) l))"

definition fused_dice :: "string \<Rightarrow> bool" where
  "fused_dice rest = (case rest of c # c' # cs \<Rightarrow> c = CHR ''d'' \<and> is_digit c' | _ \<Rightarrow> False)"

definition lex_number :: "lexer \<Rightarrow> parse_error + lex_token \<times> lexer" where
  "lex_number l =
     (let start = lx_pos l;
          count_text = takeWhile is_digit (lx_rest l);
          l1 = eat (length count_text) l
      in case atoi_digits count_text of
           None \<Rightarrow> Inl (ParseError start (MOutOfRange count_text))
         | Some count \<Rightarrow>
             if fused_dice (lx_rest l1) then
               (let l2 = eat 1 l1;
                    sides_start = lx_pos l2;
                    sides_text = takeWhile is_digit (lx_rest l2);
                    l3 = eat (length sides_text) l2
                in case atoi_digits sides_text of
                     None \<Rightarrow> Inl (ParseError sides_start (MOutOfRange sides_text))
                   | Some sides \<Rightarrow>
                       if sint count < min_dice_count \<or> max_dice_count < sint count then
                         Inl (ParseError start (MDiceCount count))
                       else if sint sides < min_dice_sides \<or> max_dice_sides < sint sides then
                         Inl (ParseError sides_start (MDiceSides sides))
                       else Inr (\<lparr>tk_kind = TokDice, tk_pos = start,
                                 tk_text = count_text @ CHR ''d'' # sides_text, tk_int = 0,
                                 tk_dice_n = count, tk_dice_sides = sides\<rparr>, l3))
             else Inr ((plain_token TokInt start count_text)\<lparr>tk_int := count\<rparr>, l1))"

definition single_kind :: "char \<Rightarrow> token_kind option" where
  "single_kind c = map_of
     [(CHR ''@'', TokAt), (CHR ''#'', TokHash), (CHR ''.'', TokDot), (CHR ''('', TokLParen),
      (CHR '')'', TokRParen), (CHR '','', TokComma), (CHR ''+'', TokPlus), (CHR ''-'', TokMinus),
      (CHR ''*'', TokStar), (CHR ''/'', TokSlash)] c"

definition lex_next :: "lexer \<Rightarrow> parse_error + lex_token \<times> lexer" where
  "lex_next l0 =
     (let l = skip_space l0
      in case lx_rest l of
           [] \<Rightarrow> Inr (plain_token TokEOF (lx_pos l) [], l)
         | c # cs \<Rightarrow>
             if is_digit c then lex_number l
             else if is_ident_start c then lex_ident l
             else (case single_kind c of
                     Some k \<Rightarrow> Inr (plain_token k (lx_pos l) [c], eat 1 l)
                   | None \<Rightarrow> Inl (ParseError (lx_pos l) (MUnexpectedChar c))))"

subsection \<open>The parser\<close>

definition max_expr_depth :: nat where "max_expr_depth = 200"

record parser =
  ps_lex :: lexer
  ps_tok :: lex_token

type_synonym 'a parsing = "parser \<Rightarrow> parse_error + 'a \<times> parser"

abbreviation ps_kind :: "parser \<Rightarrow> token_kind" where "ps_kind p \<equiv> tk_kind (ps_tok p)"
abbreviation ps_pos :: "parser \<Rightarrow> nat" where "ps_pos p \<equiv> tk_pos (ps_tok p)"

definition advance :: "parser \<Rightarrow> parse_error + parser" where
  "advance p = sum_bind (lex_next (ps_lex p)) (\<lambda>(t, l). Inr \<lparr>ps_lex = l, ps_tok = t\<rparr>)"

definition describe_tok :: "lex_token \<Rightarrow> string option" where
  "describe_tok t = (if tk_kind t = TokEOF then None else Some (tk_text t))"

definition tokens_left :: "parser \<Rightarrow> nat" where
  "tokens_left p = length (lx_rest (ps_lex p)) + (if ps_kind p = TokEOF then 0 else 1)"

definition too_deep :: "'a parsing" where
  "too_deep p = Inl (ParseError (ps_pos p) MTooDeep)"

fun binop_loop :: "(token_kind \<times> char) list \<Rightarrow> node parsing \<Rightarrow> nat \<Rightarrow> node \<Rightarrow> node parsing" where
  "binop_loop ops sub 0 left p = Inl (ParseError (ps_pos p) MLoopFuel)"
| "binop_loop ops sub (Suc f) left p =
     (case map_of ops (ps_kind p) of
        None \<Rightarrow> Inr (left, p)
      | Some op \<Rightarrow> sum_bind (advance p) (\<lambda>p1. sum_bind (sub p1) (\<lambda>(right, p2).
          binop_loop ops sub f (NBin op left right) p2)))"

definition term_body :: "node parsing \<Rightarrow> node parsing" where
  "term_body factor p = sum_bind (factor p) (\<lambda>(left, p1).
     binop_loop [(TokStar, CHR ''*''), (TokSlash, CHR ''/'')] factor (Suc (tokens_left p1)) left p1)"

definition expr_body :: "node parsing \<Rightarrow> node parsing" where
  "expr_body term p = sum_bind (term p) (\<lambda>(left, p1).
     binop_loop [(TokPlus, CHR ''+''), (TokMinus, CHR ''-'')] term (Suc (tokens_left p1)) left p1)"

definition parse_ref :: "node parsing" where
  "parse_ref p =
     (let sigil_pos = ps_pos p;
          hash = (ps_kind p = TokHash);
          mk = (if hash then NRes else NAttr)
      in sum_bind (advance p) (\<lambda>p1.
           if ps_kind p1 \<noteq> TokIdent then
             Inl (ParseError sigil_pos (MNoIdentAfterSigil (if hash then ''#'' else ''@'')))
           else
             (let name1 = tk_text (ps_tok p1); name1_pos = ps_pos p1
              in sum_bind (advance p1) (\<lambda>p2.
                   if ps_kind p2 \<noteq> TokDot then Inr (mk name1 ScopeNone, p2)
                   else (case parse_scope_name name1 of
                           None \<Rightarrow> Inl (ParseError name1_pos (MUnknownScope name1))
                         | Some sc \<Rightarrow>
                             sum_bind (advance p2) (\<lambda>p3.
                               if ps_kind p3 \<noteq> TokIdent then Inl (ParseError (ps_pos p2) MNoIdentAfterDot)
                               else sum_bind (advance p3) (\<lambda>p4. Inr (mk (tk_text (ps_tok p3)) sc, p4))))))))"

definition func_arity :: "string \<Rightarrow> (nat \<times> nat) option" where
  "func_arity = map_of [(''floor'', (1, 0)), (''half'', (1, 0)), (''max'', (0, 2)), (''min'', (0, 2))]"

fun args_loop :: "node parsing \<Rightarrow> nat \<Rightarrow> node list \<Rightarrow> node list parsing" where
  "args_loop expr 0 args p = Inl (ParseError (ps_pos p) MLoopFuel)"
| "args_loop expr (Suc f) args p =
     (if ps_kind p = TokComma then
        sum_bind (advance p) (\<lambda>p1. sum_bind (expr p1) (\<lambda>(arg, p2). args_loop expr f (args @ [arg]) p2))
      else Inr (args, p))"

definition func_call_body :: "node parsing \<Rightarrow> node parsing" where
  "func_call_body expr p =
     (let name = tk_text (ps_tok p); name_pos = ps_pos p
      in sum_bind (advance p) (\<lambda>p1.
           if ps_kind p1 \<noteq> TokLParen then Inl (ParseError name_pos (MBareIdent name))
           else (case func_arity name of
             None \<Rightarrow> Inl (ParseError name_pos (MUnknownFunc name))
           | Some (exact, least) \<Rightarrow>
               sum_bind (advance p1) (\<lambda>p2.
               sum_bind (expr p2) (\<lambda>(first, p3).
               sum_bind (args_loop expr (Suc (tokens_left p3)) [first] p3) (\<lambda>(args, p4).
                 if ps_kind p4 \<noteq> TokRParen then
                   Inl (ParseError (ps_pos p4) (MExpectedRParenOrComma (describe_tok (ps_tok p4))))
                 else sum_bind (advance p4) (\<lambda>p5.
                   if 0 < exact \<and> length args \<noteq> exact then
                     Inl (ParseError name_pos (MArityExact name exact (length args)))
                   else if 0 < least \<and> length args < least then
                     Inl (ParseError name_pos (MArityMin name least (length args)))
                   else Inr (NFunc name args, p5))))))))"

text \<open>The flag says whether the primary was a parenthesized expression.\<close>

definition primary_body :: "node parsing \<Rightarrow> (node \<times> bool) parsing" where
  "primary_body expr p =
     (case ps_kind p of
        TokInt \<Rightarrow> sum_bind (advance p) (\<lambda>p1. Inr ((NInt (tk_int (ps_tok p)), False), p1))
      | TokDice \<Rightarrow> sum_bind (advance p) (\<lambda>p1.
          Inr ((NDice (NInt (tk_dice_n (ps_tok p))) (NInt (tk_dice_sides (ps_tok p))), False), p1))
      | TokAt \<Rightarrow> sum_bind (parse_ref p) (\<lambda>(n, p1). Inr ((n, False), p1))
      | TokHash \<Rightarrow> sum_bind (parse_ref p) (\<lambda>(n, p1). Inr ((n, False), p1))
      | TokIdent \<Rightarrow> sum_bind (func_call_body expr p) (\<lambda>(n, p1). Inr ((n, False), p1))
      | TokLParen \<Rightarrow>
          sum_bind (advance p) (\<lambda>p1. sum_bind (expr p1) (\<lambda>(inner, p2).
            if ps_kind p2 \<noteq> TokRParen then
              Inl (ParseError (ps_pos p2) (MExpectedRParen (describe_tok (ps_tok p2))))
            else sum_bind (advance p2) (\<lambda>p3. Inr ((inner, True), p3))))
      | _ \<Rightarrow> Inl (ParseError (ps_pos p) (MExpectedExpr (describe_tok (ps_tok p)))))"

definition dice_op_suffix :: "string \<Rightarrow> string option" where
  "dice_op_suffix txt =
     (if txt = ''d'' then Some []
      else (case txt of
              c # d # ds \<Rightarrow> if c = CHR ''d'' \<and> list_all is_digit (d # ds) then Some (d # ds) else None
            | _ \<Rightarrow> None))"

definition is_dice :: "node \<Rightarrow> bool" where
  "is_dice n = (case n of NDice a b \<Rightarrow> True | _ \<Rightarrow> False)"

definition literal_out :: "int \<Rightarrow> int \<Rightarrow> node \<Rightarrow> go_int option" where
  "literal_out lo hi n = (case n of NInt i \<Rightarrow> if sint i < lo \<or> hi < sint i then Some i else None | _ \<Rightarrow> None)"

text \<open>The sides of a \<open>d\<close> operator at token \<open>p\<close>, a digits-only suffix or a second primary.\<close>

definition dice_sides_body :: "node parsing \<Rightarrow> string \<Rightarrow> node parsing" where
  "dice_sides_body expr digits p =
     (if digits = [] then
        sum_bind (advance p) (\<lambda>p1. sum_bind (primary_body expr p1) (\<lambda>((sides, paren), p2).
          if is_dice sides \<and> \<not> paren then Inl (ParseError (ps_pos p1) MAmbiguousDice)
          else (case literal_out min_dice_sides max_dice_sides sides of
                  Some i \<Rightarrow> Inl (ParseError (ps_pos p1) (MDiceSides i))
                | None \<Rightarrow> Inr (sides, p2))))
      else (case atoi_digits digits of
              None \<Rightarrow> Inl (ParseError (ps_pos p + 1) (MOutOfRange digits))
            | Some n \<Rightarrow>
                if sint n < min_dice_sides \<or> max_dice_sides < sint n then
                  Inl (ParseError (ps_pos p + 1) (MDiceSides n))
                else sum_bind (advance p) (\<lambda>p1. Inr (NInt n, p1))))"

definition tok_dice_op :: "parser \<Rightarrow> string option" where
  "tok_dice_op p = (if ps_kind p \<noteq> TokIdent then None else dice_op_suffix (tk_text (ps_tok p)))"

definition factor_body :: "node parsing \<Rightarrow> node parsing" where
  "factor_body expr p =
     sum_bind (primary_body expr p) (\<lambda>((left, paren), p1).
       case tok_dice_op p1 of
         None \<Rightarrow> Inr (left, p1)
       | Some digits \<Rightarrow>
           if is_dice left \<and> \<not> paren then Inl (ParseError (ps_pos p) MAmbiguousDice)
           else (case literal_out min_dice_count max_dice_count left of
             Some i \<Rightarrow> Inl (ParseError (ps_pos p) (MDiceCount i))
           | None \<Rightarrow>
               sum_bind (dice_sides_body expr digits p1) (\<lambda>(sides, p2).
                 if tok_dice_op p2 \<noteq> None then Inl (ParseError (ps_pos p2) MAmbiguousDice)
                 else Inr (NDice left sides, p2))))"

fun parse_expr :: "nat \<Rightarrow> node parsing" and parse_factor :: "nat \<Rightarrow> node parsing" where
  "parse_expr 0 = too_deep"
| "parse_expr (Suc k) = expr_body (term_body (parse_factor k))"
| "parse_factor 0 = too_deep"
| "parse_factor (Suc k) = factor_body (parse_expr k)"

definition parse_string :: "string \<Rightarrow> parse_error + expr" where
  "parse_string s =
     sum_bind (advance \<lparr>ps_lex = \<lparr>lx_pos = 0, lx_rest = s\<rparr>, ps_tok = plain_token TokEOF 0 []\<rparr>) (\<lambda>p.
     sum_bind (parse_expr max_expr_depth p) (\<lambda>(root, p1).
       if ps_kind p1 \<noteq> TokEOF then Inl (ParseError (ps_pos p1) (MTrailing (describe_tok (ps_tok p1))))
       else Inr \<lparr>ex_root = root, ex_src = s\<rparr>))"

end
