(* ===== verification/Ruleset.thy ===== *)
theory Ruleset
  imports Expr_Parse World
begin

text \<open>
  A loaded ruleset: the types of \<open>internal/rules/format.go\<close>. An \<open>Outcome\<close> is Go's struct of a
  kind and three pointers, of which the kind says which one is set.
\<close>

subsection \<open>Properties, resources and conditions\<close>

record threshold =
  th_when :: expr
  th_when_src :: string
  th_apply :: string
  th_remove_when_false :: bool

record resource_def =
  rd_default_max :: "expr option"
  rd_default_max_src :: string
  rd_thresholds :: "threshold list"

record rule_property =
  pr_key :: string
  pr_type :: string
  pr_name :: string
  pr_description :: string
  pr_resource :: "resource_def option"

record rule_condition =
  cn_id :: string
  cn_name :: string
  cn_description :: string

abbreviation PropertyNumber :: string where "PropertyNumber \<equiv> ''number''"
abbreviation PropertyResource :: string where "PropertyResource \<equiv> ''resource''"

subsection \<open>Atoms\<close>

datatype outcome_kind = OutcomeResourceChange | OutcomeApplyCondition | OutcomeRemoveCondition

record effect_template =
  et_kind :: outcome_kind
  et_resource_src :: string
  et_delta_src :: string
  et_apply_src :: string
  et_remove_src :: string

record contribution =
  cb_kind :: string
  cb_range_src :: string
  cb_max_targets_src :: string
  cb_key :: string
  cb_roll_src :: string
  cb_vs_src :: string
  cb_branches :: "string \<times> string"
  cb_outcome_key :: "string option"
  cb_branch :: string
  cb_effects :: "effect_template list"

record param_def =
  pd_name :: string
  pd_kind :: string

record atom_def =
  ad_id :: string
  ad_params :: "param_def list"
  ad_provides :: "string list"
  ad_consumes :: "string list"
  ad_contributes :: "contribution list"

subsection \<open>Compiled abilities\<close>

record limited_usage =
  lu_resource :: string
  lu_cost :: go_int

record usage =
  us_at_will :: bool
  us_limited :: "limited_usage option"

record targeting =
  tg_range :: go_int
  tg_max_targets :: go_int

datatype outcome =
    ResourceChangeOutcome string expr string
  | ApplyConditionOutcome string
  | RemoveConditionOutcome string

record compiled_resolution =
  cr_roll :: expr
  cr_vs :: expr
  cr_roll_src :: string
  cr_vs_src :: string
  cr_branches :: "string \<times> string"

record compiled_power =
  cp_id :: string
  cp_name :: string
  cp_usage :: usage
  cp_targeting :: targeting
  cp_resolution :: "compiled_resolution option"
  cp_branch_outcomes :: "outcome list \<times> outcome list"
  cp_effects :: "outcome list"

record ruleset =
  rs_id :: string
  rs_name :: string
  rs_format_version :: string
  rs_properties :: "rule_property list"
  rs_conditions :: "(string, rule_condition) fmap"
  rs_guide :: string
  rs_atoms :: "(string, atom_def) fmap"
  rs_compiled :: "(string, compiled_power) fmap"

text \<open>\<open>Ruleset.Property\<close>: the first property with the key.\<close>

definition find_property :: "ruleset \<Rightarrow> string \<Rightarrow> rule_property option" where
  "find_property rs key = find (\<lambda>p. pr_key p = key) (rs_properties rs)"

end
