(* ===== verification/Compile.thy ===== *)
theory Compile
  imports Ruleset
begin

text \<open>
  \<open>internal/rules/compile.go\<close>: compositions of atoms become abilities. Bindings are checked and
  turned into text, the provides/consumes graph is sorted, and templates are substituted and
  parsed. Errors are tags with what the text quotes; the source path, the same in every error
  of one composition, is left out.

  A \<open>json.RawMessage\<close> is what \<open>json.Unmarshal\<close> can tell of it: an integer literal, a string,
  null (which leaves the variable it is decoded into at its zero value, without an error) or
  anything else.
\<close>

subsection \<open>Compositions and errors\<close>

datatype raw_json = RawInt int | RawString string | RawNull | RawOther

record compose_entry =
  ce_atom :: string
  ce_bind :: "(string, raw_json) fmap"

record composition_ability =
  ca_id :: string
  ca_name :: string
  ca_usage :: usage
  ca_compose :: "compose_entry list"

datatype compile_error =
    UndeclaredProperty string
  | WrongPropertyType string string string
  | UnknownAtom nat string
  | UndeclaredParam nat string
  | MissingBinding nat string
  | NotAnInteger nat string
  | NegativeBinding nat string go_int
  | EmptyExpr nat string
  | InvalidExpr nat string parse_error
  | EmptyName nat string
  | BadName nat string string
  | UndeclaredCondition string
  | DuplicateProvider string nat nat
  | NoProvider string nat
  | PhaseOrder string nat nat
  | DependencyCycle
  | TwoTargetings nat nat
  | NoTargeting
  | BadIntField string
  | NegativeRange
  | MaxTargetsTooSmall
  | TwoResolutions nat nat
  | ExprError parse_error
  | BareReference string
  | OutcomeWithoutResolution nat string
  | OutcomeKeyMismatch nat string string
  | UnknownBranch nat string
  | NilOutcomeKey nat
  | ResolutionKeyNotProvided nat string
  | OutcomeKeyNotConsumed nat string

definition unmarshal_int :: "raw_json \<Rightarrow> go_int option" where
  "unmarshal_int raw =
     (case raw of
        RawInt k \<Rightarrow> if - (2 ^ 63) \<le> k \<and> k < 2 ^ 63 then Some (word_of_int k) else None
      | RawNull \<Rightarrow> Some 0
      | _ \<Rightarrow> None)"

definition unmarshal_string :: "raw_json \<Rightarrow> string option" where
  "unmarshal_string raw = (case raw of RawString s \<Rightarrow> Some s | RawNull \<Rightarrow> Some [] | _ \<Rightarrow> None)"

text \<open>\<open>strconv.Atoi\<close>: an optional sign and digits, in the range of \<open>int\<close>.\<close>

definition atoi_sign :: "string \<Rightarrow> int \<times> string" where
  "atoi_sign s = (case s of
     c # cs \<Rightarrow> if c = CHR ''-'' then (- 1, cs) else if c = CHR ''+'' then (1, cs) else (1, s)
   | [] \<Rightarrow> (1, []))"

definition atoi :: "string \<Rightarrow> go_int option" where
  "atoi s = (case atoi_sign s of (sign, ds) \<Rightarrow>
     if ds = [] \<or> \<not> list_all is_digit ds then None
     else let k = sign * int (nat_of_digits ds)
          in if - (2 ^ 63) \<le> k \<and> k < 2 ^ 63 then Some (word_of_int k) else None)"

subsection \<open>Properties\<close>

definition property_types :: "ruleset \<Rightarrow> (string, string) fmap" where
  "property_types rs = fold (\<lambda>p m. fmupd (pr_key p) (pr_type p) m) (rs_properties rs) fmempty"

definition check_property_ref :: "string \<Rightarrow> string \<Rightarrow> (string, string) fmap \<Rightarrow> compile_error + unit" where
  "check_property_ref key want types =
     (case fmlookup types key of
        None \<Rightarrow> Inl (UndeclaredProperty key)
      | Some got \<Rightarrow> if got \<noteq> want then Inl (WrongPropertyType got key want) else Inr ())"

subsection \<open>Templates\<close>

text \<open>A placeholder at the head of a text: its name and what follows it.\<close>

definition match_placeholder :: "string \<Rightarrow> (string \<times> string) option" where
  "match_placeholder s =
     (case s of
        c # cs \<Rightarrow>
          (let name = takeWhile is_ident_cont cs in
           if c = CHR ''{'' \<and> is_valid_ident_name name then
             (case dropWhile is_ident_cont cs of
                d # rest \<Rightarrow> if d = CHR ''}'' then Some (name, rest) else None
              | [] \<Rightarrow> None)
           else None)
      | [] \<Rightarrow> None)"

lemma match_placeholder_shrinks: "match_placeholder s = Some (name, rest) \<Longrightarrow> length rest < length s"
proof -
  assume "match_placeholder s = Some (name, rest)"
  then obtain c cs d where "s = c # cs" "dropWhile is_ident_cont cs = d # rest"
    by (auto simp: match_placeholder_def Let_def split: list.splits if_splits)
  moreover have "length (dropWhile is_ident_cont cs) \<le> length cs" by (rule length_dropWhile_le)
  ultimately show ?thesis by simp
qed

function subst_template :: "(string, string) fmap \<Rightarrow> string \<Rightarrow> string" where
  "subst_template b s =
     (case match_placeholder s of
        Some (name, rest) \<Rightarrow>
          (case fmlookup b name of
             Some v \<Rightarrow> v
           | None \<Rightarrow> CHR ''{'' # name @ ''}'') @ subst_template b rest
      | None \<Rightarrow> (case s of [] \<Rightarrow> [] | c # cs \<Rightarrow> c # subst_template b cs))"
  by pat_completeness auto
termination
  by (relation "measure (\<lambda>(b, s). length s)") (auto dest: match_placeholder_shrinks)

declare subst_template.simps [simp del]

definition resolve_int_field :: "string \<Rightarrow> (string, go_int) fmap \<Rightarrow> compile_error + go_int" where
  "resolve_int_field src ints =
     (case match_placeholder src of
        Some (name, []) \<Rightarrow> (case fmlookup ints name of Some v \<Rightarrow> Inr v | None \<Rightarrow> Inl (BadIntField src))
      | _ \<Rightarrow> (case atoi src of Some v \<Rightarrow> Inr v | None \<Rightarrow> Inl (BadIntField src)))"

subsection \<open>Bindings\<close>

definition bind_name :: "nat \<Rightarrow> string \<Rightarrow> raw_json \<Rightarrow> compile_error + string" where
  "bind_name idx param raw =
     (case unmarshal_string raw of
        None \<Rightarrow> Inl (EmptyName idx param)
      | Some s \<Rightarrow>
          if s = [] then Inl (EmptyName idx param)
          else if \<not> is_valid_ident_name s then Inl (BadName idx param s)
          else Inr s)"

type_synonym bindings = "(string, string) fmap \<times> (string, go_int) fmap"

definition bind_param :: "ruleset \<Rightarrow> nat \<Rightarrow> (string, string) fmap \<Rightarrow> param_def \<Rightarrow> raw_json \<Rightarrow> bindings \<Rightarrow> compile_error + bindings" where
  "bind_param rs idx types p raw b =
     (case b of (texts, ints) \<Rightarrow>
        let name = pd_name p; kind = pd_kind p in
        if kind = ''int'' then
          (case unmarshal_int raw of
             None \<Rightarrow> Inl (NotAnInteger idx name)
           | Some n \<Rightarrow>
               if sint n < 0 then Inl (NegativeBinding idx name n)
               else Inr (fmupd name (''('' @ show_int (sint n) @ '')'') texts, fmupd name n ints))
        else if kind = ''expr'' then
          (case unmarshal_string raw of
             None \<Rightarrow> Inl (EmptyExpr idx name)
           | Some s \<Rightarrow>
               if s = [] then Inl (EmptyExpr idx name)
               else (case parse_string s of
                       Inl err \<Rightarrow> Inl (InvalidExpr idx name err)
                     | Inr _ \<Rightarrow> Inr (fmupd name (''('' @ s @ '')'') texts, ints)))
        else if kind = PropertyNumber \<or> kind = PropertyResource then
          sum_bind (bind_name idx name raw) (\<lambda>s.
          sum_bind (check_property_ref s kind types) (\<lambda>_. Inr (fmupd name s texts, ints)))
        else if kind = ''condition'' then
          sum_bind (bind_name idx name raw) (\<lambda>s.
            if fmlookup (rs_conditions rs) s = None then Inl (UndeclaredCondition s)
            else Inr (fmupd name s texts, ints))
        else Inr b)"

fun bind_params :: "ruleset \<Rightarrow> nat \<Rightarrow> (string, string) fmap \<Rightarrow> (string, raw_json) fmap \<Rightarrow> param_def list \<Rightarrow> bindings
    \<Rightarrow> compile_error + bindings" where
  "bind_params rs idx types bind [] b = Inr b"
| "bind_params rs idx types bind (p # ps) b =
     (case fmlookup bind (pd_name p) of
        None \<Rightarrow> Inl (MissingBinding idx (pd_name p))
      | Some raw \<Rightarrow> sum_bind (bind_param rs idx types p raw b) (bind_params rs idx types bind ps))"

definition bind_atom :: "ruleset \<Rightarrow> nat \<Rightarrow> atom_def \<Rightarrow> (string, raw_json) fmap \<Rightarrow> (string, string) fmap \<Rightarrow> compile_error + bindings" where
  "bind_atom rs idx atom bind types =
     (case filter (\<lambda>k. k \<notin> pd_name ` set (ad_params atom)) (keys bind) of
        k # ks \<Rightarrow> Inl (UndeclaredParam idx k)
      | [] \<Rightarrow> bind_params rs idx types bind (ad_params atom) (fmempty, fmempty))"

subsection \<open>Phases\<close>

definition phase_targeting :: nat where [simp]: "phase_targeting = 0"
definition phase_resolution :: nat where [simp]: "phase_resolution = 1"
definition phase_branch :: nat where [simp]: "phase_branch = 2"
definition phase_effects :: nat where [simp]: "phase_effects = 3"

definition contribution_phase :: "contribution \<Rightarrow> nat" where
  "contribution_phase c =
     (if cb_kind c = ''targeting'' then phase_targeting
      else if cb_kind c = ''resolution'' then phase_resolution
      else if cb_branch c = ''always'' then phase_effects else phase_branch)"

definition produce_phase_for_key :: "atom_def \<Rightarrow> string \<Rightarrow> nat" where
  "produce_phase_for_key atom key =
     (if list_ex (\<lambda>c. cb_kind c = ''resolution'' \<and> cb_key c = key) (ad_contributes atom) then phase_resolution
      else foldl (\<lambda>phase c. if cb_kind c = ''outcome'' \<and> phase < contribution_phase c
                            then contribution_phase c else phase) phase_targeting (ad_contributes atom))"

definition consume_phase_for_atom :: "atom_def \<Rightarrow> nat" where
  "consume_phase_for_atom atom =
     foldl (\<lambda>phase c. if contribution_phase c < phase then contribution_phase c else phase)
       phase_effects (ad_contributes atom)"

fun check_atom_contribution_keys :: "string list \<Rightarrow> string list \<Rightarrow> nat \<Rightarrow> contribution list \<Rightarrow> compile_error option" where
  "check_atom_contribution_keys provides consumes i [] = None"
| "check_atom_contribution_keys provides consumes i (c # cs) =
     (if cb_kind c = ''resolution'' \<and> cb_key c \<notin> set provides then Some (ResolutionKeyNotProvided i (cb_key c))
      else if cb_kind c = ''outcome'' \<and> cb_branch c \<noteq> ''always'' \<and>
         (case cb_outcome_key c of None \<Rightarrow> False | Some k \<Rightarrow> k \<notin> set consumes)
      then Some (OutcomeKeyNotConsumed i (the (cb_outcome_key c)))
      else check_atom_contribution_keys provides consumes (Suc i) cs)"

end
