(* ===== verification/Dag.thy ===== *)
theory Dag
  imports Compile
begin

text \<open>
  \<open>buildAndSortDAG\<close> of \<open>internal/rules/compile.go\<close>: who provides which key, the edges from
  provider to consumer with the in-degrees counted as they are added, and Kahn's loop, which
  places the lowest ready index each round. The loop runs once per atom.
\<close>

subsection \<open>Providers and edges\<close>

fun add_provides :: "nat \<Rightarrow> string list \<Rightarrow> (string, nat) fmap \<Rightarrow> compile_error + (string, nat) fmap" where
  "add_provides i [] m = Inr m"
| "add_provides i (k # ks) m =
     (case fmlookup m k of
        Some prev \<Rightarrow> Inl (DuplicateProvider k prev i)
      | None \<Rightarrow> add_provides i ks (fmupd k i m))"

fun provider_map :: "nat \<Rightarrow> atom_def list \<Rightarrow> (string, nat) fmap \<Rightarrow> compile_error + (string, nat) fmap" where
  "provider_map i [] m = Inr m"
| "provider_map i (a # as) m = sum_bind (add_provides i (ad_provides a) m) (provider_map (Suc i) as)"

type_synonym dag = "nat list list \<times> int list"

definition add_edge :: "nat \<Rightarrow> nat \<Rightarrow> dag \<Rightarrow> dag" where
  "add_edge p i g = (case g of (adj, indeg) \<Rightarrow> (adj[p := adj ! p @ [i]], indeg[i := indeg ! i + 1]))"

fun add_consumes :: "atom_def list \<Rightarrow> (string, nat) fmap \<Rightarrow> nat \<Rightarrow> string list \<Rightarrow> dag \<Rightarrow> compile_error + dag" where
  "add_consumes atoms providers i [] g = Inr g"
| "add_consumes atoms providers i (k # ks) g =
     (case fmlookup providers k of
        None \<Rightarrow> Inl (NoProvider k i)
      | Some p \<Rightarrow>
          if consume_phase_for_atom (atoms ! i) < produce_phase_for_key (atoms ! p) k
          then Inl (PhaseOrder k p i)
          else add_consumes atoms providers i ks (add_edge p i g))"

fun add_all_consumes :: "atom_def list \<Rightarrow> (string, nat) fmap \<Rightarrow> nat list \<Rightarrow> dag \<Rightarrow> compile_error + dag" where
  "add_all_consumes atoms providers [] g = Inr g"
| "add_all_consumes atoms providers (i # is) g =
     sum_bind (add_consumes atoms providers i (ad_consumes (atoms ! i)) g) (add_all_consumes atoms providers is)"

subsection \<open>Kahn's loop\<close>

definition lowest_ready :: "bool list \<Rightarrow> int list \<Rightarrow> nat option" where
  "lowest_ready placed indeg = find (\<lambda>i. \<not> placed ! i \<and> indeg ! i = 0) [0..<length placed]"

fun kahn_loop :: "nat \<Rightarrow> nat list list \<Rightarrow> bool list \<Rightarrow> int list \<Rightarrow> nat list \<Rightarrow> compile_error + nat list" where
  "kahn_loop 0 adj placed indeg order = Inr order"
| "kahn_loop (Suc k) adj placed indeg order =
     (case lowest_ready placed indeg of
        None \<Rightarrow> Inl DependencyCycle
      | Some pick \<Rightarrow>
          kahn_loop k adj (placed[pick := True])
            (fold (\<lambda>j d. d[j := d ! j - 1]) (adj ! pick) indeg) (order @ [pick]))"

definition build_and_sort_dag :: "atom_def list \<Rightarrow> compile_error + nat list" where
  "build_and_sort_dag atoms =
     (let n = length atoms in
      sum_bind (provider_map 0 atoms fmempty) (\<lambda>providers.
      sum_bind (add_all_consumes atoms providers [0..<n] (replicate n [], replicate n 0)) (\<lambda>(adj, indeg).
        kahn_loop n adj (replicate n False) indeg [])))"

subsection \<open>The loop's invariant\<close>

text \<open>How many edges run from \<open>p\<close> to \<open>i\<close>, and the in-degree left once \<open>order\<close> is placed.\<close>

definition edges :: "nat list list \<Rightarrow> nat \<Rightarrow> nat \<Rightarrow> nat" where
  "edges adj p i = count_list (adj ! p) i"

definition remaining :: "nat list list \<Rightarrow> nat list \<Rightarrow> nat \<Rightarrow> nat" where
  "remaining adj order i = (\<Sum>p \<in> {..<length adj} - set order. edges adj p i)"

definition closed_adj :: "nat list list \<Rightarrow> bool" where
  "closed_adj adj = (\<forall>p < length adj. \<forall>i \<in> set (adj ! p). i < length adj)"

text \<open>Every edge into a placed index comes from an index placed before it.\<close>

definition in_order :: "nat list list \<Rightarrow> nat list \<Rightarrow> bool" where
  "in_order adj order = (\<forall>j < length order. \<forall>p < length adj.
     order ! j \<in> set (adj ! p) \<longrightarrow> (\<exists>i < j. order ! i = p))"

definition topological :: "nat list list \<Rightarrow> nat list \<Rightarrow> bool" where
  "topological adj order = (distinct order \<and> set order = {..<length adj} \<and> in_order adj order)"

definition kahn_inv :: "nat list list \<Rightarrow> bool list \<Rightarrow> int list \<Rightarrow> nat list \<Rightarrow> bool" where
  "kahn_inv adj placed indeg order =
     (length placed = length adj \<and> length indeg = length adj \<and> closed_adj adj \<and>
      distinct order \<and> set order \<subseteq> {..<length adj} \<and> in_order adj order \<and>
      (\<forall>i < length adj. placed ! i = (i \<in> set order)) \<and>
      (\<forall>i < length adj. indeg ! i = int (remaining adj order i)))"

lemma fold_decrement:
  assumes "\<forall>j \<in> set js. j < length d" and "i < length d"
  shows "length (fold (\<lambda>j d. d[j := d ! j - 1]) js d) = length d \<and>
    fold (\<lambda>j d. d[j := d ! j - 1]) js d ! i = d ! i - int (count_list js i)"
  using assms by (induction js arbitrary: d) (auto simp: nth_list_update)

lemma remaining_zero: "remaining adj order i = 0 \<longleftrightarrow> (\<forall>p < length adj. i \<in> set (adj ! p) \<longrightarrow> p \<in> set order)"
  by (auto simp: remaining_def edges_def count_list_0_iff)

lemma remaining_snoc:
  assumes "pick < length adj" and "pick \<notin> set order"
  shows "remaining adj order i = edges adj pick i + remaining adj (order @ [pick]) i"
proof -
  have eq: "{..<length adj} - set order = insert pick ({..<length adj} - set (order @ [pick]))"
    using assms by auto
  show ?thesis unfolding remaining_def eq by (rule sum.insert) auto
qed

lemma in_order_snoc:
  assumes "in_order adj order" and "\<forall>p < length adj. pick \<in> set (adj ! p) \<longrightarrow> p \<in> set order"
  shows "in_order adj (order @ [pick])"
  unfolding in_order_def
proof (intro allI impI)
  fix j p
  assume j: "j < length (order @ [pick])" and p: "p < length adj" and e: "(order @ [pick]) ! j \<in> set (adj ! p)"
  show "\<exists>i < j. (order @ [pick]) ! i = p"
  proof (cases "j < length order")
    case True
    with e have "order ! j \<in> set (adj ! p)" by (simp add: nth_append)
    with assms(1) True p obtain i where "i < j" "order ! i = p" unfolding in_order_def by blast
    with True show ?thesis by (auto simp: nth_append intro!: exI[of _ i])
  next
    case False
    with j have "j = length order" by simp
    with e p assms(2) have "p \<in> set order" by simp
    then obtain i where "i < length order" "order ! i = p" by (auto simp: in_set_conv_nth)
    with \<open>j = length order\<close> show ?thesis by (auto simp: nth_append intro!: exI[of _ i])
  qed
qed

lemma kahn_step:
  assumes "kahn_inv adj placed indeg order" and "lowest_ready placed indeg = Some pick"
  shows "kahn_inv adj (placed[pick := True]) (fold (\<lambda>j d. d[j := d ! j - 1]) (adj ! pick) indeg) (order @ [pick])"
proof -
  have pick: "pick < length adj" "\<not> placed ! pick" "indeg ! pick = 0"
    using assms by (auto simp: lowest_ready_def find_Some_iff kahn_inv_def)
  with assms(1) have fresh: "pick \<notin> set order" by (simp add: kahn_inv_def)
  have zero: "remaining adj order pick = 0" using assms(1) pick by (simp add: kahn_inv_def)
  have "\<forall>j \<in> set (adj ! pick). j < length indeg"
    using assms(1) pick by (auto simp: kahn_inv_def closed_adj_def)
  note dec = fold_decrement[OF this]
  show ?thesis
    using assms(1) pick fresh in_order_snoc[of adj order pick] zero[unfolded remaining_zero] dec
      remaining_snoc[OF pick(1) fresh]
    by (auto simp: kahn_inv_def nth_list_update edges_def)
qed

lemma stuck_is_cyclic:
  assumes inv: "kahn_inv adj placed indeg order" and stuck: "lowest_ready placed indeg = None"
    and left: "length order < length adj"
  shows "\<not> topological adj ord"
proof
  assume ord: "topological adj ord"
  then have len: "length ord = length adj" unfolding topological_def by (metis card_lessThan distinct_card)
  have "card (set order) < length adj" using inv left by (simp add: kahn_inv_def distinct_card)
  then have "\<exists>j < length ord. ord ! j \<notin> set order"
    using ord unfolding topological_def by (metis card_lessThan card_mono finite_set in_set_conv_nth leD subsetI)
  then obtain j where j: "j < length ord" "ord ! j \<notin> set order"
    and least: "\<forall>i < j. \<not> (i < length ord \<and> ord ! i \<notin> set order)"
    using exists_least_iff[of "\<lambda>j. j < length ord \<and> ord ! j \<notin> set order"] by blast
  have bound: "ord ! j < length adj" using ord j(1) by (metis lessThan_iff nth_mem topological_def)
  have "p \<in> set order" if "p < length adj" "ord ! j \<in> set (adj ! p)" for p
  proof -
    from ord that j(1) obtain i where "i < j" "ord ! i = p" unfolding topological_def in_order_def by blast
    with least j(1) show ?thesis by auto
  qed
  then have "remaining adj order (ord ! j) = 0" by (simp add: remaining_zero)
  with inv bound j(2) have "\<not> placed ! (ord ! j)" "indeg ! (ord ! j) = 0" "ord ! j < length placed"
    by (simp_all add: kahn_inv_def)
  with stuck show False by (auto simp: lowest_ready_def find_None_iff)
qed

lemma kahn_loop_spec:
  assumes "kahn_inv adj placed indeg order" and "k + length order = length adj"
  shows "case kahn_loop k adj placed indeg order of
      Inr order' \<Rightarrow> topological adj order'
    | Inl err \<Rightarrow> err = DependencyCycle \<and> (\<forall>ord. \<not> topological adj ord)"
  using assms
proof (induction k arbitrary: placed indeg order)
  case 0
  then have "card (set order) = length adj" by (simp add: kahn_inv_def distinct_card)
  then have "set order = {..<length adj}"
    using 0(1) card_subset_eq[of "{..<length adj}" "set order"] by (simp add: kahn_inv_def)
  with 0 show ?case by (simp add: topological_def kahn_inv_def)
next
  case (Suc k)
  show ?case
  proof (cases "lowest_ready placed indeg")
    case None
    with stuck_is_cyclic[OF Suc.prems(1)] Suc.prems(2) show ?thesis by simp
  next
    case (Some pick)
    from Suc.IH[OF kahn_step[OF Suc.prems(1) Some]] Suc.prems(2) Some show ?thesis by simp
  qed
qed

subsection \<open>The graph that is built\<close>

definition provides_map :: "atom_def list \<Rightarrow> nat \<Rightarrow> (string, nat) fmap \<Rightarrow> bool" where
  "provides_map atoms n m = (\<forall>k p. fmlookup m k = Some p \<longleftrightarrow> p < n \<and> k \<in> set (ad_provides (atoms ! p)))"

lemma add_provides_spec:
  assumes "add_provides i ks m = Inr m'"
  shows "fmlookup m' k = (if k \<in> set ks then Some i else fmlookup m k) \<and> (k \<in> set ks \<longrightarrow> fmlookup m k = None)"
  using assms
proof (induction ks arbitrary: m)
  case (Cons a ks)
  then have a: "fmlookup m a = None" and rest: "add_provides i ks (fmupd a i m) = Inr m'"
    by (auto split: option.splits)
  from Cons.IH[OF rest] a show ?case by (auto split: if_splits)
qed simp

lemma provider_map_spec:
  assumes "provider_map n (drop n atoms) m = Inr m'" and "provides_map atoms n m" and "n \<le> length atoms"
  shows "provides_map atoms (length atoms) m'"
  using assms
proof (induction "drop n atoms" arbitrary: n m)
  case Nil
  then show ?case by simp
next
  case (Cons a as)
  from Cons.hyps(2) have n: "n < length atoms" by (metis drop_all leI list.distinct(1))
  then have a: "drop n atoms = atoms ! n # drop (Suc n) atoms" by (simp add: Cons_nth_drop_Suc)
  with Cons.prems(1) obtain m1 where m1: "add_provides n (ad_provides (atoms ! n)) m = Inr m1"
    and rest: "provider_map (Suc n) (drop (Suc n) atoms) m1 = Inr m'" by auto
  have "provides_map atoms (Suc n) m1"
    using add_provides_spec[OF m1] Cons.prems(2) unfolding provides_map_def
    by (metis less_Suc_eq option.distinct(1) option.inject)
  from Cons.hyps(1)[OF _ rest this] Cons.hyps(2) a n show ?case by simp
qed

definition dag_inv :: "nat \<Rightarrow> dag \<Rightarrow> bool" where
  "dag_inv n g = (case g of (adj, indeg) \<Rightarrow> length adj = n \<and> length indeg = n \<and> closed_adj adj \<and>
     (\<forall>i < n. indeg ! i = int (remaining adj [] i)))"

lemma remaining_add:
  assumes "p < length adj"
  shows "remaining (adj[p := adj ! p @ [i]]) [] j = remaining adj [] j + (if j = i then 1 else 0)"
proof -
  have "remaining (adj[p := adj ! p @ [i]]) [] j = (\<Sum>q < length adj. edges adj q j + (if q = p \<and> j = i then 1 else 0))"
    unfolding remaining_def using assms
    by (intro sum.cong) (auto simp: edges_def nth_list_update)
  also have "\<dots> = remaining adj [] j + (\<Sum>q < length adj. if q = p \<and> j = i then 1 else 0)"
    by (simp add: sum.distrib remaining_def)
  also have "(\<Sum>q < length adj. if q = p \<and> j = i then 1 else 0) = (if j = i then 1 else (0::nat))"
    using assms by (cases "j = i") simp_all
  finally show ?thesis .
qed

lemma add_edge_inv:
  assumes "dag_inv n g" and "p < n" and "i < n"
  shows "dag_inv n (add_edge p i g)"
  using assms
  by (auto simp: dag_inv_def add_edge_def closed_adj_def nth_list_update remaining_add split: prod.splits)

lemma add_edge_set:
  assumes "dag_inv n g" and "p < n"
  shows "i' \<in> set (fst (add_edge p i g) ! q) \<longleftrightarrow> i' \<in> set (fst g ! q) \<or> (q = p \<and> i' = i)"
  using assms by (auto simp: dag_inv_def add_edge_def nth_list_update split: prod.splits)

definition edge_of :: "atom_def list \<Rightarrow> (string, nat) fmap \<Rightarrow> nat \<Rightarrow> nat \<Rightarrow> bool" where
  "edge_of atoms providers p i = (\<exists>k \<in> set (ad_consumes (atoms ! i)). fmlookup providers k = Some p)"

definition honoured :: "atom_def list \<Rightarrow> (string, nat) fmap \<Rightarrow> nat \<Rightarrow> string \<Rightarrow> bool" where
  "honoured atoms providers i k = (\<exists>p. fmlookup providers k = Some p \<and>
     produce_phase_for_key (atoms ! p) k \<le> consume_phase_for_atom (atoms ! i))"

lemma add_consumes_spec:
  assumes "add_consumes atoms providers i ks g = Inr g'" and "dag_inv n g" and "i < n"
    and "\<forall>k p. fmlookup providers k = Some p \<longrightarrow> p < n"
  shows "dag_inv n g' \<and> (\<forall>k \<in> set ks. honoured atoms providers i k) \<and>
    (\<forall>q i'. i' \<in> set (fst g' ! q) \<longleftrightarrow> i' \<in> set (fst g ! q) \<or> (i' = i \<and> (\<exists>k \<in> set ks. fmlookup providers k = Some q)))"
  using assms(1,2)
proof (induction ks arbitrary: g)
  case (Cons k ks)
  then obtain p where p: "fmlookup providers k = Some p"
    "produce_phase_for_key (atoms ! p) k \<le> consume_phase_for_atom (atoms ! i)"
    and rest: "add_consumes atoms providers i ks (add_edge p i g) = Inr g'"
    by (auto split: option.splits if_splits)
  have pn: "p < n" using assms(4) p(1) by blast
  from Cons.IH[OF rest add_edge_inv[OF Cons.prems(2) pn assms(3)]] p
  show ?case by (auto simp: add_edge_set[OF Cons.prems(2) pn] honoured_def)
qed simp

lemma add_all_consumes_spec:
  assumes "add_all_consumes atoms providers is g = Inr g'" and "dag_inv n g" and "\<forall>i \<in> set is. i < n"
    and "\<forall>k p. fmlookup providers k = Some p \<longrightarrow> p < n"
  shows "dag_inv n g' \<and> (\<forall>i \<in> set is. \<forall>k \<in> set (ad_consumes (atoms ! i)). honoured atoms providers i k) \<and>
    (\<forall>q i'. i' \<in> set (fst g' ! q) \<longleftrightarrow> i' \<in> set (fst g ! q) \<or> (i' \<in> set is \<and> edge_of atoms providers q i'))"
  using assms(1-3)
proof (induction "is" arbitrary: g)
  case (Cons i "is")
  then obtain g1 where g1: "add_consumes atoms providers i (ad_consumes (atoms ! i)) g = Inr g1"
    and rest: "add_all_consumes atoms providers is g1 = Inr g'" by auto
  from Cons.prems(3) have i: "i < n" and isn: "\<forall>i \<in> set is. i < n" by auto
  note one = add_consumes_spec[OF g1 Cons.prems(2) i assms(4)]
  from one Cons.IH[OF rest _ isn] show ?case by (auto simp: edge_of_def)
qed simp

lemma dag_inv_start: "dag_inv n (replicate n [], replicate n 0)"
  by (simp add: dag_inv_def closed_adj_def remaining_def edges_def)

lemma kahn_inv_start: "dag_inv n (adj, indeg) \<Longrightarrow> kahn_inv adj (replicate n False) indeg []"
  by (auto simp: dag_inv_def kahn_inv_def in_order_def)

text \<open>An order of the atoms: a permutation of their indices in which every provider of a key stands
  before every atom that consumes it.\<close>

definition before :: "nat list \<Rightarrow> nat \<Rightarrow> nat \<Rightarrow> bool" where
  "before order p i = (\<exists>a b. a < b \<and> b < length order \<and> order ! a = p \<and> order ! b = i)"

definition dependency_order :: "atom_def list \<Rightarrow> nat list \<Rightarrow> bool" where
  "dependency_order atoms order =
     (distinct order \<and> set order = {..<length atoms} \<and>
      (\<forall>p i k. p < length atoms \<longrightarrow> i < length atoms \<longrightarrow> k \<in> set (ad_provides (atoms ! p)) \<longrightarrow>
         k \<in> set (ad_consumes (atoms ! i)) \<longrightarrow> before order p i))"

lemma topological_dependency:
  assumes adj: "length adj = length atoms"
    and edge: "\<forall>p i. p < length atoms \<longrightarrow> i \<in> set (adj ! p) \<longleftrightarrow>
      i < length atoms \<and> (\<exists>k. k \<in> set (ad_provides (atoms ! p)) \<and> k \<in> set (ad_consumes (atoms ! i)))"
  shows "topological adj order \<longleftrightarrow> dependency_order atoms order"
proof
  assume t: "topological adj order"
  have "before order p i" if "p < length atoms" "i < length atoms" "k \<in> set (ad_provides (atoms ! p))"
      "k \<in> set (ad_consumes (atoms ! i))" for p i k
  proof -
    have "i \<in> set order" using t adj that(2) by (simp add: topological_def)
    then obtain b where b: "b < length order" "order ! b = i" by (auto simp: in_set_conv_nth)
    moreover have "i \<in> set (adj ! p)" using edge that by blast
    moreover have "\<forall>j < length order. \<forall>p < length adj. order ! j \<in> set (adj ! p) \<longrightarrow> (\<exists>i < j. order ! i = p)"
      using t by (simp add: topological_def in_order_def)
    moreover have "p < length adj" using that(1) adj by simp
    ultimately obtain a where "a < b" "order ! a = p" by auto
    with b show ?thesis by (auto simp: before_def)
  qed
  with t adj show "dependency_order atoms order" by (auto simp: topological_def dependency_order_def)
next
  assume d: "dependency_order atoms order"
  have "\<exists>a < j. order ! a = p" if j: "j < length order" and p: "p < length adj" and e: "order ! j \<in> set (adj ! p)" for j p
  proof -
    obtain k where k: "order ! j < length atoms" "k \<in> set (ad_provides (atoms ! p))" "k \<in> set (ad_consumes (atoms ! (order ! j)))"
      using edge p adj e by auto
    have "before order p (order ! j)" using d k p adj unfolding dependency_order_def by auto
    then obtain a b where ab: "a < b" "b < length order" "order ! a = p" "order ! b = order ! j"
      by (auto simp: before_def)
    with d j have "b = j" by (simp add: dependency_order_def nth_eq_iff_index_eq)
    with ab show ?thesis by blast
  qed
  with d adj show "topological adj order" by (auto simp: topological_def dependency_order_def in_order_def)
qed

lemma provides_map_start: "provides_map atoms 0 fmempty"
  by (simp add: provides_map_def)

lemma graph_spec:
  assumes "provider_map 0 atoms fmempty = Inr providers"
    and "add_all_consumes atoms providers [0..<length atoms]
      (replicate (length atoms) [], replicate (length atoms) 0) = Inr (adj, indeg)"
  shows "dag_inv (length atoms) (adj, indeg)"
    and "provides_map atoms (length atoms) providers"
    and "topological adj order = dependency_order atoms order"
    and "\<forall>i < length atoms. \<forall>k \<in> set (ad_consumes (atoms ! i)). honoured atoms providers i k"
proof -
  show pm: "provides_map atoms (length atoms) providers"
    using provider_map_spec[of 0 atoms fmempty providers] assms(1) provides_map_start by simp
  then have bound: "\<forall>k p. fmlookup providers k = Some p \<longrightarrow> p < length atoms" by (simp add: provides_map_def)
  note spec = add_all_consumes_spec[OF assms(2) dag_inv_start _ bound, simplified]
  show inv: "dag_inv (length atoms) (adj, indeg)" using spec by blast
  show "\<forall>i < length atoms. \<forall>k \<in> set (ad_consumes (atoms ! i)). honoured atoms providers i k" using spec by simp
  have len: "length adj = length atoms" using inv by (simp add: dag_inv_def)
  have "i \<in> set (adj ! p) \<longleftrightarrow> i < length atoms \<and> edge_of atoms providers p i" if "p < length atoms" for p i
    using spec that by simp
  with pm have "\<forall>p i. p < length atoms \<longrightarrow> i \<in> set (adj ! p) \<longleftrightarrow>
      i < length atoms \<and> (\<exists>k. k \<in> set (ad_provides (atoms ! p)) \<and> k \<in> set (ad_consumes (atoms ! i)))"
    unfolding edge_of_def provides_map_def by auto
  from topological_dependency[OF len this] show "topological adj order = dependency_order atoms order" .
qed

lemma provider_map_no_cycle: "provider_map i as m \<noteq> Inl DependencyCycle"
proof -
  have "add_provides i ks m \<noteq> Inl DependencyCycle" for i ks m
    by (induction ks arbitrary: m) (auto split: option.split)
  then show ?thesis by (induction as arbitrary: i m) (auto simp: sum_bind_eq_Inl)
qed

lemma add_all_consumes_no_cycle: "add_all_consumes atoms p is g \<noteq> Inl DependencyCycle"
proof -
  have "add_consumes atoms p i ks g \<noteq> Inl DependencyCycle" for i ks g
    by (induction ks arbitrary: g) (auto split: option.split)
  then show ?thesis by (induction "is" arbitrary: g) (auto simp: sum_bind_eq_Inl)
qed

lemma sort_dag_facts:
  "(\<forall>order. build_and_sort_dag atoms = Inr order \<longrightarrow> dependency_order atoms order \<and>
      (\<forall>i < length atoms. \<forall>k \<in> set (ad_consumes (atoms ! i)). \<exists>!p. p < length atoms \<and>
         k \<in> set (ad_provides (atoms ! p)) \<and>
         produce_phase_for_key (atoms ! p) k \<le> consume_phase_for_atom (atoms ! i))) \<and>
   (build_and_sort_dag atoms = Inl DependencyCycle \<longrightarrow> (\<forall>order. \<not> dependency_order atoms order))"
proof (cases "\<exists>providers g. provider_map 0 atoms fmempty = Inr providers \<and>
    add_all_consumes atoms providers [0..<length atoms] (replicate (length atoms) [], replicate (length atoms) 0) = Inr g")
  case True
  then obtain providers adj indeg where g: "provider_map 0 atoms fmempty = Inr providers"
    "add_all_consumes atoms providers [0..<length atoms]
      (replicate (length atoms) [], replicate (length atoms) 0) = Inr (adj, indeg)" by auto
  note spec = graph_spec[OF g]
  have len: "length adj = length atoms" using spec(1) by (simp add: dag_inv_def)
  have run: "build_and_sort_dag atoms = kahn_loop (length atoms) adj (replicate (length atoms) False) indeg []"
    using g by (simp add: build_and_sort_dag_def Let_def)
  have "\<exists>!p. p < length atoms \<and> k \<in> set (ad_provides (atoms ! p)) \<and>
      produce_phase_for_key (atoms ! p) k \<le> consume_phase_for_atom (atoms ! i)"
    if "i < length atoms" "k \<in> set (ad_consumes (atoms ! i))" for i k
    using spec(2,4) that unfolding honoured_def provides_map_def by (metis option.inject)
  with kahn_loop_spec[OF kahn_inv_start[OF spec(1)], of "length atoms"] len show ?thesis
    unfolding run spec(3) by (auto split: sum.splits)
next
  case False
  then have "build_and_sort_dag atoms \<noteq> Inr order \<and> build_and_sort_dag atoms \<noteq> Inl DependencyCycle" for order
    using provider_map_no_cycle[of 0 atoms fmempty] add_all_consumes_no_cycle
    by (cases "provider_map 0 atoms fmempty") (auto simp: build_and_sort_dag_def Let_def sum_bind_eq_Inl)
  then show ?thesis by blast
qed

lemma sorted_dag_order: "build_and_sort_dag atoms = Inr order \<Longrightarrow> dependency_order atoms order"
  using sort_dag_facts[of atoms] by blast

text \<open>Sorting a composition's atoms returns a permutation of them in which every provider of a key
  stands before each of its consumers; each consumed key then has exactly one provider, in a phase
  that does not run after the consumer's. It reports a dependency cycle only when no such order
  exists.\<close>

theorem sort_dag_spec:
  "(\<forall>order. build_and_sort_dag atoms = Inr order \<longrightarrow> dependency_order atoms order \<and>
      (\<forall>i < length atoms. \<forall>k \<in> set (ad_consumes (atoms ! i)). \<exists>!p. p < length atoms \<and>
         k \<in> set (ad_provides (atoms ! p)) \<and>
         produce_phase_for_key (atoms ! p) k \<le> consume_phase_for_atom (atoms ! i))) \<and>
   (build_and_sort_dag atoms = Inl DependencyCycle \<longrightarrow> (\<forall>order. \<not> dependency_order atoms order))"
  by (rule sort_dag_facts)

definition demo_contribution :: contribution where
  "demo_contribution = \<lparr>cb_kind = ''resolution'', cb_range_src = [], cb_max_targets_src = [], cb_key = ''hit'',
     cb_roll_src = ''1d20'', cb_vs_src = ''10'', cb_branches = (''hit'', ''miss''), cb_outcome_key = None,
     cb_branch = [], cb_effects = []\<rparr>"

definition demo_atoms :: "atom_def list" where
  "demo_atoms =
     [\<lparr>ad_id = ''harm'', ad_params = [], ad_provides = [], ad_consumes = [''hit''],
        ad_contributes = [demo_contribution\<lparr>cb_kind := ''outcome'', cb_branch := ''hit''\<rparr>]\<rparr>,
      \<lparr>ad_id = ''attack'', ad_params = [], ad_provides = [''hit''], ad_consumes = [],
        ad_contributes = [demo_contribution]\<rparr>]"

theorem sort_dag_spec_witness:
  "build_and_sort_dag demo_atoms = Inr [1, 0] \<and> dependency_order demo_atoms [1, 0]"
proof -
  have run: "build_and_sort_dag demo_atoms = Inr [1, 0]" by code_simp
  with sort_dag_spec[of demo_atoms] show ?thesis by blast
qed

end
