(* ===== verification/Compose.thy ===== *)
theory Compose
  imports Dag
begin

text \<open>
  The rest of \<open>internal/rules/compile.go\<close>: targeting, resolution and effects of a composition,
  and the composition itself.
\<close>

subsection \<open>Contributions across a composition\<close>

text \<open>Every contribution of a kind, with the index of the atom that makes it, in order.\<close>

definition contributions_of :: "string \<Rightarrow> atom_def list \<Rightarrow> (nat \<times> contribution) list" where
  "contributions_of kind atoms =
     concat (map (\<lambda>(i, a). map (\<lambda>c. (i, c)) (filter (\<lambda>c. cb_kind c = kind) (ad_contributes a)))
       (enumerate 0 atoms))"

definition compile_targeting :: "atom_def list \<Rightarrow> bindings list \<Rightarrow> compile_error + targeting" where
  "compile_targeting atoms binds =
     (case contributions_of ''targeting'' atoms of
        [] \<Rightarrow> Inl NoTargeting
      | (i, c) # (j, d) # cs \<Rightarrow> Inl (TwoTargetings i j)
      | [(i, c)] \<Rightarrow>
          sum_bind (resolve_int_field (cb_range_src c) (snd (binds ! i))) (\<lambda>rng.
            if sint rng < 0 then Inl NegativeRange
            else sum_bind (resolve_int_field (cb_max_targets_src c) (snd (binds ! i))) (\<lambda>max_t.
              if sint max_t < 1 then Inl MaxTargetsTooSmall
              else Inr \<lparr>tg_range = rng, tg_max_targets = max_t\<rparr>)))"

fun check_two_actor_refs :: "scoped_ref list \<Rightarrow> (string, string) fmap \<Rightarrow> compile_error + unit" where
  "check_two_actor_refs [] types = Inr ()"
| "check_two_actor_refs (rf # refs) types =
     (if sr_scope rf = ScopeNone then Inl (BareReference (sr_name rf))
      else sum_bind (check_property_ref (sr_name rf)
               (if sr_sigil rf = CHR ''#'' then PropertyResource else PropertyNumber) types)
             (\<lambda>_. check_two_actor_refs refs types))"

definition compile_two_actor_expr :: "string \<Rightarrow> (string, string) fmap \<Rightarrow> compile_error + expr" where
  "compile_two_actor_expr src types =
     (case parse_string src of
        Inl err \<Rightarrow> Inl (ExprError err)
      | Inr e \<Rightarrow> sum_bind (check_two_actor_refs (expr_scoped_refs e) types) (\<lambda>_. Inr e))"

definition compile_resolution :: "atom_def list \<Rightarrow> bindings list \<Rightarrow> (string, string) fmap
    \<Rightarrow> compile_error + (compiled_resolution \<times> string) option" where
  "compile_resolution atoms binds types =
     (case contributions_of ''resolution'' atoms of
        [] \<Rightarrow> Inr None
      | (i, c) # (j, d) # cs \<Rightarrow> Inl (TwoResolutions i j)
      | [(i, c)] \<Rightarrow>
          let roll_sub = subst_template (fst (binds ! i)) (cb_roll_src c);
              vs_sub = subst_template (fst (binds ! i)) (cb_vs_src c)
          in sum_bind (compile_two_actor_expr roll_sub types) (\<lambda>roll.
             sum_bind (compile_two_actor_expr vs_sub types) (\<lambda>vs.
               Inr (Some (\<lparr>cr_roll = roll, cr_vs = vs, cr_roll_src = roll_sub, cr_vs_src = vs_sub,
                           cr_branches = cb_branches c\<rparr>, cb_key c)))))"

definition compile_effect :: "ruleset \<Rightarrow> (string, string) fmap \<Rightarrow> (string, string) fmap \<Rightarrow> effect_template
    \<Rightarrow> compile_error + outcome" where
  "compile_effect rs binds types t =
     (case et_kind t of
        OutcomeResourceChange \<Rightarrow>
          let name = subst_template binds (et_resource_src t);
              delta_sub = subst_template binds (et_delta_src t)
          in sum_bind (check_property_ref name PropertyResource types) (\<lambda>_.
             sum_bind (compile_two_actor_expr delta_sub types) (\<lambda>e.
               Inr (ResourceChangeOutcome name e delta_sub)))
      | OutcomeApplyCondition \<Rightarrow>
          let cid = subst_template binds (et_apply_src t)
          in if fmlookup (rs_conditions rs) cid = None then Inl (UndeclaredCondition cid)
             else Inr (ApplyConditionOutcome cid)
      | OutcomeRemoveCondition \<Rightarrow>
          let cid = subst_template binds (et_remove_src t)
          in if fmlookup (rs_conditions rs) cid = None then Inl (UndeclaredCondition cid)
             else Inr (RemoveConditionOutcome cid))"

fun compile_effects :: "ruleset \<Rightarrow> (string, string) fmap \<Rightarrow> (string, string) fmap \<Rightarrow> effect_template list
    \<Rightarrow> compile_error + outcome list" where
  "compile_effects rs binds types [] = Inr []"
| "compile_effects rs binds types (t # ts) =
     sum_bind (compile_effect rs binds types t) (\<lambda>oc.
     sum_bind (compile_effects rs binds types ts) (\<lambda>ocs. Inr (oc # ocs)))"

subsection \<open>Outcomes in execution order\<close>

text \<open>The outcomes gathered so far: of the two branches, and unconditional.\<close>

type_synonym outcome_lists = "(outcome list \<times> outcome list) \<times> outcome list"

definition place_outcomes :: "nat \<Rightarrow> contribution \<Rightarrow> (compiled_resolution \<times> string) option \<Rightarrow> outcome list
    \<Rightarrow> outcome_lists \<Rightarrow> compile_error + outcome_lists" where
  "place_outcomes i c resolution ocs acc =
     (case acc of ((ge, lt), effects) \<Rightarrow>
        if cb_branch c = ''always'' then Inr ((ge, lt), effects @ ocs)
        else (case cb_outcome_key c of
          None \<Rightarrow> Inl (NilOutcomeKey i)
        | Some key \<Rightarrow>
            (case resolution of
               None \<Rightarrow> Inl (OutcomeWithoutResolution i key)
             | Some (cr, res_key) \<Rightarrow>
                 if key \<noteq> res_key then Inl (OutcomeKeyMismatch i key res_key)
                 else if cb_branch c = fst (cr_branches cr) then Inr ((ge @ ocs, lt), effects)
                 else if cb_branch c = snd (cr_branches cr) then Inr ((ge, lt @ ocs), effects)
                 else Inl (UnknownBranch i (cb_branch c)))))"

fun compile_contributions :: "ruleset \<Rightarrow> (string, string) fmap \<Rightarrow> nat \<Rightarrow> (string, string) fmap
    \<Rightarrow> (compiled_resolution \<times> string) option \<Rightarrow> contribution list \<Rightarrow> outcome_lists \<Rightarrow> compile_error + outcome_lists" where
  "compile_contributions rs types i binds resolution [] acc = Inr acc"
| "compile_contributions rs types i binds resolution (c # cs) acc =
     (if cb_kind c \<noteq> ''outcome'' then compile_contributions rs types i binds resolution cs acc
      else sum_bind (compile_effects rs binds types (cb_effects c)) (\<lambda>ocs.
           sum_bind (place_outcomes i c resolution ocs acc)
             (compile_contributions rs types i binds resolution cs)))"

fun compile_ordered :: "ruleset \<Rightarrow> (string, string) fmap \<Rightarrow> atom_def list \<Rightarrow> bindings list
    \<Rightarrow> (compiled_resolution \<times> string) option \<Rightarrow> nat list \<Rightarrow> outcome_lists \<Rightarrow> compile_error + outcome_lists" where
  "compile_ordered rs types atoms binds resolution [] acc = Inr acc"
| "compile_ordered rs types atoms binds resolution (i # is) acc =
     sum_bind (compile_contributions rs types i (fst (binds ! i)) resolution (ad_contributes (atoms ! i)) acc)
       (compile_ordered rs types atoms binds resolution is)"

subsection \<open>A composition\<close>

fun bind_entries :: "ruleset \<Rightarrow> (string, atom_def) fmap \<Rightarrow> (string, string) fmap \<Rightarrow> nat \<Rightarrow> compose_entry list
    \<Rightarrow> compile_error + (atom_def \<times> bindings) list" where
  "bind_entries rs atoms types i [] = Inr []"
| "bind_entries rs atoms types i (en # ens) =
     (case fmlookup atoms (ce_atom en) of
        None \<Rightarrow> Inl (UnknownAtom i (ce_atom en))
      | Some atom \<Rightarrow>
          sum_bind (bind_atom rs i atom (ce_bind en) types) (\<lambda>b.
          sum_bind (bind_entries rs atoms types (Suc i) ens) (\<lambda>bs. Inr ((atom, b) # bs))))"

definition compile_power :: "ruleset \<Rightarrow> (string, atom_def) fmap \<Rightarrow> composition_ability \<Rightarrow> (string, string) fmap
    \<Rightarrow> compile_error + compiled_power" where
  "compile_power rs atoms ca types =
     sum_bind (case us_limited (ca_usage ca) of
         None \<Rightarrow> Inr ()
       | Some lu \<Rightarrow> check_property_ref (lu_resource lu) PropertyResource types) (\<lambda>_.
     sum_bind (bind_entries rs atoms types 0 (ca_compose ca)) (\<lambda>bound.
       let insts = map fst bound; binds = map snd bound in
       sum_bind (build_and_sort_dag insts) (\<lambda>order.
       sum_bind (compile_targeting insts binds) (\<lambda>tg.
       sum_bind (compile_resolution insts binds types) (\<lambda>resolution.
       sum_bind (compile_ordered rs types insts binds resolution order (([], []), [])) (\<lambda>(branches, effects).
         Inr \<lparr>cp_id = ca_id ca, cp_name = ca_name ca, cp_usage = ca_usage ca, cp_targeting = tg,
              cp_resolution = map_option fst resolution, cp_branch_outcomes = branches,
              cp_effects = effects\<rparr>))))))"

fun compile_all :: "ruleset \<Rightarrow> (string, atom_def) fmap \<Rightarrow> (string, composition_ability) fmap \<Rightarrow> (string, string) fmap
    \<Rightarrow> string list \<Rightarrow> (string, compiled_power) fmap \<Rightarrow> compile_error + (string, compiled_power) fmap" where
  "compile_all rs atoms comps types [] out = Inr out"
| "compile_all rs atoms comps types (k # ks) out =
     (case fmlookup comps k of
        None \<Rightarrow> compile_all rs atoms comps types ks out
      | Some ca \<Rightarrow> sum_bind (compile_power rs atoms ca types) (\<lambda>cp.
          compile_all rs atoms comps types ks (fmupd k cp out)))"

definition compile_compositions :: "ruleset \<Rightarrow> (string, atom_def) fmap \<Rightarrow> (string, composition_ability) fmap
    \<Rightarrow> compile_error + (string, compiled_power) fmap" where
  "compile_compositions rs atoms comps =
     compile_all rs atoms comps (property_types rs) (keys comps) fmempty"

end
