(* ===== verification/Expr_Props.thy ===== *)
theory Expr_Props
  imports Expr
begin

text \<open>
  Evaluation in \<open>internal/rules/expr.go\<close>: \<open>/\<close> is floor division at every operand, the walks agree
  with each other, an expression without dice never touches the roller, and where nothing
  overflows the 64-bit evaluation is integer arithmetic.
\<close>

subsection \<open>Floor division\<close>

lemma int_div_trunc:
  fixes a b :: int
  assumes "b \<noteq> 0"
  shows "a div b = (if a smod b \<noteq> 0 \<and> (a < 0) \<noteq> (b < 0) then a sdiv b - 1 else a sdiv b)"
proof (cases "a < 0"; cases "b < 0")
  assume "a < 0" "b < 0"
  then show ?thesis by (simp add: signed_divide_int_def signed_modulo_int_def sgn_if)
next
  assume ab: "a < 0" "\<not> b < 0"
  with assms zdiv_zminus1_eq_if[of b "- a"] show ?thesis
    by (auto simp: signed_divide_int_def signed_modulo_int_def sgn_if)
next
  assume ab: "\<not> a < 0" "b < 0"
  with assms zdiv_zminus2_eq_if[of "- b" a] show ?thesis
    by (auto simp: signed_divide_int_def signed_modulo_int_def sgn_if)
next
  assume "\<not> a < 0" "\<not> b < 0"
  with assms show ?thesis by (auto simp: signed_divide_int_def signed_modulo_int_def sgn_if)
qed

lemma abs_smod_less: "b \<noteq> 0 \<Longrightarrow> \<bar>a smod b\<bar> < \<bar>b :: int\<bar>"
  by (simp add: signed_modulo_int_def abs_mult abs_sgn_eq)

lemma sint_go_rem: "b \<noteq> 0 \<Longrightarrow> sint (go_rem a b) = sint a smod sint b"
  using abs_smod_less[of "sint b" "sint a"] sint64_bounds[of b] sint_inject[of b 0]
  unfolding go_rem_def by (intro sint_of_int64) auto

lemma div_pos_range:
  fixes a b :: int
  assumes "0 < b"
  shows "min a 0 \<le> a div b" "a div b \<le> max a 0"
  using assms zdiv_mono2_neg[of a 1 b] zdiv_mono2[of a 1 b] pos_imp_zdiv_neg_iff[of b a]
    pos_imp_zdiv_nonneg_iff[of b a]
  by (cases "a < 0"; simp add: min_def max_def)+

lemma floor_div_word:
  assumes "b \<noteq> 0"
  shows "floor_div a b = word_of_int (sint a div sint b)"
proof -
  have "sint b \<noteq> 0" using assms by (metis sint_0 sint_inject)
  moreover have "go_rem a b = 0 \<longleftrightarrow> sint a smod sint b = 0"
    using sint_go_rem[OF assms, of a] by (metis sint_0 sint_inject)
  ultimately show ?thesis
    by (simp add: floor_div_def go_div_def int_div_trunc Let_def)
qed

lemma sint_floor_div:
  assumes "b \<noteq> 0" and "\<not> (sint a = - (2 ^ 63) \<and> sint b = - 1)"
  shows "sint (floor_div a b) = sint a div sint b"
proof -
  note a = sint64_bounds[of a]
  have "- (2 ^ 63) \<le> sint a div sint b \<and> sint a div sint b < 2 ^ 63"
  proof (cases "0 < sint b")
    case True
    from div_pos_range[OF this, of "sint a"] a show ?thesis by linarith
  next
    case False
    then have b: "0 < - sint b" using assms(1) sint_inject[of b 0] by simp
    have eq: "sint a div sint b = (- sint a) div (- sint b)" by simp
    show ?thesis
    proof (cases "sint b = - 1")
      case True
      then show ?thesis using a assms(2) by simp
    next
      case False
      with b have "2 \<le> - sint b" by simp
      then have "(- sint a) div (- sint b) \<le> max (- sint a div 2) 0"
        using zdiv_mono2[of "- sint a" 2 "- sint b"] div_pos_range(2)[OF b, of "- sint a"]
        by (cases "0 \<le> - sint a") auto
      with div_pos_range(1)[OF b, of "- sint a"] a show ?thesis unfolding eq by linarith
    qed
  qed
  then show ?thesis unfolding floor_div_word[OF assms(1)] by (intro sint_of_int64) auto
qed

text \<open>\<open>floorDiv\<close> rounds towards minus infinity at every pair of operands with a nonzero divisor,
  not towards zero as Go's \<open>/\<close> does; only the least integer divided by -1 has no 64-bit quotient,
  and that one wraps to itself.\<close>

theorem floor_div_spec:
  assumes "b \<noteq> 0"
  shows "sint (floor_div a b) =
     (if sint a = - (2 ^ 63) \<and> sint b = - 1 then sint a else sint a div sint b)"
proof (cases "sint a = - (2 ^ 63) \<and> sint b = - 1")
  case True
  then have "floor_div a b = word_of_int (2 ^ 63)" by (simp add: floor_div_word[OF assms])
  with True show ?thesis by (simp add: signed_of_int signed_take_bit_int_eq_self_iff signed_take_bit_eq_take_bit_shift take_bit_eq_mod)
next
  case False
  with sint_floor_div[OF assms, of a] show ?thesis by auto
qed

theorem floor_div_spec_witness: "sint (floor_div (- 7) 2) = - 4"
  by (subst floor_div_spec) simp_all

subsection \<open>The walks agree\<close>

definition first_occurrences :: "'a list \<Rightarrow> 'a list" where
  "first_occurrences xs = rev (remdups (rev xs))"

lemma fold_add_ref: "fold add_ref ks [] = first_occurrences ks"
  by (induction ks rule: rev_induct) (auto simp: first_occurrences_def add_ref_def)

definition named_by :: "char \<Rightarrow> scoped_ref list \<Rightarrow> string list" where
  "named_by c rs = map sr_name (filter (\<lambda>r. sr_sigil r = c) rs)"

lemma named_by_append [simp]: "named_by c (xs @ ys) = named_by c xs @ named_by c ys"
  by (simp add: named_by_def)

lemma refs_walk_scoped:
  "refs_walk n (xs, ys) =
     (fold add_ref (named_by CHR ''@'' (scoped_walk n)) xs,
      fold add_ref (named_by CHR ''#'' (scoped_walk n)) ys)"
proof (induction n arbitrary: xs ys)
  case (NFunc f args)
  then show ?case
    by (induction args arbitrary: xs ys) (simp_all add: named_by_def)
qed (simp_all add: named_by_def)

lemma scopes_walk_scoped: "scopes_walk n = map sr_scope (scoped_walk n)"
  by (induction n) (simp_all add: map_concat comp_def cong: map_cong)

text \<open>The three walks describe one list of references: \<open>Scopes\<close> is the scope of every
  occurrence \<open>ScopedRefs\<close> lists, in its order, and \<open>Refs\<close> is the names it lists under each sigil,
  each once, in the order of first occurrence.\<close>

theorem walks_agree:
  "expr_scopes e = map sr_scope (expr_scoped_refs e) \<and>
   expr_refs e = (first_occurrences (named_by CHR ''@'' (expr_scoped_refs e)),
                  first_occurrences (named_by CHR ''#'' (expr_scoped_refs e)))"
  by (simp add: expr_scopes_def expr_scoped_refs_def expr_refs_def scopes_walk_scoped
      refs_walk_scoped fold_add_ref)

subsection \<open>Expressions without dice\<close>

definition dice_free_value :: "(node \<Rightarrow> eval_error + go_int) \<Rightarrow> node \<Rightarrow> eval_error + go_int" where
  "dice_free_value rs n = fst (eval_tree rs (None :: unit roller option) n ())"

definition dice_free_values :: "(node \<Rightarrow> eval_error + go_int) \<Rightarrow> node list \<Rightarrow> eval_error + go_int list" where
  "dice_free_values rs ns = fst (eval_args rs (None :: unit roller option) ns ())"

lemma dice_free_unit:
  "eval_tree rs (None :: unit roller option) n () = (dice_free_value rs n, ())"
  "eval_args rs (None :: unit roller option) ns () = (dice_free_values rs ns, ())"
  by (simp_all add: dice_free_value_def dice_free_values_def prod_eq_iff)

lemma dice_free_simps [simp]:
  "dice_free_value rs (NInt i) = Inr i"
  "dice_free_value rs (NAttr k sc) = rs (NAttr k sc)"
  "dice_free_value rs (NRes k sc) = rs (NRes k sc)"
  "dice_free_value rs (NBin c a b) =
     sum_bind (dice_free_value rs a) (\<lambda>l. sum_bind (dice_free_value rs b) (apply_op c l))"
  "dice_free_value rs (NFunc f ns) = sum_bind (dice_free_values rs ns) (apply_func f)"
  "dice_free_values rs [] = Inr []"
  "dice_free_values rs (n # ns) =
     sum_bind (dice_free_value rs n) (\<lambda>v. sum_bind (dice_free_values rs ns) (\<lambda>vs. Inr (v # vs)))"
  unfolding dice_free_value_def dice_free_values_def
  by (simp_all add: dice_free_unit split: sum.split)
    (cases "dice_free_value rs a"; cases "dice_free_value rs b";
     cases "dice_free_values rs ns"; cases "dice_free_value rs n"; simp)+

lemma eval_no_dice:
  "\<not> dice_walk n \<Longrightarrow> eval_tree rs ro n r = (dice_free_value rs n, r)"
  "\<not> list_ex dice_walk ns \<Longrightarrow> eval_args rs ro ns r = (dice_free_values rs ns, r)"
proof (induction rs ro n r and rs ro ns r rule: eval_tree_eval_args.induct)
  case (5 rs ro c a b r)
  then show ?case
    by (cases "dice_free_value rs a"; cases "dice_free_value rs b") simp_all
next
  case (6 rs ro f args r)
  then show ?case by (cases "dice_free_values rs args") simp_all
next
  case (8 rs ro a as r)
  then show ?case
    by (cases "dice_free_value rs a"; cases "dice_free_values rs as") simp_all
qed simp_all

definition demo_attrs :: "(string, go_int) fmap" where
  "demo_attrs = fmupd ''brawn'' 7 fmempty"

definition demo_plain :: expr where
  "demo_plain = \<lparr>ex_root = NFunc ''max'' [NInt 1, NBin CHR ''/'' (NAttr ''brawn'' ScopeNone) (NInt 2)],
     ex_src = ''max(1, @brawn/2)''\<rparr>"

text \<open>An expression \<open>HasDice\<close> clears evaluates to the same result, value or error, whatever the
  roller (none included) and whatever the dice before it, and leaves the roller untouched.\<close>

theorem dice_free_eval:
  assumes "\<not> expr_has_dice e"
  shows "(\<exists>v. \<forall>(ro :: 'r roller option) r. eval_single e attrs res ro r = (v, r)) \<and>
     (\<exists>v. \<forall>(ro :: 'r roller option) r. eval_scoped e caster target ro r = (v, r))"
  using assms by (auto simp: eval_single_def eval_scoped_def expr_has_dice_def eval_no_dice(1))

theorem dice_free_eval_witness:
  "\<exists>v. \<forall>(ro :: nat roller option) r. eval_single demo_plain demo_attrs fmempty ro r = (v, r)"
proof -
  have "\<not> expr_has_dice demo_plain" by (simp add: expr_has_dice_def demo_plain_def)
  from dice_free_eval[OF this] show ?thesis by blast
qed

subsection \<open>Where nothing overflows\<close>

definition ideal_func :: "string \<Rightarrow> int list \<Rightarrow> int" where
  "ideal_func f vs =
     (if f = ''half'' then hd vs div 2 else if f = ''max'' then Max (set vs)
      else if f = ''min'' then Min (set vs) else hd vs)"

definition ideal_op :: "char \<Rightarrow> int \<Rightarrow> int \<Rightarrow> int" where
  "ideal_op c l r =
     (if c = CHR ''+'' then l + r else if c = CHR ''-'' then l - r
      else if c = CHR ''*'' then l * r else l div r)"

text \<open>The integer an expression without dice denotes, given what its references resolve to.\<close>

fun ideal :: "(node \<Rightarrow> eval_error + go_int) \<Rightarrow> node \<Rightarrow> int" where
  "ideal rs (NInt i) = sint i"
| "ideal rs (NBin c a b) = ideal_op c (ideal rs a) (ideal rs b)"
| "ideal rs (NFunc f ns) = ideal_func f (map (ideal rs) ns)"
| "ideal rs n = (case rs n of Inr v \<Rightarrow> sint v | Inl e \<Rightarrow> 0)"

definition in_int64 :: "int \<Rightarrow> bool" where
  "in_int64 k = (- (2 ^ 63) \<le> k \<and> k < 2 ^ 63)"

text \<open>Every reference resolves, no divisor is zero and no intermediate leaves 64 bits.\<close>

fun fits :: "(node \<Rightarrow> eval_error + go_int) \<Rightarrow> node \<Rightarrow> bool" where
  "fits rs (NInt i) = True"
| "fits rs (NDice n s) = False"
| "fits rs (NBin c a b) =
     (fits rs a \<and> fits rs b \<and> c \<in> {CHR ''+'', CHR ''-'', CHR ''*'', CHR ''/''} \<and>
      (c = CHR ''/'' \<longrightarrow> ideal rs b \<noteq> 0) \<and> in_int64 (ideal_op c (ideal rs a) (ideal rs b)))"
| "fits rs (NFunc f ns) =
     (list_all (fits rs) ns \<and> ns \<noteq> [] \<and> f \<in> {''floor'', ''half'', ''max'', ''min''})"
| "fits rs n = (case rs n of Inr v \<Rightarrow> True | Inl e \<Rightarrow> False)"

lemma sint_vals_max: "sint (vals_max v vs) = Max (set (map sint (v # vs)))"
  unfolding vals_max_def
proof (induction vs arbitrary: v)
  case (Cons w ws)
  then show ?case by (cases "ws = []") (auto simp: max_def not_less)
qed simp

lemma sint_vals_min: "sint (vals_min v vs) = Min (set (map sint (v # vs)))"
  unfolding vals_min_def
proof (induction vs arbitrary: v)
  case (Cons w ws)
  then show ?case by (cases "ws = []") (auto simp: min_def not_less)
qed simp

lemma sint_ring_ops:
  "in_int64 (sint l + sint r) \<Longrightarrow> sint (l + r :: go_int) = sint l + sint r"
  "in_int64 (sint l - sint r) \<Longrightarrow> sint (l - r :: go_int) = sint l - sint r"
  "in_int64 (sint l * sint r) \<Longrightarrow> sint (l * r :: go_int) = sint l * sint r"
  unfolding in_int64_def sint_word_ariths by (simp_all add: signed_take_bit_int_eq_self)

lemma apply_op_ideal:
  assumes "c \<in> {CHR ''+'', CHR ''-'', CHR ''*'', CHR ''/''}" and "c = CHR ''/'' \<longrightarrow> sint r \<noteq> 0"
    and "in_int64 (ideal_op c (sint l) (sint r))"
  shows "\<exists>v. apply_op c l r = Inr v \<and> sint v = ideal_op c (sint l) (sint r)"
proof -
  consider "c = CHR ''+''" | "c = CHR ''-''" | "c = CHR ''*''" | "c = CHR ''/''" using assms(1) by auto
  then show ?thesis
  proof cases
    case 4
    with assms have r: "r \<noteq> 0" and "in_int64 (sint l div sint r)" by (auto simp: ideal_op_def)
    then have "sint (floor_div l r) = sint l div sint r"
      by (intro sint_floor_div) (auto simp: in_int64_def)
    with 4 r show ?thesis by (simp add: apply_op_def ideal_op_def)
  qed (use assms(3) in \<open>simp_all add: apply_op_def ideal_op_def sint_ring_ops\<close>)
qed

lemma apply_func_ideal:
  assumes "f \<in> {''floor'', ''half'', ''max'', ''min''}" and "vs \<noteq> []"
  shows "\<exists>v. apply_func f vs = Inr v \<and> sint v = ideal_func f (map sint vs)"
proof -
  obtain w ws where vs: "vs = w # ws" using assms(2) by (cases vs) auto
  have half: "sint (floor_div w 2) = sint w div 2" using sint_floor_div[of 2 w] by simp
  consider "f = ''floor''" | "f = ''half''" | "f = ''max''" | "f = ''min''" using assms(1) by auto
  then show ?thesis
  proof cases
    case 2
    with half show ?thesis by (simp add: apply_func_def ideal_func_def vs)
  next
    case 3
    then show ?thesis using sint_vals_max[of w ws] unfolding vs ideal_func_def by (simp add: apply_func_def)
  next
    case 4
    then show ?thesis using sint_vals_min[of w ws] unfolding vs ideal_func_def by (simp add: apply_func_def)
  qed (simp add: apply_func_def ideal_func_def vs)
qed

lemma fits_dice_free: "fits rs n \<Longrightarrow> \<not> dice_walk n"
  by (induction n) (auto simp: list_all_iff list_ex_iff)

lemma fits_values:
  assumes "\<And>n. n \<in> set ns \<Longrightarrow> \<exists>v. dice_free_value rs n = Inr v \<and> sint v = ideal rs n"
  shows "\<exists>vs. dice_free_values rs ns = Inr vs \<and> map sint vs = map (ideal rs) ns"
  using assms by (induction ns) fastforce+

lemma fits_value: "fits rs n \<Longrightarrow> \<exists>v. dice_free_value rs n = Inr v \<and> sint v = ideal rs n"
proof (induction n)
  case (NBin c a b)
  then obtain l r where "dice_free_value rs a = Inr l" "sint l = ideal rs a"
      "dice_free_value rs b = Inr r" "sint r = ideal rs b" by auto
  with NBin.prems apply_op_ideal[of c r l] show ?case by simp
next
  case (NFunc f ns)
  then obtain vs where vs: "dice_free_values rs ns = Inr vs" "map sint vs = map (ideal rs) ns"
    using fits_values[of ns rs] by (auto simp: list_all_iff)
  have "vs \<noteq> []" using NFunc.prems vs(2) by auto
  with NFunc.prems vs apply_func_ideal[of f vs] show ?case by simp
qed (auto split: sum.splits)

text \<open>C3: Evaluation in 64-bit words refines integer arithmetic with floor division: when every
  reference resolves, no divisor is zero and no intermediate result leaves 64 bits, an expression
  without dice evaluates, without error and in either evaluator's contexts, to the integer it denotes.\<close>

theorem eval_exact:
  assumes "fits rs n"
  shows "\<exists>v. eval_tree rs ro n r = (Inr v, r) \<and> sint v = ideal rs n"
  using fits_value[OF assms] eval_no_dice(1)[OF fits_dice_free[OF assms]] by metis

theorem eval_exact_witness:
  "\<exists>v. eval_single demo_plain demo_attrs fmempty (None :: nat roller option) 0 = (Inr v, 0) \<and> sint v = 3"
proof -
  let ?rs = "resolve_single demo_attrs fmempty"
  have "fits ?rs (ex_root demo_plain)"
    by (simp add: demo_plain_def demo_attrs_def resolve_single_def node_scope_def ideal_op_def in_int64_def)
  moreover have "ideal ?rs (ex_root demo_plain) = 3"
    by (simp add: demo_plain_def demo_attrs_def resolve_single_def node_scope_def ideal_op_def ideal_func_def)
  ultimately show ?thesis
    using eval_exact[of ?rs "ex_root demo_plain" "None :: nat roller option" 0] unfolding eval_single_def by simp
qed

end
