(* ===== verification/Parse_Props.thy ===== *)
theory Parse_Props
  imports Expr_Parse Expr_Props
begin

text \<open>
  The parser of \<open>internal/rules/expr.go\<close>: its loops never run out of fuel, every error names a
  position in the source, every tree it returns is inside the closed grammar, and such a tree
  never trips an evaluator's internal checks.
\<close>

subsection \<open>The lexer\<close>

definition tok_ok :: "lex_token \<Rightarrow> bool" where
  "tok_ok t =
     ((tk_kind t = TokInt \<longrightarrow> 0 \<le> sint (tk_int t)) \<and>
      (tk_kind t = TokDice \<longrightarrow>
         min_dice_count \<le> sint (tk_dice_n t) \<and> sint (tk_dice_n t) \<le> max_dice_count \<and>
         min_dice_sides \<le> sint (tk_dice_sides t) \<and> sint (tk_dice_sides t) \<le> max_dice_sides) \<and>
      (tk_kind t = TokIdent \<longrightarrow> is_valid_ident_name (tk_text t)))"

text \<open>In a source of length \<open>L\<close>: the lexer's position and its rest add up, and its token lies inside.\<close>

definition lex_valid :: "nat \<Rightarrow> lexer \<Rightarrow> bool" where
  "lex_valid L l = (lx_pos l + length (lx_rest l) = L)"

definition valid :: "nat \<Rightarrow> parser \<Rightarrow> bool" where
  "valid L p = (lex_valid L (ps_lex p) \<and> tok_ok (ps_tok p) \<and>
     tk_pos (ps_tok p) + length (tk_text (ps_tok p)) \<le> L)"

lemma eat_valid: "lex_valid L l \<Longrightarrow> n \<le> length (lx_rest l) \<Longrightarrow> lex_valid L (eat n l)"
  by (simp add: lex_valid_def eat_def)

lemma eat_simps [simp]:
  "lx_rest (eat n l) = drop n (lx_rest l)" "lx_pos (eat n l) = lx_pos l + n"
  by (simp_all add: eat_def)

lemma skip_space_valid: "lex_valid L l \<Longrightarrow> lex_valid L (skip_space l)"
  by (simp add: skip_space_def eat_valid length_takeWhile_le)

lemma atoi_value: "atoi_digits s = Some i \<Longrightarrow> sint i = int (nat_of_digits s)"
  by (auto simp: atoi_digits_def Let_def sint_of_int64 simp del: of_int_of_nat_eq split: if_splits)

lemma atoi_nonneg: "atoi_digits s = Some i \<Longrightarrow> 0 \<le> sint i"
  by (simp add: atoi_value)

definition lexed :: "nat \<Rightarrow> nat \<Rightarrow> parse_error + lex_token \<times> lexer \<Rightarrow> bool" where
  "lexed L n r = (case r of
     Inl (ParseError k m) \<Rightarrow> k \<le> L \<and> m \<noteq> MLoopFuel
   | Inr (t, l') \<Rightarrow> lex_valid L l' \<and> tok_ok t \<and> tk_pos t + length (tk_text t) \<le> L \<and>
       (tk_kind t \<noteq> TokEOF \<longrightarrow> length (lx_rest l') < n) \<and> length (lx_rest l') \<le> n)"

lemma ident_valid:
  assumes "is_ident_start c"
  shows "is_valid_ident_name (takeWhile is_ident_cont (c # cs))"
proof -
  have "is_ident_cont c" using assms by (simp add: is_ident_cont_def)
  then show ?thesis
    using assms set_takeWhileD[of _ is_ident_cont cs]
    by (auto simp: is_valid_ident_name_def list_all_iff)
qed

lemma lex_number_lexed:
  assumes "lex_valid L l" and "lx_rest l = c # cs" and "is_digit c"
  shows "lexed L (length (lx_rest l)) (lex_number l)"
proof -
  define ds where "ds = takeWhile is_digit (lx_rest l)"
  define l1 where "l1 = eat (length ds) l"
  have le: "length ds \<le> length (lx_rest l)" unfolding ds_def by (rule length_takeWhile_le)
  have pos: "0 < length ds" using assms(2,3) by (simp add: ds_def)
  have l1: "lx_pos l1 = lx_pos l + length ds" "lx_pos l1 + length (lx_rest l1) = L"
    "length (lx_rest l1) < length (lx_rest l)"
    using assms(1) le pos by (simp_all add: l1_def lex_valid_def less_Suc_eq_le del: length_greater_0_conv)
  show ?thesis
  proof (cases "fused_dice (lx_rest l1)")
    case False
    with l1 show ?thesis unfolding lex_number_def Let_def ds_def[symmetric] l1_def[symmetric]
      by (simp add: lexed_def lex_valid_def tok_ok_def plain_token_def atoi_nonneg split: option.split)
  next
    case True
    then obtain xs where xs: "lx_rest l1 = CHR ''d'' # xs"
      by (auto simp: fused_dice_def split: list.splits)
    have "length (takeWhile is_digit xs) \<le> length xs" by (rule length_takeWhile_le)
    moreover from this have "length xs - length (takeWhile is_digit xs) < length (lx_rest l)"
      "length xs - length (takeWhile is_digit xs) \<le> length (lx_rest l)" using l1(3) xs by simp_all
    ultimately show ?thesis using l1 True xs unfolding lex_number_def Let_def ds_def[symmetric] l1_def[symmetric]
      by (simp add: lexed_def lex_valid_def tok_ok_def split: option.split)
  qed
qed

lemma lex_ident_lexed:
  assumes "lex_valid L l" and "lx_rest l = c # cs" and "is_ident_start c"
  shows "lexed L (length (lx_rest l)) (lex_ident l)"
proof -
  have "length (takeWhile is_ident_cont cs) \<le> length cs" by (rule length_takeWhile_le)
  moreover from this have "length cs - length (takeWhile is_ident_cont cs) < Suc (length cs)"
    "length cs - length (takeWhile is_ident_cont cs) \<le> Suc (length cs)" by linarith+
  moreover have "is_ident_cont c" using assms(3) by (simp add: is_ident_cont_def)
  ultimately show ?thesis using assms ident_valid[OF assms(3), of cs]
    by (simp add: lex_ident_def Let_def lexed_def lex_valid_def tok_ok_def plain_token_def)
qed

lemma lexed_mono: "lexed L m r \<Longrightarrow> m \<le> n \<Longrightarrow> lexed L n r"
  by (auto simp: lexed_def split: sum.splits parse_error.splits)

lemma lex_next_lexed:
  assumes "lex_valid L l"
  shows "lexed L (length (lx_rest l)) (lex_next l)"
proof -
  define l1 where "l1 = skip_space l"
  have v: "lex_valid L l1" and le: "length (lx_rest l1) \<le> length (lx_rest l)"
    using skip_space_valid[OF assms] by (simp_all add: l1_def skip_space_def)
  have "lexed L (length (lx_rest l1)) (lex_next l)"
  proof (cases "lx_rest l1")
    case Nil
    with v show ?thesis unfolding lex_next_def l1_def[symmetric]
      by (simp add: lexed_def tok_ok_def plain_token_def lex_valid_def)
  next
    case (Cons c cs)
    show ?thesis
      using lex_number_lexed[OF v Cons] lex_ident_lexed[OF v Cons] Cons v
      unfolding lex_next_def l1_def[symmetric]
      by (auto simp: lexed_def lex_valid_def tok_ok_def plain_token_def single_kind_def
          split: option.splits if_splits)
  qed
  from lexed_mono[OF this le] show ?thesis .
qed

subsection \<open>The closed grammar\<close>

fun wf_node :: "node \<Rightarrow> bool" where
  "wf_node (NInt i) = (0 \<le> sint i)"
| "wf_node (NAttr k sc) = is_valid_ident_name k"
| "wf_node (NRes k sc) = is_valid_ident_name k"
| "wf_node (NDice n s) = (wf_node n \<and> wf_node s \<and>
     literal_out min_dice_count max_dice_count n = None \<and> literal_out min_dice_sides max_dice_sides s = None)"
| "wf_node (NBin c a b) = (c \<in> {CHR ''+'', CHR ''-'', CHR ''*'', CHR ''/''} \<and> wf_node a \<and> wf_node b)"
| "wf_node (NFunc f args) = (list_all wf_node args \<and>
     (case func_arity f of None \<Rightarrow> False
      | Some (exact, least) \<Rightarrow> (0 < exact \<longrightarrow> length args = exact) \<and> (0 < least \<longrightarrow> least \<le> length args)))"

text \<open>What a parsing step owes: an error inside the source and not for want of fuel, or a result
  with the property \<open>Q\<close> and fewer than \<open>m\<close> tokens left.\<close>

definition fine :: "nat \<Rightarrow> nat \<Rightarrow> ('a \<Rightarrow> bool) \<Rightarrow> parse_error + 'a \<times> parser \<Rightarrow> bool" where
  "fine L m Q r = (case r of
     Inl (ParseError k msg) \<Rightarrow> k \<le> L \<and> msg \<noteq> MLoopFuel
   | Inr (x, p) \<Rightarrow> Q x \<and> valid L p \<and> tokens_left p < m)"

lemma fine_Inl [simp]: "fine L m Q (Inl (ParseError k msg)) \<longleftrightarrow> k \<le> L \<and> msg \<noteq> MLoopFuel"
  by (simp add: fine_def)

lemma fine_Inr [simp]: "fine L m Q (Inr (x, p)) \<longleftrightarrow> Q x \<and> valid L p \<and> tokens_left p < m"
  by (simp add: fine_def)

lemma fine_bind:
  assumes "fine L m Q r" and "\<And>x p. Q x \<Longrightarrow> valid L p \<Longrightarrow> tokens_left p < m \<Longrightarrow> fine L m' Q' (k (x, p))"
  shows "fine L m' Q' (sum_bind r k)"
proof (cases r)
  case (Inl e)
  with assms(1) show ?thesis by (cases e) simp
next
  case (Inr xp)
  with assms show ?thesis by (cases xp) simp
qed

lemma fine_mono: "fine L m Q r \<Longrightarrow> m \<le> m' \<Longrightarrow> fine L m' Q r"
  by (auto simp: fine_def split: sum.splits parse_error.splits)

lemma valid_pos: "valid L p \<Longrightarrow> ps_pos p \<le> L"
  by (simp add: valid_def)

lemma fine_advance:
  assumes "valid L p" and "ps_kind p \<noteq> TokEOF"
    and "\<And>q. valid L q \<Longrightarrow> tokens_left q < tokens_left p \<Longrightarrow> fine L m Q (k q)"
  shows "fine L m Q (sum_bind (advance p) k)"
proof -
  have "lexed L (length (lx_rest (ps_lex p))) (lex_next (ps_lex p))"
    using assms(1) by (intro lex_next_lexed) (simp add: valid_def)
  then show ?thesis
  proof (cases "lex_next (ps_lex p)")
    case (Inl e)
    with \<open>lexed _ _ _\<close> show ?thesis by (cases e) (simp add: advance_def lexed_def)
  next
    case (Inr tl)
    then obtain t l where tl: "lex_next (ps_lex p) = Inr (t, l)" by (cases tl) auto
    with \<open>lexed _ _ _\<close> assms(2) have "valid L \<lparr>ps_lex = l, ps_tok = t\<rparr>"
      "tokens_left \<lparr>ps_lex = l, ps_tok = t\<rparr> < tokens_left p"
      by (auto simp: lexed_def valid_def tokens_left_def)
    from assms(3)[OF this] tl show ?thesis by (simp add: advance_def)
  qed
qed

definition parses :: "nat \<Rightarrow> ('a \<Rightarrow> bool) \<Rightarrow> 'a parsing \<Rightarrow> bool" where
  "parses L Q f = (\<forall>p. valid L p \<longrightarrow> fine L (tokens_left p) Q (f p))"

lemma parsesD: "parses L Q f \<Longrightarrow> valid L p \<Longrightarrow> tokens_left p \<le> m \<Longrightarrow> fine L m Q (f p)"
  unfolding parses_def using fine_mono by blast

lemma binop_loop_fine:
  assumes sub: "parses L wf_node sub" and ops: "snd ` set ops \<subseteq> {CHR ''+'', CHR ''-'', CHR ''*'', CHR ''/''}"
    and eof: "map_of ops TokEOF = None"
  shows "valid L p \<Longrightarrow> wf_node left \<Longrightarrow> tokens_left p < f \<Longrightarrow> tokens_left p < m \<Longrightarrow>
    fine L m wf_node (binop_loop ops sub f left p)"
proof (induction f arbitrary: p left m)
  case (Suc f)
  show ?case
  proof (cases "map_of ops (ps_kind p)")
    case (Some op)
    then have "op \<in> {CHR ''+'', CHR ''-'', CHR ''*'', CHR ''/''}" using ops map_of_SomeD by fastforce
    moreover have "ps_kind p \<noteq> TokEOF" using Some eof by auto
    ultimately show ?thesis using Some Suc
      by (auto intro!: fine_advance fine_bind[OF parsesD[OF sub _ order_refl]] Suc.IH)
  qed (use Suc.prems in simp)
qed simp

lemma term_body_parses: "parses L wf_node f \<Longrightarrow> parses L wf_node (term_body f)"
  unfolding parses_def[of L wf_node "term_body f"] term_body_def
  by (auto simp del: binop_loop.simps intro!: fine_bind[OF parsesD[OF _ _ order_refl]] binop_loop_fine)

lemma expr_body_parses: "parses L wf_node f \<Longrightarrow> parses L wf_node (expr_body f)"
  unfolding parses_def[of L wf_node "expr_body f"] expr_body_def
  by (auto simp del: binop_loop.simps intro!: fine_bind[OF parsesD[OF _ _ order_refl]] binop_loop_fine)

lemma too_deep_parses [simp]: "parses L Q too_deep"
  by (simp add: parses_def too_deep_def valid_pos)

lemma valid_ident: "valid L p \<Longrightarrow> ps_kind p = TokIdent \<Longrightarrow> is_valid_ident_name (tk_text (ps_tok p))"
  by (simp add: valid_def tok_ok_def)

lemma parse_ref_fine:
  "valid L p \<Longrightarrow> ps_kind p \<noteq> TokEOF \<Longrightarrow> fine L (tokens_left p) wf_node (parse_ref p)"
  unfolding parse_ref_def Let_def
  by (auto intro!: fine_advance simp: valid_pos valid_ident[of L] split: option.splits)

lemma args_loop_fine:
  assumes expr: "parses L wf_node expr"
  shows "valid L p \<Longrightarrow> list_all wf_node args \<Longrightarrow> tokens_left p < f \<Longrightarrow> tokens_left p < m \<Longrightarrow>
    fine L m (list_all wf_node) (args_loop expr f args p)"
proof (induction f arbitrary: p args m)
  case (Suc f)
  then show ?case
    by (auto intro!: fine_advance fine_bind[OF parsesD[OF expr _ order_refl]] Suc.IH)
qed simp

lemma func_call_fine:
  assumes expr: "parses L wf_node expr" and p: "valid L p" "ps_kind p \<noteq> TokEOF"
  shows "fine L (tokens_left p) wf_node (func_call_body expr p)"
  unfolding func_call_body_def Let_def
  using p
  by (auto simp: valid_pos simp del: args_loop.simps split: option.splits
      intro!: fine_advance fine_bind[OF parsesD[OF expr _ order_refl]]
        fine_bind[OF args_loop_fine[OF expr _ _ lessI lessI]])

lemma primary_fine:
  assumes expr: "parses L wf_node expr" and p: "valid L p"
  shows "fine L (tokens_left p) (\<lambda>(n, paren). wf_node n) (primary_body expr p)"
proof (cases "ps_kind p")
  case TokInt
  with p show ?thesis by (auto simp: primary_body_def valid_def tok_ok_def intro!: fine_advance)
next
  case TokDice
  with p show ?thesis
    by (auto simp: primary_body_def literal_out_def intro!: fine_advance) (auto simp: valid_def tok_ok_def)
next
  case TokIdent
  with p show ?thesis
    by (auto simp: primary_body_def intro!: fine_bind[OF func_call_fine[OF expr]])
next
  case TokAt
  with p show ?thesis by (auto simp: primary_body_def intro!: fine_bind[OF parse_ref_fine])
next
  case TokHash
  with p show ?thesis by (auto simp: primary_body_def intro!: fine_bind[OF parse_ref_fine])
next
  case TokLParen
  with p show ?thesis
    by (auto simp: primary_body_def valid_pos
        intro!: fine_advance fine_bind[OF parsesD[OF expr _ order_refl]])
qed (use p in \<open>simp_all add: primary_body_def valid_pos\<close>)

lemma literal_bounds_fine:
  assumes "valid L p" and "tk_text (ps_tok p) = CHR ''d'' # ds"
  shows "ps_pos p + 1 \<le> L"
  using assms by (simp add: valid_def)

lemma tok_dice_opD:
  "tok_dice_op p = Some digits \<Longrightarrow> ps_kind p = TokIdent \<and> (\<exists>ds. tk_text (ps_tok p) = CHR ''d'' # ds)"
  by (auto simp: tok_dice_op_def dice_op_suffix_def split: if_splits list.splits)

lemma dice_sides_fine:
  assumes expr: "parses L wf_node expr" and p: "valid L p" "tok_dice_op p = Some digits"
  shows "fine L (tokens_left p)
    (\<lambda>n. wf_node n \<and> literal_out min_dice_sides max_dice_sides n = None) (dice_sides_body expr digits p)"
proof -
  have eof: "ps_kind p \<noteq> TokEOF" and pos: "Suc (ps_pos p) \<le> L"
    using tok_dice_opD[OF p(2)] literal_bounds_fine[OF p(1)] by auto
  have prim: "fine L (tokens_left p) (\<lambda>n. wf_node n \<and> literal_out min_dice_sides max_dice_sides n = None)
      (sum_bind (primary_body expr q) k)"
    if "valid L q" "tokens_left q < tokens_left p"
      "\<And>sides paren q'. wf_node sides \<Longrightarrow> valid L q' \<Longrightarrow> tokens_left q' < tokens_left p \<Longrightarrow>
        fine L (tokens_left p) (\<lambda>n. wf_node n \<and> literal_out min_dice_sides max_dice_sides n = None) (k ((sides, paren), q'))"
    for q k
    by (rule fine_bind[OF primary_fine[OF expr that(1)]]) (use that(2,3) in force)
  show ?thesis
    unfolding dice_sides_body_def
    using p(1) eof pos
    by (auto simp: valid_pos atoi_nonneg literal_out_def[of _ _ "NInt _"]
        intro!: fine_advance prim split: option.splits)
qed

lemma factor_body_parses:
  assumes expr: "parses L wf_node expr"
  shows "parses L wf_node (factor_body expr)"
  unfolding parses_def
proof (intro allI impI)
  fix p assume p: "valid L p"
  show "fine L (tokens_left p) wf_node (factor_body expr p)"
    unfolding factor_body_def
    by (rule fine_bind[OF primary_fine[OF expr p]])
      (use p in \<open>auto simp: valid_pos intro!: fine_bind[OF dice_sides_fine[OF expr]] split: option.split\<close>)
qed

lemma parse_fine: "parses L wf_node (parse_expr k)" "parses L wf_node (parse_factor k)"
proof (induction k)
  case (Suc k)
  { case 1 show ?case by (simp add: expr_body_parses term_body_parses Suc) }
  { case 2 show ?case by (simp add: factor_body_parses Suc) }
qed simp_all

lemma parse_string_cases:
  "case parse_string s of
     Inl (ParseError k msg) \<Rightarrow> k \<le> length s \<and> msg \<noteq> MLoopFuel
   | Inr e \<Rightarrow> wf_node (ex_root e) \<and> ex_src e = s"
proof -
  let ?L = "length s" and ?l = "\<lparr>lx_pos = 0, lx_rest = s\<rparr>"
  have lexed: "lexed ?L ?L (lex_next ?l)" using lex_next_lexed[of ?L ?l] by (simp add: lex_valid_def)
  show ?thesis
  proof (cases "lex_next ?l")
    case (Inl e)
    with lexed show ?thesis by (cases e) (simp add: parse_string_def advance_def lexed_def)
  next
    case (Inr tl)
    then obtain t l where tl: "lex_next ?l = Inr (t, l)" by (cases tl) auto
    let ?p = "\<lparr>ps_lex = l, ps_tok = t\<rparr>"
    have "valid ?L ?p" using lexed tl by (simp add: lexed_def valid_def)
    with parsesD[OF parse_fine(1) this order_refl, of max_expr_depth] tl show ?thesis
      by (auto simp: parse_string_def advance_def fine_def valid_pos split: sum.splits parse_error.splits if_splits)
  qed
qed

text \<open>C5: \<open>Parse\<close> returns on every input: its loops never exhaust the fuel they are given, an error
  names a position inside the source (its end included), and a tree it returns is inside the
  closed grammar: known operators and functions at their arities, legal identifiers, non-negative
  literals, and no literal dice operand out of bounds.\<close>

theorem parse_string_spec:
  "(\<exists>k msg. parse_string s = Inl (ParseError k msg) \<and> k \<le> length s \<and> msg \<noteq> MLoopFuel) \<or>
   (\<exists>e. parse_string s = Inr e \<and> wf_node (ex_root e) \<and> ex_src e = s)"
  using parse_string_cases[of s] by (auto split: sum.splits parse_error.splits)

subsection \<open>Evaluating what was parsed\<close>

fun ref_nodes :: "node \<Rightarrow> node list" where
  "ref_nodes (NBin c a b) = ref_nodes a @ ref_nodes b"
| "ref_nodes (NDice n s) = ref_nodes n @ ref_nodes s"
| "ref_nodes (NFunc f args) = concat (map ref_nodes args)"
| "ref_nodes (NInt i) = []"
| "ref_nodes n = [n]"

text \<open>The errors a tree of the grammar can end in: one of its references, a division, its dice.\<close>

definition blames :: "(node \<Rightarrow> eval_error + go_int) \<Rightarrow> bool \<Rightarrow> node list \<Rightarrow> bool \<Rightarrow> eval_error \<Rightarrow> bool" where
  "blames rs nil_roller refs dice err =
     ((\<exists>m \<in> set refs. rs m = Inl err) \<or> err = DivisionByZero \<or>
      (dice \<and> ((\<exists>c. err = DiceCountBounds c \<or> err = DiceSidesBounds c) \<or> (nil_roller \<and> err = NilRoller))))"

lemma blames_mono:
  "blames rs nil refs dice err \<Longrightarrow> set refs \<subseteq> set refs' \<Longrightarrow> (dice \<longrightarrow> dice') \<Longrightarrow> blames rs nil refs' dice' err"
  by (auto simp: blames_def)

lemma apply_op_error:
  "c \<in> {CHR ''+'', CHR ''-'', CHR ''*'', CHR ''/''} \<Longrightarrow> apply_op c l r = Inl err \<Longrightarrow> err = DivisionByZero"
  by (auto simp: apply_op_def split: if_splits)

lemma eval_args_length: "eval_args rs ro ns r = (Inr vs, r') \<Longrightarrow> length vs = length ns"
  by (induction ns arbitrary: r vs) auto

lemma apply_func_no_error:
  assumes "wf_node (NFunc f args)" and "length vs = length args"
  shows "apply_func f vs \<noteq> Inl err"
  using assms by (cases vs) (auto simp: apply_func_def func_arity_def split: if_splits)

lemma roll_dice_error:
  "roll_dice ro c s r = (Inl err, r') \<Longrightarrow> (\<exists>c. err = DiceCountBounds c \<or> err = DiceSidesBounds c) \<or> (ro = None \<and> err = NilRoller)"
  by (auto simp: roll_dice_def split: if_splits option.splits prod.splits)

lemma eval_blames:
  "wf_node n \<Longrightarrow> eval_tree rs ro n r = (Inl err, r') \<Longrightarrow>
     blames rs (ro = None) (ref_nodes n) (dice_walk n) err"
  "list_all wf_node ns \<Longrightarrow> eval_args rs ro ns r = (Inl err, r') \<Longrightarrow>
     blames rs (ro = None) (concat (map ref_nodes ns)) (list_ex dice_walk ns) err"
proof (induction rs ro n r and rs ro ns r arbitrary: err r' and err r' rule: eval_tree_eval_args.induct)
  case (4 rs ro n s r)
  from 4(4) consider "eval_tree rs ro n r = (Inl err, r')"
    | v r1 where "eval_tree rs ro n r = (Inr v, r1)" "eval_tree rs ro s r1 = (Inl err, r')"
    | v r1 w r2 where "eval_tree rs ro n r = (Inr v, r1)" "roll_dice ro v w r2 = (Inl err, r')"
    by (auto simp: eval_bind_eq_Inl)
  then show ?case
  proof cases
    case 1
    with 4(1,3) show ?thesis by (fastforce elim!: blames_mono)
  next
    case 2
    with 4(2,3) show ?thesis by (fastforce elim!: blames_mono)
  next
    case 3
    from roll_dice_error[OF 3(2)] show ?thesis by (auto simp: blames_def)
  qed
next
  case (5 rs ro c a b r)
  from 5(4) consider "eval_tree rs ro a r = (Inl err, r')"
    | v r1 where "eval_tree rs ro a r = (Inr v, r1)" "eval_tree rs ro b r1 = (Inl err, r')"
    | v w where "apply_op c v w = Inl err"
    by (auto simp: eval_bind_eq_Inl)
  then show ?case
  proof cases
    case 1
    with 5(1,3) show ?thesis by (fastforce elim!: blames_mono)
  next
    case 2
    with 5(2,3) show ?thesis by (fastforce elim!: blames_mono)
  next
    case 3
    with 5(3) show ?thesis using apply_op_error[of c v w err] by (auto simp: blames_def)
  qed
next
  case (6 rs ro f args r)
  then have "eval_args rs ro args r = (Inl err, r')"
    using apply_func_no_error[OF 6(2)] by (auto simp: eval_bind_eq_Inl dest: eval_args_length)
  with 6(1,2) show ?case by (fastforce elim!: blames_mono)
next
  case (8 rs ro a as r)
  from 8(4) consider "eval_tree rs ro a r = (Inl err, r')"
    | v r1 where "eval_tree rs ro a r = (Inr v, r1)" "eval_args rs ro as r1 = (Inl err, r')"
    by (auto simp: eval_bind_eq_Inl)
  then show ?case
  proof cases
    case 1
    with 8(1,3) show ?thesis by (fastforce elim!: blames_mono)
  next
    case 2
    with 8(2,3) show ?thesis by (fastforce elim!: blames_mono)
  qed
qed (auto simp: blames_def)

text \<open>C6: A parsed expression never trips an evaluator's internal checks (unknown operator, function
  or node, a missing argument): evaluation, in either form, fails only with the error of one of its
  own references, a division by zero, or, if it has dice, a computed count or sides out of
  bounds or a nil roller.\<close>

theorem parsed_eval_errors:
  assumes "parse_string s = Inr e"
  shows "(\<forall>err r'. eval_single e attrs res ro r = (Inl err, r') \<longrightarrow>
       blames (resolve_single attrs res) (ro = None) (ref_nodes (ex_root e)) (expr_has_dice e) err) \<and>
     (\<forall>err r'. eval_scoped e caster target ro r = (Inl err, r') \<longrightarrow>
       blames (resolve_scoped caster target) (ro = None) (ref_nodes (ex_root e)) (expr_has_dice e) err)"
proof -
  have "wf_node (ex_root e)" using parse_string_cases[of s] assms by simp
  then show ?thesis by (simp add: eval_single_def eval_scoped_def expr_has_dice_def eval_blames(1))
qed

definition demo_parsed :: expr where
  "demo_parsed = \<lparr>ex_root = NBin CHR ''/'' (NAttr ''brawn'' ScopeNone) (NInt 0), ex_src = ''@brawn/0''\<rparr>"

lemma demo_parse: "parse_string ''@brawn/0'' = Inr demo_parsed"
  by code_simp

theorem parsed_eval_errors_witness:
  "blames (resolve_single demo_attrs fmempty) True [NAttr ''brawn'' ScopeNone] False DivisionByZero \<and>
   eval_single demo_parsed demo_attrs fmempty (None :: nat roller option) 0 = (Inl DivisionByZero, 0)"
proof -
  have "eval_single demo_parsed demo_attrs fmempty (None :: nat roller option) 0 = (Inl DivisionByZero, 0)"
    by (simp add: eval_single_def demo_parsed_def demo_attrs_def resolve_single_def node_scope_def apply_op_def)
  with parsed_eval_errors[OF demo_parse] show ?thesis
    by (fastforce simp: demo_parsed_def expr_has_dice_def)
qed

end
