(* ===== verification/Roller.thy ===== *)
theory Roller
  imports Expr_Props
begin

text \<open>
  The \<open>Roller\<close> interface of \<open>internal/rules/expr.go\<close> as a locale, and its two implementations:
  \<open>CryptoRoller\<close> (\<open>crypto_roller.go\<close>) and the \<open>recordingRoller\<close> that \<open>Resolve\<close> wraps around any
  roller (\<open>resolve.go\<close>). \<open>crypto/rand.Int\<close> is the parameter \<open>draw\<close>, a function of an entropy
  state; what the code relies on is its documented range, \<open>lawful_draw\<close>. A failing entropy
  source panics and is not modelled.
\<close>

subsection \<open>The interface\<close>

definition dice_ok :: "go_int \<Rightarrow> go_int \<Rightarrow> bool" where
  "dice_ok n s = (min_dice_count \<le> sint n \<and> sint n \<le> max_dice_count \<and>
     min_dice_sides \<le> sint s \<and> sint s \<le> max_dice_sides)"

definition lawful_roll :: "go_int \<Rightarrow> go_int \<Rightarrow> go_int list \<Rightarrow> go_int \<Rightarrow> bool" where
  "lawful_roll n s ds t = (int (length ds) = sint n \<and>
     (\<forall>d \<in> set ds. 1 \<le> sint d \<and> sint d \<le> sint s) \<and> sint t = sum_list (map sint ds))"

locale lawful_roller =
  fixes roll :: "'r roller" and sound :: "'r \<Rightarrow> bool"
  assumes rolls: "\<lbrakk>sound r; dice_ok n s; roll n s r = ((ds, t), r')\<rbrakk> \<Longrightarrow> sound r' \<and> lawful_roll n s ds t"
begin

lemma roll_dice_sound:
  assumes "sound r" and "roll_dice (Some roll) n s r = (v, r')"
  shows "sound r'"
  using assms rolls[of r n s]
  by (auto simp: roll_dice_def dice_ok_def split: if_splits prod.splits)

lemma roll_dice_value:
  assumes "sound r" and "roll_dice (Some roll) n s r = (Inr v, r')"
  shows "\<exists>ds. roll n s r = ((ds, v), r') \<and> dice_ok n s \<and> lawful_roll n s ds v"
  using assms rolls[of r n s]
  by (auto simp: roll_dice_def dice_ok_def split: if_splits prod.splits)

lemma eval_sound:
  "sound r \<Longrightarrow> eval_tree rs (Some roll) n r = (v, r') \<Longrightarrow> sound r'"
  "sound r \<Longrightarrow> eval_args rs (Some roll) ns r = (vs, r') \<Longrightarrow> sound r'"
proof (induction rs "Some roll" n r and rs "Some roll" ns r arbitrary: v r' and vs r'
    rule: eval_tree_eval_args.induct)
  case (4 rs n s r)
  then show ?case
    by (cases v) (simp_all add: eval_bind_eq_Inl, (metis roll_dice_sound)+)
next
  case (5 rs c a b r)
  then show ?case by (cases v) (auto simp: eval_bind_eq_Inl)
next
  case (6 rs f args r)
  then show ?case by (cases v) (auto simp: eval_bind_eq_Inl)
next
  case (8 rs a as r)
  then show ?case by (cases vs) (auto simp: eval_bind_eq_Inl)
qed auto

end

subsection \<open>Recording\<close>

definition record_roll :: "'r roller \<Rightarrow> ('r \<times> go_int list) roller" where
  "record_roll roll n s st =
     (case st of (r, results) \<Rightarrow> (case roll n s r of ((ds, t), r') \<Rightarrow> ((ds, t), (r', results @ ds))))"

definition eval_recording_scoped :: "expr \<Rightarrow> eval_context \<Rightarrow> eval_context \<Rightarrow> 'r roller option \<Rightarrow> 'r
    \<Rightarrow> (eval_error + go_int \<times> go_int list) \<times> 'r" where
  "eval_recording_scoped e caster target roller r =
     (case roller of
        None \<Rightarrow> (case eval_scoped e caster target None r of
            (Inl err, r') \<Rightarrow> (Inl err, r') | (Inr v, r') \<Rightarrow> (Inr (v, []), r'))
      | Some roll \<Rightarrow> (case eval_scoped e caster target (Some (record_roll roll)) (r, []) of
            (Inl err, (r', results)) \<Rightarrow> (Inl err, r')
          | (Inr v, (r', results)) \<Rightarrow> (Inr (v, results), r')))"

definition die_range :: "go_int list \<Rightarrow> bool" where
  "die_range ds = (\<forall>d \<in> set ds. min_dice_sides \<le> sint d \<and> sint d \<le> max_dice_sides)"

locale recording_roller = lawful_roller
begin

lemma record_lawful:
  assumes "case st of (r, ds) \<Rightarrow> sound r \<and> die_range ds" and "dice_ok n s"
    and "record_roll roll n s st = ((ds, t), st')"
  shows "(case st' of (r, ds) \<Rightarrow> sound r \<and> die_range ds) \<and> lawful_roll n s ds t"
proof -
  obtain r0 acc r1 where st: "st = (r0, acc)" "st' = (r1, acc @ ds)" "roll n s r0 = ((ds, t), r1)"
    using assms(3) by (auto simp: record_roll_def split: prod.splits)
  from rolls[OF _ assms(2) st(3)] assms(1) st(1) have law: "sound r1" "lawful_roll n s ds t" by auto
  moreover have "die_range ds"
    using law(2) assms(2) by (force simp: lawful_roll_def dice_ok_def die_range_def)
  ultimately show ?thesis using assms(1) st(1,2) by (auto simp: die_range_def)
qed

end

sublocale recording_roller \<subseteq> recorded: lawful_roller "record_roll roll" "\<lambda>(r, ds). sound r \<and> die_range ds"
  by unfold_locales (rule record_lawful)

context recording_roller
begin

lemma recorded_dice:
  assumes "sound r" and "eval_recording_scoped e caster target (Some roll) r = (Inr (v, ds), r')"
  shows "sound r' \<and> die_range ds"
proof -
  have "eval_scoped e caster target (Some (record_roll roll)) (r, []) = (Inr v, (r', ds))"
    using assms(2) by (auto simp: eval_recording_scoped_def split: prod.splits sum.splits)
  from recorded.eval_sound(1)[OF _ this[unfolded eval_scoped_def]] assms(1) show ?thesis
    by (simp add: die_range_def)
qed

lemma recorded_literal:
  assumes "sound r" and "ex_root e = NDice (NInt n) (NInt s)"
    and "eval_recording_scoped e caster target (Some roll) r = (Inr (v, ds), r')"
  shows "dice_ok n s \<and> lawful_roll n s ds v"
proof -
  have "roll_dice (Some (record_roll roll)) n s (r, []) = (Inr v, (r', ds))"
    using assms(2,3) by (auto simp: eval_recording_scoped_def eval_scoped_def split: prod.splits sum.splits)
  from recorded.roll_dice_value[OF _ this] assms(1) show ?thesis
    by (auto simp: die_range_def record_roll_def split: prod.splits)
qed

end

subsection \<open>The production roller\<close>

definition lawful_draw :: "(go_int \<Rightarrow> 'e \<Rightarrow> go_int \<times> 'e) \<Rightarrow> bool" where
  "lawful_draw draw = (\<forall>mx e. 0 < sint mx \<longrightarrow> 0 \<le> sint (fst (draw mx e)) \<and> sint (fst (draw mx e)) < sint mx)"

fun crypto_dice :: "(go_int \<Rightarrow> 'e \<Rightarrow> go_int \<times> 'e) \<Rightarrow> nat \<Rightarrow> go_int \<Rightarrow> 'e \<Rightarrow> go_int list \<times> 'e" where
  "crypto_dice draw 0 sides e = ([], e)"
| "crypto_dice draw (Suc n) sides e =
     (let (v, e1) = (if 0 < sint sides then (case draw sides e of (k, e') \<Rightarrow> (k + 1, e')) else (1, e));
          (vs, e2) = crypto_dice draw n sides e1
      in (v # vs, e2))"

definition crypto_roll :: "(go_int \<Rightarrow> 'e \<Rightarrow> go_int \<times> 'e) \<Rightarrow> 'e roller" where
  "crypto_roll draw n sides e =
     (case crypto_dice draw (nat (sint n)) sides e of (results, e') \<Rightarrow> ((results, sum_list results), e'))"

lemma crypto_dice_lawful:
  assumes "lawful_draw draw" and "0 < sint s" and "crypto_dice draw n s e = (ds, e')"
  shows "length ds = n \<and> (\<forall>d \<in> set ds. 1 \<le> sint d \<and> sint d \<le> sint s)"
  using assms(3)
proof (induction n arbitrary: e ds)
  case (Suc n)
  obtain k e1 where k: "draw s e = (k, e1)" by fastforce
  have range: "0 \<le> sint k" "sint k < sint s"
    using assms(1,2) k unfolding lawful_draw_def by (metis fst_conv)+
  have "sint (k + 1) = sint k + 1"
    using range sint64_bounds[of s] sint_add_go_int[of k 1] by simp
  with Suc range assms(2) k show ?case by (auto split: prod.splits)
qed simp

lemma sum_list_sint:
  fixes ds :: "go_int list"
  assumes "\<forall>d \<in> set ds. 0 \<le> sint d \<and> sint d \<le> m" and "int (length ds) * m < 2 ^ 63"
  shows "sint (sum_list ds) = sum_list (map sint ds) \<and>
    0 \<le> sum_list (map sint ds) \<and> sum_list (map sint ds) \<le> int (length ds) * m"
  using assms
proof (induction ds)
  case (Cons d ds)
  then have "0 \<le> m" by force
  with Cons.prems have "int (length ds) * m < 2 ^ 63" by (simp add: algebra_simps)
  with Cons have IH: "sint (sum_list ds) = sum_list (map sint ds)" "0 \<le> sum_list (map sint ds)"
    "sum_list (map sint ds) \<le> int (length ds) * m" by auto
  have d: "0 \<le> sint d" "sint d \<le> m" using Cons.prems(1) by auto
  have "sint d + sum_list (map sint ds) < 2 ^ 63"
    using d IH(3) Cons.prems(2) by (simp add: algebra_simps)
  with d IH show ?case
    using sint_add_go_int[of d "sum_list ds"] by (simp add: algebra_simps)
qed simp

interpretation crypto: recording_roller "crypto_roll draw" "\<lambda>_. lawful_draw draw" for draw
proof
  fix r n s ds t r'
  assume lawful: "lawful_draw draw" and ok: "dice_ok n s"
    and roll: "crypto_roll draw n s r = ((ds, t), r')"
  from roll have dice: "crypto_dice draw (nat (sint n)) s r = (ds, r')" "t = sum_list ds"
    by (auto simp: crypto_roll_def split: prod.splits)
  with crypto_dice_lawful[OF lawful _ dice(1)] ok have
    len: "int (length ds) = sint n" and range: "\<forall>d \<in> set ds. 1 \<le> sint d \<and> sint d \<le> sint s"
    by (auto simp: dice_ok_def)
  have "int (length ds) * 1000 < 2 ^ 63" using len ok by (simp add: dice_ok_def)
  moreover have "\<forall>d \<in> set ds. 0 \<le> sint d \<and> sint d \<le> 1000" using range ok by (fastforce simp: dice_ok_def)
  ultimately have "sint t = sum_list (map sint ds)" using sum_list_sint[of ds 1000] dice(2) by simp
  with lawful len range show "lawful_draw draw \<and> lawful_roll n s ds t" by (simp add: lawful_roll_def)
qed


definition demo_draw :: "go_int \<Rightarrow> nat \<Rightarrow> go_int \<times> nat" where
  "demo_draw mx e = (word_of_int (int e mod sint mx), Suc e)"

lemma demo_draw_lawful: "lawful_draw demo_draw"
proof -
  have "0 \<le> int e mod sint mx \<and> int e mod sint mx < sint mx \<and>
      sint (word_of_int (int e mod sint mx) :: go_int) = int e mod sint mx" if "0 < sint mx"
    for e and mx :: go_int
    using that sint64_bounds[of mx] pos_mod_bound[OF that, of "int e"] pos_mod_sign[OF that, of "int e"]
    by (auto intro: sint_of_int64)
  then show ?thesis by (simp add: lawful_draw_def demo_draw_def)
qed

definition demo_dice :: expr where
  "demo_dice = \<lparr>ex_root = NDice (NInt 2) (NInt 6), ex_src = ''2d6''\<rparr>"

definition no_context :: eval_context where
  "no_context = \<lparr>ec_attrs = fmempty, ec_resources = fmempty\<rparr>"


end
