(* ===== verification/Resolve.thy ===== *)
theory Resolve
  imports Ruleset Roller Fold
begin

text \<open>
  \<open>internal/rules/resolve.go\<close>: what using an ability emits.

  The state a call keeps, \<open>resolveState\<close>, is a record passed through: the running resource
  values, the order in which they first changed, and the conditions the call itself added or
  took away. The ruleset, the game state and the roller are arguments; the roller's own state
  is threaded through every evaluation. A step returns an error or its results, and the
  roller's state either way.
\<close>

subsection \<open>The command and the errors\<close>

record use_ability =
  ua_actor_id :: string
  ua_ability_id :: string
  ua_target_ids :: "string list"

datatype eval_site = AtRoll | AtVs | AtResourceChange string

datatype resolve_error =
    UnknownAbility string
  | UnknownCaster string
  | NoTargets string
  | TooManyTargets string go_int nat
  | DuplicateTarget string
  | UnknownTarget string
  | MissingAttribute string string
  | MissingDefense string string
  | NoUsageResource string string
  | InsufficientResource string string int32 go_int
  | NoCasterToken string
  | NoTargetToken string string
  | OutOfRange string go_int go_int
  | NoResource string string
  | EvalFailed eval_site eval_error
  | OutsideInt32 eval_site go_int
  | NewValueOutsideInt32 string go_int
  | ThresholdFailed nat string eval_error

subsection \<open>Running values\<close>

record resolve_state =
  rv_running :: "(string \<times> string, go_int) fmap"
  rv_changed :: "(string \<times> string) list"
  rv_conditions :: "(string, (string, bool) fmap) fmap"

definition resolve_start :: resolve_state where
  "resolve_start = \<lparr>rv_running = fmempty, rv_changed = [], rv_conditions = fmempty\<rparr>"

text \<open>\<open>st.Actors[id].GetResources()[name]\<close>: an absent actor or resource reads as none.\<close>

definition actor_resource :: "state \<Rightarrow> string \<Rightarrow> string \<Rightarrow> resource option" where
  "actor_resource st aid name =
     (case fmlookup (st_actors st) aid of None \<Rightarrow> None | Some a \<Rightarrow> fmlookup (actor_resources a) name)"

definition current_resource :: "state \<Rightarrow> resolve_state \<Rightarrow> string \<Rightarrow> string \<Rightarrow> go_int" where
  "current_resource st v aid name =
     (case fmlookup (rv_running v) (aid, name) of
        Some k \<Rightarrow> k
      | None \<Rightarrow> (case actor_resource st aid name of None \<Rightarrow> 0 | Some res \<Rightarrow> widen (res_current res)))"

definition max_resource :: "state \<Rightarrow> string \<Rightarrow> string \<Rightarrow> go_int" where
  "max_resource st aid name = (case actor_resource st aid name of None \<Rightarrow> 0 | Some res \<Rightarrow> widen (res_max res))"

definition apply_delta :: "state \<Rightarrow> string \<Rightarrow> string \<Rightarrow> go_int \<Rightarrow> resolve_state \<Rightarrow> go_int \<times> resolve_state" where
  "apply_delta st aid name delta v =
     (let nv = current_resource st v aid name + delta;
          nv = (if sint nv < 0 then 0 else nv);
          upper = max_resource st aid name;
          nv = (if 0 < sint upper \<and> sint upper < sint nv then upper else nv);
          key = (aid, name);
          changed = (if fmlookup (rv_running v) key = None then rv_changed v @ [key] else rv_changed v)
      in (nv, v\<lparr>rv_running := fmupd key nv (rv_running v), rv_changed := changed\<rparr>))"

definition attributes_in :: "state \<Rightarrow> string \<Rightarrow> (string, go_int) fmap" where
  "attributes_in st aid =
     (case fmlookup (st_actors st) aid of None \<Rightarrow> fmempty | Some a \<Rightarrow> fmmap widen (actor_attributes a))"

definition resources_in :: "state \<Rightarrow> resolve_state \<Rightarrow> string \<Rightarrow> (string, go_int) fmap" where
  "resources_in st v aid =
     (case fmlookup (st_actors st) aid of
        None \<Rightarrow> fmempty
      | Some a \<Rightarrow> fmmap_keys (\<lambda>name _. current_resource st v aid name) (actor_resources a))"

definition context_in :: "state \<Rightarrow> resolve_state \<Rightarrow> string \<Rightarrow> eval_context" where
  "context_in st v aid = \<lparr>ec_attrs = attributes_in st aid, ec_resources = resources_in st v aid\<rparr>"

definition has_condition :: "state \<Rightarrow> resolve_state \<Rightarrow> string \<Rightarrow> string \<Rightarrow> bool" where
  "has_condition st v aid cid =
     (case fmlookup (rv_conditions v) aid of
        Some m \<Rightarrow> (case fmlookup m cid of
            Some b \<Rightarrow> b
          | None \<Rightarrow> list_ex (\<lambda>c. ac_id c = cid) (conditions_of st aid))
      | None \<Rightarrow> list_ex (\<lambda>c. ac_id c = cid) (conditions_of st aid))"

definition set_condition :: "string \<Rightarrow> string \<Rightarrow> bool \<Rightarrow> resolve_state \<Rightarrow> resolve_state" where
  "set_condition aid cid present v =
     v\<lparr>rv_conditions := fmupd aid (fmupd cid present
        (case fmlookup (rv_conditions v) aid of None \<Rightarrow> fmempty | Some m \<Rightarrow> m)) (rv_conditions v)\<rparr>"

subsection \<open>Envelopes\<close>

definition resource_changed_envelope :: "string \<Rightarrow> string \<Rightarrow> go_int \<Rightarrow> go_int \<Rightarrow> string \<Rightarrow> envelope" where
  "resource_changed_envelope aid name delta nv reason = payload_only (ResourceChanged
     \<lparr>rc_actor_id = aid, rc_resource = name, rc_delta = narrow delta, rc_new_value = narrow nv, rc_reason = reason\<rparr>)"

definition condition_applied_envelope :: "string \<Rightarrow> string \<Rightarrow> string \<Rightarrow> envelope" where
  "condition_applied_envelope aid cid src = payload_only (ConditionApplied
     \<lparr>ce_actor_id = aid, ce_condition_id = cid, ce_source = src\<rparr>)"

definition condition_removed_envelope :: "string \<Rightarrow> string \<Rightarrow> string \<Rightarrow> envelope" where
  "condition_removed_envelope aid cid reason = payload_only (ConditionRemoved
     \<lparr>ce_actor_id = aid, ce_condition_id = cid, ce_source = reason\<rparr>)"

definition int32_checked :: "resolve_error \<Rightarrow> go_int \<Rightarrow> resolve_error + int32" where
  "int32_checked err v =
     (if sint v < - 2147483648 \<or> 2147483647 < sint v then Inl err else Inr (narrow v))"

definition to_int32_slice :: "go_int list \<Rightarrow> int32 list" where
  "to_int32_slice vs = map narrow vs"

definition used_roll_of :: "string \<Rightarrow> go_int list \<Rightarrow> int32 \<Rightarrow> used_roll" where
  "used_roll_of src dice tot = \<lparr>ur_expression = src, ur_results = to_int32_slice dice, ur_total = tot\<rparr>"

subsection \<open>Outcomes\<close>

text \<open>One evaluation whose value goes on the wire: the value, the dice and the narrowed value.\<close>

definition wire_eval :: "eval_site \<Rightarrow> expr \<Rightarrow> eval_context \<Rightarrow> eval_context \<Rightarrow> 'r roller option \<Rightarrow> 'r
    \<Rightarrow> (resolve_error + go_int \<times> go_int list \<times> int32) \<times> 'r" where
  "wire_eval site e caster target roller r =
     (case eval_recording_scoped e caster target roller r of
        (Inl err, r') \<Rightarrow> (Inl (EvalFailed site err), r')
      | (Inr (v, dice), r') \<Rightarrow>
          (case int32_checked (OutsideInt32 site v) v of
             Inl err \<Rightarrow> (Inl err, r')
           | Inr v32 \<Rightarrow> (Inr (v, dice, v32), r')))"

definition apply_outcome :: "state \<Rightarrow> 'r roller option \<Rightarrow> string \<Rightarrow> string \<Rightarrow> string \<Rightarrow> outcome \<Rightarrow> resolve_state \<Rightarrow> 'r
    \<Rightarrow> (resolve_error + envelope list \<times> used_roll list \<times> resolve_state) \<times> 'r" where
  "apply_outcome st roller caster aid reason oc v r =
     (case oc of
        ResourceChangeOutcome name e src \<Rightarrow>
          if actor_resource st aid name = None then (Inl (NoResource aid name), r)
          else eval_bind (wire_eval (AtResourceChange name) e (context_in st v caster) (context_in st v aid) roller r)
            (\<lambda>(delta, dice, delta32) r1.
              let rolls = (if dice = [] then [] else [used_roll_of src dice delta32]);
                  (nv, v') = apply_delta st aid name delta v
              in case int32_checked (NewValueOutsideInt32 name nv) nv of
                   Inl err \<Rightarrow> (Inl err, r1)
                 | Inr _ \<Rightarrow> (Inr ([resource_changed_envelope aid name delta nv reason], rolls, v'), r1))
      | ApplyConditionOutcome cid \<Rightarrow>
          if has_condition st v aid cid then (Inr ([], [], v), r)
          else (Inr ([condition_applied_envelope aid cid reason], [], set_condition aid cid True v), r)
      | RemoveConditionOutcome cid \<Rightarrow>
          if has_condition st v aid cid
          then (Inr ([condition_removed_envelope aid cid reason], [], set_condition aid cid False v), r)
          else (Inr ([], [], v), r))"

fun apply_outcomes :: "state \<Rightarrow> 'r roller option \<Rightarrow> string \<Rightarrow> string \<Rightarrow> string \<Rightarrow> outcome list \<Rightarrow> resolve_state \<Rightarrow> 'r
    \<Rightarrow> (resolve_error + envelope list \<times> used_roll list \<times> resolve_state) \<times> 'r" where
  "apply_outcomes st roller caster aid reason [] v r = (Inr ([], [], v), r)"
| "apply_outcomes st roller caster aid reason (oc # ocs) v r =
     eval_bind (apply_outcome st roller caster aid reason oc v r) (\<lambda>(evs, rolls, v1) r1.
     eval_bind (apply_outcomes st roller caster aid reason ocs v1 r1) (\<lambda>(evs', rolls', v2) r2.
       (Inr (evs @ evs', rolls @ rolls', v2), r2)))"

subsection \<open>Thresholds\<close>

definition resource_defs :: "ruleset \<Rightarrow> (string, resource_def) fmap" where
  "resource_defs rs =
     fold (\<lambda>p m. case pr_resource p of None \<Rightarrow> m | Some d \<Rightarrow> fmupd (pr_key p) d m) (rs_properties rs) fmempty"

definition apply_threshold :: "state \<Rightarrow> string \<Rightarrow> string \<Rightarrow> threshold \<Rightarrow> go_int \<Rightarrow> resolve_state \<Rightarrow> envelope list \<times> resolve_state" where
  "apply_threshold st aid reason th n v =
     (let cid = th_apply th in
      if n \<noteq> 0 then
        (if has_condition st v aid cid then ([], v)
         else ([condition_applied_envelope aid cid reason], set_condition aid cid True v))
      else if th_remove_when_false th then
        (if has_condition st v aid cid
         then ([condition_removed_envelope aid cid reason], set_condition aid cid False v)
         else ([], v))
      else ([], v))"

fun eval_thresholds_of :: "state \<Rightarrow> 'r roller option \<Rightarrow> string \<Rightarrow> string \<Rightarrow> eval_context \<Rightarrow> nat \<Rightarrow> threshold list
    \<Rightarrow> resolve_state \<Rightarrow> 'r \<Rightarrow> (resolve_error + envelope list \<times> resolve_state) \<times> 'r" where
  "eval_thresholds_of st roller aid name ctx j [] v r = (Inr ([], v), r)"
| "eval_thresholds_of st roller aid name ctx j (th # ths) v r =
     (case eval_single (th_when th) (ec_attrs ctx) (ec_resources ctx) roller r of
        (Inl err, r1) \<Rightarrow> (Inl (ThresholdFailed j name err), r1)
      | (Inr n, r1) \<Rightarrow>
          (case apply_threshold st aid (''threshold:'' @ name) th n v of
             (evs, v1) \<Rightarrow>
               eval_bind (eval_thresholds_of st roller aid name ctx (Suc j) ths v1 r1)
                 (\<lambda>(evs', v2) r2. (Inr (evs @ evs', v2), r2))))"

fun eval_thresholds :: "state \<Rightarrow> 'r roller option \<Rightarrow> (string, resource_def) fmap \<Rightarrow> (string \<times> string) list
    \<Rightarrow> resolve_state \<Rightarrow> 'r \<Rightarrow> (resolve_error + envelope list \<times> resolve_state) \<times> 'r" where
  "eval_thresholds st roller defs [] v r = (Inr ([], v), r)"
| "eval_thresholds st roller defs ((aid, name) # rest) v r =
     (case fmlookup defs name of
        None \<Rightarrow> eval_thresholds st roller defs rest v r
      | Some d \<Rightarrow>
          eval_bind (eval_thresholds_of st roller aid name (context_in st v aid) 0 (rd_thresholds d) v r)
            (\<lambda>(evs, v1) r1. eval_bind (eval_thresholds st roller defs rest v1 r1)
              (\<lambda>(evs', v2) r2. (Inr (evs @ evs', v2), r2))))"

subsection \<open>Checks before anything is rolled\<close>

fun check_targets :: "state \<Rightarrow> string list \<Rightarrow> string list \<Rightarrow> resolve_error option" where
  "check_targets st seen [] = None"
| "check_targets st seen (tid # tids) =
     (if tid \<in> set seen then Some (DuplicateTarget tid)
      else if fmlookup (st_actors st) tid = None then Some (UnknownTarget tid)
      else check_targets st (tid # seen) tids)"

definition has_attribute :: "state \<Rightarrow> string \<Rightarrow> string \<Rightarrow> bool" where
  "has_attribute st aid name =
     (case fmlookup (st_actors st) aid of None \<Rightarrow> False | Some a \<Rightarrow> fmlookup (actor_attributes a) name \<noteq> None)"

fun check_scoped_refs :: "state \<Rightarrow> string \<Rightarrow> string list \<Rightarrow> scoped_ref list \<Rightarrow> resolve_error option" where
  "check_scoped_refs st caster tids [] = None"
| "check_scoped_refs st caster tids (rf # refs) =
     (let rest = check_scoped_refs st caster tids refs in
      if sr_sigil rf \<noteq> CHR ''@'' then rest
      else (case sr_scope rf of
              ScopeCaster \<Rightarrow>
                if has_attribute st caster (sr_name rf) then rest else Some (MissingAttribute caster (sr_name rf))
            | ScopeTarget \<Rightarrow>
                (case find (\<lambda>tid. \<not> has_attribute st tid (sr_name rf)) tids of
                   None \<Rightarrow> rest | Some tid \<Rightarrow> Some (MissingDefense tid (sr_name rf)))
            | ScopeNone \<Rightarrow> rest))"

definition check_resolution_refs :: "state \<Rightarrow> string \<Rightarrow> string list \<Rightarrow> compiled_power \<Rightarrow> resolve_error option" where
  "check_resolution_refs st caster tids ability =
     (case cp_resolution ability of
        None \<Rightarrow> None
      | Some cr \<Rightarrow>
          (case check_scoped_refs st caster tids (expr_scoped_refs (cr_roll cr)) of
             Some err \<Rightarrow> Some err
           | None \<Rightarrow> check_scoped_refs st caster tids (expr_scoped_refs (cr_vs cr))))"

definition check_usage :: "state \<Rightarrow> string \<Rightarrow> compiled_power \<Rightarrow> resolve_error option" where
  "check_usage st caster ability =
     (case us_limited (cp_usage ability) of
        None \<Rightarrow> None
      | Some lu \<Rightarrow>
          (case actor_resource st caster (lu_resource lu) of
             None \<Rightarrow> Some (NoUsageResource caster (lu_resource lu))
           | Some res \<Rightarrow>
               if sint (widen (res_current res)) < sint (lu_cost lu)
               then Some (InsufficientResource caster (lu_resource lu) (res_current res) (lu_cost lu))
               else None))"

text \<open>The empty scene id stands for any scene.\<close>

definition find_token :: "state \<Rightarrow> string \<Rightarrow> string \<Rightarrow> token option" where
  "find_token st aid sid =
     (case filter (\<lambda>k. case fmlookup (st_tokens st) k of
             None \<Rightarrow> False
           | Some t \<Rightarrow> tok_actor_id t = aid \<and> (sid = [] \<or> tok_scene_id t = sid)) (keys (st_tokens st)) of
        [] \<Rightarrow> None
      | k # ks \<Rightarrow> fmlookup (st_tokens st) k)"

definition chebyshev_distance :: "token \<Rightarrow> token \<Rightarrow> go_int" where
  "chebyshev_distance a b =
     (let dx = widen (tok_x a) - widen (tok_x b);
          dx = (if sint dx < 0 then - dx else dx);
          dy = widen (tok_y a) - widen (tok_y b);
          dy = (if sint dy < 0 then - dy else dy)
      in if sint dy < sint dx then dx else dy)"

fun check_range :: "state \<Rightarrow> token \<Rightarrow> go_int \<Rightarrow> string list \<Rightarrow> resolve_error option" where
  "check_range st ct rng [] = None"
| "check_range st ct rng (tid # tids) =
     (case find_token st tid (tok_scene_id ct) of
        None \<Rightarrow> Some (NoTargetToken tid (tok_scene_id ct))
      | Some tok \<Rightarrow>
          let d = chebyshev_distance ct tok in
          if sint rng < sint d then Some (OutOfRange tid d rng) else check_range st ct rng tids)"

definition check_ranges :: "state \<Rightarrow> string \<Rightarrow> go_int \<Rightarrow> string list \<Rightarrow> resolve_error option" where
  "check_ranges st caster rng tids =
     (case find_token st caster [] of
        None \<Rightarrow> Some (NoCasterToken caster)
      | Some ct \<Rightarrow> check_range st ct rng tids)"

text \<open>The checks in the order the code makes them; the first that fails is the error.\<close>

definition resolve_checks :: "ruleset \<Rightarrow> state \<Rightarrow> use_ability \<Rightarrow> resolve_error + compiled_power" where
  "resolve_checks rs st cmd =
     (let caster = ua_actor_id cmd; tids = ua_target_ids cmd in
      case fmlookup (rs_compiled rs) (ua_ability_id cmd) of
        None \<Rightarrow> Inl (UnknownAbility (ua_ability_id cmd))
      | Some ability \<Rightarrow>
          if fmlookup (st_actors st) caster = None then Inl (UnknownCaster caster)
          else if length tids = 0 then Inl (NoTargets (cp_id ability))
          else if sint (tg_max_targets (cp_targeting ability)) < int (length tids)
          then Inl (TooManyTargets (cp_id ability) (tg_max_targets (cp_targeting ability)) (length tids))
          else case check_targets st [] tids of
            Some err \<Rightarrow> Inl err
          | None \<Rightarrow> (case check_resolution_refs st caster tids ability of
            Some err \<Rightarrow> Inl err
          | None \<Rightarrow> (case check_usage st caster ability of
            Some err \<Rightarrow> Inl err
          | None \<Rightarrow> (case check_ranges st caster (tg_range (cp_targeting ability)) tids of
            Some err \<Rightarrow> Inl err
          | None \<Rightarrow> Inr ability))))"

subsection \<open>Resolving\<close>

text \<open>What one call has gathered: its events, recorded rolls, summary and structured outcomes.\<close>

record gathered =
  ga_events :: "envelope list"
  ga_rolls :: "used_roll list"
  ga_summary :: "string list"
  ga_outcomes :: "used_outcome list"

definition no_gathered :: gathered where
  "no_gathered = \<lparr>ga_events = [], ga_rolls = [], ga_summary = [], ga_outcomes = []\<rparr>"

definition gather :: "gathered \<Rightarrow> gathered \<Rightarrow> gathered" where
  "gather a b = \<lparr>ga_events = ga_events a @ ga_events b, ga_rolls = ga_rolls a @ ga_rolls b,
     ga_summary = ga_summary a @ ga_summary b, ga_outcomes = ga_outcomes a @ ga_outcomes b\<rparr>"

definition ability_reason :: "string \<Rightarrow> string \<Rightarrow> string" where
  "ability_reason aid phase = ''ability:'' @ aid @ '':'' @ phase"

definition spend_usage :: "state \<Rightarrow> string \<Rightarrow> compiled_power \<Rightarrow> envelope list \<times> resolve_state" where
  "spend_usage st caster ability =
     (case us_limited (cp_usage ability) of
        None \<Rightarrow> ([], resolve_start)
      | Some lu \<Rightarrow>
          let (nv, v) = apply_delta st caster (lu_resource lu) (- lu_cost lu) resolve_start
          in ([resource_changed_envelope caster (lu_resource lu) (- lu_cost lu) nv
                (ability_reason (cp_id ability) ''usage'')], v))"

definition resolve_roll :: "state \<Rightarrow> 'r roller option \<Rightarrow> string \<Rightarrow> compiled_power \<Rightarrow> compiled_resolution \<Rightarrow> string
    \<Rightarrow> resolve_state \<Rightarrow> 'r \<Rightarrow> (resolve_error + gathered \<times> resolve_state) \<times> 'r" where
  "resolve_roll st roller caster ability cr tid v r =
     (let cctx = context_in st v caster; tctx = context_in st v tid in
      eval_bind (wire_eval AtRoll (cr_roll cr) cctx tctx roller r) (\<lambda>(roll, dice, roll32) r1.
      eval_bind (wire_eval AtVs (cr_vs cr) cctx tctx roller r1) (\<lambda>(vs, vs_dice, vs32) r2.
        let hit = (sint vs \<le> sint roll);
            ocs = (if hit then fst (cp_branch_outcomes ability) else snd (cp_branch_outcomes ability));
            word = (if hit then fst (cr_branches cr) else snd (cr_branches cr));
            rolls = used_roll_of (cr_roll_src cr) dice roll32 #
                      (if vs_dice = [] then [] else [used_roll_of (cr_vs_src cr) vs_dice vs32]);
            summary = cp_name ability @ '' on '' @ tid @ '': '' @ word @ '' ('' @ show_int (sint roll) @
                        '' vs '' @ show_int (sint vs) @ '')''
        in eval_bind (apply_outcomes st roller caster tid (ability_reason (cp_id ability) word) ocs v r2)
             (\<lambda>(evs, ev_rolls, v1) r3.
               (Inr (\<lparr>ga_events = evs, ga_rolls = rolls @ ev_rolls, ga_summary = [summary],
                      ga_outcomes = [\<lparr>uo_target_id = tid, uo_result = word, uo_total = roll32\<rparr>]\<rparr>, v1), r3)))))"

definition resolve_target :: "state \<Rightarrow> 'r roller option \<Rightarrow> string \<Rightarrow> compiled_power \<Rightarrow> string
    \<Rightarrow> resolve_state \<Rightarrow> 'r \<Rightarrow> (resolve_error + gathered \<times> resolve_state) \<times> 'r" where
  "resolve_target st roller caster ability tid v r =
     eval_bind (case cp_resolution ability of
         None \<Rightarrow> (Inr (no_gathered, v), r)
       | Some cr \<Rightarrow> resolve_roll st roller caster ability cr tid v r) (\<lambda>(g1, v1) r1.
     eval_bind (apply_outcomes st roller caster tid (ability_reason (cp_id ability) ''effect'') (cp_effects ability) v1 r1)
       (\<lambda>(evs, rolls, v2) r2.
         (Inr (gather g1 \<lparr>ga_events = evs, ga_rolls = rolls,
            ga_summary = (if cp_resolution ability = None then [cp_name ability @ '' on '' @ tid] else []),
            ga_outcomes = []\<rparr>, v2), r2)))"

fun resolve_targets :: "state \<Rightarrow> 'r roller option \<Rightarrow> string \<Rightarrow> compiled_power \<Rightarrow> string list
    \<Rightarrow> resolve_state \<Rightarrow> 'r \<Rightarrow> (resolve_error + gathered \<times> resolve_state) \<times> 'r" where
  "resolve_targets st roller caster ability [] v r = (Inr (no_gathered, v), r)"
| "resolve_targets st roller caster ability (tid # tids) v r =
     eval_bind (resolve_target st roller caster ability tid v r) (\<lambda>(g, v1) r1.
     eval_bind (resolve_targets st roller caster ability tids v1 r1) (\<lambda>(g', v2) r2.
       (Inr (gather g g', v2), r2)))"

fun join_strings :: "string \<Rightarrow> string list \<Rightarrow> string" where
  "join_strings sep [] = []"
| "join_strings sep [x] = x"
| "join_strings sep (x # y # ys) = x @ sep @ join_strings sep (y # ys)"

definition resolve :: "ruleset \<Rightarrow> state \<Rightarrow> use_ability \<Rightarrow> 'r roller option \<Rightarrow> 'r \<Rightarrow> (resolve_error + envelope list) \<times> 'r" where
  "resolve rs st cmd roller r =
     (case resolve_checks rs st cmd of
        Inl err \<Rightarrow> (Inl err, r)
      | Inr ability \<Rightarrow>
          (let (spent, v) = spend_usage st (ua_actor_id cmd) ability in
           eval_bind (resolve_targets st roller (ua_actor_id cmd) ability (ua_target_ids cmd) v r) (\<lambda>(g, v1) r1.
           eval_bind (eval_thresholds st roller (resource_defs rs) (rv_changed v1) v1 r1) (\<lambda>(evs, v2) r2.
             (Inr (payload_only (AbilityUsed
                  \<lparr>au_actor_id = ua_actor_id cmd, au_ability_id = cp_id ability, au_target_ids = ua_target_ids cmd,
                   au_rolls = ga_rolls g, au_outcome_summary = join_strings ''; '' (ga_summary g),
                   au_outcomes = ga_outcomes g\<rparr>) # spent @ ga_events g @ evs), r2)))))"

end
