(* ===== verification/Resolve_Props.thy ===== *)
theory Resolve_Props
  imports Resolve Engine_Props
begin

text \<open>
  What \<open>internal/rules/resolve.go\<close> emits, \<open>internal/engine\<close> folds: the running values and
  conditions of a call stay those of the state its events so far lead to, so every event of the
  batch is accepted, in order. And what a call that succeeds has checked.
\<close>

subsection \<open>Running values track the fold\<close>

definition known :: "state \<Rightarrow> string \<Rightarrow> bool" where
  "known st aid = (fmlookup (st_actors st) aid \<noteq> None)"

definition within_bounds :: "state \<Rightarrow> resolve_state \<Rightarrow> bool" where
  "within_bounds st v = (\<forall>aid n k. fmlookup (rv_running v) (aid, n) = Some k \<longrightarrow>
     (\<exists>res. actor_resource st aid n = Some res \<and> 0 \<le> sint k \<and>
        (0 < sint (res_max res) \<longrightarrow> sint k \<le> sint (res_max res))))"

definition tracks :: "state \<Rightarrow> resolve_state \<Rightarrow> state \<Rightarrow> bool" where
  "tracks st v stk =
     ((\<forall>aid. known stk aid = known st aid) \<and>
      (\<forall>aid n. map_option res_max (actor_resource stk aid n) = map_option res_max (actor_resource st aid n)) \<and>
      (\<forall>aid n res. actor_resource stk aid n = Some res \<longrightarrow> widen (res_current res) = current_resource st v aid n) \<and>
      (\<forall>aid cid. has_condition st v aid cid = (cid \<in> ac_id ` set (conditions_of stk aid))) \<and>
      (\<forall>aid. distinct (map ac_id (conditions_of stk aid))) \<and>
      (\<forall>key \<in> set (rv_changed v). known st (fst key)) \<and>
      within_bounds st v)"

lemma tracks_start:
  assumes "wf_state st"
  shows "tracks st resolve_start st"
proof -
  have "distinct (map ac_id (conditions_of st aid))" for aid
    using wf_stateD(4)[OF assms, of aid]
    by (auto simp: conditions_of_def wf_conditions_def split: option.split)
  then show ?thesis
    by (auto simp: tracks_def resolve_start_def current_resource_def has_condition_def list_ex_iff
        within_bounds_def)
qed

lemma widen_narrow [simp]:
  "- 2147483648 \<le> sint x \<Longrightarrow> sint x < 2147483648 \<Longrightarrow> widen (narrow x) = x"
  by (rule sint_inject[THEN iffD1]) (simp add: sint_narrow)

lemma widen_inject [simp]: "widen a = widen b \<longleftrightarrow> a = b"
  by (metis narrow_widen)

lemma current_resource_delta:
  "apply_delta st aid n delta v = (nv, v') \<Longrightarrow>
     current_resource st v' b m = (if b = aid \<and> m = n then nv else current_resource st v b m)"
  by (auto simp: apply_delta_def Let_def current_resource_def)

lemma apply_delta_conditions:
  "apply_delta st aid n delta v = (nv, v') \<Longrightarrow> rv_conditions v' = rv_conditions v"
  by (auto simp: apply_delta_def Let_def)

lemma apply_delta_changed:
  "apply_delta st aid n delta v = (nv, v') \<Longrightarrow> set (rv_changed v') \<subseteq> insert (aid, n) (set (rv_changed v))"
  by (auto simp: apply_delta_def Let_def split: if_splits)

lemma apply_delta_running:
  "apply_delta st aid n delta v = (nv, v') \<Longrightarrow> rv_running v' = fmupd (aid, n) nv (rv_running v)"
  by (auto simp: apply_delta_def Let_def)

lemma apply_delta_bounds:
  assumes "apply_delta st aid n delta v = (nv, v')" and "actor_resource st aid n = Some res"
  shows "0 \<le> sint nv" and "0 < sint (res_max res) \<Longrightarrow> sint nv \<le> sint (res_max res)"
  using assms by (auto simp: apply_delta_def Let_def max_resource_def split: if_splits)

text \<open>The clamp of \<open>applyDelta\<close> is the clamp the fold recomputes.\<close>

lemma apply_delta_clamped:
  assumes "apply_delta st aid n delta v = (nv, v')"
    and "map_option res_max (Some res) = map_option res_max (actor_resource st aid n)"
    and "widen (res_current res) = current_resource st v aid n"
    and "- 2147483648 \<le> sint delta" "sint delta < 2147483648"
  shows "clamped_value res (narrow delta) = nv"
  using assms by (auto simp: apply_delta_def clamped_value_def Let_def max_resource_def split: option.splits)

lemma tracks_resource:
  assumes tr: "tracks st v stk" and res: "actor_resource st aid n = Some res0"
    and delta: "apply_delta st aid n delta v = (nv, v')"
    and range: "- 2147483648 \<le> sint delta" "sint delta < 2147483648" "sint nv < 2147483648"
  shows "\<exists>stk'. apply_event stk (resource_changed_envelope aid n delta nv reason) = Inr stk' \<and> tracks st v' stk'"
proof -
  obtain res where res': "actor_resource stk aid n = Some res" "res_max res = res_max res0"
    using tr res by (metis (no_types, lifting) map_option_eq_Some option.simps(9) tracks_def)
  then obtain a where a: "fmlookup (st_actors stk) aid = Some a" "fmlookup (actor_resources a) n = Some res"
    by (auto simp: actor_resource_def split: option.splits)
  have cur: "widen (res_current res) = current_resource st v aid n" using tr res'(1) by (simp add: tracks_def)
  have nonneg: "0 \<le> sint nv" using apply_delta_bounds(1)[OF delta res] .
  then have nv: "widen (narrow nv) = nv" using range(3) by simp
  have clamp: "clamped_value res (narrow delta) = nv"
    using apply_delta_clamped[OF delta _ cur range(1,2)] res res'(2) by simp
  define a' where "a' = a\<lparr>actor_resources := fmupd n \<lparr>res_current = narrow nv, res_max = res_max res\<rparr> (actor_resources a)\<rparr>"
  have step: "apply_event stk (resource_changed_envelope aid n delta nv reason) = Inr (put_actor stk aid a')"
    using a clamp nv
    by (simp add: apply_event_def apply_payload_def apply_resource_changed_def resource_changed_envelope_def
        a'_def Let_def)
  have look: "actor_resource (put_actor stk aid a') b m =
      (if b = aid \<and> m = n then Some \<lparr>res_current = narrow nv, res_max = res_max res\<rparr> else actor_resource stk b m)" for b m
    using a by (auto simp: actor_resource_def put_actor_def a'_def)
  have kn: "known (put_actor stk aid a') b = known stk b" for b
    using a by (auto simp: known_def put_actor_def)
  have cond: "conditions_of (put_actor stk aid a') b = conditions_of stk b" for b
    by (simp add: conditions_of_def put_actor_def)
  have hc: "has_condition st v' b c = has_condition st v b c" for b c
    using apply_delta_conditions[OF delta] by (simp add: has_condition_def)
  have known_aid: "known st aid" using tr a by (auto simp: tracks_def known_def)
  have "within_bounds st v'"
    using tr apply_delta_bounds[OF delta res] res apply_delta_running[OF delta]
    by (auto simp: within_bounds_def tracks_def)
  then have "tracks st v' (put_actor stk aid a')"
    using tr apply_delta_changed[OF delta] known_aid nv res res'(2)
    by (auto simp: tracks_def look kn cond hc current_resource_delta[OF delta])
  with step show ?thesis by blast
qed

lemma has_condition_set:
  "has_condition st (set_condition aid cid b v) aid' cid' =
     (if aid' = aid \<and> cid' = cid then b else has_condition st v aid' cid')"
  by (auto simp: has_condition_def set_condition_def split: option.splits)

lemma set_condition_simps [simp]:
  "rv_running (set_condition aid cid b v) = rv_running v"
  "rv_changed (set_condition aid cid b v) = rv_changed v"
  "current_resource st (set_condition aid cid b v) a n = current_resource st v a n"
  "within_bounds st (set_condition aid cid b v) = within_bounds st v"
  by (simp_all add: set_condition_def current_resource_def within_bounds_def)

lemma known_conditions [simp]:
  "known (st\<lparr>st_conditions := cs\<rparr>) aid = known st aid"
  "actor_resource (st\<lparr>st_conditions := cs\<rparr>) aid n = actor_resource st aid n"
  by (simp_all add: known_def actor_resource_def)

lemma conditions_of_upd [simp]:
  "conditions_of (st\<lparr>st_conditions := fmupd aid cs (st_conditions st)\<rparr>) b =
     (if b = aid then cs else conditions_of st b)"
  by (simp add: conditions_of_def)

lemma tracks_applied:
  assumes tr: "tracks st v stk" and "known st aid" and "\<not> bad_id cid" and "\<not> has_condition st v aid cid"
  shows "\<exists>stk'. apply_event stk (condition_applied_envelope aid cid src) = Inr stk' \<and>
    tracks st (set_condition aid cid True v) stk'"
proof -
  let ?cs = "conditions_of stk aid @ [\<lparr>ac_id = cid, ac_source = src, ac_applied_seq = 0\<rparr>]"
  let ?stk = "stk\<lparr>st_conditions := fmupd aid ?cs (st_conditions stk)\<rparr>"
  have absent: "cid \<notin> ac_id ` set (conditions_of stk aid)" and kn: "known stk aid"
    using assms by (auto simp: tracks_def)
  then have "apply_event stk (condition_applied_envelope aid cid src) = Inr ?stk"
    using assms(3) by (simp add: apply_event_def apply_payload_def apply_condition_applied_def
        condition_applied_envelope_def known_def)
  moreover have "tracks st (set_condition aid cid True v) ?stk"
    using tr absent by (auto simp: tracks_def has_condition_set)
  ultimately show ?thesis by blast
qed

lemma remove_first_ids:
  assumes "distinct (map ac_id cs)" and "cid \<in> ac_id ` set cs"
  shows "\<exists>cs'. remove_first_condition cid cs = Some cs' \<and> distinct (map ac_id cs') \<and>
    ac_id ` set cs' = ac_id ` set cs - {cid}"
  using assms
proof (induction cs)
  case (Cons c cs)
  show ?case
  proof (cases "ac_id c = cid")
    case True
    with Cons.prems show ?thesis by auto
  next
    case False
    with Cons obtain cs' where "remove_first_condition cid cs = Some cs'" "distinct (map ac_id cs')"
      "ac_id ` set cs' = ac_id ` set cs - {cid}" by auto
    moreover from this have "ac_id c \<notin> ac_id ` set cs'" using Cons.prems by auto
    ultimately show ?thesis using False by auto
  qed
qed simp

lemma tracks_removed:
  assumes tr: "tracks st v stk" and "known st aid" and "has_condition st v aid cid"
  shows "\<exists>stk'. apply_event stk (condition_removed_envelope aid cid src) = Inr stk' \<and>
    tracks st (set_condition aid cid False v) stk'"
proof -
  have present: "cid \<in> ac_id ` set (conditions_of stk aid)" and kn: "known stk aid"
    and dist: "distinct (map ac_id (conditions_of stk aid))"
    using assms by (auto simp: tracks_def)
  from remove_first_ids[OF dist present] obtain cs' where
    cs': "remove_first_condition cid (conditions_of stk aid) = Some cs'" "distinct (map ac_id cs')"
      "ac_id ` set cs' = ac_id ` set (conditions_of stk aid) - {cid}" by blast
  let ?stk = "stk\<lparr>st_conditions := fmupd aid cs' (st_conditions stk)\<rparr>"
  have "apply_event stk (condition_removed_envelope aid cid src) = Inr ?stk"
    using kn cs'(1) by (simp add: apply_event_def apply_payload_def apply_condition_removed_def
        condition_removed_envelope_def known_def)
  moreover have "tracks st (set_condition aid cid False v) ?stk"
    using tr cs'(2,3) by (auto simp: tracks_def has_condition_set)
  ultimately show ?thesis by blast
qed

subsection \<open>Batches\<close>

text \<open>A batch that takes the tracked state along.\<close>

definition carries :: "state \<Rightarrow> resolve_state \<Rightarrow> envelope list \<Rightarrow> resolve_state \<Rightarrow> bool" where
  "carries st v evs v' = (\<forall>stk. tracks st v stk \<longrightarrow> (\<exists>stk'. apply_events stk evs = Inr stk' \<and> tracks st v' stk'))"

lemma carries_Nil [simp]: "carries st v [] v"
  by (simp add: carries_def apply_events_def)

lemma carries_append: "carries st v evs v1 \<Longrightarrow> carries st v1 evs' v2 \<Longrightarrow> carries st v (evs @ evs') v2"
  unfolding carries_def apply_events_def fold_res_append by (metis sum_bind.simps(2))

lemma carries_single:
  "(\<And>stk. tracks st v stk \<Longrightarrow> \<exists>stk'. apply_event stk ev = Inr stk' \<and> tracks st v' stk') \<Longrightarrow> carries st v [ev] v'"
  by (simp add: carries_def apply_events_def)

fun outcome_ok :: "outcome \<Rightarrow> bool" where
  "outcome_ok (ResourceChangeOutcome name e src) = True"
| "outcome_ok (ApplyConditionOutcome cid) = (\<not> bad_id cid)"
| "outcome_ok (RemoveConditionOutcome cid) = (\<not> bad_id cid)"

lemma int32_checked_Inr [simp]:
  "int32_checked err v = Inr w \<longleftrightarrow> - 2147483648 \<le> sint v \<and> sint v < 2147483648 \<and> w = narrow v"
  by (auto simp: int32_checked_def)

lemma wire_eval_range:
  "wire_eval site e c t roller r = (Inr (v, dice, v32), r') \<Longrightarrow>
     - 2147483648 \<le> sint v \<and> sint v < 2147483648 \<and> v32 = narrow v"
  by (auto simp: wire_eval_def split: prod.splits sum.splits)

lemma resource_outcomeE:
  assumes "apply_outcome st roller caster aid reason (ResourceChangeOutcome name e src) v r = (Inr (evs, rolls, v'), r')"
  obtains delta dice delta32 nv res where
    "actor_resource st aid name = Some res"
    "wire_eval (AtResourceChange name) e (context_in st v caster) (context_in st v aid) roller r =
        (Inr (delta, dice, delta32), r')"
    "apply_delta st aid name delta v = (nv, v')" "sint nv < 2147483648"
    "evs = [resource_changed_envelope aid name delta nv reason]"
proof -
  let ?site = "AtResourceChange name" and ?c = "context_in st v caster" and ?t = "context_in st v aid"
  from assms obtain res where res: "actor_resource st aid name = Some res"
    by (cases "actor_resource st aid name") (simp_all add: apply_outcome_def)
  with assms obtain x r1 where x: "wire_eval ?site e ?c ?t roller r = (Inr x, r1)"
    and rest: "(case x of (delta, dice, delta32) \<Rightarrow> \<lambda>r1.
        let rolls = (if dice = [] then [] else [used_roll_of src dice delta32]);
            (nv, v') = apply_delta st aid name delta v
        in case int32_checked (NewValueOutsideInt32 name nv) nv of
             Inl err \<Rightarrow> (Inl err, r1)
           | Inr _ \<Rightarrow> (Inr ([resource_changed_envelope aid name delta nv reason], rolls, v'), r1)) r1 =
      (Inr (evs, rolls, v'), r')"
    unfolding apply_outcome_def outcome.case eval_bind_eq_Inr by auto
  obtain delta dice delta32 where x': "x = (delta, dice, delta32)" by (cases x) auto
  obtain nv v1 where nv: "apply_delta st aid name delta v = (nv, v1)" by fastforce
  have ck: "int32_checked (NewValueOutsideInt32 name nv) nv = Inr (narrow nv)"
    using rest x' nv by (auto simp: Let_def int32_checked_def split: if_splits)
  then have "r1 = r'" "v1 = v'" "evs = [resource_changed_envelope aid name delta nv reason]"
    using rest x' nv by (simp_all add: Let_def split: sum.splits)
  with res x x' nv ck show thesis by (intro that) auto
qed

lemma apply_outcome_carries:
  assumes "known st aid" and "outcome_ok oc"
    and "apply_outcome st roller caster aid reason oc v r = (Inr (evs, rolls, v'), r')"
  shows "carries st v evs v'"
proof (cases oc)
  case (ResourceChangeOutcome name e src)
  from resource_outcomeE[OF assms(3)[unfolded ResourceChangeOutcome]] obtain delta dice delta32 nv res where
    res: "actor_resource st aid name = Some res"
    and ev: "wire_eval (AtResourceChange name) e (context_in st v caster) (context_in st v aid) roller r =
        (Inr (delta, dice, delta32), r')"
    and nv: "apply_delta st aid name delta v = (nv, v')" "sint nv < 2147483648"
    and evs: "evs = [resource_changed_envelope aid name delta nv reason]" by metis
  have range: "- 2147483648 \<le> sint delta" "sint delta < 2147483648" using wire_eval_range[OF ev] by auto
  show ?thesis
    unfolding evs by (rule carries_single) (rule tracks_resource[OF _ res nv(1) range nv(2)])
next
  case (ApplyConditionOutcome cid)
  with assms show ?thesis
    by (auto simp: apply_outcome_def split: if_splits intro!: carries_single tracks_applied)
next
  case (RemoveConditionOutcome cid)
  with assms show ?thesis
    by (auto simp: apply_outcome_def split: if_splits intro!: carries_single tracks_removed)
qed

lemma apply_outcomes_carries:
  assumes "known st aid" and "list_all outcome_ok ocs"
    and "apply_outcomes st roller caster aid reason ocs v r = (Inr (evs, rolls, v'), r')"
  shows "carries st v evs v'"
  using assms(2,3)
proof (induction ocs arbitrary: v r evs rolls v')
  case (Cons oc ocs)
  obtain evs1 rolls1 v1 r1 evs2 rolls2 where
    step: "apply_outcome st roller caster aid reason oc v r = (Inr (evs1, rolls1, v1), r1)"
      "apply_outcomes st roller caster aid reason ocs v1 r1 = (Inr (evs2, rolls2, v'), r')" "evs = evs1 @ evs2"
    using Cons.prems(2) by auto
  have "carries st v evs1 v1"
    by (rule apply_outcome_carries[OF assms(1) _ step(1)]) (use Cons.prems(1) in simp)
  moreover have "carries st v1 evs2 v'" by (rule Cons.IH[OF _ step(2)]) (use Cons.prems(1) in simp)
  ultimately show ?case unfolding step(3) by (rule carries_append)
qed simp

subsection \<open>Thresholds and targets\<close>

definition threshold_ok :: "threshold \<Rightarrow> bool" where
  "threshold_ok th = (\<not> bad_id (th_apply th))"

definition power_ok :: "compiled_power \<Rightarrow> bool" where
  "power_ok cp =
     (\<not> bad_id (cp_id cp) \<and> list_all outcome_ok (fst (cp_branch_outcomes cp)) \<and>
      list_all outcome_ok (snd (cp_branch_outcomes cp)) \<and> list_all outcome_ok (cp_effects cp) \<and>
      (\<forall>lu. us_limited (cp_usage cp) = Some lu \<longrightarrow> 0 \<le> sint (lu_cost lu)))"

text \<open>What \<open>load.go\<close> promises of a ruleset: ids of 1 to 128 bytes and no negative cost.\<close>

definition ruleset_ok :: "ruleset \<Rightarrow> bool" where
  "ruleset_ok rs =
     ((\<forall>k cp. fmlookup (rs_compiled rs) k = Some cp \<longrightarrow> power_ok cp) \<and>
      (\<forall>p \<in> set (rs_properties rs). \<forall>d. pr_resource p = Some d \<longrightarrow> list_all threshold_ok (rd_thresholds d)))"

lemma resource_defs_Some:
  assumes "fmlookup (resource_defs rs) name = Some d"
  shows "\<exists>p \<in> set (rs_properties rs). pr_resource p = Some d"
proof -
  have "fmlookup (fold (\<lambda>p m. case pr_resource p of None \<Rightarrow> m | Some d \<Rightarrow> fmupd (pr_key p) d m) ps m) name = Some d \<Longrightarrow>
      (\<exists>p \<in> set ps. pr_resource p = Some d) \<or> fmlookup m name = Some d" for ps m
    by (induction ps arbitrary: m) (fastforce split: option.splits if_splits)+
  from this[of "rs_properties rs" fmempty] assms show ?thesis by (simp add: resource_defs_def)
qed

lemma apply_threshold_carries:
  assumes "known st aid" and "threshold_ok th" and "apply_threshold st aid reason th n v = (evs, v')"
  shows "carries st v evs v'"
  using assms
  by (auto simp: apply_threshold_def Let_def threshold_ok_def split: if_splits
      intro!: carries_single tracks_applied tracks_removed)

lemma eval_thresholds_of_carries:
  assumes "known st aid" and "list_all threshold_ok ths"
    and "eval_thresholds_of st roller aid name ctx j ths v r = (Inr (evs, v'), r')"
  shows "carries st v evs v'"
  using assms(2,3)
proof (induction ths arbitrary: j v r evs)
  case (Cons th ths)
  obtain n r1 where ev: "eval_single (th_when th) (ec_attrs ctx) (ec_resources ctx) roller r = (Inr n, r1)"
    using Cons.prems(2) by (auto split: prod.splits sum.splits)
  obtain evs1 v1 where th: "apply_threshold st aid (''threshold:'' @ name) th n v = (evs1, v1)" by fastforce
  obtain evs2 where rest: "eval_thresholds_of st roller aid name ctx (Suc j) ths v1 r1 = (Inr (evs2, v'), r')"
    "evs = evs1 @ evs2"
    using Cons.prems(2) ev th by auto
  have "carries st v evs1 v1"
    by (rule apply_threshold_carries[OF assms(1) _ th]) (use Cons.prems(1) in simp)
  moreover have "carries st v1 evs2 v'" by (rule Cons.IH[OF _ rest(1)]) (use Cons.prems(1) in simp)
  ultimately show ?case unfolding rest(2) by (rule carries_append)
qed simp

lemma eval_thresholds_carries:
  assumes "\<forall>key \<in> set ks. known st (fst key)"
    and "\<forall>name d. fmlookup defs name = Some d \<longrightarrow> list_all threshold_ok (rd_thresholds d)"
    and "eval_thresholds st roller defs ks v r = (Inr (evs, v'), r')"
  shows "carries st v evs v'"
  using assms(1,3)
proof (induction ks arbitrary: v r evs)
  case (Cons key ks)
  obtain aid name where key: "key = (aid, name)" by fastforce
  show ?case
  proof (cases "fmlookup defs name")
    case None
    with Cons key show ?thesis by simp
  next
    case (Some d)
    obtain evs1 v1 r1 evs2 where step:
      "eval_thresholds_of st roller aid name (context_in st v aid) 0 (rd_thresholds d) v r = (Inr (evs1, v1), r1)"
      "eval_thresholds st roller defs ks v1 r1 = (Inr (evs2, v'), r')" "evs = evs1 @ evs2"
      using Cons.prems(2) key Some by auto
    have "carries st v evs1 v1"
      by (rule eval_thresholds_of_carries[OF _ _ step(1)]) (use Cons.prems(1) key Some assms(2) in auto)
    moreover have "carries st v1 evs2 v'" by (rule Cons.IH[OF _ step(2)]) (use Cons.prems(1) in simp)
    ultimately show ?thesis unfolding step(3) by (rule carries_append)
  qed
qed simp

lemma eval_bind_triple:
  "eval_bind m (\<lambda>(a, b, c) r. k a b c r) = (Inr y, r') \<longleftrightarrow>
     (\<exists>a b c r. m = (Inr (a, b, c), r) \<and> k a b c r = (Inr y, r'))"
  by auto

lemma resolve_roll_carries:
  assumes "known st tid" and "power_ok ability"
    and "resolve_roll st roller caster ability cr tid v r = (Inr (g, v'), r')"
  shows "carries st v (ga_events g) v'"
proof -
  let ?ocs = "\<lambda>hit. if hit then fst (cp_branch_outcomes ability) else snd (cp_branch_outcomes ability)"
  obtain roll dice roll32 r1 vs vs_dice vs32 r2 where
    "wire_eval AtRoll (cr_roll cr) (context_in st v caster) (context_in st v tid) roller r = (Inr (roll, dice, roll32), r1)"
    "wire_eval AtVs (cr_vs cr) (context_in st v caster) (context_in st v tid) roller r1 = (Inr (vs, vs_dice, vs32), r2)"
    using assms(3) unfolding resolve_roll_def Let_def eval_bind_triple by blast
  then obtain reason evs rolls where
    run: "apply_outcomes st roller caster tid reason (?ocs (sint vs \<le> sint roll)) v r2 = (Inr (evs, rolls, v'), r')"
    and evs: "ga_events g = evs"
    using assms(3) by (auto simp: resolve_roll_def Let_def)
  have "list_all outcome_ok (?ocs (sint vs \<le> sint roll))" using assms(2) by (simp add: power_ok_def)
  from apply_outcomes_carries[OF assms(1) this run] show ?thesis unfolding evs .
qed

lemma resolve_target_carries:
  assumes "known st tid" and "power_ok ability"
    and "resolve_target st roller caster ability tid v r = (Inr (g, v'), r')"
  shows "carries st v (ga_events g) v'"
proof -
  obtain g1 v1 r1 evs rolls where
    roll: "(case cp_resolution ability of None \<Rightarrow> (Inr (no_gathered, v), r)
       | Some cr \<Rightarrow> resolve_roll st roller caster ability cr tid v r) = (Inr (g1, v1), r1)"
    and eff: "apply_outcomes st roller caster tid (ability_reason (cp_id ability) ''effect'') (cp_effects ability) v1 r1 =
        (Inr (evs, rolls, v'), r')"
    and g: "ga_events g = ga_events g1 @ evs"
    using assms(3) by (auto simp: resolve_target_def gather_def)
  have "carries st v (ga_events g1) v1"
    using roll resolve_roll_carries[OF assms(1,2)] by (auto simp: no_gathered_def split: option.splits)
  moreover have "carries st v1 evs v'"
    by (rule apply_outcomes_carries[OF assms(1) _ eff]) (use assms(2) in \<open>simp add: power_ok_def\<close>)
  ultimately show ?thesis unfolding g by (rule carries_append)
qed

lemma resolve_targets_carries:
  assumes "power_ok ability"
  shows "\<forall>tid \<in> set tids. known st tid \<Longrightarrow>
    resolve_targets st roller caster ability tids v r = (Inr (g, v'), r') \<Longrightarrow> carries st v (ga_events g) v'"
proof (induction tids arbitrary: v r g)
  case Nil
  then show ?case by (auto simp: no_gathered_def)
next
  case (Cons tid tids)
  obtain g1 v1 r1 g2 where
    step: "resolve_target st roller caster ability tid v r = (Inr (g1, v1), r1)"
      "resolve_targets st roller caster ability tids v1 r1 = (Inr (g2, v'), r')"
    and g: "ga_events g = ga_events g1 @ ga_events g2"
    using Cons.prems(2) by (auto simp: gather_def)
  have "carries st v (ga_events g1) v1"
    by (rule resolve_target_carries[OF _ assms step(1)]) (use Cons.prems(1) in simp)
  moreover have "carries st v1 (ga_events g2) v'" by (rule Cons.IH[OF _ step(2)]) (use Cons.prems(1) in simp)
  ultimately show ?case unfolding g by (rule carries_append)
qed

subsection \<open>What the checks establish\<close>

lemma check_targets_None:
  "check_targets st seen tids = None \<Longrightarrow>
     distinct tids \<and> (\<forall>tid \<in> set tids. tid \<notin> set seen \<and> known st tid)"
proof (induction tids arbitrary: seen)
  case (Cons t tids)
  then have "t \<notin> set seen" "known st t" "check_targets st (t # seen) tids = None"
    by (auto simp: known_def split: if_splits)
  with Cons.IH[of "t # seen"] show ?case by auto
qed simp

lemma check_range_None:
  "check_range st ct rng tids = None \<Longrightarrow> tid \<in> set tids \<Longrightarrow>
     (\<exists>t. find_token st tid (tok_scene_id ct) = Some t \<and> sint (chebyshev_distance ct t) \<le> sint rng)"
  by (induction tids) (auto simp: Let_def split: option.splits if_splits)

lemma resolve_checksD:
  assumes "resolve_checks rs st cmd = Inr ability"
  shows "fmlookup (rs_compiled rs) (ua_ability_id cmd) = Some ability"
    and "known st (ua_actor_id cmd)"
    and "check_targets st [] (ua_target_ids cmd) = None"
    and "check_usage st (ua_actor_id cmd) ability = None"
    and "check_ranges st (ua_actor_id cmd) (tg_range (cp_targeting ability)) (ua_target_ids cmd) = None"
    and "ua_target_ids cmd \<noteq> []"
    and "int (length (ua_target_ids cmd)) \<le> sint (tg_max_targets (cp_targeting ability))"
  using assms unfolding resolve_checks_def Let_def
  by (auto simp: known_def split: option.splits if_splits)

lemma spend_usage_carries:
  assumes "power_ok ability" and "check_usage st caster ability = None"
    and "spend_usage st caster ability = (evs, v)"
  shows "carries st resolve_start evs v"
proof (cases "us_limited (cp_usage ability)")
  case None
  with assms show ?thesis by (auto simp: spend_usage_def)
next
  case (Some lu)
  obtain res where res: "actor_resource st caster (lu_resource lu) = Some res"
    and cost: "0 \<le> sint (lu_cost lu)" "sint (lu_cost lu) \<le> sint (res_current res)"
    using assms(1,2) Some by (auto simp: power_ok_def check_usage_def split: option.splits if_splits)
  obtain nv v1 where nv: "apply_delta st caster (lu_resource lu) (- lu_cost lu) resolve_start = (nv, v1)"
    by fastforce
  note bounds = sint32_bounds[of "res_current res"] sint32_bounds[of "res_max res"]
  have neg: "sint (- lu_cost lu) = - sint (lu_cost lu)"
    using cost bounds by (simp add: sint_word_ariths signed_take_bit_int_eq_self)
  have "sint (widen (res_current res) + - lu_cost lu) = sint (res_current res) - sint (lu_cost lu)"
    using cost bounds neg sint_add_go_int[of "widen (res_current res)" "- lu_cost lu"] by simp
  then have "sint nv < 2147483648"
    using nv res bounds cost
    by (auto simp: apply_delta_def Let_def current_resource_def resolve_start_def max_resource_def split: if_splits)
  moreover have "- 2147483648 \<le> sint (- lu_cost lu)" "sint (- lu_cost lu) < 2147483648"
    using neg cost bounds by simp_all
  moreover have "v1 = v" "evs = [resource_changed_envelope caster (lu_resource lu) (- lu_cost lu) nv
      (ability_reason (cp_id ability) ''usage'')]"
    using assms(3) Some nv by (simp_all add: spend_usage_def Let_def)
  ultimately show ?thesis
    using nv by (auto intro: carries_single tracks_resource[OF _ res])
qed

subsection \<open>Every batch folds\<close>

lemma resolve_runs:
  assumes ok: "ruleset_ok rs" and run: "resolve rs st cmd roller r = (Inr batch, r')"
  obtains ability v where "resolve_checks rs st cmd = Inr ability"
    and "carries st resolve_start (tl batch) v" and "\<exists>au. hd batch = payload_only (AbilityUsed au) \<and> au_ability_id au = cp_id ability"
    and "batch \<noteq> []"
proof -
  obtain ability where ab: "resolve_checks rs st cmd = Inr ability"
    using run by (auto simp: resolve_def split: sum.splits)
  obtain spent v0 where spent: "spend_usage st (ua_actor_id cmd) ability = (spent, v0)" by fastforce
  obtain au g v1 r1 evs v2 where
    targets: "resolve_targets st roller (ua_actor_id cmd) ability (ua_target_ids cmd) v0 r = (Inr (g, v1), r1)"
    and ths: "eval_thresholds st roller (resource_defs rs) (rv_changed v1) v1 r1 = (Inr (evs, v2), r')"
    and batch: "batch = payload_only (AbilityUsed au) # spent @ ga_events g @ evs" "au_ability_id au = cp_id ability"
    using run ab spent by (auto simp: resolve_def Let_def)
  have pow: "power_ok ability" using ok resolve_checksD(1)[OF ab] by (auto simp: ruleset_ok_def)
  have c1: "carries st resolve_start spent v0"
    by (rule spend_usage_carries[OF pow resolve_checksD(4)[OF ab] spent])
  have c2: "carries st v0 (ga_events g) v1"
    by (rule resolve_targets_carries[OF pow _ targets])
      (use check_targets_None[OF resolve_checksD(3)[OF ab]] in simp)
  have c12: "carries st resolve_start (spent @ ga_events g) v1" using c1 c2 by (rule carries_append)
  have "carries st resolve_start ((spent @ ga_events g) @ evs) v2"
  proof (cases "\<exists>stk. tracks st resolve_start stk")
    case True
    with c12 obtain stk' where "tracks st v1 stk'" by (auto simp: carries_def)
    then have kn: "\<forall>key \<in> set (rv_changed v1). known st (fst key)" by (simp add: tracks_def)
    have defs: "\<forall>name d. fmlookup (resource_defs rs) name = Some d \<longrightarrow> list_all threshold_ok (rd_thresholds d)"
      using ok resource_defs_Some by (fastforce simp: ruleset_ok_def)
    from carries_append[OF c12 eval_thresholds_carries[OF kn defs ths]] show ?thesis .
  next
    case False
    then show ?thesis by (simp add: carries_def)
  qed
  with ab batch show thesis by (intro that[of ability v2]) auto
qed

lemma tracks_bounded:
  assumes "tracks st v stk" and "actor_resource stk aid n = Some res"
  shows "actor_resource stk aid n = actor_resource st aid n \<or>
     (0 \<le> sint (res_current res) \<and> (0 < sint (res_max res) \<longrightarrow> sint (res_current res) \<le> sint (res_max res)))"
proof -
  obtain res0 where res0: "actor_resource st aid n = Some res0" "res_max res = res_max res0"
    using assms by (metis (no_types, lifting) map_option_eq_Some option.simps(9) tracks_def)
  have cur: "widen (res_current res) = current_resource st v aid n" using assms by (simp add: tracks_def)
  show ?thesis
  proof (cases "fmlookup (rv_running v) (aid, n)")
    case None
    with cur res0 have "res = res0" by (simp add: current_resource_def resource.equality)
    with res0 assms(2) show ?thesis by simp
  next
    case (Some k)
    then have "within_bounds st v" "widen (res_current res) = k"
      using assms(1) cur by (simp_all add: tracks_def current_resource_def)
    with Some res0 show ?thesis unfolding within_bounds_def by (metis option.inject sint_widen)
  qed
qed

lemma resolve_folds:
  assumes "wf_state st" and "ruleset_ok rs" and "resolve rs st cmd roller r = (Inr batch, r')"
  shows "\<exists>st'. apply_events st batch = Inr st' \<and> wf_state st' \<and> (\<forall>aid. known st' aid = known st aid) \<and>
     (\<forall>aid n res. actor_resource st' aid n = Some res \<longrightarrow>
        actor_resource st' aid n = actor_resource st aid n \<or>
        (0 \<le> sint (res_current res) \<and> (0 < sint (res_max res) \<longrightarrow> sint (res_current res) \<le> sint (res_max res))))"
proof -
  from resolve_runs[OF assms(2,3)] obtain ability v au where
    ab: "resolve_checks rs st cmd = Inr ability" and tl: "carries st resolve_start (tl batch) v"
    and hd: "hd batch = payload_only (AbilityUsed au)" "au_ability_id au = cp_id ability" and ne: "batch \<noteq> []"
    by metis
  from tl tracks_start[OF assms(1)] obtain st' where
    st': "apply_events st (tl batch) = Inr st'" "tracks st v st'" by (auto simp: carries_def)
  have "\<not> bad_id (cp_id ability)"
    using assms(2) resolve_checksD(1)[OF ab] by (auto simp: ruleset_ok_def power_ok_def)
  with hd have "apply_event st (hd batch) = Inr st"
    by (simp add: apply_event_def apply_payload_def apply_ability_used_def)
  with st'(1) ne have all: "apply_events st batch = Inr st'"
    by (cases batch) (simp_all add: apply_events_def)
  from apply_events_wf[OF assms(1) all] all st'(2) tracks_bounded[OF st'(2)] show ?thesis
    by (auto simp: tracks_def)
qed

text \<open>C7: Whatever an ability use emits, the fold accepts: in a well-formed state, under a ruleset the
  loader passed and with any roller, the batch \<open>Resolve\<close> returns folds event by event (the new
  values it announces are the ones the fold recomputes, no condition is applied twice or removed
  while absent), leads to a well-formed state with the same actors, and leaves every resource
  either as it was or within its bounds.\<close>

theorem resolved_batch_folds:
  assumes "wf_state st" and "ruleset_ok rs" and "resolve rs st cmd roller r = (Inr batch, r')"
  shows "\<exists>st'. apply_events st batch = Inr st' \<and> wf_state st' \<and> (\<forall>aid. known st' aid = known st aid) \<and>
     (\<forall>aid n res. actor_resource st' aid n = Some res \<longrightarrow>
        actor_resource st' aid n = actor_resource st aid n \<or>
        (0 \<le> sint (res_current res) \<and> (0 < sint (res_max res) \<longrightarrow> sint (res_current res) \<le> sint (res_max res))))"
  by (rule resolve_folds[OF assms])

definition demo_power :: compiled_power where
  "demo_power = \<lparr>cp_id = ''surge'', cp_name = ''Surge'',
     cp_usage = \<lparr>us_at_will = False, us_limited = Some \<lparr>lu_resource = ''hp'', lu_cost = 1\<rparr>\<rparr>,
     cp_targeting = \<lparr>tg_range = 5, tg_max_targets = 1\<rparr>, cp_resolution = None,
     cp_branch_outcomes = ([], []),
     cp_effects = [ResourceChangeOutcome ''hp''
        \<lparr>ex_root = NBin CHR ''-'' (NInt 0) (NDice (NInt 1) (NInt 6)), ex_src = ''0 - 1d6''\<rparr> ''0 - 1d6'']\<rparr>"

definition demo_ruleset :: ruleset where
  "demo_ruleset = \<lparr>rs_id = ''r'', rs_name = ''R'', rs_format_version = ''2'',
     rs_properties = [\<lparr>pr_key = ''hp'', pr_type = ''resource'', pr_name = ''Hp'', pr_description = [],
        pr_resource = Some \<lparr>rd_default_max = None, rd_default_max_src = [],
          rd_thresholds = [\<lparr>th_when = \<lparr>ex_root = NInt 1, ex_src = ''1''\<rparr>, th_when_src = ''1'',
             th_apply = ''hurt'', th_remove_when_false = False\<rparr>]\<rparr>\<rparr>],
     rs_conditions = fmempty, rs_guide = [], rs_atoms = fmempty,
     rs_compiled = fmupd ''surge'' demo_power fmempty\<rparr>"

definition demo_use :: use_ability where
  "demo_use = \<lparr>ua_actor_id = ''a1'', ua_ability_id = ''surge'', ua_target_ids = [''a1'']\<rparr>"

lemma demo_ruleset_ok: "ruleset_ok demo_ruleset"
  by (simp add: ruleset_ok_def demo_ruleset_def power_ok_def demo_power_def threshold_ok_def bad_id_def)

lemma demo_checks: "resolve_checks demo_ruleset demo_state demo_use = Inr demo_power"
  by (simp add: resolve_checks_def demo_ruleset_def demo_use_def demo_state_def demo_power_def demo_actor_def
      check_resolution_refs_def check_usage_def actor_resource_def check_ranges_def find_token_def
      chebyshev_distance_def Let_def)

lemma demo_spend: "spend_usage demo_state ''a1'' demo_power =
    ([resource_changed_envelope ''a1'' ''hp'' (- 1) 4 ''ability:surge:usage''],
     \<lparr>rv_running = fmupd (''a1'', ''hp'') 4 fmempty, rv_changed = [(''a1'', ''hp'')], rv_conditions = fmempty\<rparr>)"
  by (simp add: spend_usage_def demo_power_def apply_delta_def resolve_start_def current_resource_def
      actor_resource_def demo_state_def demo_actor_def max_resource_def widen_def Let_def ability_reason_def)

definition demo_batch :: "envelope list" where
  "demo_batch =
     [payload_only (AbilityUsed \<lparr>au_actor_id = ''a1'', au_ability_id = ''surge'', au_target_ids = [''a1''],
        au_rolls = [\<lparr>ur_expression = ''0 - 1d6'', ur_results = [2], ur_total = - 2\<rparr>],
        au_outcome_summary = ''Surge on a1'', au_outcomes = []\<rparr>),
      resource_changed_envelope ''a1'' ''hp'' (- 1) 4 ''ability:surge:usage'',
      resource_changed_envelope ''a1'' ''hp'' (- 2) 2 ''ability:surge:effect'',
      condition_applied_envelope ''a1'' ''hurt'' ''threshold:hp'']"

lemma demo_resolve:
  "resolve demo_ruleset demo_state demo_use (Some (crypto_roll demo_draw)) 1 = (Inr demo_batch, 2)"
proof -
  have ids: "ua_actor_id demo_use = ''a1''" "ua_target_ids demo_use = [''a1'']" "cp_id demo_power = ''surge''"
    by (simp_all add: demo_use_def demo_power_def)
  have w: "narrow (- 2) = - 2" "narrow 2 = 2" by (simp_all add: narrow_def)
  show ?thesis
    unfolding resolve_def demo_checks sum.case ids demo_spend Let_def prod.case
    by (simp add: resolve_target_def demo_power_def apply_outcome_def wire_eval_def eval_recording_scoped_def
        eval_scoped_def roll_dice_def record_roll_def crypto_roll_def demo_draw_def apply_op_def
        actor_resource_def demo_state_def demo_actor_def apply_delta_def current_resource_def max_resource_def
        widen_def Let_def int32_checked_def gather_def no_gathered_def ability_reason_def used_roll_of_def
        to_int32_slice_def resource_defs_def demo_ruleset_def eval_single_def apply_threshold_def
        has_condition_def conditions_of_def demo_batch_def w)
qed

theorem resolved_batch_folds_witness:
  "\<exists>st'. apply_events demo_state demo_batch = Inr st' \<and> wf_state st'"
  using resolved_batch_folds[OF demo_wf demo_ruleset_ok demo_resolve] by blast

subsection \<open>Targets\<close>

lemma sint_abs_diff:
  fixes a b :: int32
  shows "sint (if sint (widen a - widen b) < 0 then - (widen a - widen b) else widen a - widen b) = \<bar>sint a - sint b\<bar>"
proof -
  note bounds = sint32_bounds[of a] sint32_bounds[of b]
  have d: "sint (widen a - widen b) = sint a - sint b"
    using bounds sint_ring_ops(2)[of "widen a" "widen b"] by (simp add: in_int64_def)
  have "sint (- (widen a - widen b)) = - (sint a - sint b)"
    using bounds sint_ring_ops(2)[of "widen b" "widen a"] by (simp add: in_int64_def)
  with d show ?thesis by simp
qed

lemma sint_chebyshev:
  "sint (chebyshev_distance a b) =
     max \<bar>sint (tok_x a) - sint (tok_x b)\<bar> \<bar>sint (tok_y a) - sint (tok_y b)\<bar>"
proof -
  define diff where "diff p q = (if sint (widen p - widen q) < 0 then - (widen p - widen q) else widen p - widen q)"
    for p q :: int32
  have "sint (diff p q) = \<bar>sint p - sint q\<bar>" for p q unfolding diff_def by (rule sint_abs_diff)
  moreover have "chebyshev_distance a b =
      (if sint (diff (tok_y a) (tok_y b)) < sint (diff (tok_x a) (tok_x b)) then diff (tok_x a) (tok_x b)
       else diff (tok_y a) (tok_y b))"
    unfolding chebyshev_distance_def Let_def diff_def by (rule refl)
  ultimately show ?thesis by (simp add: max_def)
qed

definition token_matches :: "state \<Rightarrow> string \<Rightarrow> string \<Rightarrow> string \<Rightarrow> bool" where
  "token_matches st aid sid k = (case fmlookup (st_tokens st) k of
     None \<Rightarrow> False | Some t \<Rightarrow> tok_actor_id t = aid \<and> (sid = [] \<or> tok_scene_id t = sid))"

lemma find_token_spec:
  assumes "find_token st aid sid = Some t"
  shows "\<exists>k. fmlookup (st_tokens st) k = Some t \<and> token_matches st aid sid k \<and>
    (\<forall>j. token_matches st aid sid j \<longrightarrow> k \<le> j)"
proof -
  let ?ks = "filter (token_matches st aid sid) (keys (st_tokens st))"
  have find: "find_token st aid sid = (case ?ks of [] \<Rightarrow> None | k # ks \<Rightarrow> fmlookup (st_tokens st) k)"
    by (simp add: find_token_def token_matches_def[abs_def])
  with assms obtain k ks where ks: "?ks = k # ks" "fmlookup (st_tokens st) k = Some t"
    by (auto split: list.splits)
  have "sorted (k # ks)" unfolding ks(1)[symmetric] by (simp add: sorted_wrt_filter)
  moreover have "set (k # ks) = {j. token_matches st aid sid j}"
    unfolding ks(1)[symmetric] by (auto simp: token_matches_def fmlookup_dom'_iff split: option.splits)
  ultimately show ?thesis using ks(2) by (metis list.set_intros(1) mem_Collect_eq sorted_simps(2) set_ConsD order_refl)
qed

text \<open>C8: An ability use that succeeds had targets that are distinct, known actors, at least one and at
  most what the ability allows; the caster could pay its usage cost; and each target's least token
  in the scene of the caster's least token stood within range, by the Chebyshev distance of the
  two squares, whatever their coordinates.\<close>

theorem resolved_use_was_legal:
  assumes "wf_state st" and "resolve rs st cmd roller r = (Inr batch, r')"
  shows "\<exists>ability k ct. fmlookup (rs_compiled rs) (ua_ability_id cmd) = Some ability \<and>
     distinct (ua_target_ids cmd) \<and> ua_target_ids cmd \<noteq> [] \<and>
     int (length (ua_target_ids cmd)) \<le> sint (tg_max_targets (cp_targeting ability)) \<and>
     (\<forall>lu. us_limited (cp_usage ability) = Some lu \<longrightarrow>
        (\<exists>res. actor_resource st (ua_actor_id cmd) (lu_resource lu) = Some res \<and> sint (lu_cost lu) \<le> sint (res_current res))) \<and>
     fmlookup (st_tokens st) k = Some ct \<and> tok_actor_id ct = ua_actor_id cmd \<and>
     (\<forall>j t. fmlookup (st_tokens st) j = Some t \<longrightarrow> tok_actor_id t = ua_actor_id cmd \<longrightarrow> k \<le> j) \<and>
     (\<forall>tid \<in> set (ua_target_ids cmd). known st tid \<and>
        (\<exists>j t. fmlookup (st_tokens st) j = Some t \<and> tok_actor_id t = tid \<and> tok_scene_id t = tok_scene_id ct \<and>
           (\<forall>i. token_matches st tid (tok_scene_id ct) i \<longrightarrow> j \<le> i) \<and>
           max \<bar>sint (tok_x ct) - sint (tok_x t)\<bar> \<bar>sint (tok_y ct) - sint (tok_y t)\<bar> \<le> sint (tg_range (cp_targeting ability))))"
proof -
  obtain ability where ab: "resolve_checks rs st cmd = Inr ability"
    using assms(2) by (auto simp: resolve_def split: sum.splits)
  note chk = resolve_checksD[OF ab]
  obtain ct where ct: "find_token st (ua_actor_id cmd) [] = Some ct"
    and rng: "check_range st ct (tg_range (cp_targeting ability)) (ua_target_ids cmd) = None"
    using chk(5) by (auto simp: check_ranges_def split: option.splits)
  from find_token_spec[OF ct] obtain k where k: "fmlookup (st_tokens st) k = Some ct"
    "token_matches st (ua_actor_id cmd) [] k" "\<forall>j. token_matches st (ua_actor_id cmd) [] j \<longrightarrow> k \<le> j" by blast
  have scene: "tok_scene_id ct \<noteq> []"
    using wf_stateD(3)[OF assms(1) k(1)] wf_stateD(1)[OF assms(1)]
    by (auto simp: wf_token_def fmlookup_dom'_iff wf_scene_def bad_id_def)
  have tgt: "\<exists>j t. fmlookup (st_tokens st) j = Some t \<and> tok_actor_id t = tid \<and> tok_scene_id t = tok_scene_id ct \<and>
      (\<forall>i. token_matches st tid (tok_scene_id ct) i \<longrightarrow> j \<le> i) \<and>
      max \<bar>sint (tok_x ct) - sint (tok_x t)\<bar> \<bar>sint (tok_y ct) - sint (tok_y t)\<bar> \<le> sint (tg_range (cp_targeting ability))"
    if "tid \<in> set (ua_target_ids cmd)" for tid
  proof -
    from check_range_None[OF rng that] obtain t where
      t: "find_token st tid (tok_scene_id ct) = Some t" "sint (chebyshev_distance ct t) \<le> sint (tg_range (cp_targeting ability))"
      by blast
    from find_token_spec[OF t(1)] obtain j where j: "fmlookup (st_tokens st) j = Some t"
      "token_matches st tid (tok_scene_id ct) j" "\<forall>i. token_matches st tid (tok_scene_id ct) i \<longrightarrow> j \<le> i" by blast
    moreover have "tok_actor_id t = tid" "tok_scene_id t = tok_scene_id ct"
      using j(1,2) scene by (simp_all add: token_matches_def)
    ultimately show ?thesis using t(2) unfolding sint_chebyshev by blast
  qed
  have usage: "\<exists>res. actor_resource st (ua_actor_id cmd) (lu_resource lu) = Some res \<and> sint (lu_cost lu) \<le> sint (res_current res)"
    if "us_limited (cp_usage ability) = Some lu" for lu
    using chk(4) that by (auto simp: check_usage_def split: option.splits if_splits)
  have least: "k \<le> j" if "fmlookup (st_tokens st) j = Some t" "tok_actor_id t = ua_actor_id cmd" for j t
    using k(3) that by (auto simp: token_matches_def)
  have own: "tok_actor_id ct = ua_actor_id cmd" using k(1,2) by (simp add: token_matches_def)
  show ?thesis
    by (rule exI[of _ ability], rule exI[of _ k], rule exI[of _ ct], intro conjI ballI allI impI)
      (use chk(1,6,7) check_targets_None[OF chk(3)] usage k(1) own least tgt in blast)+
qed

theorem resolved_use_was_legal_witness:
  "distinct (ua_target_ids demo_use) \<and> known demo_state ''a1''"
proof -
  from resolved_use_was_legal[OF demo_wf demo_resolve] show ?thesis by (auto simp: demo_use_def)
qed

end
