(* ===== verification/Compose_Props.thy ===== *)
theory Compose_Props
  imports Compose Parse_Props Resolve_Props
begin

text \<open>
  What a composition that compiles is worth: its expressions read only declared properties of the
  right type through a scope, its conditions are declared, its bounds are sane, and its outcomes
  stand in an order that honours every provides/consumes dependency.
\<close>

subsection \<open>Expressions and outcomes\<close>

definition two_actor_ok :: "(string, string) fmap \<Rightarrow> expr \<Rightarrow> bool" where
  "two_actor_ok types e =
     (wf_node (ex_root e) \<and>
      (\<forall>rf \<in> set (expr_scoped_refs e). sr_scope rf \<noteq> ScopeNone \<and>
         fmlookup types (sr_name rf) = Some (if sr_sigil rf = CHR ''#'' then PropertyResource else PropertyNumber)))"

lemma check_property_ref_Inr [simp]: "check_property_ref k want types = Inr u \<longleftrightarrow> fmlookup types k = Some want"
  by (auto simp: check_property_ref_def split: option.splits)

lemma check_two_actor_refs_Inr:
  "check_two_actor_refs refs types = Inr u \<Longrightarrow> \<forall>rf \<in> set refs. sr_scope rf \<noteq> ScopeNone \<and>
     fmlookup types (sr_name rf) = Some (if sr_sigil rf = CHR ''#'' then PropertyResource else PropertyNumber)"
  by (induction refs) (auto split: if_splits)

lemma compile_two_actor_ok: "compile_two_actor_expr src types = Inr e \<Longrightarrow> two_actor_ok types e"
  using parse_string_cases[of src]
  by (auto simp: compile_two_actor_expr_def two_actor_ok_def dest: check_two_actor_refs_Inr split: sum.splits)

fun outcome_sound :: "ruleset \<Rightarrow> (string, string) fmap \<Rightarrow> outcome \<Rightarrow> bool" where
  "outcome_sound rs types (ResourceChangeOutcome name e src) =
     (fmlookup types name = Some PropertyResource \<and> two_actor_ok types e)"
| "outcome_sound rs types (ApplyConditionOutcome cid) = (fmlookup (rs_conditions rs) cid \<noteq> None)"
| "outcome_sound rs types (RemoveConditionOutcome cid) = (fmlookup (rs_conditions rs) cid \<noteq> None)"

lemma compile_effect_sound: "compile_effect rs b types t = Inr oc \<Longrightarrow> outcome_sound rs types oc"
  by (auto simp: compile_effect_def Let_def dest: compile_two_actor_ok split: outcome_kind.splits if_splits)

lemma compile_effects_sound: "compile_effects rs b types ts = Inr ocs \<Longrightarrow> list_all (outcome_sound rs types) ocs"
  by (induction ts arbitrary: ocs) (auto dest: compile_effect_sound)

subsection \<open>Where each outcome goes\<close>

datatype slot = AlwaysSlot | GeSlot | LtSlot

definition slot_of :: "(compiled_resolution \<times> string) option \<Rightarrow> contribution \<Rightarrow> slot option" where
  "slot_of resolution c =
     (if cb_kind c \<noteq> ''outcome'' then None
      else if cb_branch c = ''always'' then Some AlwaysSlot
      else (case resolution of
              None \<Rightarrow> None
            | Some (cr, k) \<Rightarrow>
                if cb_branch c = fst (cr_branches cr) then Some GeSlot
                else if cb_branch c = snd (cr_branches cr) then Some LtSlot else None))"

definition compiled_effects_of :: "ruleset \<Rightarrow> (string, string) fmap \<Rightarrow> (string, string) fmap \<Rightarrow> contribution \<Rightarrow> outcome list" where
  "compiled_effects_of rs types b c =
     (case compile_effects rs b types (cb_effects c) of Inl err \<Rightarrow> [] | Inr ocs \<Rightarrow> ocs)"

text \<open>What one atom puts into a slot, in the order of its contributions.\<close>

definition atom_outcomes :: "ruleset \<Rightarrow> (string, string) fmap \<Rightarrow> (compiled_resolution \<times> string) option \<Rightarrow> slot
    \<Rightarrow> (string, string) fmap \<Rightarrow> contribution list \<Rightarrow> outcome list" where
  "atom_outcomes rs types resolution sl b cs =
     concat (map (compiled_effects_of rs types b) (filter (\<lambda>c. slot_of resolution c = Some sl) cs))"

definition extended :: "outcome_lists \<Rightarrow> (slot \<Rightarrow> outcome list) \<Rightarrow> outcome_lists" where
  "extended acc f = (case acc of ((ge, lt), effects) \<Rightarrow> ((ge @ f GeSlot, lt @ f LtSlot), effects @ f AlwaysSlot))"

lemma extended_extended: "extended (extended acc f) g = extended acc (\<lambda>sl. f sl @ g sl)"
  by (auto simp: extended_def split: prod.splits)

lemma extended_Nil [simp]: "extended acc (\<lambda>_. []) = acc"
  by (auto simp: extended_def split: prod.splits)

lemma place_outcomes_extends:
  assumes "place_outcomes i c resolution ocs acc = Inr acc'" and "cb_kind c = ''outcome''"
  shows "\<exists>sl. slot_of resolution c = Some sl \<and> acc' = extended acc (\<lambda>sl'. if sl' = sl then ocs else [])"
proof -
  obtain ge lt effects where acc: "acc = ((ge, lt), effects)" by (metis prod.collapse)
  show ?thesis
  proof (cases "cb_branch c = ''always''")
    case True
    with assms acc show ?thesis by (auto simp: place_outcomes_def slot_of_def extended_def)
  next
    case False
    with assms(1) acc obtain key cr rk where res: "resolution = Some (cr, rk)" and key: "cb_outcome_key c = Some key"
      "key = rk" by (auto simp: place_outcomes_def split: option.splits if_splits)
    consider "cb_branch c = fst (cr_branches cr)"
      | "cb_branch c \<noteq> fst (cr_branches cr)" "cb_branch c = snd (cr_branches cr)"
      using assms(1) acc False res key by (auto simp: place_outcomes_def split: if_splits)
    then show ?thesis
      by cases (use assms acc False res key in \<open>simp_all add: place_outcomes_def slot_of_def extended_def\<close>)
  qed
qed

lemma compile_contributions_extends:
  "compile_contributions rs types i b resolution cs acc = Inr acc' \<Longrightarrow>
     acc' = extended acc (\<lambda>sl. atom_outcomes rs types resolution sl b cs)"
proof (induction cs arbitrary: acc)
  case Nil
  then show ?case by (simp add: atom_outcomes_def)
next
  case (Cons c cs)
  show ?case
  proof (cases "cb_kind c = ''outcome''")
    case False
    with Cons show ?thesis by (simp add: atom_outcomes_def slot_of_def)
  next
    case True
    with Cons.prems obtain ocs acc1 where
      ocs: "compile_effects rs b types (cb_effects c) = Inr ocs"
      and acc1: "place_outcomes i c resolution ocs acc = Inr acc1"
      and rest: "compile_contributions rs types i b resolution cs acc1 = Inr acc'" by auto
    from place_outcomes_extends[OF acc1 True] obtain sl where
      sl: "slot_of resolution c = Some sl" "acc1 = extended acc (\<lambda>sl'. if sl' = sl then ocs else [])" by blast
    have "(if sl' = sl then ocs else []) @ atom_outcomes rs types resolution sl' b cs =
        atom_outcomes rs types resolution sl' b (c # cs)" for sl'
      using sl(1) ocs by (auto simp: atom_outcomes_def compiled_effects_of_def)
    with Cons.IH[OF rest] sl(2) show ?thesis by (simp add: extended_extended)
  qed
qed

lemma compile_ordered_extends:
  "compile_ordered rs types atoms binds resolution order acc = Inr acc' \<Longrightarrow>
     acc' = extended acc (\<lambda>sl. concat (map (\<lambda>i. atom_outcomes rs types resolution sl (fst (binds ! i))
        (ad_contributes (atoms ! i))) order))"
proof (induction order arbitrary: acc)
  case (Cons i order)
  then obtain acc1 where "compile_contributions rs types i (fst (binds ! i)) resolution (ad_contributes (atoms ! i)) acc = Inr acc1"
    "compile_ordered rs types atoms binds resolution order acc1 = Inr acc'" by auto
  from compile_contributions_extends[OF this(1)] Cons.IH[OF this(2)] show ?case
    by (simp add: extended_extended)
qed simp

lemma atom_outcomes_sound: "list_all (outcome_sound rs types) (atom_outcomes rs types resolution sl b cs)"
proof -
  have "list_all (outcome_sound rs types) (compiled_effects_of rs types b c)" for c
    by (auto simp: compiled_effects_of_def dest: compile_effects_sound split: sum.split)
  then show ?thesis by (auto simp: atom_outcomes_def list_all_iff)
qed

subsection \<open>A compiled ability\<close>

lemma compile_powerE:
  assumes "compile_power rs atoms ca types = Inr cp"
  obtains bound order resolution where
    "\<forall>lu. us_limited (ca_usage ca) = Some lu \<longrightarrow> fmlookup types (lu_resource lu) = Some PropertyResource"
    "bind_entries rs atoms types 0 (ca_compose ca) = Inr bound"
    "build_and_sort_dag (map fst bound) = Inr order"
    "compile_targeting (map fst bound) (map snd bound) = Inr (cp_targeting cp)"
    "compile_resolution (map fst bound) (map snd bound) types = Inr resolution"
    "compile_ordered rs types (map fst bound) (map snd bound) resolution order (([], []), []) =
       Inr (cp_branch_outcomes cp, cp_effects cp)"
    "cp_resolution cp = map_option fst resolution"
    "cp_usage cp = ca_usage ca" "cp_id cp = ca_id ca"
proof -
  from assms obtain u bound where
    u: "(case us_limited (ca_usage ca) of None \<Rightarrow> Inr () | Some lu \<Rightarrow>
          check_property_ref (lu_resource lu) PropertyResource types) = Inr u"
    and bound: "bind_entries rs atoms types 0 (ca_compose ca) = Inr bound"
    and rest: "sum_bind (build_and_sort_dag (map fst bound)) (\<lambda>order.
       sum_bind (compile_targeting (map fst bound) (map snd bound)) (\<lambda>tg.
       sum_bind (compile_resolution (map fst bound) (map snd bound) types) (\<lambda>resolution.
       sum_bind (compile_ordered rs types (map fst bound) (map snd bound) resolution order (([], []), []))
         (\<lambda>(branches, effects).
         Inr \<lparr>cp_id = ca_id ca, cp_name = ca_name ca, cp_usage = ca_usage ca, cp_targeting = tg,
              cp_resolution = map_option fst resolution, cp_branch_outcomes = branches,
              cp_effects = effects\<rparr>)))) = Inr cp"
    unfolding compile_power_def Let_def sum_bind_eq_Inr by blast
  from rest obtain order tg resolution branches effects where
    "build_and_sort_dag (map fst bound) = Inr order"
    "compile_targeting (map fst bound) (map snd bound) = Inr tg"
    "compile_resolution (map fst bound) (map snd bound) types = Inr resolution"
    "compile_ordered rs types (map fst bound) (map snd bound) resolution order (([], []), []) = Inr (branches, effects)"
    "cp = \<lparr>cp_id = ca_id ca, cp_name = ca_name ca, cp_usage = ca_usage ca, cp_targeting = tg,
              cp_resolution = map_option fst resolution, cp_branch_outcomes = branches, cp_effects = effects\<rparr>"
    by auto
  with u bound show thesis by (intro that[of bound order resolution]) (auto split: option.splits)
qed

lemma compile_targeting_bounds:
  "compile_targeting atoms binds = Inr tg \<Longrightarrow> 0 \<le> sint (tg_range tg) \<and> 1 \<le> sint (tg_max_targets tg)"
  by (auto simp: compile_targeting_def split: list.splits if_splits)

lemma compile_resolution_sound:
  "compile_resolution atoms binds types = Inr (Some (cr, key)) \<Longrightarrow>
     two_actor_ok types (cr_roll cr) \<and> two_actor_ok types (cr_vs cr)"
  by (auto simp: compile_resolution_def Let_def simp del: subst_template.simps split: list.splits)
    (blast dest: compile_two_actor_ok)+

definition power_sound :: "ruleset \<Rightarrow> (string, string) fmap \<Rightarrow> compiled_power \<Rightarrow> bool" where
  "power_sound rs types cp =
     (0 \<le> sint (tg_range (cp_targeting cp)) \<and> 1 \<le> sint (tg_max_targets (cp_targeting cp)) \<and>
      (\<forall>lu. us_limited (cp_usage cp) = Some lu \<longrightarrow> fmlookup types (lu_resource lu) = Some PropertyResource) \<and>
      (\<forall>cr. cp_resolution cp = Some cr \<longrightarrow> two_actor_ok types (cr_roll cr) \<and> two_actor_ok types (cr_vs cr)) \<and>
      (\<forall>oc \<in> set (fst (cp_branch_outcomes cp) @ snd (cp_branch_outcomes cp) @ cp_effects cp). outcome_sound rs types oc))"

lemma compile_power_sound:
  assumes "compile_power rs atoms ca types = Inr cp"
  shows "power_sound rs types cp"
proof -
  from compile_powerE[OF assms] obtain bound order resolution where
    parts: "\<forall>lu. us_limited (ca_usage ca) = Some lu \<longrightarrow> fmlookup types (lu_resource lu) = Some PropertyResource"
      "compile_targeting (map fst bound) (map snd bound) = Inr (cp_targeting cp)"
      "compile_resolution (map fst bound) (map snd bound) types = Inr resolution"
      "compile_ordered rs types (map fst bound) (map snd bound) resolution order (([], []), []) =
         Inr (cp_branch_outcomes cp, cp_effects cp)"
      "cp_resolution cp = map_option fst resolution" "cp_usage cp = ca_usage ca" by metis
  have "list_all (outcome_sound rs types) (concat (map (\<lambda>i. atom_outcomes rs types resolution sl
      (fst (map snd bound ! i)) (ad_contributes (map fst bound ! i))) order))" for sl
    using atom_outcomes_sound by (fastforce simp: list_all_iff)
  from this[of GeSlot] this[of LtSlot] this[of AlwaysSlot]
  have "list_all (outcome_sound rs types) (fst (cp_branch_outcomes cp) @ snd (cp_branch_outcomes cp) @ cp_effects cp)"
    using compile_ordered_extends[OF parts(4)] by (cases "cp_branch_outcomes cp") (simp add: extended_def)
  then show ?thesis
    using parts(1,5,6) compile_targeting_bounds[OF parts(2)] compile_resolution_sound parts(3)
    unfolding power_sound_def list_all_iff by (cases resolution) auto
qed

text \<open>An ability that compiles is sound for its ruleset: its range is not negative and it allows at
  least one target; its usage cost names a declared resource; every expression it carries parsed
  into the closed grammar and reads only declared properties of the sigil's type, each through a
  caster or target scope; every resource it changes and condition it names is declared.\<close>

theorem compiled_power_is_sound:
  assumes "compile_power rs atoms ca types = Inr cp"
  shows "power_sound rs types cp"
  using compile_power_sound[OF assms] .

definition demo_harm :: "string \<Rightarrow> atom_def" where
  "demo_harm src = \<lparr>ad_id = ''harm'', ad_params = [\<lparr>pd_name = ''amount'', pd_kind = ''int''\<rparr>],
     ad_provides = [], ad_consumes = [],
     ad_contributes =
       [demo_contribution\<lparr>cb_kind := ''targeting'', cb_range_src := ''{amount}'', cb_max_targets_src := ''1''\<rparr>,
        demo_contribution\<lparr>cb_kind := ''outcome'', cb_branch := ''always'',
          cb_effects := [\<lparr>et_kind = OutcomeResourceChange, et_resource_src = ''hp'',
            et_delta_src = src, et_apply_src = [], et_remove_src = []\<rparr>]\<rparr>]\<rparr>"

definition demo_library :: "string \<Rightarrow> (string, atom_def) fmap" where
  "demo_library src = fmupd ''harm'' (demo_harm src) fmempty"

definition demo_types :: "(string, string) fmap" where
  "demo_types = fmupd ''hp'' PropertyResource fmempty"

definition demo_composition :: composition_ability where
  "demo_composition = \<lparr>ca_id = ''hurt'', ca_name = ''Hurt'', ca_usage = \<lparr>us_at_will = True, us_limited = None\<rparr>,
     ca_compose = [\<lparr>ce_atom = ''harm'', ce_bind = fmupd ''amount'' (RawInt 2) fmempty\<rparr>]\<rparr>"

definition demo_compiled :: "expr \<Rightarrow> compiled_power" where
  "demo_compiled e = \<lparr>cp_id = ''hurt'', cp_name = ''Hurt'', cp_usage = \<lparr>us_at_will = True, us_limited = None\<rparr>,
     cp_targeting = \<lparr>tg_range = 2, tg_max_targets = 1\<rparr>, cp_resolution = None, cp_branch_outcomes = ([], []),
     cp_effects = [ResourceChangeOutcome ''hp'' e (ex_src e)]\<rparr>"

definition demo_minus :: expr where
  "demo_minus = \<lparr>ex_root = NBin CHR ''-'' (NInt 0) (NInt 2), ex_src = ''0-(2)''\<rparr>"

definition demo_over :: expr where
  "demo_over = \<lparr>ex_root = NBin CHR ''/'' (NInt 2) (NInt 0), ex_src = ''(2)/0''\<rparr>"

lemmas demo_placeholder = match_placeholder_def is_ident_cont_def is_ident_start_def is_digit_def
  is_valid_ident_name_def

lemma demo_compile_with:
  assumes parse: "parse_string (ex_src e) = Inr e" and refs: "scoped_walk (ex_root e) = []"
    and subst: "subst_template (fmupd ''amount'' ''(2)'' fmempty) src = ex_src e"
  shows "compile_power demo_ruleset (demo_library src) demo_composition demo_types = Inr (demo_compiled e)"
proof -
  have hp: "subst_template (fmupd ''amount'' ''(2)'' fmempty) ''hp'' = ''hp''"
    by (simp add: subst_template.simps demo_placeholder)
  have bind: "bind_entries demo_ruleset (demo_library src) demo_types 0
      (ca_compose demo_composition) = Inr [(demo_harm src, (fmupd ''amount'' ''(2)'' fmempty, fmupd ''amount'' 2 fmempty))]"
    by (simp add: demo_library_def demo_composition_def demo_harm_def bind_atom_def bind_param_def unmarshal_int_def
        show_int_def show_nat.simps Let_def)
  have dag: "build_and_sort_dag [demo_harm src] = Inr [0]"
    by (simp add: build_and_sort_dag_def demo_harm_def lowest_ready_def)
  have ints: "resolve_int_field ''{amount}'' (fmupd ''amount'' 2 fmempty) = Inr 2"
    "resolve_int_field ''1'' (fmupd ''amount'' 2 fmempty) = Inr 1"
    by (simp_all add: resolve_int_field_def demo_placeholder atoi_def atoi_sign_def nat_of_digits_def digit_val_def)
  have us: "us_limited (ca_usage demo_composition) = None" by (simp add: demo_composition_def)
  have two: "compile_two_actor_expr (ex_src e) demo_types = Inr e"
    by (simp add: compile_two_actor_expr_def parse expr_scoped_refs_def refs)
  show ?thesis
    unfolding compile_power_def us bind Let_def option.case sum_bind.simps list.map fst_conv snd_conv dag
    by (simp add: demo_harm_def demo_contribution_def compile_targeting_def contributions_of_def ints
        compile_resolution_def compile_effect_def subst hp two place_outcomes_def demo_composition_def
        demo_compiled_def demo_types_def[symmetric] Let_def) (simp add: demo_types_def)
qed

lemma demo_compile:
  "compile_power demo_ruleset (demo_library ''0-{amount}'') demo_composition demo_types = Inr (demo_compiled demo_minus)"
proof (rule demo_compile_with)
  show "parse_string (ex_src demo_minus) = Inr demo_minus" by code_simp
  show "subst_template (fmupd ''amount'' ''(2)'' fmempty) ''0-{amount}'' = ex_src demo_minus"
    by (simp add: subst_template.simps demo_placeholder demo_minus_def)
qed (simp add: demo_minus_def)

lemma demo_compile_over:
  "compile_power demo_ruleset (demo_library ''{amount}/0'') demo_composition demo_types = Inr (demo_compiled demo_over)"
proof (rule demo_compile_with)
  show "parse_string (ex_src demo_over) = Inr demo_over" by code_simp
  show "subst_template (fmupd ''amount'' ''(2)'' fmempty) ''{amount}/0'' = ex_src demo_over"
    by (simp add: subst_template.simps demo_placeholder demo_over_def)
qed (simp add: demo_over_def)

theorem compiled_power_is_sound_witness:
  "power_sound demo_ruleset demo_types (demo_compiled demo_minus)"
  using compiled_power_is_sound[OF demo_compile] .

subsection \<open>Execution order\<close>

definition outcomes_along :: "ruleset \<Rightarrow> (string, string) fmap \<Rightarrow> (atom_def \<times> bindings) list
    \<Rightarrow> (compiled_resolution \<times> string) option \<Rightarrow> nat list \<Rightarrow> slot \<Rightarrow> outcome list" where
  "outcomes_along rs types bound resolution order sl =
     concat (map (\<lambda>i. atom_outcomes rs types resolution sl (fst (snd (bound ! i))) (ad_contributes (fst (bound ! i)))) order)"

text \<open>A compiled ability's outcomes stand in dependency order: there is one order of its atoms, in
  which every provider of a key comes before each consumer, along which the two branch lists and
  the unconditional effects list are, each, what the atoms contribute to it, atom by atom and
  contribution by contribution, nothing dropped, moved between lists or added.\<close>

theorem compiled_outcomes_in_order:
  assumes "compile_power rs atoms ca types = Inr cp"
  shows "\<exists>bound resolution order. bind_entries rs atoms types 0 (ca_compose ca) = Inr bound \<and>
     dependency_order (map fst bound) order \<and> cp_resolution cp = map_option fst resolution \<and>
     cp_branch_outcomes cp = (outcomes_along rs types bound resolution order GeSlot,
                              outcomes_along rs types bound resolution order LtSlot) \<and>
     cp_effects cp = outcomes_along rs types bound resolution order AlwaysSlot"
proof -
  from compile_powerE[OF assms] obtain bound order resolution where
    parts: "bind_entries rs atoms types 0 (ca_compose ca) = Inr bound"
      "build_and_sort_dag (map fst bound) = Inr order"
      "compile_ordered rs types (map fst bound) (map snd bound) resolution order (([], []), []) =
         Inr (cp_branch_outcomes cp, cp_effects cp)"
      "cp_resolution cp = map_option fst resolution" by metis
  have dep: "dependency_order (map fst bound) order" using sorted_dag_order[OF parts(2)] .
  then have "i < length bound" if "i \<in> set order" for i using that by (auto simp: dependency_order_def)
  then have "concat (map (\<lambda>i. atom_outcomes rs types resolution sl (fst (map snd bound ! i))
      (ad_contributes (map fst bound ! i))) order) = outcomes_along rs types bound resolution order sl" for sl
    unfolding outcomes_along_def by (intro arg_cong[where f = concat] map_cong) simp_all
  with compile_ordered_extends[OF parts(3)] parts(1,4) dep show ?thesis
    by (auto simp: extended_def)
qed

theorem compiled_outcomes_in_order_witness:
  "\<exists>bound order. bind_entries demo_ruleset (demo_library ''0-{amount}'') demo_types 0
      (ca_compose demo_composition) = Inr bound \<and> dependency_order (map fst bound) order \<and>
      outcomes_along demo_ruleset demo_types bound None order AlwaysSlot = [ResourceChangeOutcome ''hp'' demo_minus ''0-(2)'']"
proof -
  have "cp_resolution (demo_compiled demo_minus) = None"
    "cp_effects (demo_compiled demo_minus) = [ResourceChangeOutcome ''hp'' demo_minus ''0-(2)'']"
    by (simp_all add: demo_compiled_def demo_minus_def)
  with compiled_outcomes_in_order[OF demo_compile] show ?thesis by (auto split: option.splits)
qed

subsection \<open>Evaluating a compiled ability\<close>

definition outcome_expr :: "outcome \<Rightarrow> expr option" where
  "outcome_expr oc = (case oc of ResourceChangeOutcome name e src \<Rightarrow> Some e | _ \<Rightarrow> None)"

definition power_exprs :: "compiled_power \<Rightarrow> expr set" where
  "power_exprs cp =
     (case cp_resolution cp of None \<Rightarrow> {} | Some cr \<Rightarrow> {cr_roll cr, cr_vs cr}) \<union>
     {e. \<exists>oc \<in> set (fst (cp_branch_outcomes cp) @ snd (cp_branch_outcomes cp) @ cp_effects cp). outcome_expr oc = Some e}"

text \<open>The contexts hold every property of its type.\<close>

definition context_covers :: "(string, string) fmap \<Rightarrow> eval_context \<Rightarrow> bool" where
  "context_covers types ctx = (\<forall>k.
     (fmlookup types k = Some PropertyNumber \<longrightarrow> fmlookup (ec_attrs ctx) k \<noteq> None) \<and>
     (fmlookup types k = Some PropertyResource \<longrightarrow> fmlookup (ec_resources ctx) k \<noteq> None))"

lemma ref_nodes_scoped: "m \<in> set (ref_nodes n) \<Longrightarrow>
    (\<exists>k sc. m = NAttr k sc \<and> \<lparr>sr_sigil = CHR ''@'', sr_scope = sc, sr_name = k\<rparr> \<in> set (scoped_walk n)) \<or>
    (\<exists>k sc. m = NRes k sc \<and> \<lparr>sr_sigil = CHR ''#'', sr_scope = sc, sr_name = k\<rparr> \<in> set (scoped_walk n))"
  by (induction n) fastforce+

lemma two_actor_resolves:
  assumes "two_actor_ok types e" and "context_covers types c" and "context_covers types t"
    and "m \<in> set (ref_nodes (ex_root e))"
  shows "\<exists>v. resolve_scoped c t m = Inr v"
proof -
  have *: "sr_scope rf \<noteq> ScopeNone"
    "fmlookup types (sr_name rf) = Some (if sr_sigil rf = CHR ''#'' then PropertyResource else PropertyNumber)"
    if "rf \<in> set (scoped_walk (ex_root e))" for rf
    using assms(1) that by (auto simp: two_actor_ok_def expr_scoped_refs_def)
  from ref_nodes_scoped[OF assms(4)] show ?thesis
  proof (elim disjE exE conjE)
    fix k sc assume m: "m = NAttr k sc" and mem: "\<lparr>sr_sigil = CHR ''@'', sr_scope = sc, sr_name = k\<rparr> \<in> set (scoped_walk (ex_root e))"
    from *[OF mem] assms(2,3) m show ?thesis
      by (cases sc) (auto simp: resolve_scoped_def node_scope_def resolve_in_def context_covers_def split: option.split)
  next
    fix k sc assume m: "m = NRes k sc" and mem: "\<lparr>sr_sigil = CHR ''#'', sr_scope = sc, sr_name = k\<rparr> \<in> set (scoped_walk (ex_root e))"
    from *[OF mem] assms(2,3) m show ?thesis
      by (cases sc) (auto simp: resolve_scoped_def node_scope_def resolve_in_def context_covers_def split: option.split)
  qed
qed

lemma power_exprs_ok: "power_sound rs types cp \<Longrightarrow> e \<in> power_exprs cp \<Longrightarrow> two_actor_ok types e"
  unfolding power_sound_def power_exprs_def outcome_expr_def
  by (fastforce split: option.splits outcome.splits)

text \<open>The loader's checks carry to play: for actors that hold every declared property, evaluating any
  expression of a compiled ability fails only on a division by zero, on computed dice out of
  bounds or for want of a roller; never on a reference, bare, scoped, undeclared or of the wrong
  type.\<close>

theorem compiled_expr_evaluates:
  assumes "compile_power rs atoms ca types = Inr cp" and "e \<in> power_exprs cp"
    and "context_covers types c" and "context_covers types t"
    and "eval_scoped e c t ro r = (Inl err, r')"
  shows "err = DivisionByZero \<or> (expr_has_dice e \<and>
     ((\<exists>n. err = DiceCountBounds n \<or> err = DiceSidesBounds n) \<or> (ro = None \<and> err = NilRoller)))"
proof -
  have ok: "two_actor_ok types e" using power_exprs_ok[OF compile_power_sound[OF assms(1)] assms(2)] .
  then have "blames (resolve_scoped c t) (ro = None) (ref_nodes (ex_root e)) (expr_has_dice e) err"
    using eval_blames(1) assms(5) by (auto simp: two_actor_ok_def eval_scoped_def expr_has_dice_def)
  with two_actor_resolves[OF ok assms(3,4)] show ?thesis by (fastforce simp: blames_def)
qed

theorem compiled_expr_evaluates_witness:
  "eval_scoped demo_over \<lparr>ec_attrs = fmempty, ec_resources = fmupd ''hp'' 3 fmempty\<rparr>
     \<lparr>ec_attrs = fmempty, ec_resources = fmupd ''hp'' 3 fmempty\<rparr> (None :: nat roller option) 0 = (Inl DivisionByZero, 0) \<and>
   (DivisionByZero = DivisionByZero \<or> expr_has_dice demo_over)"
proof -
  let ?ctx = "\<lparr>ec_attrs = fmempty, ec_resources = fmupd ''hp'' 3 fmempty\<rparr>"
  have run: "eval_scoped demo_over ?ctx ?ctx (None :: nat roller option) 0 = (Inl DivisionByZero, 0)"
    by (simp add: eval_scoped_def demo_over_def apply_op_def)
  have mem: "demo_over \<in> power_exprs (demo_compiled demo_over)"
    by (simp add: power_exprs_def demo_compiled_def outcome_expr_def)
  have ctx: "context_covers demo_types ?ctx" by (auto simp: context_covers_def demo_types_def split: if_splits)
  from compiled_expr_evaluates[OF demo_compile_over mem ctx ctx run] run show ?thesis by blast
qed

end
