(* ===== verification/Sight.thy ===== *)
theory Sight
  imports World
begin

text \<open>
  \<open>internal/sight/sight.go\<close>: which squares a viewer sees.

  A \<open>float64\<close> is the rational it stands for, and every operation rounds its exact result to 53
  significant bits, halves to even, as IEEE 754 does. The values here stay far from overflow and
  from subnormals (coordinates are integers of 32 bits, give or take a constant, and a divisor is
  at least \<open>1e-12\<close>), so neither is modelled. \<open>int32\<close> arithmetic wraps.
\<close>

subsection \<open>Double precision\<close>

function ilog2 :: "int \<Rightarrow> int" where
  "ilog2 n = (if n < 2 then 0 else ilog2 (n div 2) + 1)"
  by pat_completeness auto
termination by (relation "measure nat") auto

declare ilog2.simps [simp del]

definition pow2 :: "int \<Rightarrow> rat" where
  "pow2 k = (if 0 \<le> k then of_int (2 ^ nat k) else 1 / of_int (2 ^ nat (- k)))"

text \<open>The binary exponent of a positive rational: the \<open>k\<close> with \<open>2^k \<le> x < 2^(k+1)\<close>.\<close>

definition binary_exponent :: "rat \<Rightarrow> int" where
  "binary_exponent x =
     (case quotient_of x of (p, q) \<Rightarrow>
        let k = ilog2 p - ilog2 q
        in if x < pow2 k then k - 1 else if pow2 (k + 1) \<le> x then k + 1 else k)"

definition round_half_even :: "rat \<Rightarrow> int" where
  "round_half_even y =
     (let n = \<lfloor>y\<rfloor>; f = y - of_int n
      in if f < 1 / 2 then n else if 1 / 2 < f then n + 1 else if even n then n else n + 1)"

definition float_of :: "rat \<Rightarrow> rat" where
  "float_of x =
     (if x = 0 then 0
      else let u = pow2 (binary_exponent \<bar>x\<bar> - 52)
           in of_int (round_half_even (x / u)) * u)"

definition fadd :: "rat \<Rightarrow> rat \<Rightarrow> rat" where "fadd a b = float_of (a + b)"
definition fsub :: "rat \<Rightarrow> rat \<Rightarrow> rat" where "fsub a b = float_of (a - b)"
definition fdiv :: "rat \<Rightarrow> rat \<Rightarrow> rat" where "fdiv a b = float_of (a / b)"

definition float64 :: "int32 \<Rightarrow> rat" where "float64 x = of_int (sint x)"

lemma float_of_0 [simp]: "float_of 0 = 0"
  by (simp add: float_of_def)

lemma fsub_self [simp]: "fsub a a = 0"
  by (simp add: fsub_def)

subsection \<open>Blockers\<close>

record rect =
  min_x :: rat
  min_y :: rat
  max_x :: rat
  max_y :: rat

type_synonym point = "rat \<times> rat"

definition square :: "int32 \<Rightarrow> int32 \<Rightarrow> rect" where
  "square x y = \<lparr>min_x = float64 x, min_y = float64 y, max_x = float64 (x + 1), max_y = float64 (y + 1)\<rparr>"

text \<open>The loop counters of \<open>for y := int32(0); y < h; y++\<close>.\<close>

definition axis :: "int32 \<Rightarrow> int32 list" where
  "axis n = map (\<lambda>i. word_of_int (int i)) [0..<nat (sint n)]"

definition grid_squares :: "scene \<Rightarrow> (int32 \<times> int32) list" where
  "grid_squares sc = concat (map (\<lambda>y. map (\<lambda>x. (x, y)) (axis (sc_grid_width sc))) (axis (sc_grid_height sc)))"

definition tile_blocks :: "scene \<Rightarrow> int32 \<times> int32 \<Rightarrow> bool" where
  "tile_blocks sc sq =
     (let key = grid_key (fst sq) (snd sq) in
      case go_get (sc_tiles sc) key of
        None \<Rightarrow> False
      | Some t \<Rightarrow>
          if tile_kind t = ''wall'' then True
          else if tile_kind t = ''door'' then \<not> go_flag (sc_open_doors sc) key
          else False)"

definition object_rect :: "scene_object \<Rightarrow> rect" where
  "object_rect ob = \<lparr>min_x = float64 (so_x ob), min_y = float64 (so_y ob),
     max_x = float64 (so_x ob + so_width ob), max_y = float64 (so_y ob + so_height ob)\<rparr>"

definition object_blocks :: "scene_object \<Rightarrow> bool" where
  "object_blocks ob = (so_blocks_sight ob \<and> \<not> (sint (so_width ob) < 1 \<or> sint (so_height ob) < 1))"

definition blockers :: "scene \<Rightarrow> rect list" where
  "blockers sc =
     map (\<lambda>sq. square (fst sq) (snd sq)) (filter (tile_blocks sc) (grid_squares sc)) @
     map object_rect (filter object_blocks (sc_objects sc))"

subsection \<open>Rays\<close>

definition contains_point :: "rect \<Rightarrow> point \<Rightarrow> bool" where
  "contains_point r p = (min_x r \<le> fst p \<and> fst p \<le> max_x r \<and> min_y r \<le> snd p \<and> snd p \<le> max_y r)"

text \<open>One axis of the slab test: \<^const>\<open>None\<close> is \<open>return false\<close>, otherwise the clipped range.\<close>

definition clip_axis :: "rat \<Rightarrow> rat \<Rightarrow> rat \<Rightarrow> rat \<Rightarrow> rat \<times> rat \<Rightarrow> (rat \<times> rat) option" where
  "clip_axis from d lo hi t =
     (case t of (t0, t1) \<Rightarrow>
        if \<bar>d\<bar> < float_of (1 / 10 ^ 12) then (if from < lo \<or> hi < from then None else Some (t0, t1))
        else
          (let a = fdiv (fsub lo from) d;
               b = fdiv (fsub hi from) d;
               (a, b) = (if b < a then (b, a) else (a, b));
               t0 = (if t0 < a then a else t0);
               t1 = (if b < t1 then b else t1)
           in if t1 < t0 then None else Some (t0, t1)))"

definition segment_hits_rect :: "point \<Rightarrow> point \<Rightarrow> rect \<Rightarrow> bool" where
  "segment_hits_rect from to r =
     (case clip_axis (fst from) (fsub (fst to) (fst from)) (min_x r) (max_x r) (0, 1) of
        None \<Rightarrow> False
      | Some t \<Rightarrow> clip_axis (snd from) (fsub (snd to) (snd from)) (min_y r) (max_y r) t \<noteq> None)"

fun clear :: "point \<Rightarrow> point \<Rightarrow> rect list \<Rightarrow> bool" where
  "clear from to [] = True"
| "clear from to (b # bs) =
     (if contains_point b from \<or> contains_point b to then clear from to bs
      else if segment_hits_rect from to b then False
      else clear from to bs)"

definition sample_points :: "int32 \<Rightarrow> int32 \<Rightarrow> point list" where
  "sample_points x y =
     (let fx = float64 x; fy = float64 y; e = float_of (1 / 10 ^ 9);
          hx = fadd fx (1 / 2); hy = fadd fy (1 / 2);
          lx = fadd fx e; ly = fadd fy e;
          ux = fsub (fadd fx 1) e; uy = fsub (fadd fy 1) e
      in [(hx, hy), (lx, ly), (ux, ly), (lx, uy), (ux, uy), (hx, ly), (hx, uy), (lx, hy), (ux, hy)])"

subsection \<open>Visible squares\<close>

definition abs32 :: "int32 \<Rightarrow> int32" where
  "abs32 n = (if sint n < 0 then - n else n)"

definition chebyshev :: "int32 \<Rightarrow> int32 \<Rightarrow> int32 \<Rightarrow> int32 \<Rightarrow> int32" where
  "chebyshev ax ay bx by =
     (let dx = abs32 (ax - bx); dy = abs32 (ay - by) in if sint dy < sint dx then dx else dy)"

text \<open>The sample loop: it stops at the point that brings the count to \<open>want\<close>.\<close>

fun reaches :: "point \<Rightarrow> rect list \<Rightarrow> int \<Rightarrow> int \<Rightarrow> point list \<Rightarrow> bool" where
  "reaches eye bs want reached [] = False"
| "reaches eye bs want reached (p # ps) =
     (if \<not> clear eye p bs then reaches eye bs want reached ps
      else if want \<le> reached + 1 then True
      else reaches eye bs want (reached + 1) ps)"

definition square_seen :: "scene \<Rightarrow> int32 \<Rightarrow> int32 \<Rightarrow> int32 \<Rightarrow> go_int \<Rightarrow> int32 \<times> int32 \<Rightarrow> bool" where
  "square_seen sc ox oy rng tol sq =
     (let want = (if sint tol \<le> 0 then 1 else sint tol);
          eye = (fadd (float64 ox) (1 / 2), fadd (float64 oy) (1 / 2))
      in if 0 < sint rng \<and> sint rng < sint (chebyshev ox oy (fst sq) (snd sq)) then False
         else reaches eye (blockers sc) want 0 (sample_points (fst sq) (snd sq)))"

definition visible_from :: "scene \<Rightarrow> int32 \<Rightarrow> int32 \<Rightarrow> int32 \<Rightarrow> go_int \<Rightarrow> (string, bool) fmap" where
  "visible_from sc ox oy rng tol =
     fold (\<lambda>sq vis. fmupd (grid_key (fst sq) (snd sq)) True vis)
       (filter (square_seen sc ox oy rng tol) (grid_squares sc)) fmempty"

end
