(* ===== verification/Perceive.thy ===== *)
theory Perceive
  imports Sight Fold
begin

text \<open>
  \<open>internal/perceive/projection.go\<close>: which frames of the log one viewer is sent.

  A \<open>projection\<close> is the Go struct. Each of its methods that changes it returns the frames it
  emits and the changed projection. A \<open>map[string]bool\<close> used as a set, where an absent key and
  \<open>false\<close> read alike, is an \<open>fset\<close> of the keys that are true; walks that emit frames go through
  the sorted list of its members, as the code's do. \<open>proto.Clone\<close> is the identity here: values
  are not shared. The module data of an actor is opaque and \<open>proto.Equal\<close> is equality of it.
\<close>

subsection \<open>State\<close>

record eyes =
  eye_controller :: string
  eye_shoulder :: string

record actor_belief =
  ab_resources :: "(string, int32) fmap"
  ab_conditions :: "string list"
  ab_controllers :: "string list"
  ab_kind :: actor_kind

record projection =
  pj_through :: eyes
  pj_scenes :: "string fset"
  pj_actors :: "string fset"
  pj_tokens :: "string fset"
  pj_token_actor :: "(string, string) fmap"
  pj_token_text :: "(string, string \<times> string) fmap"
  pj_seen :: "(string, string fset) fmap"
  pj_doors :: "(string, string fset) fmap"
  pj_notes :: "string fset"
  pj_sighted :: "string fset"
  pj_belief :: "(string, actor_belief) fmap"
  pj_gone :: "string fset"
  pj_reshaped :: "string fset"

record sight_view =
  sv_squares :: "(string, string fset) fmap"
  sv_tokens :: "string fset"
  sv_actors :: "string fset"
  sv_sees :: "string fset"
  sv_party :: "string fset"
  sv_eyes :: "string fset"

text \<open>A set read at a key of a Go map of sets: the nil set where the key is absent.\<close>

definition set_at :: "(string, string fset) fmap \<Rightarrow> string \<Rightarrow> string fset" where
  "set_at m k = (case fmlookup m k of None \<Rightarrow> {||} | Some s \<Rightarrow> s)"

definition true_keys :: "(string, bool) fmap option \<Rightarrow> string fset" where
  "true_keys m = ffilter (go_flag m) (fmdom (go_make m))"

abbreviation sorted_set :: "string fset \<Rightarrow> string list" where
  "sorted_set \<equiv> sorted_list_of_fset"

definition frame :: "int \<Rightarrow> payload \<Rightarrow> envelope" where
  "frame seq p = (payload_only p)\<lparr>env_sequence := seq\<rparr>"

lemma frame_simps [simp]:
  "env_payload (frame seq p) = Some p" "env_sequence (frame seq p) = seq"
  "env_event_id (frame seq p) = []" "env_occurred_at (frame seq p) = None"
  "env_session_id (frame seq p) = []" "env_actor_role (frame seq p) = []"
  "env_participant_id (frame seq p) = []"
  by (simp_all add: frame_def payload_only_def)

text \<open>The zero values a missing map entry reads as.\<close>

definition zero_actor :: actor where
  "zero_actor = \<lparr>actor_id = [], actor_name = [], actor_module_id = [], actor_attributes = fmempty,
     actor_resources = fmempty, actor_module_data = None, actor_controller_id = [],
     actor_controller_ids = [], actor_kind_of = KIND_UNSPECIFIED\<rparr>"

definition zero_scene :: scene where
  "zero_scene = \<lparr>sc_id = [], sc_name = [], sc_grid_width = 0, sc_grid_height = 0, sc_tiles = None,
     sc_objects = [], sc_open_doors = None, sc_explored = None, sc_visible = None\<rparr>"

definition zero_token :: token where
  "zero_token = \<lparr>tok_id = [], tok_scene_id = [], tok_actor_id = [], tok_x = 0, tok_y = 0, tok_name = [],
     tok_notes = [], tok_gm_name = [], tok_gm_notes = []\<rparr>"

definition actor_at :: "state \<Rightarrow> string \<Rightarrow> actor" where
  "actor_at st k = (case fmlookup (st_actors st) k of None \<Rightarrow> zero_actor | Some a \<Rightarrow> a)"

definition scene_at :: "state \<Rightarrow> string \<Rightarrow> scene" where
  "scene_at st k = (case fmlookup (st_scenes st) k of None \<Rightarrow> zero_scene | Some s \<Rightarrow> s)"

definition token_at :: "state \<Rightarrow> string \<Rightarrow> token" where
  "token_at st k = (case fmlookup (st_tokens st) k of None \<Rightarrow> zero_token | Some t \<Rightarrow> t)"

subsection \<open>What an actor is shown as\<close>

definition same_incarnation :: "actor \<Rightarrow> actor \<Rightarrow> bool" where
  "same_incarnation a b =
     (actor_name a = actor_name b \<and> actor_module_id a = actor_module_id b \<and>
      actor_module_data a = actor_module_data b \<and>
      length (keys (actor_attributes a)) = length (keys (actor_attributes b)) \<and>
      length (keys (actor_resources a)) = length (keys (actor_resources b)) \<and>
      list_all (\<lambda>k. fmlookup (actor_attributes b) k = fmlookup (actor_attributes a) k)
        (keys (actor_attributes a)) \<and>
      list_all (\<lambda>k. map_option res_max (fmlookup (actor_resources b) k) =
                  map_option res_max (fmlookup (actor_resources a) k))
        (keys (actor_resources a)))"

definition shown_with :: "actor \<Rightarrow> bool \<Rightarrow> actor" where
  "shown_with a whole =
     (if whole then a
      else zero_actor\<lparr>actor_id := actor_id a, actor_module_id := actor_module_id a,
             actor_kind_of := actor_kind_of a, actor_controller_id := actor_controller_id a,
             actor_controller_ids := actor_controller_ids a\<rparr>)"

definition shown_as :: "actor \<Rightarrow> actor" where
  "shown_as a = shown_with a (is_party_member (Some a))"

definition unseen_as :: "actor \<Rightarrow> actor" where
  "unseen_as a = (shown_with a False)\<lparr>actor_name := actor_name a\<rparr>"

definition belief_of :: "actor \<Rightarrow> actor_condition list \<Rightarrow> actor_belief" where
  "belief_of a cs =
     \<lparr>ab_resources = fmmap res_current (actor_resources a), ab_conditions = map ac_id cs,
      ab_controllers = actor_controller_ids a, ab_kind = actor_kind_of a\<rparr>"

subsection \<open>Looking\<close>

definition eyes_in :: "eyes \<Rightarrow> state \<Rightarrow> string list" where
  "eyes_in through st =
     (if eye_controller through \<noteq> [] then
        filter (\<lambda>id. eye_controller through \<in> set (actor_controller_ids (actor_at st id))) (keys (st_actors st))
      else if eye_shoulder through \<noteq> [] then
        (case fmlookup (st_actors st) (eye_shoulder through) of
           None \<Rightarrow> []
         | Some a \<Rightarrow> if is_party_member (Some a) then [eye_shoulder through] else [])
      else [])"

text \<open>\<open>sightRangeNotSupplied\<close> and \<open>toleranceNotSupplied\<close> are both 0.\<close>

definition look_token :: "state \<Rightarrow> string \<Rightarrow> string \<Rightarrow> (string, string fset) fmap \<Rightarrow> (string, string fset) fmap" where
  "look_token st eye tid sqs =
     (let tok = token_at st tid in
      if tok_actor_id tok \<noteq> eye then sqs
      else case fmlookup (st_scenes st) (tok_scene_id tok) of
        None \<Rightarrow> sqs
      | Some sc \<Rightarrow>
          fmupd (tok_scene_id tok)
            (set_at sqs (tok_scene_id tok) |\<union>| fmdom (visible_from sc (tok_x tok) (tok_y tok) 0 0)) sqs)"

definition look_squares :: "state \<Rightarrow> string list \<Rightarrow> (string, string fset) fmap" where
  "look_squares st es =
     fold (\<lambda>eye. fold (look_token st eye) (keys (st_tokens st))) es fmempty"

definition token_lit :: "(string, string fset) fmap \<Rightarrow> token \<Rightarrow> bool" where
  "token_lit sqs tok = (grid_key (tok_x tok) (tok_y tok) |\<in>| set_at sqs (tok_scene_id tok))"

definition look :: "eyes \<Rightarrow> state \<Rightarrow> sight_view" where
  "look through st =
     (let es = eyes_in through st;
          sqs = look_squares st es;
          lit = ffilter (\<lambda>tid. token_lit sqs (token_at st tid)) (fmdom (st_tokens st));
          lit_actors = (\<lambda>tid. tok_actor_id (token_at st tid)) |`| lit;
          party = ffilter (\<lambda>id. is_party_member (Some (actor_at st id))) (fmdom (st_actors st))
      in \<lparr>sv_squares = sqs, sv_tokens = lit,
          sv_actors = fset_of_list es |\<union>| lit_actors |\<union>| party,
          sv_sees = fset_of_list es |\<union>| lit_actors,
          sv_party = party, sv_eyes = fset_of_list es\<rparr>)"

definition can_see_square :: "sight_view \<Rightarrow> string \<Rightarrow> grid_position option \<Rightarrow> bool" where
  "can_see_square now sid at =
     (case at of None \<Rightarrow> False
      | Some p \<Rightarrow> grid_key (gp_x p) (gp_y p) |\<in>| set_at (sv_squares now) sid)"

definition can_see :: "eyes \<Rightarrow> state \<Rightarrow> string \<Rightarrow> grid_position option \<Rightarrow> bool" where
  "can_see e st sid at = can_see_square (look e st) sid at"

definition sees_actor :: "eyes \<Rightarrow> state \<Rightarrow> string \<Rightarrow> bool" where
  "sees_actor e st aid = (aid |\<in>| sv_sees (look e st))"

subsection \<open>Status corrections\<close>

definition resource_frame :: "int \<Rightarrow> string \<Rightarrow> string \<Rightarrow> int32 \<Rightarrow> int32 \<Rightarrow> envelope" where
  "resource_frame seq aid name delta nv =
     frame seq (ResourceChanged \<lparr>rc_actor_id = aid, rc_resource = name, rc_delta = delta,
       rc_new_value = nv, rc_reason = []\<rparr>)"

definition condition_frame :: "(condition_event \<Rightarrow> payload) \<Rightarrow> int \<Rightarrow> string \<Rightarrow> string \<Rightarrow> envelope" where
  "condition_frame event seq aid cid = frame seq (event \<lparr>ce_actor_id = aid, ce_condition_id = cid, ce_source = []\<rparr>)"

definition grant_frame :: "int \<Rightarrow> string \<Rightarrow> string \<Rightarrow> actor_kind \<Rightarrow> envelope" where
  "grant_frame seq aid pid kind =
     frame seq (ActorControlGranted \<lparr>cg_actor_id = aid, cg_participant_id = pid, cg_kind = kind\<rparr>)"

text \<open>The frames that move one resource from \<open>was\<close> to \<open>cur\<close>: through zero when the step does not fit.\<close>

definition resource_step :: "int \<Rightarrow> string \<Rightarrow> string \<Rightarrow> int32 \<Rightarrow> int32 \<Rightarrow> envelope list" where
  "resource_step seq aid name was cur =
     (if cur = was then []
      else if 2147483647 < sint (widen cur - widen was)
      then [resource_frame seq aid name 0 0, resource_frame seq aid name cur cur]
      else [resource_frame seq aid name (cur - was) cur])"

fun resource_frames :: "int \<Rightarrow> string \<Rightarrow> (string, int32) fmap \<Rightarrow> (string, resource) fmap \<Rightarrow> string list \<Rightarrow>
    envelope list option" where
  "resource_frames seq aid was res [] = Some []"
| "resource_frames seq aid was res (name # names) =
     (case fmlookup was name of
        None \<Rightarrow> None
      | Some w \<Rightarrow>
          (case resource_frames seq aid was res names of
             None \<Rightarrow> None
           | Some fs \<Rightarrow>
               Some (resource_step seq aid name w
                 (case fmlookup res name of None \<Rightarrow> 0 | Some r \<Rightarrow> res_current r) @ fs)))"

definition condition_frames :: "int \<Rightarrow> string \<Rightarrow> string list \<Rightarrow> string list \<Rightarrow> envelope list" where
  "condition_frames seq aid believed present =
     map (condition_frame ConditionRemoved seq aid) (filter (\<lambda>c. c \<notin> set present) believed) @
     map (condition_frame ConditionApplied seq aid) (filter (\<lambda>c. c \<notin> set believed) present)"

text \<open>\<^const>\<open>None\<close> is the early \<open>return nil, false\<close>: no grant can carry the kind.\<close>

definition control_frames :: "int \<Rightarrow> string \<Rightarrow> actor_belief \<Rightarrow> actor \<Rightarrow> envelope list option" where
  "control_frames seq aid b a =
     (let new = filter (\<lambda>c. c \<notin> set (ab_controllers b)) (actor_controller_ids a);
          grants = map (\<lambda>c. grant_frame seq aid c (actor_kind_of a)) new;
          revokes = map (\<lambda>c. frame seq (ActorControlRevoked aid c))
            (filter (\<lambda>c. c \<notin> set (actor_controller_ids a)) (ab_controllers b))
      in if actor_kind_of a \<noteq> ab_kind b \<and> new = []
         then (case ab_controllers b of
                 [] \<Rightarrow> None
               | c # _ \<Rightarrow>
                   if actor_kind_of a = KIND_UNSPECIFIED then None
                   else Some (grants @ [grant_frame seq aid c (actor_kind_of a)] @ revokes))
         else Some (grants @ revokes))"

definition status_frames :: "string \<Rightarrow> int \<Rightarrow> actor_belief \<Rightarrow> actor \<Rightarrow> actor_condition list \<Rightarrow>
    envelope list option" where
  "status_frames aid seq b a cs =
     (if length (keys (actor_resources a)) \<noteq> length (keys (ab_resources b)) then None
      else case resource_frames seq aid (ab_resources b) (actor_resources a) (keys (actor_resources a)) of
        None \<Rightarrow> None
      | Some rs \<Rightarrow>
          (case control_frames seq aid b a of
             None \<Rightarrow> None
           | Some gs \<Rightarrow> Some (rs @ condition_frames seq aid (ab_conditions b) (map ac_id cs) @ gs)))"

subsection \<open>Starting a projection\<close>

definition fresh_projection :: "eyes \<Rightarrow> projection" where
  "fresh_projection e =
     \<lparr>pj_through = e, pj_scenes = {||}, pj_actors = {||}, pj_tokens = {||}, pj_token_actor = fmempty,
      pj_token_text = fmempty, pj_seen = fmempty, pj_doors = fmempty, pj_notes = {||},
      pj_sighted = {||}, pj_belief = fmempty, pj_gone = {||}, pj_reshaped = {||}\<rparr>"

definition new_projection :: "eyes \<Rightarrow> state option \<Rightarrow> projection" where
  "new_projection e world =
     (case world of
        None \<Rightarrow> fresh_projection e
      | Some st \<Rightarrow> (fresh_projection e)\<lparr>pj_sighted := sv_sees (look e st)\<rparr>)"

definition up_to_date :: "state \<Rightarrow> state \<Rightarrow> string \<Rightarrow> bool" where
  "up_to_date shown world aid =
     (case fmlookup (st_actors shown) aid of
        None \<Rightarrow> False
      | Some held \<Rightarrow>
          same_incarnation held (shown_as (actor_at world aid)) \<and>
          status_frames aid 0 (belief_of held (conditions_of shown aid)) (shown_as (actor_at world aid))
            (conditions_of world aid) = Some [])"

definition resume :: "eyes \<Rightarrow> state \<Rightarrow> state \<Rightarrow> projection" where
  "resume e shown world =
     (let pr = new_projection e (Some world)
      in if list_all (up_to_date shown world) (sorted_set (pj_sighted pr)) then pr
         else new_projection e None)"

text \<open>
  \<open>recall\<close> rebuilds every field but \<open>sighted\<close> from the viewer's fold. A held actor is gone when it
  is neither the world's as the held kind shows it nor its unseen form, and reshaped when it is one
  of these but not what the world's kind shows.
\<close>

definition held_gone :: "state \<Rightarrow> string \<Rightarrow> actor \<Rightarrow> bool" where
  "held_gone st aid a =
     (case fmlookup (st_actors st) aid of
        None \<Rightarrow> False
      | Some w \<Rightarrow> \<not> same_incarnation a (shown_with w (is_party_member (Some a))) \<and> \<not> same_incarnation a (unseen_as w))"

definition held_reshaped :: "state \<Rightarrow> string \<Rightarrow> actor \<Rightarrow> bool" where
  "held_reshaped st aid a =
     (case fmlookup (st_actors st) aid of
        None \<Rightarrow> False
      | Some w \<Rightarrow> \<not> held_gone st aid a \<and> \<not> same_incarnation a (shown_as w))"

definition lit_scenes :: "state \<Rightarrow> (string, string fset) fmap" where
  "lit_scenes shown =
     fmfilter (\<lambda>id. true_keys (sc_visible (scene_at shown id)) \<noteq> {||})
       (fmmap (\<lambda>sc. true_keys (sc_visible sc)) (st_scenes shown))"

definition recall :: "projection \<Rightarrow> state \<Rightarrow> state \<Rightarrow> projection" where
  "recall pr shown st =
     pr\<lparr>pj_scenes := fmdom (st_scenes shown),
        pj_seen := lit_scenes shown,
        pj_doors := fmmap (\<lambda>sc. true_keys (sc_open_doors sc)) (st_scenes shown),
        pj_tokens := fmdom (st_tokens shown),
        pj_token_actor := fmmap tok_actor_id (st_tokens shown),
        pj_token_text := fmmap (\<lambda>t. (tok_name t, tok_notes t)) (st_tokens shown),
        pj_notes := fmdom (st_notes shown),
        pj_actors := fmdom (st_actors shown),
        pj_belief := fmmap_keys (\<lambda>id a. belief_of a (conditions_of shown id)) (st_actors shown),
        pj_gone := ffilter (\<lambda>id. held_gone st id (actor_at shown id)) (fmdom (st_actors shown)),
        pj_reshaped := ffilter (\<lambda>id. held_reshaped st id (actor_at shown id)) (fmdom (st_actors shown))\<rparr>"

subsection \<open>Actors entering the viewer's fold\<close>

definition hide_frame :: "int \<Rightarrow> string \<Rightarrow> envelope" where
  "hide_frame seq tid = frame seq (TokenHidden tid)"

definition hide_tokens_of :: "string \<Rightarrow> int \<Rightarrow> projection \<Rightarrow> envelope list \<times> projection" where
  "hide_tokens_of aid seq pr =
     (let ts = ffilter (\<lambda>tid. fmlookup (pj_token_actor pr) tid = Some aid) (pj_tokens pr)
      in (map (hide_frame seq) (sorted_set ts), pr\<lparr>pj_tokens := pj_tokens pr |-| ts\<rparr>))"

definition withdraw :: "string \<Rightarrow> int \<Rightarrow> projection \<Rightarrow> envelope \<times> projection" where
  "withdraw aid seq pr =
     (frame seq (ActorRemoved aid),
      pr\<lparr>pj_actors := pj_actors pr |-| {|aid|}, pj_belief := fmdrop aid (pj_belief pr),
         pj_gone := pj_gone pr |-| {|aid|}\<rparr>)"

definition introduction :: "string \<Rightarrow> int \<Rightarrow> actor \<Rightarrow> bool \<Rightarrow> actor_condition list \<Rightarrow> envelope list" where
  "introduction aid seq a seen cs =
     (let held = (if seen then shown_as a else unseen_as a)
      in frame seq (ActorAdded (Some (held\<lparr>actor_controller_id := [], actor_controller_ids := []\<rparr>))) #
         map (\<lambda>c. grant_frame seq aid c (actor_kind_of a)) (actor_controller_ids held) @
         (if seen then map (\<lambda>c. condition_frame ConditionApplied seq aid (ac_id c)) cs else []))"

definition introduce :: "string \<Rightarrow> int \<Rightarrow> actor \<Rightarrow> bool \<Rightarrow> state \<Rightarrow> projection \<Rightarrow> envelope list \<times> projection" where
  "introduce aid seq a seen st pr =
     (introduction aid seq a seen (conditions_of st aid), pr\<lparr>pj_actors := finsert aid (pj_actors pr)\<rparr>)"

text \<open>Withdrawing a held actor: its tokens are hidden first, or its ActorRemoved would not fold.\<close>

definition retire :: "string \<Rightarrow> int \<Rightarrow> projection \<Rightarrow> envelope list \<times> projection" where
  "retire aid seq pr =
     (let (hides, pr1) = hide_tokens_of aid seq pr; (gone, pr2) = withdraw aid seq pr1
      in (hides @ [gone], pr2))"

definition belief_at :: "projection \<Rightarrow> string \<Rightarrow> actor_belief" where
  "belief_at pr aid =
     (case fmlookup (pj_belief pr) aid of
        None \<Rightarrow> \<lparr>ab_resources = fmempty, ab_conditions = [], ab_controllers = [], ab_kind = KIND_UNSPECIFIED\<rparr>
      | Some b \<Rightarrow> b)"

definition correct :: "string \<Rightarrow> int \<Rightarrow> actor \<Rightarrow> state \<Rightarrow> projection \<Rightarrow> envelope list \<times> projection" where
  "correct aid seq a st pr =
     (case status_frames aid seq (belief_at pr aid) (shown_as a) (conditions_of st aid) of
        Some fix \<Rightarrow> (fix, pr)
      | None \<Rightarrow>
          let (out, pr1) = retire aid seq pr; (ins, pr2) = introduce aid seq a True st pr1
          in (out @ ins, pr2))"

text \<open>One turn of the loop over \<open>sortedSet(now.actors)\<close>.\<close>

definition actor_transition :: "int \<Rightarrow> sight_view \<Rightarrow> state \<Rightarrow> string \<Rightarrow> projection \<Rightarrow> envelope list \<times> projection" where
  "actor_transition seq now st aid pr =
     (case fmlookup (st_actors st) aid of
        None \<Rightarrow> ([], pr)
      | Some a \<Rightarrow>
          let sees = (aid |\<in>| sv_sees now);
              (out, pr1) =
                (if aid |\<in>| pj_gone pr \<or> aid |\<in>| pj_reshaped pr \<and> sees then retire aid seq pr else ([], pr));
              (more_frames, pr2) =
                (if aid |\<notin>| pj_actors pr1 then introduce aid seq a sees st pr1
                 else if sees \<and> aid |\<notin>| pj_sighted pr1 then correct aid seq a st pr1
                 else ([], pr1))
          in (out @ more_frames, pr2))"

subsection \<open>Squares\<close>

definition parse_int32 :: "string \<Rightarrow> int32 option" where
  "parse_int32 s =
     (let (neg, ds) = (case s of
            [] \<Rightarrow> (False, [])
          | c # r \<Rightarrow> if c = CHR ''-'' then (True, r) else if c = CHR ''+'' then (False, r) else (False, s));
          v = (if neg then - int (nat_of_digits ds) else int (nat_of_digits ds))
      in if ds = [] \<or> \<not> list_all is_digit ds \<or> v < - 2147483648 \<or> 2147483647 < v then None
         else Some (word_of_int v))"

text \<open>\<open>strings.Cut(sq, ",")\<close>: \<^const>\<open>None\<close> when there is no comma.\<close>

fun cut_comma :: "string \<Rightarrow> (string \<times> string) option" where
  "cut_comma [] = None"
| "cut_comma (c # cs) =
     (if c = CHR '','' then Some ([], cs)
      else map_option (\<lambda>(a, b). (c # a, b)) (cut_comma cs))"

definition square_at :: "string \<Rightarrow> grid_position option" where
  "square_at sq =
     (case cut_comma sq of
        None \<Rightarrow> None
      | Some (xs, ys) \<Rightarrow>
          (case parse_int32 xs of
             None \<Rightarrow> None
           | Some x \<Rightarrow>
               (case parse_int32 ys of None \<Rightarrow> None | Some y \<Rightarrow> Some \<lparr>gp_x = x, gp_y = y\<rparr>)))"

subsection \<open>Doors\<close>

definition door_subject :: "envelope option \<Rightarrow> (string \<times> string) option" where
  "door_subject cause =
     (case cause of
        None \<Rightarrow> None
      | Some env \<Rightarrow>
          (case env_payload env of
             Some (DoorOpened sid (Some p)) \<Rightarrow> Some (sid, grid_key (gp_x p) (gp_y p))
           | Some (DoorClosed sid (Some p)) \<Rightarrow> Some (sid, grid_key (gp_x p) (gp_y p))
           | _ \<Rightarrow> None))"

definition door_square :: "(string \<times> string) option \<Rightarrow> int \<Rightarrow> string \<Rightarrow> scene \<Rightarrow> string \<Rightarrow> string fset \<Rightarrow>
    envelope list \<times> string fset" where
  "door_square subject seq sid sc sq believed =
     (let open_now = go_flag (sc_open_doors sc) sq;
          believed' = (if open_now then finsert sq believed else believed |-| {|sq|})
      in if open_now = (sq |\<in>| believed) then ([], believed)
         else if subject = Some (sid, sq) then ([], believed')
         else case square_at sq of
           None \<Rightarrow> ([], believed)
         | Some at \<Rightarrow>
             ([frame seq ((if open_now then DoorOpened else DoorClosed) sid (Some at))], believed'))"

fun door_squares :: "(string \<times> string) option \<Rightarrow> int \<Rightarrow> string \<Rightarrow> scene \<Rightarrow> string list \<Rightarrow> string fset \<Rightarrow>
    envelope list \<times> string fset" where
  "door_squares subject seq sid sc [] believed = ([], believed)"
| "door_squares subject seq sid sc (sq # sqs) believed =
     (let (out, b1) = door_square subject seq sid sc sq believed;
          (rest, b2) = door_squares subject seq sid sc sqs b1
      in (out @ rest, b2))"

fun door_scenes :: "(string \<times> string) option \<Rightarrow> int \<Rightarrow> sight_view \<Rightarrow> state \<Rightarrow> string list \<Rightarrow> projection \<Rightarrow>
    envelope list \<times> projection" where
  "door_scenes subject seq now st [] pr = ([], pr)"
| "door_scenes subject seq now st (sid # sids) pr =
     (case fmlookup (st_scenes st) sid of
        None \<Rightarrow> door_scenes subject seq now st sids pr
      | Some sc \<Rightarrow>
          let (out, b) = door_squares subject seq sid sc (sorted_set (set_at (sv_squares now) sid))
                           (set_at (pj_doors pr) sid);
              (rest, pr') = door_scenes subject seq now st sids (pr\<lparr>pj_doors := fmupd sid b (pj_doors pr)\<rparr>)
          in (out @ rest, pr'))"

definition door_transitions :: "envelope option \<Rightarrow> int \<Rightarrow> sight_view \<Rightarrow> state \<Rightarrow> projection \<Rightarrow>
    envelope list \<times> projection" where
  "door_transitions cause seq now st pr =
     door_scenes (door_subject cause) seq now st (keys (sv_squares now)) pr"

subsection \<open>Scenes, tokens and notes\<close>

definition scene_frame :: "int \<Rightarrow> scene \<Rightarrow> envelope" where
  "scene_frame seq sc =
     frame seq (SceneCreated \<lparr>scr_scene_id = sc_id sc, scr_name = sc_name sc,
       scr_grid_width = sc_grid_width sc, scr_grid_height = sc_grid_height sc,
       scr_tiles = fmempty, scr_objects = []\<rparr>)"

fun introduce_scenes :: "int \<Rightarrow> state \<Rightarrow> string list \<Rightarrow> projection \<Rightarrow> envelope list \<times> projection" where
  "introduce_scenes seq st [] pr = ([], pr)"
| "introduce_scenes seq st (sid # sids) pr =
     (if sid |\<in>| pj_scenes pr then introduce_scenes seq st sids pr
      else let (rest, pr') = introduce_scenes seq st sids (pr\<lparr>pj_scenes := finsert sid (pj_scenes pr)\<rparr>)
           in (scene_frame seq (scene_at st sid) # rest, pr'))"

fun actor_transitions :: "int \<Rightarrow> sight_view \<Rightarrow> state \<Rightarrow> string list \<Rightarrow> projection \<Rightarrow> envelope list \<times> projection" where
  "actor_transitions seq now st [] pr = ([], pr)"
| "actor_transitions seq now st (aid # aids) pr =
     (let (out, pr1) = actor_transition seq now st aid pr;
          (rest, pr2) = actor_transitions seq now st aids pr1
      in (out @ rest, pr2))"

definition hide_unseen :: "int \<Rightarrow> sight_view \<Rightarrow> projection \<Rightarrow> envelope list \<times> projection" where
  "hide_unseen seq now pr =
     (map (hide_frame seq) (filter (\<lambda>tid. tid |\<notin>| sv_tokens now) (sorted_set (pj_tokens pr))),
      pr\<lparr>pj_tokens := ffilter (\<lambda>tid. tid |\<in>| sv_tokens now) (pj_tokens pr)\<rparr>)"

definition place_frame :: "int \<Rightarrow> string \<Rightarrow> token \<Rightarrow> envelope" where
  "place_frame seq tid tok =
     frame seq (TokenPlaced \<lparr>tp_token_id = tid, tp_scene_id = tok_scene_id tok, tp_actor_id = tok_actor_id tok,
       tp_position = Some \<lparr>gp_x = tok_x tok, gp_y = tok_y tok\<rparr>,
       tp_name = tok_name tok, tp_notes = tok_notes tok, tp_gm_name = [], tp_gm_notes = []\<rparr>)"

definition place_seen :: "int \<Rightarrow> sight_view \<Rightarrow> state \<Rightarrow> projection \<Rightarrow> envelope list \<times> projection" where
  "place_seen seq now st pr =
     (map (\<lambda>tid. place_frame seq tid (token_at st tid))
        (filter (\<lambda>tid. tid |\<notin>| pj_tokens pr) (sorted_set (sv_tokens now))),
      pr\<lparr>pj_tokens := pj_tokens pr |\<union>| sv_tokens now\<rparr>)"

text \<open>The walk over an object's footprint, clamped to the grid, its far edges not wrapped.\<close>

definition object_in_sight :: "scene_object \<Rightarrow> scene \<Rightarrow> string fset \<Rightarrow> bool" where
  "object_in_sight ob sc squares =
     (if sint (so_width ob) < 1 \<or> sint (so_height ob) < 1 then False
      else list_ex (\<lambda>y. list_ex (\<lambda>x. grid_key (word_of_int x) (word_of_int y) |\<in>| squares)
             [max (sint (so_x ob)) 0 .. min (sint (sc_grid_width sc)) (sint (so_x ob) + sint (so_width ob)) - 1])
           [max (sint (so_y ob)) 0 .. min (sint (sc_grid_height sc)) (sint (so_y ob) + sint (so_height ob)) - 1])"

definition ref_of_tile :: "tile \<Rightarrow> tile_ref" where
  "ref_of_tile t = \<lparr>tr_kind = tile_kind t, tr_material = tile_material t, tr_art = tile_art t\<rparr>"

definition wire_of_object :: "scene_object \<Rightarrow> wire_object" where
  "wire_of_object ob =
     \<lparr>wo_object_id = so_object_id ob, wo_kind = so_kind ob,
      wo_at = Some \<lparr>gp_x = so_x ob, gp_y = so_y ob\<rparr>, wo_width = so_width ob, wo_height = so_height ob,
      wo_rotation = so_rotation ob, wo_blocks_sight = so_blocks_sight ob,
      wo_blocks_move = so_blocks_move ob, wo_art = so_art ob\<rparr>"

definition scene_seen_for :: "scene \<Rightarrow> string fset \<Rightarrow> scene_seen" where
  "scene_seen_for sc squares =
     \<lparr>ssn_scene_id = sc_id sc,
      ssn_tiles = fmmap ref_of_tile (fmfilter (\<lambda>sq. sq |\<in>| squares) (go_make (sc_tiles sc))),
      ssn_objects = map wire_of_object (filter (\<lambda>ob. object_in_sight ob sc squares) (sc_objects sc)),
      ssn_visible = sorted_set squares\<rparr>"

definition seen_scene :: "int \<Rightarrow> sight_view \<Rightarrow> state \<Rightarrow> string \<Rightarrow> projection \<Rightarrow> envelope list \<times> projection" where
  "seen_scene seq now st sid pr =
     (let lit = set_at (sv_squares now) sid in
      if set_at (pj_seen pr) sid = lit then ([], pr)
      else ([frame seq (SceneSeen (scene_seen_for (scene_at st sid) lit))],
            pr\<lparr>pj_seen := (if fmlookup (sv_squares now) sid = None then fmdrop sid (pj_seen pr)
                          else fmupd sid lit (pj_seen pr))\<rparr>))"

fun seen_scenes :: "int \<Rightarrow> sight_view \<Rightarrow> state \<Rightarrow> string list \<Rightarrow> projection \<Rightarrow> envelope list \<times> projection" where
  "seen_scenes seq now st [] pr = ([], pr)"
| "seen_scenes seq now st (sid # sids) pr =
     (let (out, pr1) = seen_scene seq now st sid pr;
          (rest, pr2) = seen_scenes seq now st sids pr1
      in (out @ rest, pr2))"

definition note_public :: "state \<Rightarrow> string \<Rightarrow> bool" where
  "note_public st key =
     (case fmlookup (st_notes st) key of None \<Rightarrow> False | Some n \<Rightarrow> wn_visibility n = VISIBILITY_PUBLIC)"

definition note_transitions :: "int \<Rightarrow> state \<Rightarrow> projection \<Rightarrow> envelope list \<times> projection" where
  "note_transitions seq st pr =
     (map (\<lambda>key. frame seq (NoteDeleted key))
        (filter (\<lambda>key. \<not> note_public st key) (sorted_set (pj_notes pr))),
      pr\<lparr>pj_notes := ffilter (note_public st) (pj_notes pr)\<rparr>)"

subsection \<open>Transitions\<close>

definition forget_removed :: "state \<Rightarrow> projection \<Rightarrow> projection" where
  "forget_removed st pr =
     (let missing = ffilter (\<lambda>id. fmlookup (st_actors st) id = None) (pj_actors pr);
          told = ffilter (\<lambda>id. id |\<in>| pj_sighted pr) missing
      in pr\<lparr>pj_actors := pj_actors pr |-| told, pj_belief := fmdrop_fset told (pj_belief pr),
            pj_gone := pj_gone pr |\<union>| (missing |-| told)\<rparr>)"

definition transitions :: "envelope option \<Rightarrow> int \<Rightarrow> sight_view \<Rightarrow> state \<Rightarrow> projection \<Rightarrow>
    envelope list \<times> projection" where
  "transitions cause seq now st pr =
     (let pr = forget_removed st pr;
          (scenes, pr) = introduce_scenes seq st (keys (sv_squares now)) pr;
          (doors, pr) = door_transitions cause seq now st pr;
          (actors, pr) = actor_transitions seq now st (sorted_set (sv_actors now)) pr;
          (hides, pr) = hide_unseen seq now pr;
          (places, pr) = place_seen seq now st pr;
          (seen, pr) = seen_scenes seq now st (sorted_set (fmdom (pj_seen pr) |\<union>| fmdom (sv_squares now))) pr;
          pr = pr\<lparr>pj_sighted := sv_sees now\<rparr>;
          (notes, pr) = note_transitions seq st pr
      in (scenes @ doors @ actors @ hides @ places @ seen @ notes, pr))"

subsection \<open>Ruling on an event\<close>

datatype verdict = Unrecognised | Withheld | Forwarded

definition pass_if :: "bool \<Rightarrow> verdict" where
  "pass_if ok = (if ok then Forwarded else Withheld)"

definition saw :: "projection \<Rightarrow> string list \<Rightarrow> bool" where
  "saw pr ids = list_all (\<lambda>id. id = [] \<or> id |\<in>| pj_sighted pr) ids"

definition classify :: "projection \<Rightarrow> envelope \<Rightarrow> sight_view \<Rightarrow> verdict" where
  "classify pr env now =
     (case env_payload env of
        None \<Rightarrow> Unrecognised
      | Some p \<Rightarrow>
         (case p of
            SessionStarted _ \<Rightarrow> Forwarded
          | SessionEnded \<Rightarrow> Forwarded
          | NarrationAdded _ \<Rightarrow> Forwarded
          | WhisperAdded w \<Rightarrow> pass_if (wa_from_actor_id w |\<in>| sv_eyes now \<or>
              list_ex (\<lambda>id. id |\<in>| sv_eyes now) (wa_to_actor_ids w))
          | SceneCreated _ \<Rightarrow> Withheld
          | ActorAdded _ \<Rightarrow> Withheld
          | TokenPlaced _ \<Rightarrow> Withheld
          | TokenDescribed td \<Rightarrow> pass_if (td_token_id td |\<in>| pj_tokens pr \<and> td_token_id td |\<in>| sv_tokens now \<and>
              (case fmlookup (pj_token_text pr) (td_token_id td) of None \<Rightarrow> ([], []) | Some t \<Rightarrow> t)
                \<noteq> (td_name td, td_notes td))
          | TokenRemoved _ \<Rightarrow> Withheld
          | TokenHidden _ \<Rightarrow> Withheld
          | SceneSeen _ \<Rightarrow> Withheld
          | NoteUpserted nu \<Rightarrow> pass_if (nu_visibility nu = VISIBILITY_PUBLIC)
          | NoteDeleted _ \<Rightarrow> Withheld
          | AdventureLoaded _ _ \<Rightarrow> Withheld
          | TokenMoved tm \<Rightarrow> pass_if (tm_token_id tm |\<in>| pj_tokens pr \<and> tm_token_id tm |\<in>| sv_tokens now)
          | DoorOpened sid at \<Rightarrow> pass_if (can_see_square now sid at)
          | DoorClosed sid at \<Rightarrow> pass_if (can_see_square now sid at)
          | AttackRolled ar \<Rightarrow> pass_if (saw pr [ar_attacker_id ar, ar_target_id ar])
          | AbilityUsed au \<Rightarrow> pass_if (saw pr (au_actor_id au # au_target_ids au))
          | ActorControlGranted g \<Rightarrow> pass_if (saw pr [cg_actor_id g])
          | ActorControlRevoked aid _ \<Rightarrow> pass_if (saw pr [aid])
          | ResourceChanged rc \<Rightarrow> pass_if (rc_actor_id rc |\<in>| sv_party now \<and> saw pr [rc_actor_id rc])
          | ConditionApplied ca \<Rightarrow> pass_if (saw pr [ce_actor_id ca])
          | ConditionRemoved cr \<Rightarrow> pass_if (saw pr [ce_actor_id cr])
          | ActorRemoved aid \<Rightarrow> pass_if (saw pr [aid])))"

definition clean_payload :: "payload \<Rightarrow> payload" where
  "clean_payload p =
     (case p of
        TokenMoved tm \<Rightarrow> TokenMoved (tm\<lparr>tm_reason := []\<rparr>)
      | ResourceChanged rc \<Rightarrow> ResourceChanged (rc\<lparr>rc_reason := []\<rparr>)
      | ConditionApplied ca \<Rightarrow> ConditionApplied (ca\<lparr>ce_source := []\<rparr>)
      | ConditionRemoved cr \<Rightarrow> ConditionRemoved (cr\<lparr>ce_source := []\<rparr>)
      | TokenDescribed td \<Rightarrow> TokenDescribed (td\<lparr>td_gm_name := [], td_gm_notes := []\<rparr>)
      | _ \<Rightarrow> p)"

definition forwardable :: "envelope \<Rightarrow> envelope" where
  "forwardable env =
     env\<lparr>env_participant_id := [], env_actor_role := [], env_payload := map_option clean_payload (env_payload env)\<rparr>"

definition own_recipients :: "sight_view \<Rightarrow> payload \<Rightarrow> payload" where
  "own_recipients now p =
     (case p of
        WhisperAdded w \<Rightarrow> WhisperAdded (w\<lparr>wa_to_actor_ids := filter (\<lambda>id. id |\<in>| sv_eyes now) (wa_to_actor_ids w)\<rparr>)
      | _ \<Rightarrow> p)"

definition project_event :: "eyes \<Rightarrow> envelope \<Rightarrow> state \<Rightarrow> state \<Rightarrow> projection \<Rightarrow> envelope list \<times> projection" where
  "project_event e env shown st pr =
     (let pr = recall (pr\<lparr>pj_through := e\<rparr>) shown st;
          now = look e st;
          v = classify pr env now
      in if v = Unrecognised then ([], pr)
         else
           let (out, pr) = transitions (Some env) (env_sequence env) now st pr;
               f = forwardable env
           in (if v = Forwarded
               then out @ [f\<lparr>env_payload := map_option (own_recipients now) (env_payload f)\<rparr>]
               else out, pr))"

definition perch :: "eyes \<Rightarrow> state \<Rightarrow> state \<Rightarrow> int \<Rightarrow> projection \<Rightarrow> envelope list \<times> projection" where
  "perch e shown st seq pr =
     transitions None seq (look e st) st (recall (pr\<lparr>pj_through := e\<rparr>) shown st)"

end
