(* ===== verification/Sight_Props.thy ===== *)
theory Sight_Props
  imports Sight Scene_Props
begin

text \<open>
  What sight promises: the early exit decides the same squares as counting all nine samples, more
  light in (fewer blockers, a longer range, a lower tolerance) never hides a square, opening a
  door never does, a viewer sees the square it stands on, and sight and movement read walls,
  doors and footprints alike.
\<close>

subsection \<open>The loops against their specifications\<close>

lemma clear_iff:
  "clear from to bs \<longleftrightarrow>
     (\<forall>b \<in> set bs. contains_point b from \<or> contains_point b to \<or> \<not> segment_hits_rect from to b)"
  by (induction bs) auto

lemma clear_subset: "clear from to bs \<Longrightarrow> set bs' \<subseteq> set bs \<Longrightarrow> clear from to bs'"
  by (auto simp: clear_iff)

text \<open>Counting every sample instead of stopping at the one that suffices.\<close>

definition exposed :: "point \<Rightarrow> rect list \<Rightarrow> point list \<Rightarrow> int" where
  "exposed eye bs ps = int (length (filter (\<lambda>p. clear eye p bs) ps))"

lemma exposed_nonneg [simp]: "0 \<le> exposed eye bs ps"
  by (simp add: exposed_def)

lemma exposed_Nil [simp]: "exposed eye bs [] = 0"
  by (simp add: exposed_def)

lemma exposed_Cons [simp]: "exposed eye bs (p # ps) = (if clear eye p bs then 1 else 0) + exposed eye bs ps"
  by (simp add: exposed_def)

lemma reaches_iff:
  "n < want \<Longrightarrow> reaches eye bs want n ps \<longleftrightarrow> want \<le> n + exposed eye bs ps"
proof (induction ps arbitrary: n)
  case Nil
  then show ?case by simp
next
  case (Cons p ps)
  have "0 \<le> exposed eye bs ps" by simp
  then show ?case using Cons.IH[of n] Cons.IH[of "n + 1"] Cons.prems
    by (cases "clear eye p bs"; cases "want \<le> n + 1") (auto simp del: exposed_nonneg)
qed

lemma exposed_mono:
  "set bs' \<subseteq> set bs \<Longrightarrow> exposed eye bs ps \<le> exposed eye bs' ps"
  by (induction ps) (auto dest: clear_subset)

definition eye_of :: "int32 \<Rightarrow> int32 \<Rightarrow> point" where
  "eye_of ox oy = (fadd (float64 ox) (1 / 2), fadd (float64 oy) (1 / 2))"

definition wanted :: "go_int \<Rightarrow> int" where
  "wanted tol = max 1 (sint tol)"

lemma square_seen_iff:
  "square_seen sc ox oy rng tol (x, y) \<longleftrightarrow>
     (sint rng \<le> 0 \<or> sint (chebyshev ox oy x y) \<le> sint rng) \<and>
     wanted tol \<le> exposed (eye_of ox oy) (blockers sc) (sample_points x y)"
proof -
  have w: "(if sint tol \<le> 0 then 1 else sint tol) = wanted tol" and "0 < wanted tol"
    by (auto simp: wanted_def)
  then show ?thesis
    using reaches_iff[of 0 "wanted tol" "eye_of ox oy" "blockers sc" "sample_points x y"]
    by (auto simp: square_seen_def Let_def eye_of_def[symmetric])
qed

lemma sint_axis:
  assumes "i < nat (sint (n :: int32))"
  shows "sint (word_of_nat i :: int32) = int i"
proof -
  have "sint (word_of_int (int i) :: int32) = int i"
    using assms sint32_bounds[of n] by (intro sint_of_int32) linarith+
  then show ?thesis by simp
qed

lemma set_axis: "set (axis n) = {x. 0 \<le> sint x \<and> sint x < sint n}"
proof (intro set_eqI iffI)
  fix x :: int32 assume "x \<in> set (axis n)"
  then obtain i where i: "i < nat (sint n)" "x = word_of_int (int i)" by (auto simp: axis_def)
  then show "x \<in> {x. 0 \<le> sint x \<and> sint x < sint n}" by (auto simp: sint_axis)
next
  fix x :: int32 assume "x \<in> {x. 0 \<le> sint x \<and> sint x < sint n}"
  then have "nat (sint x) \<in> set [0..<nat (sint n)]" "x = word_of_int (int (nat (sint x)))" by auto
  then show "x \<in> set (axis n)" unfolding axis_def set_map by (rule rev_image_eqI)
qed

lemma set_grid_squares: "(x, y) \<in> set (grid_squares sc) \<longleftrightarrow> in_grid sc x y"
  by (auto simp: grid_squares_def set_axis in_grid_def)

lemma fmlookup_mark:
  "fmlookup (fold (\<lambda>sq m. fmupd (grid_key (fst sq) (snd sq)) True m) sqs m) k =
     (if k \<in> (\<lambda>sq. grid_key (fst sq) (snd sq)) ` set sqs then Some True else fmlookup m k)"
  by (induction sqs arbitrary: m) auto

lemma fmlookup_visible_from:
  "fmlookup (visible_from sc ox oy rng tol) k =
     (if \<exists>x y. in_grid sc x y \<and> square_seen sc ox oy rng tol (x, y) \<and> k = grid_key x y
      then Some True else None)"
proof -
  have "k \<in> (\<lambda>sq. grid_key (fst sq) (snd sq)) ` set (filter (square_seen sc ox oy rng tol) (grid_squares sc)) \<longleftrightarrow>
    (\<exists>x y. in_grid sc x y \<and> square_seen sc ox oy rng tol (x, y) \<and> k = grid_key x y)"
    by (force simp: set_grid_squares[symmetric] image_iff)
  then show ?thesis by (simp only: visible_from_def fmlookup_mark fmempty_lookup)
qed

text \<open>The key set \<open>VisibleFrom\<close> returns; every entry of its map is \<open>true\<close>.\<close>

definition sees_square :: "scene \<Rightarrow> int32 \<Rightarrow> int32 \<Rightarrow> int32 \<Rightarrow> go_int \<Rightarrow> string \<Rightarrow> bool" where
  "sees_square sc ox oy rng tol k = (fmlookup (visible_from sc ox oy rng tol) k \<noteq> None)"

lemma sees_square_iff:
  "sees_square sc ox oy rng tol k \<longleftrightarrow>
     (\<exists>x y. in_grid sc x y \<and> square_seen sc ox oy rng tol (x, y) \<and> k = grid_key x y)"
  by (simp only: sees_square_def fmlookup_visible_from split: if_split) simp

text \<open>
  C9: \<open>VisibleFrom\<close> holds a key with the value true, or not at all, and holds exactly the keys of
  the squares inside the grid, within the range when one is supplied, of which at least
  \<open>max 1 tolerance\<close> of the nine sample points have a clear ray from the viewer's centre: stopping
  at the sample that suffices decides what counting all nine decides.
\<close>

theorem visible_from_spec:
  "fmlookup (visible_from sc ox oy rng tol) k =
     (if \<exists>x y. k = grid_key x y \<and>
           0 \<le> sint x \<and> sint x < sint (sc_grid_width sc) \<and> 0 \<le> sint y \<and> sint y < sint (sc_grid_height sc) \<and>
           (sint rng \<le> 0 \<or> sint (chebyshev ox oy x y) \<le> sint rng) \<and>
           max 1 (sint tol) \<le> int (length (filter
             (\<lambda>p. clear (fadd (float64 ox) (1 / 2), fadd (float64 oy) (1 / 2)) p (blockers sc))
             (sample_points x y)))
      then Some True else None)"
proof -
  have "(\<exists>x y. in_grid sc x y \<and> square_seen sc ox oy rng tol (x, y) \<and> k = grid_key x y) \<longleftrightarrow>
    (\<exists>x y. k = grid_key x y \<and>
       0 \<le> sint x \<and> sint x < sint (sc_grid_width sc) \<and> 0 \<le> sint y \<and> sint y < sint (sc_grid_height sc) \<and>
       (sint rng \<le> 0 \<or> sint (chebyshev ox oy x y) \<le> sint rng) \<and>
       wanted tol \<le> exposed (eye_of ox oy) (blockers sc) (sample_points x y))"
    unfolding square_seen_iff in_grid_def by blast
  then show ?thesis
    unfolding fmlookup_visible_from by (simp only: wanted_def exposed_def eye_of_def)
qed

subsection \<open>Distance\<close>

text \<open>Between two squares of a grid the wrapped distance is the real one.\<close>

lemma abs32_exact: "sint n \<noteq> - 2147483648 \<Longrightarrow> sint (abs32 n) = \<bar>sint n\<bar>"
  using sint32_bounds[of n] by (auto simp: abs32_def sint_word_ariths signed_take_bit_int_eq_self)

lemma chebyshev_exact:
  assumes "\<bar>sint ax - sint bx\<bar> < 2147483648" and "\<bar>sint ay - sint by\<bar> < 2147483648"
  shows "sint (chebyshev ax ay bx by) = max \<bar>sint ax - sint bx\<bar> \<bar>sint ay - sint by\<bar>"
proof -
  have d: "\<bar>sint a - sint b\<bar> < 2147483648 \<Longrightarrow> sint (a - b :: int32) = sint a - sint b" for a b
    by (simp add: sint_word_ariths signed_take_bit_int_eq_self)
  show ?thesis
    using assms by (auto simp: chebyshev_def Let_def abs32_exact d)
qed

lemma in_grid_close:
  assumes "in_grid sc x y" and "in_grid sc x' y'"
  shows "\<bar>sint x - sint x'\<bar> < 2147483648" "\<bar>sint y - sint y'\<bar> < 2147483648"
  using assms sint32_bounds[of x] sint32_bounds[of x'] sint32_bounds[of y] sint32_bounds[of y']
  by (auto simp: in_grid_def)

subsection \<open>More light never hides a square\<close>

lemma square_seen_mono:
  assumes "square_seen sc ox oy rng tol sq"
    and "set (blockers sc') \<subseteq> set (blockers sc)"
    and "sint rng' \<le> 0 \<or> 0 < sint rng \<and> sint rng \<le> sint rng'"
    and "wanted tol' \<le> wanted tol"
  shows "square_seen sc' ox oy rng' tol' sq"
proof -
  obtain x y where sq: "sq = (x, y)" by (cases sq)
  have "exposed (eye_of ox oy) (blockers sc) (sample_points x y)
      \<le> exposed (eye_of ox oy) (blockers sc') (sample_points x y)"
    by (rule exposed_mono [OF assms(2)])
  with assms show ?thesis unfolding sq square_seen_iff by auto
qed

text \<open>
  Taking blockers away, lengthening the range (or supplying none) and lowering the tolerance
  (or supplying none) never hides a square from a viewer.
\<close>

theorem visible_from_mono:
  assumes "sc_grid_width sc' = sc_grid_width sc" and "sc_grid_height sc' = sc_grid_height sc"
    and "set (blockers sc') \<subseteq> set (blockers sc)"
    and "sint rng' \<le> 0 \<or> 0 < sint rng \<and> sint rng \<le> sint rng'"
    and "sint tol' \<le> max 1 (sint tol)"
    and "fmlookup (visible_from sc ox oy rng tol) k = Some True"
  shows "fmlookup (visible_from sc' ox oy rng' tol') k = Some True"
proof -
  have w: "wanted tol' \<le> wanted tol" using assms(5) by (simp add: wanted_def)
  from assms(6) obtain x y where s: "in_grid sc x y" "square_seen sc ox oy rng tol (x, y)" "k = grid_key x y"
    by (auto simp: fmlookup_visible_from split: if_splits)
  have "square_seen sc' ox oy rng' tol' (x, y)"
    by (rule square_seen_mono [OF s(2) assms(3,4) w])
  with s(1,3) assms(1,2) have "in_grid sc' x y \<and> square_seen sc' ox oy rng' tol' (x, y) \<and> k = grid_key x y"
    by (simp add: in_grid_def)
  then show ?thesis unfolding fmlookup_visible_from by (metis (full_types))
qed

subsection \<open>What a viewer sees of its own square\<close>

lemma tiny_pos: "0 < float_of (1 / 10 ^ 12)"
  by code_simp

lemma clip_axis_still: "clip_axis p 0 lo hi t = (if p < lo \<or> hi < p then None else Some t)"
  using tiny_pos by (simp add: clip_axis_def split: prod.split)

lemma segment_still: "segment_hits_rect p p b \<longleftrightarrow> contains_point b p"
  by (auto simp: segment_hits_rect_def clip_axis_still contains_point_def)

lemma clear_still [simp]: "clear p p bs"
  by (auto simp: clear_iff segment_still)

lemma eye_sampled: "eye_of x y \<in> set (sample_points x y)"
  by (simp add: sample_points_def eye_of_def Let_def)

lemma exposed_own: "1 \<le> exposed (eye_of x y) bs (sample_points x y)"
proof -
  have "eye_of x y \<in> set (filter (\<lambda>p. clear (eye_of x y) p bs) (sample_points x y))"
    using eye_sampled by simp
  then show ?thesis unfolding exposed_def by (cases "filter (\<lambda>p. clear (eye_of x y) p bs) (sample_points x y)") auto
qed

lemma chebyshev_same [simp]: "chebyshev x y x y = 0"
  by (simp add: chebyshev_def abs32_def)

lemma own_square_seen:
  assumes "in_grid sc x y" and "sint tol \<le> 1"
  shows "fmlookup (visible_from sc x y rng tol) (grid_key x y) = Some True"
proof -
  have "wanted tol = 1" using assms(2) by (simp add: wanted_def)
  then have "square_seen sc x y rng tol (x, y)"
    using exposed_own [of x y "blockers sc"] unfolding square_seen_iff by auto
  with assms(1) show ?thesis unfolding fmlookup_visible_from by (metis (full_types))
qed

text \<open>A closed room of one square: a wall stands on it, or nothing does.\<close>

definition cell :: "bool \<Rightarrow> scene" where
  "cell wall = \<lparr>sc_id = ''cell'', sc_name = ''Cell'', sc_grid_width = 1, sc_grid_height = 1,
     sc_tiles = Some (if wall then fmupd ''0,0'' \<lparr>tile_kind = ''wall'', tile_material = [], tile_art = []\<rparr> fmempty
                      else fmempty),
     sc_objects = [], sc_open_doors = None, sc_explored = None, sc_visible = None\<rparr>"

lemma grid_key_00: "grid_key 0 0 = ''0,0''"
  by (simp add: grid_key_def show_int_def show_nat.simps)

lemma axis_1: "axis 1 = [0]"
  by (simp add: axis_def)

lemma cell_blockers: "blockers (cell False) = []" "blockers (cell True) = [square 0 0]"
  by (simp_all add: blockers_def cell_def grid_squares_def axis_1 tile_blocks_def grid_key_00)

theorem visible_from_mono_witness:
  "fmlookup (visible_from (cell False) 0 0 5 0) ''0,0'' = Some True \<and> blockers (cell True) \<noteq> []"
proof -
  have g: "in_grid (cell True) 0 0" by (simp add: in_grid_def cell_def)
  have "fmlookup (visible_from (cell True) 0 0 3 1) ''0,0'' = Some True"
    using own_square_seen [OF g, of 1 3] by (simp add: grid_key_00)
  then have "fmlookup (visible_from (cell False) 0 0 5 0) ''0,0'' = Some True"
    by (rule visible_from_mono [rotated 5]) (simp_all add: cell_blockers, simp_all add: cell_def)
  then show ?thesis by (simp add: cell_blockers)
qed

text \<open>
  A viewer standing inside the grid sees its own square, whatever stands there or around it and
  whatever the range, when one exposed sample is enough.
\<close>

theorem own_square_visible:
  assumes "0 \<le> sint x" and "sint x < sint (sc_grid_width sc)"
    and "0 \<le> sint y" and "sint y < sint (sc_grid_height sc)"
    and "sint tol \<le> 1"
  shows "fmlookup (visible_from sc x y rng tol) (grid_key x y) = Some True"
  using own_square_seen [of sc x y tol rng] assms by (simp add: in_grid_def)

theorem own_square_visible_witness:
  "fmlookup (visible_from (cell True) 0 0 0 0) (grid_key 0 0) = Some True"
  by (rule own_square_visible) (simp_all add: cell_def)

subsection \<open>Doors\<close>

lemma blockers_open_door:
  "set (blockers (sc\<lparr>sc_open_doors := Some (fmupd k True (go_make (sc_open_doors sc)))\<rparr>)) \<subseteq> set (blockers sc)"
proof -
  let ?sc = "sc\<lparr>sc_open_doors := Some (fmupd k True (go_make (sc_open_doors sc)))\<rparr>"
  have flag: "go_flag (sc_open_doors sc) k' \<Longrightarrow> go_flag (sc_open_doors ?sc) k'" for k'
    by (cases "sc_open_doors sc") auto
  have "tile_blocks ?sc sq \<Longrightarrow> tile_blocks sc sq" for sq
    using flag [of "grid_key (fst sq) (snd sq)"]
    by (auto simp: tile_blocks_def Let_def split: option.splits if_splits)
  then show ?thesis by (auto simp: blockers_def grid_squares_def)
qed

text \<open>
  Opening a door, as the fold does it, never hides a square: every square a viewer saw in the
  scene before the DoorOpened is seen after it.
\<close>

theorem opening_never_hides:
  assumes "apply_door_opened st sid (Some p) = Inr st'"
    and "fmlookup (st_scenes st) sid = Some sc" and "fmlookup (st_scenes st') sid = Some sc'"
    and "fmlookup (visible_from sc ox oy rng tol) k = Some True"
  shows "fmlookup (visible_from sc' ox oy rng tol) k = Some True"
proof -
  have sc': "sc' = sc\<lparr>sc_open_doors := Some (fmupd (grid_key (gp_x p) (gp_y p)) True (go_make (sc_open_doors sc)))\<rparr>"
    using assms(1-3) by (auto simp: apply_door_opened_def put_scene_def)
  from assms(4) obtain x y where s: "in_grid sc x y" "square_seen sc ox oy rng tol (x, y)" "k = grid_key x y"
    by (auto simp: fmlookup_visible_from split: if_splits)
  have "square_seen sc' ox oy rng tol (x, y)"
    by (rule square_seen_mono [OF s(2)]) (auto simp: sc' blockers_open_door)
  moreover have "in_grid sc' x y" using s(1) by (simp add: sc' in_grid_def)
  ultimately show ?thesis using s(3) unfolding fmlookup_visible_from by (metis (full_types))
qed

theorem opening_never_hides_witness:
  "\<exists>st' sc'. apply_door_opened demo_state ''s1'' (Some \<lparr>gp_x = 1, gp_y = 0\<rparr>) = Inr st' \<and>
     fmlookup (st_scenes st') ''s1'' = Some sc' \<and>
     fmlookup (visible_from sc' 0 0 0 0) (grid_key 0 0) = Some True"
proof -
  obtain sc where sc: "fmlookup (st_scenes demo_state) ''s1'' = Some sc" "in_grid sc 0 0"
    by (simp add: demo_state_def in_grid_def demo_scene_def)
  obtain st' sc' where st': "apply_door_opened demo_state ''s1'' (Some \<lparr>gp_x = 1, gp_y = 0\<rparr>) = Inr st'"
    "fmlookup (st_scenes st') ''s1'' = Some sc'"
    using sc(1) by (simp add: apply_door_opened_def put_scene_def)
  have "fmlookup (visible_from sc 0 0 0 0) (grid_key 0 0) = Some True"
    by (rule own_square_seen [OF sc(2)]) simp
  from opening_never_hides [OF st'(1) sc(1) st'(2) this] st' show ?thesis by blast
qed

subsection \<open>Sight and movement read one map\<close>

definition fits :: "scene_object \<Rightarrow> bool" where
  "fits ob = (sint (so_x ob) + sint (so_width ob) < 2147483648 \<and> sint (so_y ob) + sint (so_height ob) < 2147483648)"

lemma float64_le: "float64 a \<le> float64 b \<longleftrightarrow> sint a \<le> sint b"
  unfolding float64_def by (rule of_int_le_iff)

lemma float64_suc_le: "float64 a + 1 \<le> float64 b \<longleftrightarrow> sint a < sint b"
proof -
  have "float64 a + 1 \<le> float64 b \<longleftrightarrow> (of_int (sint a + 1) :: rat) \<le> of_int (sint b)"
    by (simp only: float64_def of_int_add of_int_1)
  also have "\<dots> \<longleftrightarrow> sint a < sint b" by (simp only: of_int_le_iff) presburger
  finally show ?thesis .
qed

lemma sint_add_int32_over:
  assumes "2147483648 \<le> sint (a :: int32) + sint b"
  shows "sint (a + b) = sint a + sint b - 4294967296"
proof -
  define k where "k = sint a + sint b"
  have k: "0 \<le> k - 2147483648" "k - 2147483648 < 4294967296"
    using assms sint32_bounds[of a] sint32_bounds[of b] by (auto simp: k_def)
  have "(k + 2147483648) mod 4294967296 = (k + 2147483648 - 4294967296) mod 4294967296"
    by (rule minus_mod_self2 [symmetric])
  also have "\<dots> = k - 2147483648" using k by (simp add: mod_pos_pos_trivial)
  finally have "signed_take_bit 31 k = k - 4294967296"
    by (simp add: signed_take_bit_eq_take_bit_shift take_bit_eq_mod)
  then show ?thesis by (simp add: sint_word_ariths k_def)
qed

lemma rect_le_iff:
  "0 < sint w \<Longrightarrow> float64 x \<le> float64 (x + w) \<longleftrightarrow> sint x + sint (w :: int32) < 2147483648"
proof
  assume w: "0 < sint w" and fit: "sint x + sint w < 2147483648"
  with sint32_bounds[of x] show "float64 x \<le> float64 (x + w)" by (simp add: float64_le sint_add_int32)
next
  assume w: "0 < sint w" and le: "float64 x \<le> float64 (x + w)"
  show "sint x + sint w < 2147483648"
  proof (rule ccontr)
    assume big: "\<not> sint x + sint w < 2147483648"
    then have "sint (x + w) = sint x + sint w - 4294967296" by (simp add: sint_add_int32_over)
    with le w sint32_bounds[of w] show False by (simp add: float64_le)
  qed
qed

text \<open>C11: 
  \<open>Blockers\<close> yields an object's rectangle with its corners in order exactly when the object's far
  edges fit an int32. An object at the far end of the axis that blocks sight comes out inverted.
\<close>

theorem blocker_rect_ordered:
  assumes "object_blocks ob"
  shows "min_x (object_rect ob) \<le> max_x (object_rect ob) \<and> min_y (object_rect ob) \<le> max_y (object_rect ob) \<longleftrightarrow>
    sint (so_x ob) + sint (so_width ob) < 2147483648 \<and> sint (so_y ob) + sint (so_height ob) < 2147483648"
  using assms by (simp add: object_blocks_def object_rect_def rect_le_iff)

definition edge_object :: scene_object where
  "edge_object = \<lparr>so_object_id = ''o1'', so_kind = ''pillar'', so_x = 2147483647, so_y = 0, so_width = 1,
     so_height = 1, so_rotation = 0, so_blocks_sight = True, so_blocks_move = True, so_art = []\<rparr>"

theorem blocker_rect_ordered_witness:
  "object_blocks edge_object \<and> \<not> min_x (object_rect edge_object) \<le> max_x (object_rect edge_object)"
proof -
  have "object_blocks edge_object" by (simp add: object_blocks_def edge_object_def)
  moreover have "min_y (object_rect edge_object) \<le> max_y (object_rect edge_object)"
    by (simp add: object_rect_def edge_object_def float64_def)
  ultimately show ?thesis using blocker_rect_ordered [of edge_object] by (simp add: edge_object_def)
qed

text \<open>The squares a rectangle of whole squares fills.\<close>

definition fills :: "rect \<Rightarrow> int32 \<Rightarrow> int32 \<Rightarrow> bool" where
  "fills r x y = (min_x r \<le> float64 x \<and> float64 x + 1 \<le> max_x r \<and> min_y r \<le> float64 y \<and> float64 y + 1 \<le> max_y r)"

lemma fills_iff_covers: "fills (object_rect ob) x y \<longleftrightarrow> covers ob x y"
  by (simp add: fills_def object_rect_def covers_def float64_le float64_suc_le)

lemma covers_positive:
  assumes "covers ob x y" and "- 2147483648 \<le> sint (so_x ob) + sint (so_width ob)"
    and "- 2147483648 \<le> sint (so_y ob) + sint (so_height ob)"
  shows "1 \<le> sint (so_width ob) \<and> 1 \<le> sint (so_height ob)"
proof -
  have pos: "1 \<le> sint w"
    if "sint z \<le> sint u" "sint u < sint (z + w)" "- 2147483648 \<le> sint z + sint w" for u z w :: int32
  proof (rule ccontr)
    assume "\<not> 1 \<le> sint w"
    with that sint32_bounds[of z] show False by (simp add: sint_add_int32)
  qed
  from assms pos[of "so_x ob" x "so_width ob"] pos[of "so_y ob" y "so_height ob"]
  show ?thesis by (simp add: covers_def)
qed

text \<open>
  C10: Sight and movement read the same scene. Inside the grid, a tile stops sight exactly when
  movement finds a wall or a closed door there; an object that blocks sight casts its shadow from
  exactly the squares movement counts as its footprint; and an object too small to block sight
  covers no square, unless its footprint wraps below the least int32.
\<close>

theorem sight_agrees_with_movement:
  assumes "fmlookup (st_scenes st) sid = Some sc" and "in_grid sc x y"
  shows "(blocked st sid x y = Some AWall \<or> blocked st sid x y = Some AClosedDoor) = tile_blocks sc (x, y) \<and>
    (\<forall>ob \<in> set (sc_objects sc). fills (object_rect ob) x y = covers ob x y) \<and>
    (\<forall>ob \<in> set (sc_objects sc). so_blocks_sight ob \<and> \<not> object_blocks ob \<and>
       - 2147483648 \<le> sint (so_x ob) + sint (so_width ob) \<and>
       - 2147483648 \<le> sint (so_y ob) + sint (so_height ob) \<longrightarrow> \<not> covers ob x y)"
proof (intro conjI)
  have scenery: "blocked_by_objects obs x y \<noteq> Some AWall \<and> blocked_by_objects obs x y \<noteq> Some AClosedDoor" for obs
    by (induction obs) auto
  show "(blocked st sid x y = Some AWall \<or> blocked st sid x y = Some AClosedDoor) = tile_blocks sc (x, y)"
    using assms scenery [of "sc_objects sc"]
    by (cases "go_get (sc_tiles sc) (grid_key x y)")
      (auto simp: blocked_def in_grid_def Let_def tile_blocks_def tile_kind_at_def)
  show "\<forall>ob \<in> set (sc_objects sc). fills (object_rect ob) x y = covers ob x y"
    by (simp add: fills_iff_covers)
  show "\<forall>ob \<in> set (sc_objects sc). so_blocks_sight ob \<and> \<not> object_blocks ob \<and>
       - 2147483648 \<le> sint (so_x ob) + sint (so_width ob) \<and>
       - 2147483648 \<le> sint (so_y ob) + sint (so_height ob) \<longrightarrow> \<not> covers ob x y"
    using covers_positive by (fastforce simp: object_blocks_def)
qed

theorem sight_agrees_with_movement_witness:
  "\<exists>sc. fmlookup (st_scenes demo_state) ''s1'' = Some sc \<and>
     (blocked demo_state ''s1'' 1 0 = Some AWall \<or> blocked demo_state ''s1'' 1 0 = Some AClosedDoor) =
       tile_blocks sc (1, 0)"
proof -
  obtain sc where sc: "fmlookup (st_scenes demo_state) ''s1'' = Some sc" "in_grid sc 1 0"
    by (simp add: demo_state_def in_grid_def demo_scene_def)
  with sight_agrees_with_movement [OF sc] show ?thesis by blast
qed

end
