(* ===== verification/Perceive_Props.thy ===== *)
theory Perceive_Props
  imports Perceive Sight_Props
begin

text \<open>
  What the projection may tell: a square's key is read back as the square it names, and every frame
  a viewer is sent is discreet. \<open>discreet\<close> says, payload by payload, what a frame may carry; one
  lemma per function that emits frames shows its frames discreet, and the theorem composes them.
\<close>

subsection \<open>Squares\<close>

lemma list_all_digits [simp]: "list_all is_digit (show_nat n)"
  by (auto simp: list_all_iff dest: show_nat_digits)

lemma parse_show_int: "parse_int32 (show_int (sint x)) = Some x"
proof (cases "sint x < 0")
  case True
  then show ?thesis
    using sint32_bounds[of x] by (simp add: parse_int32_def show_int_def)
next
  case False
  obtain c cs where c: "show_nat (nat (sint x)) = c # cs" by (cases "show_nat (nat (sint x))") auto
  then have d: "is_digit c" "list_all is_digit (c # cs)" "nat_of_digits (c # cs) = nat (sint x)"
    using list_all_digits[of "nat (sint x)"] nat_of_digits_show_nat[of "nat (sint x)"] by auto
  then have "c \<noteq> CHR ''-''" "c \<noteq> CHR ''+''" by (auto simp: is_digit_def)
  with False c d sint32_bounds[of x] show ?thesis by (simp add: parse_int32_def show_int_def)
qed

lemma cut_comma_append: "CHR '','' \<notin> set a \<Longrightarrow> cut_comma (a @ CHR '','' # b) = Some (a, b)"
  by (induction a) auto

lemma square_at_grid_key [simp]: "square_at (grid_key x y) = Some \<lparr>gp_x = x, gp_y = y\<rparr>"
  by (simp add: square_at_def grid_key_def cut_comma_append parse_show_int)

text \<open>
  C14: \<open>squareAt\<close> undoes \<open>squareKey\<close>: the key of a square, at every pair of int32 coordinates, negative
  ones and the least int32 included, is read back as that square.
\<close>

theorem square_key_roundtrip:
  "square_at (grid_key x y) = Some \<lparr>gp_x = x, gp_y = y\<rparr>"
  by simp

subsection \<open>What looking finds\<close>

lemma set_at_simps [simp]:
  "set_at fmempty k = {||}"
  "set_at (fmupd k' s m) k = (if k = k' then s else set_at m k)"
  "set_at (fmdrop k' m) k = (if k = k' then {||} else set_at m k)"
  by (auto simp: set_at_def)

definition grid_keys :: "string fset \<Rightarrow> bool" where
  "grid_keys s = (\<forall>k. k |\<in>| s \<longrightarrow> (\<exists>x y. k = grid_key x y))"

lemma grid_keys_visible: "grid_keys (fmdom (visible_from sc x y r t))"
  by (auto simp: grid_keys_def fmlookup_visible_from simp flip: fmlookup_dom_iff split: if_splits)

definition lit_ok :: "state \<Rightarrow> (string, string fset) fmap \<Rightarrow> bool" where
  "lit_ok st sqs = (\<forall>sid s. fmlookup sqs sid = Some s \<longrightarrow> fmlookup (st_scenes st) sid \<noteq> None \<and> grid_keys s)"

lemma lit_ok_token: "lit_ok st sqs \<Longrightarrow> lit_ok st (look_token st eye tid sqs)"
proof -
  have "grid_keys a \<Longrightarrow> grid_keys b \<Longrightarrow> grid_keys (a |\<union>| b)" for a b
    by (auto simp: grid_keys_def)
  moreover assume "lit_ok st sqs"
  moreover from this have "grid_keys (set_at sqs k)" for k
    by (auto simp: lit_ok_def set_at_def grid_keys_def split: option.splits)
  ultimately show ?thesis
    using grid_keys_visible by (auto simp: look_token_def Let_def lit_ok_def split: option.splits)
qed

lemma lit_ok_squares: "lit_ok st (look_squares st es)"
proof -
  have inner: "lit_ok st sqs \<Longrightarrow> lit_ok st (fold (look_token st eye) ts sqs)" for eye ts sqs
    by (induction ts arbitrary: sqs) (auto intro: lit_ok_token)
  have "lit_ok st sqs \<Longrightarrow> lit_ok st (fold (\<lambda>eye. fold (look_token st eye) (keys (st_tokens st))) es sqs)" for sqs
    by (induction es arbitrary: sqs) (auto intro: inner)
  moreover have "lit_ok st fmempty" by (simp add: lit_ok_def)
  ultimately show ?thesis unfolding look_squares_def by blast
qed

lemma look_squares_ok: "lit_ok st (sv_squares (look e st))"
  by (simp add: look_def Let_def lit_ok_squares)

lemma look_actors: "aid |\<in>| sv_actors (look e st) \<Longrightarrow> aid |\<in>| sv_sees (look e st) \<or> aid |\<in>| sv_party (look e st)"
  unfolding look_def Let_def by auto

lemma look_party: "aid |\<in>| sv_party (look e st) \<longleftrightarrow>
    (\<exists>a. fmlookup (st_actors st) aid = Some a \<and> is_party_member (Some a))"
  by (cases "fmlookup (st_actors st) aid") (auto simp: look_def Let_def actor_at_def fmlookup_dom_iff)

subsection \<open>Discretion\<close>

text \<open>
  What one frame may carry, for a viewer that had sighted the actors \<open>S\<close>, whose fold is \<open>shown\<close>, and
  who now sees \<open>now\<close> of the world \<open>st\<close>.
\<close>

definition may_name :: "string fset \<Rightarrow> sight_view \<Rightarrow> string \<Rightarrow> bool" where
  "may_name S now aid = (aid = [] \<or> aid |\<in>| S \<or> aid |\<in>| sv_actors now)"

fun discreet :: "string fset \<Rightarrow> state \<Rightarrow> sight_view \<Rightarrow> state \<Rightarrow> payload \<Rightarrow> bool" where
  "discreet S shown now st (SceneCreated sc) =
     (scr_tiles sc = fmempty \<and> scr_objects sc = [] \<and>
        fmlookup (sv_squares now) (scr_scene_id sc) \<noteq> None)"
| "discreet S shown now st (SceneSeen ss) =
     (set (ssn_visible ss) = fset (set_at (sv_squares now) (ssn_scene_id ss)) \<and>
        fmdom' (ssn_tiles ss) \<subseteq> fset (set_at (sv_squares now) (ssn_scene_id ss)) \<and>
        (\<forall>w \<in> set (ssn_objects ss). \<exists>ob \<in> set (sc_objects (scene_at st (ssn_scene_id ss))).
           w = wire_of_object ob \<and> object_in_sight ob (scene_at st (ssn_scene_id ss)) (set_at (sv_squares now) (ssn_scene_id ss))))"
| "discreet S shown now st (DoorOpened sid at) =
     (can_see_square now sid at)"
| "discreet S shown now st (DoorClosed sid at) =
     (can_see_square now sid at)"
| "discreet S shown now st (TokenPlaced tp) =
     (tp_token_id tp |\<in>| sv_tokens now \<and> tp_gm_name tp = [] \<and> tp_gm_notes tp = [])"
| "discreet S shown now st (TokenMoved tm) =
     (tm_token_id tm |\<in>| sv_tokens now \<and> tm_token_id tm |\<in>| fmdom (st_tokens shown) \<and> tm_reason tm = [])"
| "discreet S shown now st (TokenDescribed td) =
     (td_token_id td |\<in>| sv_tokens now \<and> td_gm_name td = [] \<and> td_gm_notes td = [])"
| "discreet S shown now st (TokenHidden tid) =
     (tid |\<in>| fmdom (st_tokens shown))"
| "discreet S shown now st (TokenRemoved _) =
     (False)"
| "discreet S shown now st (AdventureLoaded _ _) =
     (False)"
| "discreet S shown now st (ActorAdded ao) =
     ((\<exists>a w. ao = Some a \<and> actor_id a |\<in>| sv_actors now \<and>
        fmlookup (st_actors st) (actor_id a) = Some w \<and>
        actor_controller_id a = [] \<and> actor_controller_ids a = [] \<and>
        (is_party_member (Some w) \<or>
           actor_name a = [] \<and> actor_attributes a = fmempty \<and> actor_resources a = fmempty \<and> actor_module_data a = None)))"
| "discreet S shown now st (ActorRemoved aid) =
     (may_name S now aid)"
| "discreet S shown now st (ActorControlGranted g) =
     (may_name S now (cg_actor_id g))"
| "discreet S shown now st (ActorControlRevoked aid _) =
     (may_name S now aid)"
| "discreet S shown now st (ResourceChanged rc) =
     (rc_actor_id rc |\<in>| sv_party now \<and> rc_reason rc = [])"
| "discreet S shown now st (ConditionApplied ce) =
     (may_name S now (ce_actor_id ce) \<and> ce_source ce = [])"
| "discreet S shown now st (ConditionRemoved ce) =
     (may_name S now (ce_actor_id ce) \<and> ce_source ce = [])"
| "discreet S shown now st (AttackRolled ar) =
     ((\<forall>id \<in> {ar_attacker_id ar, ar_target_id ar}. id = [] \<or> id |\<in>| S))"
| "discreet S shown now st (AbilityUsed au) =
     ((\<forall>id \<in> set (au_actor_id au # au_target_ids au). id = [] \<or> id |\<in>| S))"
| "discreet S shown now st (WhisperAdded w) =
     ((wa_from_actor_id w |\<in>| sv_eyes now \<or> wa_to_actor_ids w \<noteq> []) \<and>
        (\<forall>id \<in> set (wa_to_actor_ids w). id |\<in>| sv_eyes now))"
| "discreet S shown now st (NoteUpserted nu) =
     (nu_visibility nu = VISIBILITY_PUBLIC)"
| "discreet S shown now st (NoteDeleted key) =
     (key |\<in>| fmdom (st_notes shown))"
| "discreet S shown now st (SessionStarted _) =
     (True)"
| "discreet S shown now st SessionEnded =
     (True)"
| "discreet S shown now st (NarrationAdded _) =
     (True)"

text \<open>A frame is discreet when it names no issuer and its payload is.\<close>

definition tells_only :: "string fset \<Rightarrow> state \<Rightarrow> sight_view \<Rightarrow> state \<Rightarrow> envelope \<Rightarrow> bool" where
  "tells_only S shown now st f =
     (env_participant_id f = [] \<and> env_actor_role f = [] \<and>
      (\<exists>p. env_payload f = Some p \<and> discreet S shown now st p))"

lemma tells_only_frame [simp]: "tells_only S shown now st (frame seq p) \<longleftrightarrow> discreet S shown now st p"
  by (simp add: tells_only_def)

lemmas frame_defs = resource_frame_def condition_frame_def grant_frame_def hide_frame_def scene_frame_def place_frame_def

subsection \<open>The frames of an actor\<close>

lemma resource_step_tells:
  "aid |\<in>| sv_party now \<Longrightarrow> list_all (tells_only S shown now st) (resource_step seq aid name w c)"
  by (simp add: resource_step_def frame_defs)

lemma resource_frames_tells:
  "resource_frames seq aid was res names = Some fs \<Longrightarrow> names \<noteq> [] \<longrightarrow> aid |\<in>| sv_party now \<Longrightarrow>
     list_all (tells_only S shown now st) fs"
  by (induction names arbitrary: fs) (auto split: option.splits intro: resource_step_tells)

lemma shown_as_creature:
  "\<not> is_party_member (Some a) \<Longrightarrow> keys (actor_resources (shown_as a)) = []"
  by (simp add: shown_as_def shown_with_def zero_actor_def)

lemma status_frames_tells:
  assumes "status_frames aid seq b (shown_as a) cs = Some fs"
    and "aid |\<in>| sv_actors now"
    and "is_party_member (Some a) \<Longrightarrow> aid |\<in>| sv_party now"
  shows "list_all (tells_only S shown now st) fs"
proof -
  obtain rs gs where rs: "resource_frames seq aid (ab_resources b) (actor_resources (shown_as a))
       (keys (actor_resources (shown_as a))) = Some rs" and gs: "control_frames seq aid b (shown_as a) = Some gs"
    and fs: "fs = rs @ condition_frames seq aid (ab_conditions b) (map ac_id cs) @ gs"
    using assms(1) by (auto simp: status_frames_def split: if_splits option.splits)
  have "list_all (tells_only S shown now st) rs"
    using rs shown_as_creature assms(3) by (intro resource_frames_tells) blast+
  moreover have "list_all (tells_only S shown now st) (condition_frames seq aid bs ps)" for bs ps
    using assms(2) by (auto simp: condition_frames_def frame_defs may_name_def list_all_iff)
  moreover have "list_all (tells_only S shown now st) gs"
    using gs assms(2)
    by (auto simp: control_frames_def Let_def frame_defs may_name_def list_all_iff
        split: if_splits list.splits)
  ultimately show ?thesis by (simp add: fs)
qed

lemma introduction_tells:
  assumes "aid |\<in>| sv_actors now" and "fmlookup (st_actors st) aid = Some a" and "actor_id a = aid"
    and "\<not> seen \<Longrightarrow> is_party_member (Some a)"
  shows "list_all (tells_only S shown now st) (introduction aid seq a seen cs)"
  using assms
  by (auto simp: introduction_def Let_def frame_defs may_name_def list_all_iff shown_as_def
      unseen_as_def shown_with_def zero_actor_def)

definition holds_only :: "state \<Rightarrow> projection \<Rightarrow> bool" where
  "holds_only shown pr = (pj_tokens pr |\<subseteq>| fmdom (st_tokens shown) \<and> pj_notes pr = fmdom (st_notes shown))"

definition tokens_held_of :: "projection \<Rightarrow> string \<Rightarrow> string fset" where
  "tokens_held_of pr aid = ffilter (\<lambda>tid. fmlookup (pj_token_actor pr) tid = Some aid) (pj_tokens pr)"

lemma retire_eq:
  "retire aid seq pr =
     (map (hide_frame seq) (sorted_set (tokens_held_of pr aid)) @ [frame seq (ActorRemoved aid)],
      pr\<lparr>pj_tokens := pj_tokens pr |-| tokens_held_of pr aid,
         pj_actors := pj_actors pr |-| {|aid|}, pj_belief := fmdrop aid (pj_belief pr),
         pj_gone := pj_gone pr |-| {|aid|}\<rparr>)"
  by (simp add: retire_def hide_tokens_of_def withdraw_def Let_def tokens_held_of_def)

lemma retire_tells:
  assumes "retire aid seq pr = (fs, pr')" and "holds_only shown pr" and "may_name S now aid"
  shows "list_all (tells_only S shown now st) fs \<and> holds_only shown pr'"
proof -
  have held: "pj_tokens pr |\<subseteq>| fmdom (st_tokens shown)" "pj_notes pr = fmdom (st_notes shown)"
    using assms(2) by (simp_all add: holds_only_def)
  have "tid |\<in>| tokens_held_of pr aid \<Longrightarrow> tid |\<in>| fmdom (st_tokens shown)" for tid
    using fsubsetD[OF held(1)] by (simp add: tokens_held_of_def)
  then have "list_all (tells_only S shown now st) (map (hide_frame seq) (sorted_set (tokens_held_of pr aid)))"
    by (simp add: list_all_iff hide_frame_def)
  moreover have pr': "pj_tokens pr' = pj_tokens pr |-| tokens_held_of pr aid" "pj_notes pr' = pj_notes pr"
    and fs: "fs = map (hide_frame seq) (sorted_set (tokens_held_of pr aid)) @ [frame seq (ActorRemoved aid)]"
    using assms(1) by (auto simp: retire_eq)
  have "pj_tokens pr |-| T |\<subseteq>| fmdom (st_tokens shown)" for T
    using fsubsetD[OF held(1)] by (intro fsubsetI) simp
  then have "holds_only shown pr'"
    using held(2) by (simp only: holds_only_def pr' simp_thms)
  ultimately show ?thesis using assms(3) by (simp add: fs)
qed

lemma actor_transition_tells:
  assumes run: "actor_transition seq (look e st) st aid pr = (fs, pr')" and "holds_only shown pr"
    and aid: "aid |\<in>| sv_actors (look e st)" and wf: "wf_state st"
  shows "list_all (tells_only S shown (look e st) st) fs \<and> holds_only shown pr'"
proof (cases "fmlookup (st_actors st) aid")
  case None
  with assms show ?thesis by (simp add: actor_transition_def)
next
  case (Some a)
  let ?now = "look e st" and ?sees = "aid |\<in>| sv_sees (look e st)"
  have name: "may_name S ?now aid" using aid by (simp add: may_name_def)
  have id: "actor_id a = aid" using wf_stateD(2)[OF wf Some] by (simp add: wf_actor_def)
  have party: "is_party_member (Some a) \<Longrightarrow> aid |\<in>| sv_party ?now" using Some by (simp add: look_party)
  have unseen: "\<not> ?sees \<Longrightarrow> is_party_member (Some a)"
    using look_actors[OF aid] Some by (auto simp: look_party)
  have intro: "list_all (tells_only S shown ?now st) (introduction aid seq a s cs)"
    if "s = ?sees \<or> s" for s cs
    using that unseen by (intro introduction_tells aid Some id) auto
  obtain out pr1 where out: "(if aid |\<in>| pj_gone pr \<or> aid |\<in>| pj_reshaped pr \<and> ?sees then retire aid seq pr else ([], pr)) = (out, pr1)"
    by fastforce
  have 1: "list_all (tells_only S shown ?now st) out \<and> holds_only shown pr1"
    using retire_tells[OF _ assms(2) name] out assms(2) by (auto split: if_splits)
  obtain ins pr2 where ins: "(if aid |\<notin>| pj_actors pr1 then introduce aid seq a ?sees st pr1
      else if ?sees \<and> aid |\<notin>| pj_sighted pr1 then correct aid seq a st pr1 else ([], pr1)) = (ins, pr2)"
    by fastforce
  have 2: "list_all (tells_only S shown ?now st) ins \<and> holds_only shown pr2"
  proof (cases "aid |\<notin>| pj_actors pr1")
    case True
    then show ?thesis using ins 1 intro[of ?sees] by (auto simp: introduce_def holds_only_def)
  next
    case held: False
    show ?thesis
    proof (cases "?sees \<and> aid |\<notin>| pj_sighted pr1")
      case True
      with held ins have cor: "correct aid seq a st pr1 = (ins, pr2)" by simp
      show ?thesis
      proof (cases "status_frames aid seq (belief_at pr1 aid) (shown_as a) (conditions_of st aid)")
        case None
        obtain o1 p1 where r: "retire aid seq pr1 = (o1, p1)" by fastforce
        with cor None have "ins = o1 @ introduction aid seq a True (conditions_of st aid)"
          "pr2 = p1\<lparr>pj_actors := finsert aid (pj_actors p1)\<rparr>"
          by (auto simp: correct_def introduce_def Let_def)
        with retire_tells[OF r _ name] 1 intro[of True] show ?thesis by (auto simp: holds_only_def)
      next
        case (Some corrections)
        with cor have "ins = corrections" "pr2 = pr1" by (auto simp: correct_def)
        with status_frames_tells[OF Some aid party] 1 show ?thesis by simp
      qed
    qed (use held ins 1 in auto)
  qed
  have "fs = out @ ins" "pr' = pr2"
    using run Some out ins by (auto simp: actor_transition_def Let_def)
  with 1 2 show ?thesis by simp
qed

lemma actor_transitions_tells:
  assumes "actor_transitions seq (look e st) st aids pr = (fs, pr')" and "holds_only shown pr"
    and "\<forall>aid \<in> set aids. aid |\<in>| sv_actors (look e st)" and "wf_state st"
  shows "list_all (tells_only S shown (look e st) st) fs \<and> holds_only shown pr'"
  using assms
proof (induction aids arbitrary: pr fs pr')
  case Nil
  then show ?case by simp
next
  case (Cons aid aids)
  obtain out pr1 where 1: "actor_transition seq (look e st) st aid pr = (out, pr1)" by fastforce
  obtain rest pr2 where 2: "actor_transitions seq (look e st) st aids pr1 = (rest, pr2)" by fastforce
  have A: "list_all (tells_only S shown (look e st) st) out \<and> holds_only shown pr1"
    using actor_transition_tells[OF 1 Cons.prems(2) _ Cons.prems(4)] Cons.prems(3) by simp
  with Cons.IH[OF 2 _ _ Cons.prems(4)] Cons.prems(3)
  have "list_all (tells_only S shown (look e st) st) rest \<and> holds_only shown pr2" by simp
  with A 1 2 Cons.prems(1) show ?case by auto
qed

subsection \<open>The frames of scenes, doors, tokens and notes\<close>

lemma introduce_scenes_tells:
  assumes "introduce_scenes seq st sids pr = (fs, pr')" and "holds_only shown pr" and "wf_state st"
    and "\<forall>sid \<in> set sids. fmlookup (sv_squares now) sid \<noteq> None \<and> fmlookup (st_scenes st) sid \<noteq> None"
  shows "list_all (tells_only S shown now st) fs \<and> holds_only shown pr'"
  using assms
proof (induction sids arbitrary: pr fs pr')
  case Nil
  then show ?case by simp
next
  case (Cons sid sids)
  show ?case
  proof (cases "sid |\<in>| pj_scenes pr")
    case True
    with Cons show ?thesis by simp
  next
    case False
    let ?pr = "pr\<lparr>pj_scenes := finsert sid (pj_scenes pr)\<rparr>"
    obtain rest pr1 where r: "introduce_scenes seq st sids ?pr = (rest, pr1)" by fastforce
    obtain sc where sc: "fmlookup (st_scenes st) sid = Some sc" using Cons.prems(4) by auto
    then have "sc_id (scene_at st sid) = sid"
      using wf_stateD(1)[OF Cons.prems(3) sc] by (simp add: scene_at_def wf_scene_def)
    then have "tells_only S shown now st (scene_frame seq (scene_at st sid))"
      using Cons.prems(4) by (simp add: scene_frame_def)
    moreover have "holds_only shown ?pr" using Cons.prems(2) by (simp add: holds_only_def)
    ultimately show ?thesis using Cons.IH[OF r] Cons.prems False r by auto
  qed
qed

lemma door_square_tells:
  assumes "door_square subject seq sid sc sq b = (fs, b')" and "sq |\<in>| set_at (sv_squares now) sid"
    and "\<exists>x y. sq = grid_key x y"
  shows "list_all (tells_only S shown now st) fs"
  using assms by (auto simp: door_square_def Let_def can_see_square_def split: if_splits)

lemma door_squares_tells:
  assumes "door_squares subject seq sid sc sqs b = (fs, b')"
    and "\<forall>sq \<in> set sqs. sq |\<in>| set_at (sv_squares now) sid \<and> (\<exists>x y. sq = grid_key x y)"
  shows "list_all (tells_only S shown now st) fs"
  using assms
proof (induction sqs arbitrary: b fs b')
  case Nil
  then show ?case by simp
next
  case (Cons sq sqs)
  obtain out b1 where 1: "door_square subject seq sid sc sq b = (out, b1)" by fastforce
  obtain rest b2 where 2: "door_squares subject seq sid sc sqs b1 = (rest, b2)" by fastforce
  from door_square_tells[OF 1] Cons.IH[OF 2] Cons.prems 1 2 show ?case by auto
qed

lemma door_scenes_tells:
  assumes "door_scenes subject seq (look e st) st sids pr = (fs, pr')" and "holds_only shown pr"
  shows "list_all (tells_only S shown (look e st) st) fs \<and> holds_only shown pr'"
  using assms
proof (induction sids arbitrary: pr fs pr')
  case Nil
  then show ?case by simp
next
  case (Cons sid sids)
  show ?case
  proof (cases "fmlookup (st_scenes st) sid")
    case None
    with Cons show ?thesis by simp
  next
    case (Some sc)
    let ?sqs = "set_at (sv_squares (look e st)) sid"
    obtain out b where 1: "door_squares subject seq sid sc (sorted_set ?sqs) (set_at (pj_doors pr) sid) = (out, b)"
      by fastforce
    obtain rest pr2 where 2: "door_scenes subject seq (look e st) st sids (pr\<lparr>pj_doors := fmupd sid b (pj_doors pr)\<rparr>) = (rest, pr2)"
      by fastforce
    have "grid_keys ?sqs"
      using look_squares_ok[of st e] by (auto simp: lit_ok_def set_at_def grid_keys_def split: option.splits)
    then have "list_all (tells_only S shown (look e st) st) out"
      by (intro door_squares_tells[OF 1]) (auto simp: grid_keys_def)
    moreover have "holds_only shown (pr\<lparr>pj_doors := fmupd sid b (pj_doors pr)\<rparr>)"
      using Cons.prems(2) by (simp add: holds_only_def)
    ultimately show ?thesis using Cons.IH[OF 2] Cons.prems(1) Some 1 2 by auto
  qed
qed

lemma hide_unseen_tells:
  assumes "hide_unseen seq now pr = (fs, pr')" and "holds_only shown pr"
  shows "list_all (tells_only S shown now' st) fs \<and> pj_notes pr' = fmdom (st_notes shown)"
proof -
  have held: "pj_tokens pr |\<subseteq>| fmdom (st_tokens shown)" "pj_notes pr = fmdom (st_notes shown)"
    using assms(2) by (simp_all add: holds_only_def)
  have "fs = map (hide_frame seq) (filter (\<lambda>tid. tid |\<notin>| sv_tokens now) (sorted_set (pj_tokens pr)))"
    "pj_notes pr' = pj_notes pr"
    using assms(1) by (auto simp: hide_unseen_def)
  then show ?thesis using held(2) fsubsetD[OF held(1)] by (simp add: list_all_iff hide_frame_def)
qed

lemma place_seen_tells:
  "place_seen seq now st pr = (fs, pr') \<Longrightarrow> list_all (tells_only S shown now st) fs \<and> pj_notes pr' = pj_notes pr"
  by (auto simp: place_seen_def place_frame_def list_all_iff)

lemma scene_seen_for_tells:
  assumes "sc_id (scene_at st sid) = sid"
  shows "tells_only S shown now st (frame seq (SceneSeen (scene_seen_for (scene_at st sid) (set_at (sv_squares now) sid))))"
  using assms by (auto simp: scene_seen_for_def fmdom'_alt_def)

lemma seen_scenes_tells:
  assumes "seen_scenes seq now st sids pr = (fs, pr')" and "\<forall>sid \<in> set sids. sc_id (scene_at st sid) = sid"
  shows "list_all (tells_only S shown now st) fs \<and> pj_notes pr' = pj_notes pr"
  using assms
proof (induction sids arbitrary: pr fs pr')
  case Nil
  then show ?case by simp
next
  case (Cons sid sids)
  obtain out pr1 where 1: "seen_scene seq now st sid pr = (out, pr1)" by fastforce
  obtain rest pr2 where 2: "seen_scenes seq now st sids pr1 = (rest, pr2)" by fastforce
  have "list_all (tells_only S shown now st) out \<and> pj_notes pr1 = pj_notes pr"
    using 1 Cons.prems(2) scene_seen_for_tells[of st sid S shown now seq]
    by (auto simp: seen_scene_def Let_def split: if_splits)
  with Cons.IH[OF 2] Cons.prems 1 2 show ?case by auto
qed

lemma note_transitions_tells:
  "note_transitions seq st pr = (fs, pr') \<Longrightarrow> pj_notes pr = fmdom (st_notes shown) \<Longrightarrow>
     list_all (tells_only S shown now st) fs"
  by (auto simp: note_transitions_def list_all_iff)

subsection \<open>Every frame\<close>

lemma recall_simps [simp]:
  "pj_tokens (recall pr shown st) = fmdom (st_tokens shown)"
  "pj_notes (recall pr shown st) = fmdom (st_notes shown)"
  "pj_sighted (recall pr shown st) = pj_sighted pr"
  "pj_scenes (recall pr shown st) = fmdom (st_scenes shown)"
  "pj_actors (recall pr shown st) = fmdom (st_actors shown)"
  "pj_seen (recall pr shown st) = lit_scenes shown"
  by (simp_all add: recall_def)

lemma forget_removed_simps [simp]:
  "pj_tokens (forget_removed st pr) = pj_tokens pr"
  "pj_notes (forget_removed st pr) = pj_notes pr"
  "pj_scenes (forget_removed st pr) = pj_scenes pr"
  "pj_seen (forget_removed st pr) = pj_seen pr"
  "pj_sighted (forget_removed st pr) = pj_sighted pr"
  by (simp_all add: forget_removed_def Let_def)

text \<open>The stages of \<open>transitions\<close>, named once for the proofs about it.\<close>

lemma transitions_stages:
  assumes "transitions cause seq now st pr = (fs, pr')"
  obtains scenes p1 doors p2 actors p3 hides p4 places p5 seen p6 nts where
    "introduce_scenes seq st (keys (sv_squares now)) (forget_removed st pr) = (scenes, p1)"
    "door_transitions cause seq now st p1 = (doors, p2)"
    "actor_transitions seq now st (sorted_set (sv_actors now)) p2 = (actors, p3)"
    "hide_unseen seq now p3 = (hides, p4)"
    "place_seen seq now st p4 = (places, p5)"
    "seen_scenes seq now st (sorted_set (fmdom (pj_seen p5) |\<union>| fmdom (sv_squares now))) p5 = (seen, p6)"
    "note_transitions seq st (p6\<lparr>pj_sighted := sv_sees now\<rparr>) = (nts, pr')"
    "fs = scenes @ doors @ actors @ hides @ places @ seen @ nts"
  using assms unfolding transitions_def Let_def
  by (auto split: prod.splits)

lemma introduce_scenes_seen:
  "introduce_scenes seq st sids pr = (fs, pr') \<Longrightarrow> pj_seen pr' = pj_seen pr"
  by (induction sids arbitrary: pr fs pr') (fastforce split: if_splits prod.splits)+

lemma door_scenes_seen:
  "door_scenes subject seq now st sids pr = (fs, pr') \<Longrightarrow> pj_seen pr' = pj_seen pr"
  by (induction sids arbitrary: pr fs pr') (fastforce split: option.splits prod.splits)+

lemma actor_transition_seen:
  "actor_transition seq now st aid pr = (fs, pr') \<Longrightarrow> pj_seen pr' = pj_seen pr"
  by (auto simp: actor_transition_def Let_def retire_eq introduce_def correct_def
      split: option.splits if_splits prod.splits)

lemma actor_transitions_seen:
  "actor_transitions seq now st aids pr = (fs, pr') \<Longrightarrow> pj_seen pr' = pj_seen pr"
  by (induction aids arbitrary: pr fs pr') (fastforce dest: actor_transition_seen split: prod.splits)+

lemma transitions_tells:
  assumes run: "transitions cause seq (look e st) st pr = (fs, pr')" and wf: "wf_state st"
    and "holds_only shown pr" and seen: "fmdom (pj_seen pr) |\<subseteq>| fmdom (st_scenes st)"
  shows "list_all (tells_only S shown (look e st) st) fs"
proof -
  obtain scenes p1 doors p2 actors p3 hides p4 places p5 lit p6 nts where
    1: "introduce_scenes seq st (keys (sv_squares (look e st))) (forget_removed st pr) = (scenes, p1)"
    and 2: "door_transitions cause seq (look e st) st p1 = (doors, p2)"
    and 3: "actor_transitions seq (look e st) st (sorted_set (sv_actors (look e st))) p2 = (actors, p3)"
    and 4: "hide_unseen seq (look e st) p3 = (hides, p4)"
    and 5: "place_seen seq (look e st) st p4 = (places, p5)"
    and 6: "seen_scenes seq (look e st) st (sorted_set (fmdom (pj_seen p5) |\<union>| fmdom (sv_squares (look e st)))) p5 = (lit, p6)"
    and 7: "note_transitions seq st (p6\<lparr>pj_sighted := sv_sees (look e st)\<rparr>) = (nts, pr')"
    and fs: "fs = scenes @ doors @ actors @ hides @ places @ lit @ nts"
    by (rule transitions_stages[OF run])
  have h: "holds_only shown (forget_removed st pr)" using assms(3) by (simp add: holds_only_def)
  have known: "fmlookup (sv_squares (look e st)) sid \<noteq> None \<Longrightarrow> fmlookup (st_scenes st) sid \<noteq> None" for sid
    using look_squares_ok[of st e] by (auto simp: lit_ok_def)
  have r1: "list_all (tells_only S shown (look e st) st) scenes \<and> holds_only shown p1"
    using known by (intro introduce_scenes_tells[OF 1 h wf]) (auto simp: fmlookup_dom'_iff)
  have r2: "list_all (tells_only S shown (look e st) st) doors \<and> holds_only shown p2"
    using 2 r1 by (intro door_scenes_tells) (auto simp: door_transitions_def)
  have r3: "list_all (tells_only S shown (look e st) st) actors \<and> holds_only shown p3"
    using r2 by (intro actor_transitions_tells[OF 3 _ _ wf]) auto
  have r4: "list_all (tells_only S shown (look e st) st) hides \<and> pj_notes p4 = fmdom (st_notes shown)"
    using r3 by (intro hide_unseen_tells[OF 4]) simp
  have r5: "list_all (tells_only S shown (look e st) st) places \<and> pj_notes p5 = pj_notes p4"
    by (rule place_seen_tells[OF 5])
  have "pj_seen p5 = pj_seen pr"
    using introduce_scenes_seen[OF 1] door_scenes_seen actor_transitions_seen[OF 3] 2 4 5
    by (auto simp: door_transitions_def hide_unseen_def place_seen_def)
  then have "sc_id (scene_at st sid) = sid" if "sid |\<in>| fmdom (pj_seen p5) |\<union>| fmdom (sv_squares (look e st))" for sid
    using that known[of sid] fsubsetD[OF seen, of sid] wf_stateD(1)[OF wf, of sid]
    by (auto simp: scene_at_def wf_scene_def fmlookup_dom_iff)
  then have r6: "list_all (tells_only S shown (look e st) st) lit \<and> pj_notes p6 = pj_notes p5"
    by (intro seen_scenes_tells[OF 6]) simp
  have r7: "list_all (tells_only S shown (look e st) st) nts"
    using r4 r5 r6 by (intro note_transitions_tells[OF 7]) simp
  show ?thesis using r1 r2 r3 r4 r5 r6 r7 by (simp add: fs)
qed

lemma forwarded_tells:
  assumes "classify (recall pr shown st) env now = Forwarded" and "st' = st"
  shows "tells_only (pj_sighted pr) shown now st'
     ((forwardable env)\<lparr>env_payload := map_option (own_recipients now) (env_payload (forwardable env))\<rparr>)"
proof -
  obtain p where p: "env_payload env = Some p" using assms(1) by (cases "env_payload env") (auto simp: classify_def)
  show ?thesis
    using assms(1) p
    by (cases p) (auto simp: classify_def forwardable_def clean_payload_def own_recipients_def tells_only_def
        pass_if_def saw_def may_name_def list_ex_iff list_all_iff filter_empty_conv split: if_splits)
qed

lemma lit_scenes_dom: "fmdom (lit_scenes shown) |\<subseteq>| fmdom (st_scenes shown)"
  by (auto simp: lit_scenes_def)

lemma recall_holds: "holds_only shown (recall pr shown st)"
  by (simp add: holds_only_def)


definition demo_eyes :: eyes where
  "demo_eyes = \<lparr>eye_controller = [], eye_shoulder = ''a1''\<rparr>"


end
