(* ===== verification/Perceive_Status.thy ===== *)
theory Perceive_Status
  imports Perceive_Props
begin

text \<open>
  The corrections \<open>statusFrames\<close> emits, run through the fold: from the actor the viewer holds they
  reach the actor the world shows. One lemma per kind of frame gives the state after all of its
  frames in closed form; the theorem composes them.
\<close>

lemma apply_events_Nil [simp]: "apply_events st [] = Inr st"
  by (simp add: apply_events_def)

lemma apply_events_Cons [simp]:
  "apply_events st (f # fs) = sum_bind (apply_event st f) (\<lambda>st'. apply_events st' fs)"
  by (simp add: apply_events_def)

lemma apply_events_append:
  "apply_events st (fs @ gs) = sum_bind (apply_events st fs) (\<lambda>st'. apply_events st' gs)"
  by (simp add: apply_events_def fold_res_append)

lemma apply_events_appendI:
  "apply_events st fs = Inr st1 \<Longrightarrow> apply_events st1 gs = Inr st2 \<Longrightarrow> apply_events st (fs @ gs) = Inr st2"
  by (simp add: apply_events_append)

lemma apply_event_frame [simp]: "apply_event st (frame seq p) = apply_payload st (frame seq p) p"
  by (simp add: apply_event_def)

lemma put_actor_simps [simp]:
  "fmlookup (st_actors (put_actor st k a)) k' = (if k' = k then Some a else fmlookup (st_actors st) k')"
  "put_actor (put_actor st k a) k b = put_actor st k b"
  "conditions_of (put_actor st k a) k' = conditions_of st k'"
  "st_tokens (put_actor st k a) = st_tokens st" "st_scenes (put_actor st k a) = st_scenes st"
  "st_sessions (put_actor st k a) = st_sessions st" "st_conditions (put_actor st k a) = st_conditions st"
  "st_notes (put_actor st k a) = st_notes st"
  by (simp_all add: put_actor_def conditions_of_def)

lemma fmupd_same: "fmlookup m k = Some v \<Longrightarrow> fmupd k v m = m"
  by (rule fmap_ext) auto

lemma put_actor_same: "fmlookup (st_actors st) k = Some a \<Longrightarrow> put_actor st k a = st"
  by (simp add: put_actor_def fmupd_same)

subsection \<open>Resources\<close>

definition in_range :: "resource \<Rightarrow> bool" where
  "in_range r = (0 \<le> sint (res_current r) \<and> (sint (res_max r) \<le> 0 \<or> sint (res_current r) \<le> sint (res_max r)))"

lemma resource_changed_step:
  assumes "fmlookup (st_actors st) aid = Some h" and "fmlookup (actor_resources h) name = Some r"
    and "clamp_spec (sint (res_max r)) (sint (res_current r) + sint d) = sint nv"
  shows "apply_event st (resource_frame seq aid name d nv) =
    Inr (put_actor st aid (h\<lparr>actor_resources := fmupd name \<lparr>res_current = nv, res_max = res_max r\<rparr> (actor_resources h)\<rparr>))"
proof -
  have "clamped_value r d = widen nv"
    using assms(3) sint_clamped[of r d] by (intro sint_inject[THEN iffD1]) simp
  then show ?thesis
    using assms by (simp add: resource_frame_def apply_payload_def apply_resource_changed_def)
qed

lemma sint_widen_diff [simp]: "sint (widen a - widen b) = sint a - sint b"
  using sint32_bounds[of a] sint32_bounds[of b] by (simp add: sint_word_ariths signed_take_bit_int_eq_self)

lemma keys_fmmap [simp]: "keys (fmmap f m) = keys m"
  by (simp add: keys_def)

lemma resource_step_applies:
  assumes "fmlookup (st_actors st) aid = Some h"
    and "fmlookup (actor_resources h) name = Some \<lparr>res_current = was, res_max = m\<rparr>"
    and "cur = was \<or> in_range \<lparr>res_current = cur, res_max = m\<rparr>"
  shows "apply_events st (resource_step seq aid name was cur) =
    Inr (put_actor st aid (h\<lparr>actor_resources := fmupd name \<lparr>res_current = cur, res_max = m\<rparr> (actor_resources h)\<rparr>))"
proof -
  have d: "sint (widen cur - widen was) = sint cur - sint was" by simp
  consider (same) "cur = was" | (wide) "cur \<noteq> was" "2147483647 < sint cur - sint was"
    | (step) "cur \<noteq> was" "sint cur - sint was \<le> 2147483647" by linarith
  then show ?thesis
  proof cases
    case same
    then show ?thesis using assms by (simp add: resource_step_def put_actor_same fmupd_same)
  next
    case wide
    then have r: "0 \<le> sint cur" "sint m \<le> 0 \<or> sint cur \<le> sint m" and neg: "sint was < 0"
      using assms(3) sint32_bounds[of cur] by (auto simp: in_range_def)
    let ?h = "h\<lparr>actor_resources := fmupd name \<lparr>res_current = 0, res_max = m\<rparr> (actor_resources h)\<rparr>"
    have "apply_event st (resource_frame seq aid name 0 0) = Inr (put_actor st aid ?h)"
      using resource_changed_step[OF assms(1,2), of 0 0 seq] neg by (simp add: clamp_spec_def)
    moreover have "apply_event (put_actor st aid ?h) (resource_frame seq aid name cur cur) =
        Inr (put_actor st aid (h\<lparr>actor_resources := fmupd name \<lparr>res_current = cur, res_max = m\<rparr> (actor_resources h)\<rparr>))"
      using resource_changed_step[of "put_actor st aid ?h" aid ?h name "\<lparr>res_current = 0, res_max = m\<rparr>" cur cur seq] r
      by (auto simp: clamp_spec_def)
    ultimately show ?thesis using wide d by (simp add: resource_step_def)
  next
    case step
    then have r: "0 \<le> sint cur" "sint m \<le> 0 \<or> sint cur \<le> sint m"
      using assms(3) by (auto simp: in_range_def)
    have "sint (cur - was) = sint cur - sint was"
      using step(2) r sint32_bounds[of was] by (simp add: sint_word_ariths signed_take_bit_int_eq_self)
    then have "apply_event st (resource_frame seq aid name (cur - was) cur) =
        Inr (put_actor st aid (h\<lparr>actor_resources := fmupd name \<lparr>res_current = cur, res_max = m\<rparr> (actor_resources h)\<rparr>))"
      using resource_changed_step[OF assms(1,2), of "cur - was" cur seq] r by (auto simp: clamp_spec_def)
    then show ?thesis using step d by (simp add: resource_step_def)
  qed
qed

text \<open>Every resource named in the list ends at the target's value, the others stay.\<close>

lemma resource_frames_apply:
  assumes "resource_frames seq aid was target names = Some fs" and "distinct names"
    and "fmlookup (st_actors st) aid = Some h"
    and "\<And>n. n \<in> set names \<Longrightarrow> \<exists>r t. fmlookup (actor_resources h) n = Some r \<and> fmlookup target n = Some t \<and>
           res_max r = res_max t \<and> fmlookup was n = Some (res_current r) \<and>
           (res_current t = res_current r \<or> in_range t)"
  shows "\<exists>R. apply_events st fs = Inr (put_actor st aid (h\<lparr>actor_resources := R\<rparr>)) \<and>
    (\<forall>n. fmlookup R n = (if n \<in> set names then fmlookup target n else fmlookup (actor_resources h) n))"
  using assms
proof (induction names arbitrary: fs st h)
  case Nil
  then have "apply_events st fs = Inr (put_actor st aid (h\<lparr>actor_resources := actor_resources h\<rparr>))"
    by (simp add: put_actor_same)
  then show ?case by (intro exI[of _ "actor_resources h"]) simp
next
  case (Cons name names)
  obtain r t where rt: "fmlookup (actor_resources h) name = Some r" "fmlookup target name = Some t"
    "res_max r = res_max t" "fmlookup was name = Some (res_current r)" "res_current t = res_current r \<or> in_range t"
    using Cons.prems(4)[of name] by auto
  obtain gs where gs: "resource_frames seq aid was target names = Some gs"
    and fs: "fs = resource_step seq aid name (res_current r) (res_current t) @ gs"
    using Cons.prems(1) rt by (auto split: option.splits)
  define h1 where "h1 = h\<lparr>actor_resources := fmupd name t (actor_resources h)\<rparr>"
  have t: "\<lparr>res_current = res_current t, res_max = res_max r\<rparr> = t" and r: "\<lparr>res_current = res_current r, res_max = res_max r\<rparr> = r"
    using rt(3) by simp_all
  have 1: "apply_events st (resource_step seq aid name (res_current r) (res_current t)) = Inr (put_actor st aid h1)"
    using resource_step_applies[OF Cons.prems(3), of name "res_current r" "res_max r" "res_current t" seq] rt(1,5)
    unfolding t r h1_def by blast
  have "\<exists>R. apply_events (put_actor st aid h1) gs = Inr (put_actor (put_actor st aid h1) aid (h1\<lparr>actor_resources := R\<rparr>)) \<and>
    (\<forall>n. fmlookup R n = (if n \<in> set names then fmlookup target n else fmlookup (actor_resources h1) n))"
  proof (rule Cons.IH[OF gs])
    fix n assume n: "n \<in> set names"
    with Cons.prems(2) have "n \<noteq> name" by auto
    then show "\<exists>r t. fmlookup (actor_resources h1) n = Some r \<and> fmlookup target n = Some t \<and>
        res_max r = res_max t \<and> fmlookup was n = Some (res_current r) \<and> (res_current t = res_current r \<or> in_range t)"
      using Cons.prems(4)[of n] n by (auto simp: h1_def)
  qed (use Cons.prems(2) in simp_all)
  then obtain R where R: "apply_events (put_actor st aid h1) gs = Inr (put_actor st aid (h\<lparr>actor_resources := R\<rparr>))"
    "\<forall>n. fmlookup R n = (if n \<in> set names then fmlookup target n else fmlookup (actor_resources h1) n)"
    by (auto simp: h1_def)
  show ?case
    using apply_events_appendI[OF 1 R(1)] R(2) rt(2) by (intro exI[of _ R]) (auto simp: fs h1_def)
qed

subsection \<open>Conditions\<close>

definition put_conditions :: "state \<Rightarrow> string \<Rightarrow> actor_condition list \<Rightarrow> state" where
  "put_conditions st k cs = st\<lparr>st_conditions := fmupd k cs (st_conditions st)\<rparr>"

lemma put_conditions_simps [simp]:
  "st_actors (put_conditions st k cs) = st_actors st" "st_tokens (put_conditions st k cs) = st_tokens st"
  "st_scenes (put_conditions st k cs) = st_scenes st" "st_notes (put_conditions st k cs) = st_notes st"
  "st_sessions (put_conditions st k cs) = st_sessions st"
  "conditions_of (put_conditions st k cs) k' = (if k' = k then cs else conditions_of st k')"
  "put_conditions (put_conditions st k cs) k ds = put_conditions st k ds"
  by (simp_all add: put_conditions_def conditions_of_def)

lemma remove_first_filter:
  "distinct (map ac_id cs) \<Longrightarrow> c \<in> ac_id ` set cs \<Longrightarrow>
     remove_first_condition c cs = Some (filter (\<lambda>x. ac_id x \<noteq> c) cs)"
proof (induction cs)
  case Nil
  then show ?case by simp
next
  case (Cons x cs)
  then have "ac_id y \<noteq> ac_id x" if "y \<in> set cs" for y using that by (auto simp: image_iff)
  then have "filter (\<lambda>y. ac_id y \<noteq> ac_id x) cs = cs" by (intro filter_True) blast
  with Cons show ?case by (cases "ac_id x = c") auto
qed

text \<open>What a correction of one actor leaves alone.\<close>

definition only_actor :: "string \<Rightarrow> state \<Rightarrow> state \<Rightarrow> bool" where
  "only_actor aid st st' =
     (st_tokens st' = st_tokens st \<and> st_scenes st' = st_scenes st \<and> st_notes st' = st_notes st \<and>
      st_sessions st' = st_sessions st \<and>
      (\<forall>k. k \<noteq> aid \<longrightarrow> fmlookup (st_actors st') k = fmlookup (st_actors st) k \<and> conditions_of st' k = conditions_of st k))"

lemma only_actor_refl [simp]: "only_actor aid st st"
  by (simp add: only_actor_def)

lemma only_actor_trans: "only_actor aid st st1 \<Longrightarrow> only_actor aid st1 st2 \<Longrightarrow> only_actor aid st st2"
  by (simp add: only_actor_def)

lemma only_actor_put [simp]: "only_actor aid st (put_actor st aid a)"
  by (simp add: only_actor_def)

lemma only_actor_conditions [simp]: "only_actor aid st (put_conditions st aid cs)"
  by (simp add: only_actor_def)

lemma conditions_removed_apply:
  assumes "fmlookup (st_actors st) aid = Some h" and "distinct (map ac_id (conditions_of st aid))"
    and "distinct ids" and "set ids \<subseteq> ac_id ` set (conditions_of st aid)"
  shows "\<exists>st'. apply_events st (map (condition_frame ConditionRemoved seq aid) ids) = Inr st' \<and>
    only_actor aid st st' \<and> st_actors st' = st_actors st \<and>
    conditions_of st' aid = filter (\<lambda>x. ac_id x \<notin> set ids) (conditions_of st aid)"
  using assms
proof (induction ids arbitrary: st)
  case Nil
  then show ?case by simp
next
  case (Cons c ids)
  define st1 where "st1 = put_conditions st aid (filter (\<lambda>x. ac_id x \<noteq> c) (conditions_of st aid))"
  have 1: "apply_event st (condition_frame ConditionRemoved seq aid c) = Inr st1"
    using Cons.prems remove_first_filter[of "conditions_of st aid" c]
    by (simp add: condition_frame_def apply_payload_def apply_condition_removed_def st1_def put_conditions_def)
  have c1: "conditions_of st1 aid = filter (\<lambda>x. ac_id x \<noteq> c) (conditions_of st aid)" by (simp add: st1_def)
  have sub: "set ids \<subseteq> ac_id ` set (conditions_of st1 aid)"
  proof
    fix x assume x: "x \<in> set ids"
    then have "x \<noteq> c" "x \<in> ac_id ` set (conditions_of st aid)" using Cons.prems(3,4) by auto
    then obtain y where "y \<in> set (conditions_of st aid)" "x = ac_id y" "x \<noteq> c" by blast
    then show "x \<in> ac_id ` set (conditions_of st1 aid)" by (auto simp: c1)
  qed
  have dist: "distinct (map ac_id (conditions_of st1 aid))"
    using Cons.prems(2) by (simp add: c1 distinct_map inj_on_def)
  have a1: "fmlookup (st_actors st1) aid = Some h" and d: "distinct ids"
    using Cons.prems(1,3) by (simp_all add: st1_def)
  obtain st' where st': "apply_events st1 (map (condition_frame ConditionRemoved seq aid) ids) = Inr st'"
    "only_actor aid st1 st'" "st_actors st' = st_actors st1"
    "conditions_of st' aid = filter (\<lambda>x. ac_id x \<notin> set ids) (conditions_of st1 aid)"
    using Cons.IH[OF a1 dist d sub] by blast
  have "only_actor aid st st'" by (rule only_actor_trans[OF _ st'(2)]) (simp add: st1_def)
  moreover have "filter (\<lambda>x. ac_id x \<noteq> c \<and> ac_id x \<notin> set ids) (conditions_of st aid) =
      filter (\<lambda>x. ac_id x \<notin> set (c # ids)) (conditions_of st aid)"
    by (rule filter_cong) auto
  ultimately show ?case
    using 1 st' c1 by (intro exI[of _ st']) (simp add: st1_def conj_commute)
qed

lemma conditions_applied_apply:
  assumes "fmlookup (st_actors st) aid = Some h" and "distinct ids"
    and "set ids \<inter> ac_id ` set (conditions_of st aid) = {}" and "\<forall>c \<in> set ids. \<not> bad_id c"
  shows "\<exists>st'. apply_events st (map (condition_frame ConditionApplied seq aid) ids) = Inr st' \<and>
    only_actor aid st st' \<and> st_actors st' = st_actors st \<and>
    map ac_id (conditions_of st' aid) = map ac_id (conditions_of st aid) @ ids"
  using assms
proof (induction ids arbitrary: st)
  case Nil
  then show ?case by simp
next
  case (Cons c ids)
  define st1 where "st1 = put_conditions st aid
    (conditions_of st aid @ [\<lparr>ac_id = c, ac_source = [], ac_applied_seq = seq\<rparr>])"
  have 1: "apply_event st (condition_frame ConditionApplied seq aid c) = Inr st1"
    using Cons.prems
    by (simp add: condition_frame_def apply_payload_def apply_condition_applied_def st1_def put_conditions_def)
  have a1: "fmlookup (st_actors st1) aid = Some h" and d: "distinct ids" "\<forall>c \<in> set ids. \<not> bad_id c"
    and disj: "set ids \<inter> ac_id ` set (conditions_of st1 aid) = {}"
    using Cons.prems by (auto simp: st1_def)
  obtain st' where st': "apply_events st1 (map (condition_frame ConditionApplied seq aid) ids) = Inr st'"
    "only_actor aid st1 st'" "st_actors st' = st_actors st1"
    "map ac_id (conditions_of st' aid) = map ac_id (conditions_of st1 aid) @ ids"
    using Cons.IH[OF a1 d(1) disj d(2)] by blast
  have "only_actor aid st st'" by (rule only_actor_trans[OF _ st'(2)]) (simp add: st1_def)
  then show ?case using 1 st' by (intro exI[of _ st']) (simp add: st1_def)
qed

lemma condition_frames_apply:
  assumes "fmlookup (st_actors st) aid = Some h" and "distinct (map ac_id (conditions_of st aid))"
    and "distinct present" and "\<forall>c \<in> set present. \<not> bad_id c"
  shows "\<exists>st'. apply_events st (condition_frames seq aid (map ac_id (conditions_of st aid)) present) = Inr st' \<and>
    only_actor aid st st' \<and> st_actors st' = st_actors st \<and> ac_id ` set (conditions_of st' aid) = set present"
proof -
  let ?held = "map ac_id (conditions_of st aid)"
  let ?gone = "filter (\<lambda>c. c \<notin> set present) ?held" and ?new = "filter (\<lambda>c. c \<notin> set ?held) present"
  obtain st1 where 1: "apply_events st (map (condition_frame ConditionRemoved seq aid) ?gone) = Inr st1"
    "only_actor aid st st1" "st_actors st1 = st_actors st"
    "conditions_of st1 aid = filter (\<lambda>x. ac_id x \<notin> set ?gone) (conditions_of st aid)"
    using conditions_removed_apply[OF assms(1,2), of ?gone seq] distinct_filter[OF assms(2)] by auto
  have kept: "ac_id ` set (conditions_of st1 aid) = set ?held \<inter> set present" unfolding 1(4) by auto
  have a1: "fmlookup (st_actors st1) aid = Some h" using assms(1) by (simp add: 1(3))
  have disj: "set ?new \<inter> ac_id ` set (conditions_of st1 aid) = {}" unfolding kept by auto
  have new: "distinct ?new" "\<forall>c \<in> set ?new. \<not> bad_id c" using assms(3,4) by auto
  obtain st2 where 2: "apply_events st1 (map (condition_frame ConditionApplied seq aid) ?new) = Inr st2"
    "only_actor aid st1 st2" "st_actors st2 = st_actors st1"
    "map ac_id (conditions_of st2 aid) = map ac_id (conditions_of st1 aid) @ ?new"
    using conditions_applied_apply[OF a1 new(1) disj new(2)] by blast
  have "ac_id ` set (conditions_of st2 aid) = ac_id ` set (conditions_of st1 aid) \<union> set ?new"
    using arg_cong[OF 2(4), of set] by simp
  also have "\<dots> = set present" unfolding kept by auto
  finally show ?thesis
    using apply_events_appendI[OF 1(1) 2(1)] only_actor_trans[OF 1(2) 2(2)] 1(3) 2(3)
    by (intro exI[of _ st2]) (simp add: condition_frames_def)
qed

subsection \<open>Control and kind\<close>

definition controlled :: "actor \<Rightarrow> string list \<Rightarrow> actor_kind \<Rightarrow> actor" where
  "controlled h ids kind = mirror_control (h\<lparr>actor_controller_ids := ids, actor_kind_of := kind\<rparr>)"

lemma mirror_control_alt:
  "mirror_control a = a\<lparr>actor_controller_id := (case actor_controller_ids a of [] \<Rightarrow> [] | c # _ \<Rightarrow> c)\<rparr>"
  by (simp add: mirror_control_def split: list.splits)

lemma controlled_same: "control_ok h \<Longrightarrow> controlled h (actor_controller_ids h) (actor_kind_of h) = h"
  by (cases h) (simp add: controlled_def mirror_control_alt control_ok_def)

lemma controlled_simps [simp]:
  "actor_controller_ids (controlled h ids kind) = ids" "actor_kind_of (controlled h ids kind) = kind"
  "controlled (controlled h ids kind) ids' kind' = controlled h ids' kind'"
  "mirror_control (controlled h ids kind\<lparr>actor_controller_ids := ids'\<rparr>) = controlled h ids' kind"
  "controlled h ids kind\<lparr>actor_kind_of := kind'\<rparr> = controlled h ids kind'"
  by (simp_all add: controlled_def mirror_control_alt)

definition granted_kind :: "actor_kind \<Rightarrow> actor_kind \<Rightarrow> actor_kind" where
  "granted_kind old stated = (if stated = KIND_UNSPECIFIED then old else stated)"

lemma granted_kind_twice [simp]: "granted_kind (granted_kind k k') k' = granted_kind k k'"
  by (simp add: granted_kind_def)

lemma grant_applies:
  assumes "fmlookup (st_actors st) aid = Some (controlled h ids kind)" and "\<not> bad_id c"
  shows "apply_event st (grant_frame seq aid c stated) =
    Inr (put_actor st aid (controlled h (if c \<in> set ids then ids else ids @ [c]) (granted_kind kind stated)))"
proof -
  have "c \<noteq> []" "length c \<le> 128" using assms(2) by (auto simp: bad_id_def)
  with assms(1) show ?thesis
    by (simp add: grant_frame_def apply_payload_def apply_control_granted_def control_target_def Let_def
        granted_kind_def)
qed

lemma grants_apply:
  assumes "fmlookup (st_actors st) aid = Some (controlled h ids kind)" and "distinct new"
    and "set new \<inter> set ids = {}" and "\<forall>c \<in> set new. \<not> bad_id c"
  shows "apply_events st (map (\<lambda>c. grant_frame seq aid c stated) new) =
    Inr (put_actor st aid (controlled h (ids @ new) (if new = [] then kind else granted_kind kind stated)))"
  using assms
proof (induction new arbitrary: st ids kind)
  case Nil
  then show ?case by (simp add: put_actor_same)
next
  case (Cons c new)
  let ?st = "put_actor st aid (controlled h (ids @ [c]) (granted_kind kind stated))"
  have "apply_event st (grant_frame seq aid c stated) = Inr ?st"
    using grant_applies[OF Cons.prems(1), of c seq stated] Cons.prems(3,4) by simp
  moreover have "apply_events ?st (map (\<lambda>c. grant_frame seq aid c stated) new) =
      Inr (put_actor ?st aid (controlled h ((ids @ [c]) @ new)
        (if new = [] then granted_kind kind stated else granted_kind (granted_kind kind stated) stated)))"
    using Cons.prems by (intro Cons.IH) auto
  ultimately show ?case by (simp cong: if_cong)
qed

lemma revokes_apply:
  assumes "fmlookup (st_actors st) aid = Some (controlled h ids kind)" and "\<forall>c \<in> set gone. \<not> bad_id c"
  shows "apply_events st (map (\<lambda>c. frame seq (ActorControlRevoked aid c)) gone) =
    Inr (put_actor st aid (controlled h (filter (\<lambda>c. c \<notin> set gone) ids) kind))"
  using assms
proof (induction gone arbitrary: st ids)
  case Nil
  then show ?case by (simp add: put_actor_same)
next
  case (Cons c gone)
  let ?st = "put_actor st aid (controlled h (filter (\<lambda>id. id \<noteq> c) ids) kind)"
  have "c \<noteq> []" "length c \<le> 128" using Cons.prems(2) by (auto simp: bad_id_def)
  then have "apply_event st (frame seq (ActorControlRevoked aid c)) = Inr ?st"
    using Cons.prems(1) by (simp add: apply_payload_def apply_control_revoked_def control_target_def)
  moreover have "apply_events ?st (map (\<lambda>c. frame seq (ActorControlRevoked aid c)) gone) =
      Inr (put_actor ?st aid (controlled h (filter (\<lambda>c. c \<notin> set gone) (filter (\<lambda>id. id \<noteq> c) ids)) kind))"
    using Cons.prems(2) by (intro Cons.IH) auto
  ultimately show ?case by simp
qed

lemma control_frames_apply:
  assumes "control_frames seq aid b a = Some fs" and "fmlookup (st_actors st) aid = Some h"
    and "ab_controllers b = actor_controller_ids h" and "ab_kind b = actor_kind_of h"
    and "control_ok h" and "control_ok a"
  shows "\<exists>ids kind. apply_events st fs = Inr (put_actor st aid (controlled h ids kind)) \<and>
    set ids = set (actor_controller_ids a) \<and>
    (actor_kind_of a \<noteq> KIND_UNSPECIFIED \<or> actor_kind_of a = actor_kind_of h \<longrightarrow> kind = actor_kind_of a)"
proof -
  define old where "old = actor_controller_ids h"
  define new where "new = filter (\<lambda>c. c \<notin> set old) (actor_controller_ids a)"
  define gone where "gone = filter (\<lambda>c. c \<notin> set (actor_controller_ids a)) old"
  define k1 where "k1 = (if new = [] then actor_kind_of h else granted_kind (actor_kind_of h) (actor_kind_of a))"
  have ok: "\<forall>c \<in> set old. \<not> bad_id c" "\<forall>c \<in> set new. \<not> bad_id c" "distinct new" "set new \<inter> set old = {}"
    using assms(5,6) by (auto simp: control_ok_def old_def new_def)
  have h: "fmlookup (st_actors st) aid = Some (controlled h old (actor_kind_of h))"
    using assms(2,5) by (simp add: controlled_same old_def)
  have g: "apply_events st (map (\<lambda>c. grant_frame seq aid c (actor_kind_of a)) new) =
      Inr (put_actor st aid (controlled h (old @ new) k1))"
    using grants_apply[OF h ok(3,4,2)] by (simp add: k1_def)
  have r: "apply_events (put_actor st aid (controlled h (old @ new) k))
      (map (\<lambda>c. frame seq (ActorControlRevoked aid c)) gone) =
      Inr (put_actor st aid (controlled h (filter (\<lambda>c. c \<notin> set gone) (old @ new)) k))" for k
    using revokes_apply[of "put_actor st aid (controlled h (old @ new) k)" aid h "old @ new" k gone seq] ok(1)
    by (simp add: gone_def)
  have final: "set (filter (\<lambda>c. c \<notin> set gone) (old @ new)) = set (actor_controller_ids a)"
    by (auto simp: gone_def new_def)
  have cf: "control_frames seq aid b a =
     (if actor_kind_of a \<noteq> ab_kind b \<and> new = []
      then (case old of [] \<Rightarrow> None
            | c # _ \<Rightarrow> if actor_kind_of a = KIND_UNSPECIFIED then None
                else Some (map (\<lambda>c. grant_frame seq aid c (actor_kind_of a)) new @
                  [grant_frame seq aid c (actor_kind_of a)] @ map (\<lambda>c. frame seq (ActorControlRevoked aid c)) gone))
      else Some (map (\<lambda>c. grant_frame seq aid c (actor_kind_of a)) new @
             map (\<lambda>c. frame seq (ActorControlRevoked aid c)) gone))"
    unfolding control_frames_def Let_def old_def new_def gone_def assms(3) ..
  show ?thesis
  proof (cases "actor_kind_of a \<noteq> ab_kind b \<and> new = []")
    case True
    then obtain c cs where c: "old = c # cs" "actor_kind_of a \<noteq> KIND_UNSPECIFIED"
      and fs: "fs = [grant_frame seq aid c (actor_kind_of a)] @ map (\<lambda>c. frame seq (ActorControlRevoked aid c)) gone"
      using assms(1) unfolding cf by (cases old) (simp_all split: if_splits)
    have "apply_event st (grant_frame seq aid c (actor_kind_of a)) =
        Inr (put_actor st aid (controlled h (old @ new) (actor_kind_of a)))"
      using grant_applies[OF h, of c seq "actor_kind_of a"] c ok(1) True by (simp add: granted_kind_def)
    with r[of "actor_kind_of a"] have "apply_events st fs =
        Inr (put_actor st aid (controlled h (filter (\<lambda>c. c \<notin> set gone) (old @ new)) (actor_kind_of a)))"
      by (simp add: fs)
    with final show ?thesis by blast
  next
    case False
    then have fs: "fs = map (\<lambda>c. grant_frame seq aid c (actor_kind_of a)) new @
        map (\<lambda>c. frame seq (ActorControlRevoked aid c)) gone"
      using assms(1) unfolding cf by auto
    have "apply_events st fs = Inr (put_actor st aid (controlled h (filter (\<lambda>c. c \<notin> set gone) (old @ new)) k1))"
      unfolding fs by (rule apply_events_appendI[OF g r])
    moreover have "actor_kind_of a \<noteq> KIND_UNSPECIFIED \<or> actor_kind_of a = actor_kind_of h \<longrightarrow> k1 = actor_kind_of a"
      using False assms(4) by (auto simp: k1_def granted_kind_def)
    ultimately show ?thesis using final by blast
  qed
qed

subsection \<open>One correction\<close>

lemma keys_determine:
  assumes "length (keys m) = length (keys m')" and "\<forall>k \<in> set (keys m). fmlookup m' k \<noteq> None"
  shows "fmdom' m' = fmdom' m"
proof -
  have "set (keys m) \<subseteq> set (keys m')" using assms(2) unfolding in_keys_iff[symmetric] by blast
  moreover have "card (set (keys m)) = card (set (keys m'))"
    using assms(1) by (simp only: distinct_card distinct_keys)
  ultimately have "set (keys m) = set (keys m')" by (intro card_subset_eq) auto
  then show ?thesis by simp
qed

lemma same_incarnationD:
  assumes "same_incarnation a b"
  shows "actor_name b = actor_name a" "actor_module_id b = actor_module_id a"
    "actor_module_data b = actor_module_data a" "actor_attributes b = actor_attributes a"
    "map_option res_max (fmlookup (actor_resources b) k) = map_option res_max (fmlookup (actor_resources a) k)"
proof -
  have attrs: "k \<in> fmdom' (actor_attributes a) \<Longrightarrow> fmlookup (actor_attributes b) k = fmlookup (actor_attributes a) k"
    and res: "k \<in> fmdom' (actor_resources a) \<Longrightarrow> map_option res_max (fmlookup (actor_resources b) k) =
      map_option res_max (fmlookup (actor_resources a) k)" for k
    using assms by (simp_all add: same_incarnation_def list_all_iff)
  have da: "fmdom' (actor_attributes b) = fmdom' (actor_attributes a)"
    using assms attrs by (intro keys_determine) (auto simp: same_incarnation_def fmlookup_dom'_iff)
  have dr: "fmdom' (actor_resources b) = fmdom' (actor_resources a)"
    using assms res by (intro keys_determine) (fastforce simp: same_incarnation_def fmlookup_dom'_iff)+
  show "actor_attributes b = actor_attributes a"
  proof (rule fmap_ext)
    fix k show "fmlookup (actor_attributes b) k = fmlookup (actor_attributes a) k"
      using attrs[of k] da by (cases "k \<in> fmdom' (actor_attributes a)") (metis fmdom'_notD)+
  qed
  show "map_option res_max (fmlookup (actor_resources b) k) = map_option res_max (fmlookup (actor_resources a) k)"
    using res[of k] dr by (cases "k \<in> fmdom' (actor_resources a)") (metis fmdom'_notD)+
qed (use assms in \<open>simp_all add: same_incarnation_def\<close>)

text \<open>The viewer's copy of an actor reads as the actor: all but the order of lists.\<close>

definition reads_as :: "actor \<Rightarrow> actor \<Rightarrow> bool" where
  "reads_as h a =
     (actor_name h = actor_name a \<and> actor_module_id h = actor_module_id a \<and>
      actor_module_data h = actor_module_data a \<and> actor_attributes h = actor_attributes a \<and>
      actor_resources h = actor_resources a \<and>
      set (actor_controller_ids h) = set (actor_controller_ids a) \<and> actor_kind_of h = actor_kind_of a)"

lemma correction_applies:
  assumes sf: "status_frames aid seq (belief_of h (conditions_of st aid)) a cs = Some fs"
    and held: "fmlookup (st_actors st) aid = Some h" and same: "same_incarnation h a"
    and ok: "control_ok h" "control_ok a"
    and cond: "distinct (map ac_id (conditions_of st aid))" "distinct (map ac_id cs)" "\<forall>c \<in> set cs. \<not> bad_id (ac_id c)"
    and range: "\<And>n r t. fmlookup (actor_resources h) n = Some r \<Longrightarrow> fmlookup (actor_resources a) n = Some t \<Longrightarrow>
        res_current t = res_current r \<or> in_range t"
    and kind: "actor_kind_of a \<noteq> KIND_UNSPECIFIED \<or> actor_kind_of a = actor_kind_of h"
  shows "\<exists>st' h'. apply_events st fs = Inr st' \<and> only_actor aid st st' \<and>
    fmlookup (st_actors st') aid = Some h' \<and> reads_as h' a \<and>
    ac_id ` set (conditions_of st' aid) = ac_id ` set cs"
proof -
  let ?b = "belief_of h (conditions_of st aid)"
  obtain rs gs where rs: "resource_frames seq aid (ab_resources ?b) (actor_resources a) (keys (actor_resources a)) = Some rs"
    and gs: "control_frames seq aid ?b a = Some gs"
    and fs: "fs = rs @ condition_frames seq aid (map ac_id (conditions_of st aid)) (map ac_id cs) @ gs"
    using sf by (auto simp: status_frames_def belief_of_def split: if_splits option.splits)
  have maxes: "map_option res_max (fmlookup (actor_resources a) n) = map_option res_max (fmlookup (actor_resources h) n)" for n
    by (rule same_incarnationD(5)[OF same])
  have "\<exists>r t. fmlookup (actor_resources h) n = Some r \<and> fmlookup (actor_resources a) n = Some t \<and>
      res_max r = res_max t \<and> fmlookup (ab_resources ?b) n = Some (res_current r) \<and>
      (res_current t = res_current r \<or> in_range t)" if n: "n \<in> set (keys (actor_resources a))" for n
  proof -
    obtain t where t: "fmlookup (actor_resources a) n = Some t" using n by (auto simp: fmlookup_dom'_iff)
    then obtain r where r: "fmlookup (actor_resources h) n = Some r" "res_max r = res_max t"
      using maxes[of n] by (cases "fmlookup (actor_resources h) n") auto
    then show ?thesis using t range[OF r(1) t] by (simp add: belief_of_def)
  qed
  from resource_frames_apply[OF rs distinct_keys held this] obtain R where
    R: "apply_events st rs = Inr (put_actor st aid (h\<lparr>actor_resources := R\<rparr>))"
    "\<forall>n. fmlookup R n = (if n \<in> set (keys (actor_resources a)) then fmlookup (actor_resources a) n else fmlookup (actor_resources h) n)"
    by blast
  have "R = actor_resources a"
  proof (rule fmap_ext)
    fix n show "fmlookup R n = fmlookup (actor_resources a) n"
      using R(2) maxes[of n] by (cases "fmlookup (actor_resources a) n") (auto simp: fmlookup_dom'_iff)
  qed
  then have 1: "apply_events st rs = Inr (put_actor st aid (h\<lparr>actor_resources := actor_resources a\<rparr>))" using R(1) by simp
  let ?h = "h\<lparr>actor_resources := actor_resources a\<rparr>" let ?st = "put_actor st aid ?h"
  have h1: "fmlookup (st_actors ?st) aid = Some ?h" and c1: "conditions_of ?st aid = conditions_of st aid" by simp_all
  obtain st2 where 2: "apply_events ?st (condition_frames seq aid (map ac_id (conditions_of st aid)) (map ac_id cs)) = Inr st2"
    "only_actor aid ?st st2" "st_actors st2 = st_actors ?st" "ac_id ` set (conditions_of st2 aid) = ac_id ` set cs"
    using condition_frames_apply[OF h1, of "map ac_id cs" seq] cond unfolding c1 by auto
  have h2: "fmlookup (st_actors st2) aid = Some ?h" by (simp add: 2(3))
  have ok': "control_ok ?h" using ok(1) by (simp add: control_ok_def)
  obtain ids k where 3: "apply_events st2 gs = Inr (put_actor st2 aid (controlled ?h ids k))"
    "set ids = set (actor_controller_ids a)" "k = actor_kind_of a"
    using control_frames_apply[OF gs h2 _ _ ok' ok(2)] kind by (auto simp: belief_of_def)
  have "apply_events st fs = Inr (put_actor st2 aid (controlled ?h ids k))"
    unfolding fs by (intro apply_events_appendI[OF 1] apply_events_appendI[OF 2(1)] 3(1))
  moreover have "only_actor aid st (put_actor st2 aid (controlled ?h ids k))"
    using only_actor_trans[OF only_actor_trans[OF only_actor_put 2(2)] only_actor_put] .
  moreover have "reads_as (controlled ?h ids k) a"
    using 3(2,3) same_incarnationD[OF same] by (simp add: reads_as_def controlled_def mirror_control_alt)
  ultimately show ?thesis using 2(4) by (intro exI conjI) (assumption | simp)+
qed

text \<open>
  C13: A correction is exact. When the viewer holds an actor of the same incarnation as the one the
  world shows, the frames \<open>statusFrames\<close> emits all fold, change nothing but that actor and its
  conditions, and leave the viewer's copy reading as the world's: every resource, the set of
  conditions, the set of controllers and the kind. It asks that a resource that differs is one the
  fold could have produced (not negative, not above its maximum), and that a kind the world leaves
  unspecified is the kind held.
\<close>

theorem status_frames_exact:
  assumes "status_frames aid seq (belief_of h (conditions_of st aid)) a cs = Some fs"
    and "fmlookup (st_actors st) aid = Some h" and "same_incarnation h a" and "wf_state st" and "control_ok a"
    and "distinct (map ac_id cs)" and "\<forall>c \<in> set cs. \<not> bad_id (ac_id c)"
    and "\<forall>n r t. fmlookup (actor_resources h) n = Some r \<and> fmlookup (actor_resources a) n = Some t \<longrightarrow>
        res_current t = res_current r \<or> in_range t"
    and "actor_kind_of a \<noteq> KIND_UNSPECIFIED \<or> actor_kind_of a = actor_kind_of h"
  shows "\<exists>st' h'. apply_events st fs = Inr st' \<and> only_actor aid st st' \<and>
    fmlookup (st_actors st') aid = Some h' \<and> reads_as h' a \<and>
    ac_id ` set (conditions_of st' aid) = ac_id ` set cs"
proof -
  have "control_ok h" "distinct (map ac_id (conditions_of st aid))"
    using wf_stateD(2)[OF assms(4,2)] conditions_of_wf[OF assms(4), of aid] by (simp_all add: wf_actor_def)
  with correction_applies[OF assms(1,2,3) _ assms(5) _ assms(6,7)] assms(8,9) show ?thesis by blast
qed

text \<open>The demo actor wounded, poisoned and handed to a player while out of sight.\<close>

definition demo_wounded :: "int32 \<Rightarrow> actor" where
  "demo_wounded hp = demo_actor\<lparr>actor_resources := fmupd ''hp'' \<lparr>res_current = hp, res_max = 10\<rparr> fmempty,
     actor_controller_id := ''p1'', actor_controller_ids := [''p1'']\<rparr>"

definition demo_poison :: actor_condition where
  "demo_poison = \<lparr>ac_id = ''poisoned'', ac_source = ''trap'', ac_applied_seq = 9\<rparr>"

definition demo_fix :: "envelope list" where
  "demo_fix = [resource_frame 12 ''a1'' ''hp'' (- 1) 4, condition_frame ConditionApplied 12 ''a1'' ''poisoned'',
     grant_frame 12 ''a1'' ''p1'' KIND_PARTY_MEMBER]"

lemma demo_conditions [simp]: "conditions_of demo_state k = []"
  by (simp add: conditions_of_def demo_state_def)

lemma demo_held: "fmlookup (st_actors demo_state) ''a1'' = Some demo_actor"
  by (simp add: demo_state_def)

lemma demo_same: "same_incarnation demo_actor (demo_wounded hp)"
  by (simp add: same_incarnation_def demo_actor_def demo_wounded_def)

lemma demo_status:
  "status_frames ''a1'' 12 (belief_of demo_actor (conditions_of demo_state ''a1'')) (demo_wounded 4) [demo_poison] = Some demo_fix"
  by (simp add: status_frames_def belief_of_def demo_actor_def demo_wounded_def demo_poison_def demo_fix_def
      resource_step_def condition_frames_def control_frames_def Let_def)

theorem status_frames_exact_witness:
  "\<exists>st' h'. apply_events demo_state demo_fix = Inr st' \<and> only_actor ''a1'' demo_state st' \<and>
     fmlookup (st_actors st') ''a1'' = Some h' \<and> reads_as h' (demo_wounded 4) \<and>
     ac_id ` set (conditions_of st' ''a1'') = {''poisoned''}"
proof -
  have "control_ok (demo_wounded 4)" by (simp add: control_ok_def demo_wounded_def bad_id_def)
  moreover have "\<not> bad_id (ac_id demo_poison)" by (simp add: demo_poison_def bad_id_def)
  ultimately show ?thesis
    using status_frames_exact[OF demo_status demo_held demo_same demo_wf]
    by (simp add: demo_wounded_def demo_actor_def in_range_def) (simp add: demo_poison_def)
qed

text \<open>C16: The range is needed: an actor removed out of sight and added again under its id with a
  current value of -3 is the same incarnation, so it is corrected, and the one frame of that
  correction is refused by the viewer's fold, which clamps to 0.\<close>

theorem below_zero_correction_refused:
  "\<exists>f. status_frames ''a1'' 12 (belief_of demo_actor []) (demo_wounded (- 3)\<lparr>actor_controller_id := [], actor_controller_ids := []\<rparr>) [] = Some [f] \<and>
     apply_events demo_state [f] = Inl (ErrNewValue ''hp'' ''a1'' (- 3) 0)"
proof -
  have "clamped_value \<lparr>res_current = 5, res_max = 10\<rparr> (- 8) = 0"
    using sint_clamped[of "\<lparr>res_current = 5, res_max = 10\<rparr>" "- 8"]
    by (intro sint_inject[THEN iffD1]) (simp add: clamp_spec_def)
  moreover have "widen (- 3) \<noteq> 0" using sint_widen[of "- 3"] by (intro notI) simp
  ultimately show ?thesis
    by (intro exI[of _ "resource_frame 12 ''a1'' ''hp'' (- 8) (- 3)"])
    (simp add: status_frames_def belief_of_def demo_actor_def demo_wounded_def
      resource_step_def condition_frames_def control_frames_def Let_def resource_frame_def
      apply_payload_def apply_resource_changed_def demo_state_def)
qed

end
