(* ===== verification/Fold_Bounds.thy ===== *)
theory Fold_Bounds
  imports Engine_Props
begin

text \<open>
  The bounds the fold's refusals give its state: names and module ids within their limits, and
  resource and attribute names neither empty nor too long. What was once accepted can be introduced
  again in another fold, which is what the projection does.
\<close>

definition bounded_actor :: "actor \<Rightarrow> bool" where
  [wf_defs]: "bounded_actor a =
     (length (actor_name a) \<le> max_name_bytes \<and> length (actor_module_id a) \<le> max_id_bytes \<and>
      \<not> bad_keys (actor_resources a) \<and> \<not> bad_keys (actor_attributes a))"

definition bounded_state :: "state \<Rightarrow> bool" where
  [wf_defs]: "bounded_state st =
     ((\<forall>k sc. fmlookup (st_scenes st) k = Some sc \<longrightarrow> length (sc_name sc) \<le> max_name_bytes) \<and>
      (\<forall>k a. fmlookup (st_actors st) k = Some a \<longrightarrow> bounded_actor a))"

lemma bounded_new_state [simp]: "bounded_state new_state"
  by (simp add: bounded_state_def new_state_def)

lemma bounded_empty_keys [simp]: "\<not> bad_keys fmempty"
  by (simp add: bad_keys_def key_length_def)

lemma bad_keys_cong: "keys m = keys m' \<Longrightarrow> bad_keys m = bad_keys m'"
proof -
  assume k: "keys m = keys m'"
  then have "fmlookup m [] \<noteq> None \<longleftrightarrow> fmlookup m' [] \<noteq> None" by (simp only: in_keys_iff[symmetric])
  with k show ?thesis by (simp add: bad_keys_def key_length_def)
qed

lemma bad_keys_upd: "k \<in> fmdom' m \<Longrightarrow> bad_keys (fmupd k v m) = bad_keys m"
  by (rule bad_keys_cong) simp

lemma bounded_put_actor: "bounded_state st \<Longrightarrow> bounded_actor a \<Longrightarrow> bounded_state (put_actor st k a)"
  by (simp add: bounded_state_def put_actor_def)

lemma bounded_put_scene: "bounded_state st \<Longrightarrow> length (sc_name sc) \<le> max_name_bytes \<Longrightarrow> bounded_state (put_scene st k sc)"
  by (simp add: bounded_state_def put_scene_def)

lemma bounded_mirror [simp]: "bounded_actor (mirror_control a) = bounded_actor a"
  by (simp add: bounded_actor_def mirror_control_def split: list.splits)

lemma bounded_control [simp]:
  "bounded_actor (a\<lparr>actor_controller_ids := ids\<rparr>) = bounded_actor a"
  "bounded_actor (a\<lparr>actor_kind_of := kind\<rparr>) = bounded_actor a"
  by (simp_all add: bounded_actor_def)

lemma bounded_resource:
  "bounded_actor a \<Longrightarrow> fmlookup (actor_resources a) n = Some r \<Longrightarrow>
     bounded_actor (a\<lparr>actor_resources := fmupd n r' (actor_resources a)\<rparr>)"
  by (simp add: bounded_actor_def bad_keys_upd fmlookup_dom'_iff)

lemma boundedD:
  assumes "bounded_state st"
  shows "fmlookup (st_scenes st) k = Some sc \<Longrightarrow> length (sc_name sc) \<le> max_name_bytes"
    and "fmlookup (st_actors st) k = Some a \<Longrightarrow> bounded_actor a"
  using assms by (simp_all add: bounded_state_def)

lemma bounded_other:
  "st_scenes st' = st_scenes st \<Longrightarrow> st_actors st' = st_actors st \<Longrightarrow> bounded_state st \<Longrightarrow> bounded_state st'"
  by (simp add: bounded_state_def)

lemma control_arm_bounded:
  "bounded_state st \<Longrightarrow> apply_control_granted st g = Inr st' \<Longrightarrow> bounded_state st'"
  "bounded_state st \<Longrightarrow> apply_control_revoked st aid pid = Inr st' \<Longrightarrow> bounded_state st'"
  by (auto simp: fold_arms Let_def control_target_Inr dest: boundedD(2) intro!: bounded_put_actor
      split: sum.splits if_splits)

lemma actor_arm_bounded:
  "bounded_state st \<Longrightarrow> apply_actor_added st ao = Inr st' \<Longrightarrow> bounded_state st'"
  "bounded_state st \<Longrightarrow> apply_actor_removed st aid = Inr st' \<Longrightarrow> bounded_state st'"
  "bounded_state st \<Longrightarrow> apply_resource_changed st rc = Inr st' \<Longrightarrow> bounded_state st'"
  by (auto simp: fold_arms Let_def bounded_actor_def dest: boundedD intro!: bounded_put_actor bounded_resource
      split: option.splits if_splits)
    (auto simp: bounded_state_def)

lemma scene_arm_bounded:
  "bounded_state st \<Longrightarrow> apply_scene_created st sc = Inr st' \<Longrightarrow> bounded_state st'"
  "bounded_state st \<Longrightarrow> apply_door_opened st sid at = Inr st' \<Longrightarrow> bounded_state st'"
  "bounded_state st \<Longrightarrow> apply_door_closed st sid at = Inr st' \<Longrightarrow> bounded_state st'"
  "bounded_state st \<Longrightarrow> apply_scene_seen st ss = Inr st' \<Longrightarrow> bounded_state st'"
  by (auto simp: fold_arms Let_def dest: boundedD(1) intro!: bounded_put_scene split: option.splits if_splits sum.splits)
    (auto simp: bounded_state_def)

lemma other_arm_frame:
  "apply_session_started st env name = Inr st' \<Longrightarrow> st_scenes st' = st_scenes st \<and> st_actors st' = st_actors st"
  "apply_session_ended st env = Inr st' \<Longrightarrow> st_scenes st' = st_scenes st \<and> st_actors st' = st_actors st"
  "apply_condition_applied st env ce = Inr st' \<Longrightarrow> st_scenes st' = st_scenes st \<and> st_actors st' = st_actors st"
  "apply_condition_removed st ce = Inr st' \<Longrightarrow> st_scenes st' = st_scenes st \<and> st_actors st' = st_actors st"
  "apply_token_placed st tp = Inr st' \<Longrightarrow> st_scenes st' = st_scenes st \<and> st_actors st' = st_actors st"
  "apply_token_described st td = Inr st' \<Longrightarrow> st_scenes st' = st_scenes st \<and> st_actors st' = st_actors st"
  "apply_token_moved st tm = Inr st' \<Longrightarrow> st_scenes st' = st_scenes st \<and> st_actors st' = st_actors st"
  "apply_token_removed st tid = Inr st' \<Longrightarrow> st_scenes st' = st_scenes st \<and> st_actors st' = st_actors st"
  "apply_token_hidden st tid = Inr st' \<Longrightarrow> st_scenes st' = st_scenes st \<and> st_actors st' = st_actors st"
  "apply_note_upserted st env nu = Inr st' \<Longrightarrow> st_scenes st' = st_scenes st \<and> st_actors st' = st_actors st"
  "apply_note_deleted st key = Inr st' \<Longrightarrow> st_scenes st' = st_scenes st \<and> st_actors st' = st_actors st"
  by (auto simp: fold_arms put_token_def split: option.splits if_splits)

lemma apply_event_bounded: "bounded_state st \<Longrightarrow> apply_event st env = Inr st' \<Longrightarrow> bounded_state st'"
proof -
  assume b: "bounded_state st" and e: "apply_event st env = Inr st'"
  from e obtain p where p: "apply_payload st env p = Inr st'"
    by (auto simp: apply_event_def split: option.splits)
  note arms = control_arm_bounded[OF b] actor_arm_bounded[OF b] scene_arm_bounded[OF b]
  from p show "bounded_state st'"
    by (cases p)
      (auto simp: apply_payload_def dest!: other_arm_frame testimony_unchanged
        intro: b arms bounded_other[OF _ _ b])
qed

lemma apply_events_bounded: "bounded_state st \<Longrightarrow> apply_events st envs = Inr st' \<Longrightarrow> bounded_state st'"
  unfolding apply_events_def by (rule fold_res_invariant) (auto intro: apply_event_bounded)

lemma demo_bounded: "bounded_state demo_state"
  using apply_events_bounded[OF bounded_new_state demo_replay] .

end
