(* ===== verification/Perceive_Fold.thy ===== *)
theory Perceive_Fold
  imports Perceive_Status Fold_Bounds
begin

text \<open>
  The projection's transitions, run through the viewer's fold stage by stage: scenes, doors, hidden
  tokens, placed tokens, seen squares and notes. Each lemma says that the stage's frames fold, from a
  fold the projection's fields describe, what they change, and that the fields describe the result.
\<close>

lemma distinct_sorted_set [simp]: "distinct (sorted_set S)"
  by (simp add: sorted_list_of_fset.rep_eq)

subsection \<open>Scenes\<close>

definition outline :: "scene \<Rightarrow> scene" where
  "outline sc = \<lparr>sc_id = sc_id sc, sc_name = sc_name sc, sc_grid_width = sc_grid_width sc,
     sc_grid_height = sc_grid_height sc, sc_tiles = Some fmempty, sc_objects = [],
     sc_open_doors = Some fmempty, sc_explored = None, sc_visible = None\<rparr>"

lemma put_scene_simps [simp]:
  "fmlookup (st_scenes (put_scene st k sc)) k' = (if k' = k then Some sc else fmlookup (st_scenes st) k')"
  "put_scene (put_scene st k sc) k sc' = put_scene st k sc'"
  "st_actors (put_scene st k sc) = st_actors st" "st_tokens (put_scene st k sc) = st_tokens st"
  "st_sessions (put_scene st k sc) = st_sessions st" "st_conditions (put_scene st k sc) = st_conditions st"
  "st_notes (put_scene st k sc) = st_notes st" "fmdom (st_scenes (put_scene st k sc)) = finsert k (fmdom (st_scenes st))"
  by (simp_all add: put_scene_def)

lemma put_scene_same: "fmlookup (st_scenes st) k = Some sc \<Longrightarrow> put_scene st k sc = st"
  by (simp add: put_scene_def fmupd_same)

definition only_scenes :: "state \<Rightarrow> state \<Rightarrow> bool" where
  "only_scenes s s' =
     (st_actors s' = st_actors s \<and> st_tokens s' = st_tokens s \<and> st_sessions s' = st_sessions s \<and>
      st_conditions s' = st_conditions s \<and> st_notes s' = st_notes s)"

lemma only_scenes_refl [simp]: "only_scenes s s"
  by (simp add: only_scenes_def)

lemma only_scenes_trans: "only_scenes a b \<Longrightarrow> only_scenes b c \<Longrightarrow> only_scenes a c"
  by (simp add: only_scenes_def)

lemma only_scenes_put [simp]: "only_scenes s (put_scene s k sc)"
  by (simp add: only_scenes_def)

lemma scene_frame_applies:
  assumes "fmlookup (st_scenes st) sid = Some sc" and "wf_state st" and "bounded_state st"
    and "fmlookup (st_scenes s) sid = None"
  shows "apply_event s (scene_frame seq (scene_at st sid)) = Inr (put_scene s sid (outline sc))"
proof -
  have "sc_id sc = sid" "\<not> bad_id sid" using wf_stateD(1)[OF assms(2,1)] by (simp_all add: wf_scene_def)
  moreover have "length (sc_name sc) \<le> 256" using boundedD(1)[OF assms(3,1)] by simp
  ultimately show ?thesis using assms(1,4)
    by (simp add: scene_frame_def scene_at_def apply_payload_def apply_scene_created_def put_scene_def outline_def)
qed

lemma introduce_scenes_apply:
  assumes "introduce_scenes seq st sids pr = (fs, pr')" and "pj_scenes pr = fmdom (st_scenes s)"
    and "wf_state st" and "bounded_state st" and "\<forall>sid \<in> set sids. fmlookup (st_scenes st) sid \<noteq> None"
  shows "\<exists>s'. apply_events s fs = Inr s' \<and> only_scenes s s' \<and>
    (\<forall>sid. fmlookup (st_scenes s') sid =
       (case fmlookup (st_scenes s) sid of Some sc \<Rightarrow> Some sc
        | None \<Rightarrow> if sid \<in> set sids then Some (outline (scene_at st sid)) else None)) \<and>
    pr' = pr\<lparr>pj_scenes := fmdom (st_scenes s')\<rparr>"
  using assms
proof (induction sids arbitrary: pr fs s pr')
  case Nil
  then show ?case by (auto split: option.splits)
next
  case (Cons sid sids)
  show ?case
  proof (cases "sid |\<in>| pj_scenes pr")
    case True
    then have run: "introduce_scenes seq st sids pr = (fs, pr')" using Cons.prems(1) by simp
    have known: "fmlookup (st_scenes s) sid \<noteq> None" using True Cons.prems(2) by (simp add: fmlookup_dom_iff)
    obtain s' where s': "apply_events s fs = Inr s'" "only_scenes s s'"
      "\<forall>k. fmlookup (st_scenes s') k = (case fmlookup (st_scenes s) k of Some sc \<Rightarrow> Some sc
        | None \<Rightarrow> if k \<in> set sids then Some (outline (scene_at st k)) else None)"
      "pr' = pr\<lparr>pj_scenes := fmdom (st_scenes s')\<rparr>"
      using Cons.IH[OF run Cons.prems(2,3,4)] Cons.prems(5) by auto
    then show ?thesis using known by (intro exI[of _ s']) (auto split: option.splits)
  next
    case False
    obtain sc where sc: "fmlookup (st_scenes st) sid = Some sc" using Cons.prems(5) by auto
    have new: "fmlookup (st_scenes s) sid = None" using False Cons.prems(2) by (simp add: fmlookup_dom_iff)
    let ?s = "put_scene s sid (outline sc)" and ?pr = "pr\<lparr>pj_scenes := finsert sid (pj_scenes pr)\<rparr>"
    obtain rest pr1 where r: "introduce_scenes seq st sids ?pr = (rest, pr1)" by fastforce
    have fs: "fs = scene_frame seq (scene_at st sid) # rest" "pr' = pr1" using Cons.prems(1) False r by auto
    have dom: "pj_scenes ?pr = fmdom (st_scenes ?s)" using Cons.prems(2) by simp
    obtain s' where s': "apply_events ?s rest = Inr s'" "only_scenes ?s s'"
      "\<forall>k. fmlookup (st_scenes s') k = (case fmlookup (st_scenes ?s) k of Some sc \<Rightarrow> Some sc
        | None \<Rightarrow> if k \<in> set sids then Some (outline (scene_at st k)) else None)"
      "pr1 = ?pr\<lparr>pj_scenes := fmdom (st_scenes s')\<rparr>"
      using Cons.IH[OF r dom Cons.prems(3,4)] Cons.prems(5) by auto
    have "only_scenes s s'" by (rule only_scenes_trans[OF only_scenes_put s'(2)])
    moreover have "scene_at st sid = sc" using sc by (simp add: scene_at_def)
    ultimately show ?thesis
      using scene_frame_applies[OF sc Cons.prems(3,4) new, of seq] s' new fs
      by (intro exI[of _ s']) (auto split: option.splits)
  qed
qed

subsection \<open>Doors\<close>

definition with_doors :: "scene \<Rightarrow> (string, bool) fmap option \<Rightarrow> scene" where
  "with_doors sc D = sc\<lparr>sc_open_doors := D\<rparr>"

lemma with_doors_simps [simp]:
  "sc_open_doors (with_doors sc D) = D" "with_doors (with_doors sc D) D' = with_doors sc D'"
  "with_doors sc (sc_open_doors sc) = sc" "sc_visible (with_doors sc D) = sc_visible sc"
  "sc_id (with_doors sc D) = sc_id sc"
  by (simp_all add: with_doors_def)

lemma door_square_applies:
  assumes "door_square subject seq sid world sq b = (fs, b')" and "fmlookup (st_scenes s) sid = Some sc"
    and "\<exists>x y. sq = grid_key x y" and "sq |\<in>| b \<longleftrightarrow> go_flag (sc_open_doors sc) sq"
  shows "\<exists>D. apply_events s fs = Inr (put_scene s sid (with_doors sc D)) \<and>
    (\<forall>k. go_flag D k = (if k = sq \<and> subject \<noteq> Some (sid, sq) then go_flag (sc_open_doors world) sq else go_flag (sc_open_doors sc) k)) \<and>
    (\<forall>k. k \<noteq> sq \<longrightarrow> (k |\<in>| b') = (k |\<in>| b))"
proof -
  let ?same = "apply_events s [] = Inr (put_scene s sid (with_doors sc (sc_open_doors sc)))"
  have same: ?same using assms(2) by (simp add: put_scene_same)
  show ?thesis
  proof (cases "go_flag (sc_open_doors world) sq = (sq |\<in>| b) \<or> subject = Some (sid, sq)")
    case True
    then have "fs = []" "\<forall>k. k \<noteq> sq \<longrightarrow> (k |\<in>| b') = (k |\<in>| b)"
      using assms(1) by (auto simp: door_square_def Let_def split: if_splits)
    then show ?thesis using same True assms(4) by (intro exI[of _ "sc_open_doors sc"]) auto
  next
    case False
    obtain x y where xy: "sq = grid_key x y" using assms(3) by blast
    let ?p = "\<lparr>gp_x = x, gp_y = y\<rparr>" and ?open = "go_flag (sc_open_doors world) sq"
    have fs: "fs = [frame seq ((if ?open then DoorOpened else DoorClosed) sid (Some ?p))]"
      and b': "b' = (if ?open then finsert sq b else b |-| {|sq|})"
      using assms(1) False by (auto simp: door_square_def Let_def xy)
    let ?D = "Some (if ?open then fmupd sq True (go_make (sc_open_doors sc)) else fmdrop sq (go_make (sc_open_doors sc)))"
    have "apply_events s fs = Inr (put_scene s sid (with_doors sc ?D))"
      using assms(2) by (simp add: fs apply_payload_def apply_door_opened_def apply_door_closed_def xy with_doors_def)
    moreover have "go_flag ?D k = (if k = sq \<and> subject \<noteq> Some (sid, sq) then ?open else go_flag (sc_open_doors sc) k)" for k
      using False by (cases "sc_open_doors sc") auto
    ultimately show ?thesis using b' by (intro exI[of _ ?D]) auto
  qed
qed

lemma door_squares_apply:
  assumes "door_squares subject seq sid world sqs b = (fs, b')" and "fmlookup (st_scenes s) sid = Some sc"
    and "distinct sqs" and "\<forall>sq \<in> set sqs. (\<exists>x y. sq = grid_key x y) \<and> (sq |\<in>| b \<longleftrightarrow> go_flag (sc_open_doors sc) sq)"
  shows "\<exists>D. apply_events s fs = Inr (put_scene s sid (with_doors sc D)) \<and>
    (\<forall>k. go_flag D k = (if k \<in> set sqs \<and> subject \<noteq> Some (sid, k) then go_flag (sc_open_doors world) k else go_flag (sc_open_doors sc) k))"
  using assms
proof (induction sqs arbitrary: b fs s sc b')
  case Nil
  then show ?case by (intro exI[of _ "sc_open_doors sc"]) (simp add: put_scene_same)
next
  case (Cons sq sqs)
  obtain out b1 where 1: "door_square subject seq sid world sq b = (out, b1)" by fastforce
  obtain rest b2 where 2: "door_squares subject seq sid world sqs b1 = (rest, b2)" by fastforce
  have fs: "fs = out @ rest" "b' = b2" using Cons.prems(1) 1 2 by auto
  obtain D where D: "apply_events s out = Inr (put_scene s sid (with_doors sc D))"
    "\<forall>k. go_flag D k = (if k = sq \<and> subject \<noteq> Some (sid, sq) then go_flag (sc_open_doors world) sq else go_flag (sc_open_doors sc) k)"
    "\<forall>k. k \<noteq> sq \<longrightarrow> (k |\<in>| b1) = (k |\<in>| b)"
    using door_square_applies[OF 1 Cons.prems(2)] Cons.prems(4) by auto
  let ?s = "put_scene s sid (with_doors sc D)"
  have "\<forall>k \<in> set sqs. (\<exists>x y. k = grid_key x y) \<and> (k |\<in>| b1 \<longleftrightarrow> go_flag (sc_open_doors (with_doors sc D)) k)"
  proof
    fix k assume k: "k \<in> set sqs"
    with Cons.prems(3) have "k \<noteq> sq" by auto
    with D(2,3) have "go_flag D k = go_flag (sc_open_doors sc) k" "(k |\<in>| b1) = (k |\<in>| b)" by simp_all
    with Cons.prems(4) k show "(\<exists>x y. k = grid_key x y) \<and> (k |\<in>| b1 \<longleftrightarrow> go_flag (sc_open_doors (with_doors sc D)) k)"
      by simp
  qed
  then obtain E where E: "apply_events ?s rest = Inr (put_scene ?s sid (with_doors (with_doors sc D) E))"
    "\<forall>k. go_flag E k = (if k \<in> set sqs \<and> subject \<noteq> Some (sid, k) then go_flag (sc_open_doors world) k else go_flag D k)"
    using Cons.IH[OF 2, of ?s "with_doors sc D"] Cons.prems(3) fs(2) by auto
  show ?case
    using apply_events_appendI[OF D(1) E(1)] D(2) E(2) by (intro exI[of _ E]) (auto simp: fs)
qed

definition doors_known :: "sight_view \<Rightarrow> projection \<Rightarrow> state \<Rightarrow> string list \<Rightarrow> bool" where
  "doors_known now pr s sids =
     (\<forall>sid \<in> set sids. \<exists>sc. fmlookup (st_scenes s) sid = Some sc \<and>
        (\<forall>sq. sq |\<in>| set_at (sv_squares now) sid \<longrightarrow> (\<exists>x y. sq = grid_key x y) \<and>
           (sq |\<in>| set_at (pj_doors pr) sid \<longleftrightarrow> go_flag (sc_open_doors sc) sq)))"

definition doors_follow :: "(string \<times> string) option \<Rightarrow> sight_view \<Rightarrow> state \<Rightarrow> state \<Rightarrow> state \<Rightarrow> string list \<Rightarrow> bool" where
  "doors_follow subject now st s s' sids =
     (\<forall>sid. case fmlookup (st_scenes s) sid of
        None \<Rightarrow> fmlookup (st_scenes s') sid = None
      | Some sc \<Rightarrow> \<exists>D. fmlookup (st_scenes s') sid = Some (with_doors sc D) \<and>
          (\<forall>k. go_flag D k = (if sid \<in> set sids \<and> k |\<in>| set_at (sv_squares now) sid \<and> subject \<noteq> Some (sid, k)
             then go_flag (sc_open_doors (scene_at st sid)) k else go_flag (sc_open_doors sc) k)))"

lemma door_scenes_apply:
  assumes "door_scenes subject seq now st sids pr = (fs, pr')" and "doors_known now pr s sids"
    and "distinct sids" and "\<forall>sid \<in> set sids. fmlookup (st_scenes st) sid \<noteq> None"
  shows "\<exists>s' d. apply_events s fs = Inr s' \<and> only_scenes s s' \<and> doors_follow subject now st s s' sids \<and>
    pr' = pr\<lparr>pj_doors := d\<rparr>"
  using assms
proof (induction sids arbitrary: pr fs s pr')
  case Nil
  have "doors_follow subject now st s s []"
    unfolding doors_follow_def
  proof
    fix sid
    show "case fmlookup (st_scenes s) sid of None \<Rightarrow> fmlookup (st_scenes s) sid = None
      | Some sc \<Rightarrow> \<exists>D. fmlookup (st_scenes s) sid = Some (with_doors sc D) \<and>
          (\<forall>k. go_flag D k = (if sid \<in> set [] \<and> k |\<in>| set_at (sv_squares now) sid \<and> subject \<noteq> Some (sid, k)
             then go_flag (sc_open_doors (scene_at st sid)) k else go_flag (sc_open_doors sc) k))"
      by (cases "fmlookup (st_scenes s) sid") (auto intro: exI[of _ "sc_open_doors (the (fmlookup (st_scenes s) sid))"])
  qed
  with Nil show ?case by (intro exI[of _ s] exI[of _ "pj_doors pr"]) simp
next
  case (Cons sid sids)
  obtain world where world: "fmlookup (st_scenes st) sid = Some world" using Cons.prems(4) by auto
  let ?lit = "set_at (sv_squares now) sid"
  obtain sc where sc: "fmlookup (st_scenes s) sid = Some sc"
    "\<forall>sq. sq |\<in>| ?lit \<longrightarrow> (\<exists>x y. sq = grid_key x y) \<and> (sq |\<in>| set_at (pj_doors pr) sid \<longleftrightarrow> go_flag (sc_open_doors sc) sq)"
    using Cons.prems(2) by (auto simp: doors_known_def)
  obtain out b where 1: "door_squares subject seq sid world (sorted_set ?lit) (set_at (pj_doors pr) sid) = (out, b)" by fastforce
  let ?pr = "pr\<lparr>pj_doors := fmupd sid b (pj_doors pr)\<rparr>"
  obtain rest pr2 where 2: "door_scenes subject seq now st sids ?pr = (rest, pr2)" by fastforce
  have fs: "fs = out @ rest" "pr' = pr2" using Cons.prems(1) world 1 2 by auto
  obtain D where D: "apply_events s out = Inr (put_scene s sid (with_doors sc D))"
    "\<forall>k. go_flag D k = (if k |\<in>| ?lit \<and> subject \<noteq> Some (sid, k) then go_flag (sc_open_doors world) k else go_flag (sc_open_doors sc) k)"
    using door_squares_apply[OF 1 sc(1)] sc(2) by auto
  let ?s = "put_scene s sid (with_doors sc D)"
  have notin: "sid \<notin> set sids" using Cons.prems(3) by simp
  have known: "doors_known now ?pr ?s sids"
    unfolding doors_known_def
  proof
    fix k assume k: "k \<in> set sids"
    with notin have "k \<noteq> sid" by auto
    with Cons.prems(2) k show "\<exists>sc. fmlookup (st_scenes ?s) k = Some sc \<and>
        (\<forall>sq. sq |\<in>| set_at (sv_squares now) k \<longrightarrow> (\<exists>x y. sq = grid_key x y) \<and>
           (sq |\<in>| set_at (pj_doors ?pr) k \<longleftrightarrow> go_flag (sc_open_doors sc) sq))"
      by (simp add: doors_known_def)
  qed
  obtain s' d where s': "apply_events ?s rest = Inr s'" "only_scenes ?s s'" "doors_follow subject now st ?s s' sids"
    "pr2 = ?pr\<lparr>pj_doors := d\<rparr>"
    using Cons.IH[OF 2 known] Cons.prems(3,4) by auto
  have "doors_follow subject now st s s' (sid # sids)"
    unfolding doors_follow_def
  proof
    fix k
    note F = s'(3)[unfolded doors_follow_def, THEN spec, of k]
    show "case fmlookup (st_scenes s) k of None \<Rightarrow> fmlookup (st_scenes s') k = None
      | Some sc \<Rightarrow> \<exists>D. fmlookup (st_scenes s') k = Some (with_doors sc D) \<and>
          (\<forall>q. go_flag D q = (if k \<in> set (sid # sids) \<and> q |\<in>| set_at (sv_squares now) k \<and> subject \<noteq> Some (k, q)
             then go_flag (sc_open_doors (scene_at st k)) q else go_flag (sc_open_doors sc) q))"
    proof (cases "k = sid")
      case True
      from F True notin obtain E where E: "fmlookup (st_scenes s') sid = Some (with_doors (with_doors sc D) E)"
        "\<forall>q. go_flag E q = go_flag D q" by auto
      with D(2) sc(1) world True show ?thesis by (auto simp: scene_at_def)
    next
      case False
      then have a: "fmlookup (st_scenes ?s) k = fmlookup (st_scenes s) k"
        and b: "(k \<in> set (sid # sids)) = (k \<in> set sids)" by simp_all
      show ?thesis using F unfolding a b .
    qed
  qed
  moreover have "only_scenes s s'" by (rule only_scenes_trans[OF only_scenes_put s'(2)])
  ultimately show ?case
    using apply_events_appendI[OF D(1) s'(1)] s'(4) fs by (intro exI[of _ s'] exI[of _ d]) simp
qed

subsection \<open>Tokens\<close>

definition with_tokens :: "state \<Rightarrow> (string, token) fmap \<Rightarrow> state" where
  "with_tokens s m = s\<lparr>st_tokens := m\<rparr>"

lemma with_tokens_simps [simp]:
  "st_tokens (with_tokens s m) = m" "with_tokens (with_tokens s m) m' = with_tokens s m'"
  "st_scenes (with_tokens s m) = st_scenes s" "st_actors (with_tokens s m) = st_actors s"
  "st_sessions (with_tokens s m) = st_sessions s" "st_conditions (with_tokens s m) = st_conditions s"
  "st_notes (with_tokens s m) = st_notes s" "with_tokens s (st_tokens s) = s"
  "conditions_of (with_tokens s m) k = conditions_of s k"
  by (simp_all add: with_tokens_def conditions_of_def)

lemma hides_apply:
  "apply_events s (map (hide_frame seq) tids) = Inr (with_tokens s (fmdrop_set (set tids) (st_tokens s)))"
proof (induction tids arbitrary: s)
  case Nil
  show ?case by simp
next
  case (Cons tid tids)
  have "apply_event s (hide_frame seq tid) = Inr (with_tokens s (fmdrop tid (st_tokens s)))"
    by (simp add: hide_frame_def apply_payload_def apply_token_hidden_def with_tokens_def)
  moreover have "fmdrop_set (set tids) (fmdrop tid (st_tokens s)) = fmdrop_set (insert tid (set tids)) (st_tokens s)"
    by (rule fmap_ext) auto
  ultimately show ?case by (simp add: Cons.IH)
qed

definition placed_token :: "string \<Rightarrow> token \<Rightarrow> token" where
  "placed_token tid tok = \<lparr>tok_id = tid, tok_scene_id = tok_scene_id tok, tok_actor_id = tok_actor_id tok,
     tok_x = tok_x tok, tok_y = tok_y tok, tok_name = tok_name tok, tok_notes = tok_notes tok,
     tok_gm_name = [], tok_gm_notes = []\<rparr>"

lemma places_apply:
  assumes "\<forall>tid \<in> set tids. \<not> bad_id tid \<and> fmlookup (st_tokens s) tid = None \<and>
      fmlookup (st_scenes s) (tok_scene_id (token_at st tid)) \<noteq> None \<and>
      fmlookup (st_actors s) (tok_actor_id (token_at st tid)) \<noteq> None"
    and "distinct tids"
  shows "\<exists>m. apply_events s (map (\<lambda>tid. place_frame seq tid (token_at st tid)) tids) = Inr (with_tokens s m) \<and>
    (\<forall>k. fmlookup m k = (if k \<in> set tids then Some (placed_token k (token_at st k)) else fmlookup (st_tokens s) k))"
  using assms
proof (induction tids arbitrary: s)
  case Nil
  then show ?case by (intro exI[of _ "st_tokens s"]) simp
next
  case (Cons tid tids)
  let ?s = "with_tokens s (fmupd tid (placed_token tid (token_at st tid)) (st_tokens s))"
  have 1: "apply_event s (place_frame seq tid (token_at st tid)) = Inr ?s"
    using Cons.prems(1)
    by (simp add: place_frame_def apply_payload_def apply_token_placed_def put_token_def with_tokens_def placed_token_def)
  obtain m where "apply_events ?s (map (\<lambda>tid. place_frame seq tid (token_at st tid)) tids) = Inr (with_tokens ?s m)"
    "\<forall>k. fmlookup m k = (if k \<in> set tids then Some (placed_token k (token_at st k)) else fmlookup (st_tokens ?s) k)"
  proof -
    have "\<forall>k \<in> set tids. \<not> bad_id k \<and> fmlookup (st_tokens ?s) k = None \<and>
        fmlookup (st_scenes ?s) (tok_scene_id (token_at st k)) \<noteq> None \<and>
        fmlookup (st_actors ?s) (tok_actor_id (token_at st k)) \<noteq> None"
    proof
      fix k assume k: "k \<in> set tids"
      then have "k \<noteq> tid" using Cons.prems(2) by auto
      with k Cons.prems(1) show "\<not> bad_id k \<and> fmlookup (st_tokens ?s) k = None \<and>
        fmlookup (st_scenes ?s) (tok_scene_id (token_at st k)) \<noteq> None \<and>
        fmlookup (st_actors ?s) (tok_actor_id (token_at st k)) \<noteq> None" by simp
    qed
    from Cons.IH[OF this] Cons.prems(2) that show thesis by auto
  qed
  with 1 show ?case using Cons.prems(2) by (intro exI[of _ m]) auto
qed

subsection \<open>Notes\<close>

lemma notes_apply:
  assumes "\<forall>key \<in> set ks. fmlookup (st_notes s) key \<noteq> None" and "distinct ks"
  shows "apply_events s (map (\<lambda>key. frame seq (NoteDeleted key)) ks) =
    Inr (s\<lparr>st_notes := fmdrop_set (set ks) (st_notes s)\<rparr>)"
  using assms
proof (induction ks arbitrary: s)
  case Nil
  show ?case by simp
next
  case (Cons key ks)
  let ?s = "s\<lparr>st_notes := fmdrop key (st_notes s)\<rparr>"
  have "apply_event s (frame seq (NoteDeleted key)) = Inr ?s"
    using Cons.prems(1) by (simp add: apply_payload_def apply_note_deleted_def)
  moreover have "apply_events ?s (map (\<lambda>key. frame seq (NoteDeleted key)) ks) =
      Inr (?s\<lparr>st_notes := fmdrop_set (set ks) (st_notes ?s)\<rparr>)"
    using Cons.prems by (intro Cons.IH) auto
  moreover have "fmdrop_set (set ks) (fmdrop key (st_notes s)) = fmdrop_set (insert key (set ks)) (st_notes s)"
    by (rule fmap_ext) auto
  ultimately show ?case by simp
qed

subsection \<open>Seen squares\<close>

lemma true_keys_marked: "true_keys (Some (fold (\<lambda>sq m. fmupd sq True m) (sorted_set S) fmempty)) = S"
proof -
  have "fmlookup (fold (\<lambda>sq m. fmupd sq True m) sqs m) k = (if k \<in> set sqs then Some True else fmlookup m k)"
    for sqs :: "string list" and m k
    by (induction sqs arbitrary: m) auto
  then show ?thesis by (auto simp: true_keys_def go_flag_def fmlookup_dom_iff split: if_splits)
qed

lemma apply_scene_seen_shape:
  assumes "fmlookup (st_scenes s) (ssn_scene_id ss) = Some sc"
  shows "\<exists>T E B. apply_scene_seen s ss = Inr (put_scene s (ssn_scene_id ss)
    (sc\<lparr>sc_tiles := T, sc_explored := E, sc_visible := Some (fold (\<lambda>sq m. fmupd sq True m) (ssn_visible ss) fmempty),
        sc_objects := B\<rparr>))"
  unfolding apply_scene_seen_def assms option.case Let_def by (intro exI, rule refl)

lemma scene_seen_applies:
  assumes "fmlookup (st_scenes s) sid = Some sc" and "sc_id world = sid"
  shows "\<exists>sc'. apply_event s (frame seq (SceneSeen (scene_seen_for world lit))) = Inr (put_scene s sid sc') \<and>
    true_keys (sc_visible sc') = lit \<and> sc_open_doors sc' = sc_open_doors sc"
proof -
  have id: "ssn_scene_id (scene_seen_for world lit) = sid" and vis: "ssn_visible (scene_seen_for world lit) = sorted_set lit"
    using assms(2) by (simp_all add: scene_seen_for_def)
  from apply_scene_seen_shape[of s "scene_seen_for world lit" sc] assms(1) obtain T E B where
    "apply_scene_seen s (scene_seen_for world lit) = Inr (put_scene s sid
       (sc\<lparr>sc_tiles := T, sc_explored := E, sc_visible := Some (fold (\<lambda>sq m. fmupd sq True m) (sorted_set lit) fmempty), sc_objects := B\<rparr>))"
    unfolding id vis by blast
  then show ?thesis
    using true_keys_marked[of lit] by (intro exI conjI) (simp add: apply_payload_def, simp_all)
qed

definition lit_of :: "state \<Rightarrow> string \<Rightarrow> string fset" where
  "lit_of s sid = (case fmlookup (st_scenes s) sid of None \<Rightarrow> {||} | Some sc \<Rightarrow> true_keys (sc_visible sc))"

definition same_doors :: "state \<Rightarrow> state \<Rightarrow> bool" where
  "same_doors s s' =
     (\<forall>sid. map_option sc_open_doors (fmlookup (st_scenes s') sid) = map_option sc_open_doors (fmlookup (st_scenes s) sid))"

lemma seen_scenes_apply:
  assumes "seen_scenes seq now st sids pr = (fs, pr')" and "distinct sids"
    and "\<forall>sid \<in> set sids. sc_id (scene_at st sid) = sid \<and> fmlookup (st_scenes s) sid \<noteq> None \<and>
           set_at (pj_seen pr) sid = lit_of s sid"
  shows "\<exists>s' d. apply_events s fs = Inr s' \<and> only_scenes s s' \<and> same_doors s s' \<and>
    (\<forall>sid. lit_of s' sid = (if sid \<in> set sids then set_at (sv_squares now) sid else lit_of s sid)) \<and>
    pr' = pr\<lparr>pj_seen := d\<rparr>"
  using assms
proof (induction sids arbitrary: pr fs s pr')
  case Nil
  then show ?case by (intro exI[of _ s] exI[of _ "pj_seen pr"]) (simp add: same_doors_def)
next
  case (Cons sid sids)
  obtain out pr1 where 1: "seen_scene seq now st sid pr = (out, pr1)" by fastforce
  obtain rest pr2 where 2: "seen_scenes seq now st sids pr1 = (rest, pr2)" by fastforce
  have fs: "fs = out @ rest" "pr' = pr2" using Cons.prems(1) 1 2 by auto
  let ?lit = "set_at (sv_squares now) sid"
  obtain sc where sc: "fmlookup (st_scenes s) sid = Some sc" using Cons.prems(3) by auto
  obtain s1 where s1: "apply_events s out = Inr s1" "only_scenes s s1" "same_doors s s1" "lit_of s1 sid = ?lit"
    "\<forall>k. k \<noteq> sid \<longrightarrow> fmlookup (st_scenes s1) k = fmlookup (st_scenes s) k"
    and pr1: "\<exists>d. pr1 = pr\<lparr>pj_seen := d\<rparr> \<and> (\<forall>k. k \<noteq> sid \<longrightarrow> set_at d k = set_at (pj_seen pr) k)"
  proof (cases "set_at (pj_seen pr) sid = ?lit")
    case True
    then have "out = []" "pr1 = pr" using 1 by (auto simp: seen_scene_def)
    moreover have "lit_of s sid = ?lit" using True Cons.prems(3) by simp
    moreover have "\<exists>d. pr = pr\<lparr>pj_seen := d\<rparr> \<and> (\<forall>k. k \<noteq> sid \<longrightarrow> set_at d k = set_at (pj_seen pr) k)"
      by (rule exI[of _ "pj_seen pr"]) simp
    moreover have "same_doors s s" by (simp add: same_doors_def)
    ultimately show ?thesis by (intro that[of s]) simp_all
  next
    case False
    then have out: "out = [frame seq (SceneSeen (scene_seen_for (scene_at st sid) ?lit))]"
      and p: "pr1 = pr\<lparr>pj_seen := (if fmlookup (sv_squares now) sid = None then fmdrop sid (pj_seen pr) else fmupd sid ?lit (pj_seen pr))\<rparr>"
      using 1 by (simp_all add: seen_scene_def Let_def)
    obtain sc' where sc': "apply_event s (frame seq (SceneSeen (scene_seen_for (scene_at st sid) ?lit))) = Inr (put_scene s sid sc')"
      "true_keys (sc_visible sc') = ?lit" "sc_open_doors sc' = sc_open_doors sc"
    proof -
      have "sc_id (scene_at st sid) = sid" using Cons.prems(3) by simp
      from scene_seen_applies[OF sc this, of seq ?lit] that show thesis by blast
    qed
    have "apply_events s out = Inr (put_scene s sid sc')" using sc'(1) by (simp add: out)
    moreover have "same_doors s (put_scene s sid sc')" using sc sc'(3) by (simp add: same_doors_def)
    moreover have "lit_of (put_scene s sid sc') sid = ?lit" using sc'(2) by (simp add: lit_of_def)
    moreover have "\<exists>d. pr1 = pr\<lparr>pj_seen := d\<rparr> \<and> (\<forall>k. k \<noteq> sid \<longrightarrow> set_at d k = set_at (pj_seen pr) k)"
      unfolding p by (intro exI conjI, rule refl) simp
    ultimately show ?thesis by (intro that[of "put_scene s sid sc'"]) simp_all
  qed
  from pr1 obtain d where d: "pr1 = pr\<lparr>pj_seen := d\<rparr>" "\<forall>k. k \<noteq> sid \<longrightarrow> set_at d k = set_at (pj_seen pr) k" by blast
  have notin: "sid \<notin> set sids" "distinct sids" using Cons.prems(2) by simp_all
  have "\<forall>k \<in> set sids. sc_id (scene_at st k) = k \<and> fmlookup (st_scenes s1) k \<noteq> None \<and> set_at (pj_seen pr1) k = lit_of s1 k"
  proof
    fix k assume k: "k \<in> set sids"
    then have "k \<noteq> sid" using notin by auto
    with s1(5) d Cons.prems(3) k show "sc_id (scene_at st k) = k \<and> fmlookup (st_scenes s1) k \<noteq> None \<and> set_at (pj_seen pr1) k = lit_of s1 k"
      by (simp add: lit_of_def)
  qed
  from Cons.IH[OF 2 notin(2) this] obtain s' e where s': "apply_events s1 rest = Inr s'" "only_scenes s1 s'" "same_doors s1 s'"
    "\<forall>k. lit_of s' k = (if k \<in> set sids then set_at (sv_squares now) k else lit_of s1 k)" "pr2 = pr1\<lparr>pj_seen := e\<rparr>"
    by blast
  have "lit_of s' k = (if k \<in> set (sid # sids) then set_at (sv_squares now) k else lit_of s k)" for k
    using s'(4) s1(4,5) notin by (auto simp: lit_of_def)
  moreover have "same_doors s s'" using s1(3) s'(3) by (simp add: same_doors_def)
  ultimately show ?case
    using apply_events_appendI[OF s1(1) s'(1)] only_scenes_trans[OF s1(2) s'(2)] s'(5) d(1) fs
    by (intro exI[of _ s'] exI[of _ e]) simp
qed

end
