(* ===== verification/Perceive_Actors.thy ===== *)
theory Perceive_Actors
  imports Perceive_Fold
begin

text \<open>
  The actor frames of \<open>transitions\<close>, run through the viewer's fold: an introduction, a withdrawal, a
  correction, one turn of the loop and the whole loop. \<open>tracks\<close> says that the projection's fields
  describe the fold; every turn keeps it for the actors still to come.
\<close>

subsection \<open>Introductions\<close>

lemma control_ok_shown [simp]:
  "control_ok (shown_with a whole) = control_ok a" "control_ok (shown_as a) = control_ok a"
  "control_ok (unseen_as a) = control_ok a"
  by (simp_all add: shown_with_def shown_as_def unseen_as_def control_ok_def)

lemma shown_fields [simp]:
  "actor_id (shown_as a) = actor_id a" "actor_id (unseen_as a) = actor_id a"
  "actor_kind_of (shown_as a) = actor_kind_of a" "actor_kind_of (unseen_as a) = actor_kind_of a"
  "actor_controller_ids (shown_as a) = actor_controller_ids a" "actor_controller_ids (unseen_as a) = actor_controller_ids a"
  by (simp_all add: shown_as_def unseen_as_def shown_with_def)

lemma bounded_shown [simp]: "bounded_actor a \<Longrightarrow> bounded_actor (shown_as a)" "bounded_actor a \<Longrightarrow> bounded_actor (unseen_as a)"
  by (simp_all add: bounded_actor_def shown_as_def unseen_as_def shown_with_def zero_actor_def)

definition uncontrolled :: "actor \<Rightarrow> actor" where
  "uncontrolled h = h\<lparr>actor_controller_id := [], actor_controller_ids := []\<rparr>"

lemma controlled_uncontrolled:
  assumes "control_ok h"
  shows "controlled (uncontrolled h) (actor_controller_ids h) (actor_kind_of h) = h"
    and "controlled (uncontrolled h) [] (actor_kind_of h) = uncontrolled h"
  using assms by (cases h; simp add: controlled_def mirror_control_alt control_ok_def uncontrolled_def)+

lemma actor_added_applies:
  assumes "\<not> bad_id (actor_id h)" and "bounded_actor h" and "fmlookup (st_actors s) (actor_id h) = None"
  shows "apply_event s (frame seq (ActorAdded (Some (uncontrolled h)))) = Inr (put_actor s (actor_id h) (uncontrolled h))"
  using assms
  by (simp add: apply_payload_def apply_actor_added_def uncontrolled_def bad_id_def bounded_actor_def)

lemma no_conditions: "wf_state s \<Longrightarrow> fmlookup (st_actors s) aid = None \<Longrightarrow> conditions_of s aid = []"
  by (auto simp: conditions_of_def wf_conditions_def fmlookup_dom'_iff split: option.splits dest: wf_stateD(4))

lemma introduction_applies:
  assumes "wf_state s" and st: "wf_state st" "bounded_state st" and a: "fmlookup (st_actors st) aid = Some a"
    and new: "fmlookup (st_actors s) aid = None"
  shows "\<exists>s'. apply_events s (introduction aid seq a seen (conditions_of st aid)) = Inr s' \<and> only_actor aid s s' \<and>
    fmlookup (st_actors s') aid = Some (if seen then shown_as a else unseen_as a) \<and>
    ac_id ` set (conditions_of s' aid) = (if seen then ac_id ` set (conditions_of st aid) else {})"
proof -
  define h where "h = (if seen then shown_as a else unseen_as a)"
  have wa: "actor_id a = aid" "\<not> bad_id aid" "control_ok a" using wf_stateD(2)[OF st(1) a] by (simp_all add: wf_actor_def)
  have h: "actor_id h = aid" "control_ok h" "bounded_actor h" "actor_kind_of h = actor_kind_of a"
    using wa boundedD(2)[OF st(2) a] by (simp_all add: h_def)
  have ctrl: "distinct (actor_controller_ids h)" "\<forall>c \<in> set (actor_controller_ids h). \<not> bad_id c"
    using h(2) by (simp_all add: control_ok_def)
  let ?s1 = "put_actor s aid (uncontrolled h)" and ?s2 = "put_actor s aid h"
  have 1: "apply_event s (frame seq (ActorAdded (Some (uncontrolled h)))) = Inr ?s1"
    using actor_added_applies[of h s seq] wa(2) new h by simp
  have 2: "apply_events ?s1 (map (\<lambda>c. grant_frame seq aid c (actor_kind_of a)) (actor_controller_ids h)) = Inr ?s2"
    using grants_apply[of ?s1 aid "uncontrolled h" "[]" "actor_kind_of h" "actor_controller_ids h" seq "actor_kind_of a"]
      ctrl controlled_uncontrolled[OF h(2)] h(4)
    by (cases "actor_controller_ids h = []") (simp_all add: granted_kind_def)
  have none: "conditions_of ?s2 aid = []" using no_conditions[OF assms(1) new] by simp
  have held: "fmlookup (st_actors ?s2) aid = Some h" by simp
  have cs: "distinct (map ac_id (conditions_of st aid))" "\<forall>c \<in> set (map ac_id (conditions_of st aid)). \<not> bad_id c"
    using conditions_of_wf[OF st(1), of aid] by auto
  define ids where "ids = (if seen then map ac_id (conditions_of st aid) else [])"
  have ids: "distinct ids" "\<forall>c \<in> set ids. \<not> bad_id c" "set ids \<inter> ac_id ` set (conditions_of ?s2 aid) = {}"
    using cs none by (auto simp: ids_def)
  obtain s3 where 3: "apply_events ?s2 (map (condition_frame ConditionApplied seq aid) ids) = Inr s3"
    "only_actor aid ?s2 s3" "st_actors s3 = st_actors ?s2" "map ac_id (conditions_of s3 aid) = ids"
    using conditions_applied_apply[OF held ids(1,3,2), of seq] none by auto
  have fs: "introduction aid seq a seen (conditions_of st aid) =
      frame seq (ActorAdded (Some (uncontrolled h))) #
      map (\<lambda>c. grant_frame seq aid c (actor_kind_of a)) (actor_controller_ids h) @
      map (condition_frame ConditionApplied seq aid) ids"
    by (simp add: introduction_def Let_def h_def uncontrolled_def ids_def)
  have "apply_events s (introduction aid seq a seen (conditions_of st aid)) = Inr s3"
    unfolding fs using 1 apply_events_appendI[OF 2 3(1)] by simp
  moreover have "ac_id ` set (conditions_of s3 aid) = set ids" using arg_cong[OF 3(4), of set] by simp
  moreover have "only_actor aid s s3" by (rule only_actor_trans[OF only_actor_put 3(2)])
  ultimately show ?thesis using 3(3) by (intro exI[of _ s3]) (auto simp: h_def ids_def)
qed

subsection \<open>Withdrawals\<close>

definition tracks :: "projection \<Rightarrow> state \<Rightarrow> bool" where
  "tracks pr s =
     (wf_state s \<and> pj_tokens pr = fmdom (st_tokens s) \<and>
      (\<forall>tid t. fmlookup (st_tokens s) tid = Some t \<longrightarrow> fmlookup (pj_token_actor pr) tid = Some (tok_actor_id t)))"

text \<open>What a turn for one actor leaves alone: it may also take tokens off the board.\<close>

definition around_actor :: "string \<Rightarrow> state \<Rightarrow> state \<Rightarrow> bool" where
  "around_actor aid s s' =
     (st_scenes s' = st_scenes s \<and> st_notes s' = st_notes s \<and> st_sessions s' = st_sessions s \<and>
      (\<forall>k. k \<noteq> aid \<longrightarrow> fmlookup (st_actors s') k = fmlookup (st_actors s) k \<and> conditions_of s' k = conditions_of s k) \<and>
      (\<forall>tid. fmlookup (st_tokens s') tid = None \<or> fmlookup (st_tokens s') tid = fmlookup (st_tokens s) tid))"

lemma around_actor_refl [simp]: "around_actor aid s s"
  by (simp add: around_actor_def)

lemma around_actor_trans: "around_actor aid s s1 \<Longrightarrow> around_actor aid s1 s2 \<Longrightarrow> around_actor aid s s2"
  by (simp add: around_actor_def) metis

lemma only_around: "only_actor aid s s' \<Longrightarrow> around_actor aid s s'"
  by (simp add: only_actor_def around_actor_def)

lemma actor_removed_applies:
  assumes "fmlookup (st_actors s) aid \<noteq> None" and "tokens_of s aid = {}" and "wf_state s"
  shows "\<exists>s'. apply_event s (frame seq (ActorRemoved aid)) = Inr s' \<and> fmlookup (st_actors s') aid = None \<and>
    around_actor aid s s' \<and> st_tokens s' = st_tokens s"
  using assms standing_token_least(1)[OF wf_no_empty_token[OF assms(3)], of aid]
  by (auto simp: apply_payload_def apply_actor_removed_def around_actor_def conditions_of_def)

lemma retire_applies:
  assumes "retire aid seq pr = (fs, pr')" and "tracks pr s" and "fmlookup (st_actors s) aid \<noteq> None"
  shows "\<exists>s'. apply_events s fs = Inr s' \<and> around_actor aid s s' \<and> fmlookup (st_actors s') aid = None \<and> tracks pr' s' \<and>
    pj_actors pr' = pj_actors pr |-| {|aid|} \<and> pj_belief pr' = fmdrop aid (pj_belief pr) \<and>
    pj_gone pr' = pj_gone pr |-| {|aid|} \<and> pj_reshaped pr' = pj_reshaped pr \<and> pj_sighted pr' = pj_sighted pr"
proof -
  let ?ts = "tokens_held_of pr aid"
  define m where "m = fmdrop_set (set (sorted_set ?ts)) (st_tokens s)"
  define s1 where "s1 = with_tokens s m"
  have wf: "wf_state s" and toks: "pj_tokens pr = fmdom (st_tokens s)"
    and owner: "\<And>tid t. fmlookup (st_tokens s) tid = Some t \<Longrightarrow> fmlookup (pj_token_actor pr) tid = Some (tok_actor_id t)"
    using assms(2) by (auto simp: tracks_def)
  have fs: "fs = map (hide_frame seq) (sorted_set ?ts) @ [frame seq (ActorRemoved aid)]"
    and pr': "pr' = pr\<lparr>pj_tokens := pj_tokens pr |-| ?ts, pj_actors := pj_actors pr |-| {|aid|},
         pj_belief := fmdrop aid (pj_belief pr), pj_gone := pj_gone pr |-| {|aid|}\<rparr>"
    using assms(1) by (simp_all add: retire_eq)
  have 1: "apply_events s (map (hide_frame seq) (sorted_set ?ts)) = Inr s1"
    using hides_apply[of s seq "sorted_set ?ts"] by (simp add: s1_def m_def)
  have mem: "tid |\<in>| ?ts \<longleftrightarrow> (\<exists>t. fmlookup (st_tokens s) tid = Some t \<and> tok_actor_id t = aid)" for tid
    using owner by (auto simp: tokens_held_of_def toks fmlookup_dom_iff)
  have look: "fmlookup m tid = (if tid |\<in>| ?ts then None else fmlookup (st_tokens s) tid)" for tid
    by (simp add: m_def)
  have wf1: "wf_state s1" by (rule apply_events_wf[OF wf 1])
  have none: "tokens_of s1 aid = {}" by (auto simp: tokens_of_iff s1_def look mem split: if_splits)
  have here: "fmlookup (st_actors s1) aid \<noteq> None" using assms(3) by (simp add: s1_def)
  obtain s2 where 2: "apply_event s1 (frame seq (ActorRemoved aid)) = Inr s2" "fmlookup (st_actors s2) aid = None"
    "around_actor aid s1 s2" "st_tokens s2 = st_tokens s1"
    using actor_removed_applies[OF here none wf1] by blast
  have run: "apply_events s fs = Inr s2" unfolding fs by (rule apply_events_appendI[OF 1]) (simp add: 2(1) del: apply_event_frame)
  have "around_actor aid s s1" by (simp add: around_actor_def s1_def look)
  then have "around_actor aid s s2" using 2(3) by (rule around_actor_trans)
  moreover have "tracks pr' s2"
  proof -
    have "pj_tokens pr |-| ?ts = fmdom m"
      by (rule fset_eqI) (auto simp: toks fmlookup_dom_iff look)
    moreover have "fmlookup m tid = Some t \<Longrightarrow> fmlookup (pj_token_actor pr) tid = Some (tok_actor_id t)" for tid t
      using owner by (simp add: look split: if_splits)
    ultimately show ?thesis using apply_events_wf[OF wf run] 2(4) by (simp add: tracks_def pr' s1_def)
  qed
  ultimately show ?thesis using run 2(2) by (intro exI[of _ s2]) (simp add: pr')
qed

subsection \<open>One turn\<close>

text \<open>The fields that describe the viewer's copy of one actor.\<close>

definition knows :: "state \<Rightarrow> projection \<Rightarrow> state \<Rightarrow> string \<Rightarrow> bool" where
  "knows st pr s aid =
     ((aid |\<in>| pj_actors pr \<longleftrightarrow> fmlookup (st_actors s) aid \<noteq> None) \<and>
      (aid |\<in>| pj_gone pr \<longleftrightarrow> (\<exists>h. fmlookup (st_actors s) aid = Some h \<and> held_gone st aid h)) \<and>
      (aid |\<in>| pj_reshaped pr \<longleftrightarrow> (\<exists>h. fmlookup (st_actors s) aid = Some h \<and> held_reshaped st aid h)) \<and>
      fmlookup (pj_belief pr) aid = map_option (\<lambda>h. belief_of h (conditions_of s aid)) (fmlookup (st_actors s) aid))"

text \<open>A held actor that is to be corrected has resources and a kind a correction can reach.\<close>

definition correctable :: "actor \<Rightarrow> actor \<Rightarrow> bool" where
  "correctable h a =
     ((\<forall>n r t. fmlookup (actor_resources h) n = Some r \<and> fmlookup (actor_resources a) n = Some t \<longrightarrow>
         res_current t = res_current r \<or> in_range t) \<and>
      (actor_kind_of a \<noteq> KIND_UNSPECIFIED \<or> actor_kind_of a = actor_kind_of h))"

definition displays :: "state \<Rightarrow> state \<Rightarrow> string \<Rightarrow> bool" where
  "displays st s aid =
     (\<exists>h. fmlookup (st_actors s) aid = Some h \<and> reads_as h (shown_as (actor_at st aid)) \<and>
        ac_id ` set (conditions_of s aid) = ac_id ` set (conditions_of st aid))"

lemma reads_as_refl [simp]: "reads_as h h"
  by (simp add: reads_as_def)

lemma only_actor_tracks:
  "tracks pr s \<Longrightarrow> only_actor aid s s' \<Longrightarrow> wf_state s' \<Longrightarrow> pj_tokens pr' = pj_tokens pr \<Longrightarrow>
     pj_token_actor pr' = pj_token_actor pr \<Longrightarrow> tracks pr' s'"
  by (simp add: tracks_def only_actor_def)

lemma introduce_step:
  assumes "introduce aid seq a seen st pr = (fs, pr')" and "tracks pr s" and st: "wf_state st" "bounded_state st"
    and a: "fmlookup (st_actors st) aid = Some a" and new: "fmlookup (st_actors s) aid = None"
  shows "\<exists>s'. apply_events s fs = Inr s' \<and> around_actor aid s s' \<and> tracks pr' s' \<and>
    fmlookup (st_actors s') aid \<noteq> None \<and> (seen \<longrightarrow> displays st s' aid) \<and>
    pr' = pr\<lparr>pj_actors := finsert aid (pj_actors pr)\<rparr>"
proof -
  have fs: "fs = introduction aid seq a seen (conditions_of st aid)"
    and pr': "pr' = pr\<lparr>pj_actors := finsert aid (pj_actors pr)\<rparr>"
    using assms(1) by (simp_all add: introduce_def)
  have wf: "wf_state s" using assms(2) by (simp add: tracks_def)
  obtain s' where s': "apply_events s fs = Inr s'" "only_actor aid s s'"
    "fmlookup (st_actors s') aid = Some (if seen then shown_as a else unseen_as a)"
    "ac_id ` set (conditions_of s' aid) = (if seen then ac_id ` set (conditions_of st aid) else {})"
    using introduction_applies[OF wf st a new, of seq seen] unfolding fs by blast
  have "tracks pr' s'"
    by (rule only_actor_tracks[OF assms(2) s'(2) apply_events_wf[OF wf s'(1)]]) (simp_all add: pr')
  moreover have "seen \<longrightarrow> displays st s' aid" using s'(3,4) a by (simp add: displays_def actor_at_def)
  ultimately show ?thesis using s'(1,3) only_around[OF s'(2)] pr' by (intro exI[of _ s']) simp
qed

definition fields_around :: "string \<Rightarrow> projection \<Rightarrow> projection \<Rightarrow> bool" where
  "fields_around aid pr pr' =
     (pj_sighted pr' = pj_sighted pr \<and>
      (\<forall>k. k \<noteq> aid \<longrightarrow> (k |\<in>| pj_actors pr') = (k |\<in>| pj_actors pr) \<and> (k |\<in>| pj_gone pr') = (k |\<in>| pj_gone pr) \<and>
         (k |\<in>| pj_reshaped pr') = (k |\<in>| pj_reshaped pr) \<and> fmlookup (pj_belief pr') k = fmlookup (pj_belief pr) k))"

lemma fields_around_refl [simp]: "fields_around aid pr pr"
  by (simp add: fields_around_def)

lemma fields_around_trans: "fields_around aid p q \<Longrightarrow> fields_around aid q r \<Longrightarrow> fields_around aid p r"
  by (simp add: fields_around_def)

lemma knows_other:
  "knows st pr s k \<Longrightarrow> k \<noteq> aid \<Longrightarrow> fields_around aid pr pr' \<Longrightarrow> around_actor aid s s' \<Longrightarrow> knows st pr' s' k"
  by (simp add: knows_def fields_around_def around_actor_def)

lemma retire_introduce:
  assumes "retire aid seq pr = (out, pr1)" and "introduce aid seq a seen st pr1 = (ins, pr2)"
    and "tracks pr s" and held: "fmlookup (st_actors s) aid \<noteq> None"
    and st: "wf_state st" "bounded_state st" and a: "fmlookup (st_actors st) aid = Some a"
  shows "\<exists>s'. apply_events s (out @ ins) = Inr s' \<and> around_actor aid s s' \<and> tracks pr2 s' \<and> fields_around aid pr pr2 \<and>
    fmlookup (st_actors s') aid \<noteq> None \<and> (seen \<longrightarrow> displays st s' aid)"
proof -
  obtain s1 where 1: "apply_events s out = Inr s1" "around_actor aid s s1" "fmlookup (st_actors s1) aid = None" "tracks pr1 s1"
    and f1: "fields_around aid pr pr1"
    using retire_applies[OF assms(1,3) held] by (auto simp: fields_around_def)
  obtain s2 where 2: "apply_events s1 ins = Inr s2" "around_actor aid s1 s2" "tracks pr2 s2" "fmlookup (st_actors s2) aid \<noteq> None"
    "seen \<longrightarrow> displays st s2 aid" and p2: "pr2 = pr1\<lparr>pj_actors := finsert aid (pj_actors pr1)\<rparr>"
    using introduce_step[OF assms(2) 1(4) st a 1(3)] by blast
  have "fields_around aid pr1 pr2" by (simp add: fields_around_def p2)
  with f1 have "fields_around aid pr pr2" by (rule fields_around_trans)
  with apply_events_appendI[OF 1(1) 2(1)] around_actor_trans[OF 1(2) 2(2)] 2(3,4,5) show ?thesis by blast
qed

lemma correct_step:
  assumes run: "correct aid seq a st pr = (fs, pr')" and tr: "tracks pr s"
    and st: "wf_state st" "bounded_state st" and a: "fmlookup (st_actors st) aid = Some a"
    and h: "fmlookup (st_actors s) aid = Some h" and b: "belief_at pr aid = belief_of h (conditions_of s aid)"
    and same: "same_incarnation h (shown_as a)" and cor: "correctable h (shown_as a)"
  shows "\<exists>s'. apply_events s fs = Inr s' \<and> around_actor aid s s' \<and> tracks pr' s' \<and> fields_around aid pr pr' \<and>
    fmlookup (st_actors s') aid \<noteq> None \<and> displays st s' aid"
proof (cases "status_frames aid seq (belief_at pr aid) (shown_as a) (conditions_of st aid)")
  case None
  obtain o1 p1 where r: "retire aid seq pr = (o1, p1)" by fastforce
  obtain i2 p2 where i: "introduce aid seq a True st p1 = (i2, p2)" by fastforce
  have "fs = o1 @ i2" "pr' = p2" using run None r i by (auto simp: correct_def)
  with retire_introduce[OF r i tr _ st a] h show ?thesis by auto
next
  case (Some gs)
  then have fs: "fs = gs" "pr' = pr" using run by (auto simp: correct_def)
  have wf: "wf_state s" using tr by (simp add: tracks_def)
  have ok: "control_ok h" "control_ok (shown_as a)" "distinct (map ac_id (conditions_of s aid))"
    "distinct (map ac_id (conditions_of st aid))" "\<forall>c \<in> set (conditions_of st aid). \<not> bad_id (ac_id c)"
    using wf_stateD(2)[OF wf h] wf_stateD(2)[OF st(1) a] conditions_of_wf[OF wf, of aid] conditions_of_wf[OF st(1), of aid]
    by (simp_all add: wf_actor_def)
  have range: "fmlookup (actor_resources h) n = Some r \<Longrightarrow> fmlookup (actor_resources (shown_as a)) n = Some t \<Longrightarrow>
      res_current t = res_current r \<or> in_range t" for n r t
    using cor unfolding correctable_def by blast
  have kind: "actor_kind_of (shown_as a) \<noteq> KIND_UNSPECIFIED \<or> actor_kind_of (shown_as a) = actor_kind_of h"
    using cor unfolding correctable_def by blast+
  obtain s' h' where s': "apply_events s gs = Inr s'" "only_actor aid s s'" "fmlookup (st_actors s') aid = Some h'"
    "reads_as h' (shown_as a)" "ac_id ` set (conditions_of s' aid) = ac_id ` set (conditions_of st aid)"
    using correction_applies[OF Some[unfolded b] h same ok _ kind] range by blast
  have "tracks pr s'" by (rule only_actor_tracks[OF tr s'(2) apply_events_wf[OF wf s'(1)]]) simp_all
  with s' a only_around[OF s'(2)] show ?thesis by (intro exI[of _ s']) (simp add: fs displays_def actor_at_def)
qed

lemma actor_transition_applies:
  assumes run: "actor_transition seq now st aid pr = (fs, pr')" and tr: "tracks pr s" and kn: "knows st pr s aid"
    and st: "wf_state st" "bounded_state st" and a: "fmlookup (st_actors st) aid = Some a"
    and cor: "\<And>h. fmlookup (st_actors s) aid = Some h \<Longrightarrow> correctable h (shown_as a)"
  shows "\<exists>s'. apply_events s fs = Inr s' \<and> around_actor aid s s' \<and> tracks pr' s' \<and> fields_around aid pr pr' \<and>
    fmlookup (st_actors s') aid \<noteq> None \<and>
    (aid |\<in>| sv_sees now \<and> aid |\<notin>| pj_sighted pr \<longrightarrow> displays st s' aid)"
proof -
  let ?sees = "aid |\<in>| sv_sees now"
  have wf: "wf_state s" using tr by (simp add: tracks_def)
  consider (retire) h where "aid |\<in>| pj_gone pr \<or> aid |\<in>| pj_reshaped pr \<and> ?sees" "fmlookup (st_actors s) aid = Some h"
    | (new) "\<not> (aid |\<in>| pj_gone pr \<or> aid |\<in>| pj_reshaped pr \<and> ?sees)" "fmlookup (st_actors s) aid = None"
    | (correct) h where "\<not> (aid |\<in>| pj_gone pr \<or> aid |\<in>| pj_reshaped pr \<and> ?sees)" "fmlookup (st_actors s) aid = Some h"
        "?sees" "aid |\<notin>| pj_sighted pr"
    | (keep) h where "\<not> (aid |\<in>| pj_gone pr \<or> aid |\<in>| pj_reshaped pr \<and> ?sees)" "fmlookup (st_actors s) aid = Some h"
        "\<not> (?sees \<and> aid |\<notin>| pj_sighted pr)"
    using kn by (auto simp: knows_def)
  then show ?thesis
  proof cases
    case retire
    obtain out pr1 where r: "retire aid seq pr = (out, pr1)" by fastforce
    have "aid |\<notin>| pj_actors pr1" using r by (auto simp: retire_eq)
    moreover obtain ins pr2 where i: "introduce aid seq a ?sees st pr1 = (ins, pr2)" by fastforce
    ultimately have "fs = out @ ins" "pr' = pr2"
      using run a retire(1) r by (auto simp: actor_transition_def Let_def split: if_splits)
    with retire_introduce[OF r i tr _ st a] retire(2) show ?thesis by auto
  next
    case new
    have "aid |\<notin>| pj_actors pr" using kn new(2) by (simp add: knows_def)
    then have "introduce aid seq a ?sees st pr = (fs, pr')"
      using run a new(1) by (auto simp: actor_transition_def Let_def split: if_splits prod.splits)
    from introduce_step[OF this tr st a new(2)] show ?thesis by (auto simp: fields_around_def)
  next
    case correct
    have held: "aid |\<in>| pj_actors pr" and bel: "belief_at pr aid = belief_of h (conditions_of s aid)"
      and same: "same_incarnation h (shown_as a)"
      using kn correct a by (auto simp: knows_def belief_at_def held_reshaped_def)
    have "correct aid seq a st pr = (fs, pr')"
      using run a correct held by (auto simp: actor_transition_def Let_def split: if_splits prod.splits)
    from correct_step[OF this tr st a correct(2) bel same cor[OF correct(2)]] show ?thesis by blast
  next
    case keep
    have "aid |\<in>| pj_actors pr" using kn keep(2) by (simp add: knows_def)
    then have "fs = []" "pr' = pr"
      using run a keep by (auto simp: actor_transition_def Let_def split: if_splits prod.splits)
    with keep tr show ?thesis by (intro exI[of _ s]) auto
  qed
qed

end
