(* ===== verification/Perceive_Board.thy ===== *)
theory Perceive_Board
  imports Perceive_Actors
begin

text \<open>
  All of \<open>transitions\<close> through the viewer's fold: the frames of a perch fold, and leave a board that
  shows what the viewer's eyes see.
\<close>

subsection \<open>The loop over actors\<close>

definition around_actors :: "string set \<Rightarrow> state \<Rightarrow> state \<Rightarrow> bool" where
  "around_actors A s s' =
     (st_scenes s' = st_scenes s \<and> st_notes s' = st_notes s \<and> st_sessions s' = st_sessions s \<and>
      (\<forall>k. k \<notin> A \<longrightarrow> fmlookup (st_actors s') k = fmlookup (st_actors s) k \<and> conditions_of s' k = conditions_of s k) \<and>
      (\<forall>tid. fmlookup (st_tokens s') tid = None \<or> fmlookup (st_tokens s') tid = fmlookup (st_tokens s) tid))"

lemma around_actors_step: "around_actor aid s s1 \<Longrightarrow> around_actors A s1 s2 \<Longrightarrow> around_actors (insert aid A) s s2"
  unfolding around_actor_def around_actors_def by (elim conjE, intro conjI) (simp_all, metis)

lemma displays_other: "displays st s aid \<Longrightarrow> around_actors A s s' \<Longrightarrow> aid \<notin> A \<Longrightarrow> displays st s' aid"
  by (simp add: displays_def around_actors_def)

lemma actor_transitions_apply:
  assumes "actor_transitions seq now st aids pr = (fs, pr')" and "tracks pr s" and "distinct aids"
    and st: "wf_state st" "bounded_state st"
    and "\<forall>aid \<in> set aids. fmlookup (st_actors st) aid \<noteq> None \<longrightarrow> knows st pr s aid"
    and "\<forall>aid \<in> set aids. \<forall>h a. fmlookup (st_actors s) aid = Some h \<and> fmlookup (st_actors st) aid = Some a \<longrightarrow> correctable h (shown_as a)"
  shows "\<exists>s'. apply_events s fs = Inr s' \<and> around_actors (set aids) s s' \<and> tracks pr' s' \<and>
    (\<forall>aid \<in> set aids. fmlookup (st_actors st) aid \<noteq> None \<longrightarrow> fmlookup (st_actors s') aid \<noteq> None \<and>
       (aid |\<in>| sv_sees now \<and> aid |\<notin>| pj_sighted pr \<longrightarrow> displays st s' aid))"
  using assms(1,2,3,6,7)
proof (induction aids arbitrary: pr fs s pr')
  case Nil
  then show ?case by (intro exI[of _ s]) (simp add: around_actors_def)
next
  case (Cons aid aids)
  obtain out pr1 where 1: "actor_transition seq now st aid pr = (out, pr1)" by fastforce
  obtain rest pr2 where 2: "actor_transitions seq now st aids pr1 = (rest, pr2)" by fastforce
  have fs: "fs = out @ rest" "pr' = pr2" using Cons.prems(1) 1 2 by auto
  obtain s1 where s1: "apply_events s out = Inr s1" "around_actor aid s s1" "tracks pr1 s1" "fields_around aid pr pr1"
    "fmlookup (st_actors st) aid \<noteq> None \<longrightarrow> fmlookup (st_actors s1) aid \<noteq> None \<and>
       (aid |\<in>| sv_sees now \<and> aid |\<notin>| pj_sighted pr \<longrightarrow> displays st s1 aid)"
  proof (cases "fmlookup (st_actors st) aid")
    case None
    then have "out = []" "pr1 = pr" using 1 by (simp_all add: actor_transition_def)
    with None Cons.prems(2) show ?thesis by (intro that[of s]) simp_all
  next
    case (Some a)
    have kn: "knows st pr s aid" using Cons.prems(4) Some by simp
    have cor: "correctable h (shown_as a)" if "fmlookup (st_actors s) aid = Some h" for h
      using Cons.prems(5) Some that by simp
    obtain s' where "apply_events s out = Inr s'" "around_actor aid s s'" "tracks pr1 s'" "fields_around aid pr pr1"
      "fmlookup (st_actors s') aid \<noteq> None" "aid |\<in>| sv_sees now \<and> aid |\<notin>| pj_sighted pr \<longrightarrow> displays st s' aid"
      using actor_transition_applies[OF 1 Cons.prems(2) kn st Some cor] by blast
    then show ?thesis by (intro that[of s']) simp_all
  qed
  have sighted: "pj_sighted pr1 = pj_sighted pr" using s1(4) by (simp add: fields_around_def)
  have notin: "aid \<notin> set aids" "distinct aids" using Cons.prems(3) by simp_all
  have kn: "\<forall>k \<in> set aids. fmlookup (st_actors st) k \<noteq> None \<longrightarrow> knows st pr1 s1 k"
    using Cons.prems(4) notin(1) knows_other[OF _ _ s1(4,2)] by (metis list.set_intros(2))
  have cor: "\<forall>k \<in> set aids. \<forall>h a. fmlookup (st_actors s1) k = Some h \<and> fmlookup (st_actors st) k = Some a \<longrightarrow> correctable h (shown_as a)"
  proof
    fix k assume k: "k \<in> set aids"
    with notin have "k \<noteq> aid" by auto
    then have "fmlookup (st_actors s1) k = fmlookup (st_actors s) k" using s1(2) by (simp add: around_actor_def)
    with Cons.prems(5) k show "\<forall>h a. fmlookup (st_actors s1) k = Some h \<and> fmlookup (st_actors st) k = Some a \<longrightarrow> correctable h (shown_as a)"
      by simp
  qed
  obtain s2 where s2: "apply_events s1 rest = Inr s2" "around_actors (set aids) s1 s2" "tracks pr2 s2"
    "\<forall>k \<in> set aids. fmlookup (st_actors st) k \<noteq> None \<longrightarrow> fmlookup (st_actors s2) k \<noteq> None \<and>
       (k |\<in>| sv_sees now \<and> k |\<notin>| pj_sighted pr1 \<longrightarrow> displays st s2 k)"
    using Cons.IH[OF 2 s1(3) notin(2) kn cor] by blast
  have here: "fmlookup (st_actors s2) aid = fmlookup (st_actors s1) aid"
    using s2(2) notin(1) by (simp add: around_actors_def)
  have "\<forall>k \<in> set (aid # aids). fmlookup (st_actors st) k \<noteq> None \<longrightarrow> fmlookup (st_actors s2) k \<noteq> None \<and>
       (k |\<in>| sv_sees now \<and> k |\<notin>| pj_sighted pr \<longrightarrow> displays st s2 k)"
  proof (intro ballI)
    fix k assume "k \<in> set (aid # aids)"
    then show "fmlookup (st_actors st) k \<noteq> None \<longrightarrow> fmlookup (st_actors s2) k \<noteq> None \<and>
       (k |\<in>| sv_sees now \<and> k |\<notin>| pj_sighted pr \<longrightarrow> displays st s2 k)"
      using s1(5) s2(4) here displays_other[OF _ s2(2) notin(1)] sighted by (cases "k = aid") auto
  qed
  then show ?case
    using apply_events_appendI[OF s1(1) s2(1)] around_actors_step[OF s1(2) s2(2)] s2(3) fs
    by (intro exI[of _ s2]) simp
qed

subsection \<open>The board after a perch\<close>

lemma set_at_lit_scenes: "set_at (lit_scenes shown) sid = lit_of shown sid"
  by (auto simp: set_at_def lit_scenes_def lit_of_def scene_at_def split: option.splits)

lemma recall_knows: "knows st (recall pr shown st) shown aid"
  by (auto simp: knows_def recall_def fmlookup_dom_iff actor_at_def split: option.splits)

lemma forget_knows: "knows st pr s aid \<Longrightarrow> fmlookup (st_actors st) aid \<noteq> None \<Longrightarrow> knows st (forget_removed st pr) s aid"
  by (auto simp: knows_def forget_removed_def Let_def)

lemma recall_tracks: "wf_state shown \<Longrightarrow> tracks (recall pr shown st) shown"
  by (simp add: tracks_def recall_def)

definition open_doors_of :: "state \<Rightarrow> string \<Rightarrow> string \<Rightarrow> bool" where
  "open_doors_of s sid sq = (case fmlookup (st_scenes s) sid of None \<Rightarrow> False | Some sc \<Rightarrow> go_flag (sc_open_doors sc) sq)"

text \<open>What the viewer's board must show of the world \<open>st\<close> for the sight \<open>now\<close>.\<close>

definition board_shows :: "(string \<times> string) option \<Rightarrow> string fset \<Rightarrow> sight_view \<Rightarrow> state \<Rightarrow> state \<Rightarrow> bool" where
  "board_shows subject sighted now st board =
     (fmdom (st_tokens board) = sv_tokens now \<and>
      (\<forall>sid. lit_of board sid = set_at (sv_squares now) sid) \<and>
      (\<forall>sid sq. sq |\<in>| set_at (sv_squares now) sid \<and> subject \<noteq> Some (sid, sq) \<longrightarrow>
         open_doors_of board sid sq = open_doors_of st sid sq) \<and>
      (\<forall>aid. aid |\<in>| sv_actors now \<and> fmlookup (st_actors st) aid \<noteq> None \<longrightarrow> fmlookup (st_actors board) aid \<noteq> None) \<and>
      (\<forall>aid. aid |\<in>| sv_sees now \<and> aid |\<notin>| sighted \<and> fmlookup (st_actors st) aid \<noteq> None \<longrightarrow> displays st board aid) \<and>
      (\<forall>key. fmlookup (st_notes board) key \<noteq> None \<longrightarrow> note_public st key))"

lemma look_tokens:
  assumes "tid |\<in>| sv_tokens (look e st)"
  shows "\<exists>tok. fmlookup (st_tokens st) tid = Some tok \<and> tok_actor_id tok |\<in>| sv_actors (look e st) \<and>
    fmlookup (sv_squares (look e st)) (tok_scene_id tok) \<noteq> None"
proof -
  let ?now = "look e st"
  have lit: "tid |\<in>| fmdom (st_tokens st)" "token_lit (sv_squares ?now) (token_at st tid)"
    using assms by (simp_all add: look_def Let_def)
  obtain tok where tok: "fmlookup (st_tokens st) tid = Some tok" using lit(1) by (auto simp: fmlookup_dom_iff)
  have "tok_actor_id (token_at st tid) |\<in>| (\<lambda>t. tok_actor_id (token_at st t)) |`| sv_tokens ?now"
    using assms by (rule fimageI)
  then have "tok_actor_id tok |\<in>| sv_actors ?now" using tok by (simp add: look_def Let_def token_at_def)
  moreover have "fmlookup (sv_squares ?now) (tok_scene_id tok) \<noteq> None"
    using lit(2) tok by (auto simp: token_lit_def token_at_def set_at_def split: option.splits)
  ultimately show ?thesis using tok by blast
qed

lemma look_sees_actors: "aid |\<in>| sv_sees (look e st) \<Longrightarrow> aid |\<in>| sv_actors (look e st)"
  by (auto simp: look_def Let_def)

lemma scenes_stage:
  assumes "introduce_scenes seq st (keys (sv_squares (look e st))) pr = (scenes, p1)"
    and "door_transitions cause seq (look e st) st p1 = (doors, p2)"
    and "pj_scenes pr = fmdom (st_scenes shown)" and "pj_doors pr = fmmap (\<lambda>sc. true_keys (sc_open_doors sc)) (st_scenes shown)"
    and st: "wf_state st" "bounded_state st"
  shows "\<exists>s2 a b. apply_events shown (scenes @ doors) = Inr s2 \<and> only_scenes shown s2 \<and>
    p2 = pr\<lparr>pj_scenes := a, pj_doors := b\<rparr> \<and> (\<forall>sid. lit_of s2 sid = lit_of shown sid) \<and>
    (\<forall>sid. fmlookup (st_scenes shown) sid \<noteq> None \<or> fmlookup (sv_squares (look e st)) sid \<noteq> None \<longrightarrow> fmlookup (st_scenes s2) sid \<noteq> None) \<and>
    (\<forall>sid sq. sq |\<in>| set_at (sv_squares (look e st)) sid \<and> door_subject cause \<noteq> Some (sid, sq) \<longrightarrow>
       open_doors_of s2 sid sq = open_doors_of st sid sq)"
proof -
  let ?now = "look e st" and ?sids = "keys (sv_squares (look e st))"
  have known: "fmlookup (sv_squares ?now) sid \<noteq> None \<Longrightarrow> fmlookup (st_scenes st) sid \<noteq> None" for sid
    using look_squares_ok[of st e] by (auto simp: lit_ok_def)
  then have all: "\<forall>sid \<in> set ?sids. fmlookup (st_scenes st) sid \<noteq> None" by (auto simp: fmlookup_dom'_iff)
  obtain s1 where s1: "apply_events shown scenes = Inr s1" "only_scenes shown s1"
    "\<forall>sid. fmlookup (st_scenes s1) sid = (case fmlookup (st_scenes shown) sid of Some sc \<Rightarrow> Some sc
        | None \<Rightarrow> if sid \<in> set ?sids then Some (outline (scene_at st sid)) else None)"
    "p1 = pr\<lparr>pj_scenes := fmdom (st_scenes s1)\<rparr>"
    using introduce_scenes_apply[OF assms(1,3) st all] by blast
  have "doors_known ?now p1 s1 ?sids"
    unfolding doors_known_def
  proof
    fix sid assume sid: "sid \<in> set ?sids"
    have "grid_keys (set_at (sv_squares ?now) sid)"
      using look_squares_ok[of st e] by (auto simp: lit_ok_def set_at_def grid_keys_def split: option.splits)
    moreover have "set_at (pj_doors p1) sid = (case fmlookup (st_scenes shown) sid of None \<Rightarrow> {||} | Some sc \<Rightarrow> true_keys (sc_open_doors sc))"
      by (simp add: s1(4) assms(4) set_at_def split: option.splits)
    ultimately show "\<exists>sc. fmlookup (st_scenes s1) sid = Some sc \<and> (\<forall>sq. sq |\<in>| set_at (sv_squares ?now) sid \<longrightarrow>
        (\<exists>x y. sq = grid_key x y) \<and> (sq |\<in>| set_at (pj_doors p1) sid \<longleftrightarrow> go_flag (sc_open_doors sc) sq))"
      using s1(3) sid
      by (cases "fmlookup (st_scenes shown) sid")
        (auto simp: grid_keys_def outline_def true_keys_def go_flag_def fmlookup_dom_iff)
  qed
  from door_scenes_apply[OF assms(2)[unfolded door_transitions_def] this distinct_keys all]
  obtain s2 d where s2: "apply_events s1 doors = Inr s2" "only_scenes s1 s2"
    "doors_follow (door_subject cause) ?now st s1 s2 ?sids" "p2 = p1\<lparr>pj_doors := d\<rparr>"
    by blast
  have shape: "\<exists>D. fmlookup (st_scenes s2) sid = Some (with_doors sc D) \<and>
      (\<forall>k. go_flag D k = (if sid \<in> set ?sids \<and> k |\<in>| set_at (sv_squares ?now) sid \<and> door_subject cause \<noteq> Some (sid, k)
         then go_flag (sc_open_doors (scene_at st sid)) k else go_flag (sc_open_doors sc) k))"
    if "fmlookup (st_scenes s1) sid = Some sc" for sid sc
    using s2(3)[unfolded doors_follow_def, THEN spec, of sid] that by (simp only: option.case)
  have gone: "fmlookup (st_scenes s1) sid = None \<Longrightarrow> fmlookup (st_scenes s2) sid = None" for sid
    using s2(3)[unfolded doors_follow_def, THEN spec, of sid] by (simp only: option.case)
  have lit: "lit_of s2 sid = lit_of shown sid" for sid
  proof -
    have "lit_of s2 sid = lit_of s1 sid"
      using shape[of sid] gone[of sid] by (cases "fmlookup (st_scenes s1) sid") (auto simp: lit_of_def)
    also have "\<dots> = lit_of shown sid"
      using s1(3) by (auto simp: lit_of_def outline_def true_keys_def split: option.splits)
    finally show ?thesis .
  qed
  have kept: "fmlookup (st_scenes s2) sid \<noteq> None"
    if "fmlookup (st_scenes shown) sid \<noteq> None \<or> fmlookup (sv_squares ?now) sid \<noteq> None" for sid
  proof -
    have "fmlookup (st_scenes s1) sid \<noteq> None" using that s1(3) by (auto simp: fmlookup_dom'_iff split: option.splits)
    with shape[of sid] show ?thesis by auto
  qed
  have doors: "open_doors_of s2 sid sq = open_doors_of st sid sq"
    if "sq |\<in>| set_at (sv_squares ?now) sid" "door_subject cause \<noteq> Some (sid, sq)" for sid sq
  proof -
    have sq: "fmlookup (sv_squares ?now) sid \<noteq> None" using that(1) by (auto simp: set_at_def split: option.splits)
    then have "fmlookup (st_scenes s1) sid \<noteq> None" using s1(3) by (auto simp: fmlookup_dom'_iff split: option.splits)
    then obtain sc where sc: "fmlookup (st_scenes s1) sid = Some sc" by blast
    obtain w where w: "fmlookup (st_scenes st) sid = Some w" using known[OF sq] by auto
    have "sid \<in> set ?sids" using sq by (auto simp: fmlookup_dom'_iff)
    with shape[OF sc] that w show ?thesis by (auto simp: open_doors_of_def scene_at_def)
  qed
  have "only_scenes shown s2" by (rule only_scenes_trans[OF s1(2) s2(2)])
  with apply_events_appendI[OF s1(1) s2(1)] lit kept doors s1(4) s2(4) show ?thesis by (intro exI[of _ s2] exI conjI) auto
qed

lemma tokens_stage:
  assumes "hide_unseen seq (look e st) p3 = (hides, p4)" and "place_seen seq (look e st) st p4 = (places, p5)"
    and st: "wf_state st" and toks3: "pj_tokens p3 = fmdom (st_tokens s3)"
    and scenes: "\<forall>sid. fmlookup (sv_squares (look e st)) sid \<noteq> None \<longrightarrow> fmlookup (st_scenes s3) sid \<noteq> None"
    and actors: "\<forall>aid. aid |\<in>| sv_actors (look e st) \<and> fmlookup (st_actors st) aid \<noteq> None \<longrightarrow> fmlookup (st_actors s3) aid \<noteq> None"
  shows "\<exists>m t. apply_events s3 (hides @ places) = Inr (with_tokens s3 m) \<and> fmdom m = sv_tokens (look e st) \<and>
    p5 = p3\<lparr>pj_tokens := t\<rparr>"
proof -
  let ?now = "look e st"
  define gone where "gone = filter (\<lambda>tid. tid |\<notin>| sv_tokens ?now) (sorted_set (pj_tokens p3))"
  define s4 where "s4 = with_tokens s3 (fmdrop_set (set gone) (st_tokens s3))"
  have 4: "apply_events s3 hides = Inr s4" "p4 = p3\<lparr>pj_tokens := ffilter (\<lambda>tid. tid |\<in>| sv_tokens ?now) (pj_tokens p3)\<rparr>"
    using assms(1) hides_apply[of s3 seq gone] by (auto simp: hide_unseen_def gone_def s4_def)
  have dom4: "fmlookup (st_tokens s4) tid = (if tid |\<in>| sv_tokens ?now then fmlookup (st_tokens s3) tid else None)" for tid
    by (auto simp: s4_def gone_def toks3 fmlookup_dom_iff)
  define new where "new = filter (\<lambda>tid. tid |\<notin>| pj_tokens p4) (sorted_set (sv_tokens ?now))"
  have new: "\<forall>tid \<in> set new. \<not> bad_id tid \<and> fmlookup (st_tokens s4) tid = None \<and>
      fmlookup (st_scenes s4) (tok_scene_id (token_at st tid)) \<noteq> None \<and>
      fmlookup (st_actors s4) (tok_actor_id (token_at st tid)) \<noteq> None"
  proof
    fix tid assume "tid \<in> set new"
    then have tid: "tid |\<in>| sv_tokens ?now" "tid |\<notin>| pj_tokens p4" by (simp_all add: new_def)
    obtain tok where tok: "fmlookup (st_tokens st) tid = Some tok" "tok_actor_id tok |\<in>| sv_actors ?now"
      "fmlookup (sv_squares ?now) (tok_scene_id tok) \<noteq> None"
      using look_tokens[OF tid(1)] by blast
    have w: "\<not> bad_id tid" "fmlookup (st_actors st) (tok_actor_id tok) \<noteq> None"
      using wf_stateD(3)[OF st tok(1)] by (auto simp: wf_token_def fmlookup_dom'_iff)
    have "fmlookup (st_tokens s3) tid = None" using tid by (auto simp: 4(2) toks3 fmlookup_dom_iff)
    moreover have "fmlookup (st_scenes s3) (tok_scene_id tok) \<noteq> None" using scenes tok(3) by simp
    moreover have "fmlookup (st_actors s3) (tok_actor_id tok) \<noteq> None" using actors tok(2) w(2) by simp
    ultimately show "\<not> bad_id tid \<and> fmlookup (st_tokens s4) tid = None \<and>
      fmlookup (st_scenes s4) (tok_scene_id (token_at st tid)) \<noteq> None \<and>
      fmlookup (st_actors s4) (tok_actor_id (token_at st tid)) \<noteq> None"
      using w(1) tok(1) by (simp add: token_at_def dom4) (simp add: s4_def)
  qed
  obtain m where m: "apply_events s4 (map (\<lambda>tid. place_frame seq tid (token_at st tid)) new) = Inr (with_tokens s4 m)"
    "\<forall>k. fmlookup m k = (if k \<in> set new then Some (placed_token k (token_at st k)) else fmlookup (st_tokens s4) k)"
    using places_apply[OF new, of seq] by (auto simp: new_def)
  have 5: "apply_events s4 places = Inr (with_tokens s3 m)" "p5 = p4\<lparr>pj_tokens := pj_tokens p4 |\<union>| sv_tokens ?now\<rparr>"
    using assms(2) m(1) by (auto simp: place_seen_def new_def s4_def)
  have dom5: "fmlookup m k \<noteq> None \<longleftrightarrow> k |\<in>| sv_tokens ?now" for k
    using m(2) dom4 by (auto simp: new_def 4(2) toks3 fmlookup_dom_iff)
  then have "fmdom m = sv_tokens ?now" by (auto simp: fmlookup_dom_iff)
  with apply_events_appendI[OF 4(1) 5(1)] show ?thesis
    by (intro exI[of _ m] exI[of _ "pj_tokens p4 |\<union>| sv_tokens ?now"]) (simp add: 5(2) 4(2))
qed

lemma lit_stage:
  assumes "seen_scenes seq (look e st) st (sorted_set (fmdom (pj_seen p5) |\<union>| fmdom (sv_squares (look e st)))) p5 = (lit, p6)"
    and st: "wf_state st" and sub: "fmdom (st_scenes shown) |\<subseteq>| fmdom (st_scenes st)"
    and seen: "pj_seen p5 = lit_scenes shown" and lit: "\<forall>sid. lit_of s5 sid = lit_of shown sid"
    and scenes: "\<forall>sid. fmlookup (st_scenes shown) sid \<noteq> None \<or> fmlookup (sv_squares (look e st)) sid \<noteq> None \<longrightarrow>
      fmlookup (st_scenes s5) sid \<noteq> None"
  shows "\<exists>s6 d. apply_events s5 lit = Inr s6 \<and> only_scenes s5 s6 \<and> same_doors s5 s6 \<and>
    (\<forall>sid. lit_of s6 sid = set_at (sv_squares (look e st)) sid) \<and> p6 = p5\<lparr>pj_seen := d\<rparr>"
proof -
  let ?sids = "sorted_set (fmdom (pj_seen p5) |\<union>| fmdom (sv_squares (look e st)))"
  have old: "fmlookup (st_scenes shown) sid \<noteq> None" if "sid |\<in>| fmdom (lit_scenes shown)" for sid
    using that by (auto simp: lit_scenes_def fmlookup_dom_iff split: if_splits)
  have ready: "sc_id (scene_at st sid) = sid \<and> fmlookup (st_scenes s5) sid \<noteq> None \<and> set_at (pj_seen p5) sid = lit_of s5 sid"
    if "sid \<in> set ?sids" for sid
  proof -
    have in_either: "fmlookup (st_scenes shown) sid \<noteq> None \<or> fmlookup (sv_squares (look e st)) sid \<noteq> None"
      using that old[of sid] seen by (auto simp: fmlookup_dom_iff)
    then have "fmlookup (st_scenes st) sid \<noteq> None"
      using look_squares_ok[of st e] fsubsetD[OF sub, of sid] by (auto simp: lit_ok_def fmlookup_dom_iff)
    then have "sc_id (scene_at st sid) = sid" using wf_stateD(1)[OF st, of sid] by (auto simp: scene_at_def wf_scene_def)
    moreover have "fmlookup (st_scenes s5) sid \<noteq> None" by (rule scenes[rule_format, OF in_either])
    ultimately show ?thesis using lit by (simp add: seen set_at_lit_scenes)
  qed
  obtain s6 d where s6: "apply_events s5 lit = Inr s6" "only_scenes s5 s6" "same_doors s5 s6"
    "\<forall>sid. lit_of s6 sid = (if sid \<in> set ?sids then set_at (sv_squares (look e st)) sid else lit_of s5 sid)"
    "p6 = p5\<lparr>pj_seen := d\<rparr>"
    using seen_scenes_apply[OF assms(1) distinct_sorted_set] ready by blast
  have "lit_of s6 sid = set_at (sv_squares (look e st)) sid" for sid
  proof (cases "sid \<in> set ?sids")
    case True
    then show ?thesis using s6(4) by simp
  next
    case False
    then have "fmlookup (lit_scenes shown) sid = None" "fmlookup (sv_squares (look e st)) sid = None"
      by (simp_all add: seen fmlookup_dom_iff)
    then have "lit_of shown sid = {||}" "set_at (sv_squares (look e st)) sid = {||}"
      by (simp_all add: set_at_lit_scenes[symmetric]) (simp_all add: set_at_def)
    with False show ?thesis using s6(4) lit by simp
  qed
  with s6 show ?thesis by blast
qed

lemma notes_stage:
  assumes "note_transitions seq st p = (nts, pr')" and "pj_notes p = fmdom (st_notes s)"
  shows "\<exists>N. apply_events s nts = Inr (s\<lparr>st_notes := N\<rparr>) \<and> (\<forall>key. fmlookup N key \<noteq> None \<longrightarrow> note_public st key)"
proof -
  let ?ks = "filter (\<lambda>key. \<not> note_public st key) (sorted_set (pj_notes p))"
  have "\<forall>key \<in> set ?ks. fmlookup (st_notes s) key \<noteq> None" by (auto simp: assms(2) fmlookup_dom_iff)
  from notes_apply[OF this, of seq]
  have "apply_events s nts = Inr (s\<lparr>st_notes := fmdrop_set (set ?ks) (st_notes s)\<rparr>)"
    using assms(1) by (auto simp: note_transitions_def)
  moreover have "fmlookup (fmdrop_set (set ?ks) (st_notes s)) key \<noteq> None \<longrightarrow> note_public st key" for key
    by (auto simp: assms(2) fmlookup_dom_iff)
  ultimately show ?thesis by blast
qed

lemma actor_transitions_notes:
  "actor_transitions seq now st aids pr = (fs, pr') \<Longrightarrow> pj_notes pr' = pj_notes pr"
proof (induction aids arbitrary: pr fs pr')
  case (Cons aid aids)
  have "pj_notes (snd (actor_transition seq now st aid pr)) = pj_notes pr"
    by (auto simp: actor_transition_def Let_def retire_eq introduce_def correct_def split: option.splits prod.splits)
  with Cons show ?case by (fastforce split: prod.splits)
qed simp

lemma open_doors_of_same: "same_doors s s' \<Longrightarrow> open_doors_of s' sid sq = open_doors_of s sid sq"
  by (auto simp: same_doors_def open_doors_of_def dest!: spec[of _ sid] split: option.splits)

lemma transitions_show:
  assumes run: "transitions cause seq (look e st) st (recall pr shown st) = (fs, pr')"
    and st: "wf_state st" "bounded_state st" and "wf_state shown"
    and sub: "fmdom (st_scenes shown) |\<subseteq>| fmdom (st_scenes st)"
    and cor: "\<forall>aid h a. fmlookup (st_actors shown) aid = Some h \<and> fmlookup (st_actors st) aid = Some a \<longrightarrow>
        correctable h (shown_as a)"
  shows "\<exists>board. apply_events shown fs = Inr board \<and>
    board_shows (door_subject cause) (pj_sighted pr) (look e st) st board"
proof -
  let ?now = "look e st" and ?pr = "forget_removed st (recall pr shown st)"
  obtain scenes p1 doors p2 actors p3 hides p4 places p5 lit p6 nts where
    1: "introduce_scenes seq st (keys (sv_squares ?now)) ?pr = (scenes, p1)"
    and 2: "door_transitions cause seq ?now st p1 = (doors, p2)"
    and 3: "actor_transitions seq ?now st (sorted_set (sv_actors ?now)) p2 = (actors, p3)"
    and 4: "hide_unseen seq ?now p3 = (hides, p4)"
    and 5: "place_seen seq ?now st p4 = (places, p5)"
    and 6: "seen_scenes seq ?now st (sorted_set (fmdom (pj_seen p5) |\<union>| fmdom (sv_squares ?now))) p5 = (lit, p6)"
    and 7: "note_transitions seq st (p6\<lparr>pj_sighted := sv_sees ?now\<rparr>) = (nts, pr')"
    and fs: "fs = scenes @ doors @ actors @ hides @ places @ lit @ nts"
    by (rule transitions_stages[OF run])
  have doors0: "pj_doors ?pr = fmmap (\<lambda>sc. true_keys (sc_open_doors sc)) (st_scenes shown)"
    by (simp add: recall_def forget_removed_def Let_def)
  obtain s2 a b where s2: "apply_events shown (scenes @ doors) = Inr s2" "only_scenes shown s2"
    "p2 = ?pr\<lparr>pj_scenes := a, pj_doors := b\<rparr>" "\<forall>sid. lit_of s2 sid = lit_of shown sid"
    "\<forall>sid. fmlookup (st_scenes shown) sid \<noteq> None \<or> fmlookup (sv_squares ?now) sid \<noteq> None \<longrightarrow> fmlookup (st_scenes s2) sid \<noteq> None"
    "\<forall>sid sq. sq |\<in>| set_at (sv_squares ?now) sid \<and> door_subject cause \<noteq> Some (sid, sq) \<longrightarrow>
       open_doors_of s2 sid sq = open_doors_of st sid sq"
    using scenes_stage[OF 1 2 _ doors0 st] by auto
  have wf2: "wf_state s2" by (rule apply_events_wf[OF assms(4) s2(1)])
  have same2: "st_actors s2 = st_actors shown" "st_tokens s2 = st_tokens shown" "conditions_of s2 k = conditions_of shown k" for k
    using s2(2) by (simp_all add: only_scenes_def conditions_of_def)
  have tr2: "tracks p2 s2"
    using recall_tracks[OF assms(4), of pr st] wf2 same2 by (simp add: tracks_def s2(3)) (simp add: forget_removed_def Let_def)
  have kn2: "\<forall>aid \<in> set (sorted_set (sv_actors ?now)). fmlookup (st_actors st) aid \<noteq> None \<longrightarrow> knows st p2 s2 aid"
    using forget_knows[OF recall_knows, of st _ pr shown] same2 by (simp add: knows_def s2(3))
  have cor2: "\<forall>aid \<in> set (sorted_set (sv_actors ?now)). \<forall>h a. fmlookup (st_actors s2) aid = Some h \<and>
      fmlookup (st_actors st) aid = Some a \<longrightarrow> correctable h (shown_as a)"
    using cor by (simp add: same2)
  obtain s3 where s3: "apply_events s2 actors = Inr s3" "around_actors (set (sorted_set (sv_actors ?now))) s2 s3" "tracks p3 s3"
    "\<forall>aid \<in> set (sorted_set (sv_actors ?now)). fmlookup (st_actors st) aid \<noteq> None \<longrightarrow> fmlookup (st_actors s3) aid \<noteq> None \<and>
       (aid |\<in>| sv_sees ?now \<and> aid |\<notin>| pj_sighted p2 \<longrightarrow> displays st s3 aid)"
    using actor_transitions_apply[OF 3 tr2 distinct_sorted_set st kn2 cor2] by blast
  have toks3: "pj_tokens p3 = fmdom (st_tokens s3)" and wf3: "wf_state s3" using s3(3) by (simp_all add: tracks_def)
  have scenes3: "\<forall>sid. fmlookup (st_scenes shown) sid \<noteq> None \<or> fmlookup (sv_squares ?now) sid \<noteq> None \<longrightarrow> fmlookup (st_scenes s3) sid \<noteq> None"
    using s2(5) s3(2) by (simp add: around_actors_def)
  obtain m t where s5: "apply_events s3 (hides @ places) = Inr (with_tokens s3 m)" "fmdom m = sv_tokens ?now"
    "p5 = p3\<lparr>pj_tokens := t\<rparr>"
    using tokens_stage[OF 4 5 st(1) toks3] scenes3 s3(4) by auto
  have p3: "pj_seen p3 = lit_scenes shown" "pj_notes p3 = fmdom (st_notes shown)"
    using actor_transitions_seen[OF 3] actor_transitions_notes[OF 3] by (simp_all add: s2(3) recall_def forget_removed_def Let_def)
  obtain s6 d where s6: "apply_events (with_tokens s3 m) lit = Inr s6" "only_scenes (with_tokens s3 m) s6"
    "same_doors (with_tokens s3 m) s6" "\<forall>sid. lit_of s6 sid = set_at (sv_squares ?now) sid" "p6 = p5\<lparr>pj_seen := d\<rparr>"
    using lit_stage[OF 6 st(1) sub, of "with_tokens s3 m"] scenes3 s2(4) s3(2) p3(1) s5(3)
    by (auto simp: around_actors_def lit_of_def)
  have "pj_notes (p6\<lparr>pj_sighted := sv_sees ?now\<rparr>) = fmdom (st_notes s6)"
    using s6(2,5) s5(3) p3(2) s3(2) s2(2) by (simp add: only_scenes_def around_actors_def)
  then obtain N where N: "apply_events s6 nts = Inr (s6\<lparr>st_notes := N\<rparr>)"
    "\<forall>key. fmlookup N key \<noteq> None \<longrightarrow> note_public st key"
    using notes_stage[OF 7] by blast
  let ?board = "s6\<lparr>st_notes := N\<rparr>"
  have fold: "apply_events shown fs = Inr ?board"
    using apply_events_appendI[OF s2(1) apply_events_appendI[OF s3(1) apply_events_appendI[OF s5(1)
      apply_events_appendI[OF s6(1) N(1)]]]] by (simp add: fs)
  have same: "st_actors ?board = st_actors s3" "st_tokens ?board = m" "conditions_of ?board k = conditions_of s3 k" for k
    using s6(2) by (simp_all add: only_scenes_def conditions_of_def)
  have doors: "open_doors_of ?board sid sq = open_doors_of st sid sq"
    if "sq |\<in>| set_at (sv_squares ?now) sid" "door_subject cause \<noteq> Some (sid, sq)" for sid sq
    using that s2(6) open_doors_of_same[OF s6(3), of sid sq] s3(2) by (simp add: open_doors_of_def around_actors_def)
  have "board_shows (door_subject cause) (pj_sighted pr) ?now st ?board"
    unfolding board_shows_def
  proof (intro conjI allI impI)
    show "fmdom (st_tokens ?board) = sv_tokens ?now" by (simp only: same(2) s5(2))
    show "lit_of ?board sid = set_at (sv_squares ?now) sid" for sid using s6(4) by (simp add: lit_of_def)
    show "aid |\<in>| sv_actors ?now \<and> fmlookup (st_actors st) aid \<noteq> None \<Longrightarrow> fmlookup (st_actors ?board) aid \<noteq> None" for aid
      using s3(4) by (simp add: same(1))
    show "aid |\<in>| sv_sees ?now \<and> aid |\<notin>| pj_sighted pr \<and> fmlookup (st_actors st) aid \<noteq> None \<Longrightarrow> displays st ?board aid" for aid
      using s3(4) look_sees_actors[of aid e st]
      by (simp add: displays_def same s2(3))
  qed (use doors N(2) in simp_all)
  with fold show ?thesis by blast
qed

subsection \<open>Perch\<close>



end
