(* ===== verification/Store.thy ===== *)
theory Store
  imports Fold
begin

text \<open>
  The append-only event log of \<open>internal/store/store.go\<close>: the two tables of its schema, \<open>AppendBatch\<close>
  with its one transaction, and the reads. Envelopes are shared by pointer there, so an append works on
  a heap: a pointer is a natural number, and an entry may point at an envelope of the batch. What is not
  the store's own code is a parameter: the protobuf codec (\<open>wire_codec\<close>), and which statements the
  database fails (\<open>db_op \<Rightarrow> bool\<close>). A table holds its rows in insertion order; the constraints of
  the schema refuse a row, and a failed transaction leaves both tables as they were.
\<close>

subsection \<open>The time column\<close>

definition civil_of_days :: "int \<Rightarrow> int \<times> int \<times> int" where
  "civil_of_days days =
     (let z = days + 719468;
          era = z div 146097;
          doe = z mod 146097;
          yoe = (doe - doe div 1460 + doe div 36524 - doe div 146096) div 365;
          doy = doe - (365 * yoe + yoe div 4 - yoe div 100);
          mp = (5 * doy + 2) div 153;
          d = doy - (153 * mp + 2) div 5 + 1;
          m = (if mp < 10 then mp + 3 else mp - 9)
      in (yoe + era * 400 + (if m \<le> 2 then 1 else 0), m, d))"

definition padded :: "nat \<Rightarrow> int \<Rightarrow> string" where
  "padded w i =
     (let ds = show_nat (nat \<bar>i\<bar>) in
      (if i < 0 then ''-'' else []) @ replicate (w - length ds) (CHR ''0'') @ ds)"

definition occurred_at :: "envelope \<Rightarrow> string" where
  "occurred_at env =
     (case env_occurred_at env of
        None \<Rightarrow> []
      | Some (s, n) \<Rightarrow>
          let t = s + n div 1000000000;
              sec = t mod 86400;
              (y, m, d) = civil_of_days (t div 86400)
          in padded 4 y @ ''-'' @ padded 2 m @ ''-'' @ padded 2 d @ ''T'' @
             padded 2 (sec div 3600) @ '':'' @ padded 2 (sec div 60 mod 60) @ '':'' @ padded 2 (sec mod 60) @ ''Z'')"

subsection \<open>Tables\<close>

record 'b event_row =
  er_seq :: int
  er_event_id :: string
  er_session_id :: string
  er_occurred_at :: string
  er_payload :: 'b

record 'b character_row =
  cr_actor_id :: string
  cr_seq :: int
  cr_world_seq :: int
  cr_event_id :: string
  cr_occurred_at :: string
  cr_payload :: 'b

record 'b database =
  db_events :: "'b event_row list"
  db_characters :: "'b character_row list"

definition empty_database :: "'b database" where
  "empty_database = \<lparr>db_events = [], db_characters = []\<rparr>"

record 'b wire_codec =
  marshal :: "envelope \<Rightarrow> 'b option"
  unmarshal :: "'b \<Rightarrow> envelope option"

datatype db_op =
    BeginTx
  | ReadHead
  | InsertEvent int
  | ReadCharacterHead string
  | InsertEntry string int
  | CommitTx
  | QueryEvents
  | QueryEntries

datatype store_error =
    ErrEmptyBatch
  | ErrSequenceSet
  | ErrNoEventId
  | ErrEntryEnvelope
  | ErrEntryActor
  | ErrEntryCause int nat
  | ErrMarshal
  | ErrMarshalEntry
  | ErrDatabase db_op
  | ErrConstraint db_op
  | ErrCorruptEvent
  | ErrCorruptEntry string
  | ErrNegativeBuffer int

text \<open>\<open>COALESCE(MAX(seq), 0)\<close>.\<close>

fun max_seq :: "int list \<Rightarrow> int" where
  "max_seq [] = 0"
| "max_seq (n # ns) = fold max ns n"

definition insert_event :: "'b event_row \<Rightarrow> 'b database \<Rightarrow> 'b database option" where
  "insert_event row db =
     (if er_seq row \<in> er_seq ` set (db_events db) \<or> er_event_id row \<in> er_event_id ` set (db_events db) then None
      else Some (db\<lparr>db_events := db_events db @ [row]\<rparr>))"

definition insert_entry :: "'b character_row \<Rightarrow> 'b database \<Rightarrow> 'b database option" where
  "insert_entry row db =
     (if (cr_actor_id row, cr_seq row) \<in> (\<lambda>r. (cr_actor_id r, cr_seq r)) ` set (db_characters db) then None
      else Some (db\<lparr>db_characters := db_characters db @ [row]\<rparr>))"

definition character_rows :: "string \<Rightarrow> 'b database \<Rightarrow> 'b character_row list" where
  "character_rows aid db = filter (\<lambda>r. cr_actor_id r = aid) (db_characters db)"

subsection \<open>AppendBatch\<close>

type_synonym heap = "nat \<Rightarrow> envelope"

record store_entry =
  en_actor_id :: string
  en_cause :: int
  en_env :: "nat option"

definition set_sequence :: "int \<Rightarrow> envelope \<Rightarrow> envelope" where
  "set_sequence n env = env\<lparr>env_sequence := n\<rparr>"

definition write_sequence :: "int \<Rightarrow> nat \<Rightarrow> heap \<Rightarrow> heap" where
  "write_sequence n r h = h(r := set_sequence n (h r))"

fun check_envelopes :: "heap \<Rightarrow> nat list \<Rightarrow> store_error option" where
  "check_envelopes h [] = None"
| "check_envelopes h (r # rs) =
     (if env_sequence (h r) \<noteq> 0 then Some ErrSequenceSet
      else if env_event_id (h r) = [] then Some ErrNoEventId
      else check_envelopes h rs)"

fun check_entries :: "heap \<Rightarrow> nat \<Rightarrow> store_entry list \<Rightarrow> store_error option" where
  "check_entries h n [] = None"
| "check_entries h n (e # es) =
     (case en_env e of
        None \<Rightarrow> Some ErrEntryEnvelope
      | Some r \<Rightarrow>
          if env_sequence (h r) \<noteq> 0 then Some ErrEntryEnvelope
          else if en_actor_id e = [] then Some ErrEntryActor
          else if en_cause e < - 1 \<or> int n \<le> en_cause e then Some (ErrEntryCause (en_cause e) n)
          else check_entries h n es)"

fun append_events :: "'b wire_codec \<Rightarrow> (db_op \<Rightarrow> bool) \<Rightarrow> nat list \<Rightarrow> int \<Rightarrow> heap \<Rightarrow> 'b database \<Rightarrow>
    heap \<times> (store_error + 'b database)" where
  "append_events cd io [] n h db = (h, Inr db)"
| "append_events cd io (r # rs) n h db =
     (let h = write_sequence n r h; env = h r in
      case marshal cd env of
        None \<Rightarrow> (h, Inl ErrMarshal)
      | Some blob \<Rightarrow>
          if io (InsertEvent n) then (h, Inl (ErrDatabase (InsertEvent n)))
          else case insert_event \<lparr>er_seq = n, er_event_id = env_event_id env, er_session_id = env_session_id env,
                 er_occurred_at = occurred_at env, er_payload = blob\<rparr> db of
            None \<Rightarrow> (h, Inl (ErrConstraint (InsertEvent n)))
          | Some db \<Rightarrow> append_events cd io rs (n + 1) h db)"

definition entry_ref :: "store_entry \<Rightarrow> nat" where
  "entry_ref e = (case en_env e of None \<Rightarrow> 0 | Some r \<Rightarrow> r)"

fun append_entries_from :: "'b wire_codec \<Rightarrow> (db_op \<Rightarrow> bool) \<Rightarrow> int \<Rightarrow> store_entry list \<Rightarrow> (string, int) fmap \<Rightarrow>
    heap \<Rightarrow> 'b database \<Rightarrow> heap \<times> (store_error + 'b database)" where
  "append_entries_from cd io first [] heads h db = (h, Inr db)"
| "append_entries_from cd io first (e # es) heads h db =
     (let aid = en_actor_id e; r = entry_ref e in
      if fmlookup heads aid = None \<and> io (ReadCharacterHead aid) then (h, Inl (ErrDatabase (ReadCharacterHead aid)))
      else
        let n = (case fmlookup heads aid of
                   Some n \<Rightarrow> n
                 | None \<Rightarrow> max_seq (map cr_seq (character_rows aid db)) + 1);
            h = write_sequence n r h; env = h r
        in case marshal cd env of
             None \<Rightarrow> (h, Inl ErrMarshalEntry)
           | Some blob \<Rightarrow>
               if io (InsertEntry aid n) then (h, Inl (ErrDatabase (InsertEntry aid n)))
               else case insert_entry \<lparr>cr_actor_id = aid, cr_seq = n,
                      cr_world_seq = (if 0 \<le> en_cause e then first + en_cause e else 0),
                      cr_event_id = env_event_id env, cr_occurred_at = occurred_at env, cr_payload = blob\<rparr> db of
                 None \<Rightarrow> (h, Inl (ErrConstraint (InsertEntry aid n)))
               | Some db \<Rightarrow> append_entries_from cd io first es (fmupd aid (n + 1) heads) h db)"

text \<open>A rollback keeps the database the transaction began with; the heap keeps what was written.\<close>

definition append_locked :: "'b wire_codec \<Rightarrow> (db_op \<Rightarrow> bool) \<Rightarrow> nat list \<Rightarrow> store_entry list \<Rightarrow> heap \<Rightarrow> 'b database \<Rightarrow>
    heap \<times> (store_error + int \<times> 'b database)" where
  "append_locked cd io refs es h db =
     (if io BeginTx then (h, Inl (ErrDatabase BeginTx))
      else if io ReadHead then (h, Inl (ErrDatabase ReadHead))
      else
        let first = max_seq (map er_seq (db_events db)) + 1 in
        case append_events cd io refs first h db of
          (h, Inl err) \<Rightarrow> (h, Inl err)
        | (h, Inr db1) \<Rightarrow>
            (case append_entries_from cd io first es fmempty h db1 of
               (h, Inl err) \<Rightarrow> (h, Inl err)
             | (h, Inr db2) \<Rightarrow>
                 if io CommitTx then (h, Inl (ErrDatabase CommitTx)) else (h, Inr (first, db2))))"

fun reset_sequences :: "nat list \<Rightarrow> heap \<Rightarrow> heap" where
  "reset_sequences [] h = h"
| "reset_sequences (r # rs) h = reset_sequences rs (write_sequence 0 r h)"

definition append_batch :: "'b wire_codec \<Rightarrow> (db_op \<Rightarrow> bool) \<Rightarrow> nat list \<Rightarrow> store_entry list \<Rightarrow> heap \<Rightarrow> 'b database \<Rightarrow>
    heap \<times> 'b database \<times> (store_error + int)" where
  "append_batch cd io refs es h db =
     (if refs = [] then (h, db, Inl ErrEmptyBatch)
      else case check_envelopes h refs of
        Some err \<Rightarrow> (h, db, Inl err)
      | None \<Rightarrow>
          (case check_entries h (length refs) es of
             Some err \<Rightarrow> (h, db, Inl err)
           | None \<Rightarrow>
               (case append_locked cd io refs es h db of
                  (h, Inl err) \<Rightarrow> (reset_sequences (refs @ map entry_ref es) h, db, Inl err)
                | (h, Inr (first, db')) \<Rightarrow> (h, db', Inr first))))"

text \<open>
  The call of \<open>Campaign.appendLocked\<close>, whose envelopes are distinct and whose entries are clones: each has
  a cell of its own, and what the call wrote into them comes back with the result.
\<close>

record value_entry =
  ve_actor_id :: string
  ve_cause :: int
  ve_env :: envelope

fun cells_of :: "nat \<Rightarrow> value_entry list \<Rightarrow> store_entry list" where
  "cells_of n [] = []"
| "cells_of n (v # vs) = \<lparr>en_actor_id = ve_actor_id v, en_cause = ve_cause v, en_env = Some n\<rparr> # cells_of (Suc n) vs"

definition append_values :: "'b wire_codec \<Rightarrow> (db_op \<Rightarrow> bool) \<Rightarrow> envelope list \<Rightarrow> value_entry list \<Rightarrow> 'b database \<Rightarrow>
    store_error + (int \<times> 'b database \<times> envelope list \<times> envelope list)" where
  "append_values cd io envs vs db =
     (let refs = [0 ..< length envs]; es = cells_of (length envs) vs in
      case append_batch cd io refs es (nth (envs @ map ve_env vs)) db of
        (h, db', Inl err) \<Rightarrow> Inl err
      | (h, db', Inr first) \<Rightarrow> Inr (first, db', map h refs, map (\<lambda>e. h (entry_ref e)) es))"

subsection \<open>Reads\<close>

fun decode_all :: "('b \<Rightarrow> envelope option) \<Rightarrow> store_error \<Rightarrow> 'b list \<Rightarrow> store_error + envelope list" where
  "decode_all dec err [] = Inr []"
| "decode_all dec err (b # bs) =
     (case dec b of
        None \<Rightarrow> Inl err
      | Some env \<Rightarrow> (case decode_all dec err bs of Inl e \<Rightarrow> Inl e | Inr envs \<Rightarrow> Inr (env # envs)))"

definition read_after :: "'b wire_codec \<Rightarrow> (db_op \<Rightarrow> bool) \<Rightarrow> int \<Rightarrow> 'b database \<Rightarrow> store_error + envelope list" where
  "read_after cd io after db =
     (if io QueryEvents then Inl (ErrDatabase QueryEvents)
      else decode_all (unmarshal cd) ErrCorruptEvent
             (map er_payload (sort_key er_seq (filter (\<lambda>r. after < er_seq r) (db_events db)))))"

record character_entry =
  che_world_seq :: int
  che_env :: envelope

fun read_rows :: "'b wire_codec \<Rightarrow> 'b character_row list \<Rightarrow> (string, character_entry list) fmap \<Rightarrow>
    store_error + (string, character_entry list) fmap" where
  "read_rows cd [] out = Inr out"
| "read_rows cd (r # rs) out =
     (case unmarshal cd (cr_payload r) of
        None \<Rightarrow> Inl (ErrCorruptEntry (cr_actor_id r))
      | Some env \<Rightarrow>
          read_rows cd rs (fmupd (cr_actor_id r)
            ((case fmlookup out (cr_actor_id r) of None \<Rightarrow> [] | Some l \<Rightarrow> l) @
             [\<lparr>che_world_seq = cr_world_seq r, che_env = env\<rparr>]) out))"

definition read_character_after :: "'b wire_codec \<Rightarrow> (db_op \<Rightarrow> bool) \<Rightarrow> string \<Rightarrow> int \<Rightarrow> 'b database \<Rightarrow>
    store_error + character_entry list" where
  "read_character_after cd io aid after db =
     (if io QueryEntries then Inl (ErrDatabase QueryEntries)
      else case read_rows cd (sort_key cr_seq (filter (\<lambda>r. cr_actor_id r = aid \<and> after < cr_seq r) (db_characters db))) fmempty of
        Inl e \<Rightarrow> Inl e
      | Inr logs \<Rightarrow> Inr (case fmlookup logs aid of None \<Rightarrow> [] | Some l \<Rightarrow> l))"

definition read_character_logs :: "'b wire_codec \<Rightarrow> (db_op \<Rightarrow> bool) \<Rightarrow> 'b database \<Rightarrow>
    store_error + (string, character_entry list) fmap" where
  "read_character_logs cd io db =
     (if io QueryEntries then Inl (ErrDatabase QueryEntries)
      else read_rows cd (sort_key cr_actor_id (sort_key cr_seq (db_characters db))) fmempty)"

end
