(* ===== verification/Campaign.thy ===== *)
theory Campaign
  imports Store Perceive
begin

text \<open>
  \<open>internal/campaign\<close>: \<open>campaign.go\<close> (replay on open, and the validate, persist, apply, notify path of
  an append), \<open>fanout.go\<close> (the character logs) and \<open>foldprefix.go\<close>. The directory, its writer hold and
  the random bytes of a session id come from the operating system: the bytes are a parameter
  (\<open>nat \<Rightarrow> 8 word list option\<close>, one draw per envelope), the hold is the flag \<open>cp_open\<close>. A projection that
  Go mutates in place is returned updated; after an append that fanned out and then failed, the code
  replaces every one it may have moved (\<open>restart_decisions\<close>), so nothing of that sharing is lost.
\<close>

subsection \<open>State\<close>

record caused_entry =
  ca_world :: int
  ca_seq :: int

record character_log =
  cl_fold :: state
  cl_head :: int
  cl_decision :: "projection option"
  cl_caused :: "caused_entry list"
  cl_resumes :: "int list"

record 'b campaign =
  cp_db :: "'b database"
  cp_state :: state
  cp_head :: int
  cp_poisoned :: bool
  cp_logs :: "(string, character_log) fmap"
  cp_discarded :: nat
  cp_watches :: "(nat, bool) fmap"
  cp_open :: bool

datatype campaign_error =
    ErrPoisoned
  | ErrClosed
  | ErrStore store_error
  | ErrCorruptLog int apply_error
  | ErrCharacterLogFold string
  | ErrEmpty
  | ErrRandom
  | ErrRefused apply_error
  | ErrFanOutDiverged apply_error
  | ErrApplyDiverged apply_error

subsection \<open>Folding a log\<close>

text \<open>\<open>foldEvents\<close>: the observer is what \<open>after\<close> closes over.\<close>

fun fold_events_with :: "(state \<Rightarrow> envelope \<Rightarrow> 'o \<Rightarrow> 'o) \<Rightarrow> envelope list \<Rightarrow> state \<Rightarrow> 'o \<Rightarrow> campaign_error + state \<times> 'o" where
  "fold_events_with after [] st obs = Inr (st, obs)"
| "fold_events_with after (env # envs) st obs =
     (case apply_event st env of
        Inl err \<Rightarrow>
          if err = ErrUnknownVariant then fold_events_with after envs st obs
          else Inl (ErrCorruptLog (env_sequence env) err)
      | Inr st' \<Rightarrow> fold_events_with after envs st' (after st' env obs))"

definition fold_events :: "envelope list \<Rightarrow> campaign_error + state" where
  "fold_events envs = map_sum id fst (fold_events_with (\<lambda>_ _ _. ()) envs new_state ())"

definition fold_prefix :: "envelope list \<Rightarrow> campaign_error + state" where
  "fold_prefix envs = fold_events envs"

definition party_member_in :: "state \<Rightarrow> string \<Rightarrow> bool" where
  "party_member_in st aid = (case fmlookup (st_actors st) aid of None \<Rightarrow> False | Some a \<Rightarrow> is_party_member (Some a))"

definition eyes_of :: "string \<Rightarrow> eyes" where
  "eyes_of aid = \<lparr>eye_controller = [], eye_shoulder = aid\<rparr>"

definition open_session_in :: "state \<Rightarrow> session option" where
  "open_session_in st = find (\<lambda>s. ses_end s = 0) (st_sessions st)"

record resume_scan =
  rs_member :: "(string, bool) fmap"
  rs_at :: "(string, int list) fmap"

definition resumes_of :: "string list \<Rightarrow> resume_scan" where
  "resumes_of ids = \<lparr>rs_member = fold (\<lambda>id. fmupd id False) ids fmempty, rs_at = fmempty\<rparr>"

definition observe_one :: "state \<Rightarrow> envelope \<Rightarrow> string \<Rightarrow> resume_scan \<Rightarrow> resume_scan" where
  "observe_one st env aid r =
     (let now = party_member_in st aid; was = (fmlookup (rs_member r) aid = Some True) in
      r\<lparr>rs_member := fmupd aid now (rs_member r),
        rs_at := (if now \<and> \<not> was
                  then fmupd aid ((case fmlookup (rs_at r) aid of None \<Rightarrow> [] | Some l \<Rightarrow> l) @ [env_sequence env]) (rs_at r)
                  else rs_at r)\<rparr>)"

definition observe :: "state \<Rightarrow> envelope \<Rightarrow> resume_scan \<Rightarrow> resume_scan" where
  "observe st env r = fold (observe_one st env) (keys (rs_member r)) r"

subsection \<open>Anchors\<close>

text \<open>\<open>sort.Search\<close>.\<close>

function search_between :: "nat \<Rightarrow> nat \<Rightarrow> (nat \<Rightarrow> bool) \<Rightarrow> nat" where
  "search_between i j f =
     (if i < j then (let h = (i + j) div 2 in if f h then search_between i h f else search_between (Suc h) j f) else i)"
  by pat_completeness auto
termination by (relation "measure (\<lambda>(i, j, f). j - i)") auto

declare search_between.simps [simp del]

definition search :: "nat \<Rightarrow> (nat \<Rightarrow> bool) \<Rightarrow> nat" where
  "search n f = search_between 0 n f"

definition reanchored :: "character_log \<Rightarrow> narration_added \<Rightarrow> narration_added" where
  "reanchored l n =
     (let caused = cl_caused l; resumes = cl_resumes l;
          from = search (length caused) (\<lambda>k. na_anchor_from n \<le> ca_world (caused ! k));
          til = search (length caused) (\<lambda>k. na_anchor_to n < ca_world (caused ! k));
          r = search (length resumes) (\<lambda>k. na_anchor_to n < resumes ! k);
          from = (if 0 < r then max from (search (length caused) (\<lambda>k. resumes ! (r - 1) \<le> ca_world (caused ! k))) else from)
      in if from < til
         then n\<lparr>na_anchor_from := ca_seq (caused ! from), na_anchor_to := ca_seq (caused ! (til - 1))\<rparr>
         else n\<lparr>na_anchor_from := 0, na_anchor_to := 0\<rparr>)"

definition reanchor :: "character_log \<Rightarrow> envelope list \<Rightarrow> envelope list" where
  "reanchor l frames =
     map (\<lambda>f. case env_payload f of
            Some (NarrationAdded n) \<Rightarrow> f\<lparr>env_payload := Some (NarrationAdded (reanchored l n))\<rparr>
          | _ \<Rightarrow> f) frames"

subsection \<open>The character logs\<close>

text \<open>The frames are stamped as they fold; an error drops them all.\<close>

fun trial_from :: "state \<Rightarrow> int \<Rightarrow> envelope list \<Rightarrow> apply_error + state \<times> envelope list" where
  "trial_from st n [] = Inr (st, [])"
| "trial_from st n (f # fs) =
     (let e = set_sequence n f in
      case apply_event st e of
        Inl err \<Rightarrow> Inl err
      | Inr st' \<Rightarrow>
          (case trial_from st' (n + 1) fs of Inl err \<Rightarrow> Inl err | Inr (st'', out) \<Rightarrow> Inr (st'', e # out)))"

definition trial :: "state \<Rightarrow> int \<Rightarrow> envelope list \<Rightarrow> apply_error + state \<times> envelope list" where
  "trial st head frames =
     (if frames = [] then Inr (st, []) else trial_from (snapshot st) (head + 1) frames)"

definition entries_of :: "string \<Rightarrow> int \<Rightarrow> envelope list \<Rightarrow> value_entry list" where
  "entries_of aid cause frames =
     map (\<lambda>f. \<lparr>ve_actor_id = aid, ve_cause = cause, ve_env = set_sequence 0 f\<rparr>) frames"

definition no_eyes :: eyes where
  "no_eyes = \<lparr>eye_controller = [], eye_shoulder = []\<rparr>"

definition session_frame :: "session \<Rightarrow> envelope" where
  "session_frame s = (payload_only (SessionStarted (ses_name s)))\<lparr>env_session_id := ses_id s\<rparr>"

definition note_frame :: "state \<Rightarrow> string \<Rightarrow> envelope" where
  "note_frame st key =
     (case fmlookup (st_notes st) key of
        None \<Rightarrow> payload_only (NoteUpserted \<lparr>nu_key = key, nu_title = [], nu_text = [], nu_visibility = VISIBILITY_UNSPECIFIED\<rparr>)
      | Some n \<Rightarrow> payload_only (NoteUpserted \<lparr>nu_key = key, nu_title = wn_title n, nu_text = wn_text n,
          nu_visibility = wn_visibility n\<rparr>))"

definition opening_frames :: "state \<Rightarrow> envelope list" where
  "opening_frames prior =
     (case open_session_in prior of None \<Rightarrow> [] | Some s \<Rightarrow> [session_frame s]) @
     fst (perch no_eyes new_state prior 0 (new_projection no_eyes None)) @
     map (note_frame prior) (filter (note_public prior) (keys (st_notes prior)))"

definition resume_frames :: "state \<Rightarrow> state \<Rightarrow> envelope list" where
  "resume_frames held prior =
     (let h = open_session_in held; o' = open_session_in prior;
          moved = (map_option ses_id h \<noteq> map_option ses_id o')
      in (if h \<noteq> None \<and> moved then [payload_only SessionEnded] else []) @
         (case o' of None \<Rightarrow> [] | Some s \<Rightarrow> if moved then [session_frame s] else []) @
         map (\<lambda>tid. payload_only (TokenHidden tid)) (keys (st_tokens held)))"

definition log_ids :: "(string, character_log) fmap \<Rightarrow> state \<Rightarrow> string list" where
  "log_ids logs world = sorted_set (fmdom logs |\<union>| ffilter (party_member_in world) (fmdom (st_actors world)))"

definition record_caused :: "int \<Rightarrow> envelope list \<Rightarrow> caused_entry list" where
  "record_caused world out = (if world = 0 then [] else map (\<lambda>e. \<lparr>ca_world = world, ca_seq = env_sequence e\<rparr>) out)"

type_synonym fan_state = "value_entry list \<times> (string, character_log) fmap \<times> nat"

definition new_log :: character_log where
  "new_log = \<lparr>cl_fold = new_state, cl_head = 0, cl_decision = None, cl_caused = [], cl_resumes = []\<rparr>"

text \<open>The log as this event finds it, its decision, and the frames that bring it up to date first.\<close>

definition lead_of :: "string \<Rightarrow> envelope \<Rightarrow> state \<Rightarrow> (string, character_log) fmap \<Rightarrow>
    character_log \<times> projection \<times> envelope list" where
  "lead_of aid ev prior logs =
     (case fmlookup logs aid of
        None \<Rightarrow> (new_log, new_projection (eyes_of aid) None, opening_frames prior)
      | Some l \<Rightarrow>
          (case cl_decision l of
             None \<Rightarrow> (l\<lparr>cl_resumes := cl_resumes l @ [env_sequence ev]\<rparr>, new_projection (eyes_of aid) None,
                      resume_frames (cl_fold l) prior)
           | Some pr \<Rightarrow> (l, pr, [])))"

definition fan_out_actor :: "nat \<Rightarrow> envelope \<Rightarrow> state \<Rightarrow> state \<Rightarrow> string \<Rightarrow> fan_state \<Rightarrow> fan_state" where
  "fan_out_actor i ev prior world aid acc =
     (case acc of (entries, logs, dropped) \<Rightarrow>
        if \<not> party_member_in world aid then
          (entries, (case fmlookup logs aid of None \<Rightarrow> logs | Some l \<Rightarrow> fmupd aid (l\<lparr>cl_decision := None\<rparr>) logs), dropped)
        else
          let (l, pr, lead) = lead_of aid ev prior logs in
          case trial (cl_fold l) (cl_head l) lead of
            Inl _ \<Rightarrow>
              (entries, (if cl_head l = 0 then fmdrop aid logs else fmupd aid (l\<lparr>cl_decision := None\<rparr>) logs), Suc dropped)
          | Inr (fold1, out1) \<Rightarrow>
              let entries = entries @ entries_of aid (- 1) out1;
                  l = l\<lparr>cl_fold := fold1, cl_head := cl_head l + int (length out1)\<rparr>;
                  (frames, pr) = project_event (eyes_of aid) ev (cl_fold l) world pr
              in case trial (cl_fold l) (cl_head l) (reanchor l frames) of
                   Inl _ \<Rightarrow>
                     (entries, fmupd aid (l\<lparr>cl_decision := Some (resume (eyes_of aid) (cl_fold l) world)\<rparr>) logs, Suc dropped)
                 | Inr (fold2, out2) \<Rightarrow>
                     (entries @ entries_of aid (int i) out2,
                      fmupd aid (l\<lparr>cl_decision := Some pr, cl_caused := cl_caused l @ record_caused (env_sequence ev) out2,
                        cl_fold := fold2, cl_head := cl_head l + int (length out2)\<rparr>) logs, dropped))"

fun fan_out_from :: "int \<Rightarrow> nat \<Rightarrow> envelope list \<Rightarrow> state \<Rightarrow> fan_state \<Rightarrow> campaign_error + fan_state" where
  "fan_out_from head i [] world acc = Inr acc"
| "fan_out_from head i (env # envs) world acc =
     (let prior = snapshot world; ev = set_sequence (head + int i + 1) env in
      case apply_event world ev of
        Inl err \<Rightarrow> Inl (ErrFanOutDiverged err)
      | Inr world' \<Rightarrow>
          fan_out_from head (Suc i) envs world'
            (fold (fan_out_actor i ev prior world') (log_ids (fst (snd acc)) world') acc))"

definition fan_out :: "envelope list \<Rightarrow> 'b campaign \<Rightarrow> campaign_error + fan_state" where
  "fan_out envs c = fan_out_from (cp_head c) 0 envs (snapshot (cp_state c)) ([], cp_logs c, 0)"

definition restart_decisions :: "'b campaign \<Rightarrow> 'b campaign" where
  "restart_decisions c =
     c\<lparr>cp_logs := fmmap_keys (\<lambda>aid l. case cl_decision l of
         None \<Rightarrow> l
       | Some _ \<Rightarrow> l\<lparr>cl_decision := Some (resume (eyes_of aid) (cl_fold l) (cp_state c))\<rparr>) (cp_logs c)\<rparr>"

subsection \<open>Open\<close>

definition log_of_entries :: "character_entry list \<Rightarrow> state \<Rightarrow> int list \<Rightarrow> projection option \<Rightarrow> character_log" where
  "log_of_entries es st resumed decision =
     \<lparr>cl_fold = st, cl_head = env_sequence (che_env (last es)), cl_decision = decision,
      cl_caused = concat (map (\<lambda>e. record_caused (che_world_seq e) [che_env e]) es), cl_resumes = resumed\<rparr>"

fun load_logs :: "(string, character_entry list) fmap \<Rightarrow> (string, int list) fmap \<Rightarrow> state \<Rightarrow> string list \<Rightarrow>
    (string, character_log) fmap \<Rightarrow> campaign_error + (string, character_log) fmap" where
  "load_logs stored resumed world [] logs = Inr logs"
| "load_logs stored resumed world (aid # aids) logs =
     (let es = (case fmlookup stored aid of None \<Rightarrow> [] | Some es \<Rightarrow> es) in
      case fold_events (map che_env es) of
        Inl _ \<Rightarrow> Inl (ErrCharacterLogFold aid)
      | Inr st \<Rightarrow>
          let resumed_at = (case fmlookup resumed aid of None \<Rightarrow> [] | Some l \<Rightarrow> l);
              decision = (if party_member_in world aid then Some (resume (eyes_of aid) st world) else None)
          in load_logs stored resumed world aids (fmupd aid (log_of_entries es st resumed_at decision) logs))"

definition rebuild :: "'b wire_codec \<Rightarrow> (db_op \<Rightarrow> bool) \<Rightarrow> 'b database \<Rightarrow> campaign_error + 'b campaign" where
  "rebuild cd io db =
     (case read_after cd io 0 db of
        Inl err \<Rightarrow> Inl (ErrStore err)
      | Inr events \<Rightarrow>
          (case read_character_logs cd io db of
             Inl err \<Rightarrow> Inl (ErrStore err)
           | Inr stored \<Rightarrow>
               (case fold_events_with observe events new_state (resumes_of (keys stored)) of
                  Inl err \<Rightarrow> Inl err
                | Inr (st, scan) \<Rightarrow>
                    (case load_logs stored (rs_at scan) st (keys stored) fmempty of
                       Inl err \<Rightarrow> Inl err
                     | Inr logs \<Rightarrow>
                         Inr \<lparr>cp_db = db, cp_state = st,
                              cp_head = (if events = [] then 0 else env_sequence (last events)),
                              cp_poisoned = False, cp_logs = logs, cp_discarded = 0,
                              cp_watches = fmempty, cp_open = True\<rparr>))))"

subsection \<open>Append\<close>

definition session_id_of :: "8 word list \<Rightarrow> string" where
  "session_id_of bytes = ''sess-'' @ hex_text bytes"

definition is_session_start :: "envelope \<Rightarrow> bool" where
  "is_session_start env = (case env_payload env of Some (SessionStarted _) \<Rightarrow> True | _ \<Rightarrow> False)"

definition stamp_session :: "8 word list option \<Rightarrow> state \<Rightarrow> envelope \<Rightarrow> campaign_error + envelope" where
  "stamp_session rnd st env =
     (if is_session_start env then
        (case rnd of None \<Rightarrow> Inl ErrRandom | Some bytes \<Rightarrow> Inr (env\<lparr>env_session_id := session_id_of bytes\<rparr>))
      else Inr (env\<lparr>env_session_id := (case open_session_in st of None \<Rightarrow> [] | Some s \<Rightarrow> ses_id s)\<rparr>))"

fun validate_from :: "(nat \<Rightarrow> 8 word list option) \<Rightarrow> int \<Rightarrow> nat \<Rightarrow> envelope list \<Rightarrow> state \<Rightarrow>
    campaign_error + envelope list" where
  "validate_from rnd head i [] snap = Inr []"
| "validate_from rnd head i (env # envs) snap =
     (case stamp_session (rnd i) snap env of
        Inl err \<Rightarrow> Inl err
      | Inr env \<Rightarrow>
          (case apply_event snap (set_sequence (head + int i + 1) env) of
             Inl err \<Rightarrow> Inl (ErrRefused err)
           | Inr snap \<Rightarrow>
               (case validate_from rnd head (Suc i) envs snap of
                  Inl err \<Rightarrow> Inl err
                | Inr envs \<Rightarrow> Inr (env # envs))))"

text \<open>
  A call returns the campaign after it, its result, and what it handed the store's subscribers: the
  world's events, then each character log's entries.
\<close>

type_synonym notices = "envelope list \<times> (string \<times> envelope) list"

definition wake_watches :: "'b campaign \<Rightarrow> 'b campaign" where
  "wake_watches c = c\<lparr>cp_watches := fmmap (\<lambda>_. True) (cp_watches c)\<rparr>"

definition append_locked_campaign :: "'b wire_codec \<Rightarrow> (db_op \<Rightarrow> bool) \<Rightarrow> (nat \<Rightarrow> 8 word list option) \<Rightarrow>
    envelope list \<Rightarrow> 'b campaign \<Rightarrow> 'b campaign \<times> (campaign_error + int) \<times> notices" where
  "append_locked_campaign cd io rnd envs c =
     (if list_ex (\<lambda>env. env_payload env = None) envs then (c, Inl (ErrRefused ErrUnknownVariant), ([], []))
      else case validate_from rnd (cp_head c) 0 envs (snapshot (cp_state c)) of
        Inl err \<Rightarrow> (c, Inl err, ([], []))
      | Inr envs \<Rightarrow>
          (case fan_out envs c of
             Inl err \<Rightarrow> (restart_decisions c, Inl err, ([], []))
           | Inr (entries, logs, dropped) \<Rightarrow>
               (case append_values cd io envs entries (cp_db c) of
                  Inl err \<Rightarrow> (restart_decisions c, Inl (ErrStore err), ([], []))
                | Inr (first, db, envs, told) \<Rightarrow>
                    let c = c\<lparr>cp_db := db, cp_head := first + int (length envs) - 1, cp_logs := logs,
                              cp_discarded := cp_discarded c + dropped\<rparr>
                    in case apply_events (cp_state c) envs of
                         Inl err \<Rightarrow> (c\<lparr>cp_poisoned := True\<rparr>, Inl (ErrApplyDiverged err), ([], []))
                       | Inr st \<Rightarrow>
                           (wake_watches (c\<lparr>cp_state := st\<rparr>), Inr first, (envs, zip (map ve_actor_id entries) told)))))"

definition append_one :: "'b wire_codec \<Rightarrow> (db_op \<Rightarrow> bool) \<Rightarrow> (nat \<Rightarrow> 8 word list option) \<Rightarrow>
    envelope \<Rightarrow> 'b campaign \<Rightarrow> 'b campaign \<times> (campaign_error + int) \<times> notices" where
  "append_one cd io rnd env c =
     (if cp_poisoned c then (c, Inl ErrPoisoned, ([], [])) else append_locked_campaign cd io rnd [env] c)"

definition append_batch_campaign :: "'b wire_codec \<Rightarrow> (db_op \<Rightarrow> bool) \<Rightarrow> (nat \<Rightarrow> 8 word list option) \<Rightarrow>
    envelope list \<Rightarrow> 'b campaign \<Rightarrow> 'b campaign \<times> (campaign_error + int) \<times> notices" where
  "append_batch_campaign cd io rnd envs c =
     (if cp_poisoned c then (c, Inl ErrPoisoned, ([], []))
      else if envs = [] then (c, Inl ErrEmpty, ([], []))
      else append_locked_campaign cd io rnd envs c)"

subsection \<open>The other methods\<close>

definition campaign_state :: "'b campaign \<Rightarrow> state option" where
  "campaign_state c = (if cp_poisoned c then None else Some (snapshot (cp_state c)))"

definition campaign_actors :: "'b campaign \<Rightarrow> (string, actor) fmap option" where
  "campaign_actors c = (if cp_poisoned c then None else Some (st_actors (cp_state c)))"

definition campaign_log :: "'b wire_codec \<Rightarrow> (db_op \<Rightarrow> bool) \<Rightarrow> string \<Rightarrow> 'b campaign \<Rightarrow>
    campaign_error + character_entry list" where
  "campaign_log cd io aid c =
     (if cp_poisoned c then Inl ErrPoisoned
      else case read_character_after cd io aid 0 (cp_db c) of Inl err \<Rightarrow> Inl (ErrStore err) | Inr es \<Rightarrow> Inr es)"

definition watch_appends :: "nat \<Rightarrow> 'b campaign \<Rightarrow> campaign_error + 'b campaign" where
  "watch_appends w c =
     (if cp_poisoned c then Inl ErrPoisoned
      else if \<not> cp_open c then Inl ErrClosed
      else Inr (c\<lparr>cp_watches := fmupd w False (cp_watches c)\<rparr>))"

definition stop_watch :: "nat \<Rightarrow> 'b campaign \<Rightarrow> 'b campaign" where
  "stop_watch w c = c\<lparr>cp_watches := fmdrop w (cp_watches c)\<rparr>"

definition close_campaign :: "'b campaign \<Rightarrow> 'b campaign" where
  "close_campaign c = (if \<not> cp_open c then c else c\<lparr>cp_watches := fmempty, cp_open := False\<rparr>)"

end
