(* ===== verification/Store_Props.thy ===== *)
theory Store_Props
  imports Store
begin

text \<open>
  What the log promises: sequences run 1, 2, ... in the world log and in every character log
  (\<open>wf_db\<close>), an append is all or nothing on the tables and on the caller's envelopes, and a read gives
  back what was appended. The contract the campaign builds on is the locale \<open>event_log\<close>,
  interpreted here on the store.
\<close>

subsection \<open>Sequences\<close>

fun stamp :: "int \<Rightarrow> envelope list \<Rightarrow> envelope list" where
  "stamp n [] = []"
| "stamp n (e # es) = set_sequence n e # stamp (n + 1) es"

lemma set_sequence_simps [simp]:
  "env_sequence (set_sequence n e) = n"
  "env_payload (set_sequence n e) = env_payload e"
  "env_event_id (set_sequence n e) = env_event_id e"
  "env_session_id (set_sequence n e) = env_session_id e"
  "occurred_at (set_sequence n e) = occurred_at e"
  "set_sequence n (set_sequence m e) = set_sequence n e"
  by (simp_all add: set_sequence_def occurred_at_def)

lemma set_sequence_same: "env_sequence e = n \<Longrightarrow> set_sequence n e = e"
  by (cases e) (auto simp: set_sequence_def)

lemma length_stamp [simp]: "length (stamp n es) = length es"
  by (induction es arbitrary: n) simp_all

lemma stamp_append: "stamp n (es @ fs) = stamp n es @ stamp (n + int (length es)) fs"
  by (induction es arbitrary: n) (simp_all add: algebra_simps)

lemma map_sequence_stamp: "map env_sequence (stamp n es) = [n .. n + int (length es) - 1]"
  by (induction es arbitrary: n) (simp_all add: upto_rec1 algebra_simps)

lemma nth_stamp: "i < length es \<Longrightarrow> stamp n es ! i = set_sequence (n + int i) (es ! i)"
  by (induction es arbitrary: n i) (auto simp: nth_Cons algebra_simps split: nat.splits)

lemma stamp_cong: "map (set_sequence 0) es = map (set_sequence 0) fs \<Longrightarrow> stamp n es = stamp n fs"
proof (induction es arbitrary: fs n)
  case (Cons e es)
  then obtain g gs where fs: "fs = g # gs" "set_sequence 0 e = set_sequence 0 g" "map (set_sequence 0) es = map (set_sequence 0) gs"
    by (cases fs) auto
  have "set_sequence n e = set_sequence n (set_sequence 0 e)" by simp
  also have "\<dots> = set_sequence n g" by (simp add: fs(2) del: set_sequence_simps) (simp add: set_sequence_simps)
  finally show ?case using Cons.IH[OF fs(3)] fs(1) by simp
qed simp

lemma fold_max_upto: "a \<le> b \<Longrightarrow> fold max [a + 1 .. b] a = (b :: int)"
proof (induction "nat (b - a)" arbitrary: a)
  case 0
  then show ?case by simp
next
  case (Suc k)
  then have "a < b" by simp
  with Suc.hyps(1)[of "a + 1"] Suc.hyps(2) show ?case by (simp add: upto_rec1 max_def)
qed

lemma max_seq_upto [simp]: "max_seq [1 .. int n] = int n"
  using fold_max_upto[of 1 "int n"] by (cases "n = 0") (simp_all add: upto_rec1)

lemma upto_append: "[1 .. int k] @ [int k + 1 .. int k + int n] = [1 .. int k + int n]"
  by (induction n) (simp_all add: upto_rec2 algebra_simps)

subsection \<open>Rows\<close>

definition characters_ok :: "'b database \<Rightarrow> bool" where
  "characters_ok db = (\<forall>aid. map cr_seq (character_rows aid db) = [1 .. int (length (character_rows aid db))])"

definition wf_db :: "'b database \<Rightarrow> bool" where
  "wf_db db =
     (map er_seq (db_events db) = [1 .. int (length (db_events db))] \<and> characters_ok db)"

lemma wf_empty_database [simp]: "wf_db empty_database"
  by (simp add: wf_db_def characters_ok_def empty_database_def character_rows_def)

definition event_row_of :: "'b wire_codec \<Rightarrow> envelope \<Rightarrow> 'b event_row \<Rightarrow> bool" where
  "event_row_of cd env row =
     (er_seq row = env_sequence env \<and> er_event_id row = env_event_id env \<and> er_session_id row = env_session_id env \<and>
      er_occurred_at row = occurred_at env \<and> marshal cd env = Some (er_payload row))"

definition entry_row_of :: "'b wire_codec \<Rightarrow> int \<times> envelope \<Rightarrow> 'b character_row \<Rightarrow> bool" where
  "entry_row_of cd we row =
     (cr_world_seq row = fst we \<and> cr_seq row = env_sequence (snd we) \<and> cr_event_id row = env_event_id (snd we) \<and>
      cr_occurred_at row = occurred_at (snd we) \<and> marshal cd (snd we) = Some (cr_payload row))"

text \<open>The world sequences and envelopes a batch of entries gives one actor's log.\<close>

definition caused_by :: "int \<Rightarrow> store_entry \<Rightarrow> int" where
  "caused_by first e = (if 0 \<le> en_cause e then first + en_cause e else 0)"

definition entries_for :: "heap \<Rightarrow> int \<Rightarrow> string \<Rightarrow> int \<Rightarrow> store_entry list \<Rightarrow> (int \<times> envelope) list" where
  "entries_for h first aid n es =
     (let mine = filter (\<lambda>e. en_actor_id e = aid) es
      in zip (map (caused_by first) mine) (stamp n (map (\<lambda>e. h (entry_ref e)) mine)))"

definition same_but_sequence :: "heap \<Rightarrow> heap \<Rightarrow> bool" where
  "same_but_sequence h h' = (\<forall>r. set_sequence 0 (h' r) = set_sequence 0 (h r))"

lemma write_sequence_simps [simp]:
  "set_sequence n (write_sequence m r h q) = set_sequence n (h q)"
  "write_sequence m r h r = set_sequence m (h r)"
  "q \<noteq> r \<Longrightarrow> write_sequence m r h q = h q"
  by (simp_all add: write_sequence_def)

lemma same_but_sequence_write [simp]: "same_but_sequence (write_sequence n r h) h' \<longleftrightarrow> same_but_sequence h h'"
  by (simp add: same_but_sequence_def)

lemma stamp_write [simp]: "stamp n (map (\<lambda>x. write_sequence m r h (f x)) xs) = stamp n (map (\<lambda>x. h (f x)) xs)"
  by (rule stamp_cong) simp

lemma append_events_heap:
  "append_events cd io refs n h db = (h', out) \<Longrightarrow> same_but_sequence h h' \<and> (\<forall>r. r \<notin> set refs \<longrightarrow> h' r = h r)"
proof (induction refs arbitrary: n h db)
  case Nil
  then show ?case by (simp add: same_but_sequence_def)
next
  case (Cons r rs)
  have "same_but_sequence h (write_sequence n r h)" by (simp add: same_but_sequence_def)
  with Cons.prems show ?case
    by (auto simp: Let_def split: option.splits if_splits dest!: Cons.IH)
qed

lemma append_events_rows:
  "append_events cd io refs n h db = (h', Inr db') \<Longrightarrow>
     (\<exists>rows. db_events db' = db_events db @ rows \<and> list_all2 (event_row_of cd) (stamp n (map h refs)) rows) \<and>
     db_characters db' = db_characters db"
proof (induction refs arbitrary: n h db)
  case Nil
  then show ?case by simp
next
  case (Cons r rs)
  let ?h = "write_sequence n r h"
  obtain blob where blob: "marshal cd (?h r) = Some blob" using Cons.prems by (auto simp: Let_def split: option.splits)
  let ?row = "\<lparr>er_seq = n, er_event_id = env_event_id (?h r), er_session_id = env_session_id (?h r),
     er_occurred_at = occurred_at (?h r), er_payload = blob\<rparr>"
  obtain db1 where db1: "insert_event ?row db = Some db1" "append_events cd io rs (n + 1) ?h db1 = (h', Inr db')"
    using Cons.prems blob by (auto simp: Let_def split: option.splits if_splits)
  have ins: "db_events db1 = db_events db @ [?row]" "db_characters db1 = db_characters db"
    using db1(1) by (auto simp: insert_event_def split: if_splits)
  obtain rows where rows: "db_events db' = db_events db1 @ rows"
    "list_all2 (event_row_of cd) (stamp (n + 1) (map ?h rs)) rows" "db_characters db' = db_characters db1"
    using Cons.IH[OF db1(2)] by blast
  have "stamp (n + 1) (map ?h rs) = stamp (n + 1) (map h rs)" by (rule stamp_cong) simp
  moreover have "event_row_of cd (set_sequence n (h r)) ?row" using blob by (simp add: event_row_of_def)
  ultimately show ?case using rows ins
    by (intro conjI exI[of _ "?row # rows"]) simp_all
qed

lemma entries_for_simps [simp]:
  "entries_for h first aid n [] = []"
  "entries_for h first aid n (e # es) =
     (if en_actor_id e = aid then (caused_by first e, set_sequence n (h (entry_ref e))) # entries_for h first aid (n + 1) es
      else entries_for h first aid n es)"
  "entries_for (write_sequence m r h) first aid n es = entries_for h first aid n es"
  by (simp_all add: entries_for_def Let_def)

lemma entries_for_sequences: "map (env_sequence \<circ> snd) (entries_for h first aid n es) =
    [n .. n + int (length (entries_for h first aid n es)) - 1]"
  by (induction es arbitrary: n) (simp_all add: upto_rec1 algebra_simps)

lemma append_entries_heap:
  "append_entries_from cd io first es heads h db = (h', out) \<Longrightarrow>
     same_but_sequence h h' \<and> (\<forall>r. r \<notin> entry_ref ` set es \<longrightarrow> h' r = h r)"
proof (induction es arbitrary: heads h db)
  case Nil
  then show ?case by (simp add: same_but_sequence_def)
next
  case (Cons e es)
  have "same_but_sequence h (write_sequence n r h)" for n r by (simp add: same_but_sequence_def)
  moreover have "same_but_sequence h h" by (simp add: same_but_sequence_def)
  ultimately show ?case using Cons.prems
    by (auto simp: Let_def split: option.splits if_splits dest!: Cons.IH)
qed

lemma character_rows_add:
  "character_rows aid (db\<lparr>db_characters := db_characters db @ [row]\<rparr>) =
     character_rows aid db @ (if cr_actor_id row = aid then [row] else [])"
  by (simp add: character_rows_def)

lemma characters_ok_add:
  assumes "characters_ok db" and "cr_seq row = int (length (character_rows (cr_actor_id row) db)) + 1"
  shows "characters_ok (db\<lparr>db_characters := db_characters db @ [row]\<rparr>)"
  unfolding characters_ok_def
proof
  fix aid
  show "map cr_seq (character_rows aid (db\<lparr>db_characters := db_characters db @ [row]\<rparr>)) =
      [1 .. int (length (character_rows aid (db\<lparr>db_characters := db_characters db @ [row]\<rparr>)))]"
    using assms by (cases "cr_actor_id row = aid") (simp_all add: character_rows_add characters_ok_def upto_rec2)
qed

lemma append_entries_rows:
  assumes "append_entries_from cd io first es heads h db = (h', Inr db')" and "characters_ok db"
    and "\<forall>aid n. fmlookup heads aid = Some n \<longrightarrow> n = int (length (character_rows aid db)) + 1"
  shows "db_events db' = db_events db \<and> characters_ok db' \<and>
    (\<forall>aid. \<exists>rows. character_rows aid db' = character_rows aid db @ rows \<and>
       list_all2 (entry_row_of cd) (entries_for h first aid (int (length (character_rows aid db)) + 1) es) rows)"
  using assms
proof (induction es arbitrary: heads h db)
  case Nil
  then show ?case by simp
next
  case (Cons e es)
  let ?aid = "en_actor_id e" and ?r = "entry_ref e"
  let ?n = "int (length (character_rows ?aid db)) + 1"
  have n: "(case fmlookup heads ?aid of Some n \<Rightarrow> n | None \<Rightarrow> max_seq (map cr_seq (character_rows ?aid db)) + 1) = ?n"
    using Cons.prems(2,3) by (auto simp: characters_ok_def split: option.splits)
  note step = Cons.prems(1)[unfolded append_entries_from.simps Let_def n]
  let ?env = "set_sequence ?n (h ?r)"
  obtain blob where blob: "marshal cd ?env = Some blob"
    using step by (auto split: option.splits if_splits)
  let ?row = "\<lparr>cr_actor_id = ?aid, cr_seq = ?n, cr_world_seq = caused_by first e,
      cr_event_id = env_event_id ?env, cr_occurred_at = occurred_at ?env, cr_payload = blob\<rparr>"
  obtain db1 where db1: "insert_entry ?row db = Some db1"
    "append_entries_from cd io first es (fmupd ?aid (?n + 1) heads) (write_sequence ?n ?r h) db1 = (h', Inr db')"
    using step blob by (auto simp: caused_by_def split: option.splits if_splits)
  have ins: "db1 = db\<lparr>db_characters := db_characters db @ [?row]\<rparr>"
    using db1(1) by (auto simp: insert_entry_def split: if_splits)
  have rows1: "character_rows aid db1 = character_rows aid db @ (if ?aid = aid then [?row] else [])" for aid
    by (simp add: ins character_rows_add)
  have ok1: "characters_ok db1" using characters_ok_add[OF Cons.prems(2), of ?row] by (simp add: ins)
  have heads: "\<forall>aid n. fmlookup (fmupd ?aid (?n + 1) heads) aid = Some n \<longrightarrow> n = int (length (character_rows aid db1)) + 1"
    using Cons.prems(3) by (auto simp: rows1)
  have row: "entry_row_of cd (caused_by first e, ?env) ?row" using blob by (simp add: entry_row_of_def)
  note IH = Cons.IH[OF db1(2) ok1 heads]
  have "\<exists>rows. character_rows aid db' = character_rows aid db @ rows \<and>
       list_all2 (entry_row_of cd) (entries_for h first aid (int (length (character_rows aid db)) + 1) (e # es)) rows" for aid
  proof -
    obtain rows where rows: "character_rows aid db' = character_rows aid db1 @ rows"
      "list_all2 (entry_row_of cd) (entries_for h first aid (int (length (character_rows aid db1)) + 1) es) rows"
      using IH by auto
    show ?thesis
    proof (cases "?aid = aid")
      case True
      with rows row show ?thesis by (intro exI[of _ "?row # rows"]) (simp add: rows1 add.commute)
    next
      case False
      with rows show ?thesis by (intro exI[of _ rows]) (simp add: rows1)
    qed
  qed
  with IH show ?case by (simp add: ins)
qed

subsection \<open>AppendBatch\<close>

lemma list_all2_event_seqs: "list_all2 (event_row_of cd) es rows \<Longrightarrow> map er_seq rows = map env_sequence es"
  by (induction rule: list_all2_induct) (simp_all add: event_row_of_def)

lemma wf_events_append:
  assumes "map er_seq (db_events db) = [1 .. int (length (db_events db))]"
    and "db_events db' = db_events db @ rows"
    and "list_all2 (event_row_of cd) (stamp (int (length (db_events db)) + 1) es) rows"
  shows "map er_seq (db_events db') = [1 .. int (length (db_events db'))]"
proof -
  let ?k = "int (length (db_events db))"
  have len: "length rows = length es" using list_all2_lengthD[OF assms(3)] by simp
  have "map er_seq (db_events db') = [1 .. ?k] @ [?k + 1 .. ?k + int (length es)]"
    using assms(1,2) list_all2_event_seqs[OF assms(3)] by (simp add: map_sequence_stamp)
  also have "\<dots> = [1 .. ?k + int (length es)]" by (rule upto_append)
  finally show ?thesis by (simp add: assms(2) len)
qed

lemma check_envelopes_None: "check_envelopes h refs = None \<longleftrightarrow> (\<forall>r \<in> set refs. env_sequence (h r) = 0 \<and> env_event_id (h r) \<noteq> [])"
  by (induction refs) auto

lemma check_entries_None: "check_entries h n es = None \<longleftrightarrow>
    (\<forall>e \<in> set es. en_env e \<noteq> None \<and> env_sequence (h (entry_ref e)) = 0 \<and> en_actor_id e \<noteq> [] \<and>
       - 1 \<le> en_cause e \<and> en_cause e < int n)"
  by (induction es) (auto simp: entry_ref_def split: option.splits)

lemma reset_sequences_eq: "reset_sequences rs h = (\<lambda>r. if r \<in> set rs then set_sequence 0 (h r) else h r)"
  by (induction rs arbitrary: h) (auto simp: write_sequence_def fun_eq_iff)

lemma same_but_sequence_trans: "same_but_sequence h g \<Longrightarrow> same_but_sequence g f \<Longrightarrow> same_but_sequence h f"
  by (simp add: same_but_sequence_def)

lemma append_locked_heap:
  assumes "append_locked cd io refs es h db = (h', out)"
  shows "same_but_sequence h h' \<and> (\<forall>r. r \<notin> set refs \<union> entry_ref ` set es \<longrightarrow> h' r = h r)"
proof -
  let ?first = "max_seq (map er_seq (db_events db)) + 1"
  have refl: "same_but_sequence h h" by (simp add: same_but_sequence_def)
  obtain h1 out1 where 1: "append_events cd io refs ?first h db = (h1, out1)" by fastforce
  note heap1 = append_events_heap[OF 1]
  show ?thesis
  proof (cases out1)
    case (Inl err)
    with assms 1 refl heap1 show ?thesis by (auto simp: append_locked_def Let_def split: if_splits)
  next
    case (Inr db1)
    obtain h2 out2 where 2: "append_entries_from cd io ?first es fmempty h1 db1 = (h2, out2)" by fastforce
    note heap2 = append_entries_heap[OF 2]
    from assms 1 2 Inr have "h' = h \<or> h' = h2"
      by (auto simp: append_locked_def Let_def split: if_splits sum.splits)
    with refl heap1 heap2 show ?thesis using same_but_sequence_trans[of h h1 h2] by auto
  qed
qed

text \<open>What a successful append leaves: the rows it added to the world log and to every character log.\<close>

definition batch_appended :: "'b wire_codec \<Rightarrow> heap \<Rightarrow> nat list \<Rightarrow> store_entry list \<Rightarrow> 'b database \<Rightarrow> int \<Rightarrow> 'b database \<Rightarrow> bool" where
  "batch_appended cd h refs es db first db' =
     (first = int (length (db_events db)) + 1 \<and> wf_db db' \<and>
      (\<exists>rows. db_events db' = db_events db @ rows \<and> list_all2 (event_row_of cd) (stamp first (map h refs)) rows) \<and>
      (\<forall>aid. \<exists>rows. character_rows aid db' = character_rows aid db @ rows \<and>
         list_all2 (entry_row_of cd) (entries_for h first aid (int (length (character_rows aid db)) + 1) es) rows))"

lemma append_locked_rows:
  assumes "append_locked cd io refs es h db = (h', Inr (first, db'))" and "wf_db db"
  shows "batch_appended cd h refs es db first db'"
proof -
  have ev: "map er_seq (db_events db) = [1 .. int (length (db_events db))]" and ch: "characters_ok db"
    using assms(2) by (simp_all add: wf_db_def)
  let ?first = "int (length (db_events db)) + 1"
  obtain h1 db1 where 1: "append_events cd io refs ?first h db = (h1, Inr db1)"
    and 2: "append_entries_from cd io ?first es fmempty h1 db1 = (h', Inr db')" and first: "first = ?first"
    using assms(1) by (auto simp: append_locked_def Let_def ev split: if_splits sum.splits prod.splits)
  obtain rows where rows: "db_events db1 = db_events db @ rows" "list_all2 (event_row_of cd) (stamp ?first (map h refs)) rows"
    "db_characters db1 = db_characters db"
    using append_events_rows[OF 1] by auto
  have chars: "character_rows aid db1 = character_rows aid db" for aid by (simp add: character_rows_def rows(3))
  have "characters_ok db1" using ch by (simp add: characters_ok_def chars)
  note entries = append_entries_rows[OF 2 this]
  have same: "entries_for h1 f aid n es = entries_for h f aid n es" for f aid n
  proof -
    have "map (set_sequence 0) (map (\<lambda>e. h1 (entry_ref e)) es) = map (set_sequence 0) (map (\<lambda>e. h (entry_ref e)) es)" for es
      using append_events_heap[OF 1] by (simp add: same_but_sequence_def)
    from stamp_cong[OF this] show ?thesis by (simp add: entries_for_def)
  qed
  have "map er_seq (db_events db1) = [1 .. int (length (db_events db1))]"
    by (rule wf_events_append[OF ev rows(1,2)])
  moreover have "db_events db' = db_events db1" "characters_ok db'" using entries by simp_all
  ultimately have "wf_db db'" by (simp add: wf_db_def)
  moreover have "\<exists>rows. db_events db' = db_events db @ rows \<and> list_all2 (event_row_of cd) (stamp first (map h refs)) rows"
    using entries rows(1,2) first by auto
  moreover have "\<forall>aid. \<exists>rows. character_rows aid db' = character_rows aid db @ rows \<and>
       list_all2 (entry_row_of cd) (entries_for h first aid (int (length (character_rows aid db)) + 1) es) rows"
    using entries by (simp add: chars same first)
  ultimately show ?thesis using first by (simp add: batch_appended_def)
qed

lemma append_events_accepts:
  assumes "\<forall>op. \<not> io op" and "\<forall>e. marshal cd e \<noteq> None" and "\<forall>row \<in> set (db_events db). er_seq row < n"
    and "distinct (map (\<lambda>r. env_event_id (h r)) refs)"
    and "(\<lambda>r. env_event_id (h r)) ` set refs \<inter> er_event_id ` set (db_events db) = {}"
  shows "\<exists>h' db'. append_events cd io refs n h db = (h', Inr db')"
  using assms(3-5)
proof (induction refs arbitrary: n h db)
  case Nil
  then show ?case by simp
next
  case (Cons r rs)
  obtain blob where blob: "marshal cd (set_sequence n (h r)) = Some blob" using assms(2) by fastforce
  let ?h = "write_sequence n r h"
  let ?row = "\<lparr>er_seq = n, er_event_id = env_event_id (h r), er_session_id = env_session_id (h r),
     er_occurred_at = occurred_at (h r), er_payload = blob\<rparr>"
  have ids: "env_event_id (?h q) = env_event_id (h q)" for q by (simp add: write_sequence_def)
  have ins: "insert_event ?row db = Some (db\<lparr>db_events := db_events db @ [?row]\<rparr>)"
    using Cons.prems by (auto simp: insert_event_def)
  have "\<exists>h' db'. append_events cd io rs (n + 1) ?h (db\<lparr>db_events := db_events db @ [?row]\<rparr>) = (h', Inr db')"
    using Cons.prems by (intro Cons.IH) (auto simp: ids)
  with blob ins spec[OF assms(1), of "InsertEvent n"] show ?case by (simp add: Let_def)
qed

lemma append_entries_accepts:
  assumes "\<forall>op. \<not> io op" and "\<forall>e. marshal cd e \<noteq> None" and "characters_ok db"
    and "\<forall>aid n. fmlookup heads aid = Some n \<longrightarrow> n = int (length (character_rows aid db)) + 1"
  shows "\<exists>h' db'. append_entries_from cd io first es heads h db = (h', Inr db')"
  using assms(3,4)
proof (induction es arbitrary: heads h db)
  case Nil
  then show ?case by simp
next
  case (Cons e es)
  let ?aid = "en_actor_id e"
  let ?n = "int (length (character_rows ?aid db)) + 1"
  have n: "(case fmlookup heads ?aid of Some n \<Rightarrow> n | None \<Rightarrow> max_seq (map cr_seq (character_rows ?aid db)) + 1) = ?n"
    using Cons.prems by (auto simp: characters_ok_def split: option.splits)
  let ?env = "set_sequence ?n (h (entry_ref e))"
  obtain blob where blob: "marshal cd ?env = Some blob" using assms(2) by fastforce
  let ?row = "\<lparr>cr_actor_id = ?aid, cr_seq = ?n, cr_world_seq = caused_by first e,
      cr_event_id = env_event_id ?env, cr_occurred_at = occurred_at ?env, cr_payload = blob\<rparr>"
  let ?db = "db\<lparr>db_characters := db_characters db @ [?row]\<rparr>"
  have fresh: "cr_seq row \<noteq> ?n" if "row \<in> set (db_characters db)" "cr_actor_id row = ?aid" for row
  proof -
    have "cr_seq row \<in> set (map cr_seq (character_rows ?aid db))" using that by (auto simp: character_rows_def)
    moreover have "map cr_seq (character_rows ?aid db) = [1 .. int (length (character_rows ?aid db))]"
      using Cons.prems(1) by (simp add: characters_ok_def)
    ultimately have "cr_seq row \<in> set [1 .. int (length (character_rows ?aid db))]" by (simp only:)
    then show ?thesis by simp
  qed
  have "(?aid, ?n) \<notin> (\<lambda>r. (cr_actor_id r, cr_seq r)) ` set (db_characters db)"
  proof
    assume "(?aid, ?n) \<in> (\<lambda>r. (cr_actor_id r, cr_seq r)) ` set (db_characters db)"
    then obtain row where "row \<in> set (db_characters db)" "?aid = cr_actor_id row" "?n = cr_seq row" by auto
    with fresh[of row] show False by simp
  qed
  then have ins: "insert_entry ?row db = Some ?db" by (simp add: insert_entry_def)
  have "characters_ok ?db" using characters_ok_add[OF Cons.prems(1), of ?row] by simp
  moreover have "\<forall>aid n. fmlookup (fmupd ?aid (?n + 1) heads) aid = Some n \<longrightarrow> n = int (length (character_rows aid ?db)) + 1"
    using Cons.prems(2) by (auto simp: character_rows_add)
  ultimately have "\<exists>h' db'. append_entries_from cd io first es (fmupd ?aid (?n + 1) heads)
      (write_sequence ?n (entry_ref e) h) ?db = (h', Inr db')"
    by (rule Cons.IH)
  then show ?case using blob ins spec[OF assms(1), of "InsertEntry ?aid ?n"] spec[OF assms(1), of "ReadCharacterHead ?aid"]
    by (simp only: append_entries_from.simps Let_def n) (simp add: caused_by_def)
qed

lemma append_batch_accepts:
  assumes "\<forall>op. \<not> io op" and "\<forall>e. marshal cd e \<noteq> None" and "wf_db db" and "refs \<noteq> []"
    and "check_envelopes h refs = None" and "check_entries h (length refs) es = None"
    and "distinct (map (\<lambda>r. env_event_id (h r)) refs)"
    and "(\<lambda>r. env_event_id (h r)) ` set refs \<inter> er_event_id ` set (db_events db) = {}"
  shows "\<exists>h' db' first. append_batch cd io refs es h db = (h', db', Inr first)"
proof -
  let ?first = "int (length (db_events db)) + 1"
  have ev: "map er_seq (db_events db) = [1 .. int (length (db_events db))]" and ch: "characters_ok db"
    using assms(3) by (simp_all add: wf_db_def)
  have "er_seq row < ?first" if "row \<in> set (db_events db)" for row
  proof -
    have "er_seq row \<in> set (map er_seq (db_events db))" using that by simp
    then show ?thesis by (simp add: ev)
  qed
  then obtain h1 db1 where 1: "append_events cd io refs ?first h db = (h1, Inr db1)"
    using append_events_accepts[of io cd db ?first h refs] assms by blast
  have "character_rows aid db1 = character_rows aid db" for aid
    using append_events_rows[OF 1] by (simp add: character_rows_def)
  then have "characters_ok db1" using ch by (simp add: characters_ok_def)
  then obtain h2 db2 where 2: "append_entries_from cd io ?first es fmempty h1 db1 = (h2, Inr db2)"
    using append_entries_accepts[of io cd db1 fmempty] assms(1,2) by fastforce
  have "append_locked cd io refs es h db = (h2, Inr (?first, db2))"
    using spec[OF assms(1), of BeginTx] spec[OF assms(1), of ReadHead] spec[OF assms(1), of CommitTx] 1 2
    by (simp add: append_locked_def Let_def ev)
  then show ?thesis using assms(4,5,6) by (simp add: append_batch_def)
qed

lemma append_batch_outcome_spec:
  assumes "wf_db db"
  shows "case append_batch cd io refs es h db of
      (h', db', Inl err) \<Rightarrow> h' = h \<and> db' = db
    | (h', db', Inr first) \<Rightarrow> batch_appended cd h refs es db first db' \<and> same_but_sequence h h'"
proof -
  obtain h1 out where 1: "append_locked cd io refs es h db = (h1, out)" by fastforce
  show ?thesis
  proof (cases out)
    case (Inr r)
    obtain first db' where r: "r = (first, db')" by fastforce
    with 1 Inr have run: "append_locked cd io refs es h db = (h1, Inr (first, db'))" by simp
    from append_locked_rows[OF this assms] append_locked_heap[OF run] run show ?thesis
      by (simp add: append_batch_def split: option.splits)
  next
    case (Inl err)
    have "reset_sequences (refs @ map entry_ref es) h1 = h"
      if "check_envelopes h refs = None" "check_entries h (length refs) es = None"
    proof
      fix r
      have zero: "r \<in> set refs \<union> entry_ref ` set es \<Longrightarrow> env_sequence (h r) = 0"
        using that by (auto simp: check_envelopes_None check_entries_None)
      show "reset_sequences (refs @ map entry_ref es) h1 r = h r"
        using append_locked_heap[OF 1] zero set_sequence_same[of "h r" 0]
        by (auto simp: reset_sequences_eq same_but_sequence_def)
    qed
    with Inl 1 show ?thesis by (auto simp: append_batch_def split: option.splits)
  qed
qed

text \<open>C17: \<open>AppendBatch\<close> is all or nothing. Refused or failed, at whatever statement, it leaves both tables and
  every envelope it was given as they were; and with a database and a codec that work, it is refused only
  by its own checks or for an event id that is taken. Successful, its events stand at the sequences right after the
  last one, in order, each row holding its own stamped envelope; each entry stands at the next
  sequence of its actor's log, with the world sequence of the event that caused it, even where it shares
  that event's envelope; no other row changes, and no field of an envelope but its sequence.\<close>

theorem append_batch_spec:
  assumes "wf_db db"
  shows "(case append_batch cd io refs es h db of
      (h', db', Inl err) \<Rightarrow> h' = h \<and> db' = db
    | (h', db', Inr first) \<Rightarrow> batch_appended cd h refs es db first db' \<and> same_but_sequence h h') \<and>
    ((\<forall>op. \<not> io op) \<and> (\<forall>e. marshal cd e \<noteq> None) \<and> refs \<noteq> [] \<and> check_envelopes h refs = None \<and>
      check_entries h (length refs) es = None \<and> distinct (map (\<lambda>r. env_event_id (h r)) refs) \<and>
      (\<lambda>r. env_event_id (h r)) ` set refs \<inter> er_event_id ` set (db_events db) = {} \<longrightarrow>
      (\<exists>h' db' first. append_batch cd io refs es h db = (h', db', Inr first)))"
proof (rule conjI)
  show "case append_batch cd io refs es h db of
      (h', db', Inl err) \<Rightarrow> h' = h \<and> db' = db
    | (h', db', Inr first) \<Rightarrow> batch_appended cd h refs es db first db' \<and> same_but_sequence h h'"
    by (rule append_batch_outcome_spec[OF assms])
qed (intro impI, elim conjE, rule append_batch_accepts[OF _ _ assms])

text \<open>One event, and an entry for an actor's log that points at the same envelope.\<close>

definition demo_codec :: "envelope wire_codec" where
  "demo_codec = \<lparr>marshal = Some, unmarshal = Some\<rparr>"

definition faultless :: "db_op \<Rightarrow> bool" where
  "faultless op = False"

definition demo_heap :: heap where
  "demo_heap r = (payload_only SessionEnded)\<lparr>env_event_id := ''e1''\<rparr>"

definition shared_entry :: store_entry where
  "shared_entry = \<lparr>en_actor_id = ''a1'', en_cause = 0, en_env = Some 0\<rparr>"

theorem append_batch_spec_witness:
  "\<exists>h' db'. append_batch demo_codec faultless [0] [shared_entry] demo_heap empty_database = (h', db', Inr 1) \<and>
     batch_appended demo_codec demo_heap [0] [shared_entry] empty_database 1 db' \<and> same_but_sequence demo_heap h'"
proof -
  note spec = append_batch_spec[OF wf_empty_database, where cd = demo_codec and io = faultless and refs = "[0]" and es = "[shared_entry]" and h = demo_heap]
  have "\<exists>h' db' first. append_batch demo_codec faultless [0] [shared_entry] demo_heap empty_database = (h', db', Inr first)"
    by (rule spec[THEN conjunct2, THEN mp])
      (simp add: faultless_def demo_codec_def demo_heap_def shared_entry_def entry_ref_def empty_database_def)
  then obtain h' db' first where run: "append_batch demo_codec faultless [0] [shared_entry] demo_heap empty_database = (h', db', Inr first)"
    by blast
  with spec[THEN conjunct1] have "batch_appended demo_codec demo_heap [0] [shared_entry] empty_database first db'"
    "same_but_sequence demo_heap h'" by simp_all
  moreover from this(1) have "first = 1" by (simp add: batch_appended_def empty_database_def)
  ultimately show ?thesis using run by blast
qed

end
