(* ===== verification/Store_Log.thy ===== *)
theory Store_Log
  imports Store_Props
begin

text \<open>
  The store as its client sees it: a log that holds envelopes in order, and a character log per actor.
  \<open>event_log\<close> and its extension \<open>character_logs\<close> state the laws the campaign uses, and prove once what an
  append does to the fold of the log; both are interpreted on the store's model.
\<close>

subsection \<open>The contract\<close>

definition replay :: "envelope list \<Rightarrow> apply_error + state" where
  "replay es = apply_events new_state es"

definition entries_added :: "int \<Rightarrow> string \<Rightarrow> int \<Rightarrow> value_entry list \<Rightarrow> (int \<times> envelope) list" where
  "entries_added first aid n vs =
     (let mine = filter (\<lambda>v. ve_actor_id v = aid) vs
      in zip (map (\<lambda>v. if 0 \<le> ve_cause v then first + ve_cause v else 0) mine) (stamp n (map ve_env mine)))"

locale event_log =
  fixes holds :: "'db \<Rightarrow> envelope list \<Rightarrow> bool"
    and append :: "envelope list \<Rightarrow> value_entry list \<Rightarrow> 'db \<Rightarrow> 'err + (int \<times> 'db \<times> envelope list \<times> envelope list)"
    and read_from :: "int \<Rightarrow> 'db \<Rightarrow> 'err + envelope list"
  assumes numbered: "holds db es \<Longrightarrow> map env_sequence es = [1 .. int (length es)]"
    and append_adds: "holds db es \<Longrightarrow> append envs vs db = Inr (first, db', envs', told) \<Longrightarrow>
        first = int (length es) + 1 \<and> envs' = stamp first envs \<and> holds db' (es @ envs')"
    and reads_back: "holds db es \<Longrightarrow> read_from after db = Inr es' \<Longrightarrow> es' = filter (\<lambda>e. after < env_sequence e) es"
begin

lemma sequence_of: "holds db es \<Longrightarrow> i < length es \<Longrightarrow> env_sequence (es ! i) = int i + 1"
  using numbered[of db es] nth_map[of i es env_sequence] by (simp add: nth_upto)

lemma read_all: "holds db es \<Longrightarrow> read_from 0 db = Inr es' \<Longrightarrow> es' = es"
proof -
  assume held: "holds db es" and read: "read_from 0 db = Inr es'"
  have "\<forall>e \<in> set es. 0 < env_sequence e"
    using sequence_of[OF held] by (auto simp: in_set_conv_nth)
  with reads_back[OF held read] show "es' = es" by (simp add: filter_id_conv)
qed

lemma head_sequence: "holds db es \<Longrightarrow> (if es = [] then 0 else env_sequence (last es)) = int (length es)"
  using sequence_of[of db es "length es - 1"] by (simp add: last_conv_nth)

text \<open>A batch that folds at the sequences after the head still folds once the log holds it.\<close>

lemma append_extends_replay:
  assumes "holds db es" and "replay es = Inr st"
    and "apply_events st (stamp (int (length es) + 1) envs) = Inr st'"
    and "append envs vs db = Inr (first, db', envs', told)"
  shows "holds db' (es @ envs') \<and> replay (es @ envs') = Inr st' \<and> apply_events st envs' = Inr st'"
  using append_adds[OF assms(1,4)] assms(2,3) by (auto simp: replay_def apply_events_def fold_res_append)

end

locale character_logs = event_log holds append read_from
  for holds :: "'db \<Rightarrow> envelope list \<Rightarrow> bool"
    and append :: "envelope list \<Rightarrow> value_entry list \<Rightarrow> 'db \<Rightarrow> 'err + (int \<times> 'db \<times> envelope list \<times> envelope list)"
    and read_from :: "int \<Rightarrow> 'db \<Rightarrow> 'err + envelope list" +
  fixes log_holds :: "'db \<Rightarrow> string \<Rightarrow> (int \<times> envelope) list \<Rightarrow> bool"
    and read_logs :: "'db \<Rightarrow> 'err + (string, character_entry list) fmap"
    and read_log :: "string \<Rightarrow> int \<Rightarrow> 'db \<Rightarrow> 'err + character_entry list"
  assumes log_numbered: "log_holds db aid wes \<Longrightarrow> map (env_sequence \<circ> snd) wes = [1 .. int (length wes)]"
    and append_logs: "holds db es \<Longrightarrow> log_holds db aid wes \<Longrightarrow> append envs vs db = Inr (first, db', envs', told) \<Longrightarrow>
        log_holds db' aid (wes @ entries_added first aid (int (length wes) + 1) vs)"
    and append_tells: "holds db es \<Longrightarrow> log_holds db aid wes \<Longrightarrow> append envs vs db = Inr (first, db', envs', told) \<Longrightarrow>
        map snd (filter (\<lambda>(k, _). k = aid) (zip (map ve_actor_id vs) told)) =
          map snd (entries_added first aid (int (length wes) + 1) vs)"
    and reads_logs: "log_holds db aid wes \<Longrightarrow> read_logs db = Inr logs \<Longrightarrow>
        fmlookup logs aid = (if wes = [] then None
          else Some (map (\<lambda>(w, e). \<lparr>che_world_seq = w, che_env = e\<rparr>) wes))"
    and reads_log: "log_holds db aid wes \<Longrightarrow> read_log aid after db = Inr entries \<Longrightarrow>
        entries = map (\<lambda>(w, e). \<lparr>che_world_seq = w, che_env = e\<rparr>) (filter (\<lambda>(w, e). after < env_sequence e) wes)"
begin

lemma log_read_whole:
  assumes "log_holds db aid wes" and "read_log aid 0 db = Inr entries"
  shows "entries = map (\<lambda>(w, e). \<lparr>che_world_seq = w, che_env = e\<rparr>) wes"
proof -
  have "0 < env_sequence (snd we)" if "we \<in> set wes" for we
  proof -
    have "env_sequence (snd we) \<in> set (map (env_sequence \<circ> snd) wes)" using that by simp
    then show ?thesis by (simp only: log_numbered[OF assms(1)]) simp
  qed
  then have "filter (\<lambda>(w, e). 0 < env_sequence e) wes = wes" by (simp add: filter_id_conv split_beta)
  with reads_log[OF assms] show ?thesis by simp
qed

lemma no_entries_kept:
  assumes "holds db es" "log_holds db aid wes" "append envs vs db = Inr (first, db', envs', told)"
    and "\<forall>v \<in> set vs. ve_actor_id v \<noteq> aid"
  shows "log_holds db' aid wes"
proof -
  have "filter (\<lambda>v. ve_actor_id v = aid) vs = []" using assms(4) by (simp add: filter_empty_conv)
  with append_logs[OF assms(1-3)] show ?thesis by (simp add: entries_added_def)
qed

end

subsection \<open>The store keeps the contract\<close>

definition codec_ok :: "'b wire_codec \<Rightarrow> bool" where
  "codec_ok cd = (\<forall>e b. marshal cd e = Some b \<longrightarrow> unmarshal cd b = Some e)"

definition store_holds :: "'b wire_codec \<Rightarrow> 'b database \<Rightarrow> envelope list \<Rightarrow> bool" where
  "store_holds cd db es = (codec_ok cd \<and> wf_db db \<and> list_all2 (event_row_of cd) es (db_events db))"

definition store_log_holds :: "'b wire_codec \<Rightarrow> 'b database \<Rightarrow> string \<Rightarrow> (int \<times> envelope) list \<Rightarrow> bool" where
  "store_log_holds cd db aid wes =
     (codec_ok cd \<and> wf_db db \<and> list_all2 (entry_row_of cd) wes (character_rows aid db))"

lemma decode_all_rows:
  assumes "codec_ok cd" and "list_all2 (event_row_of cd) es rows"
  shows "decode_all (unmarshal cd) err (map er_payload (filter (\<lambda>r. after < er_seq r) rows)) =
    Inr (filter (\<lambda>e. after < env_sequence e) es)"
  using assms(2) by (induction rule: list_all2_induct) (use assms(1) in \<open>auto simp: event_row_of_def codec_ok_def\<close>)

lemma read_after_holds:
  assumes "store_holds cd db es"
  shows "read_after cd io after db =
    (if io QueryEvents then Inl (ErrDatabase QueryEvents) else Inr (filter (\<lambda>e. after < env_sequence e) es))"
proof -
  have "sorted (map er_seq (db_events db))" using assms by (simp add: store_holds_def wf_db_def)
  then have "sort_key er_seq (filter (\<lambda>r. after < er_seq r) (db_events db)) = filter (\<lambda>r. after < er_seq r) (db_events db)"
    by (simp add: sort_key_id_if_sorted sorted_filter)
  then show ?thesis using assms by (simp add: read_after_def store_holds_def decode_all_rows)
qed

lemma store_holds_numbered:
  assumes "store_holds cd db es"
  shows "map env_sequence es = [1 .. int (length es)]"
proof -
  have "list_all2 (event_row_of cd) es (db_events db)" using assms by (simp add: store_holds_def)
  from list_all2_event_seqs[OF this] list_all2_lengthD[OF this] show ?thesis
    using assms by (simp add: store_holds_def wf_db_def)
qed

lemma list_all2_entry_seqs: "list_all2 (entry_row_of cd) wes rows \<Longrightarrow> map cr_seq rows = map (env_sequence \<circ> snd) wes"
  by (induction rule: list_all2_induct) (simp_all add: entry_row_of_def)

lemma store_log_numbered:
  assumes "store_log_holds cd db aid wes"
  shows "map (env_sequence \<circ> snd) wes = [1 .. int (length wes)]"
proof -
  have "list_all2 (entry_row_of cd) wes (character_rows aid db)" using assms by (simp add: store_log_holds_def)
  from list_all2_entry_seqs[OF this] list_all2_lengthD[OF this] show ?thesis
    using assms by (simp add: store_log_holds_def wf_db_def characters_ok_def)
qed

text \<open>The cells of a call by value.\<close>

lemma cells_of_simps:
  "map en_actor_id (cells_of n vs) = map ve_actor_id vs"
  "map entry_ref (cells_of n vs) = map (\<lambda>i. n + i) [0 ..< length vs]"
  "map en_cause (cells_of n vs) = map ve_cause vs"
  by (induction vs arbitrary: n) (simp_all add: entry_ref_def map_upt_Suc del: upt_Suc)

lemma cells_of_entries:
  assumes "\<forall>i < length vs. h (n + i) = ve_env (vs ! i)"
  shows "entries_for h first aid k (cells_of n vs) = entries_added first aid k vs"
proof -
  have "map h (map entry_ref (filter (\<lambda>e. en_actor_id e = aid) (cells_of n vs))) = map ve_env (filter (\<lambda>v. ve_actor_id v = aid) vs)
     \<and> map (caused_by first) (filter (\<lambda>e. en_actor_id e = aid) (cells_of n vs)) =
       map (\<lambda>v. if 0 \<le> ve_cause v then first + ve_cause v else 0) (filter (\<lambda>v. ve_actor_id v = aid) vs)"
    using assms
  proof (induction vs arbitrary: n)
    case (Cons v vs)
    have "\<forall>i < length vs. h (Suc n + i) = ve_env (vs ! i)" using Cons.prems by auto
    from Cons.IH[OF this] Cons.prems show ?case by (auto simp: entry_ref_def caused_by_def)
  qed simp
  then show ?thesis by (simp add: entries_for_def entries_added_def Let_def comp_def)
qed

text \<open>What an append writes into distinct cells.\<close>

lemma append_events_cells:
  "append_events cd io refs n h db = (h', Inr db') \<Longrightarrow> distinct refs \<Longrightarrow> map h' refs = stamp n (map h refs)"
proof (induction refs arbitrary: n h db)
  case (Cons r rs)
  let ?h = "write_sequence n r h"
  obtain db1 where rest: "append_events cd io rs (n + 1) ?h db1 = (h', Inr db')"
    using Cons.prems(1) by (auto simp: Let_def split: option.splits if_splits)
  have "map ?h rs = map h rs" using Cons.prems(2) by (auto simp: write_sequence_def)
  with Cons.IH[OF rest] Cons.prems(2) append_events_heap[OF rest] show ?case by simp
qed simp

lemma append_entries_cells:
  assumes "append_entries_from cd io first es heads h db = (h', Inr db')" and "characters_ok db"
    and "\<forall>aid n. fmlookup heads aid = Some n \<longrightarrow> n = int (length (character_rows aid db)) + 1"
    and "distinct (map entry_ref es)"
  shows "map (\<lambda>e. h' (entry_ref e)) (filter (\<lambda>e. en_actor_id e = aid) es) =
    stamp (int (length (character_rows aid db)) + 1) (map (\<lambda>e. h (entry_ref e)) (filter (\<lambda>e. en_actor_id e = aid) es))"
  using assms
proof (induction es arbitrary: heads h db)
  case (Cons e es)
  let ?aid = "en_actor_id e" and ?r = "entry_ref e"
  let ?n = "int (length (character_rows ?aid db)) + 1"
  have n: "(case fmlookup heads ?aid of Some n \<Rightarrow> n | None \<Rightarrow> max_seq (map cr_seq (character_rows ?aid db)) + 1) = ?n"
    using Cons.prems(2,3) by (auto simp: characters_ok_def split: option.splits)
  note step = Cons.prems(1)[unfolded append_entries_from.simps Let_def n]
  let ?h = "write_sequence ?n ?r h"
  obtain row where row: "cr_actor_id row = ?aid" "cr_seq row = ?n"
    and rest: "append_entries_from cd io first es (fmupd ?aid (?n + 1) heads) ?h
      (db\<lparr>db_characters := db_characters db @ [row]\<rparr>) = (h', Inr db')"
    using step by (fastforce simp: insert_entry_def split: option.splits if_splits)
  let ?db = "db\<lparr>db_characters := db_characters db @ [row]\<rparr>"
  have ok1: "characters_ok ?db" by (rule characters_ok_add[OF Cons.prems(2)]) (simp add: row)
  have heads: "\<forall>aid n. fmlookup (fmupd ?aid (?n + 1) heads) aid = Some n \<longrightarrow> n = int (length (character_rows aid ?db)) + 1"
    using Cons.prems(3) by (auto simp: character_rows_add row)
  have refs: "distinct (map entry_ref es)" "?r \<notin> entry_ref ` set es" using Cons.prems(4) by auto
  note IH = Cons.IH[OF rest ok1 heads refs(1)]
  have cells: "map (\<lambda>e. ?h (entry_ref e)) (filter (\<lambda>e. en_actor_id e = aid) es) =
      map (\<lambda>e. h (entry_ref e)) (filter (\<lambda>e. en_actor_id e = aid) es)"
    using refs(2) by (auto simp: write_sequence_def) (metis imageI)
  have "h' ?r = set_sequence ?n (h ?r)"
    using append_entries_heap[OF rest] refs(2) by simp
  with IH cells show ?case by (auto simp: character_rows_add row add.commute)
qed simp

text \<open>A successful append by value: the envelopes come back stamped.\<close>

lemma append_values_appended:
  assumes "append_values cd io envs vs db = Inr (first, db', envs', told)" and "wf_db db"
  shows "\<exists>h. batch_appended cd h [0 ..< length envs] (cells_of (length envs) vs) db first db' \<and>
    map h [0 ..< length envs] = envs \<and> (\<forall>i < length vs. h (length envs + i) = ve_env (vs ! i)) \<and>
    envs' = stamp first envs"
proof -
  let ?refs = "[0 ..< length envs]" and ?es = "cells_of (length envs) vs" and ?h = "nth (envs @ map ve_env vs)"
  obtain h' where run: "append_batch cd io ?refs ?es ?h db = (h', db', Inr first)" and out: "envs' = map h' ?refs"
    using assms(1) by (auto simp: append_values_def Let_def split: prod.splits sum.splits)
  have locked: "append_locked cd io ?refs ?es ?h db = (h', Inr (first, db'))"
    using run by (auto simp: append_batch_def split: if_splits option.splits prod.splits sum.splits)
  have batch: "batch_appended cd ?h ?refs ?es db first db'" by (rule append_locked_rows[OF locked assms(2)])
  obtain h1 db1 where 1: "append_events cd io ?refs first ?h db = (h1, Inr db1)"
    and 2: "append_entries_from cd io first ?es fmempty h1 db1 = (h', Inr db')"
    using locked by (auto simp: append_locked_def Let_def split: if_splits sum.splits prod.splits)
  have disjoint: "r \<notin> entry_ref ` set ?es" if "r \<in> set ?refs" for r
  proof -
    have "entry_ref ` set ?es = set (map entry_ref ?es)" by simp
    also have "\<dots> = (\<lambda>i. length envs + i) ` {0 ..< length vs}" by (simp only: cells_of_simps) simp
    finally show ?thesis using that by auto
  qed
  have "map h' ?refs = map h1 ?refs" using append_entries_heap[OF 2] disjoint by simp
  also have "\<dots> = stamp first (map ?h ?refs)" by (rule append_events_cells[OF 1]) simp
  finally have "envs' = stamp first (map ?h ?refs)" by (simp add: out)
  moreover have "map ?h ?refs = envs" by (rule nth_equalityI) (simp_all add: nth_append)
  ultimately show ?thesis using batch by (intro exI[of _ ?h]) (simp add: nth_append)
qed

lemma store_append_adds:
  assumes "store_holds cd db es" and "append_values cd io envs vs db = Inr (first, db', envs', told)"
  shows "first = int (length es) + 1 \<and> envs' = stamp first envs \<and> store_holds cd db' (es @ envs')"
proof -
  have held: "codec_ok cd" "wf_db db" "list_all2 (event_row_of cd) es (db_events db)"
    using assms(1) by (simp_all add: store_holds_def)
  obtain h where "batch_appended cd h [0 ..< length envs] (cells_of (length envs) vs) db first db'"
    "map h [0 ..< length envs] = envs" "envs' = stamp first envs"
    using append_values_appended[OF assms(2) held(2)] by blast
  then obtain rows where "first = int (length (db_events db)) + 1" "wf_db db'"
    "db_events db' = db_events db @ rows" "list_all2 (event_row_of cd) envs' rows" "envs' = stamp first envs"
    by (auto simp: batch_appended_def)
  with held list_all2_lengthD[OF held(3)] show ?thesis by (simp add: store_holds_def list_all2_appendI)
qed

lemma store_append_logs:
  assumes "store_holds cd db es" and "store_log_holds cd db aid wes"
    and "append_values cd io envs vs db = Inr (first, db', envs', told)"
  shows "store_log_holds cd db' aid (wes @ entries_added first aid (int (length wes) + 1) vs)"
proof -
  have held: "codec_ok cd" "wf_db db" "list_all2 (entry_row_of cd) wes (character_rows aid db)"
    using assms(2) by (simp_all add: store_log_holds_def)
  obtain h where h: "batch_appended cd h [0 ..< length envs] (cells_of (length envs) vs) db first db'"
    "\<forall>i < length vs. h (length envs + i) = ve_env (vs ! i)"
    using append_values_appended[OF assms(3) held(2)] by blast
  obtain rows where "wf_db db'" "character_rows aid db' = character_rows aid db @ rows"
    "list_all2 (entry_row_of cd) (entries_for h first aid (int (length (character_rows aid db)) + 1)
       (cells_of (length envs) vs)) rows"
    using h(1) unfolding batch_appended_def by blast
  with held list_all2_lengthD[OF held(3)] cells_of_entries[of vs h, OF h(2)] show ?thesis
    by (simp add: store_log_holds_def list_all2_appendI)
qed

lemma store_append_tells:
  assumes "store_log_holds cd db aid wes" and "append_values cd io envs vs db = Inr (first, db', envs', told)"
  shows "map snd (filter (\<lambda>(k, _). k = aid) (zip (map ve_actor_id vs) told)) =
    map snd (entries_added first aid (int (length wes) + 1) vs)"
proof -
  let ?refs = "[0 ..< length envs]" and ?es = "cells_of (length envs) vs" and ?h = "nth (envs @ map ve_env vs)"
  have held: "wf_db db" "length wes = length (character_rows aid db)"
    using assms(1) by (auto simp: store_log_holds_def dest: list_all2_lengthD)
  obtain h' where run: "append_batch cd io ?refs ?es ?h db = (h', db', Inr first)" and told: "told = map (\<lambda>e. h' (entry_ref e)) ?es"
    using assms(2) by (auto simp: append_values_def Let_def split: prod.splits sum.splits)
  have locked: "append_locked cd io ?refs ?es ?h db = (h', Inr (first, db'))"
    using run by (auto simp: append_batch_def split: if_splits option.splits prod.splits sum.splits)
  obtain h1 db1 where 1: "append_events cd io ?refs first ?h db = (h1, Inr db1)"
    and 2: "append_entries_from cd io first ?es fmempty h1 db1 = (h', Inr db')"
    using locked by (auto simp: append_locked_def Let_def split: if_splits sum.splits prod.splits)
  have rows: "character_rows k db1 = character_rows k db" for k
    using append_events_rows[OF 1] by (simp add: character_rows_def)
  then have ok: "characters_ok db1" using held(1) by (simp add: wf_db_def characters_ok_def)
  have cell: "h1 (length envs + i) = ve_env (vs ! i)" if "i < length vs" for i
    using append_events_heap[OF 1] that by (simp add: nth_append)
  have "distinct (map entry_ref ?es)" by (simp only: cells_of_simps) (simp add: distinct_map)
  from append_entries_cells[OF 2 ok _ this, of aid]
  have stamped: "map (\<lambda>e. h' (entry_ref e)) (filter (\<lambda>e. en_actor_id e = aid) ?es) =
      stamp (int (length wes) + 1) (map (\<lambda>e. h1 (entry_ref e)) (filter (\<lambda>e. en_actor_id e = aid) ?es))"
    by (simp add: rows held(2))
  have envs: "map (\<lambda>e. f (entry_ref e)) (filter (\<lambda>e. en_actor_id e = aid) (cells_of n vs)) =
      map snd (filter (\<lambda>(k, _). k = aid) (zip (map ve_actor_id vs) (map (\<lambda>e. f (entry_ref e)) (cells_of n vs))))" for f n
    by (induction vs arbitrary: n) auto
  have "map (\<lambda>e. h1 (entry_ref e)) (filter (\<lambda>e. en_actor_id e = aid) ?es) = map ve_env (filter (\<lambda>v. ve_actor_id v = aid) vs)"
  proof -
    have "\<forall>i < length vs. h1 (n + i) = ve_env (vs ! i) \<Longrightarrow>
        map (\<lambda>e. h1 (entry_ref e)) (filter (\<lambda>e. en_actor_id e = aid) (cells_of n vs)) =
        map ve_env (filter (\<lambda>v. ve_actor_id v = aid) vs)" for n
    proof (induction vs arbitrary: n)
      case (Cons v vs)
      have "\<forall>i < length vs. h1 (Suc n + i) = ve_env (vs ! i)" using Cons.prems by auto
      from Cons.IH[OF this] Cons.prems show ?case by (auto simp: entry_ref_def)
    qed simp
    then show ?thesis using cell by blast
  qed
  with stamped show ?thesis by (simp add: told envs[symmetric] entries_added_def Let_def)
qed

subsection \<open>Reading every character log\<close>

definition entry_of_row :: "'b wire_codec \<Rightarrow> 'b character_row \<Rightarrow> character_entry" where
  "entry_of_row cd r = \<lparr>che_world_seq = cr_world_seq r, che_env = the (unmarshal cd (cr_payload r))\<rparr>"

lemma read_rows_at:
  assumes "read_rows cd rows out = Inr logs"
  shows "fmlookup logs aid =
    (if filter (\<lambda>r. cr_actor_id r = aid) rows = [] then fmlookup out aid
     else Some ((case fmlookup out aid of None \<Rightarrow> [] | Some l \<Rightarrow> l) @
       map (entry_of_row cd) (filter (\<lambda>r. cr_actor_id r = aid) rows)))"
  using assms
proof (induction rows arbitrary: out)
  case (Cons r rows)
  obtain env where env: "unmarshal cd (cr_payload r) = Some env" using Cons.prems by (auto split: option.splits)
  with Cons.prems have "read_rows cd rows (fmupd (cr_actor_id r)
      ((case fmlookup out (cr_actor_id r) of None \<Rightarrow> [] | Some l \<Rightarrow> l) @ [entry_of_row cd r]) out) = Inr logs"
    by (simp add: entry_of_row_def)
  from Cons.IH[OF this] show ?case by auto
qed simp

lemma sort_constant: "\<forall>x \<in> set xs. f x = c \<Longrightarrow> sort_key f xs = xs"
proof (intro sort_key_id_if_sorted)
  assume "\<forall>x \<in> set xs. f x = c"
  then have "map f xs = replicate (length xs) c" by (induction xs) auto
  then show "sorted (map f xs)" by simp
qed

lemma entries_of_rows:
  "codec_ok cd \<Longrightarrow> list_all2 (entry_row_of cd) wes rows \<Longrightarrow>
     map (entry_of_row cd) rows = map (\<lambda>(w, e). \<lparr>che_world_seq = w, che_env = e\<rparr>) wes"
  by (erule list_all2_induct) (auto simp: entry_row_of_def entry_of_row_def codec_ok_def)

lemma store_reads_logs:
  assumes "store_log_holds cd db aid wes" and "read_character_logs cd io db = Inr logs"
  shows "fmlookup logs aid = (if wes = [] then None
    else Some (map (\<lambda>(w, e). \<lparr>che_world_seq = w, che_env = e\<rparr>) wes))"
proof -
  let ?rows = "character_rows aid db"
  have held: "codec_ok cd" "list_all2 (entry_row_of cd) wes ?rows"
    and "sorted (map cr_seq ?rows)"
    using assms(1) by (simp_all add: store_log_holds_def wf_db_def characters_ok_def)
  then have "filter (\<lambda>r. cr_actor_id r = aid) (sort_key cr_actor_id (sort_key cr_seq (db_characters db))) = ?rows"
    by (simp add: filter_sort sort_key_id_if_sorted sort_constant[where c = aid] flip: character_rows_def)
      (simp add: character_rows_def sort_constant[where c = aid])
  moreover have "read_rows cd (sort_key cr_actor_id (sort_key cr_seq (db_characters db))) fmempty = Inr logs"
    using assms(2) by (simp add: read_character_logs_def split: if_splits)
  ultimately show ?thesis
    using read_rows_at[of cd _ fmempty logs aid] entries_of_rows[OF held] list_all2_lengthD[OF held(2)] by force
qed

lemma entry_rows_filter:
  "list_all2 (entry_row_of cd) wes rows \<Longrightarrow>
     list_all2 (entry_row_of cd) (filter (\<lambda>(w, e). after < env_sequence e) wes) (filter (\<lambda>r. after < cr_seq r) rows)"
  by (induction rule: list_all2_induct) (auto simp: entry_row_of_def)

lemma store_reads_log:
  assumes "store_log_holds cd db aid wes" and "read_character_after cd io aid after db = Inr entries"
  shows "entries = map (\<lambda>(w, e). \<lparr>che_world_seq = w, che_env = e\<rparr>) (filter (\<lambda>(w, e). after < env_sequence e) wes)"
proof -
  let ?rows = "filter (\<lambda>r. after < cr_seq r) (character_rows aid db)"
  have held: "codec_ok cd" "list_all2 (entry_row_of cd) wes (character_rows aid db)"
    and sorted: "sorted (map cr_seq (character_rows aid db))"
    using assms(1) by (simp_all add: store_log_holds_def wf_db_def characters_ok_def)
  have rows: "filter (\<lambda>r. cr_actor_id r = aid \<and> after < cr_seq r) (db_characters db) = ?rows"
    by (simp add: character_rows_def conj_commute)
  moreover have "sort_key cr_seq ?rows = ?rows" using sorted by (simp add: sort_key_id_if_sorted sorted_filter)
  ultimately obtain logs where logs: "read_rows cd ?rows fmempty = Inr logs"
    "entries = (case fmlookup logs aid of None \<Rightarrow> [] | Some l \<Rightarrow> l)"
    using assms(2) by (auto simp: read_character_after_def split: if_splits sum.splits)
  have mine: "filter (\<lambda>r. cr_actor_id r = aid) ?rows = ?rows" by (simp only: filter_id_conv) (auto simp: character_rows_def)
  have "entries = map (entry_of_row cd) ?rows"
    using read_rows_at[OF logs(1), of aid, unfolded mine] by (simp add: logs(2) split: if_splits)
  with entries_of_rows[OF held(1) entry_rows_filter[OF held(2)]] show ?thesis by simp
qed

interpretation sl: event_log "store_holds cd" "append_values cd io" "read_after cd io"
  by unfold_locales
    (auto simp: store_holds_numbered read_after_holds dest: store_append_adds split: if_splits)

interpretation slc: character_logs "store_holds cd" "append_values cd io" "read_after cd io"
    "store_log_holds cd" "read_character_logs cd io" "read_character_after cd io"
  by unfold_locales
    (auto simp: store_log_numbered store_reads_logs store_reads_log store_append_tells intro: store_append_logs)

end
