(* ===== verification/Campaign_Props.thy ===== *)
theory Campaign_Props
  imports Campaign Store_Log Fold_Inv Perceive_Status
begin

text \<open>
  The campaign's invariant and what rests on it. The live state is the fold of the log, and every
  character log's fold the fold of its entries; an append writes all or nothing and never poisons the
  campaign; opening the log again gives the state the campaign had.
\<close>

subsection \<open>Folds\<close>

lemma wf_snapshot: "wf_state st \<Longrightarrow> snapshot st = st"
  by (rule snapshot_id) (auto dest: wf_stateD(1) simp: wf_scene_def)

definition skips_to :: "state \<Rightarrow> envelope list \<Rightarrow> state \<Rightarrow> bool" where
  "skips_to st es st' = (\<exists>obs. fold_events_with (\<lambda>_ _ _. ()) es st () = Inr (st', obs))"

lemma fold_events_iff: "fold_events es = Inr st \<longleftrightarrow> skips_to new_state es st"
  by (auto simp: fold_events_def skips_to_def split: sum.splits) (cases "fold_events_with (\<lambda>_ _ _. ()) es new_state ()"; auto)

lemma skips_to_simps [simp]:
  "skips_to st [] st' \<longleftrightarrow> st' = st"
  "skips_to st (e # es) st' \<longleftrightarrow>
     (case apply_event st e of Inl err \<Rightarrow> err = ErrUnknownVariant \<and> skips_to st es st' | Inr st1 \<Rightarrow> skips_to st1 es st')"
  by (auto simp: skips_to_def split: sum.splits)

lemma skips_to_append: "skips_to st (es @ fs) st' \<longleftrightarrow> (\<exists>st1. skips_to st es st1 \<and> skips_to st1 fs st')"
  by (induction es arbitrary: st) (auto split: sum.splits)

lemma skips_to_apply: "apply_events st es = Inr st' \<Longrightarrow> skips_to st es st'"
  by (induction es arbitrary: st) auto

lemma skips_to_wf: "skips_to st es st' \<Longrightarrow> wf_state st \<Longrightarrow> wf_state st'"
  by (induction es arbitrary: st) (auto split: sum.splits dest: apply_event_wf)

lemma fold_events_wf: "fold_events es = Inr st \<Longrightarrow> wf_state st"
  using skips_to_wf[of new_state es st] by (simp add: fold_events_iff)

lemma fold_events_extend: "fold_events es = Inr st \<Longrightarrow> apply_events st fs = Inr st' \<Longrightarrow> fold_events (es @ fs) = Inr st'"
  by (auto simp: fold_events_iff skips_to_append dest: skips_to_apply)

lemma fold_events_with_state:
  "skips_to st es st' \<longleftrightarrow> (\<exists>obs'. fold_events_with after es st obs = Inr (st', obs'))"
  by (induction es arbitrary: st obs) (auto simp: split: sum.splits)

subsection \<open>Trials\<close>

lemma trial_from_Inr:
  "trial_from st n fs = Inr (st', out) \<Longrightarrow> apply_events st out = Inr st' \<and> out = stamp n fs"
  by (induction fs arbitrary: st n out) (auto simp: Let_def split: sum.splits)

lemma trial_Inr:
  assumes "trial st head fs = Inr (st', out)" and "wf_state st"
  shows "apply_events st out = Inr st' \<and> out = stamp (head + 1) fs"
  using assms trial_from_Inr[of st "head + 1" fs st' out] by (auto simp: trial_def wf_snapshot split: if_splits)

lemma stamp_stamp: "stamp n (stamp m fs) = stamp n fs"
  by (rule stamp_cong) (induction fs arbitrary: m, simp_all)

lemma payload_stamp: "map env_payload (stamp n fs) = map env_payload fs"
  by (induction fs arbitrary: n) simp_all

lemma stamp_entries: "stamp n (map (set_sequence 0) fs) = stamp n fs"
  by (rule stamp_cong) simp

lemma entries_added_append:
  "entries_added first aid n (vs @ us) = entries_added first aid n vs @
     entries_added first aid (n + int (length (entries_added first aid n vs))) us"
  by (simp add: entries_added_def Let_def stamp_append)

lemma entries_added_Cons:
  "entries_added first aid n (v # vs) =
     (if ve_actor_id v = aid
      then (if 0 \<le> ve_cause v then first + ve_cause v else 0, set_sequence n (ve_env v)) # entries_added first aid (n + 1) vs
      else entries_added first aid n vs)"
  by (simp add: entries_added_def Let_def)

lemma entries_added_of:
  "entries_added first aid n (entries_of bid cause fs) =
     (if bid = aid then map (Pair (if 0 \<le> cause then first + cause else 0)) (stamp n fs) else [])"
proof (induction fs arbitrary: n)
  case Nil
  then show ?case by (simp add: entries_of_def entries_added_def)
next
  case (Cons f fs)
  have "entries_of bid cause (f # fs) =
      \<lparr>ve_actor_id = bid, ve_cause = cause, ve_env = set_sequence 0 f\<rparr> # entries_of bid cause fs"
    by (simp add: entries_of_def)
  with Cons show ?case by (auto simp: entries_added_Cons)
qed

lemma entries_added_more:
  assumes "stamp (int (length (W @ entries_added first aid (int (length W) + 1) vs)) + 1) out = out"
  shows "W @ entries_added first aid (int (length W) + 1) (vs @ entries_of aid c out) =
    (W @ entries_added first aid (int (length W) + 1) vs) @ map (Pair (if 0 \<le> c then first + c else 0)) out"
  using assms by (simp add: entries_added_append entries_added_of algebra_simps)

subsection \<open>The fan-out\<close>

definition caused_of :: "(int \<times> envelope) list \<Rightarrow> caused_entry list" where
  "caused_of wes = concat (map (\<lambda>(w, e). record_caused w [e]) wes)"

lemma caused_of_append [simp]: "caused_of (xs @ ys) = caused_of xs @ caused_of ys"
  by (simp add: caused_of_def)

lemma caused_of_pairs: "caused_of (map (Pair w) es) = record_caused w es"
  by (induction es) (auto simp: caused_of_def record_caused_def)

definition log_matches :: "(int \<times> envelope) list \<Rightarrow> character_log option \<Rightarrow> bool" where
  "log_matches wes lo =
     (case lo of
        None \<Rightarrow> wes = []
      | Some l \<Rightarrow> fold_events (map snd wes) = Inr (cl_fold l) \<and> cl_head l = int (length wes) \<and> cl_caused l = caused_of wes)"

lemma log_matches_head: "log_matches wes (Some l) \<Longrightarrow> cl_head l = int (length wes)"
  by (simp add: log_matches_def)

lemma log_matches_irrelevant [simp]:
  "log_matches wes (Some (l\<lparr>cl_decision := d\<rparr>)) = log_matches wes (Some l)"
  "log_matches wes (Some (l\<lparr>cl_resumes := r, cl_decision := d\<rparr>)) = log_matches wes (Some l)"
  by (simp_all add: log_matches_def)

lemma new_log_matches [simp]: "log_matches [] (Some new_log)"
  by (simp add: log_matches_def new_log_def fold_events_iff caused_of_def)

lemma log_matches_extend:
  assumes "log_matches wes (Some l)" and "trial (cl_fold l) (cl_head l) fs = Inr (st', out)"
  shows "log_matches (wes @ map (Pair w) out)
     (Some (l\<lparr>cl_fold := st', cl_head := cl_head l + int (length out), cl_caused := cl_caused l @ record_caused w out\<rparr>))"
proof -
  have m: "fold_events (map snd wes) = Inr (cl_fold l)" "cl_head l = int (length wes)" "cl_caused l = caused_of wes"
    using assms(1) by (simp_all add: log_matches_def)
  from trial_Inr[OF assms(2) fold_events_wf[OF m(1)]] m(2)
  have out: "apply_events (cl_fold l) out = Inr st'" "out = stamp (int (length wes) + 1) fs" by auto
  from fold_events_extend[OF m(1) out(1)] show ?thesis
    by (simp add: log_matches_def m caused_of_pairs comp_def)
qed

definition logs_match :: "int \<Rightarrow> (string \<Rightarrow> (int \<times> envelope) list) \<Rightarrow> fan_state \<Rightarrow> bool" where
  "logs_match first wes acc =
     (\<forall>aid. log_matches (wes aid @ entries_added first aid (int (length (wes aid)) + 1) (fst acc)) (fmlookup (fst (snd acc)) aid))"

lemma logs_matchI:
  assumes "logs_match first wes (entries, logs, d)"
    and "\<And>k. k \<noteq> aid \<Longrightarrow> fmlookup logs' k = fmlookup logs k"
    and "\<And>k. k \<noteq> aid \<Longrightarrow> entries_added first k (int (length (wes k)) + 1) entries' =
           entries_added first k (int (length (wes k)) + 1) entries"
    and "log_matches (wes aid @ entries_added first aid (int (length (wes aid)) + 1) entries') (fmlookup logs' aid)"
  shows "logs_match first wes (entries', logs', d')"
  unfolding logs_match_def
proof
  fix k
  show "log_matches (wes k @ entries_added first k (int (length (wes k)) + 1) (fst (entries', logs', d')))
      (fmlookup (fst (snd (entries', logs', d'))) k)"
    using assms by (cases "k = aid") (simp_all add: logs_match_def)
qed

lemma fan_out_actor_matches:
  assumes "logs_match first wes acc" and "env_sequence ev = first + int i" and "0 < first"
  shows "logs_match first wes (fan_out_actor i ev prior world aid acc)"
proof -
  obtain entries logs d where acc: "acc = (entries, logs, d)" by (cases acc) auto
  let ?n = "int (length (wes aid)) + 1"
  let ?W = "wes aid @ entries_added first aid ?n entries"
  have start: "logs_match first wes (entries, logs, d)" using assms(1) acc by simp
  have W: "log_matches ?W (fmlookup logs aid)" using start by (simp add: logs_match_def)
  note keep = logs_matchI[OF start, where aid = aid and entries' = entries]
  show ?thesis
  proof (cases "party_member_in world aid")
    case False
    show ?thesis
    proof (cases "fmlookup logs aid")
      case None
      with False start show ?thesis by (simp add: fan_out_actor_def acc)
    next
      case (Some l)
      with W have "log_matches ?W (Some (l\<lparr>cl_decision := None\<rparr>))" by simp
      with False Some show ?thesis by (simp add: fan_out_actor_def acc keep)
    qed
  next
    case True
    obtain l pr lead where lead: "lead_of aid ev prior logs = (l, pr, lead)" by (cases "lead_of aid ev prior logs") auto
    have l: "log_matches ?W (Some l)"
      using lead W by (auto simp: lead_of_def log_matches_def split: option.splits) (simp_all add: new_log_def fold_events_iff caused_of_def)
    show ?thesis
    proof (cases "trial (cl_fold l) (cl_head l) lead")
      case (Inl err)
      have "cl_head l = 0 \<Longrightarrow> length ?W = 0" using log_matches_head[OF l] by linarith
      then have "cl_head l = 0 \<Longrightarrow> ?W = []" by (simp only: length_0_conv)
      then have "cl_head l = 0 \<Longrightarrow> log_matches ?W None" by (simp only: log_matches_def option.case)
      with True lead Inl l show ?thesis by (simp add: fan_out_actor_def acc keep)
    next
      case (Inr r)
      obtain fold1 out1 where 1: "trial (cl_fold l) (cl_head l) lead = Inr (fold1, out1)" using Inr by (cases r) auto
      let ?l1 = "l\<lparr>cl_fold := fold1, cl_head := cl_head l + int (length out1)\<rparr>"
      let ?e1 = "entries @ entries_of aid (- 1) out1"
      let ?W1 = "wes aid @ entries_added first aid ?n ?e1"
      have out1: "out1 = stamp (int (length ?W) + 1) lead"
        using trial_Inr[OF 1] l fold_events_wf by (auto simp: log_matches_def)
      have "stamp (int (length ?W) + 1) out1 = out1"
        by (simp add: out1 stamp_stamp)
      then have W1: "?W1 = ?W @ map (Pair 0) out1"
        using entries_added_more[of "wes aid" first aid entries out1 "- 1"] by simp
      have l1: "log_matches ?W1 (Some ?l1)"
        using log_matches_extend[OF l 1, of 0] by (simp add: W1 record_caused_def)
      obtain frames pr2 where ev: "project_event (eyes_of aid) ev fold1 world pr = (frames, pr2)" by fastforce
      let ?fs = "reanchor ?l1 frames"
      have other1: "k \<noteq> aid \<Longrightarrow> entries_added first k n (entries @ entries_of aid c out) = entries_added first k n entries" for k n c out
        by (simp add: entries_added_append entries_added_of)
      show ?thesis
      proof (cases "trial fold1 (cl_head ?l1) ?fs")
        case (Inl err)
        have "logs_match first wes (?e1, fmupd aid (?l1\<lparr>cl_decision := Some (resume (eyes_of aid) fold1 world)\<rparr>) logs, Suc d)"
          by (rule logs_matchI[OF start, where aid = aid]) (use l1 in \<open>simp_all add: other1\<close>)
        with True lead 1 Inl ev show ?thesis by (simp add: fan_out_actor_def acc Let_def)
      next
        case (Inr r)
        obtain fold2 out2 where 2: "trial fold1 (cl_head ?l1) ?fs = Inr (fold2, out2)" using Inr by (cases r) auto
        let ?e2 = "?e1 @ entries_of aid (int i) out2"
        let ?l2 = "?l1\<lparr>cl_decision := Some pr2, cl_caused := cl_caused ?l1 @ record_caused (env_sequence ev) out2,
          cl_fold := fold2, cl_head := cl_head ?l1 + int (length out2)\<rparr>"
        have out2: "out2 = stamp (int (length ?W1) + 1) ?fs"
          using trial_Inr[of fold1 "cl_head ?l1" ?fs] 2 l1 fold_events_wf by (auto simp: log_matches_def)
        have "stamp (int (length ?W1) + 1) out2 = out2" by (simp add: out2 stamp_stamp)
        then have W2: "wes aid @ entries_added first aid ?n ?e2 = ?W1 @ map (Pair (env_sequence ev)) out2"
          using entries_added_more[of "wes aid" first aid ?e1 out2 "int i"] assms(2) by simp
        have l2: "?l2 = (?l1\<lparr>cl_fold := fold2, cl_head := cl_head ?l1 + int (length out2),
            cl_caused := cl_caused ?l1 @ record_caused (env_sequence ev) out2\<rparr>)\<lparr>cl_decision := Some pr2\<rparr>"
          by simp
        have "trial (cl_fold ?l1) (cl_head ?l1) ?fs = Inr (fold2, out2)" using 2 by simp
        from log_matches_extend[OF l1 this, of "env_sequence ev"]
        have "log_matches (wes aid @ entries_added first aid ?n ?e2) (Some ?l2)"
          by (simp only: W2 l2 log_matches_irrelevant)
        then have "logs_match first wes (?e2, fmupd aid ?l2 logs, d)"
          by (intro logs_matchI[OF start, where aid = aid]) (simp_all add: entries_added_append entries_added_of)
        with True lead 1 2 ev show ?thesis by (simp add: fan_out_actor_def acc Let_def)
      qed
    qed
  qed
qed

lemma fan_out_fold_matches:
  assumes "logs_match first wes acc" and "env_sequence ev = first + int i" and "0 < first"
  shows "logs_match first wes (fold (fan_out_actor i ev prior world) aids acc)"
  using assms(1) by (induction aids arbitrary: acc) (simp_all add: fan_out_actor_matches assms(2,3))

text \<open>The fan-out of a batch that folds never diverges, and keeps every log matched to its entries.\<close>

lemma fan_out_from_matches:
  assumes "apply_events world (stamp (head + int i + 1) envs) = Inr world'"
    and "logs_match (head + 1) wes acc" and "0 \<le> head"
  shows "\<exists>acc'. fan_out_from head i envs world acc = Inr acc' \<and> logs_match (head + 1) wes acc'"
  using assms(1,2)
proof (induction envs arbitrary: world i acc)
  case (Cons env envs)
  let ?ev = "set_sequence (head + int i + 1) env"
  obtain w1 where w1: "apply_event world ?ev = Inr w1" "apply_events w1 (stamp (head + int (Suc i) + 1) envs) = Inr world'"
    using Cons.prems(1) by (auto simp: algebra_simps)
  have "logs_match (head + 1) wes (fold (fan_out_actor i ?ev (snapshot world) w1) (log_ids (fst (snd acc)) w1) acc)"
    using Cons.prems(2) assms(3) by (intro fan_out_fold_matches) simp_all
  from Cons.IH[OF w1(2) this] w1(1) show ?case by (simp add: Let_def)
qed simp

subsection \<open>Validation\<close>

lemma stamp_session_payload: "stamp_session rnd st env = Inr env' \<Longrightarrow> env_payload env' = env_payload env"
  by (auto simp: stamp_session_def split: if_splits option.splits)

lemma validate_from_folds:
  "validate_from rnd head i envs st = Inr envs' \<Longrightarrow>
     \<exists>st'. apply_events st (stamp (head + int i + 1) envs') = Inr st' \<and> map env_payload envs' = map env_payload envs"
proof (induction envs arbitrary: i st envs')
  case (Cons env envs)
  obtain e1 where e1: "stamp_session (rnd i) st env = Inr e1" using Cons.prems by (auto split: sum.splits)
  obtain st1 where st1: "apply_event st (set_sequence (head + int i + 1) e1) = Inr st1"
    using Cons.prems e1 by (auto split: sum.splits)
  obtain rest where rest: "validate_from rnd head (Suc i) envs st1 = Inr rest" "envs' = e1 # rest"
    using Cons.prems e1 st1 by (auto split: sum.splits)
  from Cons.IH[OF rest(1)] obtain st' where "apply_events st1 (stamp (head + int (Suc i) + 1) rest) = Inr st'"
    "map env_payload rest = map env_payload envs" by blast
  with st1 rest(2) stamp_session_payload[OF e1] show ?case by (simp add: algebra_simps)
qed simp

subsection \<open>The invariant\<close>

definition campaign_holds :: "'b wire_codec \<Rightarrow> 'b campaign \<Rightarrow> envelope list \<Rightarrow> (string \<Rightarrow> (int \<times> envelope) list) \<Rightarrow> bool" where
  "campaign_holds cd c es wes =
     (store_holds cd (cp_db c) es \<and> (\<forall>aid. store_log_holds cd (cp_db c) aid (wes aid)) \<and>
      \<not> cp_poisoned c \<and> cp_head c = int (length es) \<and> fold_events es = Inr (cp_state c) \<and>
      (\<forall>aid. log_matches (wes aid) (fmlookup (cp_logs c) aid)))"

lemma restart_decisions_holds:
  assumes "campaign_holds cd c es wes"
  shows "campaign_holds cd (restart_decisions c) es wes"
proof -
  have "log_matches (wes aid) (fmlookup (cp_logs (restart_decisions c)) aid)" for aid
  proof -
    have "log_matches (wes aid) (fmlookup (cp_logs c) aid)" using assms by (simp add: campaign_holds_def)
    then show ?thesis
      by (cases "fmlookup (cp_logs c) aid") (simp_all add: restart_decisions_def split: option.splits)
  qed
  with assms show ?thesis by (simp add: campaign_holds_def restart_decisions_def)
qed

lemma restart_decisions_simps [simp]:
  "cp_db (restart_decisions c) = cp_db c" "cp_state (restart_decisions c) = cp_state c"
  "cp_head (restart_decisions c) = cp_head c" "cp_poisoned (restart_decisions c) = cp_poisoned c"
  by (simp_all add: restart_decisions_def)

text \<open>An append either changes nothing that is stored or shown, or extends the log and its fold by the batch.\<close>

definition append_outcome :: "'b wire_codec \<Rightarrow> 'b campaign \<Rightarrow> envelope list \<Rightarrow> (string \<Rightarrow> (int \<times> envelope) list) \<Rightarrow>
    envelope list \<Rightarrow> 'b campaign \<times> (campaign_error + int) \<times> notices \<Rightarrow> bool" where
  "append_outcome cd c es wes envs out =
     (case out of
        (c', Inl err, told) \<Rightarrow>
          campaign_holds cd c' es wes \<and> cp_db c' = cp_db c \<and> cp_state c' = cp_state c \<and> told = ([], [])
      | (c', Inr first, world, entries) \<Rightarrow>
          first = int (length es) + 1 \<and> map env_payload world = map env_payload envs \<and>
          apply_events (cp_state c) world = Inr (cp_state c') \<and>
          (\<exists>more. campaign_holds cd c' (es @ world) (\<lambda>aid. wes aid @ more aid)))"

lemma append_locked_outcome:
  assumes "campaign_holds cd c es wes"
  shows "append_outcome cd c es wes envs (append_locked_campaign cd io rnd envs c)"
proof -
  have held: "store_holds cd (cp_db c) es" "\<And>aid. store_log_holds cd (cp_db c) aid (wes aid)"
    "\<not> cp_poisoned c" "cp_head c = int (length es)" "fold_events es = Inr (cp_state c)"
    "\<And>aid. log_matches (wes aid) (fmlookup (cp_logs c) aid)"
    using assms by (simp_all add: campaign_holds_def)
  note snap = wf_snapshot[OF fold_events_wf[OF held(5)]]
  have refused: "append_outcome cd c es wes envs (c, Inl err, ([], []))" for err
    using assms by (simp add: append_outcome_def)
  have restarted: "append_outcome cd c es wes envs (restart_decisions c, Inl err, ([], []))" for err
    using restart_decisions_holds[OF assms] by (simp add: append_outcome_def)
  show ?thesis
  proof (cases "list_ex (\<lambda>env. env_payload env = None) envs")
    case True
    with refused show ?thesis by (simp add: append_locked_campaign_def)
  next
    case unknown: False
    show ?thesis
    proof (cases "validate_from rnd (cp_head c) 0 envs (snapshot (cp_state c))")
      case (Inl err)
      with unknown refused show ?thesis by (simp add: append_locked_campaign_def)
    next
      case valid: (Inr envs1)
      obtain st' where st': "apply_events (cp_state c) (stamp (int (length es) + 1) envs1) = Inr st'"
        and payloads: "map env_payload envs1 = map env_payload envs"
        using validate_from_folds[OF valid] by (auto simp: snap held(4))
      have "logs_match (cp_head c + 1) wes ([], cp_logs c, 0)"
        using held(6) by (simp add: logs_match_def entries_added_def)
      then obtain entries logs dropped where fan: "fan_out envs1 c = Inr (entries, logs, dropped)"
        "logs_match (cp_head c + 1) wes (entries, logs, dropped)"
        using fan_out_from_matches[of "cp_state c" "cp_head c" 0 envs1 st' wes "([], cp_logs c, 0)"] st' held(4)
        by (auto simp: fan_out_def snap)
      show ?thesis
      proof (cases "append_values cd io envs1 entries (cp_db c)")
        case (Inl err)
        with unknown valid fan restarted show ?thesis by (simp add: append_locked_campaign_def)
      next
        case (Inr r)
        obtain first db envs2 told where app: "append_values cd io envs1 entries (cp_db c) = Inr (first, db, envs2, told)"
          using Inr by (cases r) auto
        have added: "first = int (length es) + 1" "envs2 = stamp first envs1" "store_holds cd db (es @ envs2)"
          using sl.append_adds[OF held(1) app] by auto
        have live: "apply_events (cp_state c) envs2 = Inr st'" using st' added(1,2) by simp
        let ?more = "\<lambda>aid. entries_added first aid (int (length (wes aid)) + 1) entries"
        have "store_log_holds cd db aid (wes aid @ ?more aid)" for aid
          by (rule slc.append_logs[OF held(1,2) app])
        moreover have "log_matches (wes aid @ ?more aid) (fmlookup logs aid)" for aid
          using fan(2) held(4) added(1) by (simp add: logs_match_def)
        moreover have "fold_events (es @ envs2) = Inr st'" by (rule fold_events_extend[OF held(5) live])
        ultimately have after: "campaign_holds cd (wake_watches (c\<lparr>cp_db := db, cp_head := first + int (length envs2) - 1, cp_logs := logs,
            cp_discarded := cp_discarded c + dropped, cp_state := st'\<rparr>)) (es @ envs2) (\<lambda>aid. wes aid @ ?more aid)"
          using held(3) added by (simp add: campaign_holds_def wake_watches_def)
        have "map env_payload envs2 = map env_payload envs"
          using payloads by (simp add: added(2) payload_stamp)
        moreover note exI[of "\<lambda>more. campaign_holds cd _ _ (\<lambda>aid. wes aid @ more aid)" ?more, OF after]
        ultimately show ?thesis
          using unknown valid fan(1) app live added(1)
          by (simp add: append_locked_campaign_def append_outcome_def Let_def wake_watches_def)
      qed
    qed
  qed
qed

subsection \<open>Open\<close>

lemma read_rows_ok: "\<forall>r \<in> set rows. unmarshal cd (cr_payload r) \<noteq> None \<Longrightarrow> \<exists>logs. read_rows cd rows out = Inr logs"
  by (induction rows arbitrary: out) auto

lemma rows_decode:
  assumes "\<And>aid. store_log_holds cd db aid (wes aid)" and r: "r \<in> set (db_characters db)"
  shows "unmarshal cd (cr_payload r) \<noteq> None"
proof -
  have held: "codec_ok cd" "list_all2 (entry_row_of cd) (wes (cr_actor_id r)) (character_rows (cr_actor_id r) db)"
    using assms(1)[of "cr_actor_id r"] by (simp_all add: store_log_holds_def)
  have "r \<in> set (character_rows (cr_actor_id r) db)" using r by (simp add: character_rows_def)
  with held(2) obtain we where "entry_row_of cd we r"
    by (metis in_set_conv_nth list_all2_conv_all_nth)
  with held(1) show ?thesis by (auto simp: entry_row_of_def codec_ok_def)
qed

lemma read_logs_ok:
  assumes "\<And>aid. store_log_holds cd db aid (wes aid)"
  shows "\<not> io QueryEntries \<Longrightarrow> \<exists>logs. read_character_logs cd io db = Inr logs"
    and "\<not> io QueryEntries \<Longrightarrow> \<exists>es. read_character_after cd io aid after db = Inr es"
proof -
  have ok: "\<exists>logs. read_rows cd rows fmempty = Inr logs" if "set rows \<subseteq> set (db_characters db)" for rows
    using rows_decode[OF assms] that by (intro read_rows_ok) blast
  show "\<not> io QueryEntries \<Longrightarrow> \<exists>logs. read_character_logs cd io db = Inr logs"
    using ok by (simp add: read_character_logs_def)
  let ?rows = "sort_key cr_seq (filter (\<lambda>r. cr_actor_id r = aid \<and> after < cr_seq r) (db_characters db))"
  obtain logs where "read_rows cd ?rows fmempty = Inr logs" using ok[of ?rows] by auto
  then show "\<not> io QueryEntries \<Longrightarrow> \<exists>es. read_character_after cd io aid after db = Inr es"
    by (simp add: read_character_after_def)
qed

lemma load_logs_ok:
  assumes "\<forall>aid \<in> set aids. \<exists>es st. fmlookup stored aid = Some es \<and> fold_events (map che_env es) = Inr st"
  shows "\<exists>logs'. load_logs stored resumed world aids logs = Inr logs' \<and>
    (\<forall>aid. aid \<notin> set aids \<longrightarrow> fmlookup logs' aid = fmlookup logs aid) \<and>
    (\<forall>aid \<in> set aids. \<exists>es st r d. fmlookup stored aid = Some es \<and> fold_events (map che_env es) = Inr st \<and>
       fmlookup logs' aid = Some (log_of_entries es st r d))"
  using assms
proof (induction aids arbitrary: logs)
  case (Cons aid aids)
  obtain es st where es: "fmlookup stored aid = Some es" "fold_events (map che_env es) = Inr st" using Cons.prems by auto
  let ?r = "case fmlookup resumed aid of None \<Rightarrow> [] | Some l \<Rightarrow> l"
  let ?d = "if party_member_in world aid then Some (resume (eyes_of aid) st world) else None"
  let ?logs = "fmupd aid (log_of_entries es st ?r ?d) logs"
  have rest: "\<forall>k \<in> set aids. \<exists>es st. fmlookup stored k = Some es \<and> fold_events (map che_env es) = Inr st"
    using Cons.prems by simp
  obtain logs' where logs': "load_logs stored resumed world aids ?logs = Inr logs'"
    "\<forall>k. k \<notin> set aids \<longrightarrow> fmlookup logs' k = fmlookup ?logs k"
    "\<forall>k \<in> set aids. \<exists>es st r d. fmlookup stored k = Some es \<and> fold_events (map che_env es) = Inr st \<and>
       fmlookup logs' k = Some (log_of_entries es st r d)"
    using Cons.IH[OF rest, of ?logs] by blast
  have step: "load_logs stored resumed world (aid # aids) logs = Inr logs'" using es logs'(1) by (simp add: Let_def)
  have head: "\<exists>es st r d. fmlookup stored aid = Some es \<and> fold_events (map che_env es) = Inr st \<and>
       fmlookup logs' aid = Some (log_of_entries es st r d)"
  proof (cases "aid \<in> set aids")
    case True
    then show ?thesis using logs'(3) by simp
  next
    case False
    then have "fmlookup logs' aid = Some (log_of_entries es st ?r ?d)" using logs'(2) by simp
    with es show ?thesis by blast
  qed
  show ?case
  proof (intro exI[of _ logs'] conjI ballI allI impI)
    fix k assume "k \<in> set (aid # aids)"
    then show "\<exists>es st r d. fmlookup stored k = Some es \<and> fold_events (map che_env es) = Inr st \<and>
       fmlookup logs' k = Some (log_of_entries es st r d)"
      using head logs'(3) by auto
  qed (use step logs'(2) in auto)
qed simp

lemma loaded_log_matches:
  assumes "map (env_sequence \<circ> snd) wes = [1 .. int (length wes)]" and "wes \<noteq> []"
    and "fold_events (map snd wes) = Inr st"
  shows "log_matches wes (Some (log_of_entries (map (\<lambda>(w, e). \<lparr>che_world_seq = w, che_env = e\<rparr>) wes) st r d))"
proof -
  have "last (map (env_sequence \<circ> snd) wes) = int (length wes)"
    using assms(2) unfolding assms(1) by (simp add: last_conv_nth nth_upto Suc_leI)
  then have "env_sequence (snd (last wes)) = int (length wes)" using assms(2) by (simp add: last_map)
  moreover have "caused_of wes = concat (map (\<lambda>e. record_caused (che_world_seq e) [che_env e])
      (map (\<lambda>(w, e). \<lparr>che_world_seq = w, che_env = e\<rparr>) wes))"
    unfolding caused_of_def map_map by (intro arg_cong[where f = concat] map_cong) auto
  ultimately show ?thesis using assms(2,3)
    by (simp add: log_matches_def log_of_entries_def last_map split_beta)
qed

lemma rebuild_holds:
  assumes "campaign_holds cd c es wes" and "\<not> io QueryEvents" and "\<not> io QueryEntries"
  shows "\<exists>c'. rebuild cd io (cp_db c) = Inr c' \<and> campaign_holds cd c' es wes \<and> cp_db c' = cp_db c"
proof -
  have held: "store_holds cd (cp_db c) es" "\<And>aid. store_log_holds cd (cp_db c) aid (wes aid)"
    "fold_events es = Inr (cp_state c)" "\<And>aid. log_matches (wes aid) (fmlookup (cp_logs c) aid)"
    using assms(1) by (simp_all add: campaign_holds_def)
  obtain es' where "read_after cd io 0 (cp_db c) = Inr es'" using read_after_holds[OF held(1)] assms(2) by simp
  with sl.read_all[OF held(1)] have events: "read_after cd io 0 (cp_db c) = Inr es" by metis
  obtain stored where stored: "read_character_logs cd io (cp_db c) = Inr stored"
    using read_logs_ok(1)[of cd "cp_db c" wes io] held(2) assms(3) by blast
  note at = slc.reads_logs[OF held(2) stored]
  obtain scan where scan: "fold_events_with observe es new_state (resumes_of (keys stored)) = Inr (cp_state c, scan)"
    using held(3) fold_events_with_state[of new_state es "cp_state c" observe] by (auto simp: fold_events_iff)
  have che: "map che_env (map (\<lambda>(w, e). \<lparr>che_world_seq = w, che_env = e\<rparr>) wes') = map snd wes'" for wes'
    by (simp add: comp_def split_beta)
  have fold: "fold_events (map snd (wes aid)) = Inr (cl_fold (the (fmlookup (cp_logs c) aid)))" if "wes aid \<noteq> []" for aid
    using held(4)[of aid] that by (auto simp: log_matches_def split: option.splits)
  have "\<forall>aid \<in> set (keys stored). \<exists>es st. fmlookup stored aid = Some es \<and> fold_events (map che_env es) = Inr st"
  proof
    fix aid assume "aid \<in> set (keys stored)"
    then have some: "wes aid \<noteq> []" using at[of aid] by (auto simp: fmlookup_dom'_iff)
    then have "fmlookup stored aid = Some (map (\<lambda>(w, e). \<lparr>che_world_seq = w, che_env = e\<rparr>) (wes aid))" using at by simp
    moreover note fold[OF some, unfolded che[symmetric]]
    ultimately show "\<exists>es st. fmlookup stored aid = Some es \<and> fold_events (map che_env es) = Inr st" by blast
  qed
  from load_logs_ok[OF this, of "rs_at scan" "cp_state c" fmempty]
  obtain logs where logs: "load_logs stored (rs_at scan) (cp_state c) (keys stored) fmempty = Inr logs"
    "\<forall>aid. aid \<notin> set (keys stored) \<longrightarrow> fmlookup logs aid = None"
    "\<forall>aid \<in> set (keys stored). \<exists>es st r d. fmlookup stored aid = Some es \<and> fold_events (map che_env es) = Inr st \<and>
       fmlookup logs aid = Some (log_of_entries es st r d)"
    by auto
  have "log_matches (wes aid) (fmlookup logs aid)" for aid
  proof (cases "wes aid = []")
    case True
    then have "aid \<notin> set (keys stored)" using at[of aid] by (simp add: fmlookup_dom'_iff)
    with logs(2) True show ?thesis by (simp add: log_matches_def)
  next
    case False
    let ?es = "map (\<lambda>(w, e). \<lparr>che_world_seq = w, che_env = e\<rparr>) (wes aid)"
    have here: "fmlookup stored aid = Some ?es" using at[of aid] False by simp
    then have "aid \<in> set (keys stored)" by (simp add: fmlookup_dom'_iff)
    with logs(3) here obtain st r d where "fold_events (map che_env ?es) = Inr st"
      "fmlookup logs aid = Some (log_of_entries ?es st r d)" by fastforce
    with loaded_log_matches[OF slc.log_numbered[OF held(2)] False] show ?thesis by (simp only: che)
  qed
  moreover have "rebuild cd io (cp_db c) = Inr \<lparr>cp_db = cp_db c, cp_state = cp_state c,
      cp_head = (if es = [] then 0 else env_sequence (last es)), cp_poisoned = False, cp_logs = logs, cp_discarded = 0,
      cp_watches = fmempty, cp_open = True\<rparr>"
    by (simp add: rebuild_def events stored scan logs(1))
  ultimately show ?thesis using held(1-3) sl.head_sequence[OF held(1)]
    by (intro exI conjI) (assumption, simp_all add: campaign_holds_def)
qed

end
