(* ===== verification/Campaign_Steps.thy ===== *)
theory Campaign_Steps
  imports Campaign_Props Fold_Bounds
begin

text \<open>
  The campaign as a state machine: opened on a new log, appended to, watched, closed and opened again, in
  any order, with whatever faults of the database and of the source of randomness. Every reachable
  campaign holds its invariant, so it is never poisoned and a fresh open rebuilds it.
\<close>

subsection \<open>Steps\<close>

inductive campaign_step :: "'b wire_codec \<Rightarrow> 'b campaign \<Rightarrow> 'b campaign \<Rightarrow> bool" for cd where
  step_append: "append_one cd io rnd env c = (c', out) \<Longrightarrow> campaign_step cd c c'"
| step_batch: "append_batch_campaign cd io rnd envs c = (c', out) \<Longrightarrow> campaign_step cd c c'"
| step_watch: "watch_appends w c = Inr c' \<Longrightarrow> campaign_step cd c c'"
| step_stop: "campaign_step cd c (stop_watch w c)"
| step_close: "campaign_step cd c (close_campaign c)"
| step_reopen: "rebuild cd io (cp_db c) = Inr c' \<Longrightarrow> campaign_step cd c c'"

inductive_cases campaign_stepE: "campaign_step cd c c'"

inductive campaign_reachable :: "'b wire_codec \<Rightarrow> 'b campaign \<Rightarrow> bool" for cd where
  reach_new: "rebuild cd io empty_database = Inr c \<Longrightarrow> campaign_reachable cd c"
| reach_step: "campaign_reachable cd c \<Longrightarrow> campaign_step cd c c' \<Longrightarrow> campaign_reachable cd c'"

definition campaign_ok :: "'b wire_codec \<Rightarrow> 'b campaign \<Rightarrow> bool" where
  "campaign_ok cd c = (\<exists>es wes. campaign_holds cd c es wes)"

lemma rebuild_faultless:
  "rebuild cd io db = Inr c \<Longrightarrow> \<not> io QueryEvents \<and> \<not> io QueryEntries"
  by (auto simp: rebuild_def read_after_def read_character_logs_def split: if_splits sum.splits)

lemma rebuild_ok:
  assumes "campaign_holds cd c es wes" and "rebuild cd io (cp_db c) = Inr c'"
  shows "campaign_holds cd c' es wes"
  using rebuild_holds[OF assms(1)] rebuild_faultless[OF assms(2)] assms(2) by fastforce

lemma new_campaign_holds:
  assumes "codec_ok cd"
  shows "campaign_holds cd \<lparr>cp_db = empty_database, cp_state = new_state, cp_head = 0, cp_poisoned = False,
    cp_logs = fmempty, cp_discarded = 0, cp_watches = fmempty, cp_open = True\<rparr> [] (\<lambda>_. [])"
  using assms wf_empty_database
  by (simp add: campaign_holds_def store_holds_def store_log_holds_def log_matches_def fold_events_iff)
    (simp add: empty_database_def character_rows_def)

lemma new_campaign_ok: "codec_ok cd \<Longrightarrow> rebuild cd io empty_database = Inr c \<Longrightarrow> campaign_ok cd c"
  using rebuild_ok[OF new_campaign_holds] by (fastforce simp: campaign_ok_def)

lemma outcome_ok: "append_outcome cd c es wes envs (c', out) \<Longrightarrow> campaign_ok cd c'"
proof -
  assume outcome: "append_outcome cd c es wes envs (c', out)"
  obtain r world entries where out: "out = (r, world, entries)" by (cases out) auto
  show "campaign_ok cd c'" using outcome by (cases r) (auto simp: append_outcome_def campaign_ok_def out)
qed

lemma append_one_outcome:
  "campaign_holds cd c es wes \<Longrightarrow> append_outcome cd c es wes [env] (append_one cd io rnd env c)"
  using append_locked_outcome[of cd c es wes "[env]"] by (simp add: append_one_def campaign_holds_def)

lemma append_batch_outcome:
  "campaign_holds cd c es wes \<Longrightarrow> append_outcome cd c es wes envs (append_batch_campaign cd io rnd envs c)"
  using append_locked_outcome[of cd c es wes envs]
  by (simp add: append_batch_campaign_def campaign_holds_def append_outcome_def)

lemma campaign_holds_watches [simp]:
  "campaign_holds cd (c\<lparr>cp_watches := w\<rparr>) es wes = campaign_holds cd c es wes"
  "campaign_holds cd (c\<lparr>cp_watches := w, cp_open := b\<rparr>) es wes = campaign_holds cd c es wes"
  by (simp_all add: campaign_holds_def)

lemma campaign_okI: "campaign_holds cd c es wes \<Longrightarrow> campaign_ok cd c"
  by (auto simp: campaign_ok_def)

lemma campaign_ok_watches [simp]:
  "campaign_ok cd (c\<lparr>cp_watches := w\<rparr>) = campaign_ok cd c"
  "campaign_ok cd (c\<lparr>cp_watches := w, cp_open := b\<rparr>) = campaign_ok cd c"
  by (simp_all add: campaign_ok_def)

lemma campaign_step_ok:
  assumes "campaign_step cd c c'" and "campaign_ok cd c"
  shows "campaign_ok cd c'"
proof -
  obtain es wes where held: "campaign_holds cd c es wes" using assms(2) by (auto simp: campaign_ok_def)
  from assms(1) show ?thesis
  proof (cases rule: campaign_step.cases)
    case (step_append io rnd env out)
    with append_one_outcome[OF held] show ?thesis by (metis outcome_ok)
  next
    case (step_batch io rnd envs out)
    with append_batch_outcome[OF held] show ?thesis by (metis outcome_ok)
  next
    case (step_reopen io)
    from rebuild_ok[OF held this] show ?thesis by (auto simp: campaign_ok_def)
  qed (use campaign_okI[OF held] in \<open>auto simp: watch_appends_def stop_watch_def close_campaign_def split: if_splits\<close>)
qed

lemma campaign_reachable_ok: "campaign_reachable cd c \<Longrightarrow> codec_ok cd \<Longrightarrow> campaign_ok cd c"
  by (induction rule: campaign_reachable.induct) (auto intro: new_campaign_ok campaign_step_ok)

subsection \<open>Replay is the live state\<close>

text \<open>C20: Whatever was appended, refused, failed, closed and opened again, a campaign is never poisoned: its live
  state is what \<open>FoldPrefix\<close> makes of the log it holds, its head is the number of the log's events, numbered from 1
  without a gap, what \<open>State\<close> returns is that state, and opening the same log afresh succeeds whenever the
  database can be read and gives that state and head again.\<close>

theorem live_state_is_replay:
  assumes "campaign_reachable cd c" and "codec_ok cd"
  shows "\<exists>es. (\<forall>io. \<not> io QueryEvents \<longrightarrow> read_after cd io 0 (cp_db c) = Inr es) \<and>
    map env_sequence es = [1 .. int (length es)] \<and> cp_head c = int (length es) \<and>
    fold_prefix es = Inr (cp_state c) \<and> wf_state (cp_state c) \<and> campaign_state c = Some (cp_state c) \<and>
    (\<forall>io. \<not> io QueryEvents \<and> \<not> io QueryEntries \<longrightarrow> (\<exists>c'. rebuild cd io (cp_db c) = Inr c' \<and>
       cp_state c' = cp_state c \<and> cp_head c' = cp_head c \<and> \<not> cp_poisoned c'))"
proof -
  obtain es wes where held: "campaign_holds cd c es wes"
    using campaign_reachable_ok[OF assms] by (auto simp: campaign_ok_def)
  then have parts: "store_holds cd (cp_db c) es" "\<not> cp_poisoned c" "cp_head c = int (length es)"
    "fold_events es = Inr (cp_state c)" by (simp_all add: campaign_holds_def)
  have wf: "wf_state (cp_state c)" by (rule fold_events_wf[OF parts(4)])
  have "read_after cd io 0 (cp_db c) = Inr es" if "\<not> io QueryEvents" for io
    using read_after_holds[OF parts(1), of io 0] that sl.read_all[OF parts(1)] by metis
  moreover have "\<exists>c'. rebuild cd io (cp_db c) = Inr c' \<and> cp_state c' = cp_state c \<and> cp_head c' = cp_head c \<and> \<not> cp_poisoned c'"
    if "\<not> io QueryEvents" "\<not> io QueryEntries" for io
    using rebuild_holds[OF held that] parts by (auto simp: campaign_holds_def)
  ultimately show ?thesis using parts wf sl.numbered[OF parts(1)]
    by (intro exI[of _ es]) (simp add: fold_prefix_def campaign_state_def wf_snapshot)
qed

text \<open>A campaign to try the properties on: a new log, and one batch on it.\<close>

definition demo_new :: "envelope campaign" where
  "demo_new = \<lparr>cp_db = empty_database, cp_state = new_state, cp_head = 0, cp_poisoned = False,
    cp_logs = fmempty, cp_discarded = 0, cp_watches = fmempty, cp_open = True\<rparr>"

definition demo_batch :: "envelope list" where
  "demo_batch = [(payload_only (SessionStarted ''one''))\<lparr>env_event_id := ''e1''\<rparr>,
     (payload_only (SceneCreated demo_scene))\<lparr>env_event_id := ''e2''\<rparr>,
     (payload_only (ActorAdded (Some demo_actor)))\<lparr>env_event_id := ''e3''\<rparr>]"

definition demo_random :: "nat \<Rightarrow> 8 word list option" where
  "demo_random i = Some [10, 255]"

definition demo_campaign :: "envelope campaign" where
  "demo_campaign = fst (append_batch_campaign demo_codec faultless demo_random demo_batch demo_new)"

lemma demo_codec_ok: "codec_ok demo_codec"
  by (simp add: codec_ok_def demo_codec_def)

lemma demo_new_opened: "rebuild demo_codec faultless empty_database = Inr demo_new"
  by (simp add: rebuild_def read_after_def read_character_logs_def faultless_def empty_database_def demo_new_def)

lemma demo_appended:
  "append_batch_campaign demo_codec faultless demo_random demo_batch demo_new =
     (demo_campaign, snd (append_batch_campaign demo_codec faultless demo_random demo_batch demo_new))"
  by (simp add: demo_campaign_def)

lemma demo_reachable: "campaign_reachable demo_codec demo_campaign"
  by (rule reach_step[OF reach_new[OF demo_new_opened] step_batch[OF demo_appended]])

lemma demo_result: "fst (snd (append_batch_campaign demo_codec faultless demo_random demo_batch demo_new)) = Inr 1 \<and>
    cp_head demo_campaign = 3 \<and> map ses_id (st_sessions (cp_state demo_campaign)) = [''sess-0aff'']"
  by code_simp

theorem live_state_is_replay_witness:
  "cp_head demo_campaign = 3 \<and> (\<exists>es. read_after demo_codec faultless 0 (cp_db demo_campaign) = Inr es \<and>
     map env_sequence es = [1, 2, 3] \<and> fold_prefix es = Inr (cp_state demo_campaign))"
proof -
  obtain es where "\<forall>io. \<not> io QueryEvents \<longrightarrow> read_after demo_codec io 0 (cp_db demo_campaign) = Inr es"
    "map env_sequence es = [1 .. int (length es)]" "cp_head demo_campaign = int (length es)"
    "fold_prefix es = Inr (cp_state demo_campaign)"
    using live_state_is_replay[OF demo_reachable demo_codec_ok] by blast
  moreover have "[1 .. 3 :: int] = [1, 2, 3]" by (simp add: upto.simps)
  ultimately show ?thesis using demo_result by (intro conjI exI[of _ es]) (simp_all add: faultless_def)
qed

subsection \<open>An append is all or nothing\<close>

lemma sequence_within:
  assumes "map env_sequence es = [a .. b]" and "e \<in> set es"
  shows "a \<le> env_sequence e \<and> env_sequence e \<le> b"
proof -
  have "env_sequence e \<in> set (map env_sequence es)" using assms(2) by simp
  then show ?thesis by (simp only: assms(1)) simp
qed



end
