(* ===== verification/Campaign_Anchors.thy ===== *)
theory Campaign_Anchors
  imports Campaign_Steps
begin

text \<open>
  Anchored narrations in a character log: the binary searches of \<open>reanchor\<close> find exactly the entries that
  the world events of the range caused, on the lists the campaign keeps in order.
\<close>

subsection \<open>Binary search\<close>

lemma search_between_spec:
  assumes "i \<le> j" and "\<And>k m. k \<le> m \<Longrightarrow> m < j \<Longrightarrow> f k \<Longrightarrow> f m"
  shows "i \<le> search_between i j f \<and> search_between i j f \<le> j \<and>
    (\<forall>k. i \<le> k \<and> k < search_between i j f \<longrightarrow> \<not> f k) \<and> (\<forall>k. search_between i j f \<le> k \<and> k < j \<longrightarrow> f k)"
  using assms
proof (induction i j f rule: search_between.induct)
  case (1 i j f)
  show ?case
  proof (cases "i < j")
    case False
    with 1(3) show ?thesis by (subst (1 2 3 4) search_between.simps) auto
  next
    case True
    let ?h = "(i + j) div 2"
    have h: "i \<le> ?h" "?h < j" using True by simp_all
    show ?thesis
    proof (cases "f ?h")
      case fh: True
      have IH: "i \<le> search_between i ?h f \<and> search_between i ?h f \<le> ?h \<and>
          (\<forall>k. i \<le> k \<and> k < search_between i ?h f \<longrightarrow> \<not> f k) \<and> (\<forall>k. search_between i ?h f \<le> k \<and> k < ?h \<longrightarrow> f k)"
        using 1(1)[OF True refl fh] h 1(4) by simp
      have "f k" if "search_between i ?h f \<le> k" "k < j" for k
        using that IH 1(4)[of ?h k] fh by (cases "k < ?h") auto
      with IH h True fh show ?thesis by (subst (1 2 3 4) search_between.simps) (simp add: Let_def)
    next
      case fh: False
      have IH: "Suc ?h \<le> search_between (Suc ?h) j f \<and> search_between (Suc ?h) j f \<le> j \<and>
          (\<forall>k. Suc ?h \<le> k \<and> k < search_between (Suc ?h) j f \<longrightarrow> \<not> f k) \<and> (\<forall>k. search_between (Suc ?h) j f \<le> k \<and> k < j \<longrightarrow> f k)"
        using 1(2)[OF True refl fh] h 1(4) by simp
      have "\<not> f k" if "k < search_between (Suc ?h) j f" for k
      proof (cases "Suc ?h \<le> k")
        case True
        with that IH show ?thesis by blast
      next
        case False
        then have "k \<le> ?h" by simp
        with 1(4)[of k ?h] h fh show ?thesis by blast
      qed
      with IH h True fh show ?thesis by (subst (1 2 3 4) search_between.simps) (simp add: Let_def)
    qed
  qed
qed

lemma search_iff:
  assumes "\<And>k m. k \<le> m \<Longrightarrow> m < n \<Longrightarrow> f k \<Longrightarrow> f m"
  shows "search n f \<le> n" and "k < n \<Longrightarrow> search n f \<le> k \<longleftrightarrow> f k"
proof -
  note spec = search_between_spec[of 0 n f, folded search_def]
  show "search n f \<le> n" using spec assms by simp
  show "search n f \<le> k \<longleftrightarrow> f k" if "k < n"
    using spec assms that by (meson le0 linorder_not_le)
qed

lemma sorted_up: "sorted xs \<Longrightarrow> k \<le> m \<Longrightarrow> m < length xs \<Longrightarrow> (xs ! k :: int) \<le> xs ! m"
  by (simp add: sorted_nth_mono)

lemma search_at_least:
  assumes "sorted (map g xs)"
  shows "search (length xs) (\<lambda>k. (c :: int) \<le> g (xs ! k)) \<le> length xs"
    and "k < length xs \<Longrightarrow> search (length xs) (\<lambda>k. c \<le> g (xs ! k)) \<le> k \<longleftrightarrow> c \<le> g (xs ! k)"
proof -
  have up: "\<And>k m. k \<le> m \<Longrightarrow> m < length xs \<Longrightarrow> c \<le> g (xs ! k) \<Longrightarrow> c \<le> g (xs ! m)"
    using sorted_up[OF assms] by fastforce
  show "search (length xs) (\<lambda>k. c \<le> g (xs ! k)) \<le> length xs"
    and "k < length xs \<Longrightarrow> search (length xs) (\<lambda>k. c \<le> g (xs ! k)) \<le> k \<longleftrightarrow> c \<le> g (xs ! k)"
    using search_iff[of "length xs" "\<lambda>k. c \<le> g (xs ! k)"] up by blast+
qed

lemma search_beyond:
  assumes "sorted (map g xs)"
  shows "search (length xs) (\<lambda>k. (c :: int) < g (xs ! k)) \<le> length xs"
    and "k < length xs \<Longrightarrow> k < search (length xs) (\<lambda>k. c < g (xs ! k)) \<longleftrightarrow> g (xs ! k) \<le> c"
proof -
  have up: "\<And>k m. k \<le> m \<Longrightarrow> m < length xs \<Longrightarrow> c < g (xs ! k) \<Longrightarrow> c < g (xs ! m)"
    using sorted_up[OF assms] by fastforce
  show "search (length xs) (\<lambda>k. c < g (xs ! k)) \<le> length xs"
    by (rule search_iff(1)) (rule up)
  show "k < search (length xs) (\<lambda>k. c < g (xs ! k)) \<longleftrightarrow> g (xs ! k) \<le> c" if "k < length xs"
  proof -
    have "search (length xs) (\<lambda>k. c < g (xs ! k)) \<le> k \<longleftrightarrow> c < g (xs ! k)"
      by (rule search_iff(2)[OF _ that]) (rule up)
    then show ?thesis by linarith
  qed
qed

text \<open>A run of indices is a filter.\<close>

lemma filter_run:
  assumes "\<And>k. k < length xs \<Longrightarrow> P (xs ! k) \<longleftrightarrow> i \<le> k \<and> k < j" and "j \<le> length xs"
  shows "filter P xs = map (nth xs) [i ..< j]"
proof -
  have "filter P xs = filter P (map (nth xs) [0 ..< length xs])" by (simp only: map_nth)
  also have "\<dots> = map (nth xs) (filter (\<lambda>k. i \<le> k \<and> k < j) [0 ..< length xs])"
    using filter_cong[OF refl, of "[0 ..< length xs]" "\<lambda>k. P (xs ! k)" "\<lambda>k. i \<le> k \<and> k < j"] assms(1)
    by (simp add: filter_map comp_def)
  also have "filter (\<lambda>k. i \<le> k \<and> k < j) [0 ..< length xs] = [i ..< j]"
  proof -
    have "filter (\<lambda>k. i \<le> k \<and> k < j) [0 ..< n] = [i ..< min j n]" for n
      by (induction n) (auto simp: min_def not_le le_Suc_eq)
    with assms(2) show ?thesis by (simp add: min_absorb1)
  qed
  finally show ?thesis .
qed

lemma run_ends:
  assumes "filter P xs = map (nth xs) [i ..< j]"
  shows "(if i < j then f (xs ! i) (xs ! (j - 1)) else y) = (case filter P xs of [] \<Rightarrow> y | e # es \<Rightarrow> f e (last (e # es)))"
proof (cases "i < j")
  case True
  then have "map (nth xs) [i ..< j] = xs ! i # map (nth xs) [Suc i ..< j]" by (simp add: upt_conv_Cons)
  moreover have "last (map (nth xs) [i ..< j]) = xs ! (j - 1)" using True by (simp add: last_map)
  ultimately show ?thesis using True by (simp add: assms)
next
  case False
  then show ?thesis by (simp add: assms)
qed

subsection \<open>Reanchoring\<close>

text \<open>The latest world event at or before \<open>t\<close> at which the log resumed.\<close>

definition resumed_by :: "int list \<Rightarrow> int \<Rightarrow> int" where
  "resumed_by resumes t = (case filter (\<lambda>r. r \<le> t) resumes of [] \<Rightarrow> 0 | r # rs \<Rightarrow> last (r # rs))"

definition in_anchor :: "character_log \<Rightarrow> narration_added \<Rightarrow> caused_entry \<Rightarrow> bool" where
  "in_anchor l n e =
     (na_anchor_from n \<le> ca_world e \<and> ca_world e \<le> na_anchor_to n \<and>
      (filter (\<lambda>r. r \<le> na_anchor_to n) (cl_resumes l) \<noteq> [] \<longrightarrow> resumed_by (cl_resumes l) (na_anchor_to n) \<le> ca_world e))"

text \<open>C22: A narration's anchor, reanchored onto a character log, names the first and the last of exactly those
  entries of the log that a world event of the narration's range caused, since the latest resume in that
  range; and it names nothing, so that the narration is unanchored, when there are none.\<close>

theorem reanchored_names_caused:
  assumes "sorted (map ca_world (cl_caused l))" and "sorted (cl_resumes l)"
  shows "reanchored l n = (case filter (in_anchor l n) (cl_caused l) of
      [] \<Rightarrow> n\<lparr>na_anchor_from := 0, na_anchor_to := 0\<rparr>
    | e # es \<Rightarrow> n\<lparr>na_anchor_from := ca_seq e, na_anchor_to := ca_seq (last (e # es))\<rparr>)"
proof -
  let ?cs = "cl_caused l" and ?rs = "cl_resumes l"
  let ?lo = "search (length ?cs) (\<lambda>k. na_anchor_from n \<le> ca_world (?cs ! k))"
  let ?til = "search (length ?cs) (\<lambda>k. na_anchor_to n < ca_world (?cs ! k))"
  let ?r = "search (length ?rs) (\<lambda>k. na_anchor_to n < ?rs ! k)"
  let ?from = "if 0 < ?r then max ?lo (search (length ?cs) (\<lambda>k. ?rs ! (?r - 1) \<le> ca_world (?cs ! k))) else ?lo"
  note at = search_at_least[OF assms(1)]
  note beyond = search_beyond[OF assms(1), where c = "na_anchor_to n"]
  have rs: "sorted (map id ?rs)" using assms(2) by simp
  have r: "?r \<le> length ?rs" "\<And>k. k < length ?rs \<Longrightarrow> ?rs ! k \<le> na_anchor_to n \<longleftrightarrow> k < ?r"
    using search_beyond[OF rs, where c = "na_anchor_to n"] by simp_all
  have prior: "filter (\<lambda>r. r \<le> na_anchor_to n) ?rs = map (nth ?rs) [0 ..< ?r]"
    using r by (intro filter_run) simp_all
  have none: "filter (\<lambda>r. r \<le> na_anchor_to n) ?rs = [] \<longleftrightarrow> ?r = 0" by (simp add: prior)
  have latest: "0 < ?r \<Longrightarrow> resumed_by ?rs (na_anchor_to n) = ?rs ! (?r - 1)"
  proof -
    assume "0 < ?r"
    then have "last (map (nth ?rs) [0 ..< ?r]) = ?rs ! (?r - 1)" "map (nth ?rs) [0 ..< ?r] \<noteq> []" by (simp_all add: last_map)
    then show ?thesis unfolding resumed_by_def prior by (cases "map (nth ?rs) [0 ..< ?r]") simp_all
  qed
  have "in_anchor l n (?cs ! k) \<longleftrightarrow> ?from \<le> k \<and> k < ?til" if "k < length ?cs" for k
    using at(2)[OF that] beyond(2)[OF that] none latest by (auto simp: in_anchor_def)
  then have run: "filter (in_anchor l n) ?cs = map (nth ?cs) [?from ..< ?til]"
    using beyond(1) by (intro filter_run) simp_all
  have eq: "reanchored l n = (if ?from < ?til
      then n\<lparr>na_anchor_from := ca_seq (?cs ! ?from), na_anchor_to := ca_seq (?cs ! (?til - 1))\<rparr>
      else n\<lparr>na_anchor_from := 0, na_anchor_to := 0\<rparr>)"
    by (simp add: reanchored_def Let_def)
  show ?thesis unfolding eq
    by (rule run_ends[OF run, of "\<lambda>a b. n\<lparr>na_anchor_from := ca_seq a, na_anchor_to := ca_seq b\<rparr>"])
qed

definition demo_anchored :: narration_added where
  "demo_anchored = \<lparr>na_text = ''They left the cellar.'', na_as = [], na_anchor_from = 2, na_anchor_to = 7, na_out_of_character = False\<rparr>"

definition demo_log :: character_log where
  "demo_log = new_log\<lparr>cl_caused := map (\<lambda>(w, s). \<lparr>ca_world = w, ca_seq = s\<rparr>) [(1, 3), (3, 4), (3, 5), (6, 9), (7, 10), (8, 11)],
     cl_resumes := [5]\<rparr>"

theorem reanchored_names_caused_witness:
  "reanchored demo_log demo_anchored = demo_anchored\<lparr>na_anchor_from := 9, na_anchor_to := 10\<rparr>"
  by (subst reanchored_names_caused) (simp_all add: demo_log_def demo_anchored_def new_log_def in_anchor_def resumed_by_def)

subsection \<open>The lists are in order\<close>

definition up_to :: "int \<Rightarrow> int list \<Rightarrow> bool" where
  "up_to hi ns = (sorted ns \<and> (\<forall>n \<in> set ns. n \<le> hi))"

lemma up_to_Nil [simp]: "up_to hi []"
  by (simp add: up_to_def)

lemma up_to_mono: "up_to hi ns \<Longrightarrow> hi \<le> hi' \<Longrightarrow> up_to hi' ns"
  by (fastforce simp: up_to_def)

lemma up_to_append: "up_to hi ns \<Longrightarrow> hi \<le> n \<Longrightarrow> \<forall>m \<in> set ms. m = n \<Longrightarrow> up_to n (ns @ ms)"
proof -
  assume a: "up_to hi ns" "hi \<le> n" "\<forall>m \<in> set ms. m = n"
  then have "sorted ms" by (induction ms) auto
  with a show "up_to n (ns @ ms)" by (fastforce simp: up_to_def sorted_append)
qed

definition log_in_order :: "int \<Rightarrow> character_log \<Rightarrow> bool" where
  "log_in_order hi l = (up_to hi (map ca_world (cl_caused l)) \<and> up_to hi (cl_resumes l))"

definition logs_in_order :: "int \<Rightarrow> (string, character_log) fmap \<Rightarrow> bool" where
  "logs_in_order hi logs = (\<forall>aid l. fmlookup logs aid = Some l \<longrightarrow> log_in_order hi l)"

lemma log_in_order_irrelevant [simp]:
  "log_in_order hi (l\<lparr>cl_decision := d\<rparr>) = log_in_order hi l"
  "log_in_order hi (l\<lparr>cl_fold := f, cl_head := h\<rparr>) = log_in_order hi l"
  "log_in_order hi (l\<lparr>cl_fold := f, cl_head := h, cl_decision := d\<rparr>) = log_in_order hi l"
  by (simp_all add: log_in_order_def)

lemma logs_in_order_upd: "logs_in_order hi logs \<Longrightarrow> log_in_order hi l \<Longrightarrow> logs_in_order hi (fmupd aid l logs)"
  by (simp add: logs_in_order_def)

lemma logs_in_order_drop: "logs_in_order hi logs \<Longrightarrow> logs_in_order hi (fmdrop aid logs)"
  by (simp add: logs_in_order_def)

lemma logs_in_order_mono: "logs_in_order hi logs \<Longrightarrow> hi \<le> hi' \<Longrightarrow> logs_in_order hi' logs"
  by (auto simp: logs_in_order_def log_in_order_def intro: up_to_mono)

lemma lead_of_in_order:
  assumes "lead_of aid ev prior logs = (l, pr, lead)" and "logs_in_order (env_sequence ev) logs"
  shows "log_in_order (env_sequence ev) l"
  using assms up_to_append[of "env_sequence ev" _ "env_sequence ev" "[env_sequence ev]"]
  by (auto simp: lead_of_def new_log_def logs_in_order_def log_in_order_def split: option.splits)

lemma log_in_order_caused:
  "log_in_order (env_sequence ev) l \<Longrightarrow>
     log_in_order (env_sequence ev) (l\<lparr>cl_fold := f1, cl_head := h1, cl_decision := d,
       cl_caused := cl_caused l @ record_caused (env_sequence ev) out, cl_fold := f, cl_head := h\<rparr>)"
  using up_to_append[of "env_sequence ev" "map ca_world (cl_caused l)" "env_sequence ev"]
  by (simp add: log_in_order_def record_caused_def)

lemma fan_out_actor_in_order:
  assumes "logs_in_order (env_sequence ev) (fst (snd acc))"
  shows "logs_in_order (env_sequence ev) (fst (snd (fan_out_actor i ev prior world aid acc)))"
proof -
  obtain entries logs d where acc: "acc = (entries, logs, d)" by (cases acc) auto
  have logs: "logs_in_order (env_sequence ev) logs" using assms acc by simp
  obtain l pr lead where lead: "lead_of aid ev prior logs = (l, pr, lead)" by (cases "lead_of aid ev prior logs") auto
  note l = lead_of_in_order[OF lead logs]
  have old: "fmlookup logs aid = Some k \<Longrightarrow> log_in_order (env_sequence ev) k" for k using logs by (simp add: logs_in_order_def)
  show ?thesis
    using logs l old log_in_order_caused[OF l]
    by (auto simp: fan_out_actor_def acc lead Let_def logs_in_order_drop intro!: logs_in_order_upd
        split: option.splits sum.splits prod.splits)
qed

lemma fan_out_fold_in_order:
  "logs_in_order (env_sequence ev) (fst (snd acc)) \<Longrightarrow>
     logs_in_order (env_sequence ev) (fst (snd (fold (fan_out_actor i ev prior world) aids acc)))"
  by (induction aids arbitrary: acc) (simp_all add: fan_out_actor_in_order)

lemma fan_out_from_in_order:
  "fan_out_from head i envs world acc = Inr acc' \<Longrightarrow> logs_in_order (head + int i) (fst (snd acc)) \<Longrightarrow>
     logs_in_order (head + int i + int (length envs)) (fst (snd acc'))"
proof (induction envs arbitrary: i world acc)
  case (Cons env envs)
  let ?ev = "set_sequence (head + int i + 1) env"
  obtain w1 where w1: "apply_event world ?ev = Inr w1"
    "fan_out_from head (Suc i) envs w1 (fold (fan_out_actor i ?ev (snapshot world) w1) (log_ids (fst (snd acc)) w1) acc) = Inr acc'"
    using Cons.prems(1) by (auto simp: Let_def split: sum.splits)
  have "logs_in_order (env_sequence ?ev) (fst (snd acc))"
    using logs_in_order_mono[OF Cons.prems(2)] by simp
  from fan_out_fold_in_order[OF this, of i "snapshot world" w1 "log_ids (fst (snd acc)) w1"]
  have "logs_in_order (head + int (Suc i)) (fst (snd (fold (fan_out_actor i ?ev (snapshot world) w1) (log_ids (fst (snd acc)) w1) acc)))"
    by (simp add: algebra_simps)
  from Cons.IH[OF w1(2) this] show ?case by (simp add: algebra_simps)
qed simp

subsection \<open>In order after a reopen\<close>

definition scan_in_order :: "int \<Rightarrow> resume_scan \<Rightarrow> bool" where
  "scan_in_order hi r = (\<forall>aid ns. fmlookup (rs_at r) aid = Some ns \<longrightarrow> up_to hi ns)"

lemma observe_one_in_order:
  assumes "scan_in_order (env_sequence env) r"
  shows "scan_in_order (env_sequence env) (observe_one st env aid r)"
proof -
  have "up_to (env_sequence env) (ns @ [env_sequence env])" if "ns = [] \<or> fmlookup (rs_at r) aid = Some ns" for ns
  proof -
    have "up_to (env_sequence env) ns" using that assms by (auto simp: scan_in_order_def)
    then show ?thesis by (rule up_to_append) simp_all
  qed
  with assms show ?thesis by (auto simp: scan_in_order_def observe_one_def Let_def split: option.splits)
qed

lemma observe_in_order:
  "scan_in_order (env_sequence env) r \<Longrightarrow> scan_in_order (env_sequence env) (observe st env r)"
proof -
  have "scan_in_order (env_sequence env) r \<Longrightarrow> scan_in_order (env_sequence env) (fold (observe_one st env) ids r)" for ids
    by (induction ids arbitrary: r) (simp_all add: observe_one_in_order)
  then show "scan_in_order (env_sequence env) r \<Longrightarrow> ?thesis" by (simp add: observe_def)
qed

lemma scan_in_order_mono: "scan_in_order hi r \<Longrightarrow> hi \<le> hi' \<Longrightarrow> scan_in_order hi' r"
  by (auto simp: scan_in_order_def intro: up_to_mono)

lemma fold_observe_in_order:
  "fold_events_with observe es st scan = Inr (st', scan') \<Longrightarrow> map env_sequence es = [hi + 1 .. hi + int (length es)] \<Longrightarrow>
     scan_in_order hi scan \<Longrightarrow> scan_in_order (hi + int (length es)) scan'"
proof (induction es arbitrary: st scan hi)
  case (Cons e es)
  have seqs: "env_sequence e = hi + 1" "map env_sequence es = [(hi + 1) + 1 .. (hi + 1) + int (length es)]"
    using Cons.prems(2) by (simp_all add: upto_rec1 algebra_simps)
  have here: "scan_in_order (env_sequence e) scan" using scan_in_order_mono[OF Cons.prems(3)] seqs(1) by simp
  have step: "scan_in_order (hi + 1) (observe st1 e scan)" for st1 using observe_in_order[OF here] seqs(1) by simp
  have skip: "scan_in_order (hi + 1) scan" using here seqs(1) by simp
  from Cons.prems(1) show ?case
    using Cons.IH[OF _ seqs(2) step] Cons.IH[OF _ seqs(2) skip] by (auto simp: algebra_simps split: sum.splits if_splits)
qed simp

lemma load_logs_resumes:
  assumes "load_logs stored resumed world aids logs = Inr logs'"
    and "\<forall>aid ns. fmlookup resumed aid = Some ns \<longrightarrow> up_to hi ns"
    and "\<forall>aid l. fmlookup logs aid = Some l \<longrightarrow> up_to hi (cl_resumes l)"
  shows "\<forall>aid l. fmlookup logs' aid = Some l \<longrightarrow> up_to hi (cl_resumes l)"
  using assms(1,3)
proof (induction aids arbitrary: logs)
  case (Cons aid aids)
  obtain st where "fold_events (map che_env (case fmlookup stored aid of None \<Rightarrow> [] | Some es \<Rightarrow> es)) = Inr st"
    using Cons.prems(1) by (auto simp: Let_def split: sum.splits)
  with Cons.prems(1) obtain es d where rest: "load_logs stored resumed world aids
      (fmupd aid (log_of_entries es st (case fmlookup resumed aid of None \<Rightarrow> [] | Some l \<Rightarrow> l) d) logs) = Inr logs'"
    by (auto simp: Let_def)
  show ?case
    by (rule Cons.IH[OF rest]) (use Cons.prems(2) assms(2) in \<open>auto simp: log_of_entries_def split: option.splits\<close>)
qed simp

lemma rebuild_resumes:
  assumes "store_holds cd db es" and "rebuild cd io db = Inr c"
  shows "\<forall>aid l. fmlookup (cp_logs c) aid = Some l \<longrightarrow> up_to (int (length es)) (cl_resumes l)"
proof -
  obtain events stored st scan logs where run: "read_after cd io 0 db = Inr events"
    "fold_events_with observe events new_state (resumes_of (keys stored)) = Inr (st, scan)"
    "load_logs stored (rs_at scan) st (keys stored) fmempty = Inr logs" "cp_logs c = logs"
    using assms(2) by (auto simp: rebuild_def split: sum.splits)
  have events: "events = es" by (rule sl.read_all[OF assms(1) run(1)])
  have "scan_in_order 0 (resumes_of (keys stored))" by (simp add: scan_in_order_def resumes_of_def)
  then have "scan_in_order (int (length es)) scan"
    using fold_observe_in_order[OF run(2), of 0] sl.numbered[OF assms(1)] by (simp add: events)
  then show ?thesis using load_logs_resumes[OF run(3)] run(4) by (simp add: scan_in_order_def)
qed

definition campaign_ordered :: "'b wire_codec \<Rightarrow> 'b campaign \<Rightarrow> bool" where
  "campaign_ordered cd c = (campaign_ok cd c \<and> logs_in_order (cp_head c) (cp_logs c))"

lemma restart_in_order: "logs_in_order hi (cp_logs c) \<Longrightarrow> logs_in_order hi (cp_logs (restart_decisions c))"
  by (auto simp: logs_in_order_def restart_decisions_def split: option.splits)

lemma append_in_order:
  assumes "append_locked_campaign cd io rnd envs c = (c', out)" and "campaign_ok cd c" and "logs_in_order (cp_head c) (cp_logs c)"
  shows "logs_in_order (cp_head c') (cp_logs c')"
proof -
  obtain es wes where held: "campaign_holds cd c es wes" using assms(2) by (auto simp: campaign_ok_def)
  have landed: "logs_in_order (first + int (length envs2) - 1) logs"
    if fan: "fan_out envs1 c = Inr (entries, logs, d)" and app: "append_values cd io envs1 entries (cp_db c) = Inr (first, db, envs2, told)"
    for envs1 entries logs d first db envs2 told
  proof -
    have "store_holds cd (cp_db c) es" "cp_head c = int (length es)" using held by (simp_all add: campaign_holds_def)
    with sl.append_adds[OF _ app] have "first = cp_head c + 1" "length envs2 = length envs1" by auto
    with fan fan_out_from_in_order[of "cp_head c" 0 envs1 "snapshot (cp_state c)" "([], cp_logs c, 0)" "(entries, logs, d)"] assms(3)
    show ?thesis by (simp add: fan_out_def)
  qed
  show ?thesis using assms(1,3) restart_in_order[OF assms(3)]
    by (auto simp: append_locked_campaign_def Let_def wake_watches_def dest: landed split: if_splits sum.splits prod.splits)
qed

lemma campaign_step_ordered:
  assumes "campaign_step cd c c'" and "campaign_ordered cd c"
  shows "campaign_ordered cd c'"
proof -
  have ok: "campaign_ok cd c" and logs: "logs_in_order (cp_head c) (cp_logs c)"
    using assms(2) by (simp_all add: campaign_ordered_def)
  have ok': "campaign_ok cd c'" by (rule campaign_step_ok[OF assms(1) ok])
  from assms(1) have "logs_in_order (cp_head c') (cp_logs c')"
  proof (cases rule: campaign_step.cases)
    case (step_append io rnd env out)
    then show ?thesis using append_in_order[OF _ ok logs] logs by (auto simp: append_one_def split: if_splits)
  next
    case (step_batch io rnd envs out)
    then show ?thesis using append_in_order[OF _ ok logs] logs by (auto simp: append_batch_campaign_def split: if_splits)
  next
    case (step_reopen io)
    obtain es wes where held: "campaign_holds cd c es wes" using ok by (auto simp: campaign_ok_def)
    have held': "campaign_holds cd c' es wes" by (rule rebuild_ok[OF held step_reopen])
    have stored: "store_holds cd (cp_db c) es" and heads: "cp_head c = int (length es)" "cp_head c' = int (length es)"
      using held held' by (simp_all add: campaign_holds_def)
    have "log_in_order (cp_head c') l'" if l': "fmlookup (cp_logs c') aid = Some l'" for aid l'
    proof -
      have m: "log_matches (wes aid) (Some l')" "log_matches (wes aid) (fmlookup (cp_logs c) aid)"
        using held held' l' by (metis campaign_holds_def)+
      have "up_to (int (length es)) (map ca_world (cl_caused l'))"
      proof (cases "fmlookup (cp_logs c) aid")
        case None
        with m show ?thesis by (simp add: log_matches_def caused_of_def)
      next
        case (Some l)
        with m have "cl_caused l' = cl_caused l" by (simp add: log_matches_def)
        with logs Some heads show ?thesis by (simp add: logs_in_order_def log_in_order_def)
      qed
      with rebuild_resumes[OF stored step_reopen] l' heads show ?thesis by (simp add: log_in_order_def)
    qed
    then show ?thesis by (simp add: logs_in_order_def)
  qed (use logs in \<open>auto simp: watch_appends_def stop_watch_def close_campaign_def split: if_splits\<close>)
  with ok' show ?thesis by (simp add: campaign_ordered_def)
qed

lemma campaign_reachable_ordered: "campaign_reachable cd c \<Longrightarrow> codec_ok cd \<Longrightarrow> campaign_ordered cd c"
proof (induction rule: campaign_reachable.induct)
  case (reach_new io c)
  have "c = \<lparr>cp_db = empty_database, cp_state = new_state, cp_head = 0, cp_poisoned = False,
      cp_logs = fmempty, cp_discarded = 0, cp_watches = fmempty, cp_open = True\<rparr>"
    using reach_new(1) by (auto simp: rebuild_def read_after_def read_character_logs_def empty_database_def split: if_splits)
  then show ?case using new_campaign_ok[OF reach_new(2,1)] by (simp add: campaign_ordered_def logs_in_order_def)
next
  case (reach_step c c')
  then show ?case using campaign_step_ordered by blast
qed

subsection \<open>Character logs\<close>

text \<open>C23: In every reachable campaign each actor's character log is numbered 1, 2, ... without a gap and folds,
  on its own, to a well-formed state, the one the campaign goes on from; the campaign's head and list of
  caused entries are those of the stored log, the entries name world events in the order they happened,
  none beyond the campaign's own head; and an actor without a log has no entries.\<close>

theorem character_logs_sound:
  assumes "campaign_reachable cd c" and "codec_ok cd"
  shows "\<exists>wes. (\<forall>io. \<not> io QueryEntries \<longrightarrow>
      campaign_log cd io aid c = Inr (map (\<lambda>(w, e). \<lparr>che_world_seq = w, che_env = e\<rparr>) wes)) \<and>
    map (env_sequence \<circ> snd) wes = [1 .. int (length wes)] \<and>
    (case fmlookup (cp_logs c) aid of
       None \<Rightarrow> wes = []
     | Some l \<Rightarrow>
         fold_prefix (map snd wes) = Inr (cl_fold l) \<and> wf_state (cl_fold l) \<and> cl_head l = int (length wes) \<and>
         cl_caused l = caused_of wes \<and> sorted (map ca_world (cl_caused l)) \<and> sorted (cl_resumes l) \<and>
         list_all (\<lambda>e. ca_world e \<le> cp_head c) (cl_caused l))"
proof -
  have ordered: "campaign_ordered cd c" by (rule campaign_reachable_ordered[OF assms])
  then obtain es wes where held: "campaign_holds cd c es wes" by (auto simp: campaign_ordered_def campaign_ok_def)
  have logs: "\<And>aid. store_log_holds cd (cp_db c) aid (wes aid)" and "\<not> cp_poisoned c"
    and match: "log_matches (wes aid) (fmlookup (cp_logs c) aid)"
    using held by (simp_all add: campaign_holds_def)
  have read: "campaign_log cd io aid c = Inr (map (\<lambda>(w, e). \<lparr>che_world_seq = w, che_env = e\<rparr>) (wes aid))"
    if reading: "\<not> io QueryEntries" for io
  proof -
    obtain entries where "read_character_after cd io aid 0 (cp_db c) = Inr entries"
      using read_logs_ok(2)[of cd "cp_db c" wes io aid 0, OF logs reading] by blast
    with slc.log_read_whole[OF logs this] show ?thesis using \<open>\<not> cp_poisoned c\<close> by (simp add: campaign_log_def)
  qed
  have "case fmlookup (cp_logs c) aid of
       None \<Rightarrow> wes aid = []
     | Some l \<Rightarrow>
         fold_prefix (map snd (wes aid)) = Inr (cl_fold l) \<and> wf_state (cl_fold l) \<and> cl_head l = int (length (wes aid)) \<and>
         cl_caused l = caused_of (wes aid) \<and> sorted (map ca_world (cl_caused l)) \<and> sorted (cl_resumes l) \<and>
         list_all (\<lambda>e. ca_world e \<le> cp_head c) (cl_caused l)"
  proof (cases "fmlookup (cp_logs c) aid")
    case None
    with match show ?thesis by (simp add: log_matches_def)
  next
    case (Some l)
    have "log_in_order (cp_head c) l" using ordered Some by (simp add: campaign_ordered_def logs_in_order_def)
    moreover have "fold_events (map snd (wes aid)) = Inr (cl_fold l)" "cl_head l = int (length (wes aid))" "cl_caused l = caused_of (wes aid)"
      using match Some by (simp_all add: log_matches_def)
    ultimately show ?thesis using Some fold_events_wf
      by (auto simp: fold_prefix_def log_in_order_def up_to_def list_all_iff)
  qed
  with read slc.log_numbered[OF logs] show ?thesis by blast
qed

lemma demo_entries:
  "map_option cl_head (fmlookup (cp_logs demo_campaign) ''a1'') = Some 2 \<and>
   map_option cl_caused (fmlookup (cp_logs demo_campaign) ''a1'') = Some [\<lparr>ca_world = 3, ca_seq = 2\<rparr>]"
  by code_simp

theorem character_logs_sound_witness:
  "\<exists>wes st. campaign_log demo_codec faultless ''a1'' demo_campaign =
       Inr (map (\<lambda>(w, e). \<lparr>che_world_seq = w, che_env = e\<rparr>) wes) \<and>
     length wes = 2 \<and> fold_prefix (map snd wes) = Inr st \<and> caused_of wes = [\<lparr>ca_world = 3, ca_seq = 2\<rparr>]"
proof -
  obtain l where l: "fmlookup (cp_logs demo_campaign) ''a1'' = Some l" "cl_head l = 2" "cl_caused l = [\<lparr>ca_world = 3, ca_seq = 2\<rparr>]"
    using demo_entries by auto
  obtain wes where wes: "\<forall>io. \<not> io QueryEntries \<longrightarrow> campaign_log demo_codec io ''a1'' demo_campaign =
      Inr (map (\<lambda>(w, e). \<lparr>che_world_seq = w, che_env = e\<rparr>) wes)"
    "fold_prefix (map snd wes) = Inr (cl_fold l)" "cl_head l = int (length wes)" "cl_caused l = caused_of wes"
    using character_logs_sound[OF demo_reachable demo_codec_ok, of "''a1''"] unfolding l(1) option.case by blast
  have "\<not> faultless QueryEntries" by (simp add: faultless_def)
  with wes(1) have "campaign_log demo_codec faultless ''a1'' demo_campaign =
      Inr (map (\<lambda>(w, e). \<lparr>che_world_seq = w, che_env = e\<rparr>) wes)" by blast
  moreover have "length wes = 2" using wes(3) l(2) by linarith
  moreover have "caused_of wes = [\<lparr>ca_world = 3, ca_seq = 2\<rparr>]" using wes(4) l(3) by simp
  ultimately show ?thesis using wes(2) by blast
qed

end
