(* ===== verification/Subscribe.thy ===== *)
theory Subscribe
  imports Store
begin

text \<open>
  \<open>internal/store/subscribe.go\<close>: subscribers, each with a queue the store appends to and a pump that hands the
  queue's events to the consumer's channel. A pump is a process: \<open>sb_at\<close> is where its loop stands, and
  \<open>pump_step\<close> what it or its consumer may do next, the no-progress timeout being free to fire whenever a
  hand-off waits. \<open>sb_topic\<close>, \<open>sb_after\<close> and \<open>sb_got\<close> are not in the code: which log is subscribed to, from
  where, and what the consumer has received. A step under the subscriber's mutex, with the wake signal it
  sends, is one step here.
\<close>

subsection \<open>A subscriber\<close>

datatype pump_at = Looking | Waiting | Sending envelope | Gone

record subscriber =
  sb_topic :: "string option"
  sb_after :: int
  sb_pending :: "envelope list"
  sb_last :: int
  sb_closed :: bool
  sb_wake :: bool
  sb_at :: pump_at
  sb_ch :: "envelope list"
  sb_cap :: nat
  sb_got :: "envelope list"

definition enqueue :: "envelope \<Rightarrow> subscriber \<Rightarrow> subscriber" where
  "enqueue env sub =
     (if sb_closed sub \<or> env_sequence env \<le> sb_last sub then sub
      else sub\<lparr>sb_pending := sb_pending sub @ [env], sb_last := env_sequence env, sb_wake := True\<rparr>)"

definition next_event :: "subscriber \<Rightarrow> (envelope \<times> subscriber) option" where
  "next_event sub =
     (if sb_closed sub then None
      else case sb_pending sub of [] \<Rightarrow> None | env # envs \<Rightarrow> Some (env, sub\<lparr>sb_pending := envs\<rparr>))"

definition mark_stopped :: "subscriber \<Rightarrow> subscriber" where
  "mark_stopped sub = sub\<lparr>sb_closed := True, sb_pending := []\<rparr>"

text \<open>One step of the pump's loop, or of the consumer (\<open>received\<close>). An unbuffered channel hands over directly.\<close>

inductive pump_step :: "subscriber \<Rightarrow> subscriber \<Rightarrow> bool" where
  found: "sb_at sub = Looking \<Longrightarrow> next_event sub = Some (env, sub') \<Longrightarrow> pump_step sub (sub'\<lparr>sb_at := Sending env\<rparr>)"
| found_none: "sb_at sub = Looking \<Longrightarrow> next_event sub = None \<Longrightarrow> pump_step sub (sub\<lparr>sb_at := Waiting\<rparr>)"
| woken: "sb_at sub = Waiting \<Longrightarrow> sb_wake sub \<Longrightarrow> pump_step sub (sub\<lparr>sb_wake := False, sb_at := Looking\<rparr>)"
| waited_out: "sb_at sub = Waiting \<Longrightarrow> sb_closed sub \<Longrightarrow> pump_step sub (sub\<lparr>sb_at := Gone\<rparr>)"
| handed: "sb_at sub = Sending env \<Longrightarrow> length (sb_ch sub) < sb_cap sub \<Longrightarrow>
    pump_step sub (sub\<lparr>sb_ch := sb_ch sub @ [env], sb_at := Looking\<rparr>)"
| handed_over: "sb_at sub = Sending env \<Longrightarrow> sb_cap sub = 0 \<Longrightarrow> sb_ch sub = [] \<Longrightarrow>
    pump_step sub (sub\<lparr>sb_got := sb_got sub @ [env], sb_at := Looking\<rparr>)"
| send_stopped: "sb_at sub = Sending env \<Longrightarrow> sb_closed sub \<Longrightarrow> pump_step sub (sub\<lparr>sb_at := Gone\<rparr>)"
| timed_out: "sb_at sub = Sending env \<Longrightarrow> pump_step sub ((mark_stopped sub)\<lparr>sb_at := Gone\<rparr>)"
| received: "sb_ch sub = env # envs \<Longrightarrow> pump_step sub (sub\<lparr>sb_ch := envs, sb_got := sb_got sub @ [env]\<rparr>)"

inductive_cases pump_stepE: "pump_step sub sub'"

definition start_subscriber :: "string option \<Rightarrow> int \<Rightarrow> int \<Rightarrow> store_error + envelope list \<Rightarrow> store_error + subscriber" where
  "start_subscriber topic after buffer history =
     (if buffer < 0 then Inl (ErrNegativeBuffer buffer)
      else case history of
        Inl err \<Rightarrow> Inl err
      | Inr events \<Rightarrow>
          Inr \<lparr>sb_topic = topic, sb_after = after, sb_pending = events,
               sb_last = (if events = [] then after else env_sequence (last events)),
               sb_closed = False, sb_wake = False, sb_at = Looking, sb_ch = [], sb_cap = nat buffer, sb_got = []\<rparr>)"

subsection \<open>The store's subscribers\<close>

text \<open>
  \<open>hb_objs\<close> are the subscribers ever made, by an address; \<open>hb_subs\<close> and \<open>hb_chars\<close> the store's lists of them.
  \<open>hb_unsent\<close> is what the caller has appended and still has to notify: \<open>Campaign.appendLocked\<close> appends, then
  notifies each event and each entry in order, holding its own lock, while subscriptions come and go.
\<close>

record 'b hub =
  hb_db :: "'b database"
  hb_subs :: "nat list"
  hb_chars :: "(string, nat list) fmap"
  hb_objs :: "(nat, subscriber) fmap"
  hb_unsent :: "(string option \<times> envelope) list"

definition chars_of :: "'b hub \<Rightarrow> string \<Rightarrow> nat list" where
  "chars_of hb aid = (case fmlookup (hb_chars hb) aid of None \<Rightarrow> [] | Some ids \<Rightarrow> ids)"

definition on_sub :: "(subscriber \<Rightarrow> subscriber) \<Rightarrow> nat \<Rightarrow> (nat, subscriber) fmap \<Rightarrow> (nat, subscriber) fmap" where
  "on_sub f i objs = (case fmlookup objs i of None \<Rightarrow> objs | Some sub \<Rightarrow> fmupd i (f sub) objs)"

definition live_sub :: "(nat, subscriber) fmap \<Rightarrow> nat \<Rightarrow> bool" where
  "live_sub objs i = (case fmlookup objs i of None \<Rightarrow> False | Some sub \<Rightarrow> \<not> sb_closed sub)"

definition enqueue_all :: "envelope \<Rightarrow> nat list \<Rightarrow> (nat, subscriber) fmap \<Rightarrow> nat list \<times> (nat, subscriber) fmap" where
  "enqueue_all env ids objs =
     (if env_sequence env = 0 then (ids, objs)
      else let objs = fold (on_sub (enqueue env)) ids objs in (filter (live_sub objs) ids, objs))"

definition hub_notify :: "envelope \<Rightarrow> 'b hub \<Rightarrow> 'b hub" where
  "hub_notify env hb =
     (let (ids, objs) = enqueue_all env (hb_subs hb) (hb_objs hb) in hb\<lparr>hb_subs := ids, hb_objs := objs\<rparr>)"

definition hub_notify_character :: "string \<Rightarrow> envelope \<Rightarrow> 'b hub \<Rightarrow> 'b hub" where
  "hub_notify_character aid env hb =
     (let (ids, objs) = enqueue_all env (chars_of hb aid) (hb_objs hb)
      in hb\<lparr>hb_chars := fmupd aid ids (hb_chars hb), hb_objs := objs\<rparr>)"

text \<open>A subscription returns the catch-up head with the address its channel and its unsubscribe close over.\<close>

definition hub_subscribe :: "'b wire_codec \<Rightarrow> (db_op \<Rightarrow> bool) \<Rightarrow> nat \<Rightarrow> int \<Rightarrow> int \<Rightarrow> 'b hub \<Rightarrow> store_error + 'b hub \<times> int" where
  "hub_subscribe cd io i after buffer hb =
     (case start_subscriber None after buffer (read_after cd io after (hb_db hb)) of
        Inl err \<Rightarrow> Inl err
      | Inr sub \<Rightarrow> Inr (hb\<lparr>hb_subs := hb_subs hb @ [i], hb_objs := fmupd i sub (hb_objs hb)\<rparr>, sb_last sub))"

definition hub_subscribe_character :: "'b wire_codec \<Rightarrow> (db_op \<Rightarrow> bool) \<Rightarrow> string \<Rightarrow> nat \<Rightarrow> int \<Rightarrow> int \<Rightarrow> 'b hub \<Rightarrow>
    store_error + 'b hub \<times> int" where
  "hub_subscribe_character cd io aid i after buffer hb =
     (case start_subscriber (Some aid) after buffer (map_sum id (map che_env) (read_character_after cd io aid after (hb_db hb))) of
        Inl err \<Rightarrow> Inl err
      | Inr sub \<Rightarrow> Inr (hb\<lparr>hb_chars := fmupd aid (chars_of hb aid @ [i]) (hb_chars hb),
                          hb_objs := fmupd i sub (hb_objs hb)\<rparr>, sb_last sub))"

definition hub_unsubscribe :: "nat \<Rightarrow> 'b hub \<Rightarrow> 'b hub" where
  "hub_unsubscribe i hb = hb\<lparr>hb_objs := on_sub mark_stopped i (hb_objs hb)\<rparr>"

definition hub_close :: "'b hub \<Rightarrow> 'b hub" where
  "hub_close hb =
     hb\<lparr>hb_objs := fold (on_sub mark_stopped) (hb_subs hb @ concat (map (chars_of hb) (keys (hb_chars hb)))) (hb_objs hb),
        hb_subs := [], hb_chars := fmempty\<rparr>"

definition open_hub :: "'b database \<Rightarrow> 'b hub" where
  "open_hub db = \<lparr>hb_db = db, hb_subs = [], hb_chars = fmempty, hb_objs = fmempty, hb_unsent = []\<rparr>"

inductive hub_step :: "'b wire_codec \<Rightarrow> 'b hub \<Rightarrow> 'b hub \<Rightarrow> bool" for cd where
  hub_append: "hb_unsent hb = [] \<Longrightarrow> append_values cd io envs vs (hb_db hb) = Inr (first, db, world, told) \<Longrightarrow>
    hub_step cd hb (hb\<lparr>hb_db := db,
      hb_unsent := map (Pair None) world @ zip (map (Some \<circ> ve_actor_id) vs) told\<rparr>)"
| hub_world: "hb_unsent hb = (None, env) # rest \<Longrightarrow> hub_step cd hb (hub_notify env (hb\<lparr>hb_unsent := rest\<rparr>))"
| hub_character: "hb_unsent hb = (Some aid, env) # rest \<Longrightarrow>
    hub_step cd hb (hub_notify_character aid env (hb\<lparr>hb_unsent := rest\<rparr>))"
| hub_subscribed: "fmlookup (hb_objs hb) i = None \<Longrightarrow> hub_subscribe cd io i after buffer hb = Inr (hb', head) \<Longrightarrow> hub_step cd hb hb'"
| hub_subscribed_character: "fmlookup (hb_objs hb) i = None \<Longrightarrow>
    hub_subscribe_character cd io aid i after buffer hb = Inr (hb', head) \<Longrightarrow> hub_step cd hb hb'"
| hub_unsubscribed: "hub_step cd hb (hub_unsubscribe i hb)"
| hub_closed: "hub_step cd hb (hub_close hb)"
| hub_reopened: "hub_step cd hb (open_hub (hb_db hb))"
| hub_pumped: "fmlookup (hb_objs hb) i = Some sub \<Longrightarrow> pump_step sub sub' \<Longrightarrow>
    hub_step cd hb (hb\<lparr>hb_objs := fmupd i sub' (hb_objs hb)\<rparr>)"

inductive_cases hub_stepE: "hub_step cd hb hb'"

inductive hub_reachable :: "'b wire_codec \<Rightarrow> 'b hub \<Rightarrow> bool" for cd where
  hub_opened: "hub_reachable cd (open_hub empty_database)"
| hub_stepped: "hub_reachable cd hb \<Longrightarrow> hub_step cd hb hb' \<Longrightarrow> hub_reachable cd hb'"

end
