(* ===== verification/Subscribe_Props.thy ===== *)
theory Subscribe_Props
  imports Subscribe Store_Log
begin

text \<open>
  What a subscriber gets: in every reachable store, whatever appends, notifications, subscriptions and pump
  steps interleave, what a consumer has received is a prefix of its log after the sequence it asked
  from, and an open subscription whose consumer keeps reading gets all of it.
\<close>

subsection \<open>One subscriber\<close>

definition after_only :: "int \<Rightarrow> int \<Rightarrow> envelope list \<Rightarrow> envelope list" where
  "after_only a b es = filter (\<lambda>e. a < env_sequence e \<and> env_sequence e \<le> b) es"

definition held_back :: "subscriber \<Rightarrow> envelope list" where
  "held_back sub = (case sb_at sub of Sending env \<Rightarrow> [env] | _ \<Rightarrow> [])"

definition flow :: "subscriber \<Rightarrow> envelope list" where
  "flow sub = sb_got sub @ sb_ch sub @ held_back sub"

definition numbered_log :: "envelope list \<Rightarrow> bool" where
  "numbered_log es = (map env_sequence es = [1 .. int (length es)])"

definition sub_ok :: "envelope list \<Rightarrow> int \<Rightarrow> subscriber \<Rightarrow> bool" where
  "sub_ok es told sub =
     ((\<exists>rest. filter (\<lambda>e. sb_after sub < env_sequence e) es = flow sub @ rest) \<and>
      (\<not> sb_closed sub \<longrightarrow> flow sub @ sb_pending sub = after_only (sb_after sub) (sb_last sub) es \<and>
         told \<le> max (sb_last sub) 0 \<and> sb_after sub \<le> sb_last sub \<and>
         sb_last sub \<le> max (int (length es)) (sb_after sub) \<and> sb_at sub \<noteq> Gone \<and>
         (sb_at sub = Waiting \<and> sb_pending sub \<noteq> [] \<longrightarrow> sb_wake sub)))"

lemma pump_step_frame:
  "pump_step sub sub' \<Longrightarrow> sb_topic sub' = sb_topic sub \<and> sb_after sub' = sb_after sub \<and> (sb_closed sub \<longrightarrow> sb_closed sub')"
  by (erule pump_step.cases) (auto simp: next_event_def mark_stopped_def split: if_splits list.splits)

lemma mark_stopped_ok: "sub_ok es told sub \<Longrightarrow> sub_ok es told (mark_stopped sub)"
  by (simp add: sub_ok_def flow_def held_back_def mark_stopped_def)

subsection \<open>The numbered log\<close>

lemma numbered_nth: "numbered_log es \<Longrightarrow> i < length es \<Longrightarrow> env_sequence (es ! i) = int i + 1"
  unfolding numbered_log_def using nth_map[of i es env_sequence] by (simp add: nth_upto)

lemma numbered_last: "numbered_log es \<Longrightarrow> es \<noteq> [] \<Longrightarrow> env_sequence (last es) = int (length es)"
  using numbered_nth[of es "length es - 1"] by (cases es rule: rev_cases) (simp_all add: nth_append)

lemma numbered_mem:
  assumes "numbered_log es" and "e \<in> set es"
  shows "1 \<le> env_sequence e \<and> env_sequence e \<le> int (length es)"
proof -
  obtain i where "i < length es" "e = es ! i" using assms(2) by (auto simp: in_set_conv_nth)
  with numbered_nth[OF assms(1)] show ?thesis by simp
qed

lemma after_only_whole: "numbered_log es \<Longrightarrow> int (length es) \<le> b \<Longrightarrow> after_only a b es = filter (\<lambda>e. a < env_sequence e) es"
  unfolding after_only_def using numbered_mem[of es] by (intro filter_cong refl) fastforce

lemma numbered_take: "numbered_log es \<Longrightarrow> e \<in> set (take k es) \<Longrightarrow> env_sequence e \<le> int k"
proof -
  assume num: "numbered_log es" and e: "e \<in> set (take k es)"
  then obtain i where "i < length (take k es)" "take k es ! i = e" by (auto simp: in_set_conv_nth)
  with numbered_nth[OF num, of i] show "env_sequence e \<le> int k" by simp
qed

lemma numbered_drop: "numbered_log es \<Longrightarrow> e \<in> set (drop k es) \<Longrightarrow> int k < env_sequence e"
proof -
  assume num: "numbered_log es" and e: "e \<in> set (drop k es)"
  then obtain i where "i < length (drop k es)" "drop k es ! i = e" by (auto simp: in_set_conv_nth)
  with numbered_nth[OF num, of "k + i"] show "int k < env_sequence e" by simp
qed

lemma after_only_prefix:
  assumes "numbered_log es"
  shows "\<exists>rest. filter (\<lambda>e. a < env_sequence e) es = after_only a b es @ rest"
proof -
  let ?k = "nat b"
  have "es = take ?k es @ drop ?k es" by simp
  have low: "env_sequence e \<le> b" if "e \<in> set (take ?k es)" for e
    using numbered_take[OF assms that] that by (cases "0 \<le> b") auto
  have high: "b < env_sequence e" if "e \<in> set (drop ?k es)" for e
    using numbered_drop[OF assms that] by (cases "0 \<le> b") auto
  have "after_only a b es = after_only a b (take ?k es) @ after_only a b (drop ?k es)"
    unfolding after_only_def by (metis append_take_drop_id filter_append)
  also have "after_only a b (take ?k es) = filter (\<lambda>e. a < env_sequence e) (take ?k es)"
    using low by (auto simp: after_only_def intro!: filter_cong)
  also have "after_only a b (drop ?k es) = []"
    using high by (fastforce simp: after_only_def filter_empty_conv)
  finally have "after_only a b es = filter (\<lambda>e. a < env_sequence e) (take ?k es)" by simp
  then show ?thesis
    by (intro exI[of _ "filter (\<lambda>e. a < env_sequence e) (drop ?k es)"]) (simp add: filter_append[symmetric])
qed

lemma after_only_next:
  assumes "numbered_log es" and "i < length es" and "a \<le> int i"
  shows "after_only a (int i + 1) es = after_only a (int i) es @ [es ! i]"
proof -
  have es: "es = take i es @ es ! i # drop (Suc i) es" using assms(2) by (simp add: id_take_nth_drop)
  have seq: "env_sequence (es ! i) = int i + 1" by (rule numbered_nth[OF assms(1,2)])
  have low: "env_sequence e \<le> int i" if "e \<in> set (take i es)" for e by (rule numbered_take[OF assms(1) that])
  have high: "int i + 1 < env_sequence e" if "e \<in> set (drop (Suc i) es)" for e
    using numbered_drop[OF assms(1) that] by simp
  have parts: "after_only a b es = after_only a b (take i es) @ after_only a b [es ! i] @ after_only a b (drop (Suc i) es)" for b
    unfolding after_only_def using arg_cong[OF es, of "filter (\<lambda>e. a < env_sequence e \<and> env_sequence e \<le> b)"] by simp
  have "after_only a b (drop (Suc i) es) = []" if "b \<le> int i + 1" for b
    using high that by (fastforce simp: after_only_def filter_empty_conv)
  moreover have "after_only a (int i + 1) (take i es) = after_only a (int i) (take i es)"
    using low by (fastforce simp: after_only_def intro: filter_cong)
  moreover have "after_only a (int i + 1) [es ! i] = [es ! i]" "after_only a (int i) [es ! i] = []"
    using seq assms(3) by (simp_all add: after_only_def)
  ultimately show ?thesis using parts[of "int i + 1"] parts[of "int i"] by simp
qed

lemma pump_step_ok:
  assumes "pump_step sub sub'" and "sub_ok es told sub" and "numbered_log es"
  shows "sub_ok es told sub'"
  using assms(1)
proof (cases rule: pump_step.cases)
  case (found env sub1)
  then obtain envs where sub: "\<not> sb_closed sub" "sb_pending sub = env # envs" "sb_at sub = Looking"
    "sub' = sub\<lparr>sb_pending := envs, sb_at := Sending env\<rparr>"
    by (auto simp: next_event_def split: if_splits list.splits)
  have queued: "flow sub' @ envs = after_only (sb_after sub) (sb_last sub) es"
    using assms(2) sub by (simp add: sub_ok_def flow_def held_back_def)
  obtain rest where "filter (\<lambda>e. sb_after sub < env_sequence e) es = flow sub' @ envs @ rest"
    using after_only_prefix[OF assms(3), of "sb_after sub" "sb_last sub"] by (auto simp flip: queued)
  with queued assms(2) sub show ?thesis by (auto simp: sub_ok_def)
qed (use assms(2) in \<open>auto simp: sub_ok_def flow_def held_back_def next_event_def mark_stopped_def split: if_splits list.splits\<close>)

text \<open>A longer log keeps what was said of a subscriber.\<close>

lemma sub_ok_grow:
  assumes "sub_ok es told sub" and "numbered_log (es @ newer)"
  shows "sub_ok (es @ newer) told sub"
proof -
  have high: "int (length es) < env_sequence e" if "e \<in> set newer" for e
    using numbered_drop[OF assms(2), of e "length es"] that by simp
  have "after_only (sb_after sub) (sb_last sub) newer = []" if "\<not> sb_closed sub"
    using high assms(1) that by (fastforce simp: sub_ok_def after_only_def filter_empty_conv)
  then show ?thesis using assms(1) by (auto simp: sub_ok_def after_only_def)
qed

lemma enqueue_ok:
  assumes ok: "sub_ok es (int i) sub" and num: "numbered_log es" and i: "i < length es"
  shows "sub_ok es (int i + 1) (enqueue (es ! i) sub)"
proof -
  have seq: "env_sequence (es ! i) = int i + 1" by (rule numbered_nth[OF num i])
  show ?thesis
  proof (cases "sb_closed sub \<or> int i + 1 \<le> sb_last sub")
    case True
    then show ?thesis using ok seq by (auto simp: enqueue_def sub_ok_def)
  next
    case False
    then have last: "\<not> sb_closed sub" "sb_last sub \<le> int i" and told: "int i \<le> max (sb_last sub) 0"
      using ok by (auto simp: sub_ok_def)
    have q: "flow sub @ sb_pending sub = after_only (sb_after sub) (sb_last sub) es" using ok last(1) by (simp add: sub_ok_def)
    have same: "after_only (sb_after sub) (sb_last sub) es = after_only (sb_after sub) (int i) es"
    proof (cases "sb_last sub = int i")
      case False
      with last(2) told have "i = 0" "sb_last sub < 0" by auto
      then show ?thesis using numbered_mem[OF num] by (fastforce simp: after_only_def filter_empty_conv intro!: filter_cong)
    qed simp
    let ?sub = "sub\<lparr>sb_pending := sb_pending sub @ [es ! i], sb_last := int i + 1, sb_wake := True\<rparr>"
    have after: "sb_after sub \<le> int i" using ok last by (simp add: sub_ok_def)
    have "flow ?sub @ sb_pending ?sub = after_only (sb_after sub) (sb_last ?sub) es"
      using q same after_only_next[OF num i after] by (simp add: flow_def held_back_def)
    then show ?thesis using ok last False seq after i by (auto simp: enqueue_def sub_ok_def flow_def held_back_def)
  qed
qed

subsection \<open>The liveness of a pump\<close>

text \<open>A pump that is not timed out, with a consumer that reads.\<close>

definition pump_progress :: "subscriber \<Rightarrow> subscriber \<Rightarrow> bool" where
  "pump_progress sub sub' = (pump_step sub sub' \<and> \<not> sb_closed sub')"

definition pump_work :: "subscriber \<Rightarrow> nat" where
  "pump_work sub = 4 * length (sb_pending sub) + length (sb_ch sub) + (if sb_wake sub then 2 else 0) +
     (case sb_at sub of Sending _ \<Rightarrow> 3 | Looking \<Rightarrow> 1 | _ \<Rightarrow> 0)"

lemma pump_progress_works: "pump_progress sub sub' \<Longrightarrow> pump_work sub' < pump_work sub"
  unfolding pump_progress_def
  by (elim conjE, erule pump_step.cases)
    (auto simp: pump_work_def next_event_def mark_stopped_def split: if_splits list.splits)

lemma pump_progress_frame:
  assumes "pump_progress sub sub'"
  shows "sb_after sub' = sb_after sub \<and> sb_last sub' = sb_last sub \<and> \<not> sb_closed sub"
  using assms unfolding pump_progress_def
  by (elim conjE) (erule pump_step.cases; auto simp: next_event_def mark_stopped_def split: if_splits list.splits)

lemma pump_stuck:
  assumes "\<nexists>sub'. pump_progress sub sub'" and "\<not> sb_closed sub" and "sub_ok es told sub"
  shows "sb_got sub = after_only (sb_after sub) (sb_last sub) es"
proof -
  have stuck: "pump_step sub sub' \<Longrightarrow> sb_closed sub'" for sub' using assms(1) by (auto simp: pump_progress_def)
  have ch: "sb_ch sub = []"
  proof (cases "sb_ch sub")
    case (Cons env envs)
    from stuck[OF received[OF this]] assms(2) show ?thesis by simp
  qed simp
  have at: "sb_at sub = Waiting"
  proof (cases "sb_at sub")
    case Looking
    show ?thesis
    proof (cases "next_event sub")
      case None
      from stuck[OF found_none[OF Looking None]] assms(2) show ?thesis by simp
    next
      case (Some p)
      obtain env sub1 where p: "p = (env, sub1)" by fastforce
      with Some have "sb_closed sub1 = sb_closed sub" by (auto simp: next_event_def split: if_splits list.splits)
      with stuck[OF found[OF Looking]] Some p assms(2) show ?thesis by simp
    qed
  next
    case (Sending env)
    show ?thesis
    proof (cases "sb_cap sub = 0")
      case True
      from stuck[OF handed_over[OF Sending True ch]] assms(2) show ?thesis by simp
    next
      case False
      from stuck[OF handed[OF Sending]] False ch assms(2) show ?thesis by simp
    qed
  next
    case Gone
    with assms(2,3) show ?thesis by (simp add: sub_ok_def)
  qed simp
  have "\<not> sb_wake sub" using stuck[OF woken[OF at]] assms(2) by auto
  then have "sb_pending sub = []" using at assms(2,3) by (auto simp: sub_ok_def)
  with at ch assms(2,3) show ?thesis by (simp add: sub_ok_def flow_def held_back_def)
qed

lemma pump_drains:
  assumes "sub_ok es told sub" and "\<not> sb_closed sub" and "numbered_log es"
  shows "\<exists>sub'. pump_progress\<^sup>*\<^sup>* sub sub' \<and> sb_got sub' = after_only (sb_after sub) (sb_last sub) es"
  using assms(1,2)
proof (induction "pump_work sub" arbitrary: sub rule: less_induct)
  case less
  show ?case
  proof (cases "\<exists>sub'. pump_progress sub sub'")
    case False
    with pump_stuck[of sub es told] less.prems show ?thesis by blast
  next
    case True
    then obtain sub1 where step: "pump_progress sub sub1" by blast
    then have ok: "sub_ok es told sub1" "\<not> sb_closed sub1"
      using pump_step_ok[OF _ less.prems(1) assms(3)] by (auto simp: pump_progress_def)
    from less.hyps[OF pump_progress_works[OF step] ok] obtain sub' where
      "pump_progress\<^sup>*\<^sup>* sub1 sub'" "sb_got sub' = after_only (sb_after sub1) (sb_last sub1) es" by blast
    with step pump_progress_frame[OF step] show ?thesis by (metis converse_rtranclp_into_rtranclp)
  qed
qed

subsection \<open>The store's invariant\<close>

definition log_at :: "envelope list \<Rightarrow> (string \<Rightarrow> (int \<times> envelope) list) \<Rightarrow> string option \<Rightarrow> envelope list" where
  "log_at es wes t = (case t of None \<Rightarrow> es | Some aid \<Rightarrow> map snd (wes aid))"

definition registered :: "'b hub \<Rightarrow> string option \<Rightarrow> nat list" where
  "registered hb t = (case t of None \<Rightarrow> hb_subs hb | Some aid \<Rightarrow> chars_of hb aid)"

definition unsent_on :: "(string option \<times> envelope) list \<Rightarrow> string option \<Rightarrow> envelope list" where
  "unsent_on us t = map snd (filter (\<lambda>(u, _). u = t) us)"

definition subs_ok :: "(string option \<Rightarrow> envelope list) \<Rightarrow> (string option \<Rightarrow> nat) \<Rightarrow> (string option \<Rightarrow> nat list) \<Rightarrow>
    (nat, subscriber) fmap \<Rightarrow> bool" where
  "subs_ok lg told reg objs =
     ((\<forall>i sub. fmlookup objs i = Some sub \<longrightarrow>
         sub_ok (lg (sb_topic sub)) (int (told (sb_topic sub))) sub \<and>
         (\<not> sb_closed sub \<longrightarrow> i \<in> set (reg (sb_topic sub)))) \<and>
      (\<forall>t. \<forall>i \<in> set (reg t). \<exists>sub. fmlookup objs i = Some sub \<and> sb_topic sub = t) \<and>
      (\<forall>t. distinct (reg t)))"

definition hub_holds :: "'b wire_codec \<Rightarrow> 'b hub \<Rightarrow> envelope list \<Rightarrow> (string \<Rightarrow> (int \<times> envelope) list) \<Rightarrow>
    (string option \<Rightarrow> nat) \<Rightarrow> bool" where
  "hub_holds cd hb es wes told =
     (store_holds cd (hb_db hb) es \<and> (\<forall>aid. store_log_holds cd (hb_db hb) aid (wes aid)) \<and>
      (\<forall>t. told t \<le> length (log_at es wes t) \<and> unsent_on (hb_unsent hb) t = drop (told t) (log_at es wes t)) \<and>
      subs_ok (log_at es wes) told (registered hb) (hb_objs hb))"

lemma log_at_numbered:
  assumes "store_holds cd db es" and "\<And>aid. store_log_holds cd db aid (wes aid)"
  shows "numbered_log (log_at es wes t)"
proof (cases t)
  case None
  then show ?thesis using sl.numbered[OF assms(1)] by (simp add: log_at_def numbered_log_def)
next
  case (Some aid)
  then show ?thesis using slc.log_numbered[OF assms(2), of aid] by (simp add: log_at_def numbered_log_def)
qed

lemma subs_okD:
  assumes "subs_ok lg told reg objs"
  shows "fmlookup objs i = Some sub \<Longrightarrow> sub_ok (lg (sb_topic sub)) (int (told (sb_topic sub))) sub"
    and "fmlookup objs i = Some sub \<Longrightarrow> \<not> sb_closed sub \<Longrightarrow> i \<in> set (reg (sb_topic sub))"
    and "i \<in> set (reg t) \<Longrightarrow> \<exists>sub. fmlookup objs i = Some sub \<and> sb_topic sub = t"
    and "distinct (reg t)"
  using assms by (auto simp: subs_ok_def)

lemma fold_on_sub:
  assumes "distinct ids"
  shows "fmlookup (fold (on_sub f) ids objs) i = (if i \<in> set ids then map_option f (fmlookup objs i) else fmlookup objs i)"
  using assms
proof (induction ids arbitrary: objs)
  case (Cons k ids)
  have at: "fmlookup (on_sub f k objs) j = (if j = k then map_option f (fmlookup objs j) else fmlookup objs j)" for j
    by (simp add: on_sub_def split: option.splits)
  from Cons show ?case by (simp add: at)
qed simp

lemma enqueue_frame [simp]:
  "sb_topic (enqueue env sub) = sb_topic sub" "sb_closed (enqueue env sub) = sb_closed sub"
  by (simp_all add: enqueue_def)

lemma mark_stopped_frame [simp]: "sb_topic (mark_stopped sub) = sb_topic sub" "sb_closed (mark_stopped sub)"
  "mark_stopped (mark_stopped sub) = mark_stopped sub"
  by (simp_all add: mark_stopped_def)

text \<open>Telling the next event of a log.\<close>

lemma enqueue_all_ok:
  assumes ok: "subs_ok lg told reg objs" and num: "numbered_log (lg t)" and i: "told t < length (lg t)"
    and run: "enqueue_all (lg t ! told t) (reg t) objs = (ids, objs')"
  shows "subs_ok lg (told(t := Suc (told t))) (reg(t := ids)) objs'"
proof -
  let ?env = "lg t ! told t"
  note D = subs_okD[OF ok]
  have "env_sequence ?env \<noteq> 0" using numbered_nth[OF num i] by simp
  then have objs': "objs' = fold (on_sub (enqueue ?env)) (reg t) objs" and ids: "ids = filter (live_sub objs') (reg t)"
    using run by (auto simp: enqueue_all_def Let_def)
  have at: "fmlookup objs' k = (if k \<in> set (reg t) then map_option (enqueue ?env) (fmlookup objs k) else fmlookup objs k)" for k
    unfolding objs' by (rule fold_on_sub[OF D(4)])
  have each: "sub_ok (lg (sb_topic sub)) (int ((told(t := Suc (told t))) (sb_topic sub))) sub \<and>
      (\<not> sb_closed sub \<longrightarrow> k \<in> set ((reg(t := ids)) (sb_topic sub)))" if sub: "fmlookup objs' k = Some sub" for k sub
  proof (cases "k \<in> set (reg t)")
    case True
    then obtain old where old: "fmlookup objs k = Some old" "sb_topic old = t" "sub = enqueue ?env old"
      using D(3)[OF True] sub at by auto
    from enqueue_ok[OF _ num i, of old] D(1)[OF old(1)] old(2,3)
    have "sub_ok (lg t) (int (told t) + 1) sub" by simp
    moreover have "\<not> sb_closed sub \<longrightarrow> k \<in> set ids" using True sub by (simp add: ids live_sub_def)
    ultimately show ?thesis using old(2,3) by (simp add: algebra_simps)
  next
    case False
    then have old: "fmlookup objs k = Some sub" using sub at by simp
    show ?thesis
    proof (cases "sb_topic sub = t")
      case True
      with D(2)[OF old] False have "sb_closed sub" by auto
      with True D(1)[OF old] show ?thesis by (simp add: sub_ok_def)
    next
      case other: False
      with D(1,2)[OF old] show ?thesis by simp
    qed
  qed
  have "\<exists>sub. fmlookup objs' k = Some sub \<and> sb_topic sub = u" if k: "k \<in> set ((reg(t := ids)) u)" for k u
  proof -
    have "k \<in> set (reg u)" using k by (auto simp: ids split: if_splits)
    from D(3)[OF this] show ?thesis by (auto simp: at)
  qed
  moreover have "distinct ((reg(t := ids)) u)" for u using D(4) by (simp add: ids)
  ultimately show ?thesis using each by (simp add: subs_ok_def)
qed


subsection \<open>Every step of the store keeps the invariant\<close>

lemma unsent_on_simps [simp]:
  "unsent_on [] t = []"
  "unsent_on (p # us) t = (if fst p = t then [snd p] else []) @ unsent_on us t"
  "unsent_on (us @ vs) t = unsent_on us t @ unsent_on vs t"
  by (auto simp: unsent_on_def split_beta)

lemma unsent_world: "unsent_on (map (Pair None) world) t = (if t = None then world else [])"
  by (induction world) auto

lemma unsent_characters:
  "unsent_on (zip (map (Some \<circ> f) vs) told) t =
     (case t of None \<Rightarrow> [] | Some aid \<Rightarrow> map snd (filter (\<lambda>(k, _). k = aid) (zip (map f vs) told)))"
proof (induction vs arbitrary: told)
  case (Cons v vs)
  then show ?case by (cases told) (auto split: option.splits)
qed (simp split: option.splits)

lemma subs_ok_grow:
  assumes "subs_ok lg told reg objs" and "\<And>t. \<exists>newer. lg' t = lg t @ newer" and "\<And>t. numbered_log (lg' t)"
  shows "subs_ok lg' told reg objs"
proof -
  have "sub_ok (lg' t) k sub" if "sub_ok (lg t) k sub" for t k sub
    using sub_ok_grow[OF that] assms(2)[of t] assms(3)[of t] by auto
  with assms(1) show ?thesis by (simp add: subs_ok_def)
qed

lemma hub_append_holds:
  assumes held: "hub_holds cd hb es wes told" and none: "hb_unsent hb = []"
    and run: "append_values cd io envs vs (hb_db hb) = Inr (first, db, world, heard)"
  shows "hub_holds cd (hb\<lparr>hb_db := db, hb_unsent := map (Pair None) world @ zip (map (Some \<circ> ve_actor_id) vs) heard\<rparr>)
    (es @ world) (\<lambda>aid. wes aid @ entries_added first aid (int (length (wes aid)) + 1) vs) told"
proof -
  let ?wes = "\<lambda>aid. wes aid @ entries_added first aid (int (length (wes aid)) + 1) vs"
  have db: "store_holds cd (hb_db hb) es" and dbs: "\<And>aid. store_log_holds cd (hb_db hb) aid (wes aid)"
    using held by (simp_all add: hub_holds_def)
  have kept: "store_holds cd db (es @ world)" using sl.append_adds[OF db run] by blast
  have keeps: "store_log_holds cd db aid (?wes aid)" for aid by (rule slc.append_logs[OF db dbs run])
  have told: "told t = length (log_at es wes t)" for t
    using held none by (auto simp: hub_holds_def intro: le_antisym)
  have grown: "log_at (es @ world) ?wes t = log_at es wes t @
      unsent_on (map (Pair None) world @ zip (map (Some \<circ> ve_actor_id) vs) heard) t" for t
    by (cases t) (simp_all add: log_at_def unsent_world unsent_characters slc.append_tells[OF db dbs run])
  have "\<exists>newer. log_at (es @ world) ?wes t = log_at es wes t @ newer" for t using grown by blast
  then have "subs_ok (log_at (es @ world) ?wes) told (registered hb) (hb_objs hb)"
    using held subs_ok_grow[of "log_at es wes"] log_at_numbered[OF kept keeps] by (simp add: hub_holds_def)
  moreover have "registered (hb\<lparr>hb_db := db, hb_unsent := us\<rparr>) = registered hb" for us
    by (simp add: registered_def chars_of_def fun_eq_iff split: option.splits)
  ultimately show ?thesis using kept keeps by (simp add: hub_holds_def grown told)
qed

text \<open>Telling the next event, of the world or of a character.\<close>

lemma hub_tell_holds:
  assumes held: "hub_holds cd hb es wes told" and head_of: "hb_unsent hb = (t, env) # rest"
    and run: "enqueue_all env (registered hb t) (hb_objs hb) = (ids, objs)"
    and hb': "hb_db hb' = hb_db hb" "hb_unsent hb' = rest" "hb_objs hb' = objs"
      "registered hb' = (registered hb)(t := ids)"
  shows "hub_holds cd hb' es wes (told(t := Suc (told t)))"
proof -
  let ?lg = "log_at es wes"
  have db: "store_holds cd (hb_db hb) es" and dbs: "\<And>aid. store_log_holds cd (hb_db hb) aid (wes aid)"
    and subs: "subs_ok ?lg told (registered hb) (hb_objs hb)"
    and unsent: "\<And>u. told u \<le> length (?lg u)" "\<And>u. unsent_on (hb_unsent hb) u = drop (told u) (?lg u)"
    using held by (simp_all add: hub_holds_def)
  have head: "drop (told t) (?lg t) = env # unsent_on rest t" using unsent(2)[of t] head_of by simp
  then have i: "told t < length (?lg t)" by (metis drop_all linorder_not_less list.distinct(1))
  have env: "env = ?lg t ! told t" "drop (Suc (told t)) (?lg t) = unsent_on rest t"
    using head i Cons_nth_drop_Suc[OF i] by simp_all
  have "drop ((told(t := Suc (told t))) u) (?lg u) = unsent_on rest u" for u
    using env(2) unsent(2)[of u] head_of by auto
  moreover have "(told(t := Suc (told t))) u \<le> length (?lg u)" for u using i unsent(1) by simp
  moreover have "subs_ok ?lg (told(t := Suc (told t))) ((registered hb)(t := ids)) objs"
    using enqueue_all_ok[OF subs log_at_numbered[OF db dbs] i] run env(1) by blast
  ultimately show ?thesis using db dbs by (simp add: hub_holds_def hb')
qed

lemma registered_notify:
  "enqueue_all env (hb_subs hb) (hb_objs hb) = (ids, objs) \<Longrightarrow>
     registered (hub_notify env hb) = (registered hb)(None := ids) \<and> hb_objs (hub_notify env hb) = objs \<and>
     hb_db (hub_notify env hb) = hb_db hb \<and> hb_unsent (hub_notify env hb) = hb_unsent hb"
  by (auto simp: hub_notify_def registered_def chars_of_def fun_eq_iff split: option.splits)

lemma registered_notify_character:
  "enqueue_all env (chars_of hb aid) (hb_objs hb) = (ids, objs) \<Longrightarrow>
     registered (hub_notify_character aid env hb) = (registered hb)(Some aid := ids) \<and>
     hb_objs (hub_notify_character aid env hb) = objs \<and> hb_db (hub_notify_character aid env hb) = hb_db hb \<and>
     hb_unsent (hub_notify_character aid env hb) = hb_unsent hb"
  by (auto simp: hub_notify_character_def registered_def chars_of_def fun_eq_iff split: option.splits)


text \<open>A new subscription.\<close>

lemma start_subscriber_ok:
  assumes num: "numbered_log es" and told: "told \<le> length es"
    and start: "start_subscriber t after buffer (Inr (filter (\<lambda>e. after < env_sequence e) es)) = Inr sub"
  shows "sub_ok es (int told) sub \<and> sb_topic sub = t \<and> sb_after sub = after \<and> \<not> sb_closed sub"
proof -
  let ?events = "filter (\<lambda>e. after < env_sequence e) es"
  let ?last = "if ?events = [] then after else env_sequence (last ?events)"
  have sub: "sub = \<lparr>sb_topic = t, sb_after = after, sb_pending = ?events, sb_last = ?last, sb_closed = False,
      sb_wake = False, sb_at = Looking, sb_ch = [], sb_cap = nat buffer, sb_got = []\<rparr>"
    using start by (simp add: start_subscriber_def split: if_splits)
  show ?thesis
  proof (cases "?events = []")
    case True
    have "int (length es) \<le> max after 0"
    proof (cases "es = []")
      case False
      then have "\<not> after < env_sequence (last es)" using True by (simp add: filter_empty_conv)
      with numbered_last[OF num False] show ?thesis by simp
    qed simp
    with True told show ?thesis
      by (simp add: sub sub_ok_def flow_def held_back_def after_only_def)
  next
    case False
    then have es: "es \<noteq> []" by auto
    have head: "env_sequence (last es) = int (length es)" by (rule numbered_last[OF num es])
    obtain e where "e \<in> set es" "after < env_sequence e" using False by (auto simp: filter_empty_conv)
    then have newer: "after < int (length es)" using numbered_mem[OF num] by fastforce
    have "last ?events = last es"
      using es newer head by (cases es rule: rev_cases) simp_all
    then have last: "?last = int (length es)" using False head by simp
    with newer told show ?thesis
      by (simp add: sub sub_ok_def flow_def held_back_def after_only_whole[OF num])
  qed
qed

lemma subs_ok_add:
  assumes ok: "subs_ok lg told reg objs" and fresh: "fmlookup objs i = None"
    and sub: "sub_ok (lg t) (int (told t)) sub" "sb_topic sub = t"
  shows "subs_ok lg told (reg(t := reg t @ [i])) (fmupd i sub objs)"
proof -
  note D = subs_okD[OF ok]
  have "i \<notin> set (reg u)" for u using D(3)[of i u] fresh by auto
  with D sub show ?thesis by (fastforce simp: subs_ok_def)
qed

lemma hub_subscribed_holds:
  assumes held: "hub_holds cd hb es wes told" and fresh: "fmlookup (hb_objs hb) i = None"
    and run: "hub_subscribe cd io i after buffer hb = Inr (hb', head)"
  shows "hub_holds cd hb' es wes told"
proof -
  have db: "store_holds cd (hb_db hb) es" and dbs: "\<And>aid. store_log_holds cd (hb_db hb) aid (wes aid)"
    and told: "told None \<le> length es"
    using held by (simp_all add: hub_holds_def) (metis log_at_def option.simps(4))
  obtain sub where start: "start_subscriber None after buffer (read_after cd io after (hb_db hb)) = Inr sub"
    and hb': "hb' = hb\<lparr>hb_subs := hb_subs hb @ [i], hb_objs := fmupd i sub (hb_objs hb)\<rparr>"
    using run by (auto simp: hub_subscribe_def split: sum.splits)
  have "read_after cd io after (hb_db hb) = Inr (filter (\<lambda>e. after < env_sequence e) es)"
    using start sl.reads_back[OF db] by (auto simp: start_subscriber_def split: if_splits sum.splits)
  then have "sub_ok es (int (told None)) sub \<and> sb_topic sub = None"
    using start_subscriber_ok[of es _ None after buffer sub] start told log_at_numbered[OF db dbs, of None]
    by (simp add: log_at_def)
  then have "subs_ok (log_at es wes) told ((registered hb)(None := registered hb None @ [i])) (fmupd i sub (hb_objs hb))"
    using held fresh by (intro subs_ok_add) (simp_all add: hub_holds_def, simp_all add: log_at_def)
  moreover have "registered hb' = (registered hb)(None := registered hb None @ [i])"
    by (simp add: hb' registered_def chars_of_def fun_eq_iff split: option.splits)
  ultimately show ?thesis using held by (simp add: hub_holds_def hb')
qed

lemma entry_envs:
  "map che_env (map (\<lambda>(w, e). \<lparr>che_world_seq = w, che_env = e\<rparr>) (filter (\<lambda>(w, e). after < env_sequence e) wes)) =
     filter (\<lambda>e. after < env_sequence e) (map snd wes)"
  by (induction wes) auto

lemma hub_subscribed_character_holds:
  assumes held: "hub_holds cd hb es wes told" and fresh: "fmlookup (hb_objs hb) i = None"
    and run: "hub_subscribe_character cd io aid i after buffer hb = Inr (hb', head)"
  shows "hub_holds cd hb' es wes told"
proof -
  let ?t = "Some aid"
  let ?history = "map_sum id (map che_env) (read_character_after cd io aid after (hb_db hb))"
  have db: "store_holds cd (hb_db hb) es" and dbs: "\<And>aid. store_log_holds cd (hb_db hb) aid (wes aid)"
    and told: "told ?t \<le> length (log_at es wes ?t)"
    using held by (simp_all add: hub_holds_def)
  obtain sub where start: "start_subscriber ?t after buffer ?history = Inr sub"
    and hb': "hb' = hb\<lparr>hb_chars := fmupd aid (chars_of hb aid @ [i]) (hb_chars hb), hb_objs := fmupd i sub (hb_objs hb)\<rparr>"
    using run by (auto simp: hub_subscribe_character_def split: sum.splits)
  have "?history = Inr (filter (\<lambda>e. after < env_sequence e) (log_at es wes ?t))"
  proof (cases "read_character_after cd io aid after (hb_db hb)")
    case (Inl err)
    with start show ?thesis by (simp add: start_subscriber_def split: if_splits)
  next
    case (Inr entries)
    with slc.reads_log[OF dbs Inr] entry_envs show ?thesis by (simp add: log_at_def)
  qed
  then have "sub_ok (log_at es wes ?t) (int (told ?t)) sub \<and> sb_topic sub = ?t"
    using start_subscriber_ok[of _ _ ?t after buffer sub] start told log_at_numbered[OF db dbs, of ?t] by simp
  then have "subs_ok (log_at es wes) told ((registered hb)(?t := registered hb ?t @ [i])) (fmupd i sub (hb_objs hb))"
    using held fresh by (intro subs_ok_add) (simp_all add: hub_holds_def)
  moreover have "registered hb' = (registered hb)(?t := registered hb ?t @ [i])"
    by (auto simp: hb' registered_def chars_of_def fun_eq_iff split: option.splits)
  ultimately show ?thesis using held by (simp add: hub_holds_def hb')
qed

text \<open>Steps that only change subscribers.\<close>

lemma hub_holds_subs:
  assumes "hub_holds cd hb es wes told" and "hb_db hb' = hb_db hb" and "hb_unsent hb' = hb_unsent hb"
    and "subs_ok (log_at es wes) told (registered hb') (hb_objs hb')"
  shows "hub_holds cd hb' es wes told"
  using assms by (simp add: hub_holds_def)

lemma subs_ok_objs:
  assumes ok: "subs_ok lg told reg objs"
    and each: "\<And>i sub'. fmlookup objs' i = Some sub' \<Longrightarrow> \<exists>sub. fmlookup objs i = Some sub \<and> sb_topic sub' = sb_topic sub \<and>
        (sb_closed sub \<longrightarrow> sb_closed sub') \<and>
        (sub_ok (lg (sb_topic sub)) (int (told (sb_topic sub))) sub \<longrightarrow>
         sub_ok (lg (sb_topic sub)) (int (told (sb_topic sub))) sub')"
    and same: "\<And>i. fmlookup objs' i = None \<longleftrightarrow> fmlookup objs i = None"
  shows "subs_ok lg told reg objs'"
proof -
  note D = subs_okD[OF ok]
  have "sub_ok (lg (sb_topic sub')) (int (told (sb_topic sub'))) sub' \<and>
      (\<not> sb_closed sub' \<longrightarrow> i \<in> set (reg (sb_topic sub')))" if "fmlookup objs' i = Some sub'" for i sub'
    using each[OF that] D(1,2)[of i] by fastforce
  moreover have "\<exists>sub'. fmlookup objs' i = Some sub' \<and> sb_topic sub' = t" if "i \<in> set (reg t)" for i t
    using D(3)[OF that] same[of i] each[of i] by (cases "fmlookup objs' i") fastforce+
  ultimately show ?thesis using D(4) by (simp add: subs_ok_def)
qed


lemma on_sub_at: "fmlookup (on_sub f k objs) i = (if i = k then map_option f (fmlookup objs i) else fmlookup objs i)"
  by (simp add: on_sub_def split: option.splits)

lemma subs_ok_stop:
  assumes ok: "subs_ok lg told reg objs"
    and objs': "\<And>i. fmlookup objs' i = (if i \<in> I then map_option mark_stopped (fmlookup objs i) else fmlookup objs i)"
  shows "subs_ok lg told reg objs'"
proof (rule subs_ok_objs[OF ok])
  fix i sub'
  assume new: "fmlookup objs' i = Some sub'"
  obtain sub where sub: "fmlookup objs i = Some sub" "sub' = sub \<or> sub' = mark_stopped sub"
    using new unfolding objs' by (cases "i \<in> I") auto
  then show "\<exists>sub. fmlookup objs i = Some sub \<and> sb_topic sub' = sb_topic sub \<and> (sb_closed sub \<longrightarrow> sb_closed sub') \<and>
      (sub_ok (lg (sb_topic sub)) (int (told (sb_topic sub))) sub \<longrightarrow>
       sub_ok (lg (sb_topic sub)) (int (told (sb_topic sub))) sub')"
    using mark_stopped_ok by (intro exI[of _ sub]) auto
qed (simp add: objs')

lemma hub_unsubscribed_holds:
  assumes held: "hub_holds cd hb es wes told"
  shows "hub_holds cd (hub_unsubscribe i hb) es wes told"
proof (rule hub_holds_subs[OF held])
  have "registered (hub_unsubscribe i hb) = registered hb"
    by (simp add: hub_unsubscribe_def registered_def chars_of_def fun_eq_iff split: option.splits)
  moreover have "subs_ok (log_at es wes) told (registered hb) (hb_objs hb)" using held by (simp add: hub_holds_def)
  then have "subs_ok (log_at es wes) told (registered hb) (on_sub mark_stopped i (hb_objs hb))"
    by (rule subs_ok_stop[where I = "{i}"]) (simp add: on_sub_at)
  ultimately show "subs_ok (log_at es wes) told (registered (hub_unsubscribe i hb)) (hb_objs (hub_unsubscribe i hb))"
    by simp (simp add: hub_unsubscribe_def)
qed (simp_all add: hub_unsubscribe_def)

lemma hub_pumped_holds:
  assumes held: "hub_holds cd hb es wes told" and at: "fmlookup (hb_objs hb) i = Some sub" and step: "pump_step sub sub'"
  shows "hub_holds cd (hb\<lparr>hb_objs := fmupd i sub' (hb_objs hb)\<rparr>) es wes told"
proof -
  have num: "numbered_log (log_at es wes t)" for t
    using held by (intro log_at_numbered[of cd "hb_db hb"]) (simp_all add: hub_holds_def)
  have "subs_ok (log_at es wes) told (registered hb) (fmupd i sub' (hb_objs hb))"
  proof (rule subs_ok_objs)
    fix k new
    assume new: "fmlookup (fmupd i sub' (hb_objs hb)) k = Some new"
    show "\<exists>old. fmlookup (hb_objs hb) k = Some old \<and> sb_topic new = sb_topic old \<and> (sb_closed old \<longrightarrow> sb_closed new) \<and>
        (sub_ok (log_at es wes (sb_topic old)) (int (told (sb_topic old))) old \<longrightarrow>
         sub_ok (log_at es wes (sb_topic old)) (int (told (sb_topic old))) new)"
      using new at pump_step_frame[OF step] pump_step_ok[OF step _ num] by (auto split: if_splits)
  qed (use held at in \<open>auto simp: hub_holds_def\<close>)
  moreover have "registered (hb\<lparr>hb_objs := fmupd i sub' (hb_objs hb)\<rparr>) = registered hb"
    by (simp add: registered_def chars_of_def fun_eq_iff split: option.splits)
  ultimately show ?thesis using held by (simp add: hub_holds_def)
qed

text \<open>Closing the store stops every subscriber that is still open.\<close>

definition all_registered :: "'b hub \<Rightarrow> nat list" where
  "all_registered hb = hb_subs hb @ concat (map (chars_of hb) (keys (hb_chars hb)))"

lemma set_all_registered: "set (all_registered hb) = (\<Union>t. set (registered hb t))"
proof -
  have "registered hb (Some aid) = [] \<or> aid \<in> set (keys (hb_chars hb))" for aid
    by (auto simp: registered_def chars_of_def fmlookup_dom_iff split: option.splits)
  then have "(\<Union>t. set (registered hb t)) \<subseteq> set (all_registered hb)"
    by (auto simp: all_registered_def registered_def split: option.splits)
      (metis empty_iff empty_set option.simps(5))
  moreover have "set (all_registered hb) \<subseteq> (\<Union>t. set (registered hb t))"
    by (fastforce simp: all_registered_def registered_def split: option.splits)
  ultimately show ?thesis by blast
qed

lemma hub_closed_holds: "hub_holds cd hb es wes told \<Longrightarrow> hub_holds cd (hub_close hb) es wes told"
proof -
  assume held: "hub_holds cd hb es wes told"
  have ok: "subs_ok (log_at es wes) told (registered hb) (hb_objs hb)" using held by (simp add: hub_holds_def)
  note D = subs_okD[OF ok]
  have stop: "fmlookup (fold (on_sub mark_stopped) ids objs) i =
      (if i \<in> set ids then map_option mark_stopped (fmlookup objs i) else fmlookup objs i)" for ids objs i
    by (induction ids arbitrary: objs) (auto simp: on_sub_at option.map_comp comp_def)
  let ?objs = "fold (on_sub mark_stopped) (all_registered hb) (hb_objs hb)"
  have stopped: "subs_ok (log_at es wes) told (registered hb) ?objs"
    using subs_ok_stop[OF ok, of ?objs "set (all_registered hb)"] stop by simp
  have "sb_closed sub" if sub: "fmlookup ?objs i = Some sub" for i sub
  proof (rule ccontr)
    assume "\<not> sb_closed sub"
    with subs_okD(2)[OF stopped sub] have "i \<in> set (all_registered hb)" by (auto simp: set_all_registered)
    with sub stop have "sb_closed sub" by auto
    with \<open>\<not> sb_closed sub\<close> show False by simp
  qed
  then have "subs_ok (log_at es wes) told (\<lambda>t. []) ?objs"
    using subs_okD(1)[OF stopped] by (simp add: subs_ok_def)
  moreover have "registered (hub_close hb) = (\<lambda>t. [])"
    by (simp add: hub_close_def registered_def chars_of_def fun_eq_iff split: option.splits)
  ultimately have "subs_ok (log_at es wes) told (registered (hub_close hb)) (hb_objs (hub_close hb))"
    by simp (simp add: hub_close_def all_registered_def)
  then show "hub_holds cd (hub_close hb) es wes told"
    by (rule hub_holds_subs[OF held, rotated 2]) (simp_all add: hub_close_def)
qed

lemma hub_opened_holds:
  assumes "store_holds cd db es" and "\<And>aid. store_log_holds cd db aid (wes aid)"
  shows "hub_holds cd (open_hub db) es wes (\<lambda>t. length (log_at es wes t))"
  using assms by (simp add: hub_holds_def open_hub_def subs_ok_def registered_def chars_of_def split: option.splits)

lemma hub_step_holds:
  assumes "hub_step cd hb hb'" and held: "hub_holds cd hb es wes told"
  shows "\<exists>es wes told. hub_holds cd hb' es wes told"
  using assms(1)
proof (cases rule: hub_step.cases)
  case (hub_append io envs vs first db world heard)
  from hub_append_holds[OF held hub_append(2,3)] show ?thesis unfolding hub_append(1) by blast
next
  case (hub_world env rest)
  obtain ids objs where run: "enqueue_all env (hb_subs hb) (hb_objs hb) = (ids, objs)" by fastforce
  have "hub_holds cd hb' es wes (told(None := Suc (told None)))"
    by (rule hub_tell_holds[OF held hub_world(2), of ids objs])
      (use run registered_notify[of env "hb\<lparr>hb_unsent := rest\<rparr>" ids objs] in
        \<open>simp_all add: hub_world(1) registered_def[abs_def] chars_of_def[abs_def]\<close>)
  then show ?thesis by blast
next
  case (hub_character aid env rest)
  obtain ids objs where run: "enqueue_all env (chars_of hb aid) (hb_objs hb) = (ids, objs)" by fastforce
  have "hub_holds cd hb' es wes (told(Some aid := Suc (told (Some aid))))"
    by (rule hub_tell_holds[OF held hub_character(2), of ids objs])
      (use run registered_notify_character[of env "hb\<lparr>hb_unsent := rest\<rparr>" aid ids objs] in
        \<open>simp_all add: hub_character(1) registered_def[abs_def] chars_of_def[abs_def]\<close>)
  then show ?thesis by blast
next
  case (hub_subscribed i io after buffer head)
  from hub_subscribed_holds[OF held hub_subscribed] show ?thesis by blast
next
  case (hub_subscribed_character i io aid after buffer head)
  from hub_subscribed_character_holds[OF held hub_subscribed_character] show ?thesis by blast
next
  case (hub_unsubscribed i)
  with hub_unsubscribed_holds[OF held] show ?thesis by blast
next
  case hub_closed
  with hub_closed_holds[OF held] show ?thesis by blast
next
  case hub_reopened
  with hub_opened_holds held show ?thesis by (metis hub_holds_def)
next
  case (hub_pumped i sub sub')
  with hub_pumped_holds[OF held] show ?thesis by blast
qed


subsection \<open>What a consumer gets\<close>

text \<open>The log a subscription is about, as the store reads it back.\<close>

definition log_after :: "'b wire_codec \<Rightarrow> string option \<Rightarrow> int \<Rightarrow> 'b database \<Rightarrow> store_error + envelope list" where
  "log_after cd t after db =
     (case t of
        None \<Rightarrow> read_after cd (\<lambda>op. False) after db
      | Some aid \<Rightarrow> map_sum id (map che_env) (read_character_after cd (\<lambda>op. False) aid after db))"

lemma read_rows_decodes:
  "\<forall>r \<in> set rows. unmarshal cd (cr_payload r) \<noteq> None \<Longrightarrow> \<exists>logs. read_rows cd rows out = Inr logs"
  by (induction rows arbitrary: out) auto

lemma list_all2_decodes:
  "codec_ok cd \<Longrightarrow> list_all2 (entry_row_of cd) wes rows \<Longrightarrow> \<forall>r \<in> set rows. unmarshal cd (cr_payload r) \<noteq> None"
  by (rotate_tac 1, induction rule: list_all2_induct) (auto simp: entry_row_of_def codec_ok_def)

lemma log_after_holds:
  assumes "store_holds cd db es" and "\<And>aid. store_log_holds cd db aid (wes aid)"
  shows "log_after cd t after db = Inr (filter (\<lambda>e. after < env_sequence e) (log_at es wes t))"
proof (cases t)
  case None
  then show ?thesis using read_after_holds[OF assms(1)] by (simp add: log_after_def log_at_def)
next
  case (Some aid)
  have "\<forall>r \<in> set (character_rows aid db). unmarshal cd (cr_payload r) \<noteq> None"
    using assms(2)[of aid] unfolding store_log_holds_def by (blast dest: list_all2_decodes)
  then have "\<exists>logs. read_rows cd (sort_key cr_seq (filter (\<lambda>r. cr_actor_id r = aid \<and> after < cr_seq r) (db_characters db))) fmempty = Inr logs"
    by (intro read_rows_decodes) (simp add: character_rows_def)
  then obtain entries where read: "read_character_after cd (\<lambda>op. False) aid after db = Inr entries"
    by (auto simp: read_character_after_def)
  have "map che_env entries = filter (\<lambda>e. after < env_sequence e) (map snd (wes aid))"
    unfolding store_reads_log[OF assms(2) read] by (rule entry_envs)
  with Some read show ?thesis by (simp add: log_after_def log_at_def)
qed

lemma reachable_hub_holds:
  assumes "hub_reachable cd hb" and "codec_ok cd"
  shows "\<exists>es wes told. hub_holds cd hb es wes told"
  using assms(1)
proof (induction rule: hub_reachable.induct)
  case hub_opened
  have "store_holds cd empty_database []" "\<And>aid. store_log_holds cd empty_database aid []"
    using assms(2) wf_empty_database
    by (auto simp: store_holds_def store_log_holds_def empty_database_def character_rows_def)
  from hub_opened_holds[OF this] show ?case by blast
next
  case (hub_stepped hb hb')
  then show ?case using hub_step_holds by blast
qed

text \<open>
  C18: In every reachable store, however appends, notifications, new subscriptions, unsubscriptions, timeouts,
  closing and the consumers' reads interleave, the events a consumer has received are the first events of
  its log after the sequence it subscribed from: none lost, none twice, none out of order. The world log
  and the character logs both have it.
\<close>

theorem subscriber_gets_its_log:
  assumes "hub_reachable cd hb" and "codec_ok cd" and "fmlookup (hb_objs hb) i = Some sub"
  shows "\<exists>rest. log_after cd (sb_topic sub) (sb_after sub) (hb_db hb) = Inr (sb_got sub @ rest)"
proof -
  obtain es wes told where held: "hub_holds cd hb es wes told" using reachable_hub_holds[OF assms(1,2)] by blast
  then have "sub_ok (log_at es wes (sb_topic sub)) (int (told (sb_topic sub))) sub"
    using assms(3) subs_okD(1) by (simp add: hub_holds_def) blast
  moreover have "log_after cd (sb_topic sub) (sb_after sub) (hb_db hb) =
      Inr (filter (\<lambda>e. sb_after sub < env_sequence e) (log_at es wes (sb_topic sub)))"
    using held by (intro log_after_holds) (simp_all add: hub_holds_def)
  ultimately show ?thesis by (auto simp: sub_ok_def flow_def)
qed

lemma pump_progress_keeps:
  "(pump_progress ^^ n) sub sub' \<Longrightarrow> sub_ok es told sub \<Longrightarrow> \<not> sb_closed sub \<Longrightarrow> numbered_log es \<Longrightarrow>
     n + pump_work sub' \<le> pump_work sub \<and> sub_ok es told sub' \<and> \<not> sb_closed sub' \<and>
     sb_after sub' = sb_after sub \<and> sb_last sub' = sb_last sub"
proof (induction n arbitrary: sub')
  case (Suc n)
  then obtain mid where mid: "(pump_progress ^^ n) sub mid" "pump_progress mid sub'" by auto
  from Suc.IH[OF mid(1) Suc.prems(2-4)] pump_progress_works[OF mid(2)] pump_progress_frame[OF mid(2)] mid(2)
    pump_step_ok[of mid sub' es told] Suc.prems(4)
  show ?case by (auto simp: pump_progress_def)
qed simp

text \<open>
  C19: Once the events appended have been notified, and while nothing more is appended, a subscription that is
  open and is not timed out delivers: its pump and its consumer take at most \<open>pump_work\<close> steps, and can only stop when the consumer has
  received the whole of its log after the sequence it subscribed from.
\<close>

theorem open_subscriber_drains:
  assumes "hub_reachable cd hb" and "codec_ok cd" and "hb_unsent hb = []"
    and "fmlookup (hb_objs hb) i = Some sub" and "\<not> sb_closed sub" and "(pump_progress ^^ n) sub sub'"
  shows "n \<le> pump_work sub \<and>
    ((\<exists>sub''. pump_progress sub' sub'') \<or> log_after cd (sb_topic sub) (sb_after sub) (hb_db hb) = Inr (sb_got sub'))"
proof -
  obtain es wes told where held: "hub_holds cd hb es wes told" using reachable_hub_holds[OF assms(1,2)] by blast
  let ?lg = "log_at es wes (sb_topic sub)" and ?told = "told (sb_topic sub)"
  have db: "store_holds cd (hb_db hb) es" "\<And>aid. store_log_holds cd (hb_db hb) aid (wes aid)"
    and told: "?told \<le> length ?lg" "drop ?told ?lg = []"
    using held assms(3) by (simp_all add: hub_holds_def)
  have ok: "sub_ok ?lg (int ?told) sub" using held assms(4) subs_okD(1) by (simp add: hub_holds_def) blast
  have num: "numbered_log ?lg" by (rule log_at_numbered[OF db])
  note kept = pump_progress_keeps[OF assms(6) ok assms(5) num]
  have "sb_got sub' = filter (\<lambda>e. sb_after sub < env_sequence e) ?lg" if "\<nexists>sub''. pump_progress sub' sub''"
  proof -
    have whole: "int (length ?lg) \<le> max (sb_last sub) 0" using ok assms(5) told by (simp add: sub_ok_def)
    have "sb_got sub' = after_only (sb_after sub) (sb_last sub) ?lg"
      using pump_stuck[OF that, of ?lg "int ?told"] kept by simp
    moreover have "after_only (sb_after sub) (sb_last sub) ?lg = filter (\<lambda>e. sb_after sub < env_sequence e) ?lg"
    proof (cases "int (length ?lg) \<le> sb_last sub")
      case False
      with whole have "length ?lg = 0" by linarith
      then have "?lg = []" by simp
      then show ?thesis by (simp add: after_only_def)
    qed (rule after_only_whole[OF num])
    ultimately show ?thesis by simp
  qed
  then have "(\<exists>sub''. pump_progress sub' sub'') \<or> log_after cd (sb_topic sub) (sb_after sub) (hb_db hb) = Inr (sb_got sub')"
    using log_after_holds[where db = "hb_db hb" and t = "sb_topic sub" and after = "sb_after sub", OF db] by metis
  moreover have "n \<le> pump_work sub" using kept by linarith
  ultimately show ?thesis by blast
qed


subsection \<open>Witnesses\<close>

text \<open>A store with one subscriber from the start, after one event.\<close>

definition demo_event :: envelope where
  "demo_event = set_sequence 1 (demo_heap 0)"

definition demo_waiting :: subscriber where
  "demo_waiting = \<lparr>sb_topic = None, sb_after = 0, sb_pending = [], sb_last = 0, sb_closed = False, sb_wake = False,
     sb_at = Looking, sb_ch = [], sb_cap = 0, sb_got = []\<rparr>"

definition demo_queued :: subscriber where
  "demo_queued = demo_waiting\<lparr>sb_pending := [demo_event], sb_last := 1, sb_wake := True\<rparr>"

definition demo_served :: subscriber where
  "demo_served = demo_waiting\<lparr>sb_last := 1, sb_wake := True, sb_got := [demo_event]\<rparr>"

lemma demo_codec_keeps: "codec_ok demo_codec"
  by (simp add: codec_ok_def demo_codec_def)

lemma demo_hub_queued:
  "\<exists>hb. hub_reachable demo_codec hb \<and> hb_unsent hb = [] \<and> fmlookup (hb_objs hb) 0 = Some demo_queued \<and>
     map er_seq (db_events (hb_db hb)) = [1]"
proof -
  let ?h0 = "open_hub empty_database :: envelope hub"
  let ?h1 = "?h0\<lparr>hb_subs := [0], hb_objs := fmupd 0 demo_waiting fmempty\<rparr>"
  have "hub_subscribe demo_codec faultless 0 0 0 ?h0 = Inr (?h1, 0)"
    by (simp add: hub_subscribe_def start_subscriber_def read_after_def faultless_def open_hub_def empty_database_def demo_waiting_def)
  then have r1: "hub_reachable demo_codec ?h1"
    by (intro hub_stepped[OF hub_opened hub_subscribed]) (simp_all add: open_hub_def)
  obtain db where run: "append_values demo_codec faultless [demo_heap 0] [] empty_database = Inr (1, db, [demo_event], [])"
    and rows: "map er_seq (db_events db) = [1]"
    by (simp add: append_values_def append_batch_def append_locked_def faultless_def demo_codec_def demo_heap_def
        empty_database_def Let_def insert_event_def write_sequence_def demo_event_def set_sequence_def)
  let ?h2 = "?h1\<lparr>hb_db := db, hb_unsent := [(None, demo_event)]\<rparr>"
  have "hub_step demo_codec ?h1 ?h2"
    using hub_append[of ?h1 demo_codec faultless "[demo_heap 0]" "[]" 1 db "[demo_event]" "[]"] run
    by (simp add: open_hub_def)
  with r1 have r2: "hub_reachable demo_codec ?h2" by (rule hub_stepped)
  let ?h3 = "hub_notify demo_event (?h2\<lparr>hb_unsent := []\<rparr>)"
  have r3: "hub_reachable demo_codec ?h3" by (rule hub_stepped[OF r2 hub_world]) simp
  have "hb_unsent ?h3 = [] \<and> fmlookup (hb_objs ?h3) 0 = Some demo_queued \<and> hb_db ?h3 = db"
    by (simp add: hub_notify_def enqueue_all_def on_sub_def enqueue_def demo_event_def set_sequence_def
        demo_waiting_def demo_queued_def Let_def)
  then have "hb_unsent ?h3 = []" "fmlookup (hb_objs ?h3) 0 = Some demo_queued" "map er_seq (db_events (hb_db ?h3)) = [1]"
    by (simp_all only: rows)
  with r3 show ?thesis by (intro exI[of _ ?h3] conjI)
qed

theorem subscriber_gets_its_log_witness:
  "\<exists>hb. hub_reachable demo_codec hb \<and> map er_seq (db_events (hb_db hb)) = [1] \<and>
     (\<exists>sub rest. fmlookup (hb_objs hb) 0 = Some sub \<and> sb_pending sub = [demo_event] \<and>
        log_after demo_codec None 0 (hb_db hb) = Inr (sb_got sub @ rest))"
proof -
  obtain hb where hb: "hub_reachable demo_codec hb" "fmlookup (hb_objs hb) 0 = Some demo_queued"
    "map er_seq (db_events (hb_db hb)) = [1]"
    using demo_hub_queued by (elim exE conjE)
  have parts: "sb_topic demo_queued = None" "sb_after demo_queued = 0" "sb_pending demo_queued = [demo_event]"
    by (simp_all add: demo_queued_def demo_waiting_def)
  from subscriber_gets_its_log[OF hb(1) demo_codec_keeps hb(2)]
  obtain rest where "log_after demo_codec (sb_topic demo_queued) (sb_after demo_queued) (hb_db hb) = Inr (sb_got demo_queued @ rest)"
    by (rule exE)
  then have "log_after demo_codec None 0 (hb_db hb) = Inr (sb_got demo_queued @ rest)" by (simp only: parts)
  then show ?thesis by (intro exI[of _ hb] conjI hb(1,3) exI[of _ demo_queued] exI[of _ rest] hb(2) parts(3))
qed

lemma demo_served_after: "(pump_progress ^^ 2) demo_queued demo_served"
proof -
  let ?sending = "demo_queued\<lparr>sb_pending := [], sb_at := Sending demo_event\<rparr>"
  have "pump_step demo_queued ((demo_queued\<lparr>sb_pending := []\<rparr>)\<lparr>sb_at := Sending demo_event\<rparr>)"
    by (rule found) (simp_all add: demo_queued_def demo_waiting_def next_event_def)
  then have "pump_progress demo_queued ?sending" by (simp add: pump_progress_def demo_queued_def demo_waiting_def)
  moreover have "pump_step ?sending (?sending\<lparr>sb_got := sb_got ?sending @ [demo_event], sb_at := Looking\<rparr>)"
    by (rule handed_over) (simp_all add: demo_queued_def demo_waiting_def)
  then have "pump_progress ?sending demo_served"
    by (simp add: pump_progress_def demo_queued_def demo_waiting_def demo_served_def)
  ultimately show ?thesis by (auto simp: numeral_2_eq_2)
qed

theorem open_subscriber_drains_witness:
  "2 \<le> pump_work demo_queued \<and> (\<exists>hb. hub_reachable demo_codec hb \<and> fmlookup (hb_objs hb) 0 = Some demo_queued \<and>
     ((\<exists>sub. pump_progress demo_served sub) \<or> log_after demo_codec None 0 (hb_db hb) = Inr [demo_event]))"
proof -
  obtain hb where hb: "hub_reachable demo_codec hb" "hb_unsent hb = []" "fmlookup (hb_objs hb) 0 = Some demo_queued"
    using demo_hub_queued by (elim exE conjE)
  have "\<not> sb_closed demo_queued" by (simp add: demo_queued_def demo_waiting_def)
  note drains = open_subscriber_drains[OF hb(1) demo_codec_keeps hb(2,3) this demo_served_after]
  have "sb_topic demo_queued = None" "sb_after demo_queued = 0" "sb_got demo_served = [demo_event]"
    by (simp_all add: demo_queued_def demo_served_def demo_waiting_def)
  with drains hb(1,3) show ?thesis by metis
qed

end
