(* ===== verification/Command.thy ===== *)
theory Command
  imports Resolve
begin

text \<open>
  The commands of the contract (\<open>contract/vtt/v1/commands.proto\<close>): a \<open>ClientCommand\<close> is a request id and one
  of these variants, \<^const>\<open>None\<close> when its oneof is unset. The roles are those of
  \<open>internal/identity\<close>, a Go string type whose values \<open>ParseRole\<close> limits to four.
\<close>

subsection \<open>Roles\<close>

datatype role = RoleDM | RoleAgent | RolePlayer | RoleSpectator

definition role_name :: "role \<Rightarrow> string" where
  "role_name r = (case r of RoleDM \<Rightarrow> ''dm'' | RoleAgent \<Rightarrow> ''agent'' | RolePlayer \<Rightarrow> ''player'' | RoleSpectator \<Rightarrow> ''spectator'')"

definition parse_role :: "string \<Rightarrow> role option" where
  "parse_role s =
     (if s = ''dm'' then Some RoleDM else if s = ''agent'' then Some RoleAgent
      else if s = ''player'' then Some RolePlayer else if s = ''spectator'' then Some RoleSpectator else None)"

lemma parse_role_name [simp]: "parse_role (role_name r) = Some r"
  by (cases r) (simp_all add: parse_role_def role_name_def)

lemma role_name_inject [simp]: "role_name r = role_name r' \<longleftrightarrow> r = r'"
  by (metis option.inject parse_role_name)

lemma parse_role_Some: "parse_role s = Some r \<longleftrightarrow> s = role_name r"
  by (auto simp: parse_role_def role_name_def split: role.splits if_splits)

record participant =
  pt_id :: string
  pt_name :: string
  pt_role :: role

subsection \<open>Commands\<close>

record place_token =
  pk_token_id :: string
  pk_scene_id :: string
  pk_actor_id :: string
  pk_position :: "grid_position option"
  pk_name :: string
  pk_notes :: string
  pk_gm_name :: string
  pk_gm_notes :: string

record describe_token =
  dk_token_id :: string
  dk_name :: string
  dk_notes :: string
  dk_gm_name :: string
  dk_gm_notes :: string

record add_narration =
  an_text :: string
  an_as :: string
  an_anchor_from :: int
  an_anchor_to :: int
  an_actor_id :: string
  an_out_of_character :: bool

record add_whisper =
  aw_text :: string
  aw_to_actor_ids :: "string list"
  aw_from_actor_id :: string

record upsert_note =
  un_key :: string
  un_title :: string
  un_text :: string
  un_visibility :: note_visibility

record grant_control =
  gc_actor_id :: string
  gc_participant_id :: string
  gc_kind :: actor_kind

datatype join_door = DOOR_UNSPECIFIED | DOOR_OPEN | DOOR_CLOSED | DOOR_OTHER int32

datatype command =
    MoveToken string "grid_position option" string
  | AddActor "actor option"
  | PlaceToken place_token
  | DescribeToken describe_token
  | RemoveToken string
  | RemoveActor string
  | StartSession string
  | EndSession
  | UseAbility use_ability
  | RemoveCondition string string
  | AddNarration add_narration
  | AddWhisper add_whisper
  | UpsertNote upsert_note
  | DeleteNote string
  | LoadAdventure string
  | LoadMap string
  | GrantActorControl grant_control
  | RevokeActorControl string string
  | PromoteParticipant string string
  | RemoveParticipant string
  | SetJoinDoor join_door int32
  | RotateJoinLink
  | OpenDoor string "grid_position option"
  | CloseDoor string "grid_position option"
  | SetViewpoint string

record client_command =
  cc_request_id :: string
  cc_command :: "command option"

end
