(* ===== verification/Identity.thy ===== *)
theory Identity
  imports Command
begin

text \<open>
  \<open>internal/identity/identity.go\<close>: the participants of a campaign, their invite tokens, and the join door. The
  two tables are a list of rows and at most one row; a statement is atomic and may fail (\<open>id_op \<Rightarrow> bool\<close>).
  \<open>sha256.Sum256\<close> is the parameter \<open>hash\<close>, the random bytes are arguments, and \<open>strings.EqualFold\<close>, which
  reads Unicode's folding tables, is the parameter \<open>eqf\<close>. A SQLite flag is a \<open>bool\<close>.
\<close>

subsection \<open>Tables\<close>

record 'h person =
  pw_id :: string
  pw_name :: string
  pw_role :: string
  pw_hash :: 'h
  pw_revoked :: bool

record join_row =
  jr_secret :: string
  jr_open :: bool
  jr_admitted :: int
  jr_limit :: int

text \<open>\<open>ib_columns\<close> are the columns of \<open>join_access\<close> that a file older than the budget lacks.\<close>

record 'h identity_db =
  ib_people :: "'h person list"
  ib_join :: "join_row option"
  ib_columns :: "string list"

datatype id_op =
    CreateTables | ReadShape | ReadStranded | BeginMigrate | ReadShapeLocked | AddColumn string | Rebudget | CommitMigrate
  | ReadJoin | WriteJoin | MintJoin | ReadNames | SpendAdmission | CountSpent
  | WriteRole | CountRole | InsertPerson | ReadToken | ReadPerson | ListPeople | WriteRevoked | CountRevoked

datatype id_error =
    ErrIdDatabase id_op
  | ErrIdConstraint
  | ErrUnknownRole string
  | ErrNameTaken
  | ErrInvalidToken
  | ErrNoParticipant string
  | ErrRandomToken
  | ErrRandomId
  | ErrStoredRole string string

definition default_admit_limit :: int where
  "default_admit_limit = 8"

definition fresh_identity :: "'h identity_db" where
  "fresh_identity = \<lparr>ib_people = [], ib_join = None, ib_columns = [''admitted'', ''admit_limit'']\<rparr>"

subsection \<open>Opening\<close>

definition migration_pending :: "(id_op \<Rightarrow> bool) \<Rightarrow> 'h identity_db \<Rightarrow> id_error + bool" where
  "migration_pending io db =
     (if io ReadShape then Inl (ErrIdDatabase ReadShape)
      else if ''admitted'' \<notin> set (ib_columns db) \<or> ''admit_limit'' \<notin> set (ib_columns db) then Inr True
      else if io ReadStranded then Inl (ErrIdDatabase ReadStranded)
      else Inr (case ib_join db of None \<Rightarrow> False | Some r \<Rightarrow> jr_open r \<and> jr_limit r = 0))"

definition add_column :: "(id_op \<Rightarrow> bool) \<Rightarrow> string \<Rightarrow> (join_row \<Rightarrow> join_row) \<Rightarrow> 'h identity_db \<Rightarrow> id_error + 'h identity_db" where
  "add_column io name zero db =
     (if name \<in> set (ib_columns db) then Inr db
      else if io (AddColumn name) then Inl (ErrIdDatabase (AddColumn name))
      else Inr (db\<lparr>ib_columns := ib_columns db @ [name], ib_join := map_option zero (ib_join db)\<rparr>))"

definition rebudget :: "join_row \<Rightarrow> join_row" where
  "rebudget r = (if jr_open r \<and> jr_limit r = 0 then r\<lparr>jr_limit := default_admit_limit, jr_admitted := 0\<rparr> else r)"

definition migrate_locked :: "(id_op \<Rightarrow> bool) \<Rightarrow> 'h identity_db \<Rightarrow> id_error + 'h identity_db" where
  "migrate_locked io db =
     (if io ReadShapeLocked then Inl (ErrIdDatabase ReadShapeLocked)
      else sum_bind (add_column io ''admitted'' (\<lambda>r. r\<lparr>jr_admitted := 0\<rparr>) db) (\<lambda>db.
        sum_bind (add_column io ''admit_limit'' (\<lambda>r. r\<lparr>jr_limit := 0\<rparr>) db) (\<lambda>db.
        if io Rebudget then Inl (ErrIdDatabase Rebudget)
        else Inr (db\<lparr>ib_join := map_option rebudget (ib_join db)\<rparr>))))"

text \<open>A failed migration is rolled back; the caller keeps the tables as they were.\<close>

definition migrate :: "(id_op \<Rightarrow> bool) \<Rightarrow> 'h identity_db \<Rightarrow> id_error + 'h identity_db" where
  "migrate io db =
     sum_bind (migration_pending io db) (\<lambda>pending.
       if \<not> pending then Inr db
       else if io BeginMigrate then Inl (ErrIdDatabase BeginMigrate)
       else sum_bind (migrate_locked io db) (\<lambda>db'.
         if io CommitMigrate then Inl (ErrIdDatabase CommitMigrate) else Inr db'))"

definition open_identity :: "(id_op \<Rightarrow> bool) \<Rightarrow> 'h identity_db \<Rightarrow> id_error + 'h identity_db" where
  "open_identity io db = (if io CreateTables then Inl (ErrIdDatabase CreateTables) else migrate io db)"

subsection \<open>The join door\<close>

definition join_open :: "(id_op \<Rightarrow> bool) \<Rightarrow> 'h identity_db \<Rightarrow> bool" where
  "join_open io db = (if io ReadJoin then False else case ib_join db of None \<Rightarrow> False | Some r \<Rightarrow> jr_open r)"

definition set_join_open :: "(id_op \<Rightarrow> bool) \<Rightarrow> 8 word list \<Rightarrow> bool \<Rightarrow> int \<Rightarrow> 'h identity_db \<Rightarrow> id_error + 'h identity_db" where
  "set_join_open io bytes opened limit db =
     (let limit = (if limit \<le> 0 then default_admit_limit else limit) in
      if io WriteJoin then Inl (ErrIdDatabase WriteJoin)
      else Inr (db\<lparr>ib_join := Some (case ib_join db of
          None \<Rightarrow> \<lparr>jr_secret = base64_text bytes, jr_open = opened, jr_admitted = 0, jr_limit = limit\<rparr>
        | Some r \<Rightarrow> r\<lparr>jr_open := opened, jr_admitted := 0, jr_limit := limit\<rparr>)\<rparr>))"

definition join_budget :: "(id_op \<Rightarrow> bool) \<Rightarrow> 'h identity_db \<Rightarrow> id_error + int \<times> int" where
  "join_budget io db =
     (if io ReadJoin then Inl (ErrIdDatabase ReadJoin)
      else Inr (case ib_join db of None \<Rightarrow> (0, 0) | Some r \<Rightarrow> (jr_admitted r, jr_limit r)))"

definition ensure_join_row :: "(id_op \<Rightarrow> bool) \<Rightarrow> 8 word list \<Rightarrow> 'h identity_db \<Rightarrow> id_error + string \<times> 'h identity_db" where
  "ensure_join_row io bytes db =
     (if io ReadJoin then Inl (ErrIdDatabase ReadJoin)
      else case ib_join db of
        Some r \<Rightarrow> Inr (jr_secret r, db)
      | None \<Rightarrow>
          if io MintJoin then Inl (ErrIdDatabase MintJoin)
          else Inr (base64_text bytes, db\<lparr>ib_join :=
                 Some \<lparr>jr_secret = base64_text bytes, jr_open = False, jr_admitted = 0, jr_limit = 0\<rparr>\<rparr>))"

definition rotate_join_secret :: "(id_op \<Rightarrow> bool) \<Rightarrow> 8 word list \<Rightarrow> 'h identity_db \<Rightarrow> id_error + string \<times> 'h identity_db" where
  "rotate_join_secret io bytes db =
     (if io WriteJoin then Inl (ErrIdDatabase WriteJoin)
      else Inr (base64_text bytes, db\<lparr>ib_join := Some (case ib_join db of
          None \<Rightarrow> \<lparr>jr_secret = base64_text bytes, jr_open = False, jr_admitted = 0, jr_limit = 0\<rparr>
        | Some r \<Rightarrow> r\<lparr>jr_secret := base64_text bytes, jr_admitted := 0\<rparr>)\<rparr>))"

text \<open>The statements of \<open>JoinAdmits\<close>: what the read decides, the names, and the one conditional update.\<close>

definition door_refuses :: "string \<Rightarrow> join_row option \<Rightarrow> bool" where
  "door_refuses candidate row =
     (case row of
        None \<Rightarrow> True
      | Some r \<Rightarrow> \<not> jr_open r \<or> jr_secret r = [] \<or> jr_secret r \<noteq> candidate \<or> jr_limit r \<le> jr_admitted r)"

definition name_held :: "(string \<Rightarrow> string \<Rightarrow> bool) \<Rightarrow> (id_op \<Rightarrow> bool) \<Rightarrow> string \<Rightarrow> 'h identity_db \<Rightarrow> id_error option" where
  "name_held eqf io name db =
     (if io ReadNames then Some (ErrIdDatabase ReadNames)
      else if list_ex (\<lambda>p. \<not> pw_revoked p \<and> eqf (pw_name p) name) (ib_people db) then Some ErrNameTaken
      else None)"

definition spend_admission :: "(id_op \<Rightarrow> bool) \<Rightarrow> 'h identity_db \<Rightarrow> 'h identity_db \<times> (id_error + bool)" where
  "spend_admission io db =
     (if io SpendAdmission then (db, Inl (ErrIdDatabase SpendAdmission))
      else let (db', n) = (case ib_join db of
                 Some r \<Rightarrow> if jr_open r \<and> jr_admitted r < jr_limit r
                           then (db\<lparr>ib_join := Some (r\<lparr>jr_admitted := jr_admitted r + 1\<rparr>)\<rparr>, True) else (db, False)
               | None \<Rightarrow> (db, False))
           in if io CountSpent then (db', Inl (ErrIdDatabase CountSpent)) else (db', Inr n))"

definition join_admits :: "(string \<Rightarrow> string \<Rightarrow> bool) \<Rightarrow> (id_op \<Rightarrow> bool) \<Rightarrow> string \<Rightarrow> string \<Rightarrow> 'h identity_db \<Rightarrow>
    'h identity_db \<times> (id_error + bool)" where
  "join_admits eqf io candidate name db =
     (if io ReadJoin then (db, Inl (ErrIdDatabase ReadJoin))
      else if door_refuses candidate (ib_join db) then (db, Inr False)
      else case name_held eqf io name db of
        Some err \<Rightarrow> (db, Inl err)
      | None \<Rightarrow> spend_admission io db)"

subsection \<open>Participants\<close>

definition with_role :: "string \<Rightarrow> string \<Rightarrow> 'h person \<Rightarrow> 'h person" where
  "with_role pid r p = (if pw_id p = pid then p\<lparr>pw_role := r\<rparr> else p)"

definition set_role :: "(id_op \<Rightarrow> bool) \<Rightarrow> string \<Rightarrow> string \<Rightarrow> 'h identity_db \<Rightarrow> 'h identity_db \<times> id_error option" where
  "set_role io pid r db =
     (if parse_role r = None then (db, Some (ErrUnknownRole r))
      else if io WriteRole then (db, Some (ErrIdDatabase WriteRole))
      else let db' = db\<lparr>ib_people := map (with_role pid r) (ib_people db)\<rparr> in
        if io CountRole then (db', Some (ErrIdDatabase CountRole))
        else if list_ex (\<lambda>p. pw_id p = pid) (ib_people db) then (db', None)
        else (db', Some (ErrNoParticipant pid)))"

definition insert_person :: "'h person \<Rightarrow> 'h identity_db \<Rightarrow> 'h identity_db option" where
  "insert_person p db =
     (if pw_id p \<in> pw_id ` set (ib_people db) \<or> pw_hash p \<in> pw_hash ` set (ib_people db) then None
      else Some (db\<lparr>ib_people := ib_people db @ [p]\<rparr>))"

text \<open>What follows the name check of \<open>CreateInvite\<close>.\<close>

definition mint_person :: "(string \<Rightarrow> 'h) \<Rightarrow> (id_op \<Rightarrow> bool) \<Rightarrow> string \<Rightarrow> string \<Rightarrow> 8 word list option \<Rightarrow> 8 word list option \<Rightarrow>
    'h identity_db \<Rightarrow> id_error + (string \<times> string) \<times> 'h identity_db" where
  "mint_person hash io name r token_bytes id_bytes db =
     (case token_bytes of
        None \<Rightarrow> Inl ErrRandomToken
      | Some tb \<Rightarrow>
          (case id_bytes of
             None \<Rightarrow> Inl ErrRandomId
           | Some ib \<Rightarrow>
               let token = base64_text tb; pid = hex_text ib in
               if io InsertPerson then Inl (ErrIdDatabase InsertPerson)
               else case insert_person \<lparr>pw_id = pid, pw_name = name, pw_role = r, pw_hash = hash token,
                                         pw_revoked = False\<rparr> db of
                 None \<Rightarrow> Inl ErrIdConstraint
               | Some db' \<Rightarrow> Inr ((token, pid), db')))"

definition create_invite :: "(string \<Rightarrow> string \<Rightarrow> bool) \<Rightarrow> (string \<Rightarrow> 'h) \<Rightarrow> (id_op \<Rightarrow> bool) \<Rightarrow> string \<Rightarrow> string \<Rightarrow>
    8 word list option \<Rightarrow> 8 word list option \<Rightarrow> 'h identity_db \<Rightarrow> id_error + (string \<times> string) \<times> 'h identity_db" where
  "create_invite eqf hash io name r token_bytes id_bytes db =
     (if parse_role r = None then Inl (ErrUnknownRole r)
      else case name_held eqf io name db of
        Some err \<Rightarrow> Inl err
      | None \<Rightarrow> mint_person hash io name r token_bytes id_bytes db)"

definition resolved :: "string \<Rightarrow> 'h person \<Rightarrow> id_error + participant" where
  "resolved pid p =
     (case parse_role (pw_role p) of
        None \<Rightarrow> Inl (ErrStoredRole pid (pw_role p))
      | Some r \<Rightarrow> Inr \<lparr>pt_id = pw_id p, pt_name = pw_name p, pt_role = r\<rparr>)"

definition verify :: "(string \<Rightarrow> 'h) \<Rightarrow> (id_op \<Rightarrow> bool) \<Rightarrow> string \<Rightarrow> 'h identity_db \<Rightarrow> id_error + participant" where
  "verify hash io token db =
     (if io ReadToken then Inl (ErrIdDatabase ReadToken)
      else case find (\<lambda>p. pw_hash p = hash token) (ib_people db) of
        None \<Rightarrow> Inl ErrInvalidToken
      | Some p \<Rightarrow> if pw_revoked p then Inl ErrInvalidToken else resolved [] p)"

definition lookup_id :: "(id_op \<Rightarrow> bool) \<Rightarrow> string \<Rightarrow> 'h identity_db \<Rightarrow> id_error + participant" where
  "lookup_id io pid db =
     (if io ReadPerson then Inl (ErrIdDatabase ReadPerson)
      else case find (\<lambda>p. pw_id p = pid) (ib_people db) of
        None \<Rightarrow> Inl ErrInvalidToken
      | Some p \<Rightarrow> if pw_revoked p then Inl ErrInvalidToken else resolved pid p)"

fun resolve_people :: "'h person list \<Rightarrow> id_error + participant list" where
  "resolve_people [] = Inr []"
| "resolve_people (p # ps) =
     sum_bind (resolved (pw_id p) p) (\<lambda>q. sum_bind (resolve_people ps) (\<lambda>qs. Inr (q # qs)))"

definition list_people :: "(id_op \<Rightarrow> bool) \<Rightarrow> 'h identity_db \<Rightarrow> id_error + participant list" where
  "list_people io db =
     (if io ListPeople then Inl (ErrIdDatabase ListPeople)
      else resolve_people (sort_key pw_name (sort_key pw_id (filter (\<lambda>p. \<not> pw_revoked p) (ib_people db)))))"

definition revoked_row :: "string \<Rightarrow> 'h person \<Rightarrow> 'h person" where
  "revoked_row pid p = (if pw_id p = pid then p\<lparr>pw_revoked := True\<rparr> else p)"

definition revoke_id :: "(id_op \<Rightarrow> bool) \<Rightarrow> string \<Rightarrow> 'h identity_db \<Rightarrow> 'h identity_db \<times> id_error option" where
  "revoke_id io pid db =
     (if io WriteRevoked then (db, Some (ErrIdDatabase WriteRevoked))
      else let db' = db\<lparr>ib_people := map (revoked_row pid) (ib_people db)\<rparr> in
        if io CountRevoked then (db', Some (ErrIdDatabase CountRevoked))
        else if list_ex (\<lambda>p. pw_id p = pid) (ib_people db) then (db', None)
        else (db', Some (ErrNoParticipant pid)))"

end
