(* ===== verification/Runes.thy ===== *)
theory Runes
  imports Prelude
begin

text \<open>
  A Go string is bytes. \<open>decode_rune\<close> reads the UTF-8 character at its start, \<open>runes\<close> is the range loop over
  a string, which reads a byte that starts no character as U+FFFD, \<open>to_valid_utf8\<close> is \<open>strings.ToValidUTF8\<close>,
  and \<open>clip\<close> is \<open>Clip\<close> of \<open>internal/artlib/artlib.go\<close>, which bounds a text that a refusal or a warning quotes.
\<close>

subsection \<open>Runes\<close>

definition byte :: "char \<Rightarrow> nat" where
  "byte c = of_char c"

definition continues :: "nat \<Rightarrow> nat \<Rightarrow> char \<Rightarrow> bool" where
  "continues lo hi c = (lo \<le> byte c \<and> byte c \<le> hi)"

definition rune_error :: nat where
  "rune_error = 65533"

text \<open>How many bytes the character at the start has, and its code point; \<^const>\<open>None\<close> is an invalid byte.\<close>

definition decode_rune :: "string \<Rightarrow> (nat \<times> nat) option" where
  "decode_rune s =
     (case s of
        [] \<Rightarrow> None
      | a # r \<Rightarrow>
          let b0 = byte a; cont = continues 128 191;
              lo = (if b0 = 224 then 160 else if b0 = 240 then 144 else 128);
              hi = (if b0 = 237 then 159 else if b0 = 244 then 143 else 191)
          in if b0 < 128 then Some (1, b0)
             else if 194 \<le> b0 \<and> b0 < 224 then
               (case r of b # _ \<Rightarrow> if cont b then Some (2, 64 * (b0 - 192) + (byte b - 128)) else None | _ \<Rightarrow> None)
             else if 224 \<le> b0 \<and> b0 < 240 then
               (case r of b # c # _ \<Rightarrow>
                  if continues lo hi b \<and> cont c
                  then Some (3, 4096 * (b0 - 224) + 64 * (byte b - 128) + (byte c - 128)) else None | _ \<Rightarrow> None)
             else if 240 \<le> b0 \<and> b0 < 245 then
               (case r of b # c # d # _ \<Rightarrow>
                  if continues lo hi b \<and> cont c \<and> cont d
                  then Some (4, 262144 * (b0 - 240) + 4096 * (byte b - 128) + 64 * (byte c - 128) + (byte d - 128))
                  else None | _ \<Rightarrow> None)
             else None)"

function runes :: "string \<Rightarrow> nat list" where
  "runes s =
     (case s of
        [] \<Rightarrow> []
      | a # r \<Rightarrow> (case decode_rune s of None \<Rightarrow> rune_error # runes r | Some (n, k) \<Rightarrow> k # runes (drop (n - 1) r)))"
  by pat_completeness auto
termination by (relation "measure length") (auto simp: less_Suc_eq_le)

declare runes.simps [simp del]

subsection \<open>Valid text\<close>

text \<open>Each maximal run of bytes that start no character becomes one replacement.\<close>

function valid_from :: "string \<Rightarrow> bool \<Rightarrow> string \<Rightarrow> string" where
  "valid_from repl inrun s =
     (case s of
        [] \<Rightarrow> []
      | a # r \<Rightarrow>
          (case decode_rune s of
             None \<Rightarrow> (if inrun then [] else repl) @ valid_from repl True r
           | Some (n, k) \<Rightarrow> a # take (n - 1) r @ valid_from repl False (drop (n - 1) r)))"
  by pat_completeness auto
termination by (relation "measure (\<lambda>(repl, inrun, s). length s)") (auto simp: less_Suc_eq_le)

declare valid_from.simps [simp del]

definition to_valid_utf8 :: "string \<Rightarrow> string \<Rightarrow> string" where
  "to_valid_utf8 s repl = valid_from repl False s"

definition replacement :: string where
  "replacement = [CHR 0xEF, CHR 0xBF, CHR 0xBD]"

definition ellipsis :: string where
  "ellipsis = [CHR 0xE2, CHR 0x80, CHR 0xA6]"

definition clip :: "string \<Rightarrow> nat \<Rightarrow> string" where
  "clip s limit =
     (let s = to_valid_utf8 s replacement in
      if length s \<le> limit then s else to_valid_utf8 (take limit s) [] @ ellipsis)"

definition max_fragment :: nat where
  "max_fragment = 40"

lemma valid_from_shrinks: "length (valid_from [] inrun s) \<le> length s"
proof (induction "[] :: string" inrun s rule: valid_from.induct)
  case (1 inrun s)
  show ?case
  proof (cases s)
    case Nil
    then show ?thesis by (simp add: valid_from.simps)
  next
    case (Cons a r)
    show ?thesis
    proof (cases "decode_rune s")
      case None
      with Cons 1(1)[OF Cons None] show ?thesis by (simp add: valid_from.simps[of "[]" inrun "a # r"])
    next
      case (Some nk)
      obtain n k where nk: "nk = (n, k)" by (cases nk)
      from 1(2)[OF Cons Some nk[symmetric]] Cons Some nk show ?thesis
        by (simp add: valid_from.simps[of "[]" inrun "a # r"])
    qed
  qed
qed

lemma clip_bounded: "length (clip s limit) \<le> limit + 3"
  using valid_from_shrinks[of False "take limit (to_valid_utf8 s replacement)"]
  by (auto simp: clip_def Let_def ellipsis_def to_valid_utf8_def)

end
