(* ===== verification/Join.thy ===== *)
theory Join
  imports Identity Runes
begin

text \<open>
  \<open>internal/gateway/join.go\<close>: the display-name rule and \<open>POST /join\<close>. The character classes are Unicode's tables, the
  parameter \<open>rune_classes\<close>; decoding the request's JSON is not modelled. The handlers of two requests run at
  the same time and the database orders their statements, so a request is also a process, \<open>joiner\<close>,
  that one \<open>join_next\<close> moves by one statement.
\<close>

subsection \<open>Display names\<close>

record rune_classes =
  is_control :: "nat \<Rightarrow> bool"
  is_bidi :: "nat \<Rightarrow> bool"
  is_ignorable :: "nat \<Rightarrow> bool"
  is_format :: "nat \<Rightarrow> bool"
  is_space :: "nat \<Rightarrow> bool"

definition max_display_name_runes :: nat where
  "max_display_name_runes = 64"

definition draws :: "rune_classes \<Rightarrow> nat \<Rightarrow> bool" where
  "draws u r = (\<not> is_ignorable u r \<and> \<not> is_format u r \<and> \<not> is_space u r)"

definition usable_display_name :: "rune_classes \<Rightarrow> string \<Rightarrow> bool" where
  "usable_display_name u name =
     (if name = [] \<or> max_display_name_runes < length (runes name) then False
      else if list_ex (\<lambda>r. is_control u r \<or> is_bidi u r) (runes name) then False
      else list_ex (draws u) (runes name))"

text \<open>\<open>strings.TrimSpace\<close>, and \<open>strings.EqualFold\<close> over a folding of runes.\<close>

fun trim_left :: "rune_classes \<Rightarrow> nat \<Rightarrow> string \<Rightarrow> string" where
  "trim_left u 0 s = s"
| "trim_left u (Suc fuel) s =
     (case decode_rune s of
        Some (n, k) \<Rightarrow> if is_space u k then trim_left u fuel (drop n s) else s
      | None \<Rightarrow> s)"

definition last_rune_start :: "string \<Rightarrow> nat option" where
  "last_rune_start s =
     find (\<lambda>i. case decode_rune (drop i s) of Some (n, k) \<Rightarrow> i + n = length s | None \<Rightarrow> False)
       (rev [length s - 4 ..< length s])"

fun trim_right :: "rune_classes \<Rightarrow> nat \<Rightarrow> string \<Rightarrow> string" where
  "trim_right u 0 s = s"
| "trim_right u (Suc fuel) s =
     (case last_rune_start s of
        Some i \<Rightarrow> (case decode_rune (drop i s) of
            Some (n, k) \<Rightarrow> if is_space u k then trim_right u fuel (take i s) else s
          | None \<Rightarrow> s)
      | None \<Rightarrow> s)"

definition trim_space :: "rune_classes \<Rightarrow> string \<Rightarrow> string" where
  "trim_space u s = (let s = trim_left u (length s) s in trim_right u (length s) s)"

definition equal_fold :: "(nat \<Rightarrow> nat \<Rightarrow> bool) \<Rightarrow> string \<Rightarrow> string \<Rightarrow> bool" where
  "equal_fold same s t = list_all2 same (runes s) (runes t)"

subsection \<open>\<open>POST /join\<close>\<close>

datatype join_answer =
    JoinMalformed
  | JoinBadName
  | JoinNameTaken
  | JoinShut
  | JoinFailed
  | JoinedAs string string string role

definition handle_join :: "rune_classes \<Rightarrow> (string \<Rightarrow> string \<Rightarrow> bool) \<Rightarrow> (string \<Rightarrow> 'h) \<Rightarrow> (id_op \<Rightarrow> bool) \<Rightarrow>
    8 word list option \<Rightarrow> 8 word list option \<Rightarrow> (string \<times> string) option \<Rightarrow> 'h identity_db \<Rightarrow> 'h identity_db \<times> join_answer" where
  "handle_join u eqf hash io tb ib req db =
     (case req of
        None \<Rightarrow> (db, JoinMalformed)
      | Some (secret, display) \<Rightarrow>
          let name = trim_space u display in
          if \<not> usable_display_name u name then (db, JoinBadName)
          else (case join_admits eqf io secret name db of
              (db, Inl err) \<Rightarrow> (db, if err = ErrNameTaken then JoinNameTaken else JoinShut)
            | (db, Inr False) \<Rightarrow> (db, JoinShut)
            | (db, Inr True) \<Rightarrow>
                (case create_invite eqf hash io name (role_name RoleSpectator) tb ib db of
                   Inl err \<Rightarrow> (db, JoinFailed)
                 | Inr ((token, pid), db) \<Rightarrow> (db, JoinedAs token pid name RoleSpectator))))"

text \<open>
  The same request one statement at a time. \<open>AtNamesAgain\<close> is where \<open>CreateInvite\<close> starts, also for an invite
  the operator makes (\<open>vtt invite\<close>); an \<open>Out\<close> is a request that is over.
\<close>

datatype joiner =
    AtDoor string string
  | AtNames string
  | AtSpend string
  | AtNamesAgain string role
  | AtMint string role
  | Out join_answer

definition join_next :: "(string \<Rightarrow> string \<Rightarrow> bool) \<Rightarrow> (string \<Rightarrow> 'h) \<Rightarrow> (id_op \<Rightarrow> bool) \<Rightarrow>
    8 word list option \<Rightarrow> 8 word list option \<Rightarrow> joiner \<Rightarrow> 'h identity_db \<Rightarrow> joiner \<times> 'h identity_db" where
  "join_next eqf hash io tb ib j db =
     (case j of
        AtDoor secret name \<Rightarrow>
          (if io ReadJoin \<or> door_refuses secret (ib_join db) then Out JoinShut else AtNames name, db)
      | AtNames name \<Rightarrow>
          (case name_held eqf io name db of
             None \<Rightarrow> (AtSpend name, db)
           | Some err \<Rightarrow> (Out (if err = ErrNameTaken then JoinNameTaken else JoinShut), db))
      | AtSpend name \<Rightarrow>
          (case spend_admission io db of
             (db, Inr True) \<Rightarrow> (AtNamesAgain name RoleSpectator, db)
           | (db, _) \<Rightarrow> (Out JoinShut, db))
      | AtNamesAgain name r \<Rightarrow>
          (case name_held eqf io name db of None \<Rightarrow> (AtMint name r, db) | Some err \<Rightarrow> (Out JoinFailed, db))
      | AtMint name r \<Rightarrow>
          (case mint_person hash io name (role_name r) tb ib db of
             Inl err \<Rightarrow> (Out JoinFailed, db)
           | Inr ((token, pid), db) \<Rightarrow> (Out (JoinedAs token pid name r), db))
      | Out answer \<Rightarrow> (j, db))"

text \<open>Undisturbed, the process is the handler.\<close>

definition run_join :: "(string \<Rightarrow> string \<Rightarrow> bool) \<Rightarrow> (string \<Rightarrow> 'h) \<Rightarrow> (id_op \<Rightarrow> bool) \<Rightarrow>
    8 word list option \<Rightarrow> 8 word list option \<Rightarrow> joiner \<times> 'h identity_db \<Rightarrow> joiner \<times> 'h identity_db" where
  "run_join eqf hash io tb ib s = join_next eqf hash io tb ib (fst s) (snd s)"

lemma run_join_out [simp]: "(run_join eqf hash io tb ib ^^ n) (Out a, db) = (Out a, db)"
  by (induction n) (simp_all add: run_join_def join_next_def)

lemma run_join_step:
  "(run_join eqf hash io tb ib ^^ Suc n) (j, d) = (run_join eqf hash io tb ib ^^ n) (join_next eqf hash io tb ib j d)"
  by (simp only: funpow_Suc_right comp_def) (simp add: run_join_def)

lemma run_join_steps:
  "(run_join eqf hash io tb ib ^^ 5) (j, d) = (run_join eqf hash io tb ib ^^ 4) (join_next eqf hash io tb ib j d)"
  "(run_join eqf hash io tb ib ^^ 4) (j, d) = (run_join eqf hash io tb ib ^^ 3) (join_next eqf hash io tb ib j d)"
  "(run_join eqf hash io tb ib ^^ 3) (j, d) = (run_join eqf hash io tb ib ^^ 2) (join_next eqf hash io tb ib j d)"
  using run_join_step[where n = 4] run_join_step[where n = 3] run_join_step[where n = 2] by simp_all

lemma run_join_mint:
  "(run_join eqf hash io tb ib ^^ 2) (AtNamesAgain name r, db) =
     (case create_invite eqf hash io name (role_name r) tb ib db of
        Inl err \<Rightarrow> (Out JoinFailed, db) | Inr ((token, pid), db') \<Rightarrow> (Out (JoinedAs token pid name r), db'))"
proof (cases "name_held eqf io name db")
  case None
  then show ?thesis
    by (cases "mint_person hash io name (role_name r) tb ib db")
      (simp_all add: numeral_2_eq_2 run_join_def join_next_def create_invite_def split: prod.split)
qed (simp add: numeral_2_eq_2 run_join_def join_next_def create_invite_def)

lemma handle_join_runs:
  assumes "usable_display_name u (trim_space u display)"
  shows "(run_join eqf hash io tb ib ^^ 5) (AtDoor secret (trim_space u display), db) =
    (case handle_join u eqf hash io tb ib (Some (secret, display)) db of (db', answer) \<Rightarrow> (Out answer, db'))"
proof -
  let ?name = "trim_space u display"
  show ?thesis
  proof (cases "io ReadJoin \<or> door_refuses secret (ib_join db)")
    case True
    then show ?thesis
      using assms by (cases "io ReadJoin") (simp_all add: run_join_steps join_next_def handle_join_def join_admits_def Let_def)
  next
    case False
    show ?thesis
    proof (cases "name_held eqf io ?name db")
      case (Some err)
      with False assms show ?thesis
        by (simp add: run_join_steps join_next_def handle_join_def join_admits_def Let_def)
    next
      case None
      obtain db' res where spent: "spend_admission io db = (db', res)" by fastforce
      have admits: "join_admits eqf io secret ?name db = (db', res)"
        using False None spent by (simp add: join_admits_def)
      have start: "(run_join eqf hash io tb ib ^^ 5) (AtDoor secret ?name, db) =
          (run_join eqf hash io tb ib ^^ 2) (if res = Inr True then (AtNamesAgain ?name RoleSpectator, db') else (Out JoinShut, db'))"
        using False None spent
        by (cases res rule: sum.exhaust) (auto simp: run_join_steps join_next_def split: bool.split)
      have shut: "err \<noteq> ErrNameTaken" if "res = Inl err" for err
        using spent that by (auto simp: spend_admission_def Let_def split: if_splits prod.splits)
      show ?thesis unfolding start
        using assms admits shut
        by (cases res rule: sum.exhaust)
          (auto simp: handle_join_def run_join_mint Let_def split: bool.split sum.split prod.split)
    qed
  qed
qed

end
