(* ===== verification/Identity_Props.thy ===== *)
theory Identity_Props
  imports Join
begin

text \<open>
  The identity tables under concurrent use: any number of join requests and invites, each one statement at a
  time, between door changes, rotations, promotions, removals and reopenings. A credential stays its
  participant's, the door never admits more than its budget, and two requests may end with one name.
\<close>

subsection \<open>The tables in use\<close>

text \<open>\<open>ta_granted\<close> counts the admissions granted since the door was set or its link rotated.\<close>

record 'h table =
  ta_db :: "'h identity_db"
  ta_joiners :: "(nat, joiner) fmap"
  ta_granted :: nat

definition grants :: "joiner \<Rightarrow> joiner \<Rightarrow> bool" where
  "grants j j' = (case j of AtSpend _ \<Rightarrow> (case j' of AtNamesAgain _ _ \<Rightarrow> True | _ \<Rightarrow> False) | _ \<Rightarrow> False)"

text \<open>A restart ends every request that is under way.\<close>

definition over_in :: "(nat, joiner) fmap \<Rightarrow> nat \<Rightarrow> bool" where
  "over_in js i = (case fmlookup js i of Some (Out _) \<Rightarrow> True | _ \<Rightarrow> False)"

inductive table_step :: "rune_classes \<Rightarrow> (string \<Rightarrow> string \<Rightarrow> bool) \<Rightarrow> (string \<Rightarrow> 'h) \<Rightarrow> 'h table \<Rightarrow> 'h table \<Rightarrow> bool"
  for u eqf hash where
  arrives: "fmlookup (ta_joiners t) i = None \<Longrightarrow> usable_display_name u (trim_space u display) \<Longrightarrow>
    table_step u eqf hash t (t\<lparr>ta_joiners := fmupd i (AtDoor secret (trim_space u display)) (ta_joiners t)\<rparr>)"
| invited: "fmlookup (ta_joiners t) i = None \<Longrightarrow>
    table_step u eqf hash t (t\<lparr>ta_joiners := fmupd i (AtNamesAgain name r) (ta_joiners t)\<rparr>)"
| joins: "fmlookup (ta_joiners t) i = Some j \<Longrightarrow> join_next eqf hash io tb ib j (ta_db t) = (j', db') \<Longrightarrow>
    table_step u eqf hash t (t\<lparr>ta_db := db', ta_joiners := fmupd i j' (ta_joiners t),
      ta_granted := ta_granted t + (if grants j j' then 1 else 0)\<rparr>)"
| door_set: "set_join_open io bytes opened limit (ta_db t) = Inr db' \<Longrightarrow>
    table_step u eqf hash t (t\<lparr>ta_db := db', ta_granted := 0\<rparr>)"
| rotated: "rotate_join_secret io bytes (ta_db t) = Inr (secret, db') \<Longrightarrow>
    table_step u eqf hash t (t\<lparr>ta_db := db', ta_granted := 0\<rparr>)"
| secret_read: "ensure_join_row io bytes (ta_db t) = Inr (secret, db') \<Longrightarrow> table_step u eqf hash t (t\<lparr>ta_db := db'\<rparr>)"
| promoted: "set_role io pid r (ta_db t) = (db', err) \<Longrightarrow> table_step u eqf hash t (t\<lparr>ta_db := db'\<rparr>)"
| removed: "revoke_id io pid (ta_db t) = (db', err) \<Longrightarrow> table_step u eqf hash t (t\<lparr>ta_db := db'\<rparr>)"
| reopened: "open_identity io (ta_db t) = Inr db' \<Longrightarrow>
    table_step u eqf hash t (t\<lparr>ta_db := db', ta_joiners := fmfilter (over_in (ta_joiners t)) (ta_joiners t)\<rparr>)"

inductive_cases table_stepE: "table_step u eqf hash t t'"

definition new_table :: "'h table" where
  "new_table = \<lparr>ta_db = fresh_identity, ta_joiners = fmempty, ta_granted = 0\<rparr>"

inductive table_reachable :: "rune_classes \<Rightarrow> (string \<Rightarrow> string \<Rightarrow> bool) \<Rightarrow> (string \<Rightarrow> 'h) \<Rightarrow> 'h table \<Rightarrow> bool"
  for u eqf hash where
  table_new: "table_reachable u eqf hash new_table"
| table_stepped: "table_reachable u eqf hash t \<Longrightarrow> table_step u eqf hash t t' \<Longrightarrow> table_reachable u eqf hash t'"

subsection \<open>The invariant\<close>

definition people_ok :: "'h person list \<Rightarrow> bool" where
  "people_ok ps = (distinct (map pw_id ps) \<and> distinct (map pw_hash ps) \<and> (\<forall>p \<in> set ps. parse_role (pw_role p) \<noteq> None))"

definition door_ok :: "nat \<Rightarrow> join_row option \<Rightarrow> bool" where
  "door_ok granted row = (case row of None \<Rightarrow> granted = 0
     | Some r \<Rightarrow> int granted \<le> jr_admitted r \<and> jr_admitted r \<le> jr_limit r)"

definition holds_credential :: "(string \<Rightarrow> 'h) \<Rightarrow> 'h person list \<Rightarrow> joiner \<Rightarrow> bool" where
  "holds_credential hash ps j =
     (case j of
        Out (JoinedAs token pid name r) \<Rightarrow> \<exists>p \<in> set ps. pw_id p = pid \<and> pw_name p = name \<and> pw_hash p = hash token
      | _ \<Rightarrow> True)"

definition table_ok :: "(string \<Rightarrow> 'h) \<Rightarrow> 'h table \<Rightarrow> bool" where
  "table_ok hash t =
     (people_ok (ib_people (ta_db t)) \<and> door_ok (ta_granted t) (ib_join (ta_db t)) \<and>
      ib_columns (ta_db t) = [''admitted'', ''admit_limit''] \<and>
      (\<forall>i j. fmlookup (ta_joiners t) i = Some j \<longrightarrow> holds_credential hash (ib_people (ta_db t)) j))"

text \<open>A row keeps its id, name and hash: people are only added, promoted and revoked.\<close>

definition same_people :: "'h person list \<Rightarrow> 'h person list \<Rightarrow> bool" where
  "same_people ps qs = (map pw_id qs = map pw_id ps \<and> map pw_name qs = map pw_name ps \<and> map pw_hash qs = map pw_hash ps)"

lemma same_people_mem:
  assumes "same_people ps qs" and "p \<in> set ps"
  shows "\<exists>q \<in> set qs. pw_id q = pw_id p \<and> pw_name q = pw_name p \<and> pw_hash q = pw_hash p"
proof -
  obtain i where i: "i < length ps" "p = ps ! i" using assms(2) by (auto simp: in_set_conv_nth)
  have len: "length qs = length ps" using assms(1) by (metis length_map same_people_def)
  with i assms(1) have "pw_id (qs ! i) = pw_id p \<and> pw_name (qs ! i) = pw_name p \<and> pw_hash (qs ! i) = pw_hash p"
    unfolding same_people_def by (metis nth_map)
  with i len show ?thesis by auto
qed

lemma holds_credential_same:
  "same_people ps qs \<Longrightarrow> holds_credential hash ps j \<Longrightarrow> holds_credential hash qs j"
  unfolding holds_credential_def
  by (auto split: joiner.splits join_answer.splits) (metis same_people_mem)

lemma holds_credential_add: "holds_credential hash ps j \<Longrightarrow> holds_credential hash (ps @ qs) j"
  by (auto simp: holds_credential_def split: joiner.splits join_answer.splits)

lemma people_ok_same:
  "people_ok ps \<Longrightarrow> same_people ps qs \<Longrightarrow> \<forall>q \<in> set qs. parse_role (pw_role q) \<noteq> None \<Longrightarrow> people_ok qs"
  by (simp add: people_ok_def same_people_def)

lemma people_with_role:
  assumes "people_ok ps" and "parse_role r \<noteq> None"
  shows "people_ok (map (with_role pid r) ps)" and "same_people ps (map (with_role pid r) ps)"
proof -
  show same: "same_people ps (map (with_role pid r) ps)" by (simp add: same_people_def with_role_def)
  show "people_ok (map (with_role pid r) ps)"
    using assms by (intro people_ok_same[OF _ same]) (auto simp: people_ok_def with_role_def)
qed

lemma people_revoked:
  assumes "people_ok ps"
  shows "people_ok (map (revoked_row pid) ps)" and "same_people ps (map (revoked_row pid) ps)"
proof -
  show same: "same_people ps (map (revoked_row pid) ps)" by (simp add: same_people_def revoked_row_def)
  show "people_ok (map (revoked_row pid) ps)"
    using assms by (intro people_ok_same[OF _ same]) (auto simp: people_ok_def revoked_row_def)
qed

lemma table_ok_people:
  assumes "table_ok hash t" and "people_ok qs" and "same_people (ib_people (ta_db t)) qs"
  shows "table_ok hash (t\<lparr>ta_db := ta_db t\<lparr>ib_people := qs\<rparr>\<rparr>)"
  using assms holds_credential_same[OF assms(3)] by (simp add: table_ok_def)

lemma mint_person_adds:
  assumes "mint_person hash io name (role_name r) tb ib db = Inr ((token, pid), db')" and "people_ok (ib_people db)"
  shows "\<exists>p. ib_people db' = ib_people db @ [p] \<and> people_ok (ib_people db') \<and> ib_join db' = ib_join db \<and>
    ib_columns db' = ib_columns db \<and> pw_id p = pid \<and> pw_name p = name \<and> pw_hash p = hash token"
  using assms by (auto simp: mint_person_def insert_person_def people_ok_def Let_def split: option.splits if_splits)

lemma spend_admission_door:
  assumes "spend_admission io db = (db', res)" and "door_ok n (ib_join db)"
  shows "ib_people db' = ib_people db \<and> ib_columns db' = ib_columns db \<and>
    door_ok (n + (if res = Inr True then 1 else 0)) (ib_join db')"
  using assms by (auto simp: spend_admission_def door_ok_def Let_def split: option.splits if_splits prod.splits)

lemma join_next_ok:
  assumes run: "join_next eqf hash io tb ib j db = (j', db')" and people: "people_ok (ib_people db)"
    and door: "door_ok n (ib_join db)" and j: "holds_credential hash (ib_people db) j"
  shows "people_ok (ib_people db') \<and> door_ok (n + (if grants j j' then 1 else 0)) (ib_join db') \<and>
    ib_columns db' = ib_columns db \<and> holds_credential hash (ib_people db') j' \<and> (\<exists>ps. ib_people db' = ib_people db @ ps)"
proof (cases j)
  case (AtSpend name)
  obtain db1 res where spent: "spend_admission io db = (db1, res)" by fastforce
  from spend_admission_door[OF spent door] run people show ?thesis
    by (cases res rule: sum.exhaust)
      (auto simp: AtSpend join_next_def spent grants_def holds_credential_def split: bool.splits if_splits)
next
  case (AtMint name r)
  show ?thesis
  proof (cases "mint_person hash io name (role_name r) tb ib db")
    case (Inl err)
    with run people door show ?thesis by (auto simp: AtMint join_next_def grants_def holds_credential_def)
  next
    case (Inr out)
    obtain token pid db1 where out: "out = ((token, pid), db1)" by (metis prod.exhaust)
    from mint_person_adds[OF Inr[unfolded out] people] obtain p where p: "ib_people db1 = ib_people db @ [p]"
      "people_ok (ib_people db1)" "ib_join db1 = ib_join db" "ib_columns db1 = ib_columns db"
      "pw_id p = pid" "pw_name p = name" "pw_hash p = hash token" by blast
    with run door show ?thesis by (auto simp: AtMint join_next_def Inr out grants_def holds_credential_def)
  qed
qed (use run people door j in
  \<open>auto simp: join_next_def grants_def holds_credential_def split: if_splits option.splits\<close>)

lemma table_step_ok:
  assumes "table_step u eqf hash t t'" and ok: "table_ok hash t"
  shows "table_ok hash t'"
  using assms(1)
proof (cases rule: table_step.cases)
  case (joins i j io tb ib j' db')
  have creds: "holds_credential hash (ib_people (ta_db t)) k" if "fmlookup (ta_joiners t) l = Some k" for k l
    using ok that by (simp add: table_ok_def)
  from join_next_ok[OF joins(3) _ _ creds[OF joins(2)], of "ta_granted t"] ok
  obtain ps where "people_ok (ib_people db')" "door_ok (ta_granted t + (if grants j j' then 1 else 0)) (ib_join db')"
    "ib_columns db' = ib_columns (ta_db t)" "holds_credential hash (ib_people db') j'"
    "ib_people db' = ib_people (ta_db t) @ ps"
    by (auto simp: table_ok_def)
  with ok creds show ?thesis by (auto simp: joins(1) table_ok_def holds_credential_add)
next
  case (door_set io bytes opened limit db')
  then show ?thesis using ok
    by (auto simp: table_ok_def door_ok_def set_join_open_def default_admit_limit_def Let_def split: if_splits option.splits)
next
  case (rotated io bytes secret db')
  then show ?thesis using ok
    by (auto simp: table_ok_def door_ok_def rotate_join_secret_def split: if_splits option.splits)
next
  case (secret_read io bytes secret db')
  then show ?thesis using ok
    by (auto simp: table_ok_def door_ok_def ensure_join_row_def split: if_splits option.splits)
next
  case (promoted io pid r db' err)
  from ok have people: "people_ok (ib_people (ta_db t))" by (simp add: table_ok_def)
  consider "db' = ta_db t" | "parse_role r \<noteq> None" "db' = ta_db t\<lparr>ib_people := map (with_role pid r) (ib_people (ta_db t))\<rparr>"
    using promoted(2) by (auto simp: set_role_def Let_def split: if_splits)
  then show ?thesis
  proof cases
    case 1
    with ok promoted(1) show ?thesis by (simp add: table_ok_def)
  next
    case 2
    with promoted(1) table_ok_people[OF ok people_with_role[OF people 2(1)]] show ?thesis by simp
  qed
next
  case (removed io pid db' err)
  from ok have people: "people_ok (ib_people (ta_db t))" by (simp add: table_ok_def)
  consider "db' = ta_db t" | "db' = ta_db t\<lparr>ib_people := map (revoked_row pid) (ib_people (ta_db t))\<rparr>"
    using removed(2) by (auto simp: revoke_id_def Let_def split: if_splits)
  then show ?thesis
  proof cases
    case 1
    with ok removed(1) show ?thesis by (simp add: table_ok_def)
  next
    case 2
    with removed(1) table_ok_people[OF ok people_revoked[OF people]] show ?thesis by simp
  qed
next
  case (reopened io db')
  have "ib_people db' = ib_people (ta_db t) \<and> ib_columns db' = ib_columns (ta_db t) \<and>
      (ib_join db' = ib_join (ta_db t) \<or> ib_join db' = map_option rebudget (ib_join (ta_db t)))"
    using reopened(2) ok
    by (auto simp: open_identity_def migrate_def migration_pending_def migrate_locked_def add_column_def table_ok_def
        split: if_splits)
  with reopened(1) ok show ?thesis
    by (auto simp: table_ok_def door_ok_def rebudget_def default_admit_limit_def split: option.splits)
qed (use ok in \<open>auto simp: table_ok_def holds_credential_def\<close>)

lemma table_reachable_ok: "table_reachable u eqf hash t \<Longrightarrow> table_ok hash t"
proof (induction rule: table_reachable.induct)
  case table_new
  show ?case by (simp add: table_ok_def new_table_def fresh_identity_def people_ok_def door_ok_def)
qed (rule table_step_ok)


subsection \<open>What follows\<close>

lemma find_only:
  assumes "x \<in> set xs" and "P x" and "\<And>y. y \<in> set xs \<Longrightarrow> P y \<Longrightarrow> y = x"
  shows "find P xs = Some x"
  using assms
proof (induction xs)
  case (Cons y ys)
  show ?case
  proof (cases "P y")
    case True
    with Cons.prems(3)[of y] show ?thesis by simp
  next
    case False
    then have "x \<in> set ys" using Cons.prems(1,2) by auto
    then have "find P ys = Some x" by (rule Cons.IH[OF _ Cons.prems(2)]) (rule Cons.prems(3), simp_all)
    with False show ?thesis by simp
  qed
qed simp


text \<open>
  C25: However join requests race, the admissions the door has granted since it was last set or its link rotated
  never exceed the budget it was given.
\<close>

theorem door_keeps_its_budget:
  assumes "table_reachable u eqf hash t"
  shows "int (ta_granted t) \<le> (case ib_join (ta_db t) of None \<Rightarrow> 0 | Some r \<Rightarrow> jr_limit r)"
  using table_reachable_ok[OF assms] by (auto simp: table_ok_def door_ok_def split: option.splits)


subsection \<open>Witnesses, and two requests that share a name\<close>

definition plain_runes :: rune_classes where
  "plain_runes = \<lparr>is_control = (\<lambda>r. r < 32), is_bidi = (\<lambda>r. False), is_ignorable = (\<lambda>r. False),
     is_format = (\<lambda>r. False), is_space = (\<lambda>r. r = 32)\<rparr>"

definition no_fault :: "id_op \<Rightarrow> bool" where
  "no_fault op = False"

definition open_door :: join_row where
  "open_door = \<lparr>jr_secret = ''AQ'', jr_open = True, jr_admitted = 0, jr_limit = 8\<rparr>"

definition ann :: "8 word \<Rightarrow> string person" where
  "ann b = \<lparr>pw_id = hex_text [b], pw_name = ''Ann'', pw_role = ''spectator'', pw_hash = base64_text [b], pw_revoked = False\<rparr>"

definition demo_table :: "join_row \<Rightarrow> string person list \<Rightarrow> joiner \<Rightarrow> joiner \<Rightarrow> nat \<Rightarrow> string table" where
  "demo_table door ps j k n =
     \<lparr>ta_db = \<lparr>ib_people = ps, ib_join = Some door, ib_columns = [''admitted'', ''admit_limit'']\<rparr>,
      ta_joiners = fmupd 1 k (fmupd 0 j fmempty), ta_granted = n\<rparr>"

abbreviation demo_reachable :: "string table \<Rightarrow> bool" where
  "demo_reachable \<equiv> table_reachable plain_runes (=) id"

lemma demo_first:
  "demo_reachable (demo_table door ps j k n) \<Longrightarrow>
   join_next (=) id no_fault (Some [b]) (Some [b]) j \<lparr>ib_people = ps, ib_join = Some door, ib_columns = [''admitted'', ''admit_limit'']\<rparr>
     = (j', \<lparr>ib_people = ps', ib_join = Some door', ib_columns = [''admitted'', ''admit_limit'']\<rparr>) \<Longrightarrow>
   demo_reachable (demo_table door' ps' j' k (n + (if grants j j' then 1 else 0)))"
  using table_stepped[OF _ joins[of "demo_table door ps j k n" 0 j]]
  by (fastforce simp: demo_table_def fmupd_reorder_neq)

lemma demo_second:
  "demo_reachable (demo_table door ps j k n) \<Longrightarrow>
   join_next (=) id no_fault (Some [b]) (Some [b]) k \<lparr>ib_people = ps, ib_join = Some door, ib_columns = [''admitted'', ''admit_limit'']\<rparr>
     = (k', \<lparr>ib_people = ps', ib_join = Some door', ib_columns = [''admitted'', ''admit_limit'']\<rparr>) \<Longrightarrow>
   demo_reachable (demo_table door' ps' j k' (n + (if grants k k' then 1 else 0)))"
  using table_stepped[OF _ joins[of "demo_table door ps j k n" 1 k]]
  by (fastforce simp: demo_table_def fmupd_reorder_neq)


definition spent :: "nat \<Rightarrow> join_row" where
  "spent n = open_door\<lparr>jr_admitted := int n\<rparr>"

lemma demo_arrived: "demo_reachable (demo_table open_door [] (AtDoor ''AQ'' ''Ann'') (AtDoor ''AQ'' ''Ann'') 0)"
proof -
  have name: "trim_space plain_runes ''Ann'' = ''Ann''" "usable_display_name plain_runes ''Ann''" by code_simp+
  have secret: "base64_text [1] = ''AQ''" by code_simp
  have "set_join_open no_fault [1] True 8 (ta_db (new_table :: string table)) =
      Inr \<lparr>ib_people = [], ib_join = Some open_door, ib_columns = [''admitted'', ''admit_limit'']\<rparr>"
    by (simp add: set_join_open_def no_fault_def new_table_def fresh_identity_def open_door_def secret del: base64_text.simps)
  from table_stepped[OF table_new door_set[OF this]]
  have r0: "demo_reachable (new_table\<lparr>ta_db := \<lparr>ib_people = [], ib_join = Some open_door,
      ib_columns = [''admitted'', ''admit_limit'']\<rparr>, ta_granted := 0\<rparr>)" by simp
  let ?t0 = "\<lparr>ta_db = \<lparr>ib_people = [], ib_join = Some open_door, ib_columns = [''admitted'', ''admit_limit'']\<rparr>,
      ta_joiners = fmempty, ta_granted = 0\<rparr> :: string table"
  have r0: "demo_reachable ?t0" using r0 by (simp add: new_table_def)
  have r1: "demo_reachable (?t0\<lparr>ta_joiners := fmupd 0 (AtDoor ''AQ'' ''Ann'') fmempty\<rparr>)"
    using table_stepped[OF r0 arrives[of ?t0 0 plain_runes "''Ann''" "(=)" id "''AQ''"]] name by simp
  show ?thesis
    using table_stepped[OF r1 arrives[of "?t0\<lparr>ta_joiners := fmupd 0 (AtDoor ''AQ'' ''Ann'') fmempty\<rparr>" 1
        plain_runes "''Ann''" "(=)" id "''AQ''"]] name
    by (simp add: demo_table_def)
qed

lemmas demo_statement = join_next_def name_held_def no_fault_def spend_admission_def door_refuses_def spent_def
  open_door_def ann_def mint_person_def insert_person_def role_name_def grants_def Let_def

lemma demo_both_through:
  "demo_reachable (demo_table (spent 2) [ann 1, ann 2]
     (Out (JoinedAs (base64_text [1]) (hex_text [1]) ''Ann'' RoleSpectator))
     (Out (JoinedAs (base64_text [2]) (hex_text [2]) ''Ann'' RoleSpectator)) 2)"
proof -
  have differ: "hex_text [1] \<noteq> hex_text [2]" "base64_text [1] \<noteq> base64_text [2]" by code_simp+
  have a1: "demo_reachable (demo_table open_door [] (AtNames ''Ann'') (AtDoor ''AQ'' ''Ann'') 0)"
    using demo_first[OF demo_arrived, of 1] by (simp add: demo_statement)
  have a2: "demo_reachable (demo_table open_door [] (AtSpend ''Ann'') (AtDoor ''AQ'' ''Ann'') 0)"
    using demo_first[OF a1, of 1] by (simp add: demo_statement)
  have b1: "demo_reachable (demo_table open_door [] (AtSpend ''Ann'') (AtNames ''Ann'') 0)"
    using demo_second[OF a2, of 2] by (simp add: demo_statement)
  have b2: "demo_reachable (demo_table open_door [] (AtSpend ''Ann'') (AtSpend ''Ann'') 0)"
    using demo_second[OF b1, of 2] by (simp add: demo_statement)
  have a3: "demo_reachable (demo_table (spent 1) [] (AtNamesAgain ''Ann'' RoleSpectator) (AtSpend ''Ann'') 1)"
    using demo_first[OF b2, of 1 "AtNamesAgain ''Ann'' RoleSpectator"] by (simp add: demo_statement)
  have b3: "demo_reachable (demo_table (spent 2) [] (AtNamesAgain ''Ann'' RoleSpectator) (AtNamesAgain ''Ann'' RoleSpectator) 2)"
    using demo_second[OF a3, of 2 "AtNamesAgain ''Ann'' RoleSpectator"] by (simp add: demo_statement numeral_2_eq_2)
  have a4: "demo_reachable (demo_table (spent 2) [] (AtMint ''Ann'' RoleSpectator) (AtNamesAgain ''Ann'' RoleSpectator) 2)"
    using demo_first[OF b3, of 1] by (simp add: demo_statement)
  have b4: "demo_reachable (demo_table (spent 2) [] (AtMint ''Ann'' RoleSpectator) (AtMint ''Ann'' RoleSpectator) 2)"
    using demo_second[OF a4, of 2] by (simp add: demo_statement)
  have a5: "demo_reachable (demo_table (spent 2) [ann 1]
      (Out (JoinedAs (base64_text [1]) (hex_text [1]) ''Ann'' RoleSpectator)) (AtMint ''Ann'' RoleSpectator) 2)"
    using demo_first[OF b4, of 1] by (simp add: demo_statement del: base64_text.simps)
  show ?thesis
    using demo_second[OF a5, of 2] differ by (simp add: demo_statement del: base64_text.simps)
qed



theorem door_keeps_its_budget_witness:
  "\<exists>t. demo_reachable t \<and> ta_granted t = 2 \<and>
     int (ta_granted t) \<le> (case ib_join (ta_db t) of None \<Rightarrow> 0 | Some r \<Rightarrow> jr_limit r)"
  using door_keeps_its_budget[OF demo_both_through] demo_both_through
  by (intro exI conjI) (auto simp: demo_table_def)

text \<open>
  C26: The name rule is checked by a read and kept by no constraint: two requests that read the names before
  either has written admit two participants, neither revoked, under one name, although each would have been
  refused had the other been first.
\<close>

theorem two_joins_share_a_name:
  "\<exists>t p q. demo_reachable t \<and> p \<in> set (ib_people (ta_db t)) \<and> q \<in> set (ib_people (ta_db t)) \<and> pw_id p \<noteq> pw_id q \<and>
     \<not> pw_revoked p \<and> \<not> pw_revoked q \<and> pw_name p = pw_name q \<and>
     snd (handle_join plain_runes (=) id no_fault (Some [3]) (Some [3]) (Some (''AQ'', pw_name p)) (ta_db t)) = JoinNameTaken"
proof -
  let ?t = "demo_table (spent 2) [ann 1, ann 2]
     (Out (JoinedAs (base64_text [1]) (hex_text [1]) ''Ann'' RoleSpectator))
     (Out (JoinedAs (base64_text [2]) (hex_text [2]) ''Ann'' RoleSpectator)) 2"
  have "trim_space plain_runes ''Ann'' = ''Ann''" "usable_display_name plain_runes ''Ann''" by code_simp+
  then have "snd (handle_join plain_runes (=) id no_fault (Some [3]) (Some [3]) (Some (''AQ'', pw_name (ann 1))) (ta_db ?t)) = JoinNameTaken"
    by (simp add: demo_table_def ann_def handle_join_def join_admits_def door_refuses_def name_held_def no_fault_def
        spent_def open_door_def Let_def del: base64_text.simps)
  moreover have "pw_id (ann 1) \<noteq> pw_id (ann 2)" by code_simp
  moreover have "ann 1 \<in> set (ib_people (ta_db ?t))" "ann 2 \<in> set (ib_people (ta_db ?t))" by (simp_all add: demo_table_def)
  moreover have "\<not> pw_revoked (ann 1)" "\<not> pw_revoked (ann 2)" "pw_name (ann 1) = pw_name (ann 2)" by (simp_all add: ann_def)
  ultimately show ?thesis by (intro exI[of _ ?t] exI[of _ "ann 1"] exI[of _ "ann 2"] conjI demo_both_through)
qed

end
