(* ===== verification/Authz.thy ===== *)
theory Authz
  imports Command
begin

text \<open>
  \<open>internal/gateway/authz.go\<close>, \<open>viewpoint.go\<close> and the three validators: who may issue a command, against a
  snapshot of the state. A refusal is a constructor for its text with what the text quotes, so two refusals
  are equal when a client reads the same words. A nil actor (an id the map lacks) is \<^const>\<open>None\<close>; the oneof's
  getters read the zero value where the command is another one.
\<close>

subsection \<open>Refusals\<close>

datatype refusal =
    MayNotIssue role string
  | MayNotPromoteTo string
  | WatchesNoLog role
  | WatchesOneOfTheirOwn
  | MayNotWatch string
  | OutOfCharacterAsNobody
  | NamesSpeakerWithAs role
  | SpeaksAsOwnPartyMember
  | SpeakerHasNoName
  | WhispersFromNobody role
  | WhisperNamesNobody
  | WhisperHeardByPartyMembers
  | WhispersToTheDMAlone
  | WhispersFromOwnPartyMember
  | WhispererHasNoName
  | Undecided role string
  | NoTokenAdjacent string
  | UnknownToken string
  | TokenNotControlled string string
  | ActorNotControlled string string
  | RevokesOnlyTheirOwn string string

definition command_name :: "command option \<Rightarrow> string" where
  "command_name c =
     (case c of
        None \<Rightarrow> []
      | Some c \<Rightarrow> (case c of
          SetJoinDoor _ _ \<Rightarrow> ''set_join_door''
        | RotateJoinLink \<Rightarrow> ''rotate_join_link''
        | MoveToken _ _ _ \<Rightarrow> ''move_token''
        | AddActor _ \<Rightarrow> ''add_actor''
        | PlaceToken _ \<Rightarrow> ''place_token''
        | DescribeToken _ \<Rightarrow> ''describe_token''
        | RemoveToken _ \<Rightarrow> ''remove_token''
        | RemoveActor _ \<Rightarrow> ''remove_actor''
        | StartSession _ \<Rightarrow> ''start_session''
        | EndSession \<Rightarrow> ''end_session''
        | UseAbility _ \<Rightarrow> ''use_ability''
        | RemoveCondition _ _ \<Rightarrow> ''remove_condition''
        | AddNarration _ \<Rightarrow> ''add_narration''
        | AddWhisper _ \<Rightarrow> ''add_whisper''
        | UpsertNote _ \<Rightarrow> ''upsert_note''
        | DeleteNote _ \<Rightarrow> ''delete_note''
        | LoadAdventure _ \<Rightarrow> ''load_adventure''
        | LoadMap _ \<Rightarrow> ''load_map''
        | GrantActorControl _ \<Rightarrow> ''grant_actor_control''
        | RevokeActorControl _ _ \<Rightarrow> ''revoke_actor_control''
        | PromoteParticipant _ _ \<Rightarrow> ''promote_participant''
        | RemoveParticipant _ \<Rightarrow> ''remove_participant''
        | OpenDoor _ _ \<Rightarrow> ''open_door''
        | CloseDoor _ _ \<Rightarrow> ''close_door''
        | SetViewpoint _ \<Rightarrow> ''set_viewpoint''))"

definition command_roles :: "string \<Rightarrow> role list option" where
  "command_roles = map_of
     [(''move_token'', [RoleDM, RoleAgent, RolePlayer]),
      (''add_actor'', [RoleDM, RoleAgent]),
      (''place_token'', [RoleDM, RoleAgent]),
      (''describe_token'', [RoleDM, RoleAgent]),
      (''remove_token'', [RoleDM, RoleAgent]),
      (''remove_actor'', [RoleDM, RoleAgent]),
      (''start_session'', [RoleDM, RoleAgent]),
      (''end_session'', [RoleDM, RoleAgent]),
      (''use_ability'', [RoleDM, RoleAgent, RolePlayer]),
      (''remove_condition'', [RoleDM, RoleAgent, RolePlayer]),
      (''add_narration'', [RoleDM, RoleAgent, RolePlayer]),
      (''add_whisper'', [RoleDM, RoleAgent, RolePlayer]),
      (''upsert_note'', [RoleDM, RoleAgent]),
      (''delete_note'', [RoleDM, RoleAgent]),
      (''load_adventure'', [RoleDM, RoleAgent]),
      (''load_map'', [RoleDM, RoleAgent]),
      (''grant_actor_control'', [RoleDM, RoleAgent]),
      (''revoke_actor_control'', [RoleDM, RoleAgent, RolePlayer]),
      (''promote_participant'', [RoleDM, RoleAgent]),
      (''remove_participant'', [RoleDM, RoleAgent]),
      (''set_join_door'', [RoleDM, RoleAgent]),
      (''rotate_join_link'', [RoleDM, RoleAgent]),
      (''open_door'', [RoleDM, RoleAgent, RolePlayer]),
      (''close_door'', [RoleDM, RoleAgent, RolePlayer]),
      (''set_viewpoint'', [RolePlayer, RoleSpectator])]"

subsection \<open>Control and viewpoints\<close>

type_synonym cast_of = "(string, actor) fmap"

definition controls :: "actor option \<Rightarrow> string \<Rightarrow> bool" where
  "controls a pid =
     (if pid = [] then False
      else case a of None \<Rightarrow> False | Some a \<Rightarrow> list_ex (\<lambda>id. id = pid) (actor_controller_ids a))"

definition own_party_member :: "actor option \<Rightarrow> string \<Rightarrow> bool" where
  "own_party_member a pid = (is_party_member a \<and> controls a pid)"

definition controls_a_party_member :: "string \<Rightarrow> cast_of \<Rightarrow> bool" where
  "controls_a_party_member pid actors = list_ex (\<lambda>id. own_party_member (fmlookup actors id) pid) (keys actors)"

definition may_watch :: "participant \<Rightarrow> string \<Rightarrow> cast_of \<Rightarrow> refusal option" where
  "may_watch p aid actors =
     (if pt_role p \<in> {RoleDM, RoleAgent} then Some (WatchesNoLog (pt_role p))
      else let own_only = (pt_role p = RolePlayer \<and> controls_a_party_member (pt_id p) actors) in
        if aid = [] then (if own_only then Some WatchesOneOfTheirOwn else None)
        else let a = fmlookup actors aid in
          if a = None \<or> \<not> is_party_member a \<or> own_only \<and> \<not> controls a (pt_id p) then Some (MayNotWatch aid)
          else None)"

definition default_viewpoint :: "participant \<Rightarrow> cast_of \<Rightarrow> string" where
  "default_viewpoint p actors =
     (if pt_role p \<noteq> RolePlayer then []
      else case filter (\<lambda>id. own_party_member (fmlookup actors id) (pt_id p)) (keys actors) of
        [] \<Rightarrow> [] | aid # _ \<Rightarrow> aid)"

record watchable_set =
  wc_controls_none :: bool
  wc_actors :: "(string \<times> string) list"

definition watchable :: "participant \<Rightarrow> cast_of \<Rightarrow> watchable_set" where
  "watchable p actors =
     \<lparr>wc_controls_none = (\<not> controls_a_party_member (pt_id p) actors),
      wc_actors = map (\<lambda>id. (id, case fmlookup actors id of None \<Rightarrow> [] | Some a \<Rightarrow> actor_name a))
                    (filter (\<lambda>id. may_watch p id actors = None) (keys actors))\<rparr>"

subsection \<open>The checks for every role\<close>

definition authorize_promotion_target :: "string \<Rightarrow> refusal option" where
  "authorize_promotion_target r =
     (if r = role_name RolePlayer \<or> r = role_name RoleSpectator then None else Some (MayNotPromoteTo r))"

definition name_of_actor :: "actor option \<Rightarrow> string" where
  "name_of_actor a = (case a of None \<Rightarrow> [] | Some a \<Rightarrow> actor_name a)"

definition may_voice :: "participant \<Rightarrow> add_narration \<Rightarrow> cast_of \<Rightarrow> refusal option" where
  "may_voice p na actors =
     (if an_out_of_character na then (if an_actor_id na \<noteq> [] then Some OutOfCharacterAsNobody else None)
      else if pt_role p \<noteq> RolePlayer then
        (if an_actor_id na \<noteq> [] then Some (NamesSpeakerWithAs (pt_role p)) else None)
      else let a = fmlookup actors (an_actor_id na) in
        if \<not> own_party_member a (pt_id p) then Some SpeaksAsOwnPartyMember
        else if name_of_actor a = [] then Some SpeakerHasNoName
        else None)"

definition may_whisper :: "participant \<Rightarrow> add_whisper \<Rightarrow> cast_of \<Rightarrow> refusal option" where
  "may_whisper p w actors =
     (if pt_role p \<noteq> RolePlayer then
        (if aw_from_actor_id w \<noteq> [] then Some (WhispersFromNobody (pt_role p))
         else if aw_to_actor_ids w = [] then Some WhisperNamesNobody
         else if list_ex (\<lambda>id. \<not> is_party_member (fmlookup actors id)) (aw_to_actor_ids w)
         then Some WhisperHeardByPartyMembers
         else None)
      else if aw_to_actor_ids w \<noteq> [] then Some WhispersToTheDMAlone
      else let a = fmlookup actors (aw_from_actor_id w) in
        if \<not> own_party_member a (pt_id p) then Some WhispersFromOwnPartyMember
        else if name_of_actor a = [] then Some WhispererHasNoName
        else None)"

subsection \<open>The player rules\<close>

text \<open>\<open>abs\<close> is on \<open>int32\<close>: the least one is its own, negative, absolute value, and the differences wrap.\<close>

definition go_abs :: "int32 \<Rightarrow> int32" where
  "go_abs n = (if sint n < 0 then - n else n)"

definition adjacent :: "token \<Rightarrow> grid_position option \<Rightarrow> bool" where
  "adjacent tok at = (sint (go_abs (tok_x tok - pos_x at)) \<le> 1 \<and> sint (go_abs (tok_y tok - pos_y at)) \<le> 1)"

definition may_work_door :: "participant \<Rightarrow> state \<Rightarrow> string \<Rightarrow> grid_position option \<Rightarrow> refusal option" where
  "may_work_door p st sid at =
     (if pt_role p \<noteq> RolePlayer then None
      else if list_ex (\<lambda>tid. case fmlookup (st_tokens st) tid of
             None \<Rightarrow> False
           | Some tok \<Rightarrow> tok_scene_id tok = sid \<and> controls (fmlookup (st_actors st) (tok_actor_id tok)) (pt_id p) \<and>
               adjacent tok at) (keys (st_tokens st))
      then None
      else Some (NoTokenAdjacent (pt_id p)))"

definition authorize_token_ownership :: "participant \<Rightarrow> string \<Rightarrow> state \<Rightarrow> refusal option" where
  "authorize_token_ownership p tid st =
     (case fmlookup (st_tokens st) tid of
        None \<Rightarrow> Some (UnknownToken tid)
      | Some tok \<Rightarrow> if controls (fmlookup (st_actors st) (tok_actor_id tok)) (pt_id p) then None
                    else Some (TokenNotControlled tid (pt_id p)))"

definition authorize_actor_ownership :: "participant \<Rightarrow> string \<Rightarrow> state \<Rightarrow> refusal option" where
  "authorize_actor_ownership p aid st =
     (if controls (fmlookup (st_actors st) aid) (pt_id p) then None else Some (ActorNotControlled aid (pt_id p)))"

definition authorize_self_revoke :: "participant \<Rightarrow> string \<Rightarrow> string \<Rightarrow> state \<Rightarrow> refusal option" where
  "authorize_self_revoke p aid pid st =
     (if pid \<noteq> pt_id p then Some (RevokesOnlyTheirOwn (pt_id p) pid) else authorize_actor_ownership p aid st)"

type_synonym player_rule = "participant \<Rightarrow> command option \<Rightarrow> state \<Rightarrow> refusal option"

definition unrestricted :: player_rule where
  "unrestricted p c st = None"

definition player_rules :: "string \<Rightarrow> player_rule option" where
  "player_rules = map_of
     [(''move_token'', \<lambda>p c st. authorize_token_ownership p (case c of Some (MoveToken tid to reason) \<Rightarrow> tid | _ \<Rightarrow> []) st),
      (''use_ability'', \<lambda>p c st. authorize_actor_ownership p (case c of Some (UseAbility ua) \<Rightarrow> ua_actor_id ua | _ \<Rightarrow> []) st),
      (''remove_condition'', \<lambda>p c st. authorize_actor_ownership p (case c of Some (RemoveCondition aid cid) \<Rightarrow> aid | _ \<Rightarrow> []) st),
      (''revoke_actor_control'', \<lambda>p c st. (case c of Some (RevokeActorControl aid pid) \<Rightarrow> authorize_self_revoke p aid pid st
                                              | _ \<Rightarrow> authorize_self_revoke p [] [] st)),
      (''open_door'', \<lambda>p c st. (case c of Some (OpenDoor sid at) \<Rightarrow> may_work_door p st sid at | _ \<Rightarrow> may_work_door p st [] None)),
      (''close_door'', \<lambda>p c st. (case c of Some (CloseDoor sid at) \<Rightarrow> may_work_door p st sid at | _ \<Rightarrow> may_work_door p st [] None)),
      (''add_narration'', unrestricted),
      (''add_whisper'', unrestricted),
      (''set_viewpoint'', unrestricted)]"

definition authorize_player :: "participant \<Rightarrow> command option \<Rightarrow> state \<Rightarrow> string \<Rightarrow> refusal option" where
  "authorize_player p c st name =
     (case player_rules name of None \<Rightarrow> Some (Undecided (pt_role p) name) | Some rule \<Rightarrow> rule p c st)"

text \<open>One of the four checks names its command, so at most one applies; the order is the code's.\<close>

definition every_role_checks :: "participant \<Rightarrow> command option \<Rightarrow> state \<Rightarrow> refusal option" where
  "every_role_checks p c st =
     (case c of
        Some (PromoteParticipant pid r) \<Rightarrow> authorize_promotion_target r
      | Some (SetViewpoint aid) \<Rightarrow> may_watch p aid (st_actors st)
      | Some (AddNarration na) \<Rightarrow> may_voice p na (st_actors st)
      | Some (AddWhisper w) \<Rightarrow> may_whisper p w (st_actors st)
      | _ \<Rightarrow> None)"

definition authorize :: "participant \<Rightarrow> command option \<Rightarrow> state \<Rightarrow> refusal option" where
  "authorize p c st =
     (let name = command_name c in
      case command_roles name of
        None \<Rightarrow> Some (MayNotIssue (pt_role p) name)
      | Some roles \<Rightarrow>
          if pt_role p \<notin> set roles then Some (MayNotIssue (pt_role p) name)
          else case every_role_checks p c st of
            Some r \<Rightarrow> Some r
          | None \<Rightarrow> if pt_role p \<noteq> RolePlayer then None else authorize_player p c st name)"

subsection \<open>The validators\<close>

datatype form_error = GrantNoKind | ActorWithController | ActorNoKind | NoteNoVisibility

definition validate_grant_actor_control :: "grant_control \<Rightarrow> form_error option" where
  "validate_grant_actor_control g = (if gc_kind g = KIND_UNSPECIFIED then Some GrantNoKind else None)"

definition validate_add_actor :: "actor option \<Rightarrow> form_error option" where
  "validate_add_actor a =
     (case a of
        None \<Rightarrow> None
      | Some a \<Rightarrow>
          if actor_controller_id a \<noteq> [] \<or> actor_controller_ids a \<noteq> [] then Some ActorWithController
          else if actor_id a = [] then None
          else if actor_kind_of a = KIND_UNSPECIFIED then Some ActorNoKind
          else None)"

definition validate_upsert_note :: "upsert_note \<Rightarrow> form_error option" where
  "validate_upsert_note n = (if un_visibility n = VISIBILITY_UNSPECIFIED then Some NoteNoVisibility else None)"

end
