(* ===== verification/Convert.thy ===== *)
theory Convert
  imports Authz
begin

text \<open>
  \<open>internal/gateway/convert.go\<close>: a command as the event it becomes. The random bytes of an event id are an
  argument, \<^const>\<open>None\<close> when the source of randomness fails, and the clock's reading another.
\<close>

datatype convert_error = UnknownCommand | NoEventId

definition new_event_id :: "8 word list option \<Rightarrow> convert_error + string" where
  "new_event_id rnd = (case rnd of None \<Rightarrow> Inl NoEventId | Some bytes \<Rightarrow> Inr (hex_text bytes))"

definition event_payload :: "command option \<Rightarrow> payload option" where
  "event_payload c =
     (case c of
        Some (MoveToken tid to reason) \<Rightarrow>
          Some (TokenMoved \<lparr>tm_token_id = tid, tm_scene_id = [], tm_from = None, tm_to = to, tm_reason = reason\<rparr>)
      | Some (AddActor a) \<Rightarrow> Some (ActorAdded a)
      | Some (PlaceToken k) \<Rightarrow>
          Some (TokenPlaced \<lparr>tp_token_id = pk_token_id k, tp_scene_id = pk_scene_id k, tp_actor_id = pk_actor_id k,
            tp_position = pk_position k, tp_name = pk_name k, tp_notes = pk_notes k, tp_gm_name = pk_gm_name k,
            tp_gm_notes = pk_gm_notes k\<rparr>)
      | Some (DescribeToken k) \<Rightarrow>
          Some (TokenDescribed \<lparr>td_token_id = dk_token_id k, td_name = dk_name k, td_notes = dk_notes k,
            td_gm_name = dk_gm_name k, td_gm_notes = dk_gm_notes k\<rparr>)
      | Some (RemoveToken tid) \<Rightarrow> Some (TokenRemoved tid)
      | Some (StartSession name) \<Rightarrow> Some (SessionStarted name)
      | Some EndSession \<Rightarrow> Some SessionEnded
      | Some (RemoveCondition aid cid) \<Rightarrow>
          Some (ConditionRemoved \<lparr>ce_actor_id = aid, ce_condition_id = cid, ce_source = ''manual''\<rparr>)
      | Some (AddNarration n) \<Rightarrow>
          Some (NarrationAdded \<lparr>na_text = an_text n, na_as = an_as n, na_anchor_from = an_anchor_from n,
            na_anchor_to = an_anchor_to n, na_out_of_character = an_out_of_character n\<rparr>)
      | Some (AddWhisper w) \<Rightarrow>
          Some (WhisperAdded \<lparr>wa_text = aw_text w, wa_to_actor_ids = aw_to_actor_ids w, wa_from_actor_id = aw_from_actor_id w\<rparr>)
      | Some (UpsertNote n) \<Rightarrow>
          Some (NoteUpserted \<lparr>nu_key = un_key n, nu_title = un_title n, nu_text = un_text n, nu_visibility = un_visibility n\<rparr>)
      | Some (DeleteNote k) \<Rightarrow> Some (NoteDeleted k)
      | Some (GrantActorControl g) \<Rightarrow>
          Some (ActorControlGranted \<lparr>cg_actor_id = gc_actor_id g, cg_participant_id = gc_participant_id g, cg_kind = gc_kind g\<rparr>)
      | Some (RevokeActorControl aid pid) \<Rightarrow> Some (ActorControlRevoked aid pid)
      | Some (OpenDoor sid at) \<Rightarrow> Some (DoorOpened sid at)
      | Some (CloseDoor sid at) \<Rightarrow> Some (DoorClosed sid at)
      | _ \<Rightarrow> None)"

definition to_event :: "(int \<times> int) \<Rightarrow> 8 word list option \<Rightarrow> command option \<Rightarrow> participant \<Rightarrow> convert_error + envelope" where
  "to_event now rnd c p =
     (case event_payload c of
        None \<Rightarrow> Inl UnknownCommand
      | Some pl \<Rightarrow> sum_bind (new_event_id rnd) (\<lambda>id.
          Inr \<lparr>env_event_id = id, env_sequence = 0, env_occurred_at = Some now, env_session_id = [],
               env_actor_role = role_name (pt_role p), env_participant_id = pt_id p, env_payload = Some pl\<rparr>))"

definition voice :: "command option \<Rightarrow> participant \<Rightarrow> state \<Rightarrow> envelope \<Rightarrow> envelope" where
  "voice c p st env =
     (case env_payload env of
        Some (NarrationAdded n) \<Rightarrow>
          (if na_out_of_character n then env\<lparr>env_payload := Some (NarrationAdded (n\<lparr>na_as := pt_name p\<rparr>))\<rparr>
           else if pt_role p = RolePlayer then
             env\<lparr>env_payload := Some (NarrationAdded (n\<lparr>na_as := name_of_actor (fmlookup (st_actors st)
               (case c of Some (AddNarration a) \<Rightarrow> an_actor_id a | _ \<Rightarrow> []))\<rparr>))\<rparr>
           else env)
      | _ \<Rightarrow> env)"

end
