(* ===== verification/Artlib.thy ===== *)
theory Artlib
  imports Runes
begin

text \<open>
  \<open>internal/artlib/artlib.go\<close>: the flat art directory a map's art ids name files of. What the operating system
  answers about the directory is \<open>art_disk\<close>; the sidecars' JSON is read by \<open>json_reader\<close>, the parts of
  \<open>encoding/json\<close> that the code calls, and \<open>lower\<close> is \<open>strings.ToLower\<close>. An error is a constructor with the
  clipped text it quotes.
\<close>

subsection \<open>The directory\<close>

datatype dir_fault = DirMissing | DirFault string

datatype read_answer = FileBytes string | FileMissing | FileFault string

datatype stat_answer = IsFile | IsDirectory | StatMissing | StatFault string

text \<open>The names are those of \<open>os.ReadDir\<close>, in its order; \<open>ad_linked\<close> is whether \<open>Lstat\<close> finds a name.\<close>

record art_disk =
  ad_entries :: "dir_fault + string list"
  ad_root :: "dir_fault option"
  ad_read :: "string \<Rightarrow> read_answer"
  ad_linked :: "string \<Rightarrow> bool"
  ad_stat :: "string \<Rightarrow> stat_answer"

record sidecar =
  sd_kind :: string
  sd_material :: string
  sd_open :: string
  sd_closed :: string

text \<open>
  \<open>js_declared\<close> decodes the first value's \<open>format_version\<close> alone, as the raw text it holds (empty when the
  field is absent); \<open>js_int\<close> reads such a text as an \<open>*int32\<close> (\<open>null\<close> is \<open>Inr None\<close>); \<open>js_sidecar\<close> decodes the
  whole, refusing fields it does not know.
\<close>

record json_reader =
  js_declared :: "string \<Rightarrow> string + string"
  js_int :: "string \<Rightarrow> string + int option"
  js_sidecar :: "string \<Rightarrow> string + sidecar"

record piece =
  pc_id :: string
  pc_kind :: string
  pc_material :: string
  pc_file :: string
  pc_open :: string
  pc_closed :: string
  pc_has_sidecar :: bool

datatype art_error =
    ErrNotAnArtId string
  | ErrNoArtDirectory string
  | ErrNoPicture string string
  | ErrCaseMismatch string string string
  | ErrArtDirUnreadable string
  | ErrFormatVersion string int
  | ErrSidecarDangling string
  | ErrSidecarRead string string
  | ErrSidecarJson string string
  | ErrVersionMissing string
  | ErrVersionNoNumber string string
  | ErrVersionOld string int
  | ErrNotADoor string string
  | ErrHalfADoor string
  | ErrNotAPicture string string string
  | ErrPictureDirectory string string
  | ErrPictureRead string string string

definition shown :: "string \<Rightarrow> string" where
  "shown s = clip s max_fragment"

definition max_message :: nat where
  "max_message = 240"

subsection \<open>Names\<close>

definition sidecar_ext :: string where "sidecar_ext = ''.json''"

definition picture_ext :: string where "picture_ext = ''.png''"

definition art_format_version :: int where "art_format_version = 1"

definition max_art_id_len :: nat where
  "max_art_id_len = 255 - length sidecar_ext"

definition id_char :: "char \<Rightarrow> bool" where
  "id_char c = ((97 \<le> (of_char c :: nat) \<and> (of_char c :: nat) \<le> 122) \<or> (48 \<le> (of_char c :: nat) \<and> (of_char c :: nat) \<le> 57))"

fun art_id_from :: "bool \<Rightarrow> string \<Rightarrow> bool" where
  "art_id_from prev_hyphen [] = (\<not> prev_hyphen)"
| "art_id_from prev_hyphen (c # s) =
     (if id_char c then art_id_from False s
      else if c = CHR ''-'' then (if prev_hyphen then False else art_id_from True s)
      else False)"

definition is_art_id :: "string \<Rightarrow> bool" where
  "is_art_id aid = (if max_art_id_len < length aid then False else art_id_from True aid)"

definition cut_suffix :: "string \<Rightarrow> string \<Rightarrow> string option" where
  "cut_suffix s ext =
     (if length ext \<le> length s \<and> drop (length s - length ext) s = ext then Some (take (length s - length ext) s) else None)"

definition is_art_name_with_ext :: "string \<Rightarrow> string \<Rightarrow> bool" where
  "is_art_name_with_ext name ext = (case cut_suffix name ext of None \<Rightarrow> False | Some stem \<Rightarrow> is_art_id stem)"

definition is_picture_name :: "string \<Rightarrow> bool" where
  "is_picture_name name = is_art_name_with_ext name picture_ext"

definition is_art_file_name :: "string \<Rightarrow> bool" where
  "is_art_file_name name = (is_art_name_with_ext name picture_ext \<or> is_art_name_with_ext name sidecar_ext)"

subsection \<open>A library\<close>

record library =
  li_names :: "string list"
  li_folded :: "(string, string) fmap"
  li_fault :: "dir_fault option"

definition index_name :: "(string \<Rightarrow> string) \<Rightarrow> string \<Rightarrow> library \<Rightarrow> library" where
  "index_name lower name l =
     (let l = l\<lparr>li_names := li_names l @ [name]\<rparr> in
      if lower name \<noteq> name \<and> fmlookup (li_folded l) (lower name) = None
      then l\<lparr>li_folded := fmupd (lower name) name (li_folded l)\<rparr> else l)"

definition open_library :: "(string \<Rightarrow> string) \<Rightarrow> art_disk \<Rightarrow> library" where
  "open_library lower d =
     (case ad_entries d of
        Inl f \<Rightarrow> \<lparr>li_names = [], li_folded = fmempty, li_fault = Some f\<rparr>
      | Inr names \<Rightarrow> fold (index_name lower) names \<lparr>li_names = [], li_folded = fmempty, li_fault = None\<rparr>)"

definition has :: "library \<Rightarrow> string \<Rightarrow> bool" where
  "has l name = (name \<in> set (li_names l))"

definition case_only_match :: "(string \<Rightarrow> string) \<Rightarrow> library \<Rightarrow> string \<Rightarrow> string option" where
  "case_only_match lower l name =
     (case fmlookup (li_folded l) (lower name) of None \<Rightarrow> None | Some got \<Rightarrow> if got \<noteq> name then Some got else None)"

definition stat_picture_on_disk :: "art_disk \<Rightarrow> string \<Rightarrow> string \<Rightarrow> art_error option" where
  "stat_picture_on_disk d aid name =
     (case ad_stat d name of
        IsFile \<Rightarrow> None
      | IsDirectory \<Rightarrow> Some (ErrPictureDirectory (shown aid) (shown name))
      | StatMissing \<Rightarrow> Some (ErrNoPicture (shown aid) (shown name))
      | StatFault why \<Rightarrow> Some (ErrPictureRead (shown aid) (shown name) why))"

definition stat_picture :: "(string \<Rightarrow> string) \<Rightarrow> library \<Rightarrow> art_disk \<Rightarrow> string \<Rightarrow> string \<Rightarrow> art_error option" where
  "stat_picture lower l d aid name =
     (if \<not> has l name then
        (case case_only_match lower l name of
           Some on_disk \<Rightarrow> Some (ErrCaseMismatch (shown aid) on_disk (shown name))
         | None \<Rightarrow> Some (ErrNoPicture (shown aid) (shown name)))
      else stat_picture_on_disk d aid name)"

definition picture_only :: "(string \<Rightarrow> string) \<Rightarrow> library \<Rightarrow> art_disk \<Rightarrow> string \<Rightarrow> art_error + piece" where
  "picture_only lower l d aid =
     (case stat_picture lower l d aid (aid @ picture_ext) of
        Some err \<Rightarrow> Inl err
      | None \<Rightarrow> Inr \<lparr>pc_id = aid, pc_kind = [], pc_material = [], pc_file = aid @ picture_ext, pc_open = [],
                    pc_closed = [], pc_has_sidecar = False\<rparr>)"

definition declared_version :: "json_reader \<Rightarrow> string \<Rightarrow> string \<Rightarrow> art_error option" where
  "declared_version js aid raw =
     (case js_declared js raw of
        Inl why \<Rightarrow> Some (ErrSidecarJson (shown aid) (clip why max_message))
      | Inr text \<Rightarrow>
          if text = [] then Some (ErrVersionMissing (shown aid))
          else (case js_int js text of
              Inr (Some v) \<Rightarrow>
                if art_format_version < v then Some (ErrFormatVersion (shown aid) v)
                else if v < art_format_version then Some (ErrVersionOld (shown aid) v)
                else None
            | _ \<Rightarrow> Some (ErrVersionNoNumber (shown aid) (shown text))))"

definition door_picture :: "(string \<Rightarrow> string) \<Rightarrow> library \<Rightarrow> art_disk \<Rightarrow> string \<Rightarrow> string \<Rightarrow> string \<Rightarrow> art_error option" where
  "door_picture lower l d aid field name =
     (if \<not> is_picture_name name then Some (ErrNotAPicture (shown aid) field (shown name))
      else stat_picture lower l d aid name)"

definition piece_from_sidecar :: "(string \<Rightarrow> string) \<Rightarrow> json_reader \<Rightarrow> library \<Rightarrow> art_disk \<Rightarrow> string \<Rightarrow> string \<Rightarrow> art_error + piece" where
  "piece_from_sidecar lower js l d aid raw =
     (case declared_version js aid raw of
        Some err \<Rightarrow> Inl err
      | None \<Rightarrow>
          (case js_sidecar js raw of
             Inl why \<Rightarrow> Inl (ErrSidecarJson (shown aid) (clip why max_message))
           | Inr sc \<Rightarrow>
               let p = \<lparr>pc_id = aid, pc_kind = sd_kind sc, pc_material = sd_material sc, pc_file = [], pc_open = [],
                        pc_closed = [], pc_has_sidecar = True\<rparr> in
               if sd_kind sc \<noteq> ''door'' then
                 (if sd_open sc \<noteq> [] \<or> sd_closed sc \<noteq> [] then Inl (ErrNotADoor (shown aid) (shown (sd_kind sc)))
                  else case stat_picture lower l d aid (aid @ picture_ext) of
                    Some err \<Rightarrow> Inl err
                  | None \<Rightarrow> Inr (p\<lparr>pc_file := aid @ picture_ext\<rparr>))
               else if sd_open sc = [] \<or> sd_closed sc = [] then Inl (ErrHalfADoor (shown aid))
               else case door_picture lower l d aid ''open'' (sd_open sc) of
                 Some err \<Rightarrow> Inl err
               | None \<Rightarrow>
                   (case door_picture lower l d aid ''closed'' (sd_closed sc) of
                      Some err \<Rightarrow> Inl err
                    | None \<Rightarrow> Inr (p\<lparr>pc_open := sd_open sc, pc_closed := sd_closed sc\<rparr>))))"

definition lookup_in :: "(string \<Rightarrow> string) \<Rightarrow> json_reader \<Rightarrow> library \<Rightarrow> art_disk \<Rightarrow> string \<Rightarrow> art_error + piece" where
  "lookup_in lower js l d aid =
     (if \<not> has l (aid @ sidecar_ext) then picture_only lower l d aid
      else case ad_read d (aid @ sidecar_ext) of
        FileBytes raw \<Rightarrow> piece_from_sidecar lower js l d aid raw
      | FileMissing \<Rightarrow>
          if ad_linked d (aid @ sidecar_ext) then Inl (ErrSidecarDangling (shown aid))
          else picture_only lower l d aid
      | FileFault why \<Rightarrow> Inl (ErrSidecarRead (shown aid) why))"

definition lookup_art :: "(string \<Rightarrow> string) \<Rightarrow> json_reader \<Rightarrow> library \<Rightarrow> art_disk \<Rightarrow> string \<Rightarrow> art_error + piece" where
  "lookup_art lower js l d aid =
     (if \<not> is_art_id aid then Inl (ErrNotAnArtId (shown aid))
      else case li_fault l of
        Some DirMissing \<Rightarrow> Inl (ErrNoArtDirectory (shown aid))
      | Some (DirFault why) \<Rightarrow> Inl (ErrArtDirUnreadable why)
      | None \<Rightarrow>
          if \<not> has l (aid @ sidecar_ext) \<and> \<not> has l (aid @ picture_ext) then
            (case case_only_match lower l (aid @ picture_ext) of
               Some on_disk \<Rightarrow> Inl (ErrCaseMismatch (shown aid) on_disk (shown (aid @ picture_ext)))
             | None \<Rightarrow>
                 (case case_only_match lower l (aid @ sidecar_ext) of
                    Some on_disk \<Rightarrow> Inl (ErrCaseMismatch (shown aid) on_disk (shown (aid @ sidecar_ext)))
                  | None \<Rightarrow> Inl (ErrNoPicture (shown aid) (shown (aid @ picture_ext)))))
          else (case ad_root d of
              Some DirMissing \<Rightarrow> Inl (ErrNoArtDirectory (shown aid))
            | Some (DirFault why) \<Rightarrow> Inl (ErrArtDirUnreadable why)
            | None \<Rightarrow> lookup_in lower js l d aid))"

end
