(* ===== verification/Mapdef.thy ===== *)
theory Mapdef
  imports Artlib Wire Fold
begin

text \<open>
  \<open>internal/mapdef\<close>: a map file in memory (\<open>format.go\<close>), the built-in tiles (\<open>standard.go\<close>), how a square or an
  object finds its art (\<open>resolve.go\<close>), and the events a map becomes (\<open>compile.go\<close>). The library that art is
  looked up in is an argument, \<open>lk\<close>, which the callers give as \<^const>\<open>lookup_art\<close> of an opened directory. A
  warning is a constructor with the clipped text it quotes, so equal warnings are equal texts.
\<close>

subsection \<open>Format\<close>

record map_object =
  mo_id :: string
  mo_kind :: string
  mo_x :: int32
  mo_y :: int32
  mo_w :: int32
  mo_h :: int32
  mo_rotation :: int32
  mo_blocks_sight :: bool
  mo_blocks_move :: bool
  mo_art :: string

record placement =
  pl_token_id :: string
  pl_actor_id :: string
  pl_x :: int32
  pl_y :: int32
  pl_name :: string
  pl_notes :: string
  pl_gm_name :: string
  pl_gm_notes :: string

record map_def =
  md_id :: string
  md_name :: string
  md_grid_w :: int32
  md_grid_h :: int32
  md_cell_px :: int32
  md_tiles :: "(string, string) fmap"
  md_overrides :: "(string, string) fmap"
  md_objects :: "map_object list"
  md_placements :: "placement list"

definition standard_tile :: "string \<Rightarrow> (string \<times> string) option" where
  "standard_tile = map_of
     [(''stone-wall'', (''wall'', ''stone'')),
      (''wood-wall'', (''wall'', ''wood'')),
      (''wood-door'', (''door'', ''wood'')),
      (''stone'', (''floor'', ''stone'')),
      (''wood'', (''floor'', ''wood'')),
      (''earth'', (''floor'', ''earth'')),
      (''grass'', (''floor'', ''grass'')),
      (''sand'', (''floor'', ''sand'')),
      (''water'', (''floor'', ''water'')),
      (''metal'', (''floor'', ''metal'')),
      (''ice'', (''floor'', ''ice''))]"

subsection \<open>Art\<close>

datatype art_warning =
    SquareCaseMismatch string string
  | SquareNotInstalled string
  | SquareDirUnreadable
  | SquareUnusable string art_error
  | SquareNoSidecar string
  | SquareDrawnFor string string string
  | ObjectCaseMismatch string string
  | ObjectNotInstalled string
  | ObjectDirUnreadable
  | ObjectUnusable string art_error

datatype map_error =
    ErrTooManyTiles string nat
  | ErrNoTile string
  | ErrUnknownTile string string
  | ErrObjectNoArt nat
  | ErrArtFormat art_error

type_synonym art_lookup = "string \<Rightarrow> art_error + piece"

definition resolve_with :: "map_def \<Rightarrow> art_lookup \<Rightarrow> string \<Rightarrow> map_error + tile_ref \<times> art_warning list" where
  "resolve_with m lk square =
     (case fmlookup (md_tiles m) square of
        None \<Rightarrow> Inl (ErrNoTile square)
      | Some base \<Rightarrow>
          (case standard_tile base of
             None \<Rightarrow> Inl (ErrUnknownTile square base)
           | Some (kind, material) \<Rightarrow>
               let plain = \<lparr>tr_kind = kind, tr_material = material, tr_art = []\<rparr> in
               (case fmlookup (md_overrides m) square of
                  None \<Rightarrow> Inr (plain, [])
                | Some art \<Rightarrow>
                    (case lk art of
                       Inl err \<Rightarrow>
                         (case err of
                            ErrCaseMismatch _ on_disk _ \<Rightarrow> Inr (plain, [SquareCaseMismatch (shown art) (shown on_disk)])
                          | ErrNotAnArtId _ \<Rightarrow> Inr (plain, [SquareNotInstalled (shown art)])
                          | ErrNoArtDirectory _ \<Rightarrow> Inr (plain, [SquareNotInstalled (shown art)])
                          | ErrNoPicture _ _ \<Rightarrow> Inr (plain, [SquareNotInstalled (shown art)])
                          | ErrArtDirUnreadable _ \<Rightarrow> Inr (plain, [SquareDirUnreadable])
                          | ErrFormatVersion _ _ \<Rightarrow> Inl (ErrArtFormat err)
                          | _ \<Rightarrow> Inr (plain, [SquareUnusable (shown art) err]))
                     | Inr pc \<Rightarrow>
                         if \<not> pc_has_sidecar pc then Inr (plain, [SquareNoSidecar (shown art)])
                         else Inr (plain\<lparr>tr_art := art\<rparr>,
                           if pc_kind pc \<noteq> [] \<and> pc_kind pc \<noteq> kind
                           then [SquareDrawnFor (shown art) (shown (pc_kind pc)) kind] else [])))))"

definition resolve_object_art_with :: "nat \<Rightarrow> map_object \<Rightarrow> art_lookup \<Rightarrow> map_error + string \<times> art_warning list" where
  "resolve_object_art_with i ob lk =
     (if mo_art ob = [] then Inl (ErrObjectNoArt i)
      else case lk (mo_art ob) of
        Inl err \<Rightarrow>
          (case err of
             ErrCaseMismatch _ on_disk _ \<Rightarrow> Inr ([], [ObjectCaseMismatch (shown (mo_art ob)) (shown on_disk)])
           | ErrNotAnArtId _ \<Rightarrow> Inr ([], [ObjectNotInstalled (shown (mo_art ob))])
           | ErrNoArtDirectory _ \<Rightarrow> Inr ([], [ObjectNotInstalled (shown (mo_art ob))])
           | ErrNoPicture _ _ \<Rightarrow> Inr ([], [ObjectNotInstalled (shown (mo_art ob))])
           | ErrArtDirUnreadable _ \<Rightarrow> Inr ([], [ObjectDirUnreadable])
           | ErrFormatVersion _ _ \<Rightarrow> Inl (ErrArtFormat err)
           | _ \<Rightarrow> Inr ([], [ObjectUnusable (shown (mo_art ob)) err]))
      | Inr pc \<Rightarrow> Inr (mo_art ob, []))"

subsection \<open>Warnings, told once each\<close>

record warning_tally =
  wt_order :: "art_warning list"
  wt_count :: "art_warning \<Rightarrow> nat"
  wt_at :: "art_warning \<Rightarrow> string list"

definition no_warnings :: warning_tally where
  "no_warnings = \<lparr>wt_order = [], wt_count = (\<lambda>_. 0), wt_at = (\<lambda>_. [])\<rparr>"

definition max_listed_squares :: nat where
  "max_listed_squares = 4"

definition record_warning :: "string \<Rightarrow> art_warning \<Rightarrow> warning_tally \<Rightarrow> warning_tally" where
  "record_warning place w t =
     t\<lparr>wt_order := (if wt_count t w = 0 then wt_order t @ [w] else wt_order t),
       wt_count := (wt_count t)(w := wt_count t w + 1),
       wt_at := (if place \<noteq> [] \<and> length (wt_at t w) < max_listed_squares
                 then (wt_at t)(w := wt_at t w @ [place]) else wt_at t)\<rparr>"

definition record_warnings :: "string \<Rightarrow> art_warning list \<Rightarrow> warning_tally \<Rightarrow> warning_tally" where
  "record_warnings place ws t = fold (record_warning place) ws t"

text \<open>What one line says after the warning: the count and the places, as many as are listed.\<close>

datatype told =
    ToldElided art_warning nat string "string list"
  | ToldPlaces art_warning nat string "string list"
  | ToldPlace art_warning string string
  | ToldCount art_warning nat string
  | ToldPlain art_warning

definition render_one :: "string \<Rightarrow> warning_tally \<Rightarrow> art_warning \<Rightarrow> told" where
  "render_one unit_name t w =
     (let n = wt_count t w; places = wt_at t w in
      if 0 < length places \<and> length places < n then ToldElided w n unit_name places
      else if 1 < length places then ToldPlaces w n unit_name places
      else if length places = 1 then ToldPlace w unit_name (hd places)
      else if 1 < n then ToldCount w n unit_name
      else ToldPlain w)"

definition render :: "string \<Rightarrow> warning_tally \<Rightarrow> told list" where
  "render unit_name t = map (render_one unit_name t) (wt_order t)"

definition all_warnings :: "warning_tally \<Rightarrow> warning_tally \<Rightarrow> told list" where
  "all_warnings squares objects = render ''square'' squares @ render ''object'' objects"

subsection \<open>Compilation\<close>

definition max_wire_tiles :: nat where
  "max_wire_tiles = 3600"

definition grid_positions :: "int32 \<Rightarrow> int32 \<Rightarrow> (int32 \<times> int32) list" where
  "grid_positions w h = concat (map (\<lambda>y. map (\<lambda>x. (word_of_int x, word_of_int y)) [0 .. sint w - 1]) [0 .. sint h - 1])"

fun build_tiles :: "map_def \<Rightarrow> art_lookup \<Rightarrow> (int32 \<times> int32) list \<Rightarrow> (string, tile_ref) fmap \<Rightarrow> warning_tally \<Rightarrow>
    warning_tally \<times> (map_error + (string, tile_ref) fmap)" where
  "build_tiles m lk [] tiles t = (t, Inr tiles)"
| "build_tiles m lk ((x, y) # sqs) tiles t =
     (case resolve_with m lk (grid_key x y) of
        Inl err \<Rightarrow> (t, Inl err)
      | Inr (ref, ws) \<Rightarrow>
          build_tiles m lk sqs (fmupd (grid_key x y) ref tiles)
            (record_warnings (if tr_art ref \<noteq> [] then grid_key x y else []) ws t))"

fun build_objects :: "art_lookup \<Rightarrow> nat \<Rightarrow> map_object list \<Rightarrow> warning_tally \<Rightarrow> warning_tally \<times> (map_error + wire_object list)" where
  "build_objects lk i [] t = (t, Inr [])"
| "build_objects lk i (ob # obs) t =
     (case resolve_object_art_with i ob lk of
        Inl err \<Rightarrow> (t, Inl err)
      | Inr (art, ws) \<Rightarrow>
          (case build_objects lk (Suc i) obs (record_warnings [] ws t) of
             (t, Inl err) \<Rightarrow> (t, Inl err)
           | (t, Inr out) \<Rightarrow>
               (t, Inr (\<lparr>wo_object_id = mo_id ob, wo_kind = mo_kind ob, wo_at = Some \<lparr>gp_x = mo_x ob, gp_y = mo_y ob\<rparr>,
                         wo_width = mo_w ob, wo_height = mo_h ob, wo_rotation = mo_rotation ob,
                         wo_blocks_sight = mo_blocks_sight ob, wo_blocks_move = mo_blocks_move ob, wo_art = art\<rparr> # out))))"

definition build_scene_created :: "map_def \<Rightarrow> art_lookup \<Rightarrow> told list \<times> (map_error + scene_created)" where
  "build_scene_created m lk =
     (let declared = size (fmdom (md_tiles m)) in
      if max_wire_tiles < declared then ([], Inl (ErrTooManyTiles (md_id m) declared))
      else case (if 0 < declared then build_tiles m lk (grid_positions (md_grid_w m) (md_grid_h m)) fmempty no_warnings
                 else (no_warnings, Inr fmempty)) of
        (squares, Inl err) \<Rightarrow> (render ''square'' squares, Inl err)
      | (squares, Inr tiles) \<Rightarrow>
          (case build_objects lk 0 (md_objects m) no_warnings of
             (objs, Inl err) \<Rightarrow> (all_warnings squares objs, Inl err)
           | (objs, Inr out) \<Rightarrow>
               (all_warnings squares objs,
                Inr \<lparr>scr_scene_id = md_id m, scr_name = md_name m, scr_grid_width = md_grid_w m,
                     scr_grid_height = md_grid_h m, scr_tiles = tiles, scr_objects = out\<rparr>)))"

definition placed_token :: "string \<Rightarrow> placement \<Rightarrow> envelope" where
  "placed_token sid pl = payload_only (TokenPlaced
     \<lparr>tp_token_id = pl_token_id pl, tp_scene_id = sid, tp_actor_id = pl_actor_id pl,
      tp_position = Some \<lparr>gp_x = pl_x pl, gp_y = pl_y pl\<rparr>, tp_name = pl_name pl, tp_notes = pl_notes pl,
      tp_gm_name = pl_gm_name pl, tp_gm_notes = pl_gm_notes pl\<rparr>)"

definition compile_map :: "map_def \<Rightarrow> art_lookup \<Rightarrow> told list \<times> (map_error + envelope list)" where
  "compile_map m lk =
     (case build_scene_created m lk of
        (ws, Inl err) \<Rightarrow> (ws, Inl err)
      | (ws, Inr sc) \<Rightarrow>
          (ws, Inr (payload_only (SceneCreated sc) # map (placed_token (md_id m)) (md_placements m))))"

end
