(* ===== verification/Map_Load.thy ===== *)
theory Map_Load
  imports Mapdef Perceive
begin

text \<open>
  \<open>internal/mapdef/load.go\<close> and \<open>installed.go\<close>: the checks a map file passes, some of which \<open>internal/adventure\<close>
  runs on its scenes too. Reading and decoding a file is the argument \<open>decode\<close> (its error is a text); what is
  decoded is a record of the file's fields. Where the code ranges over a Go map and returns the first fault it
  meets, in Go's random order, the model returns the fault at the least key.
\<close>

datatype field_issue =
    MustNotBeEmpty
  | AtMostBytes nat nat
  | VersionRequired
  | VersionIs int32
  | CellPxNotANumber string
  | CellPxIs int32
  | MustBePositive int32
  | NoTileNamed
  | SquareOutsideGrid
  | TileNameUnknown string
  | OverridesNeedTiles
  | FootprintTooSmall int32 int32
  | ObjectOutsideGrid
  | DuplicateId string
  | ArtRequired
  | StartsInsideWall string int32 int32 string

type_synonym field_fault = "string \<times> field_issue"

definition indexed :: "string \<Rightarrow> nat \<Rightarrow> string \<Rightarrow> string" where
  "indexed name i tail = name @ ''['' @ show_nat i @ '']'' @ tail"

definition keyed :: "string \<Rightarrow> string \<Rightarrow> string" where
  "keyed name key = name @ ''['' @ shown key @ '']''"

subsection \<open>Checks on tiles\<close>

definition parse_square_key :: "string \<Rightarrow> (int32 \<times> int32) option" where
  "parse_square_key key =
     (case cut_comma key of
        None \<Rightarrow> None
      | Some (xs, ys) \<Rightarrow>
          (case parse_int32 xs of
             None \<Rightarrow> None
           | Some x \<Rightarrow> (case parse_int32 ys of None \<Rightarrow> None | Some y \<Rightarrow> Some (x, y))))"

definition square_inside :: "string \<Rightarrow> int32 \<Rightarrow> int32 \<Rightarrow> bool" where
  "square_inside key w h =
     (case parse_square_key key of
        None \<Rightarrow> False
      | Some (x, y) \<Rightarrow> \<not> (sint x < 0 \<or> sint w \<le> sint x \<or> sint y < 0 \<or> sint h \<le> sint y))"

definition require_every_square :: "(string, string) fmap \<Rightarrow> int32 \<Rightarrow> int32 \<Rightarrow> field_fault option" where
  "require_every_square tiles w h =
     (case find (\<lambda>(x, y). fmlookup tiles (grid_key x y) = None) (grid_positions w h) of
        None \<Rightarrow> None
      | Some (x, y) \<Rightarrow> Some (keyed ''tiles'' (grid_key x y), NoTileNamed))"

definition check_every_square :: "(string, string) fmap \<Rightarrow> int32 \<Rightarrow> int32 \<Rightarrow> field_fault option" where
  "check_every_square tiles w h = (if keys tiles = [] then None else require_every_square tiles w h)"

definition check_inside_grid :: "string \<Rightarrow> (string, string) fmap \<Rightarrow> int32 \<Rightarrow> int32 \<Rightarrow> field_fault option" where
  "check_inside_grid name squares w h =
     (case find (\<lambda>key. \<not> square_inside key w h) (keys squares) of
        None \<Rightarrow> None
      | Some key \<Rightarrow> Some (keyed name key, SquareOutsideGrid))"

definition check_tile_names :: "(string, string) fmap \<Rightarrow> field_fault option" where
  "check_tile_names tiles =
     (case find (\<lambda>key. case fmlookup tiles key of None \<Rightarrow> False | Some name \<Rightarrow> standard_tile name = None) (keys tiles) of
        None \<Rightarrow> None
      | Some key \<Rightarrow> Some (keyed ''tiles'' key, TileNameUnknown (shown (case fmlookup tiles key of None \<Rightarrow> [] | Some name \<Rightarrow> name))))"

definition check_overrides_tiles :: "(string, string) fmap \<Rightarrow> (string, string) fmap \<Rightarrow> field_fault option" where
  "check_overrides_tiles tiles overrides =
     (if keys overrides \<noteq> [] \<and> keys tiles = [] then Some (''overrides'', OverridesNeedTiles) else None)"

subsection \<open>Checks on objects and placements\<close>

fun check_object_ids :: "nat \<Rightarrow> string set \<Rightarrow> map_object list \<Rightarrow> field_fault option" where
  "check_object_ids i seen [] = None"
| "check_object_ids i seen (ob # obs) =
     (let field = indexed ''objects'' i ''.id'' in
      if mo_id ob = [] then Some (field, MustNotBeEmpty)
      else if max_id_bytes < length (mo_id ob) then Some (field, AtMostBytes max_id_bytes (length (mo_id ob)))
      else if mo_id ob \<in> seen then Some (field, DuplicateId (mo_id ob))
      else check_object_ids (Suc i) (insert (mo_id ob) seen) obs)"

fun check_object_footprints :: "nat \<Rightarrow> map_object list \<Rightarrow> int32 \<Rightarrow> int32 \<Rightarrow> field_fault option" where
  "check_object_footprints i [] w h = None"
| "check_object_footprints i (ob # obs) w h =
     (if sint (mo_w ob) < 1 \<or> sint (mo_h ob) < 1
      then Some (indexed ''objects'' i ''.size'', FootprintTooSmall (mo_w ob) (mo_h ob))
      else if sint (mo_x ob) < 0 \<or> sint (mo_y ob) < 0
            \<or> sint (widen w) < sint (widen (mo_x ob) + widen (mo_w ob))
            \<or> sint (widen h) < sint (widen (mo_y ob) + widen (mo_h ob))
      then Some (indexed ''objects'' i ''.at'', ObjectOutsideGrid)
      else check_object_footprints (Suc i) obs w h)"

fun check_object_art :: "nat \<Rightarrow> map_object list \<Rightarrow> field_fault option" where
  "check_object_art i [] = None"
| "check_object_art i (ob # obs) =
     (if mo_art ob = [] then Some (indexed ''objects'' i ''.art'', ArtRequired) else check_object_art (Suc i) obs)"

fun check_placements :: "nat \<Rightarrow> placement list \<Rightarrow> (string, string) fmap \<Rightarrow> int32 \<Rightarrow> int32 \<Rightarrow> field_fault option" where
  "check_placements i [] tiles w h = None"
| "check_placements i (p # ps) tiles w h =
     (if sint (pl_x p) < 0 \<or> sint w \<le> sint (pl_x p) \<or> sint (pl_y p) < 0 \<or> sint h \<le> sint (pl_y p)
      then Some (indexed ''placements'' i [], SquareOutsideGrid)
      else let name = (case fmlookup tiles (grid_key (pl_x p) (pl_y p)) of None \<Rightarrow> [] | Some n \<Rightarrow> n) in
        if map_option fst (standard_tile name) = Some ''wall''
        then Some (indexed ''placements'' i [], StartsInsideWall (pl_token_id p) (pl_x p) (pl_y p) name)
        else check_placements (Suc i) ps tiles w h)"

subsection \<open>A map file\<close>

record raw_map =
  rm_format_version :: int32
  rm_id :: string
  rm_name :: string
  rm_grid_width :: int32
  rm_grid_height :: int32
  rm_cell_px :: "string option"
  rm_tiles :: "(string, string) fmap"
  rm_overrides :: "(string, string) fmap"
  rm_objects :: "map_object list"
  rm_placements :: "placement list"

datatype map_load_error =
    MapUnreadable string
  | MapField field_fault

definition map_format_version :: int32 where "map_format_version = 1"

definition min_cell_px :: int32 where "min_cell_px = 8"

definition max_cell_px :: int32 where "max_cell_px = 1024"

definition check_cell_px :: "(string \<Rightarrow> string + int32) \<Rightarrow> string option \<Rightarrow> field_fault + int32" where
  "check_cell_px read_int raw =
     (case raw of
        None \<Rightarrow> Inr 0
      | Some text \<Rightarrow>
          (case read_int text of
             Inl why \<Rightarrow> Inl (''cell_px'', CellPxNotANumber why)
           | Inr n \<Rightarrow> if sint n < sint min_cell_px \<or> sint max_cell_px < sint n then Inl (''cell_px'', CellPxIs n) else Inr n))"

fun check_token_ids :: "nat \<Rightarrow> placement list \<Rightarrow> field_fault option" where
  "check_token_ids i [] = None"
| "check_token_ids i (p # ps) =
     (let field = indexed ''placements'' i ''.token_id'' in
      if pl_token_id p = [] then Some (field, MustNotBeEmpty)
      else if max_id_bytes < length (pl_token_id p) then Some (field, AtMostBytes max_id_bytes (length (pl_token_id p)))
      else check_token_ids (Suc i) ps)"

text \<open>The first of a list of checks to find a fault.\<close>

fun first_fault :: "field_fault option list \<Rightarrow> field_fault option" where
  "first_fault [] = None"
| "first_fault (c # cs) = (case c of None \<Rightarrow> first_fault cs | Some f \<Rightarrow> Some f)"

lemma first_fault_None: "first_fault cs = None \<longleftrightarrow> (\<forall>c \<in> set cs. c = None)"
  by (induction cs) (auto split: option.splits)

definition header_fault :: "raw_map \<Rightarrow> field_fault option" where
  "header_fault r =
     (if rm_format_version r = 0 then Some (''format_version'', VersionRequired)
      else if rm_format_version r \<noteq> map_format_version then Some (''format_version'', VersionIs (rm_format_version r))
      else if max_id_bytes < length (rm_id r) then Some (''id'', AtMostBytes max_id_bytes (length (rm_id r)))
      else None)"

definition size_fault :: "raw_map \<Rightarrow> field_fault option" where
  "size_fault r =
     (if max_name_bytes < length (rm_name r) then Some (''name'', AtMostBytes max_name_bytes (length (rm_name r)))
      else if sint (rm_grid_width r) < 1 then Some (''grid_width'', MustBePositive (rm_grid_width r))
      else if sint (rm_grid_height r) < 1 then Some (''grid_height'', MustBePositive (rm_grid_height r))
      else None)"

definition body_fault :: "raw_map \<Rightarrow> field_fault option" where
  "body_fault r =
     (let w = rm_grid_width r; h = rm_grid_height r in
      first_fault
        [check_every_square (rm_tiles r) w h, check_inside_grid ''tiles'' (rm_tiles r) w h, check_tile_names (rm_tiles r),
         check_inside_grid ''overrides'' (rm_overrides r) w h, check_overrides_tiles (rm_tiles r) (rm_overrides r),
         check_object_ids 0 {} (rm_objects r), check_object_footprints 0 (rm_objects r) w h,
         check_object_art 0 (rm_objects r), check_token_ids 0 (rm_placements r),
         check_placements 0 (rm_placements r) (rm_tiles r) w h])"

definition load_map_as :: "(string \<Rightarrow> string + int32) \<Rightarrow> string + raw_map \<Rightarrow> map_load_error + map_def" where
  "load_map_as read_int decoded =
     (case decoded of
        Inl why \<Rightarrow> Inl (MapUnreadable why)
      | Inr r \<Rightarrow>
          (case header_fault r of
             Some f \<Rightarrow> Inl (MapField f)
           | None \<Rightarrow>
               (case check_cell_px read_int (rm_cell_px r) of
                  Inl f \<Rightarrow> Inl (MapField f)
                | Inr cell \<Rightarrow>
                    (case size_fault r of
                       Some f \<Rightarrow> Inl (MapField f)
                     | None \<Rightarrow>
                         (case body_fault r of
                            Some f \<Rightarrow> Inl (MapField f)
                          | None \<Rightarrow> Inr \<lparr>md_id = rm_id r, md_name = rm_name r, md_grid_w = rm_grid_width r,
                              md_grid_h = rm_grid_height r, md_cell_px = cell, md_tiles = rm_tiles r,
                              md_overrides = rm_overrides r, md_objects = rm_objects r,
                              md_placements = rm_placements r\<rparr>)))))"

subsection \<open>A map installed in the campaign\<close>

datatype installed_error =
    NotAMapId string
  | MapCaseOnly string string
  | MapNotInstalled
  | MapNotRead string
  | MapInvalid field_fault
  | MapDeclaresId string
  | MapNotCompiled map_error

text \<open>\<open>filepath.Base\<close> on a Unix path: the last element, slashes at the end dropped.\<close>

definition base_name :: "string \<Rightarrow> string" where
  "base_name path =
     (if path = [] then ''.''
      else let s = rev (dropWhile (\<lambda>c. c = CHR ''/'') (rev path)) in
        if s = [] then ''/'' else rev (takeWhile (\<lambda>c. c \<noteq> CHR ''/'') (rev s)))"

definition id_is_a_filename :: "string \<Rightarrow> bool" where
  "id_is_a_filename mid = (mid \<noteq> ''.'' \<and> mid \<noteq> ''..'' \<and> base_name mid = mid)"

definition refuse_case_only_match :: "(string \<Rightarrow> string) \<Rightarrow> string list \<Rightarrow> string \<Rightarrow> installed_error option" where
  "refuse_case_only_match lower names file =
     (if file \<in> set names then None
      else case find (\<lambda>n. lower n = lower file) names of None \<Rightarrow> None | Some n \<Rightarrow> Some (MapCaseOnly file n))"

text \<open>
  The maps directory: the names it holds (none when it cannot be read), and the file of a name, \<^const>\<open>None\<close>
  when there is none.
\<close>

record maps_disk =
  mp_names :: "string list"
  mp_file :: "string \<Rightarrow> (string + raw_map) option"

definition load_installed :: "(string \<Rightarrow> string) \<Rightarrow> (string \<Rightarrow> string + int32) \<Rightarrow> maps_disk \<Rightarrow> string \<Rightarrow> art_lookup \<Rightarrow>
    installed_error + map_def" where
  "load_installed lower read_int d mid lk =
     (let file = mid @ ''.json'' in
      if \<not> id_is_a_filename mid then Inl (NotAMapId mid)
      else case refuse_case_only_match lower (mp_names d) file of
        Some err \<Rightarrow> Inl err
      | None \<Rightarrow>
          (case mp_file d file of
             None \<Rightarrow> Inl MapNotInstalled
           | Some decoded \<Rightarrow>
               (case load_map_as read_int decoded of
                  Inl (MapUnreadable why) \<Rightarrow> Inl (MapNotRead why)
                | Inl (MapField f) \<Rightarrow> Inl (MapInvalid f)
                | Inr m \<Rightarrow>
                    if md_id m \<noteq> mid then Inl (MapDeclaresId (md_id m))
                    else case snd (compile_map m lk) of
                      Inl err \<Rightarrow> Inl (MapNotCompiled err)
                    | Inr _ \<Rightarrow> Inr m)))"

end
