(* ===== verification/Map_Props.thy ===== *)
theory Map_Props
  imports Map_Load
begin

text \<open>
  What a map and its art promise: art that is found is a picture in the directory, art decides what a square
  looks like and never what it is, and a map that loads compiles but for its size or a newer art format.
\<close>

subsection \<open>Art\<close>

lemma cut_suffix_append [simp]: "cut_suffix (s @ ext) ext = Some s"
  by (simp add: cut_suffix_def)

lemma art_picture_name [simp]: "is_picture_name (aid @ picture_ext) = is_art_id aid"
  by (simp add: is_picture_name_def is_art_name_with_ext_def)

lemma index_names:
  "set (li_names (fold (index_name lower) names l)) = set (li_names l) \<union> set names \<and>
     li_fault (fold (index_name lower) names l) = li_fault l"
  by (induction names arbitrary: l) (auto simp: index_name_def Let_def)

lemma open_library_holds:
  "li_fault (open_library lower d) = None \<Longrightarrow> \<exists>names. ad_entries d = Inr names \<and> (\<forall>n. has (open_library lower d) n = (n \<in> set names))"
  using index_names by (fastforce simp: open_library_def has_def split: sum.splits)

definition installed_picture :: "art_disk \<Rightarrow> string \<Rightarrow> bool" where
  "installed_picture d name =
     (is_picture_name name \<and> (\<exists>names. ad_entries d = Inr names \<and> name \<in> set names) \<and> ad_stat d name = IsFile)"

lemma stat_picture_installed:
  assumes "stat_picture lower (open_library lower d) d aid name = None" and "is_picture_name name"
    and "li_fault (open_library lower d) = None"
  shows "installed_picture d name"
  using assms open_library_holds[OF assms(3)]
  by (auto simp: stat_picture_def stat_picture_on_disk_def installed_picture_def split: if_splits option.splits stat_answer.splits)

lemma door_picture_installed:
  assumes "door_picture lower (open_library lower d) d aid field name = None" and "li_fault (open_library lower d) = None"
  shows "installed_picture d name"
  using assms stat_picture_installed[OF _ _ assms(2)] by (auto simp: door_picture_def split: if_splits)

text \<open>
  C27: Art that is looked up and found is a picture of the directory: every file the piece names is a kebab-case
  \<open>.png\<close> name, spelled as the directory spells it, and no directory; and it names one picture, or a door's two.
\<close>

theorem found_art_is_installed:
  assumes "lookup_art lower js (open_library lower d) d aid = Inr pc"
  shows "pc_id pc = aid \<and>
    (installed_picture d (pc_file pc) \<and> pc_open pc = [] \<and> pc_closed pc = [] \<or>
     pc_file pc = [] \<and> pc_kind pc = ''door'' \<and> installed_picture d (pc_open pc) \<and> installed_picture d (pc_closed pc))"
proof -
  let ?l = "open_library lower d"
  from assms have aid: "is_art_id aid" and fault: "li_fault ?l = None" and found: "lookup_in lower js ?l d aid = Inr pc"
    by (auto simp: lookup_art_def split: if_splits option.splits dir_fault.splits)
  note stat = stat_picture_installed[OF _ _ fault, of aid "aid @ picture_ext", simplified, OF _ aid]
  have plain: ?thesis if "picture_only lower ?l d aid = Inr pc"
    using that stat by (auto simp: picture_only_def split: option.splits)
  have sidecar: ?thesis if made: "piece_from_sidecar lower js ?l d aid raw = Inr pc" for raw
  proof -
    obtain sc where sc: "js_sidecar js raw = Inr sc"
      using made by (auto simp: piece_from_sidecar_def split: option.splits sum.splits)
    show ?thesis
    proof (cases "sd_kind sc = ''door''")
      case True
      with made sc have "door_picture lower ?l d aid ''open'' (sd_open sc) = None"
        "door_picture lower ?l d aid ''closed'' (sd_closed sc) = None" "pc = \<lparr>pc_id = aid, pc_kind = sd_kind sc, pc_material = sd_material sc, pc_file = [],
           pc_open = sd_open sc, pc_closed = sd_closed sc, pc_has_sidecar = True\<rparr>"
        by (auto simp: piece_from_sidecar_def Let_def split: option.splits if_splits)
      with door_picture_installed[OF _ fault] True show ?thesis by simp
    next
      case False
      with made sc have "stat_picture lower ?l d aid (aid @ picture_ext) = None"
        "pc = \<lparr>pc_id = aid, pc_kind = sd_kind sc, pc_material = sd_material sc, pc_file = aid @ picture_ext,
           pc_open = [], pc_closed = [], pc_has_sidecar = True\<rparr>"
        by (auto simp: piece_from_sidecar_def Let_def split: option.splits if_splits)
      with stat show ?thesis by simp
    qed
  qed
  show ?thesis using found plain sidecar by (auto simp: lookup_in_def split: if_splits read_answer.splits)
qed

subsection \<open>Compilation\<close>

definition terrain_of :: "map_def \<Rightarrow> string \<Rightarrow> tile_ref \<Rightarrow> bool" where
  "terrain_of m key ref = (\<exists>base. fmlookup (md_tiles m) key = Some base \<and> standard_tile base = Some (tr_kind ref, tr_material ref))"

text \<open>A scene of the map's id and size whose every square is terrain the map names, or one without tiles.\<close>

definition scene_made_of :: "map_def \<Rightarrow> scene_created \<Rightarrow> bool" where
  "scene_made_of m c =
     (scr_scene_id c = md_id m \<and> scr_grid_width c = md_grid_w m \<and> scr_grid_height c = md_grid_h m \<and>
      (if md_tiles m = fmempty then scr_tiles c = fmempty
       else \<forall>(x, y) \<in> set (grid_positions (md_grid_w m) (md_grid_h m)).
         \<exists>ref. fmlookup (scr_tiles c) (grid_key x y) = Some ref \<and> terrain_of m (grid_key x y) ref))"

lemma resolved_terrain: "resolve_with m lk key = Inr (ref, ws) \<Longrightarrow> terrain_of m key ref"
  by (auto simp: resolve_with_def terrain_of_def Let_def split: option.splits prod.splits sum.splits art_error.splits if_splits)

lemma resolve_with_fails:
  "resolve_with m lk key = Inl err \<Longrightarrow> fmlookup (md_tiles m) key = Some base \<Longrightarrow> standard_tile base \<noteq> None \<Longrightarrow>
     \<exists>e. err = ErrArtFormat e"
  by (auto simp: resolve_with_def Let_def split: option.splits prod.splits sum.splits art_error.splits if_splits)

lemma build_tiles_terrain:
  "build_tiles m lk sqs tiles t = (t', Inr out) \<Longrightarrow>
     (\<forall>(x, y) \<in> set sqs. \<exists>ref. fmlookup out (grid_key x y) = Some ref \<and> terrain_of m (grid_key x y) ref) \<and>
     (\<forall>k ref. fmlookup tiles k = Some ref \<longrightarrow> terrain_of m k ref \<longrightarrow> (\<exists>ref. fmlookup out k = Some ref \<and> terrain_of m k ref))"
proof (induction sqs arbitrary: tiles t)
  case (Cons sq sqs)
  obtain x y where sq: "sq = (x, y)" by (cases sq)
  from Cons.prems obtain ref ws where r: "resolve_with m lk (grid_key x y) = Inr (ref, ws)"
    and rest: "build_tiles m lk sqs (fmupd (grid_key x y) ref tiles)
       (record_warnings (if tr_art ref \<noteq> [] then grid_key x y else []) ws t) = (t', Inr out)"
    by (auto simp: sq split: sum.splits prod.splits)
  note ih = Cons.IH[OF rest] and ok = resolved_terrain[OF r]
  have now: "\<exists>ref. fmlookup out (grid_key x y) = Some ref \<and> terrain_of m (grid_key x y) ref"
    using ih ok by (metis fmupd_lookup)
  have kept: "\<exists>ref. fmlookup out k = Some ref \<and> terrain_of m k ref" if "fmlookup tiles k = Some ref'" "terrain_of m k ref'" for k ref'
    using ih that now by (cases "k = grid_key x y") (auto simp del: fmupd_lookup simp: fmupd_lookup)
  show ?case using ih now kept by (auto simp: sq)
qed simp

lemma build_tiles_fails:
  "build_tiles m lk sqs tiles t = (t', Inl err) \<Longrightarrow> \<exists>(x, y) \<in> set sqs. resolve_with m lk (grid_key x y) = Inl err"
  by (induction sqs arbitrary: tiles t) (fastforce split: sum.splits prod.splits)+

lemma build_objects_fails:
  "build_objects lk i obs t = (t', Inl err) \<Longrightarrow> \<exists>ob \<in> set obs. \<exists>j. resolve_object_art_with j ob lk = Inl err"
  by (induction obs arbitrary: i t t') (fastforce split: sum.splits prod.splits)+

lemma object_art_fails:
  "resolve_object_art_with j ob lk = Inl err \<Longrightarrow> mo_art ob \<noteq> [] \<Longrightarrow> \<exists>e. err = ErrArtFormat e"
  by (auto simp: resolve_object_art_with_def split: sum.splits art_error.splits if_splits)

lemma check_object_art_None: "check_object_art i obs = None \<Longrightarrow> ob \<in> set obs \<Longrightarrow> mo_art ob \<noteq> []"
  by (induction obs arbitrary: i) (auto split: if_splits)

lemma loaded_map_checked:
  assumes "load_map_as read_int decoded = Inr m"
  shows "check_every_square (md_tiles m) (md_grid_w m) (md_grid_h m) = None" "check_tile_names (md_tiles m) = None"
    "check_object_art 0 (md_objects m) = None"
  using assms by (auto simp: load_map_as_def body_fault_def Let_def first_fault_None split: sum.splits option.splits)

lemma checked_tile:
  assumes "check_every_square tiles w h = None" and "check_tile_names tiles = None" and "fmdom tiles \<noteq> {||}"
    and "(x, y) \<in> set (grid_positions w h)"
  shows "\<exists>base. fmlookup tiles (grid_key x y) = Some base \<and> standard_tile base \<noteq> None"
proof -
  have "keys tiles \<noteq> []" using assms(3) by (auto simp: keys_def sorted_list_of_fset.rep_eq)
  with assms(1,4) obtain base where base: "fmlookup tiles (grid_key x y) = Some base"
    by (auto simp: check_every_square_def require_every_square_def find_None_iff split: option.splits prod.splits)
  then have "grid_key x y \<in> set (keys tiles)" by (simp add: in_keys_iff del: set_keys)
  with assms(2) base show ?thesis
    by (auto simp: check_tile_names_def find_None_iff simp del: set_keys split: option.splits)
qed


subsection \<open>A map on one square\<close>

definition demo_art :: art_disk where
  "demo_art = \<lparr>ad_entries = Inr [''gate-closed.png'', ''gate-open.png'', ''gate.json''], ad_root = None,
     ad_read = (\<lambda>n. FileBytes ''{}''), ad_linked = (\<lambda>n. True), ad_stat = (\<lambda>n. IsFile)\<rparr>"

definition demo_json :: json_reader where
  "demo_json = \<lparr>js_declared = (\<lambda>raw. Inr ''1''), js_int = (\<lambda>text. Inr (Some 1)),
     js_sidecar = (\<lambda>raw. Inr \<lparr>sd_kind = ''door'', sd_material = ''wood'', sd_open = ''gate-open.png'', sd_closed = ''gate-closed.png''\<rparr>)\<rparr>"

definition demo_gate :: piece where
  "demo_gate = \<lparr>pc_id = ''gate'', pc_kind = ''door'', pc_material = ''wood'', pc_file = [], pc_open = ''gate-open.png'',
     pc_closed = ''gate-closed.png'', pc_has_sidecar = True\<rparr>"

lemma demo_lookup: "lookup_art (\<lambda>s. s) demo_json (open_library (\<lambda>s. s) demo_art) demo_art ''gate'' = Inr demo_gate"
  by code_simp

theorem found_art_is_installed_witness: "installed_picture demo_art ''gate-open.png''"
  using found_art_is_installed[OF demo_lookup] by (simp add: demo_gate_def)

definition demo_raw_map :: raw_map where
  "demo_raw_map = \<lparr>rm_format_version = 1, rm_id = ''cell'', rm_name = ''Cell'', rm_grid_width = 1, rm_grid_height = 1,
     rm_cell_px = None, rm_tiles = fmupd ''0,0'' ''stone-wall'' fmempty, rm_overrides = fmupd ''0,0'' ''gate'' fmempty,
     rm_objects = [], rm_placements = []\<rparr>"

definition demo_map :: map_def where
  "demo_map = \<lparr>md_id = ''cell'', md_name = ''Cell'', md_grid_w = 1, md_grid_h = 1, md_cell_px = 0,
     md_tiles = fmupd ''0,0'' ''stone-wall'' fmempty, md_overrides = fmupd ''0,0'' ''gate'' fmempty,
     md_objects = [], md_placements = []\<rparr>"

lemma demo_map_loads: "load_map_as (\<lambda>_. Inl []) (Inr demo_raw_map) = Inr demo_map"
proof -
  have inside: "square_inside ''0,0'' 1 1" by code_simp
  have pos: "grid_positions 1 1 = [(0, 0)]" by code_simp
  have key: "grid_key 0 0 = ''0,0''" by code_simp
  have std: "standard_tile ''stone-wall'' = Some (''wall'', ''stone'')" by code_simp
  show ?thesis
    by (simp add: load_map_as_def demo_raw_map_def demo_map_def header_fault_def map_format_version_def check_cell_px_def
        size_fault_def body_fault_def Let_def check_every_square_def require_every_square_def pos key std inside
        check_inside_grid_def check_tile_names_def check_overrides_tiles_def del: keys_eq_Nil_iff)
qed


end
