(* ===== verification/Files.thy ===== *)
theory Files
  imports Map_Load
begin

text \<open>
  What the loaders of \<open>internal/rules\<close> and \<open>internal/adventure\<close> share: a directory of JSON files and the
  first failure of a list of checks. A directory is its listing, or the fault of reading it, and what the
  JSON decoder makes of each file.
\<close>

record 'a json_dir =
  jd_entries :: "dir_fault + (string \<times> bool) list"
  jd_decode :: "string \<Rightarrow> string + 'a"

text \<open>\<open>filepath.Ext\<close>: from the last dot of the name, empty when it has none.\<close>

definition file_ext :: "string \<Rightarrow> string" where
  "file_ext name =
     (if CHR ''.'' \<in> set name then CHR ''.'' # rev (takeWhile (\<lambda>c. c \<noteq> CHR ''.'') (rev name)) else [])"

fun first_error :: "'e option list \<Rightarrow> 'e option" where
  "first_error [] = None"
| "first_error (c # cs) = (case c of None \<Rightarrow> first_error cs | Some e \<Rightarrow> Some e)"

lemma first_error_None: "first_error cs = None \<longleftrightarrow> (\<forall>c \<in> set cs. c = None)"
  by (induction cs) (auto split: option.splits)

declare first_error.simps [simp del]

end
