(* ===== verification/Rules_Load.thy ===== *)
theory Rules_Load
  imports Files Compose
begin

text \<open>
  \<open>internal/rules/load.go\<close>: a ruleset directory becomes a \<open>ruleset\<close>. A file is what the JSON decoder answers
  of it for the Go type it is decoded into; the parts the code keeps as \<open>json.RawMessage\<close> and takes apart
  itself are taken apart here. Field paths are text, as the errors print them; of an error's prose only
  what it quotes is kept.
\<close>

subsection \<open>Errors and raw files\<close>

datatype rules_issue =
    IsEmpty
  | IsTooLong nat nat
  | VersionAbsent
  | VersionUnsupported raw_json
  | NotAnIdent string
  | ReservedScope string
  | Duplicated string
  | OnlyAResource string
  | TypeUnknown string string
  | NotParsed parse_error
  | ContainsDice
  | ContainsScope
  | MustBeSet
  | ParamKindUnknown string
  | PlaceholderUndeclared string
  | NotOnePlaceholder string
  | NotIntNorPlaceholder
  | NotAnObject string
  | NotAString
  | NotStrings
  | ContributionUnknown string
  | FieldOfOtherKind string string
  | BranchesNumber nat
  | BranchReserved string
  | BranchesSame string
  | ScopePosition string
  | KeyForAlways
  | KeyForBranch
  | EffectsUndecodable string
  | NotExactlyOneEffect
  | UsageInvalid string
  | UsageUndecodable string
  | UsageNegative go_int
  | RefersTo compile_error

datatype rules_error =
    DirFails string
  | NotADirectory
  | FileFails string string
  | UsageFails string string rules_issue
  | InField string string rules_issue
  | AtomKeys string compile_error
  | NotCompiled compile_error

record threshold_json =
  tj_when :: string
  tj_apply_condition :: string
  tj_remove_when_false :: "bool option"

record property_json =
  pj_key :: string
  pj_type :: string
  pj_name :: string
  pj_description :: string
  pj_default_max_expr :: "string option"
  pj_thresholds :: "threshold_json list option"

record manifest_json =
  mj_id :: string
  mj_name :: string
  mj_format_version :: string
  mj_properties :: "property_json list"

text \<open>
  \<open>ruleset.json\<close> is decoded twice: for its format version alone (\<open>mx_probe\<close>, \<open>None\<close> when it is not an object,
  \<open>Some None\<close> when it has no such field) and strictly (\<open>mx_strict\<close>).
\<close>

record manifest_file =
  mx_probe :: "raw_json option option"
  mx_strict :: "string + manifest_json"

record condition_json =
  cj_id :: string
  cj_name :: string
  cj_description :: string

record resource_change_json =
  rj_resource :: string
  rj_delta_expr :: string

record outcome_json =
  oj_resource_change :: "resource_change_json option"
  oj_apply_condition :: "string option"
  oj_remove_condition :: "string option"

text \<open>
  A value inside a contribution, by what \<open>json.Unmarshal\<close> tells of it: as an integer, a string or null, as an
  array of strings, and as an array of effects.
\<close>

record raw_value =
  rv_plain :: raw_json
  rv_strings :: "string list option"
  rv_effects :: "string + outcome_json list"

record param_json =
  mp_name :: string
  mp_kind :: string

record atom_json =
  aj_id :: string
  aj_params :: "param_json list"
  aj_provides :: "string list"
  aj_consumes :: "string list"
  aj_contributes :: "(string + (string, raw_value) fmap) list"

record limited_json =
  lj_resource :: string
  lj_cost :: "go_int option"

record usage_json =
  uj_plain :: raw_json
  uj_object :: "string + limited_json option"

record compose_entry_json =
  ej_atom :: string
  ej_bind :: "(string + (string, raw_json) fmap) option"

record composition_json =
  kj_id :: string
  kj_name :: string
  kj_usage :: "usage_json option"
  kj_compose :: "compose_entry_json list"

definition rules_files_in :: "'a json_dir \<Rightarrow> rules_error + string list" where
  "rules_files_in d =
     (case jd_entries d of
        Inl DirMissing \<Rightarrow> Inr []
      | Inl (DirFault why) \<Rightarrow> Inl (DirFails why)
      | Inr es \<Rightarrow> Inr (sort (map fst (filter (\<lambda>(name, dir). \<not> dir \<and> file_ext name = ''.json'') es))))"

definition decode_rules :: "'a json_dir \<Rightarrow> string \<Rightarrow> rules_error + 'a" where
  "decode_rules d path = (case jd_decode d path of Inl why \<Rightarrow> Inl (FileFails path why) | Inr x \<Rightarrow> Inr x)"

text \<open>A check that fails at a field, and the result of checks that pass.\<close>

definition fails :: "string \<Rightarrow> string \<Rightarrow> bool \<Rightarrow> rules_issue \<Rightarrow> rules_error option" where
  "fails path field b issue = (if b then Some (InField path field issue) else None)"

definition checked :: "rules_error option \<Rightarrow> (rules_error + 'a) \<Rightarrow> rules_error + 'a" where
  "checked err x = (case err of Some e \<Rightarrow> Inl e | None \<Rightarrow> x)"

lemma fails_None [simp]: "fails path field b issue = None \<longleftrightarrow> \<not> b"
  by (simp add: fails_def)

lemma checked_Inr [simp]: "checked err x = Inr y \<longleftrightarrow> err = None \<and> x = Inr y"
  by (auto simp: checked_def split: option.splits)

definition reserved_scope_word :: "string \<Rightarrow> bool" where
  "reserved_scope_word s = (s = ''caster'' \<or> s = ''target'')"

subsection \<open>ruleset.json\<close>

definition check_format_version :: "string \<Rightarrow> raw_json option \<Rightarrow> rules_error option" where
  "check_format_version path written =
     (case written of
        None \<Rightarrow> Some (InField path ''format_version'' VersionAbsent)
      | Some raw \<Rightarrow> fails path ''format_version'' (unmarshal_string raw \<noteq> Some ''3'') (VersionUnsupported raw))"

fun check_manifest_bounds :: "string \<Rightarrow> nat \<Rightarrow> property_json list \<Rightarrow> rules_error option" where
  "check_manifest_bounds path i [] = None"
| "check_manifest_bounds path i (p # ps) =
     (if max_id_bytes < length (pj_key p)
      then Some (InField path (indexed ''properties'' i ''.key'') (IsTooLong max_id_bytes (length (pj_key p))))
      else check_manifest_bounds path (Suc i) ps)"

definition check_property_key :: "string \<Rightarrow> string \<Rightarrow> string \<Rightarrow> string set \<Rightarrow> rules_error option" where
  "check_property_key path field key seen =
     first_error
       [fails path field (key = []) IsEmpty,
        fails path field (\<not> is_valid_ident_name key) (NotAnIdent key),
        fails path field (reserved_scope_word key) (ReservedScope key),
        fails path field (key \<in> seen) (Duplicated key)]"

definition has_scoped_ref :: "expr \<Rightarrow> bool" where
  "has_scoped_ref e = list_ex (\<lambda>s. s \<noteq> ScopeNone) (expr_scopes e)"

text \<open>An expression of one actor, whose rolls nobody records: no dice and no scope.\<close>

definition parse_single :: "string \<Rightarrow> string \<Rightarrow> string \<Rightarrow> rules_error + expr" where
  "parse_single path field src =
     (case parse_string src of
        Inl err \<Rightarrow> Inl (InField path field (NotParsed err))
      | Inr e \<Rightarrow>
          if expr_has_dice e then Inl (InField path field ContainsDice)
          else if has_scoped_ref e then Inl (InField path field ContainsScope)
          else Inr e)"

definition load_threshold :: "string \<Rightarrow> string \<Rightarrow> threshold_json \<Rightarrow> rules_error + threshold" where
  "load_threshold path field th =
     (if tj_when th = [] then Inl (InField path (field @ ''.when'') IsEmpty)
      else if tj_apply_condition th = [] then Inl (InField path (field @ ''.apply_condition'') IsEmpty)
      else case tj_remove_when_false th of
        None \<Rightarrow> Inl (InField path (field @ ''.remove_when_false'') MustBeSet)
      | Some remove \<Rightarrow>
          sum_bind (parse_single path (field @ ''.when'') (tj_when th)) (\<lambda>e.
            Inr \<lparr>th_when = e, th_when_src = tj_when th, th_apply = tj_apply_condition th,
                 th_remove_when_false = remove\<rparr>))"

fun load_thresholds :: "string \<Rightarrow> string \<Rightarrow> nat \<Rightarrow> threshold_json list \<Rightarrow> rules_error + threshold list" where
  "load_thresholds path field j [] = Inr []"
| "load_thresholds path field j (th # ths) =
     sum_bind (load_threshold path (indexed (field @ ''.thresholds'') j []) th) (\<lambda>t.
     sum_bind (load_thresholds path field (Suc j) ths) (\<lambda>ts. Inr (t # ts)))"

definition load_resource_def :: "string \<Rightarrow> string \<Rightarrow> property_json \<Rightarrow> rules_error + resource_def" where
  "load_resource_def path field p =
     sum_bind (case pj_default_max_expr p of
         None \<Rightarrow> Inr None
       | Some src \<Rightarrow> map_sum id Some (parse_single path (field @ ''.default_max_expr'') src)) (\<lambda>e.
     sum_bind (case pj_thresholds p of None \<Rightarrow> Inr [] | Some ths \<Rightarrow> load_thresholds path field 0 ths) (\<lambda>ts.
       Inr \<lparr>rd_default_max = e,
            rd_default_max_src = (case pj_default_max_expr p of None \<Rightarrow> [] | Some src \<Rightarrow> src),
            rd_thresholds = ts\<rparr>))"

definition load_property :: "string \<Rightarrow> string \<Rightarrow> property_json \<Rightarrow> rules_error + rule_property" where
  "load_property path field p =
     (let prop = \<lparr>pr_key = pj_key p, pr_type = pj_type p, pr_name = pj_name p, pr_description = pj_description p,
                  pr_resource = None\<rparr> in
      if pj_name p = [] then Inl (InField path (field @ ''.name'') IsEmpty)
      else if pj_description p = [] then Inl (InField path (field @ ''.description'') IsEmpty)
      else if pj_type p = PropertyNumber then
        (if pj_default_max_expr p \<noteq> None
         then Inl (InField path (field @ ''.default_max_expr'') (OnlyAResource (pj_key p)))
         else if pj_thresholds p \<noteq> None
         then Inl (InField path (field @ ''.thresholds'') (OnlyAResource (pj_key p)))
         else Inr prop)
      else if pj_type p = PropertyResource then
        sum_bind (load_resource_def path field p) (\<lambda>d. Inr (prop\<lparr>pr_resource := Some d\<rparr>))
      else Inl (InField path (field @ ''.type'') (TypeUnknown (pj_key p) (pj_type p))))"

fun load_properties :: "string \<Rightarrow> nat \<Rightarrow> string set \<Rightarrow> property_json list \<Rightarrow> rules_error + rule_property list" where
  "load_properties path i seen [] = Inr []"
| "load_properties path i seen (p # ps) =
     (let field = indexed ''properties'' i [] in
      checked (check_property_key path (field @ ''.key'') (pj_key p) seen)
        (sum_bind (load_property path field p) (\<lambda>prop.
         sum_bind (load_properties path (Suc i) (insert (pj_key p) seen) ps) (\<lambda>props. Inr (prop # props)))))"

record loaded_manifest =
  lm_id :: string
  lm_name :: string
  lm_format_version :: string
  lm_properties :: "rule_property list"

definition load_manifest :: "string + manifest_file \<Rightarrow> rules_error + loaded_manifest" where
  "load_manifest file =
     (let path = ''ruleset.json'' in
      case file of
        Inl why \<Rightarrow> Inl (FileFails path why)
      | Inr mx \<Rightarrow>
          checked (case mx_probe mx of None \<Rightarrow> None | Some written \<Rightarrow> check_format_version path written)
            (case mx_strict mx of
               Inl why \<Rightarrow> Inl (FileFails path why)
             | Inr raw \<Rightarrow>
                 checked (first_error
                     [fails path ''id'' (mj_id raw = []) IsEmpty, fails path ''name'' (mj_name raw = []) IsEmpty,
                      check_manifest_bounds path 0 (mj_properties raw)])
                   (sum_bind (load_properties path 0 {} (mj_properties raw)) (\<lambda>props.
                      Inr \<lparr>lm_id = mj_id raw, lm_name = mj_name raw, lm_format_version = mj_format_version raw,
                           lm_properties = props\<rparr>))))"

subsection \<open>conditions/*.json\<close>

definition condition_error :: "string \<Rightarrow> condition_json \<Rightarrow> (string, rule_condition) fmap \<Rightarrow> rules_error option" where
  "condition_error path raw out =
     first_error
       [fails path ''id'' (cj_id raw = []) IsEmpty,
        fails path ''id'' (max_id_bytes < length (cj_id raw)) (IsTooLong max_id_bytes (length (cj_id raw))),
        fails path ''name'' (cj_name raw = []) IsEmpty,
        fails path ''id'' (reserved_scope_word (cj_id raw)) (ReservedScope (cj_id raw)),
        fails path ''id'' (fmlookup out (cj_id raw) \<noteq> None) (Duplicated (cj_id raw))]"

fun load_conditions_from :: "condition_json json_dir \<Rightarrow> (string, rule_condition) fmap \<Rightarrow> string list \<Rightarrow>
    rules_error + (string, rule_condition) fmap" where
  "load_conditions_from d out [] = Inr out"
| "load_conditions_from d out (path # paths) =
     sum_bind (decode_rules d path) (\<lambda>raw.
       checked (condition_error path raw out)
         (load_conditions_from d (fmupd (cj_id raw)
            \<lparr>cn_id = cj_id raw, cn_name = cj_name raw, cn_description = cj_description raw\<rparr> out) paths))"

definition load_conditions :: "condition_json json_dir \<Rightarrow> rules_error + (string, rule_condition) fmap" where
  "load_conditions d = sum_bind (rules_files_in d) (load_conditions_from d fmempty)"

subsection \<open>Placeholders\<close>

text \<open>The names of the placeholders in a text, from left to right.\<close>

function placeholders :: "string \<Rightarrow> string list" where
  "placeholders s =
     (case match_placeholder s of
        Some (name, rest) \<Rightarrow> name # placeholders rest
      | None \<Rightarrow> (case s of [] \<Rightarrow> [] | c # cs \<Rightarrow> placeholders cs))"
  by pat_completeness auto
termination
  by (relation "measure length") (auto dest: match_placeholder_shrinks)

declare placeholders.simps [simp del]

definition check_placeholders :: "string \<Rightarrow> string \<Rightarrow> string \<Rightarrow> string set \<Rightarrow> rules_error option" where
  "check_placeholders path field src params =
     (case find (\<lambda>name. name \<notin> params) (placeholders src) of
        Some name \<Rightarrow> Some (InField path field (PlaceholderUndeclared name))
      | None \<Rightarrow> None)"

text \<open>The first placeholder that stands between a sigil and a dot, with both.\<close>

fun scope_placeholder :: "string \<Rightarrow> string option" where
  "scope_placeholder [] = None"
| "scope_placeholder (c # cs) =
     (case match_placeholder cs of
        Some (name, d # rest) \<Rightarrow>
          if (c = CHR ''@'' \<or> c = CHR ''#'') \<and> d = CHR ''.'' then Some (c # ''{'' @ name @ ''}.'') else scope_placeholder cs
      | _ \<Rightarrow> scope_placeholder cs)"

definition check_no_scope_placeholder :: "string \<Rightarrow> string \<Rightarrow> string \<Rightarrow> rules_error option" where
  "check_no_scope_placeholder path field src = map_option (\<lambda>m. InField path field (ScopePosition m)) (scope_placeholder src)"

definition whole_placeholder :: "string \<Rightarrow> bool" where
  "whole_placeholder s = (case match_placeholder s of Some (name, []) \<Rightarrow> True | _ \<Rightarrow> False)"

definition check_int_or_placeholder :: "string \<Rightarrow> string \<Rightarrow> raw_json \<Rightarrow> string set \<Rightarrow> rules_error + string" where
  "check_int_or_placeholder path field raw params =
     (case unmarshal_int raw of
        Some n \<Rightarrow> Inr (show_int (sint n))
      | None \<Rightarrow>
          (case unmarshal_string raw of
             None \<Rightarrow> Inl (InField path field NotIntNorPlaceholder)
           | Some s \<Rightarrow>
               checked (fails path field (\<not> whole_placeholder s) (NotOnePlaceholder s))
                 (checked (check_placeholders path field s params) (Inr s))))"

subsection \<open>Contributions\<close>

definition contribution_keys :: "string \<Rightarrow> string list option" where
  "contribution_keys kind =
     (if kind = ''targeting'' then Some [''kind'', ''range'', ''max_targets'']
      else if kind = ''resolution'' then Some [''kind'', ''key'', ''roll'', ''vs'', ''branches'']
      else if kind = ''outcome'' then Some [''kind'', ''key'', ''branch'', ''effects'']
      else None)"

text \<open>Go's zero value of a \<open>Contribution\<close>, with its kind.\<close>

definition contribution_of :: "string \<Rightarrow> contribution" where
  "contribution_of kind =
     \<lparr>cb_kind = kind, cb_range_src = [], cb_max_targets_src = [], cb_key = [], cb_roll_src = [], cb_vs_src = [],
      cb_branches = ([], []), cb_outcome_key = None, cb_branch = [], cb_effects = []\<rparr>"

definition must_be_set :: "string \<Rightarrow> string \<Rightarrow> 'a option \<Rightarrow> rules_error + 'a" where
  "must_be_set path field x = (case x of None \<Rightarrow> Inl (InField path field MustBeSet) | Some v \<Rightarrow> Inr v)"

definition decode_targeting :: "string \<Rightarrow> string \<Rightarrow> (string, raw_value) fmap \<Rightarrow> string set \<Rightarrow> rules_error + contribution" where
  "decode_targeting path field probe params =
     sum_bind (must_be_set path (field @ ''.range'') (fmlookup probe ''range'')) (\<lambda>range_raw.
     sum_bind (must_be_set path (field @ ''.max_targets'') (fmlookup probe ''max_targets'')) (\<lambda>max_raw.
     sum_bind (check_int_or_placeholder path (field @ ''.range'') (rv_plain range_raw) params) (\<lambda>range_src.
     sum_bind (check_int_or_placeholder path (field @ ''.max_targets'') (rv_plain max_raw) params) (\<lambda>max_src.
       Inr ((contribution_of ''targeting'')\<lparr>cb_range_src := range_src, cb_max_targets_src := max_src\<rparr>)))))"

text \<open>A required text of a resolution.\<close>

definition decode_text :: "string \<Rightarrow> string \<Rightarrow> raw_value option \<Rightarrow> rules_error + string" where
  "decode_text path field raw =
     sum_bind (must_be_set path field raw) (\<lambda>v.
       case unmarshal_string (rv_plain v) of
         None \<Rightarrow> Inl (InField path field NotAString)
       | Some s \<Rightarrow> if s = [] then Inl (InField path field IsEmpty) else Inr s)"

definition reserved_branch :: "string \<Rightarrow> bool" where
  "reserved_branch s = (s = ''always'' \<or> s = ''usage'' \<or> s = ''effect'')"

definition branch_error :: "string \<Rightarrow> string \<Rightarrow> nat \<Rightarrow> string \<Rightarrow> rules_error option" where
  "branch_error path field i b =
     (let at = indexed (field @ ''.branches'') i [] in
      first_error
        [fails path at (b = []) IsEmpty,
         fails path at (max_id_bytes < length b) (IsTooLong max_id_bytes (length b)),
         fails path at (reserved_branch b) (BranchReserved b)])"

definition check_branches :: "string \<Rightarrow> string \<Rightarrow> string list \<Rightarrow> rules_error + string \<times> string" where
  "check_branches path field bs =
     (let at = field @ ''.branches'' in
      case bs of
        [ge, lt] \<Rightarrow>
          checked (first_error
              [branch_error path field 0 ge, branch_error path field 1 lt, fails path at (ge = lt) (BranchesSame ge)])
            (Inr (ge, lt))
      | _ \<Rightarrow> Inl (InField path at (BranchesNumber (length bs))))"

definition decode_branches :: "string \<Rightarrow> string \<Rightarrow> raw_value option \<Rightarrow> rules_error + string \<times> string" where
  "decode_branches path field raw =
     (let at = field @ ''.branches'' in
      sum_bind (must_be_set path at raw) (\<lambda>v.
        case rv_strings v of
          None \<Rightarrow> Inl (InField path at NotStrings)
        | Some bs \<Rightarrow> check_branches path field bs))"

definition decode_resolution :: "string \<Rightarrow> string \<Rightarrow> (string, raw_value) fmap \<Rightarrow> string set \<Rightarrow> rules_error + contribution" where
  "decode_resolution path field probe params =
     sum_bind (decode_text path (field @ ''.key'') (fmlookup probe ''key'')) (\<lambda>key.
     sum_bind (decode_text path (field @ ''.roll'') (fmlookup probe ''roll'')) (\<lambda>roll.
     sum_bind (decode_text path (field @ ''.vs'') (fmlookup probe ''vs'')) (\<lambda>vs.
     sum_bind (decode_branches path field (fmlookup probe ''branches'')) (\<lambda>branches.
       checked (first_error
           [check_placeholders path (field @ ''.roll'') roll params, check_placeholders path (field @ ''.vs'') vs params,
            check_no_scope_placeholder path (field @ ''.roll'') roll,
            check_no_scope_placeholder path (field @ ''.vs'') vs])
         (Inr ((contribution_of ''resolution'')
            \<lparr>cb_key := key, cb_roll_src := roll, cb_vs_src := vs, cb_branches := branches\<rparr>))))))"

definition effect_of :: "outcome_kind \<Rightarrow> effect_template" where
  "effect_of kind = \<lparr>et_kind = kind, et_resource_src = [], et_delta_src = [], et_apply_src = [], et_remove_src = []\<rparr>"

definition decode_effect :: "string \<Rightarrow> string \<Rightarrow> outcome_json \<Rightarrow> string set \<Rightarrow> rules_error + effect_template" where
  "decode_effect path field oj params =
     (case (oj_resource_change oj, oj_apply_condition oj, oj_remove_condition oj) of
        (Some rc, None, None) \<Rightarrow>
          (let at_resource = field @ ''.resource_change.resource''; at_delta = field @ ''.resource_change.delta_expr'' in
           checked (first_error
               [fails path at_resource (rj_resource rc = []) IsEmpty, fails path at_delta (rj_delta_expr rc = []) IsEmpty,
                check_placeholders path at_resource (rj_resource rc) params,
                check_placeholders path at_delta (rj_delta_expr rc) params,
                check_no_scope_placeholder path at_delta (rj_delta_expr rc)])
             (Inr ((effect_of OutcomeResourceChange)
                \<lparr>et_resource_src := rj_resource rc, et_delta_src := rj_delta_expr rc\<rparr>)))
      | (None, Some cid, None) \<Rightarrow>
          (let at = field @ ''.apply_condition.id'' in
           checked (first_error [fails path at (cid = []) IsEmpty, check_placeholders path at cid params])
             (Inr ((effect_of OutcomeApplyCondition)\<lparr>et_apply_src := cid\<rparr>)))
      | (None, None, Some cid) \<Rightarrow>
          (let at = field @ ''.remove_condition.id'' in
           checked (first_error [fails path at (cid = []) IsEmpty, check_placeholders path at cid params])
             (Inr ((effect_of OutcomeRemoveCondition)\<lparr>et_remove_src := cid\<rparr>)))
      | _ \<Rightarrow> Inl (InField path field NotExactlyOneEffect))"

fun decode_effects :: "string \<Rightarrow> string \<Rightarrow> nat \<Rightarrow> outcome_json list \<Rightarrow> string set \<Rightarrow> rules_error + effect_template list" where
  "decode_effects path field i [] params = Inr []"
| "decode_effects path field i (oj # ojs) params =
     sum_bind (decode_effect path (indexed (field @ ''.effects'') i []) oj params) (\<lambda>t.
     sum_bind (decode_effects path field (Suc i) ojs params) (\<lambda>ts. Inr (t # ts)))"

definition decode_outcome_key :: "string \<Rightarrow> string \<Rightarrow> raw_value option \<Rightarrow> rules_error + string option" where
  "decode_outcome_key path field raw =
     sum_bind (must_be_set path field raw) (\<lambda>v.
       if rv_plain v = RawNull then Inr None
       else case unmarshal_string (rv_plain v) of
         None \<Rightarrow> Inl (InField path field NotAString)
       | Some k \<Rightarrow> if k = [] then Inl (InField path field IsEmpty) else Inr (Some k))"

definition decode_outcome :: "string \<Rightarrow> string \<Rightarrow> (string, raw_value) fmap \<Rightarrow> string set \<Rightarrow> rules_error + contribution" where
  "decode_outcome path field probe params =
     sum_bind (decode_outcome_key path (field @ ''.key'') (fmlookup probe ''key'')) (\<lambda>key.
     sum_bind (decode_text path (field @ ''.branch'') (fmlookup probe ''branch'')) (\<lambda>branch.
       checked (first_error
           [fails path (field @ ''.key'') (branch = ''always'' \<and> key \<noteq> None) KeyForAlways,
            fails path (field @ ''.key'') (branch \<noteq> ''always'' \<and> key = None) KeyForBranch])
         (sum_bind (must_be_set path (field @ ''.effects'') (fmlookup probe ''effects'')) (\<lambda>v.
            case rv_effects v of
              Inl why \<Rightarrow> Inl (InField path (field @ ''.effects'') (EffectsUndecodable why))
            | Inr ojs \<Rightarrow>
                sum_bind (decode_effects path field 0 ojs params) (\<lambda>ts.
                  Inr ((contribution_of ''outcome'')\<lparr>cb_outcome_key := key, cb_branch := branch, cb_effects := ts\<rparr>))))))"

definition decode_contribution :: "string \<Rightarrow> nat \<Rightarrow> (string + (string, raw_value) fmap) \<Rightarrow> string set \<Rightarrow> rules_error + contribution" where
  "decode_contribution path idx raw params =
     (let field = indexed ''contributes'' idx [] in
      case raw of
        Inl why \<Rightarrow> Inl (InField path field (NotAnObject why))
      | Inr probe \<Rightarrow>
          sum_bind (must_be_set path (field @ ''.kind'') (fmlookup probe ''kind'')) (\<lambda>kind_raw.
            case unmarshal_string (rv_plain kind_raw) of
              None \<Rightarrow> Inl (InField path (field @ ''.kind'') NotAString)
            | Some kind \<Rightarrow>
                (case contribution_keys kind of
                   None \<Rightarrow> Inl (InField path (field @ ''.kind'') (ContributionUnknown kind))
                 | Some known_keys \<Rightarrow>
                     (case find (\<lambda>k. k \<notin> set known_keys) (keys probe) of
                        Some k \<Rightarrow> Inl (InField path field (FieldOfOtherKind k kind))
                      | None \<Rightarrow>
                          if kind = ''targeting'' then decode_targeting path field probe params
                          else if kind = ''resolution'' then decode_resolution path field probe params
                          else decode_outcome path field probe params))))"

fun decode_contributions :: "string \<Rightarrow> nat \<Rightarrow> (string + (string, raw_value) fmap) list \<Rightarrow> string set \<Rightarrow> rules_error + contribution list" where
  "decode_contributions path i [] params = Inr []"
| "decode_contributions path i (raw # raws) params =
     sum_bind (decode_contribution path i raw params) (\<lambda>c.
     sum_bind (decode_contributions path (Suc i) raws params) (\<lambda>cs. Inr (c # cs)))"

subsection \<open>atoms/*.json\<close>

definition valid_param_kind :: "string \<Rightarrow> bool" where
  "valid_param_kind kind =
     (kind \<in> {''int'', ''expr'', PropertyNumber, PropertyResource, ''condition''})"

fun load_params :: "string \<Rightarrow> nat \<Rightarrow> string set \<Rightarrow> param_json list \<Rightarrow> rules_error + param_def list" where
  "load_params path i seen [] = Inr []"
| "load_params path i seen (p # ps) =
     (let at_name = indexed ''params'' i ''.name'' in
      checked (first_error
          [fails path at_name (mp_name p = []) IsEmpty, fails path at_name (\<not> is_valid_ident_name (mp_name p)) (NotAnIdent (mp_name p)),
           fails path at_name (mp_name p \<in> seen) (Duplicated (mp_name p)),
           fails path (indexed ''params'' i ''.kind'') (\<not> valid_param_kind (mp_kind p)) (ParamKindUnknown (mp_kind p))])
        (sum_bind (load_params path (Suc i) (insert (mp_name p) seen) ps) (\<lambda>pds.
           Inr (\<lparr>pd_name = mp_name p, pd_kind = mp_kind p\<rparr> # pds))))"

definition load_atom :: "string \<Rightarrow> atom_json \<Rightarrow> (string, atom_def) fmap \<Rightarrow> rules_error + atom_def" where
  "load_atom path raw out =
     checked (first_error
         [fails path ''id'' (aj_id raw = []) IsEmpty,
          fails path ''id'' (fmlookup out (aj_id raw) \<noteq> None) (Duplicated (aj_id raw)),
          fails path ''contributes'' (aj_contributes raw = []) IsEmpty])
       (sum_bind (load_params path 0 {} (aj_params raw)) (\<lambda>params.
        sum_bind (decode_contributions path 0 (aj_contributes raw) (pd_name ` set params)) (\<lambda>cs.
          case check_atom_contribution_keys (aj_provides raw) (aj_consumes raw) 0 cs of
            Some err \<Rightarrow> Inl (AtomKeys path err)
          | None \<Rightarrow> Inr \<lparr>ad_id = aj_id raw, ad_params = params, ad_provides = aj_provides raw,
                          ad_consumes = aj_consumes raw, ad_contributes = cs\<rparr>)))"

fun load_atoms_from :: "atom_json json_dir \<Rightarrow> (string, atom_def) fmap \<Rightarrow> string list \<Rightarrow> rules_error + (string, atom_def) fmap" where
  "load_atoms_from d out [] = Inr out"
| "load_atoms_from d out (path # paths) =
     sum_bind (decode_rules d path) (\<lambda>raw.
     sum_bind (load_atom path raw out) (\<lambda>a.
       load_atoms_from d (fmupd (aj_id raw) a out) paths))"

definition load_atoms :: "atom_json json_dir \<Rightarrow> rules_error + (string, atom_def) fmap" where
  "load_atoms d = sum_bind (rules_files_in d) (load_atoms_from d fmempty)"

subsection \<open>abilities/*.json\<close>

text \<open>\<open>Usage.UnmarshalJSON\<close>: the text \<open>at_will\<close>, or an object with a limited use.\<close>

definition unmarshal_usage :: "usage_json \<Rightarrow> rules_issue + usage" where
  "unmarshal_usage uj =
     (case unmarshal_string (uj_plain uj) of
        Some s \<Rightarrow> if s \<noteq> ''at_will'' then Inl (UsageInvalid s) else Inr \<lparr>us_at_will = True, us_limited = None\<rparr>
      | None \<Rightarrow>
          (case uj_object uj of
             Inl why \<Rightarrow> Inl (UsageUndecodable why)
           | Inr None \<Rightarrow> Inl MustBeSet
           | Inr (Some lj) \<Rightarrow>
               if lj_resource lj = [] then Inl IsEmpty
               else (case lj_cost lj of
                 None \<Rightarrow> Inl MustBeSet
               | Some cost \<Rightarrow>
                   if sint cost < 0 then Inl (UsageNegative cost)
                   else Inr \<lparr>us_at_will = False, us_limited = Some \<lparr>lu_resource = lj_resource lj, lu_cost = cost\<rparr>\<rparr>)))"

text \<open>A composition decoded: \<open>Usage\<close> decodes itself, and is the zero value where the file has no usage.\<close>

definition decode_composition :: "composition_json json_dir \<Rightarrow> string \<Rightarrow> rules_error + composition_json \<times> usage" where
  "decode_composition d path =
     sum_bind (decode_rules d path) (\<lambda>raw.
       case kj_usage raw of
         None \<Rightarrow> Inr (raw, \<lparr>us_at_will = False, us_limited = None\<rparr>)
       | Some uj \<Rightarrow>
           (case unmarshal_usage uj of
              Inl why \<Rightarrow> Inl (UsageFails path ''usage'' why)
            | Inr us \<Rightarrow> Inr (raw, us)))"

fun load_entries :: "string \<Rightarrow> nat \<Rightarrow> compose_entry_json list \<Rightarrow> rules_error + compose_entry list" where
  "load_entries path i [] = Inr []"
| "load_entries path i (e # es) =
     (let at_bind = indexed ''compose'' i ''.bind'' in
      if ej_atom e = [] then Inl (InField path (indexed ''compose'' i ''.atom'') IsEmpty)
      else case ej_bind e of
        None \<Rightarrow> Inl (InField path at_bind MustBeSet)
      | Some (Inl why) \<Rightarrow> Inl (InField path at_bind (NotAnObject why))
      | Some (Inr bound) \<Rightarrow>
          sum_bind (load_entries path (Suc i) es) (\<lambda>ens. Inr (\<lparr>ce_atom = ej_atom e, ce_bind = bound\<rparr> # ens)))"

definition load_composition :: "string \<Rightarrow> composition_json \<times> usage \<Rightarrow> (string, composition_ability) fmap \<Rightarrow>
    rules_error + composition_ability" where
  "load_composition path decoded out =
     (case decoded of (raw, us) \<Rightarrow>
        checked (first_error
            [fails path ''id'' (kj_id raw = []) IsEmpty,
             fails path ''id'' (max_id_bytes < length (kj_id raw)) (IsTooLong max_id_bytes (length (kj_id raw))),
             fails path ''name'' (kj_name raw = []) IsEmpty,
             fails path ''id'' (fmlookup out (kj_id raw) \<noteq> None) (Duplicated (kj_id raw)),
             fails path ''usage'' (\<not> us_at_will us \<and> us_limited us = None) MustBeSet,
             fails path ''compose'' (kj_compose raw = []) IsEmpty])
          (sum_bind (load_entries path 0 (kj_compose raw)) (\<lambda>ens.
             Inr \<lparr>ca_id = kj_id raw, ca_name = kj_name raw, ca_usage = us, ca_compose = ens\<rparr>)))"

fun load_compositions_from :: "composition_json json_dir \<Rightarrow> (string, composition_ability) fmap \<Rightarrow> string list \<Rightarrow>
    rules_error + (string, composition_ability) fmap" where
  "load_compositions_from d out [] = Inr out"
| "load_compositions_from d out (path # paths) =
     sum_bind (decode_composition d path) (\<lambda>decoded.
     sum_bind (load_composition path decoded out) (\<lambda>ca.
       load_compositions_from d (fmupd (ca_id ca) ca out) paths))"

definition load_compositions :: "composition_json json_dir \<Rightarrow> rules_error + (string, composition_ability) fmap" where
  "load_compositions d = sum_bind (rules_files_in d) (load_compositions_from d fmempty)"

subsection \<open>References of the properties\<close>

fun check_names :: "string \<Rightarrow> string \<Rightarrow> string \<Rightarrow> (string, string) fmap \<Rightarrow> string list \<Rightarrow> rules_error option" where
  "check_names path field want types [] = None"
| "check_names path field want types (k # ks) =
     (case check_property_ref k want types of
        Inl err \<Rightarrow> Some (InField path field (RefersTo err))
      | Inr _ \<Rightarrow> check_names path field want types ks)"

definition check_expr_refs :: "string \<Rightarrow> string \<Rightarrow> expr option \<Rightarrow> (string, string) fmap \<Rightarrow> rules_error option" where
  "check_expr_refs path field e types =
     (case e of
        None \<Rightarrow> None
      | Some ex \<Rightarrow>
          (case expr_refs ex of (attrs, resources) \<Rightarrow>
             first_error [check_names path field PropertyNumber types attrs,
                          check_names path field PropertyResource types resources]))"

fun check_thresholds :: "ruleset \<Rightarrow> (string, string) fmap \<Rightarrow> string \<Rightarrow> nat \<Rightarrow> threshold list \<Rightarrow> rules_error option" where
  "check_thresholds rs types field j [] = None"
| "check_thresholds rs types field j (th # ths) =
     (let path = ''ruleset.json''; at = indexed (field @ ''.thresholds'') j [] in
      first_error
        [check_expr_refs path (at @ ''.when'') (Some (th_when th)) types,
         fails path (at @ ''.apply_condition'') (fmlookup (rs_conditions rs) (th_apply th) = None)
           (RefersTo (UndeclaredCondition (th_apply th))),
         check_thresholds rs types field (Suc j) ths])"

fun cross_validate_from :: "ruleset \<Rightarrow> (string, string) fmap \<Rightarrow> nat \<Rightarrow> rule_property list \<Rightarrow> rules_error option" where
  "cross_validate_from rs types i [] = None"
| "cross_validate_from rs types i (p # ps) =
     first_error
       [case pr_resource p of
          None \<Rightarrow> None
        | Some d \<Rightarrow>
            first_error
              [check_expr_refs ''ruleset.json'' (indexed ''properties'' i ''.default_max_expr'') (rd_default_max d) types,
               check_thresholds rs types (indexed ''properties'' i []) 0 (rd_thresholds d)],
        cross_validate_from rs types (Suc i) ps]"

definition cross_validate_resources :: "ruleset \<Rightarrow> rules_error option" where
  "cross_validate_resources rs = cross_validate_from rs (property_types rs) 0 (rs_properties rs)"

subsection \<open>Load\<close>

text \<open>\<open>rx_stat\<close> answers whether the path is a directory; \<open>rx_guide\<close> is what reading \<open>guide.md\<close> gives.\<close>

record rules_dir =
  rx_stat :: "string + bool"
  rx_manifest :: "string + manifest_file"
  rx_conditions :: "condition_json json_dir"
  rx_atoms :: "atom_json json_dir"
  rx_abilities :: "composition_json json_dir"
  rx_guide :: "string + string"

definition load_v2 :: "rules_dir \<Rightarrow> loaded_manifest \<Rightarrow> rules_error + ruleset" where
  "load_v2 d mf =
     sum_bind (load_conditions (rx_conditions d)) (\<lambda>conditions.
     sum_bind (load_atoms (rx_atoms d)) (\<lambda>atoms.
     sum_bind (load_compositions (rx_abilities d)) (\<lambda>compositions.
       case rx_guide d of
         Inl why \<Rightarrow> Inl (FileFails ''guide.md'' why)
       | Inr guide \<Rightarrow>
           (let rs = \<lparr>rs_id = lm_id mf, rs_name = lm_name mf, rs_format_version = lm_format_version mf,
                      rs_properties = lm_properties mf, rs_conditions = conditions, rs_guide = guide,
                      rs_atoms = atoms, rs_compiled = fmempty\<rparr> in
            checked (cross_validate_resources rs)
              (case compile_compositions rs atoms compositions of
                 Inl err \<Rightarrow> Inl (NotCompiled err)
               | Inr compiled \<Rightarrow> Inr (rs\<lparr>rs_compiled := compiled\<rparr>))))))"

definition load_ruleset :: "rules_dir \<Rightarrow> rules_error + ruleset" where
  "load_ruleset d =
     (case rx_stat d of
        Inl why \<Rightarrow> Inl (DirFails why)
      | Inr is_dir \<Rightarrow>
          if \<not> is_dir then Inl NotADirectory
          else sum_bind (load_manifest (rx_manifest d)) (load_v2 d))"

end
