(* ===== verification/Adventure.thy ===== *)
theory Adventure
  imports Files Ruleset
begin

text \<open>
  \<open>internal/adventure\<close>: an adventure in memory (\<open>format.go\<close>), what its directory must hold (\<open>load.go\<close>) and the
  events it becomes (\<open>compile.go\<close>). A directory is its listing and what each file decodes to (\<open>json_dir\<close>);
  the art that an adventure carries is looked up by \<open>lk\<close>, as in \<open>Mapdef\<close>.
\<close>

subsection \<open>Format\<close>

record adventure_scene =
  as_id :: string
  as_name :: string
  as_grid_w :: int32
  as_grid_h :: int32
  as_tiles :: "(string, string) fmap"
  as_overrides :: "(string, string) fmap"
  as_objects :: "map_object list"
  as_placements :: "placement list"

record adventure_actor =
  aa_id :: string
  aa_name :: string
  aa_kind :: actor_kind
  aa_attributes :: "(string, int32) fmap"
  aa_resources :: "(string, resource) fmap"

record adventure_note =
  nt_key :: string
  nt_title :: string
  nt_text :: string

record adventure =
  av_id :: string
  av_name :: string
  av_ruleset_id :: string
  av_opening :: string
  av_scenes :: "adventure_scene list"
  av_actors :: "adventure_actor list"
  av_notes :: "adventure_note list"

definition as_map :: "adventure_scene \<Rightarrow> map_def" where
  "as_map sc =
     \<lparr>md_id = as_id sc, md_name = as_name sc, md_grid_w = as_grid_w sc, md_grid_h = as_grid_h sc, md_cell_px = 0,
      md_tiles = as_tiles sc, md_overrides = as_overrides sc, md_objects = as_objects sc, md_placements = []\<rparr>"

subsection \<open>Compilation\<close>

datatype adventure_error =
    SceneCollides string
  | ActorCollides string
  | TokenCollides string
  | NoteCollides string
  | SceneNotCompiled string map_error

definition check_collisions :: "adventure \<Rightarrow> state \<Rightarrow> adventure_error option" where
  "check_collisions adv st =
     (case find (\<lambda>sc. fmlookup (st_scenes st) (as_id sc) \<noteq> None) (av_scenes adv) of
        Some sc \<Rightarrow> Some (SceneCollides (as_id sc))
      | None \<Rightarrow>
          (case find (\<lambda>a. fmlookup (st_actors st) (aa_id a) \<noteq> None) (av_actors adv) of
             Some a \<Rightarrow> Some (ActorCollides (aa_id a))
           | None \<Rightarrow>
               (case find (\<lambda>p. fmlookup (st_tokens st) (pl_token_id p) \<noteq> None) (concat (map as_placements (av_scenes adv))) of
                  Some p \<Rightarrow> Some (TokenCollides (pl_token_id p))
                | None \<Rightarrow>
                    (case find (\<lambda>n. fmlookup (st_notes st) (nt_key n) \<noteq> None) (av_notes adv) of
                       Some n \<Rightarrow> Some (NoteCollides (nt_key n))
                     | None \<Rightarrow> None))))"

definition build_actor :: "adventure_actor \<Rightarrow> actor" where
  "build_actor a =
     \<lparr>actor_id = aa_id a, actor_name = aa_name a, actor_module_id = [], actor_attributes = aa_attributes a,
      actor_resources = aa_resources a, actor_module_data = None, actor_controller_id = [], actor_controller_ids = [],
      actor_kind_of = aa_kind a\<rparr>"

fun compile_scenes :: "adventure_scene list \<Rightarrow> art_lookup \<Rightarrow> (string \<times> told) list \<times> (adventure_error + envelope list)" where
  "compile_scenes [] lk = ([], Inr [])"
| "compile_scenes (sc # scs) lk =
     (case build_scene_created (as_map sc) lk of
        (w, Inl err) \<Rightarrow> ([], Inl (SceneNotCompiled (as_id sc) err))
      | (w, Inr created) \<Rightarrow>
          (case compile_scenes scs lk of
             (ws, Inl err) \<Rightarrow> (map (Pair (as_id sc)) w @ ws, Inl err)
           | (ws, Inr envs) \<Rightarrow> (map (Pair (as_id sc)) w @ ws, Inr (payload_only (SceneCreated created) # envs))))"

definition note_envelope :: "adventure_note \<Rightarrow> envelope" where
  "note_envelope n = payload_only (NoteUpserted
     \<lparr>nu_key = nt_key n, nu_title = nt_title n, nu_text = nt_text n, nu_visibility = VISIBILITY_PUBLIC\<rparr>)"

definition compile_adventure :: "adventure \<Rightarrow> state \<Rightarrow> art_lookup \<Rightarrow> (string \<times> told) list \<times> (adventure_error + envelope list)" where
  "compile_adventure adv st lk =
     (case check_collisions adv st of
        Some err \<Rightarrow> ([], Inl err)
      | None \<Rightarrow>
          (case compile_scenes (av_scenes adv) lk of
             (ws, Inl err) \<Rightarrow> (ws, Inl err)
           | (ws, Inr scenes) \<Rightarrow>
               (ws, Inr (payload_only (AdventureLoaded (av_id adv) (av_name adv)) # scenes
                  @ map (\<lambda>a. payload_only (ActorAdded (Some (build_actor a)))) (av_actors adv)
                  @ concat (map (\<lambda>sc. map (placed_token (as_id sc)) (as_placements sc)) (av_scenes adv))
                  @ map note_envelope (av_notes adv)
                  @ [payload_only (NarrationAdded \<lparr>na_text = av_opening adv, na_as = [], na_anchor_from = 0,
                       na_anchor_to = 0, na_out_of_character = False\<rparr>)]))))"

subsection \<open>Files\<close>

datatype load_error =
    DirUnreadable string
  | FileUnreadable string string
  | ManifestRuleset string string
  | ArtDirUnopenable string
  | EmptyAdventure
  | AtField string field_fault
  | UnsupportedVersion string
  | KindMissing string
  | KindUnknown string string
  | UndeclaredProperty string string string
  | PropertyOfType string string string string
  | AboveMax string string int32 int32
  | UnknownActorId string nat string
  | OutsideScene string nat string
  | SceneArt string map_error

definition json_files_in :: "'a json_dir \<Rightarrow> load_error + string list" where
  "json_files_in d =
     (case jd_entries d of
        Inl DirMissing \<Rightarrow> Inr []
      | Inl (DirFault why) \<Rightarrow> Inl (DirUnreadable why)
      | Inr es \<Rightarrow> Inr (sort (map fst (filter (\<lambda>(name, dir). \<not> dir \<and> file_ext name = ''.json'') es))))"

definition decode_strict :: "'a json_dir \<Rightarrow> string \<Rightarrow> load_error + 'a" where
  "decode_strict d path = (case jd_decode d path of Inl why \<Rightarrow> Inl (FileUnreadable path why) | Inr x \<Rightarrow> Inr x)"

text \<open>The check of a text that must be there and fit a bound.\<close>

definition required_within :: "nat \<Rightarrow> string \<Rightarrow> string \<Rightarrow> string \<Rightarrow> load_error option" where
  "required_within bound path field s =
     (if s = [] then Some (AtField path (field, MustNotBeEmpty))
      else if bound < length s then Some (AtField path (field, AtMostBytes bound (length s)))
      else None)"

record raw_manifest =
  mf_id :: string
  mf_name :: string
  mf_format_version :: string
  mf_ruleset :: string
  mf_opening :: string

definition manifest_error :: "raw_manifest \<Rightarrow> ruleset \<Rightarrow> load_error option" where
  "manifest_error r rs =
     (let path = ''adventure.json'' in
      first_error
        [required_within max_id_bytes path ''id'' (mf_id r), required_within max_name_bytes path ''name'' (mf_name r),
         if mf_format_version r \<noteq> ''1'' then Some (UnsupportedVersion (mf_format_version r)) else None,
         if mf_ruleset r = [] then Some (AtField path (''ruleset'', MustNotBeEmpty)) else None,
         if mf_ruleset r \<noteq> rs_id rs then Some (ManifestRuleset (mf_ruleset r) (rs_id rs)) else None,
         required_within max_text_bytes path ''opening_narration'' (mf_opening r)])"

record raw_actor =
  ra_actor_id :: string
  ra_name :: string
  ra_kind :: string
  ra_attributes :: "(string, int32) fmap"
  ra_resources :: "(string, resource) fmap"

definition actor_kind_named :: "string \<Rightarrow> actor_kind option" where
  "actor_kind_named s =
     (if s = ''party_member'' then Some KIND_PARTY_MEMBER else if s = ''non_party'' then Some KIND_NON_PARTY else None)"

definition check_statblock_key :: "string \<Rightarrow> string \<Rightarrow> string \<Rightarrow> string \<Rightarrow> ruleset \<Rightarrow> load_error option" where
  "check_statblock_key path field key want rs =
     (case find_property rs key of
        None \<Rightarrow> Some (UndeclaredProperty path field key)
      | Some p \<Rightarrow> if pr_type p \<noteq> want then Some (PropertyOfType path field key (pr_type p)) else None)"

definition check_resource :: "string \<Rightarrow> string \<Rightarrow> resource option \<Rightarrow> ruleset \<Rightarrow> load_error option" where
  "check_resource path name rv rs =
     (case check_statblock_key path ''resources'' name PropertyResource rs of
        Some err \<Rightarrow> Some err
      | None \<Rightarrow>
          (case rv of
             None \<Rightarrow> None
           | Some v \<Rightarrow> if 0 < sint (res_max v) \<and> sint (res_max v) < sint (res_current v)
                       then Some (AboveMax path name (res_current v) (res_max v)) else None))"

definition actor_error :: "string \<Rightarrow> string set \<Rightarrow> raw_actor \<Rightarrow> ruleset \<Rightarrow> load_error option" where
  "actor_error path seen r rs =
     first_error
       ([required_within max_id_bytes path ''actor_id'' (ra_actor_id r), required_within max_name_bytes path ''name'' (ra_name r),
         if ra_actor_id r \<in> seen then Some (AtField path (''actor_id'', DuplicateId (ra_actor_id r))) else None,
         if actor_kind_named (ra_kind r) = None
         then Some (if ra_kind r = [] then KindMissing path else KindUnknown path (ra_kind r)) else None]
        @ map (\<lambda>name. check_statblock_key path ''attributes'' name PropertyNumber rs) (keys (ra_attributes r))
        @ map (\<lambda>name. check_resource path name (fmlookup (ra_resources r) name) rs) (keys (ra_resources r)))"

fun load_actors_from :: "raw_actor json_dir \<Rightarrow> string set \<Rightarrow> string list \<Rightarrow> ruleset \<Rightarrow> load_error + adventure_actor list" where
  "load_actors_from d seen [] rs = Inr []"
| "load_actors_from d seen (path # paths) rs =
     sum_bind (decode_strict d path) (\<lambda>r.
       case actor_error path seen r rs of
         Some err \<Rightarrow> Inl err
       | None \<Rightarrow> sum_bind (load_actors_from d (insert (ra_actor_id r) seen) paths rs) (\<lambda>actors.
           Inr (\<lparr>aa_id = ra_actor_id r, aa_name = ra_name r, aa_kind = the (actor_kind_named (ra_kind r)),
                 aa_attributes = ra_attributes r, aa_resources = ra_resources r\<rparr> # actors)))"

definition load_actors :: "raw_actor json_dir \<Rightarrow> ruleset \<Rightarrow> load_error + adventure_actor list" where
  "load_actors d rs = sum_bind (json_files_in d) (\<lambda>paths. load_actors_from d {} paths rs)"

subsection \<open>Scenes\<close>

record raw_scene =
  rsc_id :: string
  rsc_name :: string
  rsc_grid_width :: int32
  rsc_grid_height :: int32
  rsc_tiles :: "(string, string) fmap"
  rsc_overrides :: "(string, string) fmap"
  rsc_objects :: "map_object list"
  rsc_placements :: "placement list"

definition scene_of_raw :: "raw_scene \<Rightarrow> adventure_scene" where
  "scene_of_raw r =
     \<lparr>as_id = rsc_id r, as_name = rsc_name r, as_grid_w = rsc_grid_width r, as_grid_h = rsc_grid_height r,
      as_tiles = rsc_tiles r, as_overrides = rsc_overrides r, as_objects = rsc_objects r,
      as_placements = rsc_placements r\<rparr>"

fun placements_error :: "string \<Rightarrow> nat \<Rightarrow> placement list \<Rightarrow> int32 \<Rightarrow> int32 \<Rightarrow> string set \<Rightarrow> string set \<Rightarrow>
    load_error option" where
  "placements_error path i [] w h actor_ids seen = None"
| "placements_error path i (p # ps) w h actor_ids seen =
     (if pl_token_id p = [] then Some (AtField path (indexed ''placements'' i ''.token_id'', MustNotBeEmpty))
      else if max_id_bytes < length (pl_token_id p)
      then Some (AtField path (indexed ''placements'' i ''.token_id'', AtMostBytes max_id_bytes (length (pl_token_id p))))
      else if pl_actor_id p = [] then Some (AtField path (indexed ''placements'' i ''.actor_id'', MustNotBeEmpty))
      else if pl_token_id p \<in> seen
      then Some (AtField path (indexed ''placements'' i ''.token_id'', DuplicateId (pl_token_id p)))
      else if pl_actor_id p \<notin> actor_ids then Some (UnknownActorId path i (pl_actor_id p))
      else if sint (pl_x p) < 0 \<or> sint w \<le> sint (pl_x p) then Some (OutsideScene path i ''.x'')
      else if sint (pl_y p) < 0 \<or> sint h \<le> sint (pl_y p) then Some (OutsideScene path i ''.y'')
      else placements_error path (Suc i) ps w h actor_ids (insert (pl_token_id p) seen))"

definition scene_error :: "string \<Rightarrow> string set \<Rightarrow> string set \<Rightarrow> string set \<Rightarrow> raw_scene \<Rightarrow> art_lookup \<Rightarrow> load_error option" where
  "scene_error path actor_ids scenes_seen tokens_seen r lk =
     (let w = rsc_grid_width r; h = rsc_grid_height r; at = map_option (AtField path) in
      first_error
        [required_within max_id_bytes path ''id'' (rsc_id r), required_within max_name_bytes path ''name'' (rsc_name r),
         if rsc_id r \<in> scenes_seen then Some (AtField path (''id'', DuplicateId (rsc_id r))) else None,
         if sint w < 1 then Some (AtField path (''grid_width'', MustBePositive w)) else None,
         if sint h < 1 then Some (AtField path (''grid_height'', MustBePositive h)) else None,
         at (check_every_square (rsc_tiles r) w h), at (check_inside_grid ''tiles'' (rsc_tiles r) w h),
         at (check_tile_names (rsc_tiles r)), at (check_inside_grid ''overrides'' (rsc_overrides r) w h),
         at (check_overrides_tiles (rsc_tiles r) (rsc_overrides r)), at (check_object_ids 0 {} (rsc_objects r)),
         at (check_object_footprints 0 (rsc_objects r) w h),
         case snd (build_scene_created (as_map (scene_of_raw r)) lk) of Inl err \<Rightarrow> Some (SceneArt path err) | Inr _ \<Rightarrow> None,
         placements_error path 0 (rsc_placements r) w h actor_ids tokens_seen,
         at (check_placements 0 (rsc_placements r) (rsc_tiles r) w h)])"

fun load_scenes_from :: "raw_scene json_dir \<Rightarrow> string set \<Rightarrow> string set \<Rightarrow> string set \<Rightarrow> string list \<Rightarrow> art_lookup \<Rightarrow>
    load_error + adventure_scene list" where
  "load_scenes_from d actor_ids scenes_seen tokens_seen [] lk = Inr []"
| "load_scenes_from d actor_ids scenes_seen tokens_seen (path # paths) lk =
     sum_bind (decode_strict d path) (\<lambda>r.
       case scene_error path actor_ids scenes_seen tokens_seen r lk of
         Some err \<Rightarrow> Inl err
       | None \<Rightarrow>
           sum_bind (load_scenes_from d actor_ids (insert (rsc_id r) scenes_seen)
               (tokens_seen \<union> pl_token_id ` set (rsc_placements r)) paths lk) (\<lambda>scenes.
             Inr (scene_of_raw r # scenes)))"

definition load_scenes :: "raw_scene json_dir \<Rightarrow> string set \<Rightarrow> art_lookup \<Rightarrow> load_error + adventure_scene list" where
  "load_scenes d actor_ids lk = sum_bind (json_files_in d) (\<lambda>paths. load_scenes_from d actor_ids {} {} paths lk)"

subsection \<open>Notes\<close>

fun notes_error :: "string \<Rightarrow> nat \<Rightarrow> string set \<Rightarrow> adventure_note list \<Rightarrow> load_error option" where
  "notes_error path i seen [] = None"
| "notes_error path i seen (n # ns) =
     (case first_error
        [required_within max_note_key_bytes path (indexed [] i ''.key'') (nt_key n),
         if max_note_title_bytes < length (nt_title n)
         then Some (AtField path (indexed [] i ''.title'', AtMostBytes max_note_title_bytes (length (nt_title n)))) else None,
         required_within max_text_bytes path (indexed [] i ''.text'') (nt_text n),
         if nt_key n \<in> seen then Some (AtField path (indexed [] i ''.key'', DuplicateId (nt_key n))) else None] of
        Some err \<Rightarrow> Some err
      | None \<Rightarrow> notes_error path (Suc i) (insert (nt_key n) seen) ns)"

fun load_notes_from :: "adventure_note list json_dir \<Rightarrow> string set \<Rightarrow> string list \<Rightarrow> load_error + adventure_note list" where
  "load_notes_from d seen [] = Inr []"
| "load_notes_from d seen (path # paths) =
     sum_bind (decode_strict d path) (\<lambda>ns.
       case notes_error path 0 seen ns of
         Some err \<Rightarrow> Inl err
       | None \<Rightarrow> sum_bind (load_notes_from d (seen \<union> nt_key ` set ns) paths) (\<lambda>rest. Inr (ns @ rest)))"

definition load_notes :: "adventure_note list json_dir \<Rightarrow> load_error + adventure_note list" where
  "load_notes d = sum_bind (json_files_in d) (\<lambda>paths. load_notes_from d {} paths)"

subsection \<open>Load\<close>

text \<open>\<open>dd_art\<close> is what opening the adventure's \<open>art\<close> answers; a missing directory is no fault.\<close>

record adventure_dir =
  dd_fault :: "string option"
  dd_manifest :: "string + raw_manifest"
  dd_actors :: "raw_actor json_dir"
  dd_art :: "dir_fault option"
  dd_scenes :: "raw_scene json_dir"
  dd_notes :: "adventure_note list json_dir"

definition art_dir_error :: "dir_fault option \<Rightarrow> load_error option" where
  "art_dir_error opened = (case opened of Some (DirFault why) \<Rightarrow> Some (ArtDirUnopenable why) | _ \<Rightarrow> None)"

definition load_adventure :: "adventure_dir \<Rightarrow> ruleset \<Rightarrow> art_lookup \<Rightarrow> load_error + adventure" where
  "load_adventure d rs lk =
     (case dd_fault d of
        Some why \<Rightarrow> Inl (DirUnreadable why)
      | None \<Rightarrow>
          (case dd_manifest d of
             Inl why \<Rightarrow> Inl (FileUnreadable ''adventure.json'' why)
           | Inr mf \<Rightarrow>
               (case manifest_error mf rs of
                  Some err \<Rightarrow> Inl err
                | None \<Rightarrow>
                    sum_bind (load_actors (dd_actors d) rs) (\<lambda>actors.
                      case art_dir_error (dd_art d) of
                        Some err \<Rightarrow> Inl err
                      | None \<Rightarrow>
                          sum_bind (load_scenes (dd_scenes d) (set (map aa_id actors)) lk) (\<lambda>scenes.
                          sum_bind (load_notes (dd_notes d)) (\<lambda>notes'.
                            if scenes = [] \<and> actors = [] \<and> notes' = [] then Inl EmptyAdventure
                            else Inr \<lparr>av_id = mf_id mf, av_name = mf_name mf, av_ruleset_id = mf_ruleset mf,
                                      av_opening = mf_opening mf, av_scenes = scenes, av_actors = actors,
                                      av_notes = notes'\<rparr>))))))"

end
