(* ===== verification/Adventure_Props.thy ===== *)
theory Adventure_Props
  imports Adventure Perceive_Status
begin

text \<open>
  What the loader promises and the compiler keeps: an adventure that loads, and whose ids do not collide with
  the campaign's, compiles to a batch that folds, that puts everything the adventure declares on the table and
  leaves what was there.
\<close>

subsection \<open>What a loaded adventure satisfies\<close>

definition scene_fits :: "adventure_scene \<Rightarrow> bool" where
  "scene_fits sc =
     (\<not> bad_id (as_id sc) \<and> length (as_name sc) \<le> max_name_bytes \<and> check_object_ids 0 {} (as_objects sc) = None)"

definition actor_fits :: "adventure_actor \<Rightarrow> bool" where
  "actor_fits a =
     (\<not> bad_id (aa_id a) \<and> length (aa_name a) \<le> max_name_bytes \<and> \<not> bad_keys (aa_attributes a) \<and> \<not> bad_keys (aa_resources a))"

definition note_fits :: "adventure_note \<Rightarrow> bool" where
  "note_fits n =
     (nt_key n \<noteq> [] \<and> length (nt_key n) \<le> max_note_key_bytes \<and> length (nt_title n) \<le> max_note_title_bytes \<and>
      nt_text n \<noteq> [] \<and> length (nt_text n) \<le> max_text_bytes)"

definition adventure_placements :: "adventure \<Rightarrow> (string \<times> placement) list" where
  "adventure_placements adv = concat (map (\<lambda>sc. map (Pair (as_id sc)) (as_placements sc)) (av_scenes adv))"

definition adventure_fits :: "adventure \<Rightarrow> bool" where
  "adventure_fits adv =
     (\<not> bad_id (av_id adv) \<and> length (av_name adv) \<le> max_name_bytes \<and>
      av_opening adv \<noteq> [] \<and> length (av_opening adv) \<le> max_text_bytes \<and>
      distinct (map as_id (av_scenes adv)) \<and> list_all scene_fits (av_scenes adv) \<and>
      distinct (map aa_id (av_actors adv)) \<and> list_all actor_fits (av_actors adv) \<and>
      distinct (map (pl_token_id \<circ> snd) (adventure_placements adv)) \<and>
      (\<forall>(sid, p) \<in> set (adventure_placements adv). \<not> bad_id (pl_token_id p) \<and> pl_actor_id p \<in> aa_id ` set (av_actors adv)) \<and>
      distinct (map nt_key (av_notes adv)) \<and> list_all note_fits (av_notes adv))"


lemma required_within_None:
  "required_within bound path field s = None \<longleftrightarrow> s \<noteq> [] \<and> length s \<le> bound"
  by (auto simp: required_within_def)

lemma not_bad_id: "\<not> bad_id s \<longleftrightarrow> s \<noteq> [] \<and> length s \<le> max_id_bytes"
  by (auto simp: bad_id_def)

lemma fold_max_le: "(\<forall>x \<in> set xs. f x \<le> b) \<Longrightarrow> n \<le> b \<Longrightarrow> fold (\<lambda>x m. max m (f x)) xs n \<le> (b :: nat)"
  by (induction xs arbitrary: n) auto

lemma fold_max_ge: "n \<le> fold (\<lambda>x m. max m (f x)) xs (n :: nat)"
  by (induction xs arbitrary: n) (auto intro: order_trans[OF max.cobounded1])

lemma fold_max_mem: "x \<in> set xs \<Longrightarrow> f x \<le> fold (\<lambda>x m. max m (f x)) xs (n :: nat)"
  by (induction xs arbitrary: n) (auto intro: order_trans[OF _ fold_max_ge])

lemma good_keys:
  assumes "\<forall>k \<in> set (keys m). \<not> bad_id k"
  shows "\<not> bad_keys m"
proof (cases "keys m = []")
  case True
  then show ?thesis by (simp add: bad_keys_def key_length_def)
next
  case False
  then obtain k where k: "k \<in> set (keys m)" by (cases "keys m") auto
  have "[] \<notin> set (keys m)" using assms by (auto simp: bad_id_def)
  then have none: "fmlookup m [] = None" by (simp add: in_keys_iff del: set_keys)
  have "fold (\<lambda>k n. max n (length k)) (keys m) 0 \<le> max_id_bytes"
    using assms by (intro fold_max_le) (auto simp: not_bad_id simp del: set_keys)
  moreover have "0 < fold (\<lambda>k n. max n (length k)) (keys m) 0"
  proof -
    have "\<not> bad_id k" using assms k by blast
    then have "0 < length k" by (simp add: not_bad_id)
    then show ?thesis by (rule less_le_trans[OF _ fold_max_mem[OF k]])
  qed
  ultimately show ?thesis using False none by (simp add: bad_keys_def key_length_def del: keys_eq_Nil_iff)
qed

lemma statblock_key_good:
  assumes "check_statblock_key path field key want rs = None" and "\<forall>p \<in> set (rs_properties rs). \<not> bad_id (pr_key p)"
  shows "\<not> bad_id key"
  using assms by (auto simp: check_statblock_key_def find_property_def find_Some_iff split: option.splits)

lemma actor_error_None:
  assumes "actor_error path seen r rs = None" and "\<forall>p \<in> set (rs_properties rs). \<not> bad_id (pr_key p)"
  shows "ra_actor_id r \<notin> seen \<and> actor_fits \<lparr>aa_id = ra_actor_id r, aa_name = ra_name r,
    aa_kind = the (actor_kind_named (ra_kind r)), aa_attributes = ra_attributes r, aa_resources = ra_resources r\<rparr>"
proof -
  note none = assms(1)[unfolded actor_error_def first_error_None set_append ball_Un set_map ball_simps]
  have attrs: "\<forall>k \<in> set (keys (ra_attributes r)). \<not> bad_id k"
  proof
    fix k assume "k \<in> set (keys (ra_attributes r))"
    with none have "check_statblock_key path ''attributes'' k PropertyNumber rs = None" by blast
    then show "\<not> bad_id k" by (rule statblock_key_good[OF _ assms(2)])
  qed
  have res: "\<not> bad_id k" if k: "k \<in> set (keys (ra_resources r))" for k
  proof -
    have "check_resource path k (fmlookup (ra_resources r) k) rs = None" using none k by blast
    then have "check_statblock_key path ''resources'' k PropertyResource rs = None"
      by (auto simp: check_resource_def split: option.splits)
    then show ?thesis by (rule statblock_key_good[OF _ assms(2)])
  qed
  from none have "ra_actor_id r \<notin> seen" "\<not> bad_id (ra_actor_id r)" "length (ra_name r) \<le> max_name_bytes"
    by (simp_all add: required_within_None not_bad_id split: if_splits)
  with good_keys[OF attrs] good_keys[of "ra_resources r"] res show ?thesis by (simp add: actor_fits_def del: set_keys)
qed

lemma load_actors_fit:
  assumes "load_actors_from d seen paths rs = Inr actors" and "\<forall>p \<in> set (rs_properties rs). \<not> bad_id (pr_key p)"
  shows "distinct (map aa_id actors) \<and> list_all actor_fits actors \<and> aa_id ` set actors \<inter> seen = {}"
  using assms
proof (induction paths arbitrary: seen actors)
  case (Cons path paths)
  from Cons.prems(1) obtain r rest where
    r: "actor_error path seen r rs = None" and rest: "load_actors_from d (insert (ra_actor_id r) seen) paths rs = Inr rest"
    and actors: "actors = \<lparr>aa_id = ra_actor_id r, aa_name = ra_name r, aa_kind = the (actor_kind_named (ra_kind r)),
       aa_attributes = ra_attributes r, aa_resources = ra_resources r\<rparr> # rest"
    by (auto simp: sum_bind_eq_Inr split: option.splits)
  from Cons.IH[OF rest Cons.prems(2)] actor_error_None[OF r Cons.prems(2)] show ?case
    unfolding actors by auto
qed simp

lemma placements_error_None:
  assumes "placements_error path i ps w h actor_ids seen = None"
  shows "distinct (map pl_token_id ps) \<and> pl_token_id ` set ps \<inter> seen = {} \<and>
     (\<forall>p \<in> set ps. \<not> bad_id (pl_token_id p) \<and> pl_actor_id p \<in> actor_ids)"
  using assms
proof (induction ps arbitrary: i seen)
  case (Cons p ps)
  from Cons.prems have "placements_error path (Suc i) ps w h actor_ids (insert (pl_token_id p) seen) = None"
    by (auto split: if_splits)
  from Cons.IH[OF this] Cons.prems show ?case by (auto simp: not_bad_id split: if_splits)
qed simp

lemma scene_error_None:
  assumes "scene_error path actor_ids scenes_seen tokens_seen r lk = None"
  shows "rsc_id r \<notin> scenes_seen" "scene_fits (scene_of_raw r)"
    "placements_error path 0 (rsc_placements r) (rsc_grid_width r) (rsc_grid_height r) actor_ids tokens_seen = None"
  using assms
  by (simp_all add: scene_error_def Let_def first_error_None scene_fits_def scene_of_raw_def required_within_None not_bad_id
      split: if_splits)

definition scene_placements :: "adventure_scene list \<Rightarrow> (string \<times> placement) list" where
  "scene_placements scs = concat (map (\<lambda>sc. map (Pair (as_id sc)) (as_placements sc)) scs)"

lemma adventure_placements_scenes: "adventure_placements adv = scene_placements (av_scenes adv)"
  by (simp add: adventure_placements_def scene_placements_def)

lemma load_scenes_fit:
  assumes "load_scenes_from d actor_ids scenes_seen tokens_seen paths lk = Inr scs"
  shows "distinct (map as_id scs) \<and> as_id ` set scs \<inter> scenes_seen = {} \<and> list_all scene_fits scs \<and>
     distinct (map (pl_token_id \<circ> snd) (scene_placements scs)) \<and>
     (pl_token_id \<circ> snd) ` set (scene_placements scs) \<inter> tokens_seen = {} \<and>
     (\<forall>(sid, p) \<in> set (scene_placements scs). \<not> bad_id (pl_token_id p) \<and> pl_actor_id p \<in> actor_ids)"
  using assms
proof (induction paths arbitrary: scenes_seen tokens_seen scs)
  case Nil
  then show ?case by (simp add: scene_placements_def)
next
  case (Cons path paths)
  from Cons.prems obtain r rest where
    r: "scene_error path actor_ids scenes_seen tokens_seen r lk = None"
    and rest: "load_scenes_from d actor_ids (insert (rsc_id r) scenes_seen)
       (tokens_seen \<union> pl_token_id ` set (rsc_placements r)) paths lk = Inr rest"
    and scs: "scs = scene_of_raw r # rest"
    by (auto simp: sum_bind_eq_Inr split: option.splits)
  note one = scene_error_None[OF r] and ps = placements_error_None[OF scene_error_None(3)[OF r]]
  note more = Cons.IH[OF rest]
  have head: "scene_placements scs = map (Pair (rsc_id r)) (rsc_placements r) @ scene_placements rest"
    by (simp add: scs scene_placements_def scene_of_raw_def)
  have "distinct (map as_id scs)" "as_id ` set scs \<inter> scenes_seen = {}" "list_all scene_fits scs"
    using one more by (auto simp: scs scene_of_raw_def)
  moreover have "distinct (map (pl_token_id \<circ> snd) (scene_placements scs))"
    using ps more by (auto simp: head comp_def)
  moreover have "(pl_token_id \<circ> snd) ` set (scene_placements scs) \<inter> tokens_seen = {}"
    using ps more by (auto simp: head)
  moreover have "\<forall>(sid, p) \<in> set (scene_placements scs). \<not> bad_id (pl_token_id p) \<and> pl_actor_id p \<in> actor_ids"
    using ps more by (auto simp: head)
  ultimately show ?case by blast
qed

lemma notes_error_None:
  "notes_error path i seen ns = None \<Longrightarrow>
     distinct (map nt_key ns) \<and> nt_key ` set ns \<inter> seen = {} \<and> list_all note_fits ns"
proof (induction ns arbitrary: i seen)
  case (Cons n ns)
  from Cons.prems have "notes_error path (Suc i) (insert (nt_key n) seen) ns = None"
    by (simp split: option.splits)
  from Cons.IH[OF this] Cons.prems show ?case
    by (auto simp: first_error_None required_within_None note_fits_def split: option.splits if_splits)
qed simp

lemma load_notes_fit:
  "load_notes_from d seen paths = Inr ns \<Longrightarrow>
     distinct (map nt_key ns) \<and> nt_key ` set ns \<inter> seen = {} \<and> list_all note_fits ns"
proof (induction paths arbitrary: seen ns)
  case (Cons path paths)
  from Cons.prems obtain ms rest where
    ms: "notes_error path 0 seen ms = None"
    and rest: "load_notes_from d (seen \<union> nt_key ` set ms) paths = Inr rest" and ns: "ns = ms @ rest"
    by (auto simp: sum_bind_eq_Inr split: option.splits)
  from Cons.IH[OF rest] notes_error_None[OF ms] show ?case unfolding ns by auto
qed simp

lemma load_adventure_fits:
  assumes "load_adventure d rs lk = Inr adv" and "\<forall>p \<in> set (rs_properties rs). \<not> bad_id (pr_key p)"
  shows "adventure_fits adv"
proof -
  from assms(1) obtain mf apaths actors spaths scenes npaths ns where
    mf: "manifest_error mf rs = None"
    and actors: "load_actors_from (dd_actors d) {} apaths rs = Inr actors"
    and scenes: "load_scenes_from (dd_scenes d) (set (map aa_id actors)) {} {} spaths lk = Inr scenes"
    and ns: "load_notes_from (dd_notes d) {} npaths = Inr ns"
    and adv: "av_id adv = mf_id mf" "av_name adv = mf_name mf" "av_opening adv = mf_opening mf"
       "av_scenes adv = scenes" "av_actors adv = actors" "av_notes adv = ns"
    by (auto simp: load_adventure_def load_actors_def load_scenes_def load_notes_def sum_bind_eq_Inr
        split: option.splits sum.splits if_splits)
  have "\<not> bad_id (mf_id mf)" "length (mf_name mf) \<le> max_name_bytes" "mf_opening mf \<noteq> []"
    "length (mf_opening mf) \<le> max_text_bytes"
    using mf by (simp_all add: manifest_error_def Let_def first_error_None required_within_None not_bad_id split: if_splits)
  with load_actors_fit[OF actors assms(2)] load_scenes_fit[OF scenes] load_notes_fit[OF ns]
  show ?thesis unfolding adventure_fits_def adventure_placements_scenes adv by simp
qed

subsection \<open>Folding what it compiles to\<close>

definition extends :: "('k, 'v) fmap \<Rightarrow> ('k, 'v) fmap \<Rightarrow> bool" where
  "extends m m' = (\<forall>k v. fmlookup m k = Some v \<longrightarrow> fmlookup m' k = Some v)"

lemma extends_refl [simp]: "extends m m"
  by (simp add: extends_def)

lemma extendsD: "extends m m' \<Longrightarrow> fmlookup m k = Some v \<Longrightarrow> fmlookup m' k = Some v"
  by (simp add: extends_def)

lemma extends_upd: "fmlookup m k = None \<Longrightarrow> extends (fmupd k v m) m' \<Longrightarrow> extends m m'"
  unfolding extends_def by (metis (no_types) fmupd_lookup option.distinct(1))

lemma build_objects_ids:
  "build_objects lk i obs t = (t', Inr out) \<Longrightarrow> map wo_object_id out = map mo_id obs"
proof (induction obs arbitrary: i t out t')
  case (Cons ob obs)
  then show ?case by (fastforce split: sum.splits prod.splits)
qed simp

lemma created_objects_ok:
  "check_object_ids i seen obs = None \<Longrightarrow> map wo_object_id ws = map mo_id obs \<Longrightarrow> \<exists>os. created_objects sid seen ws = Inr os"
proof (induction obs arbitrary: i seen ws)
  case (Cons ob obs)
  then obtain w ws' where ws: "ws = w # ws'" "wo_object_id w = mo_id ob" "map wo_object_id ws' = map mo_id obs"
    by (cases ws) auto
  from Cons.prems have "check_object_ids (Suc i) (insert (mo_id ob) seen) obs = None" by (auto simp: Let_def split: if_splits)
  from Cons.IH[OF this ws(3)] obtain os where "created_objects sid (insert (mo_id ob) seen) ws' = Inr os" ..
  with Cons.prems ws show ?case by (auto simp: Let_def bad_id_def split: if_splits)
qed simp

lemma built_scene:
  assumes "build_scene_created m lk = (ws, Inr c)"
  shows "scr_scene_id c = md_id m" "scr_name c = md_name m" "map wo_object_id (scr_objects c) = map mo_id (md_objects m)"
    "scr_grid_width c = md_grid_w m" "scr_grid_height c = md_grid_h m"
  using assms build_objects_ids by (fastforce simp: build_scene_created_def Let_def split: if_splits prod.splits sum.splits)+

lemma apply_scene_built:
  assumes "build_scene_created (as_map sc) lk = (ws, Inr c)" and "scene_fits sc" and "fmlookup (st_scenes st) (as_id sc) = None"
  shows "\<exists>s. apply_scene_created st c = Inr (st\<lparr>st_scenes := fmupd (as_id sc) s (st_scenes st)\<rparr>) \<and>
    sc_id s = as_id sc \<and> sc_name s = as_name sc \<and> sc_grid_width s = as_grid_w sc \<and> sc_grid_height s = as_grid_h sc"
proof -
  note b = built_scene[OF assms(1)]
  from assms(2) have "check_object_ids 0 {} (as_objects sc) = None" by (simp add: scene_fits_def)
  from created_objects_ok[OF this, of "scr_objects c" "as_id sc"] b(3) obtain os
    where "created_objects (as_id sc) {} (scr_objects c) = Inr os" by (auto simp: as_map_def)
  with b assms(2,3) show ?thesis by (auto simp: apply_scene_created_def scene_fits_def as_map_def)
qed

definition scene_shown :: "adventure_scene \<Rightarrow> (string, scene) fmap \<Rightarrow> bool" where
  "scene_shown sc m = (\<exists>s. fmlookup m (as_id sc) = Some s \<and> sc_id s = as_id sc \<and> sc_name s = as_name sc \<and>
     sc_grid_width s = as_grid_w sc \<and> sc_grid_height s = as_grid_h sc)"

lemma scene_shown_extends: "scene_shown sc m \<Longrightarrow> extends m m' \<Longrightarrow> scene_shown sc m'"
  by (auto simp: scene_shown_def dest: extendsD)

lemma fold_scenes:
  assumes "compile_scenes scs lk = (ws, Inr envs)" and "map env_payload batch = map env_payload envs"
    and "distinct (map as_id scs)" and "list_all scene_fits scs"
    and "\<forall>sc \<in> set scs. fmlookup (st_scenes st) (as_id sc) = None"
  shows "\<exists>m. apply_events st batch = Inr (st\<lparr>st_scenes := m\<rparr>) \<and> list_all (\<lambda>sc. scene_shown sc m) scs \<and> extends (st_scenes st) m"
  using assms
proof (induction scs arbitrary: ws envs batch st)
  case Nil
  then show ?case by (auto intro!: exI[of _ "st_scenes st"])
next
  case (Cons sc scs)
  from Cons.prems(1) obtain w c ws' envs' where c: "build_scene_created (as_map sc) lk = (w, Inr c)"
    and rest: "compile_scenes scs lk = (ws', Inr envs')" and envs: "envs = payload_only (SceneCreated c) # envs'"
    by (auto split: prod.splits sum.splits)
  from Cons.prems(2) obtain e batch' where batch: "batch = e # batch'" "env_payload e = Some (SceneCreated c)"
    "map env_payload batch' = map env_payload envs'"
    unfolding envs by (cases batch) auto
  obtain s where s: "apply_scene_created st c = Inr (st\<lparr>st_scenes := fmupd (as_id sc) s (st_scenes st)\<rparr>)"
    and shown: "sc_id s = as_id sc" "sc_name s = as_name sc" "sc_grid_width s = as_grid_w sc" "sc_grid_height s = as_grid_h sc"
    using apply_scene_built[OF c, of st] Cons.prems(4,5) by auto
  let ?st = "st\<lparr>st_scenes := fmupd (as_id sc) s (st_scenes st)\<rparr>"
  have "\<forall>x \<in> set scs. fmlookup (st_scenes ?st) (as_id x) = None" using Cons.prems(3,5) by auto
  with Cons.IH[OF rest batch(3), of ?st] Cons.prems(3,4) obtain m where
    m: "apply_events ?st batch' = Inr (st\<lparr>st_scenes := m\<rparr>)" "list_all (\<lambda>sc. scene_shown sc m) scs"
       "extends (fmupd (as_id sc) s (st_scenes st)) m" by auto
  have "scene_shown sc m" using extendsD[OF m(3), of "as_id sc" s] shown by (simp add: scene_shown_def)
  moreover have "extends (st_scenes st) m" using extends_upd[OF _ m(3)] Cons.prems(5) by simp
  ultimately show ?case
    using m(1,2) s batch by (intro exI[of _ m]) (simp add: apply_event_def apply_payload_def)
qed

lemma fold_actors:
  assumes "map env_payload batch = map (\<lambda>a. Some (ActorAdded (Some (build_actor a)))) as"
    and "distinct (map aa_id as)" and "list_all actor_fits as" and "\<forall>a \<in> set as. fmlookup (st_actors st) (aa_id a) = None"
  shows "\<exists>m. apply_events st batch = Inr (st\<lparr>st_actors := m\<rparr>) \<and>
    list_all (\<lambda>a. fmlookup m (aa_id a) = Some (build_actor a)) as \<and> extends (st_actors st) m"
  using assms
proof (induction as arbitrary: batch st)
  case Nil
  then show ?case by (auto intro!: exI[of _ "st_actors st"])
next
  case (Cons a as)
  from Cons.prems(1) obtain e batch' where batch: "batch = e # batch'" "env_payload e = Some (ActorAdded (Some (build_actor a)))"
    "map env_payload batch' = map (\<lambda>a. Some (ActorAdded (Some (build_actor a)))) as" by (cases batch) auto
  let ?st = "put_actor st (aa_id a) (build_actor a)"
  have s: "apply_event st e = Inr ?st"
    using Cons.prems(3,4) batch(2)
    by (simp add: apply_event_def apply_payload_def apply_actor_added_def build_actor_def actor_fits_def not_bad_id)
  have "\<forall>x \<in> set as. fmlookup (st_actors ?st) (aa_id x) = None" using Cons.prems(2,4) by (auto simp: image_iff)
  with Cons.IH[OF batch(3), of ?st] Cons.prems(2,3) obtain m where
    m: "apply_events ?st batch' = Inr (?st\<lparr>st_actors := m\<rparr>)" "list_all (\<lambda>a. fmlookup m (aa_id a) = Some (build_actor a)) as"
       "extends (st_actors ?st) m" by auto
  have "fmlookup m (aa_id a) = Some (build_actor a)" by (rule extendsD[OF m(3)]) simp
  moreover have "extends (st_actors st) m"
    using extends_upd[of "st_actors st" "aa_id a" "build_actor a" m] m(3) Cons.prems(4) by (simp add: put_actor_def)
  ultimately show ?case using m s batch(1) by (intro exI[of _ m]) (simp add: put_actor_def)
qed

definition token_of_placement :: "string \<Rightarrow> placement \<Rightarrow> token" where
  "token_of_placement sid p =
     \<lparr>tok_id = pl_token_id p, tok_scene_id = sid, tok_actor_id = pl_actor_id p, tok_x = pl_x p, tok_y = pl_y p,
      tok_name = pl_name p, tok_notes = pl_notes p, tok_gm_name = pl_gm_name p, tok_gm_notes = pl_gm_notes p\<rparr>"

lemma fold_tokens:
  assumes "map env_payload batch = map (\<lambda>(sid, p). env_payload (placed_token sid p)) ps"
    and "distinct (map (pl_token_id \<circ> snd) ps)"
    and "\<forall>(sid, p) \<in> set ps. \<not> bad_id (pl_token_id p) \<and> fmlookup (st_scenes st) sid \<noteq> None \<and>
        fmlookup (st_actors st) (pl_actor_id p) \<noteq> None \<and> fmlookup (st_tokens st) (pl_token_id p) = None"
  shows "\<exists>m. apply_events st batch = Inr (st\<lparr>st_tokens := m\<rparr>) \<and>
    list_all (\<lambda>(sid, p). fmlookup m (pl_token_id p) = Some (token_of_placement sid p)) ps \<and> extends (st_tokens st) m"
  using assms
proof (induction ps arbitrary: batch st)
  case Nil
  then show ?case by (auto intro!: exI[of _ "st_tokens st"])
next
  case (Cons q ps)
  obtain sid p where q: "q = (sid, p)" by (cases q)
  from Cons.prems(1) obtain e batch' where batch: "batch = e # batch'" "env_payload e = env_payload (placed_token sid p)"
    "map env_payload batch' = map (\<lambda>(sid, p). env_payload (placed_token sid p)) ps" by (cases batch) (auto simp: q)
  let ?st = "put_token st (pl_token_id p) (token_of_placement sid p)"
  have s: "apply_event st e = Inr ?st"
    using Cons.prems(3) batch(2)
    by (auto simp: q apply_event_def apply_payload_def apply_token_placed_def placed_token_def token_of_placement_def)
  have "\<forall>(sid, p) \<in> set ps. \<not> bad_id (pl_token_id p) \<and> fmlookup (st_scenes ?st) sid \<noteq> None \<and>
        fmlookup (st_actors ?st) (pl_actor_id p) \<noteq> None \<and> fmlookup (st_tokens ?st) (pl_token_id p) = None"
    using Cons.prems(2,3) by (force simp: q put_token_def)
  with Cons.IH[OF batch(3), of ?st] Cons.prems(2) obtain m where
    m: "apply_events ?st batch' = Inr (?st\<lparr>st_tokens := m\<rparr>)"
       "list_all (\<lambda>(sid, p). fmlookup m (pl_token_id p) = Some (token_of_placement sid p)) ps"
       "extends (st_tokens ?st) m" by auto
  have "fmlookup m (pl_token_id p) = Some (token_of_placement sid p)" by (rule extendsD[OF m(3)]) (simp add: put_token_def)
  moreover have "extends (st_tokens st) m"
    using extends_upd[of "st_tokens st" "pl_token_id p" "token_of_placement sid p" m] m(3) Cons.prems(3)
    by (simp add: q put_token_def)
  ultimately show ?case using m s batch(1) by (intro exI[of _ m]) (simp add: q put_token_def)
qed

definition note_shown :: "adventure_note \<Rightarrow> (string, world_note) fmap \<Rightarrow> bool" where
  "note_shown n m = (\<exists>seq. fmlookup m (nt_key n) =
     Some \<lparr>wn_title = nt_title n, wn_text = nt_text n, wn_updated_seq = seq, wn_visibility = VISIBILITY_PUBLIC\<rparr>)"

lemma fold_notes:
  assumes "map env_payload batch = map (\<lambda>n. env_payload (note_envelope n)) ns"
    and "distinct (map nt_key ns)" and "list_all note_fits ns" and "\<forall>n \<in> set ns. fmlookup (st_notes st) (nt_key n) = None"
  shows "\<exists>m. apply_events st batch = Inr (st\<lparr>st_notes := m\<rparr>) \<and> list_all (\<lambda>n. note_shown n m) ns \<and> extends (st_notes st) m"
  using assms
proof (induction ns arbitrary: batch st)
  case Nil
  then show ?case by (auto intro!: exI[of _ "st_notes st"])
next
  case (Cons n ns)
  from Cons.prems(1) obtain e batch' where batch: "batch = e # batch'" "env_payload e = env_payload (note_envelope n)"
    "map env_payload batch' = map (\<lambda>n. env_payload (note_envelope n)) ns" by (cases batch) auto
  let ?v = "\<lparr>wn_title = nt_title n, wn_text = nt_text n, wn_updated_seq = env_sequence e, wn_visibility = VISIBILITY_PUBLIC\<rparr>"
  let ?st = "st\<lparr>st_notes := fmupd (nt_key n) ?v (st_notes st)\<rparr>"
  have s: "apply_event st e = Inr ?st"
    using Cons.prems(3) batch(2)
    by (simp add: apply_event_def apply_payload_def apply_note_upserted_def note_envelope_def note_fits_def)
  have "\<forall>x \<in> set ns. fmlookup (st_notes ?st) (nt_key x) = None" using Cons.prems(2,4) by auto
  with Cons.IH[OF batch(3), of ?st] Cons.prems(2,3) obtain m where
    m: "apply_events ?st batch' = Inr (st\<lparr>st_notes := m\<rparr>)" "list_all (\<lambda>n. note_shown n m) ns"
       "extends (fmupd (nt_key n) ?v (st_notes st)) m" by auto
  have "note_shown n m" using extendsD[OF m(3), of "nt_key n" ?v] by (auto simp: note_shown_def)
  moreover have "extends (st_notes st) m" using extends_upd[OF _ m(3)] Cons.prems(4) by simp
  ultimately show ?case using m s batch(1) by (intro exI[of _ m]) simp
qed

subsection \<open>The property\<close>

text \<open>Everything the adventure declares is on the table of \<open>st\<close>.\<close>

definition table_holds :: "adventure \<Rightarrow> state \<Rightarrow> bool" where
  "table_holds adv st =
     (list_all (\<lambda>sc. scene_shown sc (st_scenes st)) (av_scenes adv) \<and>
      list_all (\<lambda>a. fmlookup (st_actors st) (aa_id a) = Some (build_actor a)) (av_actors adv) \<and>
      list_all (\<lambda>(sid, p). fmlookup (st_tokens st) (pl_token_id p) = Some (token_of_placement sid p)) (adventure_placements adv) \<and>
      list_all (\<lambda>n. note_shown n (st_notes st)) (av_notes adv))"

text \<open>Nothing that was on the table of \<open>st\<close> is changed.\<close>

definition table_kept :: "state \<Rightarrow> state \<Rightarrow> bool" where
  "table_kept st st' =
     (extends (st_scenes st) (st_scenes st') \<and> extends (st_actors st) (st_actors st') \<and>
      extends (st_tokens st) (st_tokens st') \<and> extends (st_notes st) (st_notes st') \<and>
      st_sessions st' = st_sessions st \<and> st_conditions st' = st_conditions st)"

lemma check_collisions_None:
  assumes "check_collisions adv st = None"
  shows "\<forall>sc \<in> set (av_scenes adv). fmlookup (st_scenes st) (as_id sc) = None"
    "\<forall>a \<in> set (av_actors adv). fmlookup (st_actors st) (aa_id a) = None"
    "\<forall>(sid, p) \<in> set (adventure_placements adv). fmlookup (st_tokens st) (pl_token_id p) = None"
    "\<forall>n \<in> set (av_notes adv). fmlookup (st_notes st) (nt_key n) = None"
  using assms by (auto simp: check_collisions_def adventure_placements_def find_None_iff split: option.splits)

lemma placed_payloads:
  "map env_payload (concat (map (\<lambda>sc. map (placed_token (as_id sc)) (as_placements sc)) scs)) =
     map (\<lambda>(sid, p). env_payload (placed_token sid p)) (scene_placements scs)"
  by (induction scs) (simp_all add: scene_placements_def)

lemma loaded_batch_folds:
  assumes fits: "adventure_fits adv" and made: "compile_adventure adv st lk = (ws, Inr envs)"
    and batch: "map env_payload batch = map env_payload envs"
  shows "\<exists>st'. apply_events st batch = Inr st' \<and> table_holds adv st' \<and> table_kept st st'"
proof -
  from made obtain scenes where free: "check_collisions adv st = None"
    and scenes: "compile_scenes (av_scenes adv) lk = (ws, Inr scenes)"
    and envs: "envs = payload_only (AdventureLoaded (av_id adv) (av_name adv)) # scenes
       @ map (\<lambda>a. payload_only (ActorAdded (Some (build_actor a)))) (av_actors adv)
       @ concat (map (\<lambda>sc. map (placed_token (as_id sc)) (as_placements sc)) (av_scenes adv))
       @ map note_envelope (av_notes adv)
       @ [payload_only (NarrationAdded \<lparr>na_text = av_opening adv, na_as = [], na_anchor_from = 0, na_anchor_to = 0,
            na_out_of_character = False\<rparr>)]"
    by (auto simp: compile_adventure_def split: option.splits prod.splits sum.splits)
  from batch obtain e1 b1 b2 b3 b4 e2 where b: "batch = e1 # b1 @ b2 @ b3 @ b4 @ [e2]"
    and p: "env_payload e1 = Some (AdventureLoaded (av_id adv) (av_name adv))" "map env_payload b1 = map env_payload scenes"
      "map env_payload b2 = map (\<lambda>a. Some (ActorAdded (Some (build_actor a)))) (av_actors adv)"
      "map env_payload b3 = map (\<lambda>(sid, p). env_payload (placed_token sid p)) (adventure_placements adv)"
      "map env_payload b4 = map (\<lambda>n. env_payload (note_envelope n)) (av_notes adv)"
      "env_payload e2 = Some (NarrationAdded \<lparr>na_text = av_opening adv, na_as = [], na_anchor_from = 0, na_anchor_to = 0,
            na_out_of_character = False\<rparr>)"
    unfolding envs adventure_placements_scenes placed_payloads[symmetric]
    by (force simp: map_eq_append_conv map_eq_Cons_conv append_eq_map_conv Cons_eq_map_conv comp_def)
  note fits = fits[unfolded adventure_fits_def]
  have s1: "apply_event st e1 = Inr st"
    using fits p(1) by (simp add: apply_event_def apply_payload_def apply_adventure_loaded_def)
  obtain m1 where m1: "apply_events st b1 = Inr (st\<lparr>st_scenes := m1\<rparr>)"
    "list_all (\<lambda>sc. scene_shown sc m1) (av_scenes adv)" "extends (st_scenes st) m1"
    using fold_scenes[OF scenes p(2) _ _ check_collisions_None(1)[OF free]] fits by blast
  obtain m2 where m2: "apply_events (st\<lparr>st_scenes := m1\<rparr>) b2 = Inr (st\<lparr>st_scenes := m1, st_actors := m2\<rparr>)"
    "list_all (\<lambda>a. fmlookup m2 (aa_id a) = Some (build_actor a)) (av_actors adv)" "extends (st_actors st) m2"
    using fold_actors[OF p(3), of "st\<lparr>st_scenes := m1\<rparr>"] check_collisions_None(2)[OF free] fits by auto
  have ready: "\<forall>(sid, q) \<in> set (adventure_placements adv). \<not> bad_id (pl_token_id q) \<and> fmlookup m1 sid \<noteq> None \<and>
      fmlookup m2 (pl_actor_id q) \<noteq> None \<and> fmlookup (st_tokens st) (pl_token_id q) = None"
  proof (intro ballI, clarify)
    fix sid q assume q: "(sid, q) \<in> set (adventure_placements adv)"
    then obtain sc where sc: "sc \<in> set (av_scenes adv)" "sid = as_id sc" by (auto simp: adventure_placements_def)
    from m1(2) sc have "fmlookup m1 sid \<noteq> None" by (auto simp: list_all_iff scene_shown_def)
    moreover have "\<not> bad_id (pl_token_id q)" "pl_actor_id q \<in> aa_id ` set (av_actors adv)" using fits q by auto
    moreover from this(2) m2(2) have "fmlookup m2 (pl_actor_id q) \<noteq> None" by (auto simp: list_all_iff)
    moreover have "fmlookup (st_tokens st) (pl_token_id q) = None" using check_collisions_None(3)[OF free] q by auto
    ultimately show "\<not> bad_id (pl_token_id q) \<and> fmlookup m1 sid \<noteq> None \<and> fmlookup m2 (pl_actor_id q) \<noteq> None \<and>
      fmlookup (st_tokens st) (pl_token_id q) = None" by blast
  qed
  obtain m3 where m3: "apply_events (st\<lparr>st_scenes := m1, st_actors := m2\<rparr>) b3 =
       Inr (st\<lparr>st_scenes := m1, st_actors := m2, st_tokens := m3\<rparr>)"
    "list_all (\<lambda>(sid, p). fmlookup m3 (pl_token_id p) = Some (token_of_placement sid p)) (adventure_placements adv)"
    "extends (st_tokens st) m3"
    using fold_tokens[OF p(4), of "st\<lparr>st_scenes := m1, st_actors := m2\<rparr>"] ready fits by auto
  obtain m4 where m4: "apply_events (st\<lparr>st_scenes := m1, st_actors := m2, st_tokens := m3\<rparr>) b4 =
       Inr (st\<lparr>st_scenes := m1, st_actors := m2, st_tokens := m3, st_notes := m4\<rparr>)"
    "list_all (\<lambda>n. note_shown n m4) (av_notes adv)" "extends (st_notes st) m4"
    using fold_notes[OF p(5), of "st\<lparr>st_scenes := m1, st_actors := m2, st_tokens := m3\<rparr>"]
      check_collisions_None(4)[OF free] fits by auto
  let ?st = "st\<lparr>st_scenes := m1, st_actors := m2, st_tokens := m3, st_notes := m4\<rparr>"
  have s2: "apply_event ?st e2 = Inr ?st"
    using fits p(6) by (simp add: apply_event_def apply_payload_def apply_narration_added_def Let_def)
  have "apply_events st batch = Inr ?st"
    unfolding b by (simp add: s1 s2 m1(1) m2(1) m3(1) m4(1) apply_events_append)
  then show ?thesis using m1 m2 m3 m4 by (intro exI[of _ ?st]) (simp add: table_holds_def table_kept_def)
qed


definition demo_dir :: adventure_dir where
  "demo_dir =
     \<lparr>dd_fault = None,
      dd_manifest = Inr \<lparr>mf_id = ''rats'', mf_name = ''Rats'', mf_format_version = ''1'', mf_ruleset = ''r'', mf_opening = ''Squeak.''\<rparr>,
      dd_actors = \<lparr>jd_entries = Inr [(''rat.json'', False)], jd_decode = (\<lambda>p. Inr \<lparr>ra_actor_id = ''rat'', ra_name = ''Rat'',
        ra_kind = ''non_party'', ra_attributes = fmempty, ra_resources = fmempty\<rparr>)\<rparr>,
      dd_art = Some DirMissing,
      dd_scenes = \<lparr>jd_entries = Inr [(''cellar.json'', False)], jd_decode = (\<lambda>p. Inr \<lparr>rsc_id = ''cellar'', rsc_name = ''Cellar'',
        rsc_grid_width = 2, rsc_grid_height = 2, rsc_tiles = fmempty, rsc_overrides = fmempty, rsc_objects = [],
        rsc_placements = [\<lparr>pl_token_id = ''t1'', pl_actor_id = ''rat'', pl_x = 1, pl_y = 1, pl_name = [], pl_notes = [],
          pl_gm_name = [], pl_gm_notes = []\<rparr>]\<rparr>)\<rparr>,
      dd_notes = \<lparr>jd_entries = Inl DirMissing, jd_decode = (\<lambda>p. Inl [])\<rparr>\<rparr>"

definition no_rules :: ruleset where
  "no_rules = \<lparr>rs_id = ''r'', rs_name = ''R'', rs_format_version = ''2'', rs_properties = [], rs_conditions = fmempty,
     rs_guide = [], rs_atoms = fmempty, rs_compiled = fmempty\<rparr>"

definition no_art :: art_lookup where
  "no_art aid = Inl (ErrNoArtDirectory (shown aid))"

definition demo_adventure :: adventure where
  "demo_adventure =
     \<lparr>av_id = ''rats'', av_name = ''Rats'', av_ruleset_id = ''r'', av_opening = ''Squeak.'',
      av_scenes = [\<lparr>as_id = ''cellar'', as_name = ''Cellar'', as_grid_w = 2, as_grid_h = 2, as_tiles = fmempty,
        as_overrides = fmempty, as_objects = [],
        as_placements = [\<lparr>pl_token_id = ''t1'', pl_actor_id = ''rat'', pl_x = 1, pl_y = 1, pl_name = [], pl_notes = [],
          pl_gm_name = [], pl_gm_notes = []\<rparr>]\<rparr>],
      av_actors = [\<lparr>aa_id = ''rat'', aa_name = ''Rat'', aa_kind = KIND_NON_PARTY, aa_attributes = fmempty, aa_resources = fmempty\<rparr>],
      av_notes = []\<rparr>"

lemma demo_loads_under:
  assumes "rs_id rs = ''r''"
  shows "load_adventure demo_dir rs no_art = Inr demo_adventure"
proof -
  have "file_ext ''rat.json'' = ''.json''" "file_ext ''cellar.json'' = ''.json''" by code_simp+
  with assms show ?thesis
    by (simp add: demo_dir_def load_adventure_def manifest_error_def first_error.simps required_within_def
        load_actors_def json_files_in_def decode_strict_def actor_error_def actor_kind_named_def art_dir_error_def
        load_scenes_def scene_error_def Let_def check_every_square_def check_inside_grid_def check_tile_names_def
        check_overrides_tiles_def build_scene_created_def as_map_def scene_of_raw_def load_notes_def standard_tile_def
        demo_adventure_def)
qed

lemma demo_loads: "load_adventure demo_dir no_rules no_art = Inr demo_adventure"
  by (rule demo_loads_under) (simp add: no_rules_def)

lemma demo_compiles: "\<exists>ws envs. compile_adventure demo_adventure new_state no_art = (ws, Inr envs)"
  by (simp add: compile_adventure_def check_collisions_def demo_adventure_def new_state_def build_scene_created_def
      Let_def as_map_def)


end
