(* ===== verification/Rules_Load_Props.thy ===== *)
theory Rules_Load_Props
  imports Rules_Load Compose_Props Adventure_Props
begin

text \<open>
  What a ruleset that loads is worth: \<open>rules_sound\<close>, the facts of ids, references, expressions and costs that
  the engine, the compiler and \<open>Resolve\<close> count on. With them the table plays: an adventure loaded under a loaded
  ruleset folds onto a state, and so does whatever is done on it with the ruleset's abilities.
\<close>

declare first_error.simps [simp del]

subsection \<open>The promises\<close>

definition single_ok :: "(string, string) fmap \<Rightarrow> expr \<Rightarrow> bool" where
  "single_ok types e =
     (wf_node (ex_root e) \<and> \<not> expr_has_dice e \<and>
      (\<forall>rf \<in> set (expr_scoped_refs e). sr_scope rf = ScopeNone \<and>
         fmlookup types (sr_name rf) = Some (if sr_sigil rf = CHR ''#'' then PropertyResource else PropertyNumber)))"

definition resource_def_sound :: "ruleset \<Rightarrow> resource_def \<Rightarrow> bool" where
  "resource_def_sound rs d =
     ((\<forall>e. rd_default_max d = Some e \<longrightarrow> single_ok (property_types rs) e) \<and>
      (\<forall>th \<in> set (rd_thresholds d). single_ok (property_types rs) (th_when th) \<and>
         fmlookup (rs_conditions rs) (th_apply th) \<noteq> None))"

definition property_sound :: "ruleset \<Rightarrow> rule_property \<Rightarrow> bool" where
  "property_sound rs p =
     (\<not> bad_id (pr_key p) \<and> is_valid_ident_name (pr_key p) \<and> \<not> reserved_scope_word (pr_key p) \<and>
      pr_name p \<noteq> [] \<and> pr_description p \<noteq> [] \<and>
      (case pr_resource p of
         None \<Rightarrow> pr_type p = PropertyNumber
       | Some d \<Rightarrow> pr_type p = PropertyResource \<and> resource_def_sound rs d))"

definition condition_sound :: "string \<Rightarrow> rule_condition \<Rightarrow> bool" where
  "condition_sound k c = (cn_id c = k \<and> \<not> bad_id k \<and> \<not> reserved_scope_word k)"

text \<open>The texts of a contribution that a composition's bindings are substituted into.\<close>

definition templates :: "contribution \<Rightarrow> string list" where
  "templates c =
     [cb_range_src c, cb_max_targets_src c, cb_roll_src c, cb_vs_src c] @
     concat (map (\<lambda>t. [et_resource_src t, et_delta_src t, et_apply_src t, et_remove_src t]) (cb_effects c))"

definition contribution_sound :: "string set \<Rightarrow> contribution \<Rightarrow> bool" where
  "contribution_sound params c =
     (cb_kind c \<in> {''targeting'', ''resolution'', ''outcome''} \<and>
      (\<forall>src \<in> set (templates c). set (placeholders src) \<subseteq> params) \<and>
      scope_placeholder (cb_roll_src c) = None \<and> scope_placeholder (cb_vs_src c) = None \<and>
      (\<forall>t \<in> set (cb_effects c). scope_placeholder (et_delta_src t) = None) \<and>
      (cb_kind c = ''resolution'' \<longrightarrow> fst (cb_branches c) \<noteq> snd (cb_branches c) \<and>
         \<not> reserved_branch (fst (cb_branches c)) \<and> \<not> reserved_branch (snd (cb_branches c))))"

definition atom_sound :: "string \<Rightarrow> atom_def \<Rightarrow> bool" where
  "atom_sound k a =
     (ad_id a = k \<and> k \<noteq> [] \<and> ad_contributes a \<noteq> [] \<and> distinct (map pd_name (ad_params a)) \<and>
      (\<forall>p \<in> set (ad_params a). is_valid_ident_name (pd_name p) \<and> valid_param_kind (pd_kind p)) \<and>
      (\<forall>c \<in> set (ad_contributes a). contribution_sound (pd_name ` set (ad_params a)) c) \<and>
      check_atom_contribution_keys (ad_provides a) (ad_consumes a) 0 (ad_contributes a) = None)"

definition rules_sound :: "ruleset \<Rightarrow> bool" where
  "rules_sound rs =
     (distinct (map pr_key (rs_properties rs)) \<and> (\<forall>p \<in> set (rs_properties rs). property_sound rs p) \<and>
      (\<forall>k c. fmlookup (rs_conditions rs) k = Some c \<longrightarrow> condition_sound k c) \<and>
      (\<forall>k a. fmlookup (rs_atoms rs) k = Some a \<longrightarrow> atom_sound k a) \<and>
      (\<forall>k cp. fmlookup (rs_compiled rs) k = Some cp \<longrightarrow>
         cp_id cp = k \<and> power_ok cp \<and> power_sound rs (property_types rs) cp))"

subsection \<open>Checks that passed\<close>

lemma case_sum_passes [simp]:
  "(case x of Inl a \<Rightarrow> Inl (f a) | Inr b \<Rightarrow> g b) = Inr y \<longleftrightarrow> (\<exists>b. x = Inr b \<and> g b = Inr y)"
  by (cases x) simp_all

lemma case_option_passes [simp]:
  "(case x of None \<Rightarrow> Inl e | Some v \<Rightarrow> g v) = Inr y \<longleftrightarrow> (\<exists>v. x = Some v \<and> g v = Inr y)"
  by (cases x) simp_all

lemma case_error_passes [simp]:
  "(case x of None \<Rightarrow> z | Some e \<Rightarrow> Inl (f e)) = Inr y \<longleftrightarrow> x = None \<and> z = Inr y"
  by (cases x) simp_all

subsection \<open>Expressions of one actor\<close>

lemma set_first_occurrences [simp]: "set (first_occurrences xs) = set xs"
  by (simp add: first_occurrences_def)

lemma scoped_walk_sigil: "rf \<in> set (scoped_walk n) \<Longrightarrow> sr_sigil rf = CHR ''@'' \<or> sr_sigil rf = CHR ''#''"
  by (induction n) auto

lemma check_names_None: "check_names path field want types ks = None \<longleftrightarrow> (\<forall>k \<in> set ks. fmlookup types k = Some want)"
  by (induction ks) (auto simp: check_property_ref_def split: sum.splits option.splits if_splits)

definition unscoped :: "expr \<Rightarrow> bool" where
  "unscoped e = (wf_node (ex_root e) \<and> \<not> expr_has_dice e \<and> (\<forall>rf \<in> set (expr_scoped_refs e). sr_scope rf = ScopeNone))"

lemma parse_single_Inr: "parse_single path field src = Inr e \<Longrightarrow> unscoped e"
  using parse_string_cases[of src]
  by (auto simp: parse_single_def unscoped_def has_scoped_ref_def expr_scopes_def expr_scoped_refs_def scopes_walk_scoped
      list_ex_iff split: sum.splits if_splits)

lemma refs_declared:
  assumes "unscoped e" and "check_expr_refs path field (Some e) types = None"
  shows "single_ok types e"
proof -
  have refs: "expr_refs e = (first_occurrences (named_by CHR ''@'' (expr_scoped_refs e)),
      first_occurrences (named_by CHR ''#'' (expr_scoped_refs e)))"
    by (simp add: expr_scoped_refs_def expr_refs_def refs_walk_scoped fold_add_ref)
  have "\<forall>k \<in> set (named_by CHR ''@'' (expr_scoped_refs e)). fmlookup types k = Some PropertyNumber"
    "\<forall>k \<in> set (named_by CHR ''#'' (expr_scoped_refs e)). fmlookup types k = Some PropertyResource"
    using assms(2) by (auto simp: check_expr_refs_def refs first_error_None check_names_None)
  then have "fmlookup types (sr_name rf) = Some (if sr_sigil rf = CHR ''#'' then PropertyResource else PropertyNumber)"
    if "rf \<in> set (expr_scoped_refs e)" for rf
    using that scoped_walk_sigil[of rf "ex_root e"] by (auto simp: named_by_def expr_scoped_refs_def)
  with assms(1) show ?thesis by (simp add: single_ok_def unscoped_def)
qed

subsection \<open>The manifest\<close>

definition property_loaded :: "rule_property \<Rightarrow> bool" where
  "property_loaded p =
     (\<not> bad_id (pr_key p) \<and> is_valid_ident_name (pr_key p) \<and> \<not> reserved_scope_word (pr_key p) \<and>
      pr_name p \<noteq> [] \<and> pr_description p \<noteq> [] \<and>
      (case pr_resource p of
         None \<Rightarrow> pr_type p = PropertyNumber
       | Some d \<Rightarrow> pr_type p = PropertyResource \<and> (\<forall>e. rd_default_max d = Some e \<longrightarrow> unscoped e) \<and>
           (\<forall>th \<in> set (rd_thresholds d). unscoped (th_when th))))"

lemma load_threshold_unscoped: "load_threshold path field th = Inr t \<Longrightarrow> unscoped (th_when t)"
  by (fastforce simp: load_threshold_def split: if_splits option.splits elim: parse_single_Inr)

lemma load_thresholds_unscoped: "load_thresholds path field j ths = Inr ts \<Longrightarrow> \<forall>t \<in> set ts. unscoped (th_when t)"
  by (induction ths arbitrary: j ts) (auto dest: load_threshold_unscoped)

lemma load_resource_def_unscoped:
  assumes "load_resource_def path field p = Inr d"
  shows "(\<forall>e. rd_default_max d = Some e \<longrightarrow> unscoped e) \<and> (\<forall>th \<in> set (rd_thresholds d). unscoped (th_when th))"
  using assms parse_single_Inr load_thresholds_unscoped
  by (fastforce simp: load_resource_def_def map_sum_def split: option.splits sum.splits)

lemma load_property_loaded:
  assumes "load_property path field p = Inr made" and "\<not> bad_id (pj_key p)" and "is_valid_ident_name (pj_key p)"
    and "\<not> reserved_scope_word (pj_key p)"
  shows "property_loaded made \<and> pr_key made = pj_key p"
  using assms
  by (auto simp: load_property_def property_loaded_def Let_def dest: load_resource_def_unscoped split: if_splits)

lemma bounds_None: "check_manifest_bounds path i ps = None \<longleftrightarrow> (\<forall>p \<in> set ps. length (pj_key p) \<le> max_id_bytes)"
  by (induction ps arbitrary: i) auto

lemma load_properties_loaded:
  assumes "load_properties path i seen ps = Inr props" and "\<forall>p \<in> set ps. length (pj_key p) \<le> max_id_bytes"
  shows "distinct (map pr_key props) \<and> pr_key ` set props \<inter> seen = {} \<and> (\<forall>p \<in> set props. property_loaded p)"
  using assms
proof (induction ps arbitrary: i seen props)
  case (Cons p ps)
  let ?field = "indexed ''properties'' i []"
  obtain made rest where
    key: "check_property_key path (?field @ ''.key'') (pj_key p) seen = None"
    and made: "load_property path ?field p = Inr made"
    and rest: "load_properties path (Suc i) (insert (pj_key p) seen) ps = Inr rest" and props: "props = made # rest"
    using Cons.prems(1) by (auto simp: Let_def)
  have k: "\<not> bad_id (pj_key p)" "is_valid_ident_name (pj_key p)" "\<not> reserved_scope_word (pj_key p)" "pj_key p \<notin> seen"
    using key Cons.prems(2) by (simp_all add: check_property_key_def first_error_None not_bad_id)
  from load_property_loaded[OF made k(1-3)] Cons.IH[OF rest] Cons.prems(2) k(4) props show ?case by auto
qed simp

lemma load_manifest_loaded:
  assumes "load_manifest file = Inr mf"
  shows "distinct (map pr_key (lm_properties mf)) \<and> (\<forall>p \<in> set (lm_properties mf). property_loaded p)"
proof -
  obtain mx raw props where "file = Inr mx" "mx_strict mx = Inr raw"
    "check_manifest_bounds ''ruleset.json'' 0 (mj_properties raw) = None"
    and props: "load_properties ''ruleset.json'' 0 {} (mj_properties raw) = Inr props" "lm_properties mf = props"
    using assms by (auto simp: load_manifest_def Let_def first_error_None split: sum.splits)
  with load_properties_loaded[OF props(1)] show ?thesis by (simp add: bounds_None)
qed

subsection \<open>Conditions and compositions\<close>

lemma load_conditions_sound:
  assumes "load_conditions_from d out paths = Inr cs" and "\<forall>k c. fmlookup out k = Some c \<longrightarrow> condition_sound k c"
  shows "\<forall>k c. fmlookup cs k = Some c \<longrightarrow> condition_sound k c"
  using assms
proof (induction paths arbitrary: out)
  case (Cons path paths)
  then obtain raw where raw: "condition_error path raw out = None"
    and rest: "load_conditions_from d (fmupd (cj_id raw)
      \<lparr>cn_id = cj_id raw, cn_name = cj_name raw, cn_description = cj_description raw\<rparr> out) paths = Inr cs" by auto
  from raw have "\<not> bad_id (cj_id raw)" "\<not> reserved_scope_word (cj_id raw)"
    by (simp_all add: condition_error_def first_error_None not_bad_id)
  with Cons.prems(2) show ?case by (intro Cons.IH[OF rest]) (auto simp: condition_sound_def)
qed simp

lemma unmarshal_usage_cost:
  "unmarshal_usage uj = Inr us \<Longrightarrow> us_limited us = Some lu \<Longrightarrow> 0 \<le> sint (lu_cost lu)"
  by (cases "unmarshal_string (uj_plain uj)") (auto simp: unmarshal_usage_def split: if_splits option.split_asm)

lemma decode_composition_cost:
  assumes "decode_composition d path = Inr (raw, us)" and "us_limited us = Some lu"
  shows "0 \<le> sint (lu_cost lu)"
proof -
  from assms obtain r uj where "kj_usage r = Some uj" "(case unmarshal_usage uj of
      Inl why \<Rightarrow> Inl (UsageFails path ''usage'' why) | Inr u \<Rightarrow> Inr (r, u)) = Inr (raw, us)"
    by (auto simp: decode_composition_def split: option.split_asm)
  with unmarshal_usage_cost[of uj us lu] assms(2) show ?thesis by (auto split: sum.split_asm)
qed

definition composition_sound :: "string \<Rightarrow> composition_ability \<Rightarrow> bool" where
  "composition_sound k ca =
     (ca_id ca = k \<and> \<not> bad_id k \<and> (\<forall>lu. us_limited (ca_usage ca) = Some lu \<longrightarrow> 0 \<le> sint (lu_cost lu)))"

lemma load_composition_sound:
  assumes "decode_composition d path = Inr decoded" and "load_composition path decoded out = Inr ca"
  shows "composition_sound (ca_id ca) ca"
proof -
  obtain raw us where dec: "decoded = (raw, us)" by fastforce
  with assms(2) obtain ens where ca: "ca = \<lparr>ca_id = kj_id raw, ca_name = kj_name raw, ca_usage = us, ca_compose = ens\<rparr>"
    and ok: "kj_id raw \<noteq> []" "length (kj_id raw) \<le> max_id_bytes"
    by (auto simp: load_composition_def first_error_None)
  with decode_composition_cost assms(1) dec show ?thesis by (auto simp: composition_sound_def not_bad_id)
qed

lemma load_compositions_sound:
  assumes "load_compositions_from d out paths = Inr cas" and "\<forall>k ca. fmlookup out k = Some ca \<longrightarrow> composition_sound k ca"
  shows "\<forall>k ca. fmlookup cas k = Some ca \<longrightarrow> composition_sound k ca"
  using assms
proof (induction paths arbitrary: out)
  case (Cons path paths)
  then obtain decoded ca where ca: "decode_composition d path = Inr decoded" "load_composition path decoded out = Inr ca"
    and rest: "load_compositions_from d (fmupd (ca_id ca) ca out) paths = Inr cas" by auto
  from load_composition_sound[OF ca] Cons.prems(2) show ?case by (intro Cons.IH[OF rest]) auto
qed simp

lemma compile_all_from:
  assumes "compile_all rs atoms comps types ks out = Inr out'" and "fmlookup out' k = Some cp"
  shows "fmlookup out k = Some cp \<or> (\<exists>ca. fmlookup comps k = Some ca \<and> compile_power rs atoms ca types = Inr cp)"
  using assms
proof (induction ks arbitrary: out)
  case (Cons j ks)
  show ?case
  proof (cases "fmlookup comps j")
    case None
    with Cons show ?thesis by simp
  next
    case (Some ca)
    with Cons.prems(1) obtain cp' where cp': "compile_power rs atoms ca types = Inr cp'"
      "compile_all rs atoms comps types ks (fmupd j cp' out) = Inr out'" by auto
    from Cons.IH[OF cp'(2) Cons.prems(2)] cp'(1) Some show ?thesis by (auto split: if_splits)
  qed
qed simp

subsection \<open>Atoms\<close>

lemma no_placeholders: "CHR ''{'' \<notin> set s \<Longrightarrow> placeholders s = []"
proof (induction s)
  case (Cons c s)
  then have "match_placeholder (c # s) = None" by (auto simp: match_placeholder_def)
  with Cons show ?case by (simp add: placeholders.simps[of "c # s"])
qed (simp add: placeholders.simps match_placeholder_def)

lemma brace_not_digit: "CHR ''{'' \<notin> set (show_nat n)"
  using show_nat_digits[of "CHR ''{''" n] by (auto simp: is_digit_def)

lemma placeholders_show_int [simp]: "placeholders (show_int k) = []"
  by (rule no_placeholders) (simp add: show_int_def brace_not_digit)

lemma placeholders_Nil [simp]: "placeholders [] = []"
  by (simp add: no_placeholders)

lemma check_placeholders_None [simp]:
  "check_placeholders path field src params = None \<longleftrightarrow> set (placeholders src) \<subseteq> params"
proof -
  have "check_placeholders path field src params = None \<longleftrightarrow> find (\<lambda>name. name \<notin> params) (placeholders src) = None"
    by (simp add: check_placeholders_def split: option.split)
  then show ?thesis by (auto simp: find_None_iff)
qed

lemma check_no_scope_None [simp]: "check_no_scope_placeholder path field src = None \<longleftrightarrow> scope_placeholder src = None"
  by (simp add: check_no_scope_placeholder_def)

lemma must_be_set_Inr [simp]: "must_be_set path field x = Inr v \<longleftrightarrow> x = Some v"
  by (simp add: must_be_set_def split: option.split)

lemma check_int_closed: "check_int_or_placeholder path field raw params = Inr src \<Longrightarrow> set (placeholders src) \<subseteq> params"
  by (auto simp: check_int_or_placeholder_def split: option.splits)

lemma decode_targeting_sound:
  assumes "decode_targeting path field probe params = Inr c"
  shows "contribution_sound params c"
proof -
  from assms obtain range_src max_src v w where
    "check_int_or_placeholder path (field @ ''.range'') v params = Inr range_src"
    "check_int_or_placeholder path (field @ ''.max_targets'') w params = Inr max_src"
    "c = (contribution_of ''targeting'')\<lparr>cb_range_src := range_src, cb_max_targets_src := max_src\<rparr>"
    by (auto simp: decode_targeting_def)
  with check_int_closed show ?thesis by (fastforce simp: contribution_sound_def contribution_of_def templates_def)
qed

lemma check_branches_ok:
  "check_branches path field bs = Inr (ge, lt) \<Longrightarrow> ge \<noteq> lt \<and> \<not> reserved_branch ge \<and> \<not> reserved_branch lt"
  by (auto simp: check_branches_def Let_def first_error_None branch_error_def split: list.split_asm)

lemma decode_branches_ok:
  "decode_branches path field raw = Inr (ge, lt) \<Longrightarrow> ge \<noteq> lt \<and> \<not> reserved_branch ge \<and> \<not> reserved_branch lt"
  by (auto simp: decode_branches_def Let_def dest: check_branches_ok)

lemma decode_resolution_sound: "decode_resolution path field probe params = Inr c \<Longrightarrow> contribution_sound params c"
  by (auto simp: decode_resolution_def contribution_sound_def contribution_of_def templates_def first_error_None
      dest: decode_branches_ok)

definition effect_closed :: "string set \<Rightarrow> effect_template \<Rightarrow> bool" where
  "effect_closed params t =
     (set (placeholders (et_resource_src t)) \<union> set (placeholders (et_delta_src t)) \<union> set (placeholders (et_apply_src t)) \<union>
        set (placeholders (et_remove_src t)) \<subseteq> params \<and> scope_placeholder (et_delta_src t) = None)"

lemma decode_effect_closed: "decode_effect path field oj params = Inr t \<Longrightarrow> effect_closed params t"
  by (auto simp: decode_effect_def effect_closed_def effect_of_def Let_def first_error_None split: option.splits)

lemma decode_effects_closed: "decode_effects path field i ojs params = Inr ts \<Longrightarrow> list_all (effect_closed params) ts"
  by (induction ojs arbitrary: i ts) (auto dest: decode_effect_closed)

lemma decode_outcome_sound:
  assumes "decode_outcome path field probe params = Inr c"
  shows "contribution_sound params c"
proof -
  from assms obtain key branch ojs ts where "decode_effects path field 0 ojs params = Inr ts"
    and "c = (contribution_of ''outcome'')\<lparr>cb_outcome_key := key, cb_branch := branch, cb_effects := ts\<rparr>"
    by (auto simp: decode_outcome_def split: sum.splits)
  with decode_effects_closed show ?thesis
    by (fastforce simp: contribution_sound_def templates_def contribution_of_def effect_closed_def list_all_iff)
qed

lemma decode_contribution_sound: "decode_contribution path i raw params = Inr c \<Longrightarrow> contribution_sound params c"
  by (auto simp: decode_contribution_def Let_def split: sum.splits option.splits if_splits
      intro: decode_targeting_sound decode_resolution_sound decode_outcome_sound)

lemma decode_contributions_sound:
  "decode_contributions path i raws params = Inr cs \<Longrightarrow> length cs = length raws \<and> list_all (contribution_sound params) cs"
  by (induction raws arbitrary: i cs) (auto dest: decode_contribution_sound)

lemma load_params_sound:
  "load_params path i seen ps = Inr pds \<Longrightarrow> distinct (map pd_name pds) \<and> pd_name ` set pds \<inter> seen = {} \<and>
     (\<forall>p \<in> set pds. is_valid_ident_name (pd_name p) \<and> valid_param_kind (pd_kind p))"
proof (induction ps arbitrary: i seen pds)
  case (Cons p ps)
  then obtain rest where rest: "load_params path (Suc i) (insert (mp_name p) seen) ps = Inr rest"
    and pds: "pds = \<lparr>pd_name = mp_name p, pd_kind = mp_kind p\<rparr> # rest"
    and ok: "is_valid_ident_name (mp_name p)" "mp_name p \<notin> seen" "valid_param_kind (mp_kind p)"
    by (auto simp: Let_def first_error_None)
  from Cons.IH[OF rest] ok show ?case by (auto simp: pds)
qed simp

lemma load_atom_sound:
  assumes "load_atom path raw out = Inr a"
  shows "atom_sound (aj_id raw) a"
proof -
  from assms obtain params cs where
    params: "load_params path 0 {} (aj_params raw) = Inr params"
    and cs: "decode_contributions path 0 (aj_contributes raw) (pd_name ` set params) = Inr cs"
    and made: "check_atom_contribution_keys (aj_provides raw) (aj_consumes raw) 0 cs = None"
      "a = \<lparr>ad_id = aj_id raw, ad_params = params, ad_provides = aj_provides raw, ad_consumes = aj_consumes raw, ad_contributes = cs\<rparr>"
      "aj_id raw \<noteq> []" "aj_contributes raw \<noteq> []"
    by (auto simp: load_atom_def first_error_None split: option.splits)
  from load_params_sound[OF params] decode_contributions_sound[OF cs] made show ?thesis
    by (auto simp: atom_sound_def list_all_iff)
qed

lemma load_atoms_sound:
  assumes "load_atoms_from d out paths = Inr atoms" and "\<forall>k a. fmlookup out k = Some a \<longrightarrow> atom_sound k a"
  shows "\<forall>k a. fmlookup atoms k = Some a \<longrightarrow> atom_sound k a"
  using assms
proof (induction paths arbitrary: out)
  case (Cons path paths)
  then obtain raw a where a: "load_atom path raw out = Inr a"
    and rest: "load_atoms_from d (fmupd (aj_id raw) a out) paths = Inr atoms" by auto
  from load_atom_sound[OF a] Cons.prems(2) show ?case by (intro Cons.IH[OF rest]) auto
qed simp

subsection \<open>References\<close>

lemma check_thresholds_None:
  assumes "check_thresholds rs types field j ths = None" and "\<forall>th \<in> set ths. unscoped (th_when th)"
  shows "\<forall>th \<in> set ths. single_ok types (th_when th) \<and> fmlookup (rs_conditions rs) (th_apply th) \<noteq> None"
  using assms
proof (induction ths arbitrary: j)
  case (Cons th ths)
  let ?at = "indexed (field @ ''.thresholds'') j []"
  from Cons.prems(1) have refs: "check_expr_refs ''ruleset.json'' (?at @ ''.when'') (Some (th_when th)) types = None"
    and cond: "fmlookup (rs_conditions rs) (th_apply th) \<noteq> None"
    and rest: "check_thresholds rs types field (Suc j) ths = None" by (simp_all add: Let_def first_error_None)
  from refs_declared[OF _ refs] cond Cons.IH[OF rest] Cons.prems(2) show ?case by simp
qed simp

lemma cross_validate_sound:
  assumes "cross_validate_from rs (property_types rs) i ps = None" and "\<forall>p \<in> set ps. property_loaded p"
  shows "\<forall>p \<in> set ps. property_sound rs p"
  using assms
proof (induction ps arbitrary: i)
  case (Cons p ps)
  from Cons.prems(1) have rest: "cross_validate_from rs (property_types rs) (Suc i) ps = None" by (simp add: first_error_None)
  have "property_sound rs p"
  proof (cases "pr_resource p")
    case None
    with Cons.prems(2) show ?thesis by (simp add: property_loaded_def property_sound_def)
  next
    case (Some d)
    with Cons.prems have refs: "check_expr_refs ''ruleset.json'' (indexed ''properties'' i ''.default_max_expr'')
          (rd_default_max d) (property_types rs) = None"
      and ths: "check_thresholds rs (property_types rs) (indexed ''properties'' i []) 0 (rd_thresholds d) = None"
      and p: "property_loaded p" by (simp_all add: first_error_None)
    from p Some have "\<forall>e. rd_default_max d = Some e \<longrightarrow> unscoped e" "\<forall>th \<in> set (rd_thresholds d). unscoped (th_when th)"
      by (simp_all add: property_loaded_def)
    moreover have "single_ok (property_types rs) e" if "rd_default_max d = Some e" for e
      using calculation(1) that refs by (auto intro: refs_declared)
    ultimately have "resource_def_sound rs d"
      using check_thresholds_None[OF ths] unfolding resource_def_sound_def by blast
    with p Some show ?thesis by (simp add: property_loaded_def property_sound_def)
  qed
  with Cons.IH[OF rest] Cons.prems(2) show ?case by simp
qed simp

subsection \<open>A loaded ruleset\<close>

lemma outcome_sound_compiled [simp]: "outcome_sound (rs\<lparr>rs_compiled := c\<rparr>) types oc = outcome_sound rs types oc"
  by (cases oc) simp_all

lemma property_types_compiled [simp]: "property_types (rs\<lparr>rs_compiled := c\<rparr>) = property_types rs"
  by (simp add: property_types_def)

lemma power_sound_compiled [simp]: "power_sound (rs\<lparr>rs_compiled := c\<rparr>) types cp = power_sound rs types cp"
  by (simp add: power_sound_def)

lemma property_sound_compiled [simp]: "property_sound (rs\<lparr>rs_compiled := c\<rparr>) p = property_sound rs p"
  by (simp add: property_sound_def resource_def_sound_def split: option.split)

lemma compiled_power_ok:
  assumes "compile_power rs atoms ca types = Inr cp" and "composition_sound k ca"
    and "\<forall>k c. fmlookup (rs_conditions rs) k = Some c \<longrightarrow> condition_sound k c"
  shows "cp_id cp = k \<and> power_ok cp"
proof -
  from compile_powerE[OF assms(1)] have id: "cp_id cp = ca_id ca" "cp_usage cp = ca_usage ca" by metis+
  have "outcome_ok oc" if "outcome_sound rs types oc" for oc
    using that assms(3) by (cases oc) (auto simp: condition_sound_def)
  with compile_power_sound[OF assms(1)] have "list_all outcome_ok (fst (cp_branch_outcomes cp))"
    "list_all outcome_ok (snd (cp_branch_outcomes cp))" "list_all outcome_ok (cp_effects cp)"
    by (auto simp: power_sound_def list_all_iff)
  with id assms(2) show ?thesis by (simp add: composition_sound_def power_ok_def)
qed

lemma load_v2E:
  assumes "load_v2 d mf = Inr rs"
  obtains conditions atoms cas guide base compiled where
    "load_conditions (rx_conditions d) = Inr conditions" "load_atoms (rx_atoms d) = Inr atoms"
    "load_compositions (rx_abilities d) = Inr cas"
    "base = \<lparr>rs_id = lm_id mf, rs_name = lm_name mf, rs_format_version = lm_format_version mf,
       rs_properties = lm_properties mf, rs_conditions = conditions, rs_guide = guide, rs_atoms = atoms,
       rs_compiled = fmempty\<rparr>"
    "cross_validate_resources base = None" "compile_compositions base atoms cas = Inr compiled"
    "rs = base\<lparr>rs_compiled := compiled\<rparr>"
proof -
  obtain guide where guide: "rx_guide d = Inr guide" using assms by (cases "rx_guide d") (auto simp: load_v2_def)
  with assms obtain conditions atoms cas where parts:
    "load_conditions (rx_conditions d) = Inr conditions" "load_compositions (rx_abilities d) = Inr cas"
    "load_atoms (rx_atoms d) = Inr atoms" "rx_guide d = Inr guide"
    by (auto simp: load_v2_def)
  let ?base = "\<lparr>rs_id = lm_id mf, rs_name = lm_name mf, rs_format_version = lm_format_version mf,
       rs_properties = lm_properties mf, rs_conditions = conditions, rs_guide = guide, rs_atoms = atoms,
       rs_compiled = fmempty\<rparr>"
  from assms parts obtain compiled where "cross_validate_resources ?base = None"
    "compile_compositions ?base atoms cas = Inr compiled" "rs = ?base\<lparr>rs_compiled := compiled\<rparr>"
    by (auto simp: load_v2_def Let_def split: sum.split_asm)
  with parts show thesis by (intro that) auto
qed

lemma load_ruleset_sound:
  assumes "load_ruleset d = Inr rs"
  shows "rules_sound rs"
proof -
  obtain mf where mf: "load_manifest (rx_manifest d) = Inr mf" and rest: "load_v2 d mf = Inr rs"
    using assms by (auto simp: load_ruleset_def split: sum.splits if_splits)
  note props = load_manifest_loaded[OF mf]
  from load_v2E[OF rest] obtain conditions atoms cas guide base compiled where
    conds: "load_conditions (rx_conditions d) = Inr conditions" and atoms: "load_atoms (rx_atoms d) = Inr atoms" and cas: "load_compositions (rx_abilities d) = Inr cas"
    and base: "base = \<lparr>rs_id = lm_id mf, rs_name = lm_name mf, rs_format_version = lm_format_version mf,
       rs_properties = lm_properties mf, rs_conditions = conditions, rs_guide = guide, rs_atoms = atoms,
       rs_compiled = fmempty\<rparr>"
    and cross: "cross_validate_resources base = None" and comp: "compile_compositions base atoms cas = Inr compiled"
    and rs: "rs = base\<lparr>rs_compiled := compiled\<rparr>" by metis
  have cs: "\<forall>k c. fmlookup (rs_conditions base) k = Some c \<longrightarrow> condition_sound k c"
    using conds load_conditions_sound[of _ fmempty] base by (fastforce simp: load_conditions_def)
  have as: "\<forall>k a. fmlookup (rs_atoms base) k = Some a \<longrightarrow> atom_sound k a"
    using atoms load_atoms_sound[of _ fmempty] base by (fastforce simp: load_atoms_def)
  have ps: "\<forall>p \<in> set (rs_properties base). property_sound base p"
    using cross cross_validate_sound props base by (auto simp: cross_validate_resources_def)
  have cp: "cp_id cp = k \<and> power_ok cp \<and> power_sound base (property_types base) cp"
    if "fmlookup compiled k = Some cp" for k cp
  proof -
    from compile_all_from[OF comp[unfolded compile_compositions_def] that] obtain ca where
      ca: "fmlookup cas k = Some ca" "compile_power base atoms ca (property_types base) = Inr cp" by auto
    have "composition_sound k ca"
      using cas load_compositions_sound[of _ fmempty] ca(1) by (fastforce simp: load_compositions_def)
    from compiled_power_ok[OF ca(2) this cs] compile_power_sound[OF ca(2)] show ?thesis by simp
  qed
  have "distinct (map pr_key (rs_properties base))" using props base by simp
  with cs as ps cp show ?thesis by (simp add: rules_sound_def rs)
qed

lemma sound_ruleset_ok:
  assumes "rules_sound rs"
  shows "ruleset_ok rs" and "\<forall>p \<in> set (rs_properties rs). \<not> bad_id (pr_key p)"
proof -
  have "list_all threshold_ok (rd_thresholds d)" if "p \<in> set (rs_properties rs)" "pr_resource p = Some d" for p d
  proof -
    from assms that have "resource_def_sound rs d" by (auto simp: rules_sound_def property_sound_def)
    moreover have "threshold_ok th" if "fmlookup (rs_conditions rs) (th_apply th) \<noteq> None" for th
      using that assms by (auto simp: rules_sound_def condition_sound_def threshold_ok_def)
    ultimately show ?thesis by (auto simp: resource_def_sound_def list_all_iff)
  qed
  with assms show "ruleset_ok rs" by (simp add: ruleset_ok_def rules_sound_def)
  from assms show "\<forall>p \<in> set (rs_properties rs). \<not> bad_id (pr_key p)" by (simp add: rules_sound_def property_sound_def)
qed

text \<open>C35: A ruleset that loads is sound: its property keys are distinct identifiers of 1 to 128 bytes, none a
  scope word, each a number or a resource; every default maximum and threshold of a resource parsed into the
  closed grammar, without dice or scopes, and reads only declared properties of the sigil's type; every
  condition a threshold, an ability or an effect names is declared, its id of 1 to 128 bytes; and every ability
  stands under its own id, costs nothing negative, and its expressions read only declared properties, each of
  the sigil's type and through a caster or target scope.\<close>

theorem loaded_ruleset_is_sound:
  assumes "load_ruleset d = Inr rs"
  shows "rules_sound rs"
  using load_ruleset_sound[OF assms] .

definition demo_rule_files :: rules_dir where
  "demo_rule_files =
     \<lparr>rx_stat = Inr True,
      rx_manifest = Inr \<lparr>mx_probe = Some (Some (RawString ''3'')),
        mx_strict = Inr \<lparr>mj_id = ''r'', mj_name = ''R'', mj_format_version = ''3'',
          mj_properties = [\<lparr>pj_key = ''hp'', pj_type = ''resource'', pj_name = ''Hp'', pj_description = ''Health'',
            pj_default_max_expr = Some ''10'',
            pj_thresholds = Some [\<lparr>tj_when = ''#hp/0'', tj_apply_condition = ''down'', tj_remove_when_false = Some True\<rparr>]\<rparr>]\<rparr>\<rparr>,
      rx_conditions = \<lparr>jd_entries = Inr [(''down.json'', False)],
        jd_decode = (\<lambda>p. Inr \<lparr>cj_id = ''down'', cj_name = ''Down'', cj_description = []\<rparr>)\<rparr>,
      rx_atoms = \<lparr>jd_entries = Inr [(''harm.json'', False)],
        jd_decode = (\<lambda>p. Inr \<lparr>aj_id = ''harm'', aj_params = [\<lparr>mp_name = ''amount'', mp_kind = ''int''\<rparr>],
          aj_provides = [], aj_consumes = [],
          aj_contributes = [Inr (fmap_of_list
            [(''kind'', \<lparr>rv_plain = RawString ''targeting'', rv_strings = None, rv_effects = Inl []\<rparr>),
             (''range'', \<lparr>rv_plain = RawString ''{amount}'', rv_strings = None, rv_effects = Inl []\<rparr>),
             (''max_targets'', \<lparr>rv_plain = RawInt 1, rv_strings = None, rv_effects = Inl []\<rparr>)])]\<rparr>)\<rparr>,
      rx_abilities = \<lparr>jd_entries = Inr [(''poke.json'', False)],
        jd_decode = (\<lambda>p. Inr \<lparr>kj_id = ''poke'', kj_name = ''Poke'',
          kj_usage = Some \<lparr>uj_plain = RawString ''at_will'', uj_object = Inl []\<rparr>,
          kj_compose = [\<lparr>ej_atom = ''harm'', ej_bind = Some (Inr (fmap_of_list [(''amount'', RawInt 2)]))\<rparr>]\<rparr>)\<rparr>,
      rx_guide = Inr ''Play.''\<rparr>"

lemma demo_rules_load:
  "\<exists>rs. load_ruleset demo_rule_files = Inr rs \<and> rs_id rs = ''r'' \<and> fmlookup (rs_compiled rs) ''poke'' \<noteq> None \<and>
     map (\<lambda>p. (pr_key p, pr_type p)) (rs_properties rs) = [(''hp'', ''resource'')] \<and>
     map (map_option rd_thresholds \<circ> pr_resource) (rs_properties rs) =
       [Some [\<lparr>th_when = \<lparr>ex_root = NBin CHR ''/'' (NRes ''hp'' ScopeNone) (NInt 0), ex_src = ''#hp/0''\<rparr>,
          th_when_src = ''#hp/0'', th_apply = ''down'', th_remove_when_false = True\<rparr>]]"
proof -
  have "(case load_ruleset demo_rule_files of
      Inl err \<Rightarrow> False
    | Inr rs \<Rightarrow> rs_id rs = ''r'' \<and> fmlookup (rs_compiled rs) ''poke'' \<noteq> None \<and>
        map (\<lambda>p. (pr_key p, pr_type p)) (rs_properties rs) = [(''hp'', ''resource'')] \<and>
        map (map_option rd_thresholds \<circ> pr_resource) (rs_properties rs) =
          [Some [\<lparr>th_when = \<lparr>ex_root = NBin CHR ''/'' (NRes ''hp'' ScopeNone) (NInt 0), ex_src = ''#hp/0''\<rparr>,
             th_when_src = ''#hp/0'', th_apply = ''down'', th_remove_when_false = True\<rparr>]])"
    by code_simp
  then show ?thesis by (auto split: sum.split_asm)
qed

theorem loaded_ruleset_is_sound_witness:
  "\<exists>rs. load_ruleset demo_rule_files = Inr rs \<and> rules_sound rs \<and> fmlookup (rs_compiled rs) ''poke'' \<noteq> None"
  using demo_rules_load loaded_ruleset_is_sound by blast

subsection \<open>Play\<close>

text \<open>What a resource property evaluates while nobody records a roll.\<close>

definition resource_exprs :: "resource_def \<Rightarrow> expr set" where
  "resource_exprs d = set_option (rd_default_max d) \<union> th_when ` set (rd_thresholds d)"

lemma ref_nodes_single:
  assumes "single_ok types e" and "context_covers types ctx" and "m \<in> set (ref_nodes (ex_root e))"
  shows "\<exists>v. resolve_single (ec_attrs ctx) (ec_resources ctx) m = Inr v"
proof -
  have *: "sr_scope rf = ScopeNone"
    "fmlookup types (sr_name rf) = Some (if sr_sigil rf = CHR ''#'' then PropertyResource else PropertyNumber)"
    if "rf \<in> set (scoped_walk (ex_root e))" for rf
    using assms(1) that by (auto simp: single_ok_def expr_scoped_refs_def)
  from ref_nodes_scoped[OF assms(3)] show ?thesis
    using * assms(2) by (fastforce simp: resolve_single_def node_scope_def context_covers_def split: option.split)
qed

text \<open>C36: Thresholds and default maxima of a loaded ruleset never surprise play: for an actor that holds every
  declared property, evaluating one fails only on a division by zero, with or without a roller; never on a
  reference, a scope or a die.\<close>

theorem loaded_rules_evaluate:
  assumes "load_ruleset d = Inr rs" and "p \<in> set (rs_properties rs)" and "pr_resource p = Some def"
    and "e \<in> resource_exprs def" and "context_covers (property_types rs) ctx"
    and "eval_single e (ec_attrs ctx) (ec_resources ctx) ro r = (Inl err, r')"
  shows "err = DivisionByZero"
proof -
  have "resource_def_sound rs def"
    using load_ruleset_sound[OF assms(1)] assms(2,3) by (auto simp: rules_sound_def property_sound_def)
  then have ok: "single_ok (property_types rs) e"
    using assms(4) by (auto simp: resource_def_sound_def resource_exprs_def)
  then have "blames (resolve_single (ec_attrs ctx) (ec_resources ctx)) (ro = None) (ref_nodes (ex_root e)) False err"
    using eval_blames(1) assms(6) by (fastforce simp: single_ok_def eval_single_def expr_has_dice_def)
  with ref_nodes_single[OF ok assms(5)] show ?thesis by (fastforce simp: blames_def)
qed

theorem loaded_rules_evaluate_witness:
  "\<exists>rs p def e. load_ruleset demo_rule_files = Inr rs \<and> p \<in> set (rs_properties rs) \<and> pr_resource p = Some def \<and>
     e \<in> resource_exprs def \<and>
     (\<exists>err. eval_single e fmempty (fmupd ''hp'' 3 fmempty) (None :: nat roller option) 0 = (Inl err, 0) \<and> err = DivisionByZero)"
proof -
  let ?e = "\<lparr>ex_root = NBin CHR ''/'' (NRes ''hp'' ScopeNone) (NInt 0), ex_src = ''#hp/0''\<rparr>"
  let ?ctx = "\<lparr>ec_attrs = fmempty, ec_resources = fmupd ''hp'' 3 fmempty\<rparr>"
  obtain rs p def where rs: "load_ruleset demo_rule_files = Inr rs" "rs_properties rs = [p]" "pr_key p = ''hp''" "pr_type p = ''resource''"
    "pr_resource p = Some def" "map th_when (rd_thresholds def) = [?e]"
    using demo_rules_load by (auto simp: map_eq_Cons_conv map_option_case split: option.splits)
  have p: "p \<in> set (rs_properties rs)" by (simp add: rs(2))
  have e: "?e \<in> resource_exprs def" using rs(6) by (auto simp: resource_exprs_def map_eq_Cons_conv)
  have ctx: "context_covers (property_types rs) ?ctx"
    using rs(2-4) by (simp add: context_covers_def property_types_def)
  have run: "eval_single ?e (ec_attrs ?ctx) (ec_resources ?ctx) (None :: nat roller option) 0 = (Inl DivisionByZero, 0)"
    by (simp add: eval_single_def resolve_single_def node_scope_def apply_op_def)
  obtain err where err: "eval_single ?e (ec_attrs ?ctx) (ec_resources ?ctx) (None :: nat roller option) 0 = (Inl err, 0)"
    using run by blast
  have "err = DivisionByZero" using loaded_rules_evaluate[OF rs(1) p rs(5) e ctx err] .
  with rs(1,5) p e err show ?thesis by auto
qed

text \<open>C37: The table plays. Load a ruleset, load an adventure under it and bring it onto any well-formed table: the
  batch folds, to a well-formed table that holds all the adventure declares and keeps all there was; and on that
  table whatever any ability of the ruleset does, by any actor to any targets and with any dice, folds in turn.\<close>

theorem loaded_table_plays:
  assumes "load_ruleset rd = Inr rs" and "load_adventure ad rs lk = Inr adv"
    and "compile_adventure adv st lk' = (ws, Inr envs)" and "map env_payload batch = map env_payload envs"
    and "wf_state st"
  shows "\<exists>st'. apply_events st batch = Inr st' \<and> wf_state st' \<and> table_holds adv st' \<and> table_kept st st' \<and>
     (\<forall>cmd roller r used r'. resolve rs st' cmd roller r = (Inr used, r') \<longrightarrow>
        (\<exists>st''. apply_events st' used = Inr st'' \<and> wf_state st''))"
proof -
  note rules = sound_ruleset_ok[OF load_ruleset_sound[OF assms(1)]]
  from loaded_batch_folds[OF load_adventure_fits[OF assms(2) rules(2)] assms(3,4)] obtain st' where
    st': "apply_events st batch = Inr st'" "table_holds adv st'" "table_kept st st'" by blast
  have wf: "wf_state st'" using apply_events_wf[OF assms(5) st'(1)] .
  have "\<exists>st''. apply_events st' used = Inr st'' \<and> wf_state st''"
    if "resolve rs st' cmd roller r = (Inr used, r')" for cmd roller r used r'
    using resolve_folds[OF wf rules(1) that] by blast
  with st' wf show ?thesis by blast
qed

theorem loaded_table_plays_witness:
  "\<exists>rs envs st'. load_ruleset demo_rule_files = Inr rs \<and> load_adventure demo_dir rs no_art = Inr demo_adventure \<and>
     snd (compile_adventure demo_adventure new_state no_art) = Inr envs \<and>
     apply_events new_state envs = Inr st' \<and> wf_state st' \<and> table_holds demo_adventure st'"
proof -
  obtain rs where rs: "load_ruleset demo_rule_files = Inr rs" "rs_id rs = ''r''" using demo_rules_load by blast
  obtain ws envs where envs: "compile_adventure demo_adventure new_state no_art = (ws, Inr envs)"
    using demo_compiles by blast
  from loaded_table_plays[OF rs(1) demo_loads_under[OF rs(2)] envs refl wf_new_state] rs demo_loads_under envs
  show ?thesis by fastforce
qed

end
