(* ===== verification/Presence.thy ===== *)
theory Presence
  imports Prelude
begin

text \<open>
  \<open>internal/gateway/presence.go\<close>: who is connected, and what each connection is told of it. A connection is a
  number (the code keys the registry on its pointer). Each function holds the registry's lock from start to
  end, so it is one step; a fan-out's sends follow its choice of targets under a lock of their own. Whether a
  connection takes a frame within the send budget is \<open>room\<close>, and whether the frame could be encoded is \<open>encoded\<close>.
  The random order in which Go visits the connections is replaced by their numbers' order.
\<close>

datatype presence_frame =
    SnapshotFrame "(string \<times> string) list"
  | ConnectedFrame string string
  | DisconnectedFrame string string

record presence_conn =
  pn_participant :: string
  pn_name :: string
  pn_rejudge :: bool
  pn_queue :: "presence_frame list"

record registry =
  rg_conns :: "(nat, presence_conn) fmap"
  rg_counts :: "(string, int) fmap"

definition no_connections :: registry where
  "no_connections = \<lparr>rg_conns = fmempty, rg_counts = fmempty\<rparr>"

definition send_presence :: "(nat \<Rightarrow> bool) \<Rightarrow> presence_frame \<Rightarrow> nat \<Rightarrow> registry \<Rightarrow> registry" where
  "send_presence room f i rg =
     (case fmlookup (rg_conns rg) i of
        None \<Rightarrow> rg
      | Some c \<Rightarrow> if room i then rg\<lparr>rg_conns := fmupd i (c\<lparr>pn_queue := pn_queue c @ [f]\<rparr>) (rg_conns rg)\<rparr> else rg)"

definition send_all :: "(nat \<Rightarrow> bool) \<Rightarrow> presence_frame \<Rightarrow> nat list \<Rightarrow> registry \<Rightarrow> registry" where
  "send_all room f targets rg = fold (send_presence room f) targets rg"

text \<open>One entry for each participant, by the first of their connections.\<close>

fun present_from :: "(nat, presence_conn) fmap \<Rightarrow> string list \<Rightarrow> nat list \<Rightarrow> (string \<times> string) list" where
  "present_from conns seen [] = []"
| "present_from conns seen (i # is) =
     (case fmlookup conns i of
        None \<Rightarrow> present_from conns seen is
      | Some c \<Rightarrow>
          if pn_participant c \<in> set seen then present_from conns seen is
          else (pn_participant c, pn_name c) # present_from conns (pn_participant c # seen) is)"

definition present :: "registry \<Rightarrow> (string \<times> string) list" where
  "present rg = present_from (rg_conns rg) [] (keys (rg_conns rg))"

definition count_of :: "registry \<Rightarrow> string \<Rightarrow> int" where
  "count_of rg pid = (case fmlookup (rg_counts rg) pid of None \<Rightarrow> 0 | Some n \<Rightarrow> n)"

definition join_and_send :: "(nat \<Rightarrow> bool) \<Rightarrow> bool \<Rightarrow> nat \<Rightarrow> presence_conn \<Rightarrow> registry \<Rightarrow> registry \<times> bool" where
  "join_and_send room encoded i c rg =
     (let n = count_of rg (pn_participant c) + 1;
          rg = rg\<lparr>rg_conns := fmupd i c (rg_conns rg), rg_counts := fmupd (pn_participant c) n (rg_counts rg)\<rparr>
      in (if encoded then send_presence room (SnapshotFrame (present rg)) i rg else rg, n = 1))"

definition rejudge_all :: "string \<Rightarrow> registry \<Rightarrow> registry" where
  "rejudge_all pid rg =
     rg\<lparr>rg_conns := fmmap (\<lambda>c. if pn_participant c = pid then c\<lparr>pn_rejudge := True\<rparr> else c) (rg_conns rg)\<rparr>"

definition targets :: "nat option \<Rightarrow> string list \<Rightarrow> registry \<Rightarrow> nat list" where
  "targets except deny rg =
     filter (\<lambda>i. Some i \<noteq> except \<and>
       (case fmlookup (rg_conns rg) i of None \<Rightarrow> False | Some c \<Rightarrow> pn_participant c \<notin> set deny)) (keys (rg_conns rg))"

definition leave_registry :: "nat \<Rightarrow> registry \<Rightarrow> registry \<times> bool" where
  "leave_registry i rg =
     (case fmlookup (rg_conns rg) i of
        None \<Rightarrow> (rg, False)
      | Some c \<Rightarrow>
          let n = count_of rg (pn_participant c) - 1; rg = rg\<lparr>rg_conns := fmdrop i (rg_conns rg)\<rparr> in
          if n \<le> 0 then (rg\<lparr>rg_counts := fmdrop (pn_participant c) (rg_counts rg)\<rparr>, True)
          else (rg\<lparr>rg_counts := fmupd (pn_participant c) n (rg_counts rg)\<rparr>, False))"

definition name_in :: "string \<Rightarrow> registry \<Rightarrow> string option" where
  "name_in pid rg = map_option snd (find (\<lambda>(p, n). p = pid) (present rg))"

definition announce_if_present :: "(nat \<Rightarrow> bool) \<Rightarrow> bool \<Rightarrow> string \<Rightarrow> string list \<Rightarrow> registry \<Rightarrow> registry \<times> bool" where
  "announce_if_present room encoded pid deny rg =
     (case name_in pid rg of
        None \<Rightarrow> (rg, False)
      | Some name \<Rightarrow>
          if \<not> encoded then (rg, False)
          else (send_all room (ConnectedFrame pid name) (targets None deny rg) rg, True))"

definition announce_if_absent :: "(nat \<Rightarrow> bool) \<Rightarrow> bool \<Rightarrow> string \<Rightarrow> string \<Rightarrow> string list \<Rightarrow> registry \<Rightarrow> registry \<times> bool" where
  "announce_if_absent room encoded pid name deny rg =
     (if fmlookup (rg_counts rg) pid \<noteq> None then (rg, False)
      else if \<not> encoded then (rg, False)
      else (send_all room (DisconnectedFrame pid name) (targets None deny rg) rg, True))"

definition participant_ids :: "registry \<Rightarrow> string list" where
  "participant_ids rg = map fst (present rg)"

definition broadcast :: "(nat \<Rightarrow> bool) \<Rightarrow> nat \<Rightarrow> presence_frame \<Rightarrow> string list \<Rightarrow> registry \<Rightarrow> registry" where
  "broadcast room except f deny rg = send_all room f (targets (Some except) deny rg) rg"

subsection \<open>The connections of a server\<close>

text \<open>
  What \<open>serve\<close> does to the registry. A connection joins, then announces the arrival it caused (its own goroutine, so
  before it leaves), then leaves, and announces the departure it caused, if it was its participant's last. Whom a
  fan-out denies is settled before it takes a lock.
\<close>

record presence_table =
  pr_registry :: registry
  pr_arriving :: "nat list"
  pr_departing :: "(string \<times> string) list"

definition open_table :: presence_table where
  "open_table = \<lparr>pr_registry = no_connections, pr_arriving = [], pr_departing = []\<rparr>"

definition connects :: "(nat \<Rightarrow> bool) \<Rightarrow> bool \<Rightarrow> nat \<Rightarrow> string \<Rightarrow> string \<Rightarrow> presence_table \<Rightarrow> presence_table" where
  "connects room encoded i pid name tb =
     (case join_and_send room encoded i \<lparr>pn_participant = pid, pn_name = name, pn_rejudge = False, pn_queue = []\<rparr> (pr_registry tb) of
        (rg, first) \<Rightarrow> tb\<lparr>pr_registry := rg, pr_arriving := (if first then i # pr_arriving tb else pr_arriving tb)\<rparr>)"

definition announce_presence :: "(nat \<Rightarrow> bool) \<Rightarrow> bool \<Rightarrow> string list \<Rightarrow> nat \<Rightarrow> registry \<Rightarrow> registry" where
  "announce_presence room encoded deny i rg =
     (case fmlookup (rg_conns rg) i of
        None \<Rightarrow> rg
      | Some c \<Rightarrow> if encoded then broadcast room i (ConnectedFrame (pn_participant c) (pn_name c)) deny rg else rg)"

definition arrives :: "(nat \<Rightarrow> bool) \<Rightarrow> bool \<Rightarrow> string list \<Rightarrow> nat \<Rightarrow> presence_table \<Rightarrow> presence_table" where
  "arrives room encoded deny i tb =
     tb\<lparr>pr_registry := announce_presence room encoded deny i (pr_registry tb), pr_arriving := removeAll i (pr_arriving tb)\<rparr>"

definition leaves :: "nat \<Rightarrow> presence_table \<Rightarrow> presence_table" where
  "leaves i tb =
     (case (fmlookup (rg_conns (pr_registry tb)) i, leave_registry i (pr_registry tb)) of
        (Some c, rg, True) \<Rightarrow> tb\<lparr>pr_registry := rg, pr_departing := (pn_participant c, pn_name c) # pr_departing tb\<rparr>
      | (_, rg, _) \<Rightarrow> tb\<lparr>pr_registry := rg\<rparr>)"

definition departs :: "(nat \<Rightarrow> bool) \<Rightarrow> bool \<Rightarrow> string list \<Rightarrow> string \<Rightarrow> string \<Rightarrow> presence_table \<Rightarrow> presence_table" where
  "departs room encoded deny pid name tb =
     tb\<lparr>pr_registry := fst (announce_if_absent room encoded pid name deny (pr_registry tb)),
        pr_departing := remove1 (pid, name) (pr_departing tb)\<rparr>"

definition promotes :: "(nat \<Rightarrow> bool) \<Rightarrow> bool \<Rightarrow> string list \<Rightarrow> string \<Rightarrow> presence_table \<Rightarrow> presence_table" where
  "promotes room encoded deny pid tb =
     tb\<lparr>pr_registry := fst (announce_if_present room encoded pid deny (rejudge_all pid (pr_registry tb)))\<rparr>"

end
