(* ===== verification/Gateway.thy ===== *)
theory Gateway
  imports Convert Perceive Resolve Campaign Identity Presence Adventure
begin

text \<open>
  \<open>internal/gateway/server.go\<close>, \<open>ruleset.go\<close>, \<open>map.go\<close> and \<open>adventure.go\<close>: what a command does. The handlers
  decide against a snapshot of the state, taken when the command was authorized, and act on the campaign as it
  is by then, so the snapshot is an argument of its own. What the world outside answers is \<open>outside\<close>: the
  databases' faults, the clock, the random bytes, whether a connection takes a frame, the maps directory, and
  the art that the campaign's and an adventure's directories hold.
\<close>

subsection \<open>The server\<close>

record ('b, 'h, 'r) gateway =
  gw_campaign :: "'b campaign"
  gw_ids :: "'h identity_db"
  gw_presence :: registry
  gw_ruleset :: "ruleset option"
  gw_dice :: 'r
  gw_adventures :: "(string, adventure) fmap"
  gw_maps :: "(string, map_def) fmap"
  gw_maps_dir :: bool

record ('b, 'r) outside =
  os_codec :: "'b wire_codec"
  os_db :: "db_op \<Rightarrow> bool"
  os_ids :: "id_op \<Rightarrow> bool"
  os_now :: "int \<times> int"
  os_event_id :: "nat \<Rightarrow> 8 word list option"
  os_session_id :: "nat \<Rightarrow> 8 word list option"
  os_secret :: "8 word list"
  os_room :: "nat \<Rightarrow> bool"
  os_encoded :: bool
  os_roller :: "'r roller"
  os_maps :: maps_disk
  os_lower :: "string \<Rightarrow> string"
  os_read_int :: "string \<Rightarrow> string + int32"
  os_art :: art_lookup
  os_adventure_art :: "string \<Rightarrow> art_lookup"

datatype gateway_error =
    IdentityUnavailable
  | CampaignUnavailable
  | Refused refusal
  | CannotSeeSquare
  | MoveBlocked string
  | NoDoorThere
  | MalformedCommand form_error
  | NotConverted convert_error
  | NotAppended campaign_error
  | IdentityError id_error
  | NoRulesetLoaded
  | NotResolved resolve_error
  | NoAdventuresAvailable
  | UnknownAdventure string
  | AdventureError adventure_error
  | NoMapsAvailable
  | UnknownMap string
  | MapNotInstalledHere string
  | MapNotLoaded installed_error
  | MapError map_error
  | SceneInPlay string
  | StaffNotRemoved
  | StaffNotDemoted
  | DoorUnstated

datatype load_warning = MapWarning told | AdventureWarning string told

record command_result =
  cr_ok :: bool
  cr_error :: "gateway_error option"
  cr_sequence :: int
  cr_warnings :: "load_warning list"

definition refused :: "gateway_error \<Rightarrow> command_result" where
  "refused err = \<lparr>cr_ok = False, cr_error = Some err, cr_sequence = 0, cr_warnings = []\<rparr>"

definition accepted :: "int \<Rightarrow> load_warning list \<Rightarrow> command_result" where
  "accepted seq ws = \<lparr>cr_ok = True, cr_error = None, cr_sequence = seq, cr_warnings = ws\<rparr>"

type_synonym ('b, 'h, 'r) handled = "('b, 'h, 'r) gateway \<times> command_result \<times> notices"

definition refuse :: "gateway_error \<Rightarrow> ('b, 'h, 'r) gateway \<Rightarrow> ('b, 'h, 'r) handled" where
  "refuse err g = (g, refused err, ([], []))"

subsection \<open>The player's gates\<close>

text \<open>\<open>told\<close> is the viewpoint the connection was last told, \<^const>\<open>None\<close> before the first.\<close>

definition judged_by :: "string option \<Rightarrow> participant \<Rightarrow> cast_of \<Rightarrow> string" where
  "judged_by told p actors =
     (let viewpoint = (case told of None \<Rightarrow> [] | Some v \<Rightarrow> v) in
      if \<not> own_party_member (fmlookup actors viewpoint) (pt_id p) then default_viewpoint p actors else viewpoint)"

definition shoulder :: "string \<Rightarrow> eyes" where
  "shoulder aid = \<lparr>eye_controller = [], eye_shoulder = aid\<rparr>"

definition describe_blockage :: "block_reason \<Rightarrow> string" where
  "describe_blockage why =
     (case why of
        Scenery kind \<Rightarrow> ''something (a '' @ clip kind max_fragment @ '') is in the way''
      | UnknownScene _ \<Rightarrow> ''that destination is not part of any scene this table has created''
      | AWall \<Rightarrow> ''a wall''
      | AClosedDoor \<Rightarrow> ''a closed door''
      | OutsideGrid \<Rightarrow> ''outside the grid'')"

definition move_gate :: "participant \<Rightarrow> string option \<Rightarrow> state \<Rightarrow> string \<Rightarrow> grid_position option \<Rightarrow> gateway_error option" where
  "move_gate p told st tid to =
     (case fmlookup (st_tokens st) tid of
        None \<Rightarrow> None
      | Some tok \<Rightarrow>
          if \<not> can_see (shoulder (judged_by told p (st_actors st))) st (tok_scene_id tok) to then Some CannotSeeSquare
          else (case blocked st (tok_scene_id tok) (pos_x to) (pos_y to) of
              Some why \<Rightarrow> Some (MoveBlocked (describe_blockage why))
            | None \<Rightarrow> None))"

definition sight_gate :: "participant \<Rightarrow> string option \<Rightarrow> state \<Rightarrow> string list \<Rightarrow> gateway_error option" where
  "sight_gate p told st tids =
     (let through = shoulder (judged_by told p (st_actors st)) in
      case find (\<lambda>tid. \<not> sees_actor through st tid) tids of
        None \<Rightarrow> None
      | Some tid \<Rightarrow> Some (NotResolved (UnknownTarget tid)))"

definition player_gate :: "participant \<Rightarrow> command option \<Rightarrow> string option \<Rightarrow> state \<Rightarrow> gateway_error option" where
  "player_gate p c told st =
     (if pt_role p \<noteq> RolePlayer then None
      else case c of
        Some (MoveToken tid to reason) \<Rightarrow> move_gate p told st tid to
      | Some (UseAbility ua) \<Rightarrow> sight_gate p told st (ua_target_ids ua)
      | _ \<Rightarrow> None)"

definition door_square_of :: "command option \<Rightarrow> (string \<times> grid_position option) option" where
  "door_square_of c =
     (case c of Some (OpenDoor sid at) \<Rightarrow> Some (sid, at) | Some (CloseDoor sid at) \<Rightarrow> Some (sid, at) | _ \<Rightarrow> None)"

definition door_gate :: "command option \<Rightarrow> state \<Rightarrow> gateway_error option" where
  "door_gate c st =
     (case door_square_of c of
        None \<Rightarrow> None
      | Some (sid, at) \<Rightarrow> if \<not> is_door st sid (pos_x at) (pos_y at) then Some NoDoorThere else None)"

definition form_gate :: "command option \<Rightarrow> gateway_error option" where
  "form_gate c =
     map_option MalformedCommand
       (case c of
          Some (GrantActorControl gr) \<Rightarrow> validate_grant_actor_control gr
        | Some (AddActor a) \<Rightarrow> validate_add_actor a
        | Some (UpsertNote n) \<Rightarrow> validate_upsert_note n
        | _ \<Rightarrow> None)"

definition command_gates :: "participant \<Rightarrow> command option \<Rightarrow> string option \<Rightarrow> state \<Rightarrow> gateway_error option" where
  "command_gates p c told st =
     (case player_gate p c told st of
        Some err \<Rightarrow> Some err
      | None \<Rightarrow> (case door_gate c st of Some err \<Rightarrow> Some err | None \<Rightarrow> form_gate c))"

subsection \<open>Batches\<close>

fun stamp_events :: "('b, 'r) outside \<Rightarrow> participant \<Rightarrow> nat \<Rightarrow> envelope list \<Rightarrow> convert_error + envelope list" where
  "stamp_events os p i [] = Inr []"
| "stamp_events os p i (env # envs) =
     sum_bind (new_event_id (os_event_id os i)) (\<lambda>eid.
       sum_bind (stamp_events os p (Suc i) envs) (\<lambda>rest.
         Inr (env\<lparr>env_event_id := eid, env_participant_id := pt_id p, env_actor_role := role_name (pt_role p),
                 env_occurred_at := Some (os_now os)\<rparr> # rest)))"

definition append_stamped :: "('b, 'r) outside \<Rightarrow> (campaign_error \<Rightarrow> gateway_error) \<Rightarrow> load_warning list \<Rightarrow> envelope list \<Rightarrow>
    ('b, 'h, 'r) gateway \<Rightarrow> ('b, 'h, 'r) handled" where
  "append_stamped os failure ws envs g =
     (case append_batch_campaign (os_codec os) (os_db os) (os_session_id os) envs (gw_campaign g) of
        (c, Inl err, out) \<Rightarrow> (g\<lparr>gw_campaign := c\<rparr>, refused (failure err), out)
      | (c, Inr first, out) \<Rightarrow> (g\<lparr>gw_campaign := c\<rparr>, accepted first ws, out))"

definition stamp_and_append :: "('b, 'r) outside \<Rightarrow> (campaign_error \<Rightarrow> gateway_error) \<Rightarrow> load_warning list \<Rightarrow> participant \<Rightarrow>
    envelope list \<Rightarrow> ('b, 'h, 'r) gateway \<Rightarrow> ('b, 'h, 'r) handled" where
  "stamp_and_append os failure ws p envs g =
     (case stamp_events os p 0 envs of
        Inl err \<Rightarrow> refuse (NotConverted err) g
      | Inr envs \<Rightarrow> append_stamped os failure ws envs g)"

definition handle_use_ability :: "('b, 'r) outside \<Rightarrow> use_ability \<Rightarrow> state \<Rightarrow> participant \<Rightarrow>
    ('b, 'h, 'r) gateway \<Rightarrow> ('b, 'h, 'r) handled" where
  "handle_use_ability os ua st p g =
     (case gw_ruleset g of
        None \<Rightarrow> refuse NoRulesetLoaded g
      | Some rs \<Rightarrow>
          (case resolve rs st ua (Some (os_roller os)) (gw_dice g) of
             (Inl err, r) \<Rightarrow> refuse (NotResolved err) (g\<lparr>gw_dice := r\<rparr>)
           | (Inr envs, r) \<Rightarrow> stamp_and_append os NotAppended [] p envs (g\<lparr>gw_dice := r\<rparr>)))"

definition handle_load_adventure :: "('b, 'r) outside \<Rightarrow> string \<Rightarrow> state \<Rightarrow> participant \<Rightarrow>
    ('b, 'h, 'r) gateway \<Rightarrow> ('b, 'h, 'r) handled" where
  "handle_load_adventure os aid st p g =
     (if keys (gw_adventures g) = [] then refuse NoAdventuresAvailable g
      else case fmlookup (gw_adventures g) aid of
        None \<Rightarrow> refuse (UnknownAdventure aid) g
      | Some adv \<Rightarrow>
          (case compile_adventure adv st (os_adventure_art os aid) of
             (ws, Inl err) \<Rightarrow> refuse (AdventureError err) g
           | (ws, Inr envs) \<Rightarrow> stamp_and_append os NotAppended (map (\<lambda>(sid, w). AdventureWarning sid w) ws) p envs g))"

definition map_by_id :: "('b, 'r) outside \<Rightarrow> string \<Rightarrow> ('b, 'h, 'r) gateway \<Rightarrow>
    ('b, 'h, 'r) gateway \<times> (gateway_error + map_def)" where
  "map_by_id os mid g =
     (case fmlookup (gw_maps g) mid of
        Some m \<Rightarrow> (g, Inr m)
      | None \<Rightarrow>
          if \<not> gw_maps_dir g then (g, Inl (if keys (gw_maps g) = [] then NoMapsAvailable else UnknownMap mid))
          else (case load_installed (os_lower os) (os_read_int os) (os_maps os) mid (os_art os) of
              Inl MapNotInstalled \<Rightarrow> (g, Inl (MapNotInstalledHere mid))
            | Inl err \<Rightarrow> (g, Inl (MapNotLoaded err))
            | Inr m \<Rightarrow> (g\<lparr>gw_maps := fmupd mid m (gw_maps g)\<rparr>, Inr m)))"

definition map_failure :: "string \<Rightarrow> campaign_error \<Rightarrow> gateway_error" where
  "map_failure mid err = (case err of ErrRefused (ErrSceneExists _) \<Rightarrow> SceneInPlay mid | _ \<Rightarrow> NotAppended err)"

definition handle_load_map :: "('b, 'r) outside \<Rightarrow> string \<Rightarrow> participant \<Rightarrow> ('b, 'h, 'r) gateway \<Rightarrow> ('b, 'h, 'r) handled" where
  "handle_load_map os mid p g =
     (case map_by_id os mid g of
        (g, Inl err) \<Rightarrow> refuse err g
      | (g, Inr m) \<Rightarrow>
          (case compile_map m (os_art os) of
             (ws, Inl err) \<Rightarrow> refuse (MapError err) g
           | (ws, Inr envs) \<Rightarrow> stamp_and_append os (map_failure mid) (map MapWarning ws) p envs g))"

definition removal_batch :: "string \<Rightarrow> state \<Rightarrow> envelope list" where
  "removal_batch aid st =
     map (\<lambda>tid. payload_only (TokenRemoved tid)) (filter (\<lambda>tid. map_option tok_actor_id (fmlookup (st_tokens st) tid) = Some aid) (keys (st_tokens st)))
     @ [payload_only (ActorRemoved aid)]"

definition handle_remove_actor :: "('b, 'r) outside \<Rightarrow> string \<Rightarrow> state \<Rightarrow> participant \<Rightarrow>
    ('b, 'h, 'r) gateway \<Rightarrow> ('b, 'h, 'r) handled" where
  "handle_remove_actor os aid st p g = stamp_and_append os NotAppended [] p (removal_batch aid st) g"

subsection \<open>Participants and the door\<close>

definition controlled_actors :: "string \<Rightarrow> state \<Rightarrow> string list" where
  "controlled_actors pid st =
     filter (\<lambda>aid. case fmlookup (st_actors st) aid of None \<Rightarrow> False | Some a \<Rightarrow> pid \<in> set (actor_controller_ids a)) (keys (st_actors st))"

definition handle_removal :: "('b, 'r) outside \<Rightarrow> string \<Rightarrow> state \<Rightarrow> participant \<Rightarrow>
    ('b, 'h, 'r) gateway \<Rightarrow> ('b, 'h, 'r) handled" where
  "handle_removal os pid st p g =
     (case lookup_id (os_ids os) pid (gw_ids g) of
        Inl err \<Rightarrow> refuse (IdentityError err) g
      | Inr who \<Rightarrow>
          if pt_role who = RoleDM \<or> pt_role who = RoleAgent then refuse StaffNotRemoved g
          else (case stamp_events os p 0 (map (\<lambda>aid. payload_only (ActorControlRevoked aid (pt_id who))) (controlled_actors (pt_id who) st)) of
              Inl err \<Rightarrow> refuse (NotConverted err) g
            | Inr envs \<Rightarrow>
                (case revoke_id (os_ids os) (pt_id who) (gw_ids g) of
                   (ids, Some err) \<Rightarrow> refuse (IdentityError err) (g\<lparr>gw_ids := ids\<rparr>)
                 | (ids, None) \<Rightarrow>
                     let g = g\<lparr>gw_ids := ids, gw_presence := rejudge_all (pt_id who) (gw_presence g)\<rparr> in
                     if envs = [] then (g, accepted 0 [], ([], []))
                     else append_stamped os NotAppended [] envs g)))"

definition handle_join_door :: "('b, 'r) outside \<Rightarrow> join_door \<Rightarrow> int32 \<Rightarrow> ('b, 'h, 'r) gateway \<Rightarrow> ('b, 'h, 'r) handled" where
  "handle_join_door os door limit g =
     (if door \<noteq> DOOR_OPEN \<and> door \<noteq> DOOR_CLOSED then refuse DoorUnstated g
      else case set_join_open (os_ids os) (os_secret os) (door = DOOR_OPEN) (sint limit) (gw_ids g) of
        Inl err \<Rightarrow> refuse (IdentityError err) g
      | Inr ids \<Rightarrow> (g\<lparr>gw_ids := ids\<rparr>, accepted 0 [], ([], [])))"

definition handle_rotate_join_link :: "('b, 'r) outside \<Rightarrow> ('b, 'h, 'r) gateway \<Rightarrow> ('b, 'h, 'r) handled" where
  "handle_rotate_join_link os g =
     (case rotate_join_secret (os_ids os) (os_secret os) (gw_ids g) of
        Inl err \<Rightarrow> refuse (IdentityError err) g
      | Inr (secret, ids) \<Rightarrow> (g\<lparr>gw_ids := ids\<rparr>, accepted 0 [], ([], [])))"

definition revoked_ids :: "('b, 'r) outside \<Rightarrow> ('b, 'h, 'r) gateway \<Rightarrow> string list" where
  "revoked_ids os g = filter (\<lambda>pid. lookup_id (os_ids os) pid (gw_ids g) = Inl ErrInvalidToken) (participant_ids (gw_presence g))"

definition announce_promotion :: "('b, 'r) outside \<Rightarrow> string \<Rightarrow> ('b, 'h, 'r) gateway \<Rightarrow> ('b, 'h, 'r) gateway" where
  "announce_promotion os pid g =
     g\<lparr>gw_presence := fst (announce_if_present (os_room os) (os_encoded os) pid (revoked_ids os g) (gw_presence g))\<rparr>"

definition handle_promotion :: "('b, 'r) outside \<Rightarrow> string \<Rightarrow> string \<Rightarrow> ('b, 'h, 'r) gateway \<Rightarrow> ('b, 'h, 'r) handled" where
  "handle_promotion os pid r g =
     (case lookup_id (os_ids os) pid (gw_ids g) of
        Inl err \<Rightarrow> refuse (IdentityError err) g
      | Inr who \<Rightarrow>
          if pt_role who = RoleDM \<or> pt_role who = RoleAgent then refuse StaffNotDemoted g
          else (case set_role (os_ids os) pid r (gw_ids g) of
              (ids, Some err) \<Rightarrow> refuse (IdentityError err) (g\<lparr>gw_ids := ids\<rparr>)
            | (ids, None) \<Rightarrow>
                (announce_promotion os pid (g\<lparr>gw_ids := ids, gw_presence := rejudge_all pid (gw_presence g)\<rparr>),
                 accepted 0 [], ([], []))))"

subsection \<open>One event\<close>

text \<open>The scene and the square that a moved token leaves come from the snapshot.\<close>

definition backfill_move :: "state \<Rightarrow> envelope \<Rightarrow> envelope" where
  "backfill_move st env =
     (case env_payload env of
        Some (TokenMoved tm) \<Rightarrow>
          (case fmlookup (st_tokens st) (tm_token_id tm) of
             None \<Rightarrow> env
           | Some tok \<Rightarrow> env\<lparr>env_payload := Some (TokenMoved (tm\<lparr>tm_scene_id := tok_scene_id tok,
               tm_from := Some \<lparr>gp_x = tok_x tok, gp_y = tok_y tok\<rparr>\<rparr>))\<rparr>)
      | _ \<Rightarrow> env)"

definition handle_one_event :: "('b, 'r) outside \<Rightarrow> participant \<Rightarrow> command option \<Rightarrow> state \<Rightarrow>
    ('b, 'h, 'r) gateway \<Rightarrow> ('b, 'h, 'r) handled" where
  "handle_one_event os p c st g =
     (case to_event (os_now os) (os_event_id os 0) c p of
        Inl err \<Rightarrow> refuse (NotConverted err) g
      | Inr env \<Rightarrow>
          (case append_one (os_codec os) (os_db os) (os_session_id os) (voice c p st (backfill_move st env)) (gw_campaign g) of
             (cp, Inl err, out) \<Rightarrow> (g\<lparr>gw_campaign := cp\<rparr>, refused (NotAppended err), out)
           | (cp, Inr seq, out) \<Rightarrow> (g\<lparr>gw_campaign := cp\<rparr>, accepted seq [], out)))"

subsection \<open>A command\<close>

definition dispatch :: "('b, 'r) outside \<Rightarrow> participant \<Rightarrow> command option \<Rightarrow> state \<Rightarrow>
    ('b, 'h, 'r) gateway \<Rightarrow> ('b, 'h, 'r) handled" where
  "dispatch os p c st g =
     (case c of
        Some (UseAbility ua) \<Rightarrow> handle_use_ability os ua st p g
      | Some (LoadAdventure aid) \<Rightarrow> handle_load_adventure os aid st p g
      | Some (LoadMap mid) \<Rightarrow> handle_load_map os mid p g
      | Some (RemoveActor aid) \<Rightarrow> handle_remove_actor os aid st p g
      | Some (RemoveParticipant pid) \<Rightarrow> handle_removal os pid st p g
      | Some (PromoteParticipant pid r) \<Rightarrow> handle_promotion os pid r g
      | Some (SetJoinDoor door limit) \<Rightarrow> handle_join_door os door limit g
      | Some RotateJoinLink \<Rightarrow> handle_rotate_join_link os g
      | _ \<Rightarrow> handle_one_event os p c st g)"

text \<open>\<open>authorize\<close> of \<open>server.go\<close>: the snapshot the command is judged by, or the refusal.\<close>

definition authorize_live :: "participant \<Rightarrow> command option \<Rightarrow> ('b, 'h, 'r) gateway \<Rightarrow> gateway_error + state" where
  "authorize_live p c g =
     (case campaign_state (gw_campaign g) of
        None \<Rightarrow> Inl CampaignUnavailable
      | Some st \<Rightarrow> (case authorize p c st of Some r \<Rightarrow> Inl (Refused r) | None \<Rightarrow> Inr st))"

text \<open>What follows the authorization, against the snapshot it judged.\<close>

definition handle_authorized :: "('b, 'r) outside \<Rightarrow> participant \<Rightarrow> command option \<Rightarrow> string option \<Rightarrow> state \<Rightarrow>
    ('b, 'h, 'r) gateway \<Rightarrow> ('b, 'h, 'r) handled" where
  "handle_authorized os p c told st g =
     (case command_gates p c told st of Some err \<Rightarrow> refuse err g | None \<Rightarrow> dispatch os p c st g)"

definition handle_command :: "('b, 'r) outside \<Rightarrow> participant \<Rightarrow> command option \<Rightarrow> string option \<Rightarrow>
    ('b, 'h, 'r) gateway \<Rightarrow> ('b, 'h, 'r) handled" where
  "handle_command os p c told g =
     (case authorize_live p c g of Inl err \<Rightarrow> refuse err g | Inr st \<Rightarrow> handle_authorized os p c told st g)"

definition handle_set_viewpoint :: "participant \<Rightarrow> command option \<Rightarrow> string \<Rightarrow> string option \<Rightarrow>
    ('b, 'h, 'r) gateway \<Rightarrow> string option \<times> command_result" where
  "handle_set_viewpoint p c aid slot g =
     (case authorize_live p c g of Inl err \<Rightarrow> (slot, refused err) | Inr st \<Rightarrow> (Some aid, accepted 0 []))"

text \<open>
  \<open>answerCommand\<close>: \<open>now\<close> is what the participant resolved to when the command arrived, \<open>slot\<close> the slot of the
  viewpoint the connection asked for. The result carries the command's request id.
\<close>

definition answer_command :: "('b, 'r) outside \<Rightarrow> id_error + participant \<Rightarrow> client_command \<Rightarrow> string option \<Rightarrow> string option \<Rightarrow>
    ('b, 'h, 'r) gateway \<Rightarrow> (string \<times> command_result) \<times> string option \<times> ('b, 'h, 'r) gateway \<times> notices" where
  "answer_command os now cc slot told g =
     (let rid = cc_request_id cc; c = cc_command cc in
      case now of
        Inl err \<Rightarrow> ((rid, refused IdentityUnavailable), slot, g, ([], []))
      | Inr p \<Rightarrow>
          (case c of
             Some (SetViewpoint aid) \<Rightarrow>
               (case handle_set_viewpoint p c aid slot g of (slot, res) \<Rightarrow> ((rid, res), slot, g, ([], [])))
           | _ \<Rightarrow>
               (case handle_command os p c told g of (g, res, out) \<Rightarrow> ((rid, res), slot, g, out))))"

end
