(* ===== verification/Gateway_Props.thy ===== *)
theory Gateway_Props
  imports Gateway Campaign_Steps
begin

text \<open>
  What a command can do. Every event it appends is its issuer's, and a refused one appends none; a player
  changes only what they control and see, and learns from a refusal only what they are shown; no command
  promotes, demotes or removes a DM or an agent.
\<close>

subsection \<open>What an append keeps of its events\<close>

definition env_body :: "envelope \<Rightarrow> string \<times> (int \<times> int) option \<times> string \<times> string \<times> payload option" where
  "env_body e = (env_event_id e, env_occurred_at e, env_actor_role e, env_participant_id e, env_payload e)"

lemma env_body_sequence [simp]: "env_body (e\<lparr>env_sequence := n\<rparr>) = env_body e" "env_body (e\<lparr>env_session_id := s\<rparr>) = env_body e"
  by (simp_all add: env_body_def)

lemma stamp_bodies: "map env_body (stamp n envs) = map env_body envs"
  by (induction envs arbitrary: n) (simp_all add: set_sequence_def)

lemma stamp_session_body: "stamp_session rnd st env = Inr env' \<Longrightarrow> env_body env' = env_body env"
  by (auto simp: stamp_session_def split: if_splits option.splits)

lemma validate_from_bodies: "validate_from rnd head i envs st = Inr envs' \<Longrightarrow> map env_body envs' = map env_body envs"
proof (induction envs arbitrary: i st envs')
  case (Cons env envs)
  then show ?case by (fastforce split: sum.splits dest: stamp_session_body)
qed simp

lemma append_locked_bodies:
  assumes "campaign_holds cd c es wes" and "append_locked_campaign cd io rnd envs c = (c', Inr first, world, entries)"
  shows "map env_body world = map env_body envs"
proof -
  have held: "store_holds cd (cp_db c) es" using assms(1) by (simp add: campaign_holds_def)
  from assms(2) obtain envs1 ents logs dropped db told where
    valid: "validate_from rnd (cp_head c) 0 envs (snapshot (cp_state c)) = Inr envs1"
    and app: "append_values cd io envs1 ents (cp_db c) = Inr (first, db, world, told)"
    by (auto simp: append_locked_campaign_def Let_def split: if_splits sum.splits prod.splits)
  from sl.append_adds[OF held app] have "world = stamp first envs1" by simp
  with validate_from_bodies[OF valid] show ?thesis by (simp add: stamp_bodies)
qed

text \<open>The log after is the log before and these events, and the live state is theirs.\<close>

definition log_grew :: "'b wire_codec \<Rightarrow> envelope list \<Rightarrow> 'b campaign \<Rightarrow> 'b campaign \<Rightarrow> envelope list \<Rightarrow> bool" where
  "log_grew cd es c c' world =
     ((\<exists>wes. campaign_holds cd c' (es @ world) wes) \<and> apply_events (cp_state c) world = Inr (cp_state c'))"

lemma log_grew_nothing: "campaign_holds cd c es wes \<Longrightarrow> log_grew cd es c c []"
  by (auto simp: log_grew_def)

lemma append_batch_grows:
  assumes held: "campaign_holds cd c es wes" and app: "append_batch_campaign cd io rnd envs c = (c', r, world, entries)"
  shows "log_grew cd es c c' world \<and> (case r of Inl _ \<Rightarrow> world = [] \<and> entries = [] | Inr _ \<Rightarrow> map env_body world = map env_body envs)"
proof (cases r)
  case (Inl err)
  with append_batch_outcome[OF held, of envs io rnd] app
  have "campaign_holds cd c' es wes" "cp_state c' = cp_state c" "world = []" "entries = []"
    by (auto simp: append_outcome_def)
  with Inl show ?thesis by (auto simp: log_grew_def)
next
  case (Inr first)
  from append_batch_outcome[OF held, of envs io rnd] app Inr
  have "log_grew cd es c c' world" by (auto simp: append_outcome_def log_grew_def)
  moreover from app Inr have "append_locked_campaign cd io rnd envs c = (c', Inr first, world, entries)"
    by (auto simp: append_batch_campaign_def split: if_splits)
  ultimately show ?thesis using append_locked_bodies[OF held] Inr by auto
qed

lemma append_one_grows:
  assumes held: "campaign_holds cd c es wes" and app: "append_one cd io rnd env c = (c', r, world, entries)"
  shows "log_grew cd es c c' world \<and> (case r of Inl _ \<Rightarrow> world = [] \<and> entries = [] | Inr _ \<Rightarrow> map env_body world = [env_body env])"
proof (cases "cp_poisoned c")
  case True
  with held show ?thesis by (simp add: campaign_holds_def)
next
  case False
  with app have "append_batch_campaign cd io rnd [env] c = (c', r, world, entries)"
    by (simp add: append_one_def append_batch_campaign_def)
  from append_batch_grows[OF held this] show ?thesis by (auto split: sum.splits)
qed

subsection \<open>What a command appends\<close>

text \<open>A handler that refuses adds nothing, and one that appends adds only events whose body is as asked.\<close>

type_synonym body = "string \<times> (int \<times> int) option \<times> string \<times> string \<times> payload option"

definition appends_only :: "'b wire_codec \<Rightarrow> envelope list \<Rightarrow> (body \<Rightarrow> bool) \<Rightarrow> 'b campaign \<Rightarrow> ('b, 'h, 'r) handled \<Rightarrow> bool" where
  "appends_only cd es Q c h =
     (case h of (g', res, world, entries) \<Rightarrow>
        log_grew cd es c (gw_campaign g') world \<and> list_all Q (map env_body world) \<and>
        (\<not> cr_ok res \<longrightarrow> world = [] \<and> entries = []))"

definition issued :: "participant \<Rightarrow> body \<Rightarrow> bool" where
  "issued p b = (case b of (_, _, role, pid, _) \<Rightarrow> pid = pt_id p \<and> role = role_name (pt_role p))"

lemma result_oks [simp]: "cr_ok (accepted n ws)" "\<not> cr_ok (refused err)"
  by (simp_all add: accepted_def refused_def)

lemma quiet_appends:
  "campaign_holds cd c es wes \<Longrightarrow> gw_campaign g' = c \<Longrightarrow> appends_only cd es Q c (g', res, [], [])"
  by (simp add: appends_only_def log_grew_nothing)

lemma refuse_appends: "campaign_holds cd c es wes \<Longrightarrow> gw_campaign g' = c \<Longrightarrow> appends_only cd es Q c (refuse err g')"
  by (simp add: refuse_def quiet_appends)

lemma issued_body: "issued p (env_body e) = (env_participant_id e = pt_id p \<and> env_actor_role e = role_name (pt_role p))"
  by (simp add: env_body_def issued_def)

lemma stamped_issued: "stamp_events os p i envs = Inr envs' \<Longrightarrow> list_all (issued p) (map env_body envs')"
  by (induction envs arbitrary: i envs') (auto simp: sum_bind_eq_Inr issued_body)

lemma stamped_payloads: "stamp_events os p i envs = Inr envs' \<Longrightarrow> map env_payload envs' = map env_payload envs"
  by (induction envs arbitrary: i envs') (auto simp: sum_bind_eq_Inr)

lemma append_stamped_appends:
  assumes "campaign_holds (os_codec os) (gw_campaign g) es wes" and "list_all Q (map env_body envs)"
  shows "appends_only (os_codec os) es Q (gw_campaign g) (append_stamped os failure ws envs g)"
proof -
  obtain c r world entries where app: "append_batch_campaign (os_codec os) (os_db os) (os_session_id os) envs (gw_campaign g) = (c, r, world, entries)"
    by (metis prod_cases4)
  note grown = append_batch_grows[OF assms(1) app]
  show ?thesis
  proof (cases r)
    case (Inl err)
    with grown show ?thesis by (auto simp: append_stamped_def app appends_only_def)
  next
    case (Inr first)
    with grown assms(2) show ?thesis by (simp add: append_stamped_def app appends_only_def del: list.pred_map)
  qed
qed

lemma stamp_and_append_appends:
  assumes "campaign_holds (os_codec os) (gw_campaign g) es wes"
    and "\<And>envs'. stamp_events os p 0 envs = Inr envs' \<Longrightarrow> list_all Q (map env_body envs')"
  shows "appends_only (os_codec os) es Q (gw_campaign g) (stamp_and_append os failure ws p envs g)"
  using append_stamped_appends[OF assms] refuse_appends[OF assms(1) refl]
  by (cases "stamp_events os p 0 envs") (simp_all add: stamp_and_append_def)

lemma stamp_and_append_issued:
  assumes "campaign_holds (os_codec os) (gw_campaign g) es wes"
  shows "appends_only (os_codec os) es (issued p) (gw_campaign g) (stamp_and_append os failure ws p envs g)"
  by (rule stamp_and_append_appends[OF assms stamped_issued])

lemma handle_one_event_appends:
  assumes held: "campaign_holds (os_codec os) (gw_campaign g) es wes"
    and Q: "\<And>env. to_event (os_now os) (os_event_id os 0) c p = Inr env \<Longrightarrow> Q (env_body (voice c p st (backfill_move st env)))"
  shows "appends_only (os_codec os) es Q (gw_campaign g) (handle_one_event os p c st g)"
proof (cases "to_event (os_now os) (os_event_id os 0) c p")
  case (Inl err)
  then show ?thesis using refuse_appends[OF held refl] by (simp add: handle_one_event_def)
next
  case (Inr env)
  note env = Inr
  let ?env = "voice c p st (backfill_move st env)"
  obtain cp r world entries where app: "append_one (os_codec os) (os_db os) (os_session_id os) ?env (gw_campaign g) = (cp, r, world, entries)"
    by (metis prod_cases4)
  note grown = append_one_grows[OF held app]
  show ?thesis
  proof (cases r)
    case (Inl err)
    with grown env show ?thesis by (auto simp: handle_one_event_def app appends_only_def)
  next
    case (Inr seq)
    with env grown Q[OF env] show ?thesis by (simp add: handle_one_event_def app appends_only_def del: list.pred_map)
  qed
qed

lemma voice_backfill_issued:
  assumes "to_event now rnd c p = Inr env"
  shows "issued p (env_body (voice c p st (backfill_move st env)))"
proof -
  have "issued p (env_body env)" using assms by (auto simp: to_event_def issued_body sum_bind_eq_Inr split: option.splits)
  moreover have "issued p (env_body (backfill_move st e)) = issued p (env_body e)" for e
    by (simp add: backfill_move_def issued_body split: option.split payload.split)
  moreover have "issued p (env_body (voice c p st e)) = issued p (env_body e)" for e
    by (simp add: voice_def issued_body split: option.split payload.split)
  ultimately show ?thesis by blast
qed

lemma handle_removal_appends:
  assumes held: "campaign_holds (os_codec os) (gw_campaign g) es wes"
  shows "appends_only (os_codec os) es (issued p) (gw_campaign g) (handle_removal os pid st p g)"
proof (cases "lookup_id (os_ids os) pid (gw_ids g)")
  case (Inl err)
  then show ?thesis using refuse_appends[OF held refl] by (simp add: handle_removal_def)
next
  case (Inr who)
  note who = Inr
  let ?envs = "map (\<lambda>aid. payload_only (ActorControlRevoked aid (pt_id who))) (controlled_actors (pt_id who) st)"
  show ?thesis
  proof (cases "stamp_events os p 0 ?envs")
    case (Inl err)
    then show ?thesis using who refuse_appends[OF held refl] by (simp add: handle_removal_def)
  next
    case (Inr envs)
    obtain ids err where rev: "revoke_id (os_ids os) (pt_id who) (gw_ids g) = (ids, err)" by fastforce
    let ?g = "g\<lparr>gw_ids := ids, gw_presence := rejudge_all (pt_id who) (gw_presence g)\<rparr>"
    have "campaign_holds (os_codec os) (gw_campaign ?g) es wes" using held by simp
    from append_stamped_appends[OF this stamped_issued[OF Inr]]
    have "appends_only (os_codec os) es (issued p) (gw_campaign g) (append_stamped os NotAppended [] envs ?g)" by simp
    moreover have "appends_only (os_codec os) es (issued p) (gw_campaign g) (refuse StaffNotRemoved g)"
      "appends_only (os_codec os) es (issued p) (gw_campaign g) (refuse (IdentityError e) (g\<lparr>gw_ids := ids\<rparr>))"
      "appends_only (os_codec os) es (issued p) (gw_campaign g) (?g, accepted 0 [], [], [])" for e
      by (rule refuse_appends[OF held] quiet_appends[OF held], simp)+
    ultimately show ?thesis using who Inr rev by (cases err) (simp_all add: handle_removal_def Let_def)
  qed
qed

lemma handle_load_map_appends:
  assumes held: "campaign_holds (os_codec os) (gw_campaign g) es wes"
  shows "appends_only (os_codec os) es (issued p) (gw_campaign g) (handle_load_map os mid p g)"
proof -
  obtain g' r where m: "map_by_id os mid g = (g', r)" by fastforce
  then have same: "gw_campaign g' = gw_campaign g"
    by (auto simp: map_by_id_def split: option.splits sum.splits installed_error.splits if_splits)
  have "campaign_holds (os_codec os) (gw_campaign g') es wes" using held by (simp add: same)
  from stamp_and_append_issued[OF this] refuse_appends[OF held same] same show ?thesis
    by (simp add: handle_load_map_def m split: sum.split prod.split)
qed

lemma handle_use_ability_appends:
  assumes held: "campaign_holds (os_codec os) (gw_campaign g) es wes"
    and Q: "\<And>rs r r' envs envs'. resolve rs st ua (Some (os_roller os)) r = (Inr envs, r') \<Longrightarrow>
      stamp_events os p 0 envs = Inr envs' \<Longrightarrow> list_all Q (map env_body envs')"
  shows "appends_only (os_codec os) es Q (gw_campaign g) (handle_use_ability os ua st p g)"
proof (cases "gw_ruleset g")
  case None
  then show ?thesis using refuse_appends[OF held refl] by (simp add: handle_use_ability_def)
next
  case (Some rs)
  obtain res r where res: "resolve rs st ua (Some (os_roller os)) (gw_dice g) = (res, r)" by fastforce
  show ?thesis
  proof (cases res)
    case (Inl err)
    have "appends_only (os_codec os) es Q (gw_campaign g) (refuse (NotResolved err) (g\<lparr>gw_dice := r\<rparr>))"
      by (rule refuse_appends[OF held]) simp
    then show ?thesis by (simp add: handle_use_ability_def Some res Inl)
  next
    case (Inr envs)
    have held': "campaign_holds (os_codec os) (gw_campaign (g\<lparr>gw_dice := r\<rparr>)) es wes" using held by simp
    from stamp_and_append_appends[OF held' Q, OF res[unfolded Inr]]
    show ?thesis by (simp add: handle_use_ability_def Some res Inr)
  qed
qed

lemma dispatch_appends:
  assumes held: "campaign_holds (os_codec os) (gw_campaign g) es wes"
  shows "appends_only (os_codec os) es (issued p) (gw_campaign g) (dispatch os p c st g)"
proof -
  have adv: "appends_only (os_codec os) es (issued p) (gw_campaign g) (handle_load_adventure os aid st p g)" for aid
    using stamp_and_append_issued[OF held] refuse_appends[OF held refl]
    by (simp add: handle_load_adventure_def split: option.split sum.split prod.split)
  have rem: "appends_only (os_codec os) es (issued p) (gw_campaign g) (handle_remove_actor os aid st p g)" for aid
    by (simp add: handle_remove_actor_def stamp_and_append_issued[OF held])
  have prom: "appends_only (os_codec os) es (issued p) (gw_campaign g) (handle_promotion os pid r g)" for pid r
    by (auto simp: handle_promotion_def announce_promotion_def split: sum.split prod.split option.split
        intro: refuse_appends[OF held] quiet_appends[OF held])
  have door: "appends_only (os_codec os) es (issued p) (gw_campaign g) (handle_join_door os d n g)" for d n
    by (auto simp: handle_join_door_def split: sum.split intro: refuse_appends[OF held] quiet_appends[OF held])
  have rot: "appends_only (os_codec os) es (issued p) (gw_campaign g) (handle_rotate_join_link os g)"
    by (auto simp: handle_rotate_join_link_def split: sum.split prod.split intro: refuse_appends[OF held] quiet_appends[OF held])
  have one: "appends_only (os_codec os) es (issued p) (gw_campaign g) (handle_one_event os p c st g)" for c
    by (rule handle_one_event_appends[OF held]) (rule voice_backfill_issued)
  have use: "appends_only (os_codec os) es (issued p) (gw_campaign g) (handle_use_ability os ua st p g)" for ua
    by (rule handle_use_ability_appends[OF held]) (rule stamped_issued)
  show ?thesis
    using use adv handle_load_map_appends[OF held] rem handle_removal_appends[OF held] prom door rot one
    by (simp add: dispatch_def split: option.split command.split)
qed

lemma handle_authorized_appends:
  assumes held: "campaign_holds (os_codec os) (gw_campaign g) es wes"
  shows "appends_only (os_codec os) es (issued p) (gw_campaign g) (handle_authorized os p c told st g)"
  using dispatch_appends[OF held] refuse_appends[OF held refl] by (simp add: handle_authorized_def split: option.split)

lemma holds_reads:
  assumes "campaign_holds cd c es wes"
  shows "read_after cd faultless 0 (cp_db c) = Inr es"
proof -
  have held: "store_holds cd (cp_db c) es" "cp_head c = int (length es)" using assms by (simp_all add: campaign_holds_def)
  have seqs: "map env_sequence es = [1 .. int (length es)]" using sl.numbered[OF held(1)] by simp
  have "filter (\<lambda>e. 0 < env_sequence e) es = es" using sequence_within[OF seqs] by (fastforce simp: filter_id_conv)
  then show ?thesis using read_after_holds[OF held(1), of faultless 0] by (simp add: faultless_def)
qed

definition by_issuer :: "participant \<Rightarrow> envelope \<Rightarrow> bool" where
  "by_issuer p e = (env_participant_id e = pt_id p \<and> env_actor_role e = role_name (pt_role p))"

text \<open>
  C30: Whatever a command, whoever issues it and however old the snapshot it is judged by, what it adds to the
  log is events that name its issuer and their role, in one append, which the live state then includes; and a command
  that is refused, for any reason, adds nothing and tells no subscriber.
\<close>

theorem command_appends_as_its_issuer:
  assumes "campaign_reachable (os_codec os) (gw_campaign g)" and "codec_ok (os_codec os)"
    and "handle_authorized os p c told st g = (g', res, world, entries)"
  shows "\<exists>es. read_after (os_codec os) faultless 0 (cp_db (gw_campaign g)) = Inr es \<and>
    read_after (os_codec os) faultless 0 (cp_db (gw_campaign g')) = Inr (es @ world) \<and>
    apply_events (cp_state (gw_campaign g)) world = Inr (cp_state (gw_campaign g')) \<and>
    list_all (by_issuer p) world \<and> (cr_ok res \<or> world = [] \<and> entries = [])"
proof -
  obtain es wes where held: "campaign_holds (os_codec os) (gw_campaign g) es wes"
    using campaign_reachable_ok[OF assms(1,2)] by (auto simp: campaign_ok_def)
  from handle_authorized_appends[OF held, of p c told st] assms(3) obtain wes' where
    "campaign_holds (os_codec os) (gw_campaign g') (es @ world) wes'"
    "apply_events (cp_state (gw_campaign g)) world = Inr (cp_state (gw_campaign g'))" "list_all (by_issuer p) world"
    "cr_ok res \<or> world = [] \<and> entries = []"
    by (auto simp: appends_only_def log_grew_def list_all_iff issued_body by_issuer_def)
  with holds_reads[OF held] holds_reads show ?thesis by blast
qed

text \<open>A table to try the properties on: a new campaign, and what a player says on it as themselves.\<close>

definition demo_outside :: "(envelope, unit) outside" where
  "demo_outside =
     \<lparr>os_codec = demo_codec, os_db = faultless, os_ids = (\<lambda>_. False), os_now = (0, 0), os_event_id = demo_random,
      os_session_id = demo_random, os_secret = [], os_room = (\<lambda>_. True), os_encoded = True,
      os_roller = (\<lambda>n s r. (([], 0), r)), os_maps = \<lparr>mp_names = [], mp_file = (\<lambda>_. None)\<rparr>, os_lower = (\<lambda>s. s),
      os_read_int = (\<lambda>s. Inl s), os_art = (\<lambda>name. Inl (ErrNoArtDirectory name)), os_adventure_art = (\<lambda>_ name. Inl (ErrNoArtDirectory name))\<rparr>"

definition demo_gateway :: "(envelope, string, unit) gateway" where
  "demo_gateway =
     \<lparr>gw_campaign = demo_new, gw_ids = fresh_identity, gw_presence = no_connections, gw_ruleset = None, gw_dice = (),
      gw_adventures = fmempty, gw_maps = fmempty, gw_maps_dir = False\<rparr>"

definition demo_player :: participant where
  "demo_player = \<lparr>pt_id = ''p1'', pt_name = ''Pat'', pt_role = RolePlayer\<rparr>"

lemma demo_table_reachable: "campaign_reachable (os_codec demo_outside) (gw_campaign demo_gateway)"
  using reach_new[OF demo_new_opened] by (simp add: demo_outside_def demo_gateway_def)

lemma demo_table_codec: "codec_ok (os_codec demo_outside)"
  using demo_codec_ok by (simp add: demo_outside_def)

definition demo_line :: "command option" where
  "demo_line = Some (AddNarration \<lparr>an_text = ''Back in five.'', an_as = ''the king'', an_anchor_from = 0, an_anchor_to = 0,
     an_actor_id = [], an_out_of_character = True\<rparr>)"

lemma demo_line_authorized: "authorize demo_player demo_line new_state = None"
  by code_simp

definition demo_said :: "(envelope, string, unit) handled" where
  "demo_said = handle_authorized demo_outside demo_player demo_line None new_state demo_gateway"

definition demo_said_event :: envelope where
  "demo_said_event = \<lparr>env_event_id = ''0aff'', env_sequence = 0, env_occurred_at = Some (0, 0), env_session_id = [],
     env_actor_role = ''player'', env_participant_id = ''p1'', env_payload = Some (NarrationAdded
       \<lparr>na_text = ''Back in five.'', na_as = ''Pat'', na_anchor_from = 0, na_anchor_to = 0, na_out_of_character = True\<rparr>)\<rparr>"

lemma demo_line_converts: "map_sum id (\<lambda>env. voice demo_line demo_player new_state (backfill_move new_state env))
    (to_event (0, 0) (demo_random 0) demo_line demo_player) = Inr demo_said_event"
proof -
  have "hex_text [10, 255] = ''0aff''" and "role_name RolePlayer = ''player''" by code_simp+
  then show ?thesis
    by (simp add: to_event_def demo_line_def demo_player_def demo_random_def new_event_id_def event_payload_def demo_said_event_def
        voice_def backfill_move_def)
qed

lemma demo_line_passes: "command_gates demo_player demo_line None new_state = None"
  by (simp add: command_gates_def player_gate_def door_gate_def door_square_of_def form_gate_def demo_line_def)

lemma demo_line_stored:
  "\<exists>db. append_values demo_codec faultless [demo_said_event] [] empty_database = Inr (1, db, [demo_said_event\<lparr>env_sequence := 1\<rparr>], [])"
  by (simp add: append_values_def append_batch_def append_locked_def insert_event_def write_sequence_def set_sequence_def
      Let_def faultless_def demo_codec_def empty_database_def demo_said_event_def)

lemma demo_line_folds:
  "validate_from demo_random 0 0 [demo_said_event] new_state = Inr [demo_said_event] \<and>
   fan_out_from 0 0 [demo_said_event] new_state ([], fmempty, 0) = Inr ([], fmempty, 0) \<and>
   apply_events new_state [demo_said_event\<lparr>env_sequence := 1\<rparr>] = Inr new_state"
proof -
  have ev: "apply_event new_state (demo_said_event\<lparr>env_sequence := 1\<rparr>) = Inr new_state" by code_simp
  moreover have "stamp_session (demo_random 0) new_state demo_said_event = Inr demo_said_event" by code_simp
  moreover have "ffilter Q {||} = {||}" for Q :: "string \<Rightarrow> bool" by auto
  then have "log_ids fmempty new_state = []" by (simp add: log_ids_def new_state_def sorted_list_of_fset.rep_eq)
  ultimately show ?thesis by (simp add: set_sequence_def Let_def)
qed

lemma demo_appended_line: "fst (snd (append_one demo_codec faultless demo_random demo_said_event demo_new)) = Inr 1"
proof -
  obtain db where "append_values demo_codec faultless [demo_said_event] [] empty_database =
      Inr (1, db, [demo_said_event\<lparr>env_sequence := 1\<rparr>], [])"
    using demo_line_stored by blast
  moreover have "snapshot new_state = new_state" by code_simp
  moreover have "env_payload demo_said_event \<noteq> None" by (simp add: demo_said_event_def)
  ultimately show ?thesis
    using demo_line_folds by (simp add: append_one_def append_locked_campaign_def demo_new_def fan_out_def Let_def)
qed

lemma demo_said_as_pat: "map env_payload (fst (snd (snd demo_said))) = [env_payload demo_said_event]"
proof -
  obtain env where env: "to_event (0, 0) (demo_random 0) demo_line demo_player = Inr env"
    and ev: "voice demo_line demo_player new_state (backfill_move new_state env) = demo_said_event"
    using demo_line_converts by (cases "to_event (0, 0) (demo_random 0) demo_line demo_player") auto
  obtain c world entries where
    app: "append_one demo_codec faultless demo_random demo_said_event demo_new = (c, Inr 1, world, entries)"
    using demo_appended_line by (metis prod.collapse)
  have "demo_said = handle_one_event demo_outside demo_player demo_line new_state demo_gateway"
    unfolding demo_said_def handle_authorized_def demo_line_passes by (simp add: dispatch_def demo_line_def)
  then have said: "demo_said = (demo_gateway\<lparr>gw_campaign := c\<rparr>, accepted 1 [], world, entries)"
    by (simp add: handle_one_event_def demo_outside_def demo_gateway_def env ev app)
  obtain es wes where "campaign_holds demo_codec demo_new es wes"
    using campaign_reachable_ok[OF demo_table_reachable demo_table_codec] by (auto simp: campaign_ok_def demo_outside_def demo_gateway_def)
  from append_one_grows[OF this app] have "map env_payload world = [env_payload demo_said_event]"
    by (auto simp: env_body_def)
  then show ?thesis unfolding said fst_conv snd_conv .
qed

theorem command_appends_as_its_issuer_witness:
  "list_all (by_issuer demo_player) (fst (snd (snd demo_said))) \<and> fst (snd (snd demo_said)) \<noteq> []"
proof -
  obtain g' res world entries where said: "demo_said = (g', res, world, entries)" by (metis prod_cases4)
  from command_appends_as_its_issuer[OF demo_table_reachable demo_table_codec said[unfolded demo_said_def]] demo_said_as_pat
  show ?thesis by (auto simp: said)
qed

end
