(* ===== verification/Gateway_Player.thy ===== *)
theory Gateway_Player
  imports Gateway_Props Resolve_Props
begin

text \<open>
  What a player can do to the world. \<open>player_may\<close> is the abstract policy, over the events themselves and the
  state: the property is that the gates and the handlers let nothing else into the log, whatever the command holds.
\<close>

subsection \<open>Whom an ability touches\<close>

definition concerns :: "string set \<Rightarrow> payload option \<Rightarrow> bool" where
  "concerns who pl =
     (case pl of
        Some (ResourceChanged rc) \<Rightarrow> rc_actor_id rc \<in> who
      | Some (ConditionApplied ce) \<Rightarrow> ce_actor_id ce \<in> who
      | Some (ConditionRemoved ce) \<Rightarrow> ce_actor_id ce \<in> who
      | _ \<Rightarrow> False)"

definition confined :: "string set \<Rightarrow> envelope list \<Rightarrow> resolve_state \<Rightarrow> resolve_state \<Rightarrow> bool" where
  "confined who evs v v' =
     (list_all (concerns who) (map env_payload evs) \<and>
      (fst ` set (rv_changed v) \<subseteq> who \<longrightarrow> fst ` set (rv_changed v') \<subseteq> who))"

lemma confined_nothing [simp]: "confined who [] v v"
  by (simp add: confined_def)

lemma confined_append: "confined who evs v v1 \<Longrightarrow> confined who evs' v1 v2 \<Longrightarrow> confined who (evs @ evs') v v2"
  by (auto simp: confined_def)

lemma confined_envelopes [simp]:
  "aid \<in> who \<Longrightarrow> confined who [condition_applied_envelope aid cid src] v (set_condition aid cid b v)"
  "aid \<in> who \<Longrightarrow> confined who [condition_removed_envelope aid cid src] v (set_condition aid cid b v)"
  by (simp_all add: confined_def concerns_def condition_applied_envelope_def condition_removed_envelope_def payload_only_def)

lemma apply_delta_confined:
  assumes "apply_delta st aid name delta v = (nv, v')" and "aid \<in> who"
  shows "confined who [resource_changed_envelope aid name delta' nv' reason] v v'"
  using apply_delta_changed[OF assms(1)] assms(2)
  by (force simp: confined_def concerns_def resource_changed_envelope_def payload_only_def)

lemma apply_outcome_confined:
  assumes "aid \<in> who" and "apply_outcome st roller caster aid reason oc v r = (Inr (evs, rolls, v'), r')"
  shows "confined who evs v v'"
proof (cases oc)
  case (ResourceChangeOutcome name e src)
  from resource_outcomeE[OF assms(2)[unfolded ResourceChangeOutcome]] show ?thesis
    by (metis apply_delta_confined[OF _ assms(1)])
next
  case (ApplyConditionOutcome cid)
  with assms show ?thesis by (auto simp: apply_outcome_def split: if_splits)
next
  case (RemoveConditionOutcome cid)
  with assms show ?thesis by (auto simp: apply_outcome_def split: if_splits)
qed

lemma apply_outcomes_confined:
  assumes "aid \<in> who" and "apply_outcomes st roller caster aid reason ocs v r = (Inr (evs, rolls, v'), r')"
  shows "confined who evs v v'"
  using assms(2)
proof (induction ocs arbitrary: v r evs rolls v')
  case (Cons oc ocs)
  then obtain evs1 rolls1 v1 r1 evs2 rolls2 where
    "apply_outcome st roller caster aid reason oc v r = (Inr (evs1, rolls1, v1), r1)"
    "apply_outcomes st roller caster aid reason ocs v1 r1 = (Inr (evs2, rolls2, v'), r')" "evs = evs1 @ evs2" by auto
  with Cons.IH apply_outcome_confined[OF assms(1)] confined_append show ?case by metis
qed simp

lemma apply_threshold_confined: "apply_threshold st aid reason th n v = (evs, v') \<Longrightarrow> aid \<in> who \<Longrightarrow> confined who evs v v'"
  by (auto simp: apply_threshold_def Let_def split: if_splits)

lemma eval_thresholds_of_confined:
  assumes "aid \<in> who" and "eval_thresholds_of st roller aid name ctx j ths v r = (Inr (evs, v'), r')"
  shows "confined who evs v v'"
  using assms(2)
proof (induction ths arbitrary: j v r evs v')
  case (Cons th ths)
  obtain n r1 where ev: "eval_single (th_when th) (ec_attrs ctx) (ec_resources ctx) roller r = (Inr n, r1)"
    using Cons.prems by (auto split: prod.splits sum.splits)
  obtain evs1 v1 where th: "apply_threshold st aid (''threshold:'' @ name) th n v = (evs1, v1)" by fastforce
  obtain evs2 where rest: "eval_thresholds_of st roller aid name ctx (Suc j) ths v1 r1 = (Inr (evs2, v'), r')"
    "evs = evs1 @ evs2" using Cons.prems ev th by auto
  show ?case
    unfolding rest(2) by (rule confined_append[OF apply_threshold_confined[OF th assms(1)] Cons.IH[OF rest(1)]])
qed simp

lemma eval_thresholds_confined:
  assumes "fst ` set ks \<subseteq> who" and "eval_thresholds st roller defs ks v r = (Inr (evs, v'), r')"
  shows "confined who evs v v'"
  using assms
proof (induction ks arbitrary: v r evs v')
  case (Cons key ks)
  obtain aid name where key: "key = (aid, name)" by fastforce
  show ?case
  proof (cases "fmlookup defs name")
    case None
    with Cons key show ?thesis by simp
  next
    case (Some d)
    with Cons.prems key obtain evs1 v1 r1 evs2 where
      "eval_thresholds_of st roller aid name (context_in st v aid) 0 (rd_thresholds d) v r = (Inr (evs1, v1), r1)"
      "eval_thresholds st roller defs ks v1 r1 = (Inr (evs2, v'), r')" "evs = evs1 @ evs2" by auto
    moreover have "aid \<in> who" "fst ` set ks \<subseteq> who" using Cons.prems(1) key by auto
    ultimately show ?thesis using Cons.IH eval_thresholds_of_confined confined_append by metis
  qed
qed simp

lemma resolve_target_confined:
  assumes "tid \<in> who" and "resolve_target st roller caster ability tid v r = (Inr (g, v'), r')"
  shows "confined who (ga_events g) v v'"
proof -
  from assms(2) obtain g1 v1 r1 evs rolls where
    one: "(case cp_resolution ability of None \<Rightarrow> (Inr (no_gathered, v), r)
       | Some cr \<Rightarrow> resolve_roll st roller caster ability cr tid v r) = (Inr (g1, v1), r1)"
    and two: "apply_outcomes st roller caster tid (ability_reason (cp_id ability) ''effect'') (cp_effects ability) v1 r1
       = (Inr (evs, rolls, v'), r')" and g: "ga_events g = ga_events g1 @ evs"
    by (auto simp: resolve_target_def gather_def)
  have "confined who (ga_events g1) v v1"
    using one apply_outcomes_confined[OF assms(1)]
    by (fastforce simp: resolve_roll_def Let_def no_gathered_def split: option.splits)
  from confined_append[OF this apply_outcomes_confined[OF assms(1) two]] show ?thesis by (simp add: g)
qed

lemma resolve_targets_confined:
  assumes "set tids \<subseteq> who" and "resolve_targets st roller caster ability tids v r = (Inr (g, v'), r')"
  shows "confined who (ga_events g) v v'"
  using assms
proof (induction tids arbitrary: v r g)
  case Nil
  then show ?case by (auto simp: no_gathered_def)
next
  case (Cons tid tids)
  then obtain g1 v1 r1 g2 where
    "resolve_target st roller caster ability tid v r = (Inr (g1, v1), r1)"
    "resolve_targets st roller caster ability tids v1 r1 = (Inr (g2, v'), r')" "ga_events g = ga_events g1 @ ga_events g2"
    by (auto simp: gather_def)
  with Cons.IH Cons.prems(1) resolve_target_confined confined_append show ?case by (metis insert_subset list.simps(15))
qed

lemma spend_usage_confined:
  "spend_usage st caster ability = (evs, v) \<Longrightarrow> caster \<in> who \<Longrightarrow> confined who evs resolve_start v"
  by (auto simp: spend_usage_def Let_def split: option.splits prod.splits intro: apply_delta_confined)

lemma resolve_touches:
  assumes "resolve rs st ua roller r = (Inr envs, r')"
  shows "\<exists>au more. map env_payload envs = Some (AbilityUsed au) # more \<and> au_actor_id au = ua_actor_id ua \<and>
    au_target_ids au = ua_target_ids ua \<and> list_all (concerns (insert (ua_actor_id ua) (set (ua_target_ids ua)))) more"
proof -
  let ?who = "insert (ua_actor_id ua) (set (ua_target_ids ua))"
  obtain ability where ab: "resolve_checks rs st ua = Inr ability"
    using assms by (auto simp: resolve_def split: sum.splits)
  obtain spent v where spent: "spend_usage st (ua_actor_id ua) ability = (spent, v)" by fastforce
  obtain au g v1 r1 evs v2 where
    tgts: "resolve_targets st roller (ua_actor_id ua) ability (ua_target_ids ua) v r = (Inr (g, v1), r1)"
    and ths: "eval_thresholds st roller (resource_defs rs) (rv_changed v1) v1 r1 = (Inr (evs, v2), r')"
    and envs: "envs = payload_only (AbilityUsed au) # spent @ ga_events g @ evs" "au_actor_id au = ua_actor_id ua"
      "au_target_ids au = ua_target_ids ua"
    using assms ab spent by (auto simp: resolve_def Let_def)
  have one: "confined ?who spent resolve_start v" by (rule spend_usage_confined[OF spent]) simp
  have two: "confined ?who (ga_events g) v v1" by (rule resolve_targets_confined[OF _ tgts]) auto
  have "confined ?who (spent @ ga_events g) resolve_start v1" by (rule confined_append[OF one two])
  then have "fst ` set (rv_changed v1) \<subseteq> ?who" by (simp add: confined_def resolve_start_def)
  from eval_thresholds_confined[OF this ths] one two envs(2,3) show ?thesis
    unfolding envs(1) by (auto simp: confined_def payload_only_def)
qed

subsection \<open>The policy\<close>

definition controls_in :: "participant \<Rightarrow> state \<Rightarrow> string \<Rightarrow> bool" where
  "controls_in p st aid = controls (fmlookup (st_actors st) aid) (pt_id p)"

definition speaks_for :: "participant \<Rightarrow> state \<Rightarrow> string \<Rightarrow> bool" where
  "speaks_for p st aid = own_party_member (fmlookup (st_actors st) aid) (pt_id p)"

text \<open>Working a door: one is there, and a token of the player's stands on it or on one of the eight squares around it.\<close>

definition at_door :: "participant \<Rightarrow> state \<Rightarrow> string \<Rightarrow> grid_position option \<Rightarrow> bool" where
  "at_door p st sid at =
     (is_door st sid (pos_x at) (pos_y at) \<and>
      list_ex (\<lambda>tid. case fmlookup (st_tokens st) tid of
          None \<Rightarrow> False
        | Some tok \<Rightarrow> 
            tok_scene_id tok = sid \<and> controls (fmlookup (st_actors st) (tok_actor_id tok)) (pt_id p) \<and> adjacent tok at) (keys (st_tokens st)))"

definition player_may :: "participant \<Rightarrow> eyes \<Rightarrow> state \<Rightarrow> payload \<Rightarrow> bool" where
  "player_may p e st pl =
     (case pl of
        TokenMoved tm \<Rightarrow>
          (case fmlookup (st_tokens st) (tm_token_id tm) of
             None \<Rightarrow> False
           | Some tok \<Rightarrow>
               controls_in p st (tok_actor_id tok) \<and>
               tm_scene_id tm = tok_scene_id tok \<and> tm_from tm = Some \<lparr>gp_x = tok_x tok, gp_y = tok_y tok\<rparr> \<and>
               can_see e st (tok_scene_id tok) (tm_to tm) \<and>
               blocked st (tok_scene_id tok) (pos_x (tm_to tm)) (pos_y (tm_to tm)) = None)
      | AbilityUsed au \<Rightarrow> controls_in p st (au_actor_id au) \<and> list_all (sees_actor e st) (au_target_ids au)
      | ResourceChanged rc \<Rightarrow> controls_in p st (rc_actor_id rc) \<or> sees_actor e st (rc_actor_id rc)
      | ConditionApplied ce \<Rightarrow> controls_in p st (ce_actor_id ce) \<or> sees_actor e st (ce_actor_id ce)
      | ConditionRemoved ce \<Rightarrow> controls_in p st (ce_actor_id ce) \<or> sees_actor e st (ce_actor_id ce)
      | ActorControlRevoked aid pid \<Rightarrow> pid = pt_id p \<and> controls_in p st aid
      | DoorOpened sid at \<Rightarrow> at_door p st sid at
      | DoorClosed sid at \<Rightarrow> at_door p st sid at
      | NarrationAdded na \<Rightarrow>
          (if na_out_of_character na then na_as na = pt_name p
           else na_as na \<noteq> [] \<and> list_ex (\<lambda>aid. speaks_for p st aid \<and> na_as na = name_of_actor (fmlookup (st_actors st) aid)) (keys (st_actors st)))
      | WhisperAdded w \<Rightarrow> wa_to_actor_ids w = [] \<and> speaks_for p st (wa_from_actor_id w)
      | _ \<Rightarrow> False)"

definition allowed :: "(payload \<Rightarrow> bool) \<Rightarrow> payload option \<Rightarrow> bool" where
  "allowed Q pl = (case pl of None \<Rightarrow> False | Some pl \<Rightarrow> Q pl)"

definition payload_of :: "body \<Rightarrow> payload option" where
  "payload_of b = (case b of (_, _, _, _, pl) \<Rightarrow> pl)"

lemma payload_of_body [simp]: "payload_of (env_body e) = env_payload e"
  by (simp add: payload_of_def env_body_def)

lemma authorize_player_cases:
  assumes "pt_role p = RolePlayer" and "authorize p c st = None"
  shows "\<exists>cmd. c = Some cmd \<and> (case cmd of
      MoveToken tid to reason \<Rightarrow> authorize_token_ownership p tid st = None
    | UseAbility ua \<Rightarrow> controls_in p st (ua_actor_id ua)
    | RemoveCondition aid cid \<Rightarrow> controls_in p st aid
    | RevokeActorControl aid pid \<Rightarrow> authorize_self_revoke p aid pid st = None
    | OpenDoor sid at \<Rightarrow> may_work_door p st sid at = None
    | CloseDoor sid at \<Rightarrow> may_work_door p st sid at = None
    | AddNarration na \<Rightarrow> may_voice p na (st_actors st) = None
    | AddWhisper w \<Rightarrow> may_whisper p w (st_actors st) = None
    | SetViewpoint aid \<Rightarrow> may_watch p aid (st_actors st) = None
    | _ \<Rightarrow> False)"
proof (cases c)
  case None
  with assms show ?thesis by (simp add: authorize_def command_name_def command_roles_def)
next
  case (Some cmd)
  with assms show ?thesis
    by (cases cmd) (simp_all add: authorize_def command_name_def command_roles_def every_role_checks_def authorize_player_def
        player_rules_def authorize_actor_ownership_def controls_in_def split: option.splits if_splits)
qed

lemma gates_open:
  assumes "pt_role p = RolePlayer" and "command_gates p (Some cmd) told st = None"
  shows "case cmd of
      MoveToken tid to reason \<Rightarrow> move_gate p told st tid to = None
    | UseAbility ua \<Rightarrow> list_all (sees_actor (shoulder (judged_by told p (st_actors st))) st) (ua_target_ids ua)
    | OpenDoor sid at \<Rightarrow> is_door st sid (pos_x at) (pos_y at)
    | CloseDoor sid at \<Rightarrow> is_door st sid (pos_x at) (pos_y at)
    | _ \<Rightarrow> True"
  using assms
  by (cases cmd) (auto simp: command_gates_def player_gate_def sight_gate_def door_gate_def door_square_of_def Let_def
      find_None_iff list_all_iff split: option.splits if_splits)

lemma own_in_keys: "speaks_for p st aid \<Longrightarrow> aid \<in> set (keys (st_actors st))"
  by (auto simp: speaks_for_def own_party_member_def controls_def intro!: fmdom'I split: if_splits option.splits)

lemma one_event_allowed:
  assumes role: "pt_role p = RolePlayer" and auth: "authorize p c st = None" and gates: "command_gates p c told st = None"
    and env: "to_event now rnd c p = Inr env"
  shows "allowed (player_may p (shoulder (judged_by told p (st_actors st))) st) (env_payload (voice c p st (backfill_move st env)))"
proof -
  obtain cmd where c: "c = Some cmd" and rule: "case cmd of
      MoveToken tid to reason \<Rightarrow> authorize_token_ownership p tid st = None
    | UseAbility ua \<Rightarrow> controls_in p st (ua_actor_id ua)
    | RemoveCondition aid cid \<Rightarrow> controls_in p st aid
    | RevokeActorControl aid pid \<Rightarrow> authorize_self_revoke p aid pid st = None
    | OpenDoor sid at \<Rightarrow> may_work_door p st sid at = None
    | CloseDoor sid at \<Rightarrow> may_work_door p st sid at = None
    | AddNarration na \<Rightarrow> may_voice p na (st_actors st) = None
    | AddWhisper w \<Rightarrow> may_whisper p w (st_actors st) = None
    | SetViewpoint aid \<Rightarrow> may_watch p aid (st_actors st) = None
    | _ \<Rightarrow> False" using authorize_player_cases[OF role auth] by blast
  from env c have pl: "env_payload env = event_payload (Some cmd)" "event_payload (Some cmd) \<noteq> None"
    by (auto simp: to_event_def sum_bind_eq_Inr split: option.splits)
  note open_gates = gates_open[OF role gates[unfolded c]]
  show ?thesis
  proof (cases cmd)
    case (MoveToken tid to reason)
    with rule open_gates pl show ?thesis
      by (auto simp: c event_payload_def allowed_def voice_def backfill_move_def player_may_def move_gate_def controls_in_def
          authorize_token_ownership_def split: option.splits if_splits)
  next
    case (OpenDoor sid at)
    with rule open_gates pl role show ?thesis
      by (auto simp: c event_payload_def allowed_def voice_def backfill_move_def player_may_def at_door_def controls_in_def
          may_work_door_def list_ex_iff split: if_splits)
  next
    case (CloseDoor sid at)
    with rule open_gates pl role show ?thesis
      by (auto simp: c event_payload_def allowed_def voice_def backfill_move_def player_may_def at_door_def controls_in_def
          may_work_door_def list_ex_iff split: if_splits)
  next
    case (AddNarration na)
    with rule pl role show ?thesis
      using own_in_keys[of p st "an_actor_id na"]
      by (auto simp: c event_payload_def allowed_def voice_def backfill_move_def player_may_def speaks_for_def
          may_voice_def Let_def list_ex_iff split: if_splits)
  qed (use rule pl role in \<open>auto simp: c event_payload_def allowed_def voice_def backfill_move_def player_may_def speaks_for_def
      controls_in_def may_whisper_def authorize_self_revoke_def authorize_actor_ownership_def Let_def split: if_splits\<close>)
qed

lemma use_allowed:
  assumes role: "pt_role p = RolePlayer" and auth: "authorize p (Some (UseAbility ua)) st = None"
    and gates: "command_gates p (Some (UseAbility ua)) told st = None"
    and run: "resolve rs st ua roller r = (Inr envs, r')"
  shows "list_all (allowed (player_may p (shoulder (judged_by told p (st_actors st))) st)) (map env_payload envs)"
proof -
  let ?may = "player_may p (shoulder (judged_by told p (st_actors st))) st"
  have caster: "controls_in p st (ua_actor_id ua)" using authorize_player_cases[OF role auth] by simp
  have tgts: "list_all (sees_actor (shoulder (judged_by told p (st_actors st))) st) (ua_target_ids ua)"
    using gates_open[OF role gates] by simp
  have "concerns (insert (ua_actor_id ua) (set (ua_target_ids ua))) pl \<Longrightarrow> allowed ?may pl" for pl
    using caster tgts by (auto simp: concerns_def allowed_def player_may_def list_all_iff split: option.splits payload.splits)
  then show ?thesis
    using resolve_touches[OF run] caster tgts by (auto simp: list_all_iff allowed_def player_may_def)
qed

lemma stamped_allowed:
  assumes "stamp_events os p i envs = Inr envs'" and "list_all (allowed Q) (map env_payload envs)"
  shows "list_all (allowed Q \<circ> payload_of) (map env_body envs')"
proof -
  have "list_all (allowed Q) (map env_payload envs')" unfolding stamped_payloads[OF assms(1)] by (rule assms(2))
  then show ?thesis by (simp add: list_all_iff)
qed

lemma player_dispatch:
  assumes held: "campaign_holds (os_codec os) (gw_campaign g) es wes"
    and role: "pt_role p = RolePlayer" and auth: "authorize p c st = None" and gates: "command_gates p c told st = None"
  shows "appends_only (os_codec os) es (allowed (player_may p (shoulder (judged_by told p (st_actors st))) st) \<circ> payload_of)
    (gw_campaign g) (dispatch os p c st g)"
proof (cases "\<exists>ua. c = Some (UseAbility ua)")
  case True
  then obtain ua where c: "c = Some (UseAbility ua)" by blast
  have "appends_only (os_codec os) es (allowed (player_may p (shoulder (judged_by told p (st_actors st))) st) \<circ> payload_of)
      (gw_campaign g) (handle_use_ability os ua st p g)"
    by (rule handle_use_ability_appends[OF held]) (rule stamped_allowed[OF _ use_allowed[OF role auth[unfolded c] gates[unfolded c]]])
  then show ?thesis by (simp add: c dispatch_def)
next
  case False
  have "dispatch os p c st g = handle_one_event os p c st g"
  proof (cases c)
    case (Some cmd)
    with False authorize_player_cases[OF role auth] show ?thesis by (cases cmd) (simp_all add: dispatch_def)
  qed (simp add: dispatch_def)
  moreover have "appends_only (os_codec os) es (allowed (player_may p (shoulder (judged_by told p (st_actors st))) st) \<circ> payload_of)
      (gw_campaign g) (handle_one_event os p c st g)"
    by (rule handle_one_event_appends[OF held]) (simp add: one_event_allowed[OF role auth gates])
  ultimately show ?thesis by simp
qed

text \<open>
  C31: Whatever a player sends, the events it leads to are ones the policy allows them, judged by the state they were
  authorized against and by the eyes of the viewpoint they watch through: a token of theirs moved, from where it stands,
  to a square they see and that nothing blocks; a door they stand at, opened or closed; a condition of an actor of theirs
  removed; their own control given up; words as themselves or as a named party member of theirs, whispers to the DM alone;
  and an ability used by an actor of theirs on actors they see, touching no one else.
\<close>

theorem player_acts_within_policy:
  assumes "campaign_reachable (os_codec os) (gw_campaign g)" and "codec_ok (os_codec os)"
    and "pt_role p = RolePlayer" and "authorize p c st = None"
    and "handle_authorized os p c told st g = (g', res, world, entries)"
  shows "list_all (allowed (player_may p (shoulder (judged_by told p (st_actors st))) st)) (map env_payload world)"
proof (cases "command_gates p c told st")
  case (Some err)
  with assms(5) show ?thesis by (auto simp: handle_authorized_def refuse_def)
next
  case None
  obtain es wes where held: "campaign_holds (os_codec os) (gw_campaign g) es wes"
    using campaign_reachable_ok[OF assms(1,2)] by (auto simp: campaign_ok_def)
  from player_dispatch[OF held assms(3,4) None] assms(5) None show ?thesis
    by (auto simp: handle_authorized_def appends_only_def list_all_iff)
qed

theorem player_acts_within_policy_witness:
  "player_may demo_player (shoulder []) new_state (NarrationAdded \<lparr>na_text = ''Back in five.'', na_as = ''Pat'',
     na_anchor_from = 0, na_anchor_to = 0, na_out_of_character = True\<rparr>)"
proof -
  obtain g' res world entries where said: "demo_said = (g', res, world, entries)" by (metis prod_cases4)
  have "pt_role demo_player = RolePlayer" by (simp add: demo_player_def)
  from player_acts_within_policy[OF demo_table_reachable demo_table_codec this demo_line_authorized said[unfolded demo_said_def]]
    demo_said_as_pat
  have "player_may demo_player (shoulder (judged_by None demo_player (st_actors new_state))) new_state
      (NarrationAdded \<lparr>na_text = ''Back in five.'', na_as = ''Pat'', na_anchor_from = 0, na_anchor_to = 0, na_out_of_character = True\<rparr>)"
    by (simp add: said allowed_def demo_said_event_def)
  moreover have "judged_by None demo_player (st_actors new_state) = []" by code_simp
  ultimately show ?thesis by simp
qed

end
