(* ===== verification/Gateway_Guards.thy ===== *)
theory Gateway_Guards
  imports Gateway_Props Identity_Props
begin

text \<open>
  Two guards of the gateway, exactly: which squares a token is next to when a player works a door, machine
  arithmetic included, and that no command touches the row of a DM or an agent.
\<close>

subsection \<open>Next to a door\<close>

text \<open>How far apart two \<open>int32\<close> coordinates may be and pass: one, or a distance whose difference wraps.\<close>

definition near :: "int \<Rightarrow> bool" where
  "near d = (\<bar>d\<bar> \<le> 1 \<or> \<bar>d\<bar> = 2147483648 \<or> \<bar>d\<bar> = 4294967295)"

lemma sint_int32: "- 2147483648 \<le> sint (n :: int32)" "sint (n :: int32) \<le> 2147483647"
  using sint_range_size[of n] by (simp_all add: word_size)

lemma sint_go_abs: "sint (go_abs n) = (if sint n = - 2147483648 then - 2147483648 else \<bar>sint n\<bar>)"
proof -
  have "sint (- n) = (2147483648 - sint n) mod 4294967296 - 2147483648"
    by (simp add: sint_word_ariths(4) signed_take_bit_eq_take_bit_shift take_bit_eq_mod)
  moreover have "(2147483648 - sint n) mod 4294967296 = (if sint n = - 2147483648 then 0 else 2147483648 - sint n)" if "sint n < 0"
    using that sint_int32[of n] by (auto simp: mod_pos_pos_trivial)
  ultimately show ?thesis using sint_int32[of n] by (auto simp: go_abs_def)
qed

lemma wrapped_difference:
  fixes a b :: int32
  shows "sint (a - b) \<in> {sint a - sint b, sint a - sint b - 4294967296, sint a - sint b + 4294967296}"
proof -
  have "sint (a - b) = (sint a - sint b + 2147483648) mod 4294967296 - 2147483648"
    by (simp add: sint_word_ariths signed_take_bit_eq_take_bit_shift take_bit_eq_mod)
  moreover obtain q where "sint a - sint b + 2147483648 = (sint a - sint b + 2147483648) mod 4294967296 + 4294967296 * q"
    by (metis mod_mult_div_eq)
  ultimately have w: "sint (a - b) = sint a - sint b - 4294967296 * q" by linarith
  then have "- 2 < q" "q < 2" using sint_int32[of a] sint_int32[of b] sint_int32[of "a - b"] by linarith+
  then have "q = - 1 \<or> q = 0 \<or> q = 1" by linarith
  with w show ?thesis by auto
qed

lemma go_abs_near: "(sint (go_abs (a - b)) \<le> 1) = near (sint a - sint b)"
  using wrapped_difference[of a b] sint_int32[of a] sint_int32[of b] sint_int32[of "a - b"]
  unfolding sint_go_abs near_def by (auto simp: abs_if split: if_splits)

text \<open>
  C32: A player may work a door exactly when a token of an actor they control stands on the door's scene and, on each
  axis, one square from it or less, or so far away that the difference of the coordinates wraps: a token at
  \<open>-2147483648\<close> is next to a door at \<open>0\<close>. Where the coordinates are not negative, nothing wraps.
\<close>

theorem door_reach_is_near:
  "(may_work_door p st sid at = None) =
    (if pt_role p = RolePlayer
     then \<exists>tid tok. fmlookup (st_tokens st) tid = Some tok \<and> tok_scene_id tok = sid \<and>
        controls (fmlookup (st_actors st) (tok_actor_id tok)) (pt_id p) \<and>
        near (sint (tok_x tok) - sint (pos_x at)) \<and> near (sint (tok_y tok) - sint (pos_y at))
     else True)"
  unfolding may_work_door_def adjacent_def go_abs_near
  by (force simp: list_ex_iff fmlookup_dom'_iff split: option.splits)

subsection \<open>Staff\<close>

definition is_staff :: "'h person \<Rightarrow> bool" where
  "is_staff row = (pw_role row \<in> {role_name RoleDM, role_name RoleAgent})"

definition staff_rows :: "('b, 'h, 'r) gateway \<Rightarrow> 'h person list" where
  "staff_rows g = filter is_staff (ib_people (gw_ids g))"

lemma append_stamped_rows [simp]: "staff_rows (fst (append_stamped os failure ws envs g)) = staff_rows g"
  by (simp add: append_stamped_def staff_rows_def split: prod.split sum.split)

lemma stamp_and_append_rows [simp]: "staff_rows (fst (stamp_and_append os failure ws p envs g)) = staff_rows g"
  by (simp add: stamp_and_append_def refuse_def split: sum.split)

lemma refuse_rows [simp]: "fst (refuse err g) = g"
  by (simp add: refuse_def)

lemma staff_rows_ids: "ib_people ids = ib_people (gw_ids g) \<Longrightarrow> staff_rows (g\<lparr>gw_ids := ids\<rparr>) = staff_rows g"
  by (simp add: staff_rows_def)

lemma map_by_id_ids: "map_by_id os mid g = (g', r) \<Longrightarrow> gw_ids g' = gw_ids g"
  by (auto simp: map_by_id_def split: option.splits sum.splits installed_error.splits if_splits)

text \<open>Who is found to be a player or a spectator has the only row of their id, and it is not a staff row.\<close>

lemma found_is_not_staff:
  assumes "distinct (map pw_id ps)" and "find (\<lambda>row. pw_id row = pid) ps = Some row" and "\<not> is_staff row"
    and "q \<in> set ps" and "is_staff q"
  shows "pw_id q \<noteq> pid"
proof
  assume "pw_id q = pid"
  moreover have "row \<in> set ps" "pw_id row = pid" using assms(2) by (auto simp: find_Some_iff)
  ultimately have "q = row" using assms(1,4) by (metis distinct_map inj_on_def)
  with assms(3,5) show False by simp
qed

lemma filter_map_fixed:
  assumes "\<And>x. x \<in> set xs \<Longrightarrow> P x \<Longrightarrow> f x = x" and "\<And>x. x \<in> set xs \<Longrightarrow> \<not> P x \<Longrightarrow> \<not> P (f x)"
  shows "filter P (map f xs) = filter P xs"
  using assms by (induction xs) auto

lemma looked_up_row:
  assumes "lookup_id io pid db = Inr who" and "pt_role who \<noteq> RoleDM" and "pt_role who \<noteq> RoleAgent"
  shows "\<exists>row. find (\<lambda>row. pw_id row = pid) (ib_people db) = Some row \<and> \<not> is_staff row \<and> pt_id who = pid"
  using assms
  by (auto simp: lookup_id_def resolved_def is_staff_def parse_role_Some find_Some_iff split: if_splits option.splits)

lemma removal_rows:
  assumes "distinct (map pw_id (ib_people (gw_ids g)))"
  shows "staff_rows (fst (handle_removal os pid st p g)) = staff_rows g"
proof (cases "lookup_id (os_ids os) pid (gw_ids g)")
  case (Inl err)
  then show ?thesis by (simp add: handle_removal_def)
next
  case (Inr who)
  show ?thesis
  proof (cases "pt_role who = RoleDM \<or> pt_role who = RoleAgent")
    case True
    with Inr show ?thesis by (auto simp: handle_removal_def)
  next
    case False
    with looked_up_row[OF Inr] obtain row where
      row: "find (\<lambda>row. pw_id row = pid) (ib_people (gw_ids g)) = Some row" "\<not> is_staff row" "pt_id who = pid" by auto
    have "filter is_staff (map (revoked_row pid) (ib_people (gw_ids g))) = filter is_staff (ib_people (gw_ids g))"
      using found_is_not_staff[OF assms row(1,2)] by (intro filter_map_fixed) (auto simp: revoked_row_def is_staff_def)
    then have "filter is_staff (ib_people (fst (revoke_id (os_ids os) pid (gw_ids g)))) = filter is_staff (ib_people (gw_ids g))"
      by (simp add: revoke_id_def Let_def)
    then have "staff_rows (g\<lparr>gw_ids := fst (revoke_id (os_ids os) pid (gw_ids g)), gw_presence := pres\<rparr>) = staff_rows g"
      "staff_rows (g\<lparr>gw_ids := fst (revoke_id (os_ids os) pid (gw_ids g))\<rparr>) = staff_rows g" for pres
      by (simp_all add: staff_rows_def)
    then show ?thesis using Inr row(3) by (auto simp: handle_removal_def Let_def split: sum.split prod.split option.split)
  qed
qed

lemma promotion_rows:
  assumes "distinct (map pw_id (ib_people (gw_ids g)))" and "authorize_promotion_target r = None"
  shows "staff_rows (fst (handle_promotion os pid r g)) = staff_rows g"
proof (cases "lookup_id (os_ids os) pid (gw_ids g)")
  case (Inl err)
  then show ?thesis by (simp add: handle_promotion_def)
next
  case (Inr who)
  show ?thesis
  proof (cases "pt_role who = RoleDM \<or> pt_role who = RoleAgent")
    case True
    with Inr show ?thesis by (auto simp: handle_promotion_def)
  next
    case False
    with looked_up_row[OF Inr] obtain row where
      row: "find (\<lambda>row. pw_id row = pid) (ib_people (gw_ids g)) = Some row" "\<not> is_staff row" by auto
    have low: "r \<noteq> role_name RoleDM" "r \<noteq> role_name RoleAgent"
      using assms(2) by (auto simp: authorize_promotion_target_def split: if_splits)
    have "filter is_staff (map (with_role pid r) (ib_people (gw_ids g))) = filter is_staff (ib_people (gw_ids g))"
      using found_is_not_staff[OF assms(1) row] low by (intro filter_map_fixed) (auto simp: with_role_def is_staff_def)
    then have "filter is_staff (ib_people (fst (set_role (os_ids os) pid r (gw_ids g)))) = filter is_staff (ib_people (gw_ids g))"
      by (simp add: set_role_def Let_def)
    then have "staff_rows (g\<lparr>gw_ids := fst (set_role (os_ids os) pid r (gw_ids g)), gw_presence := pres\<rparr>) = staff_rows g"
      "staff_rows (g\<lparr>gw_ids := fst (set_role (os_ids os) pid r (gw_ids g))\<rparr>) = staff_rows g" for pres
      by (simp_all add: staff_rows_def)
    then show ?thesis using Inr by (auto simp: handle_promotion_def announce_promotion_def split: prod.split option.split)
  qed
qed

lemma door_rows: "staff_rows (fst (handle_join_door os d n g)) = staff_rows g"
  by (auto simp: handle_join_door_def set_join_open_def Let_def staff_rows_def split: sum.split if_splits)

lemma rotate_rows: "staff_rows (fst (handle_rotate_join_link os g)) = staff_rows g"
  by (auto simp: handle_rotate_join_link_def rotate_join_secret_def staff_rows_def split: sum.split if_splits)

lemma load_map_rows: "staff_rows (fst (handle_load_map os mid p g)) = staff_rows g"
proof -
  obtain g' r where m: "map_by_id os mid g = (g', r)" by fastforce
  from map_by_id_ids[OF m] have "staff_rows g' = staff_rows g" by (simp add: staff_rows_def)
  then show ?thesis by (simp add: handle_load_map_def m split: sum.split prod.split)
qed

lemma other_rows:
  "staff_rows (fst (handle_use_ability os ua st p g)) = staff_rows g"
  "staff_rows (fst (handle_load_adventure os aid st p g)) = staff_rows g"
  "staff_rows (fst (handle_remove_actor os aid st p g)) = staff_rows g"
  "staff_rows (fst (handle_one_event os p c st g)) = staff_rows g"
proof -
  have "staff_rows (g\<lparr>gw_dice := r\<rparr>) = staff_rows g" for r by (simp add: staff_rows_def)
  then show "staff_rows (fst (handle_use_ability os ua st p g)) = staff_rows g"
    by (simp add: handle_use_ability_def split: option.split prod.split sum.split)
  show "staff_rows (fst (handle_load_adventure os aid st p g)) = staff_rows g"
    by (simp add: handle_load_adventure_def split: option.split prod.split sum.split)
  show "staff_rows (fst (handle_remove_actor os aid st p g)) = staff_rows g" by (simp add: handle_remove_actor_def)
  have "staff_rows (g\<lparr>gw_campaign := c\<rparr>) = staff_rows g" for c by (simp add: staff_rows_def)
  then show "staff_rows (fst (handle_one_event os p c st g)) = staff_rows g"
    by (simp add: handle_one_event_def split: prod.split sum.split)
qed

text \<open>
  C33: No command, whoever issues it, promotes anyone to DM or agent, and none changes the name, the role, the token
  or the standing of a DM or an agent: the rows of the staff are the same after it.
\<close>

theorem staff_is_fixed:
  assumes "distinct (map pw_id (ib_people (gw_ids g)))" and "authorize p c st = None"
  shows "staff_rows (fst (handle_authorized os p c told st g)) = staff_rows g"
proof -
  have "authorize_promotion_target r = None" if "c = Some (PromoteParticipant pid r)" for pid r
    using assms(2) that by (auto simp: authorize_def every_role_checks_def Let_def split: option.splits if_splits)
  then have "staff_rows (fst (dispatch os p c st g)) = staff_rows g"
    by (auto simp: dispatch_def removal_rows[OF assms(1)] promotion_rows[OF assms(1)] door_rows rotate_rows load_map_rows other_rows
        split: option.split command.split)
  then show ?thesis by (simp add: handle_authorized_def split: option.split)
qed

definition demo_staffed :: "(envelope, string, unit) gateway" where
  "demo_staffed = demo_gateway\<lparr>gw_ids := fresh_identity\<lparr>ib_people :=
     [\<lparr>pw_id = ''d1'', pw_name = ''Dee'', pw_role = ''dm'', pw_hash = ''h1'', pw_revoked = False\<rparr>,
      \<lparr>pw_id = ''p1'', pw_name = ''Pat'', pw_role = ''player'', pw_hash = ''h2'', pw_revoked = False\<rparr>]\<rparr>\<rparr>"

definition demo_demotion :: "command option" where
  "demo_demotion = Some (PromoteParticipant ''p1'' ''spectator'')"

lemma demo_demotion_works: "map pw_role (ib_people (gw_ids (fst (handle_authorized demo_outside
    \<lparr>pt_id = ''d1'', pt_name = ''Dee'', pt_role = RoleDM\<rparr> demo_demotion None new_state demo_staffed)))) = [''dm'', ''spectator'']"
  by code_simp

theorem staff_is_fixed_witness:
  "map pw_id (staff_rows (fst (handle_authorized demo_outside \<lparr>pt_id = ''d1'', pt_name = ''Dee'', pt_role = RoleDM\<rparr>
     demo_demotion None new_state demo_staffed))) = [''d1'']"
proof -
  have "distinct (map pw_id (ib_people (gw_ids demo_staffed)))" by (simp add: demo_staffed_def)
  moreover have "authorize \<lparr>pt_id = ''d1'', pt_name = ''Dee'', pt_role = RoleDM\<rparr> demo_demotion new_state = None" by code_simp
  ultimately show ?thesis
    by (subst staff_is_fixed) (simp_all add: staff_rows_def demo_staffed_def is_staff_def role_name_def)
qed

end
