(* ===== verification/Seat.thy ===== *)
theory Seat
  imports Authz
begin

text \<open>
  \<open>internal/gateway/seat.go\<close> and the pump of \<open>server.go\<close>: which log a connection is sent, and when that is judged
  anew. The pump shares the table with every other goroutine, so it calls the world in ticks: before each call
  any number of appends may have happened, each of which replaces the actors and raises the wake in one step
  (the campaign's lock covers both). What the world answers at a tick is \<open>schedule\<close>; every schedule is an
  interleaving. A switch of log that keeps being overtaken by wakes loops, so \<open>watch\<close> carries fuel: \<^const>\<open>None\<close> is
  a loop that has not ended.
\<close>

subsection \<open>The world's answers\<close>

datatype looked = Gone | LookupFault | Found participant

datatype write_outcome = Written | EncodeFails | WriterGone

record schedule =
  sd_actors :: "nat \<Rightarrow> cast_of"
  sd_appends :: "nat \<Rightarrow> nat"
  sd_poisoned :: "nat \<Rightarrow> bool"
  sd_lookup :: "nat \<Rightarrow> looked"
  sd_subscribe :: "nat \<Rightarrow> string + int"
  sd_ended :: "nat \<Rightarrow> bool"
  sd_write :: "nat \<Rightarrow> write_outcome"
  sd_closing :: "nat \<Rightarrow> bool"

subsection \<open>The seat\<close>

definition watches_a_log :: "role \<Rightarrow> bool" where
  "watches_a_log r = (r \<noteq> RoleDM \<and> r \<noteq> RoleAgent)"

datatype stream = WorldStream int | LogStream string int

datatype seat_error = SubscribeFails string | CampaignPoisoned | CampaignClosed | WatchEnded

text \<open>\<open>se_wake\<close> says whether the seat watches appends, which only a log seat does.\<close>

record seat =
  se_person :: participant
  se_stream :: "stream option"
  se_wake :: bool
  se_shown :: string
  se_judged_as :: role
  se_watchable :: "watchable_set option"
  se_told :: "string option"

datatype pump_frame =
    ViewpointFrame string
  | WatchableFrame "watchable_set option"
  | EntryFrame envelope

datatype close_reason = CredentialGone | StreamLost | CannotEncode

record pump =
  pu_seat :: seat
  pu_last_set :: "watchable_set option"
  pu_sent :: "pump_frame list"
  pu_close :: "close_reason option"
  pu_now :: nat
  pu_raised :: bool
  pu_tick :: nat

definition tick :: "schedule \<Rightarrow> pump \<Rightarrow> pump" where
  "tick sc pu =
     pu\<lparr>pu_now := pu_now pu + sd_appends sc (pu_tick pu),
        pu_raised := (pu_raised pu \<or> 0 < sd_appends sc (pu_tick pu)), pu_tick := Suc (pu_tick pu)\<rparr>"

text \<open>The actors as they are now, none while the campaign is poisoned.\<close>

definition read_actors :: "schedule \<Rightarrow> pump \<Rightarrow> cast_of \<times> pump" where
  "read_actors sc pu =
     (let pu' = tick sc pu in
      (if sd_poisoned sc (pu_tick pu) then fmempty else sd_actors sc (pu_now pu'), pu'))"

definition on_seat :: "(seat \<Rightarrow> seat) \<Rightarrow> pump \<Rightarrow> pump" where
  "on_seat f pu = pu\<lparr>pu_seat := f (pu_seat pu)\<rparr>"

definition resolve_seat :: "cast_of \<Rightarrow> pump \<Rightarrow> string \<times> pump" where
  "resolve_seat actors pu =
     (let s = pu_seat pu; p = se_person s in
      (if se_shown s \<noteq> [] \<and> may_watch p (se_shown s) actors = None then se_shown s else default_viewpoint p actors,
       on_seat (se_watchable_update (\<lambda>_. Some (watchable p actors))) pu))"

datatype poll = Quiet | Raised | Ended

text \<open>A look at the wake that does not wait; a seat without one never sees it raised.\<close>

definition poll_wake :: "schedule \<Rightarrow> pump \<Rightarrow> poll \<times> pump" where
  "poll_wake sc pu =
     (let pu' = tick sc pu in
      if \<not> se_wake (pu_seat pu) then (Quiet, pu')
      else if pu_raised pu' then (Raised, pu'\<lparr>pu_raised := False\<rparr>)
      else if sd_ended sc (pu_tick pu) then (Ended, pu')
      else (Quiet, pu'))"

definition show_log :: "string \<Rightarrow> pump \<Rightarrow> pump" where
  "show_log aid = on_seat (\<lambda>s. s\<lparr>se_stream := None, se_shown := aid, se_judged_as := pt_role (se_person s),
     se_told := Some aid\<rparr>)"

definition subscribe_log :: "schedule \<Rightarrow> string \<Rightarrow> int \<Rightarrow> pump \<Rightarrow> (seat_error + int) \<times> pump" where
  "subscribe_log sc aid cursor pu =
     (if aid = [] then (Inr 0, pu)
      else case sd_subscribe sc (pu_tick pu) of
        Inl why \<Rightarrow> (Inl (SubscribeFails why), tick sc pu)
      | Inr head \<Rightarrow> (Inr head, on_seat (se_stream_update (\<lambda>_. Some (LogStream aid cursor))) (tick sc pu)))"

fun watch :: "schedule \<Rightarrow> nat \<Rightarrow> string \<Rightarrow> int \<Rightarrow> pump \<Rightarrow> ((seat_error + int) \<times> pump) option" where
  "watch sc 0 aid cursor pu = None"
| "watch sc (Suc n) aid cursor pu =
     (case subscribe_log sc aid cursor (show_log aid pu) of
        (Inl err, pu1) \<Rightarrow> Some (Inl err, pu1)
      | (Inr head, pu1) \<Rightarrow>
          (case poll_wake sc pu1 of
             (Ended, pu2) \<Rightarrow> Some (Inl WatchEnded, pu2)
           | (Quiet, pu2) \<Rightarrow> Some (Inr head, pu2)
           | (Raised, pu2) \<Rightarrow>
               (case read_actors sc pu2 of
                  (actors, pu3) \<Rightarrow>
                    (case resolve_seat actors pu3 of
                       (nxt, pu4) \<Rightarrow> if nxt = aid then Some (Inr head, pu4) else watch sc n nxt 0 pu4))))"

text \<open>Whether the actors after a wake moved the seat.\<close>

definition recheck :: "schedule \<Rightarrow> nat \<Rightarrow> pump \<Rightarrow> ((seat_error + bool) \<times> pump) option" where
  "recheck sc n pu =
     (case read_actors sc (on_seat (\<lambda>s. s\<lparr>se_judged_as := pt_role (se_person s)\<rparr>) pu) of
        (actors, pu1) \<Rightarrow>
          (case resolve_seat actors pu1 of
             (nxt, pu2) \<Rightarrow>
               if nxt = se_shown (pu_seat pu2) then Some (Inr False, pu2)
               else map_option (apfst (map_sum id (\<lambda>_. True))) (watch sc n nxt 0 pu2)))"

definition rejudge :: "schedule \<Rightarrow> nat \<Rightarrow> pump \<Rightarrow> ((seat_error + bool) \<times> pump) option" where
  "rejudge sc n pu =
     (if pt_role (se_person (pu_seat pu)) = se_judged_as (pu_seat pu) then Some (Inr False, pu) else recheck sc n pu)"

text \<open>Whether an entry taken from the log may go out (\<open>Inr False\<close>: the seat stayed) or the seat moved first.\<close>

definition admit :: "schedule \<Rightarrow> nat \<Rightarrow> pump \<Rightarrow> ((seat_error + bool) \<times> pump) option" where
  "admit sc n pu =
     (case poll_wake sc pu of
        (Ended, pu1) \<Rightarrow> Some (Inl WatchEnded, pu1)
      | (Quiet, pu1) \<Rightarrow> Some (Inr False, pu1)
      | (Raised, pu1) \<Rightarrow> recheck sc n pu1)"

subsection \<open>Opening\<close>

definition open_seat :: "schedule \<Rightarrow> nat \<Rightarrow> participant \<Rightarrow> string \<Rightarrow> int \<Rightarrow> nat \<Rightarrow> ((seat_error + int) \<times> pump) option" where
  "open_seat sc n p named after appends =
     (let s = \<lparr>se_person = p, se_stream = None, se_wake = False, se_shown = [], se_judged_as = pt_role p,
               se_watchable = None, se_told = None\<rparr>;
          pu = \<lparr>pu_seat = s, pu_last_set = None, pu_sent = [], pu_close = None, pu_now = appends, pu_raised = False,
                pu_tick = 0\<rparr> in
      if \<not> watches_a_log (pt_role p) then
        Some (case sd_subscribe sc (pu_tick pu) of
            Inl why \<Rightarrow> (Inl (SubscribeFails why), tick sc pu)
          | Inr head \<Rightarrow> (Inr head, on_seat (se_stream_update (\<lambda>_. Some (WorldStream after))) (tick sc pu)))
      else if sd_poisoned sc (pu_tick pu) then Some (Inl CampaignPoisoned, tick sc pu)
      else if sd_ended sc (pu_tick pu) then Some (Inl CampaignClosed, tick sc pu)
      else
        (case read_actors sc (on_seat (se_wake_update (\<lambda>_. True)) ((tick sc pu)\<lparr>pu_raised := False\<rparr>)) of
           (actors, pu1) \<Rightarrow>
             let pu2 = on_seat (se_watchable_update (\<lambda>_. Some (watchable p actors))) pu1 in
             if named \<noteq> [] \<and> may_watch p named actors = None then watch sc n named after pu2
             else watch sc n (default_viewpoint p actors) 0 pu2))"

subsection \<open>The pump\<close>

definition close_with :: "schedule \<Rightarrow> close_reason \<Rightarrow> pump \<Rightarrow> pump" where
  "close_with sc why pu = (if sd_closing sc (pu_tick pu) then tick sc pu else (tick sc pu)\<lparr>pu_close := Some why\<rparr>)"

definition revoked :: "schedule \<Rightarrow> pump \<Rightarrow> bool \<times> pump" where
  "revoked sc pu =
     (case sd_lookup sc (pu_tick pu) of
        Gone \<Rightarrow> (True, close_with sc CredentialGone (tick sc pu))
      | LookupFault \<Rightarrow> (False, tick sc pu)
      | Found p \<Rightarrow> (False, on_seat (se_person_update (\<lambda>_. p)) (tick sc pu)))"

definition queue_frame :: "schedule \<Rightarrow> pump_frame \<Rightarrow> pump \<Rightarrow> bool \<times> pump" where
  "queue_frame sc f pu =
     (case sd_write sc (pu_tick pu) of
        Written \<Rightarrow> (True, (tick sc pu)\<lparr>pu_sent := pu_sent pu @ [f]\<rparr>)
      | EncodeFails \<Rightarrow> (False, close_with sc CannotEncode (tick sc pu))
      | WriterGone \<Rightarrow> (False, tick sc pu))"

definition announce :: "schedule \<Rightarrow> pump \<Rightarrow> bool \<times> pump" where
  "announce sc pu = queue_frame sc (ViewpointFrame (se_shown (pu_seat pu))) pu"

definition tell :: "schedule \<Rightarrow> pump \<Rightarrow> bool \<times> pump" where
  "tell sc pu =
     (let s = pu_seat pu in
      if \<not> se_wake s \<or> (pu_last_set pu \<noteq> None \<and> pu_last_set pu = se_watchable s) then (True, pu)
      else queue_frame sc (WatchableFrame (se_watchable s)) (pu\<lparr>pu_last_set := se_watchable s\<rparr>))"

definition moved :: "schedule \<Rightarrow> seat_error + bool \<Rightarrow> pump \<Rightarrow> bool \<times> pump" where
  "moved sc outcome pu =
     (case outcome of
        Inl err \<Rightarrow> (False, close_with sc StreamLost pu)
      | Inr switched \<Rightarrow>
          (case (if switched then revoked sc pu else (False, pu)) of
             (True, pu1) \<Rightarrow> (False, pu1)
           | (False, pu1) \<Rightarrow>
               (case tell sc pu1 of
                  (False, pu2) \<Rightarrow> (False, pu2)
                | (True, pu2) \<Rightarrow> if switched then announce sc pu2 else (True, pu2))))"

definition on_wake :: "schedule \<Rightarrow> nat \<Rightarrow> pump \<Rightarrow> (bool \<times> pump) option" where
  "on_wake sc n pu =
     (case revoked sc pu of
        (True, pu1) \<Rightarrow> Some (False, pu1)
      | (False, pu1) \<Rightarrow> map_option (\<lambda>(outcome, pu2). moved sc outcome pu2) (recheck sc n pu1))"

definition on_perch :: "schedule \<Rightarrow> nat \<Rightarrow> string \<Rightarrow> pump \<Rightarrow> (bool \<times> pump) option" where
  "on_perch sc n aid pu =
     (case revoked sc pu of
        (True, pu1) \<Rightarrow> Some (False, pu1)
      | (False, pu1) \<Rightarrow>
          if aid = se_shown (pu_seat pu1) then Some (True, pu1)
          else (case read_actors sc pu1 of
            (actors, pu2) \<Rightarrow>
              if may_watch (se_person (pu_seat pu2)) aid actors \<noteq> None then Some (True, pu2)
              else map_option (\<lambda>(outcome, pu3). moved sc (map_sum id (\<lambda>_. True) outcome) pu3) (watch sc n aid 0 pu2)))"

definition deliver :: "schedule \<Rightarrow> envelope \<Rightarrow> pump \<Rightarrow> bool \<times> pump" where
  "deliver sc env pu = queue_frame sc (EntryFrame env) pu"

text \<open>An entry the seat stayed for: judged once more, by the role just read.\<close>

definition send_entry :: "schedule \<Rightarrow> nat \<Rightarrow> envelope \<Rightarrow> pump \<Rightarrow> (bool \<times> pump) option" where
  "send_entry sc n env pu =
     (case rejudge sc n pu of
        None \<Rightarrow> None
      | Some (again, pu1) \<Rightarrow>
          (case moved sc again pu1 of
             (False, pu2) \<Rightarrow> Some (False, pu2)
           | (True, pu2) \<Rightarrow> Some (if again = Inr True then (True, pu2) else deliver sc env pu2)))"

definition on_entry :: "schedule \<Rightarrow> nat \<Rightarrow> envelope \<Rightarrow> pump \<Rightarrow> (bool \<times> pump) option" where
  "on_entry sc n env pu =
     (case revoked sc pu of
        (True, pu1) \<Rightarrow> Some (False, pu1)
      | (False, pu1) \<Rightarrow>
          (case admit sc n pu1 of
             None \<Rightarrow> None
           | Some (outcome, pu2) \<Rightarrow>
               (case (case outcome of Inl err \<Rightarrow> (False, pu2) | Inr _ \<Rightarrow> revoked sc pu2) of
                  (True, pu3) \<Rightarrow> Some (False, pu3)
                | (False, pu3) \<Rightarrow>
                    (case moved sc outcome pu3 of
                       (False, pu4) \<Rightarrow> Some (False, pu4)
                     | (True, pu4) \<Rightarrow>
                         if outcome = Inr True then Some (True, pu4) else send_entry sc n env pu4))))"

text \<open>What the pump's select may find ready; an entry comes with the number of the append that caused it.\<close>

datatype pump_event =
    StopAsked
  | PerchTaken "string option"
  | WakeReady
  | WakeClosed
  | RejudgeAsked
  | EntryReady nat envelope
  | StreamClosed

text \<open>
  A nil channel is never ready, a wake is ready when it is raised, and an entry is in its log only once the append
  that caused it is.
\<close>

fun ready :: "pump_event \<Rightarrow> pump \<Rightarrow> bool" where
  "ready StopAsked pu = True"
| "ready (PerchTaken taken) pu = True"
| "ready WakeReady pu = (se_wake (pu_seat pu) \<and> pu_raised pu)"
| "ready WakeClosed pu = se_wake (pu_seat pu)"
| "ready RejudgeAsked pu = True"
| "ready (EntryReady cause env) pu = (se_stream (pu_seat pu) \<noteq> None \<and> cause \<le> pu_now pu)"
| "ready StreamClosed pu = (se_stream (pu_seat pu) \<noteq> None)"

fun pump_turn :: "schedule \<Rightarrow> nat \<Rightarrow> pump_event \<Rightarrow> pump \<Rightarrow> (bool \<times> pump) option" where
  "pump_turn sc n StopAsked pu = Some (False, pu)"
| "pump_turn sc n (PerchTaken None) pu = Some (True, pu)"
| "pump_turn sc n (PerchTaken (Some aid)) pu = on_perch sc n aid pu"
| "pump_turn sc n WakeReady pu = on_wake sc n (pu\<lparr>pu_raised := False\<rparr>)"
| "pump_turn sc n WakeClosed pu = Some (False, close_with sc StreamLost pu)"
| "pump_turn sc n RejudgeAsked pu = on_wake sc n pu"
| "pump_turn sc n (EntryReady cause env) pu = on_entry sc n env pu"
| "pump_turn sc n StreamClosed pu = Some (False, close_with sc StreamLost pu)"

text \<open>What the pump does before its loop.\<close>

definition pump_start :: "schedule \<Rightarrow> nat \<Rightarrow> pump \<Rightarrow> (bool \<times> pump) option" where
  "pump_start sc n pu =
     (case revoked sc pu of
        (True, pu1) \<Rightarrow> Some (False, pu1)
      | (False, pu1) \<Rightarrow>
          if \<not> se_wake (pu_seat pu1) then Some (True, pu1)
          else (case tell sc pu1 of
            (False, pu2) \<Rightarrow> Some (False, pu2)
          | (True, pu2) \<Rightarrow>
              (case announce sc pu2 of
                 (False, pu3) \<Rightarrow> Some (False, pu3)
               | (True, pu3) \<Rightarrow> map_option (\<lambda>(outcome, pu4). moved sc outcome pu4) (recheck sc n pu3))))"

text \<open>The states of a pump between two turns of its loop: anything may be appended while it waits.\<close>

inductive pumping :: "schedule \<Rightarrow> nat \<Rightarrow> participant \<Rightarrow> string \<Rightarrow> int \<Rightarrow> pump \<Rightarrow> bool" for sc n p named after where
  pumping_start: "open_seat sc n p named after appends = Some (Inr head, pu) \<Longrightarrow> pump_start sc n pu = Some (True, pu') \<Longrightarrow>
    pumping sc n p named after pu'"
| pumping_wait: "pumping sc n p named after pu \<Longrightarrow> pumping sc n p named after (tick sc pu)"
| pumping_step: "pumping sc n p named after pu \<Longrightarrow> ready ev pu \<Longrightarrow> pump_turn sc n ev pu = Some (True, pu') \<Longrightarrow>
    pumping sc n p named after pu'"

subsection \<open>The perch box\<close>

text \<open>One slot, the latest wins; the wake is a channel of capacity one.\<close>

record perch_box =
  pb_shoulder :: string
  pb_full :: bool
  pb_wake :: bool

definition new_perch_box :: perch_box where
  "new_perch_box = \<lparr>pb_shoulder = [], pb_full = False, pb_wake = False\<rparr>"

definition set_perch :: "string \<Rightarrow> perch_box \<Rightarrow> perch_box" where
  "set_perch aid b = \<lparr>pb_shoulder = aid, pb_full = True, pb_wake = True\<rparr>"

definition take_perch :: "perch_box \<Rightarrow> string option \<times> perch_box" where
  "take_perch b = (if pb_full b then Some (pb_shoulder b) else None, b\<lparr>pb_full := False\<rparr>)"

end
