(* ===== verification/Seat_Props.thy ===== *)
theory Seat_Props
  imports Seat
begin

text \<open>
  What a pump sends: an entry of a character log leaves only by a right that held, for the participant as last
  looked up, at or after the append that caused the entry, and under the viewpoint the connection was last told;
  and a seat that moves settles once the table is quiet.
\<close>

subsection \<open>Rights\<close>

text \<open>The participant as the seat last judged them: who they are, in the role of that judgment.\<close>

definition judged_person :: "seat \<Rightarrow> participant" where
  "judged_person s = (se_person s)\<lparr>pt_role := se_judged_as s\<rparr>"

definition holds_right :: "schedule \<Rightarrow> participant \<Rightarrow> string \<Rightarrow> nat \<Rightarrow> bool" where
  "holds_right sc p aid v = (aid \<noteq> [] \<longrightarrow> may_watch p aid (sd_actors sc v) = None)"

text \<open>The log was judged at a version of the actors, \<open>k\<close> or later, and whatever came after raised the wake.\<close>

definition fresh_for :: "schedule \<Rightarrow> nat \<Rightarrow> participant \<Rightarrow> string \<Rightarrow> pump \<Rightarrow> bool" where
  "fresh_for sc k p aid pu =
     (\<exists>v. k \<le> v \<and> v \<le> pu_now pu \<and> holds_right sc p aid v \<and> (v < pu_now pu \<longrightarrow> pu_raised pu))"

definition fresh :: "schedule \<Rightarrow> nat \<Rightarrow> pump \<Rightarrow> bool" where
  "fresh sc k pu = fresh_for sc k (judged_person (pu_seat pu)) (se_shown (pu_seat pu)) pu"

definition stream_ok :: "seat \<Rightarrow> bool" where
  "stream_ok s = (case se_stream s of
     None \<Rightarrow> True | Some (LogStream aid c) \<Rightarrow> aid = se_shown s \<and> aid \<noteq> [] | Some (WorldStream c) \<Rightarrow> False)"

definition log_seat :: "string \<Rightarrow> pump \<Rightarrow> bool" where
  "log_seat pid pu = (pt_id (se_person (pu_seat pu)) = pid \<and> se_wake (pu_seat pu) \<and> stream_ok (pu_seat pu))"

definition last_viewpoint :: "pump_frame list \<Rightarrow> string option" where
  "last_viewpoint fs = fold (\<lambda>f v. case f of ViewpointFrame aid \<Rightarrow> Some aid | _ \<Rightarrow> v) fs None"

definition seated :: "schedule \<Rightarrow> nat \<Rightarrow> string \<Rightarrow> pump \<Rightarrow> bool" where
  "seated sc k pid pu = (log_seat pid pu \<and> fresh sc k pu)"

text \<open>Between two turns of the pump's loop.\<close>

definition pump_ok :: "schedule \<Rightarrow> string \<Rightarrow> pump \<Rightarrow> bool" where
  "pump_ok sc pid pu = (seated sc 0 pid pu \<and> last_viewpoint (pu_sent pu) = Some (se_shown (pu_seat pu)))"

lemma may_watch_person: "pt_id p = pt_id q \<Longrightarrow> pt_role p = pt_role q \<Longrightarrow> may_watch p aid actors = may_watch q aid actors"
  by (simp add: may_watch_def Let_def)

lemma holds_right_person: "pt_id p = pt_id q \<Longrightarrow> pt_role p = pt_role q \<Longrightarrow> holds_right sc p aid v = holds_right sc q aid v"
  by (simp add: holds_right_def may_watch_person[of p q])

lemma judged_person_simps [simp]:
  "pt_id (judged_person s) = pt_id (se_person s)" "pt_role (judged_person s) = se_judged_as s"
  by (simp_all add: judged_person_def)

lemma fresh_for_person:
  "fresh_for sc k p aid pu \<Longrightarrow> pt_id p = pt_id q \<Longrightarrow> pt_role p = pt_role q \<Longrightarrow> fresh_for sc k q aid pu"
  using holds_right_person[of p q] by (auto simp: fresh_for_def)

lemma fresh_for_mono: "fresh_for sc k p aid pu \<Longrightarrow> j \<le> k \<Longrightarrow> fresh_for sc j p aid pu"
  unfolding fresh_for_def by (blast intro: order_trans)

lemma no_actors_no_right: "aid \<noteq> [] \<Longrightarrow> may_watch p aid fmempty \<noteq> None"
  by (simp add: may_watch_def Let_def)

lemma default_is_watchable:
  assumes "default_viewpoint p actors \<noteq> []"
  shows "may_watch p (default_viewpoint p actors) actors = None"
proof -
  let ?aid = "default_viewpoint p actors"
  from assms have role: "pt_role p = RolePlayer" by (auto simp: default_viewpoint_def split: if_splits)
  obtain rest where "filter (\<lambda>id. own_party_member (fmlookup actors id) (pt_id p)) (keys actors) = ?aid # rest"
    using assms role by (auto simp: default_viewpoint_def split: list.splits)
  then have "?aid \<in> set (filter (\<lambda>id. own_party_member (fmlookup actors id) (pt_id p)) (keys actors))" by simp
  then have own: "own_party_member (fmlookup actors ?aid) (pt_id p)" "fmlookup actors ?aid \<noteq> None"
    by (auto simp: fmlookup_dom'_iff)
  with assms role show ?thesis by (auto simp: may_watch_def Let_def own_party_member_def)
qed

subsection \<open>Ticks and reads\<close>

lemma tick_simps [simp]:
  "pu_seat (tick sc pu) = pu_seat pu" "pu_sent (tick sc pu) = pu_sent pu" "pu_last_set (tick sc pu) = pu_last_set pu"
  "pu_now pu \<le> pu_now (tick sc pu)" "pu_tick (tick sc pu) = Suc (pu_tick pu)"
  by (simp_all add: tick_def)

lemma tick_later [simp]: "m \<le> pu_now pu \<Longrightarrow> m \<le> pu_now (tick sc pu)"
  using tick_simps(4)[of pu sc] by linarith

lemma fresh_for_tick [simp]: "fresh_for sc k p aid pu \<Longrightarrow> fresh_for sc k p aid (tick sc pu)"
  by (force simp: fresh_for_def tick_def)

lemma on_seat_simps [simp]:
  "pu_seat (on_seat f pu) = f (pu_seat pu)" "pu_sent (on_seat f pu) = pu_sent pu" "pu_now (on_seat f pu) = pu_now pu"
  "pu_raised (on_seat f pu) = pu_raised pu" "pu_tick (on_seat f pu) = pu_tick pu"
  "pu_last_set (on_seat f pu) = pu_last_set pu"
  by (simp_all add: on_seat_def)

lemma fresh_for_on_seat [simp]: "fresh_for sc k p aid (on_seat f pu) = fresh_for sc k p aid pu"
  by (simp add: fresh_for_def)

lemma read_actors_now:
  assumes "read_actors sc pu = (actors, pu')"
  shows "pu' = tick sc pu" and "holds_right sc p aid (pu_now pu') \<or> may_watch p aid actors \<noteq> None"
  using assms no_actors_no_right[of aid p]
  by (auto simp: read_actors_def Let_def holds_right_def split: if_splits)

lemma resolve_seat_right:
  assumes "resolve_seat actors pu = (nxt, pu')" and "read_actors sc pu0 = (actors, pu)"
  shows "holds_right sc (se_person (pu_seat pu)) nxt (pu_now pu)"
    and "\<exists>set. pu' = on_seat (se_watchable_update (\<lambda>_. set)) pu"
proof -
  let ?p = "se_person (pu_seat pu)"
  show "holds_right sc ?p nxt (pu_now pu)"
  proof (cases "nxt = []")
    case False
    then have "may_watch ?p nxt actors = None"
      using assms(1) default_is_watchable[of ?p actors] by (auto simp: resolve_seat_def Let_def split: if_splits)
    with read_actors_now(2)[OF assms(2), of ?p nxt] show ?thesis by simp
  qed (simp add: holds_right_def)
  show "\<exists>set. pu' = on_seat (se_watchable_update (\<lambda>_. set)) pu"
    using assms(1) by (auto simp: resolve_seat_def Let_def)
qed

lemma judged_now: "holds_right sc p aid (pu_now pu) \<Longrightarrow> k \<le> pu_now pu \<Longrightarrow> fresh_for sc k p aid pu"
  by (auto simp: fresh_for_def)

subsection \<open>Moving\<close>

lemma poll_wake_cases:
  assumes "poll_wake sc pu = (answer, pu')" and "se_wake (pu_seat pu)"
  shows "pu_seat pu' = pu_seat pu" and "pu_sent pu' = pu_sent pu" and "pu_now pu \<le> pu_now pu'"
    and "answer = Quiet \<Longrightarrow> fresh_for sc k p aid pu \<Longrightarrow> j \<le> pu_now pu \<Longrightarrow> fresh_for sc (max k j) p aid pu'"
proof -
  show "pu_seat pu' = pu_seat pu" "pu_sent pu' = pu_sent pu" "pu_now pu \<le> pu_now pu'"
    using assms tick_simps(4)[of pu sc] by (auto simp: poll_wake_def Let_def split: if_splits)
  assume quiet: "answer = Quiet" and fr: "fresh_for sc k p aid pu" and j: "j \<le> pu_now pu"
  have pu': "pu' = tick sc pu" "\<not> pu_raised pu'"
    using assms quiet by (auto simp: poll_wake_def Let_def split: if_splits)
  then obtain v where v: "k \<le> v" "v \<le> pu_now pu'" "holds_right sc p aid v" "v < pu_now pu' \<longrightarrow> pu_raised pu'"
    using fresh_for_tick[OF fr] by (auto simp: fresh_for_def)
  with pu' j tick_simps(4)[of pu sc] show "fresh_for sc (max k j) p aid pu'"
    by (auto simp: fresh_for_def intro!: exI[of _ v])
qed

lemma stream_ok_simps [simp]:
  "stream_ok (s\<lparr>se_judged_as := r\<rparr>) = stream_ok s" "stream_ok (s\<lparr>se_watchable := w\<rparr>) = stream_ok s"
  "stream_ok (s\<lparr>se_person := p\<rparr>) = stream_ok s"
  by (simp_all add: stream_ok_def split: option.split stream.split)

lemma log_seat_simps:
  "pu_seat pu' = pu_seat pu \<Longrightarrow> log_seat pid pu' = log_seat pid pu"
  by (simp add: log_seat_def)

lemma log_seat_show: "log_seat pid pu \<Longrightarrow> log_seat pid (show_log aid pu)"
  by (simp add: log_seat_def show_log_def stream_ok_def)

lemma subscribe_log_ok:
  assumes "subscribe_log sc aid cursor pu = (Inr head, pu')" and "log_seat pid pu" and "se_shown (pu_seat pu) = aid"
  shows "log_seat pid pu' \<and> pu_sent pu' = pu_sent pu \<and> pu_now pu \<le> pu_now pu' \<and>
     se_person (pu_seat pu') = se_person (pu_seat pu) \<and> se_shown (pu_seat pu') = aid \<and>
     se_judged_as (pu_seat pu') = se_judged_as (pu_seat pu) \<and>
     (fresh_for sc k p aid pu \<longrightarrow> fresh_for sc k p aid pu')"
  using assms by (auto simp: subscribe_log_def log_seat_def stream_ok_def split: if_splits sum.splits)

lemma watch_seated:
  assumes "watch sc n aid cursor pu = Some (Inr head, pu')" and "log_seat pid pu"
    and "fresh_for sc k (se_person (pu_seat pu)) aid pu"
  shows "seated sc k pid pu' \<and> pu_sent pu' = pu_sent pu \<and> se_person (pu_seat pu') = se_person (pu_seat pu) \<and>
     se_judged_as (pu_seat pu') = pt_role (se_person (pu_seat pu')) \<and> pu_now pu \<le> pu_now pu'"
  using assms
proof (induction n arbitrary: aid cursor pu)
  case (Suc n)
  let ?p = "se_person (pu_seat pu)" and ?pu0 = "show_log aid pu"
  have pu0: "log_seat pid ?pu0" "se_shown (pu_seat ?pu0) = aid" "se_person (pu_seat ?pu0) = ?p"
    "se_judged_as (pu_seat ?pu0) = pt_role ?p" "fresh_for sc k ?p aid ?pu0" "pu_sent ?pu0 = pu_sent pu" "pu_now ?pu0 = pu_now pu"
    using Suc.prems(2,3) log_seat_show by (simp_all add: show_log_def)
  obtain h pu1 answer pu2 where sub: "subscribe_log sc aid cursor ?pu0 = (Inr h, pu1)" and poll: "poll_wake sc pu1 = (answer, pu2)"
    and rest: "answer \<noteq> Ended"
    using Suc.prems(1) by (auto split: prod.splits sum.splits poll.splits)
  note pu1 = subscribe_log_ok[OF sub pu0(1,2), of k ?p]
  have wake: "se_wake (pu_seat pu1)" using pu1 by (simp add: log_seat_def)
  note pu2 = poll_wake_cases(1-3)[OF poll wake]
  have log2: "log_seat pid pu2" using pu1 log_seat_simps[OF pu2(1)] by simp
  show ?case
  proof (cases answer)
    case Quiet
    then have "pu' = pu2" using Suc.prems(1) sub poll by simp
    moreover have "fresh_for sc k ?p aid pu2"
      using poll_wake_cases(4)[OF poll wake Quiet, of k ?p aid 0] pu0(5) pu1 by simp
    then have "fresh sc k pu2"
      unfolding fresh_def using pu1 pu2(1) pu0 by (auto elim: fresh_for_person)
    ultimately show ?thesis using log2 pu0 pu1 pu2 by (simp add: seated_def)
  next
    case Raised
    obtain actors pu3 nxt pu4 where read: "read_actors sc pu2 = (actors, pu3)" and res: "resolve_seat actors pu3 = (nxt, pu4)"
      by fastforce
    note pu3 = read_actors_now(1)[OF read]
    from resolve_seat_right(2)[OF res read] obtain set where pu4: "pu4 = on_seat (se_watchable_update (\<lambda>_. set)) pu3" by blast
    have person: "se_person (pu_seat pu4) = ?p" using pu4 pu3 pu2(1) pu1 pu0 by simp
    have mono: "pu_now pu \<le> pu_now pu4" using pu4 pu3 pu2(3) pu1 pu0(7) by simp
    have right: "holds_right sc ?p nxt (pu_now pu4)"
      using resolve_seat_right(1)[OF res read] pu4 pu3 pu2(1) pu1 pu0 by simp
    have k: "k \<le> pu_now pu4" using Suc.prems(3) mono by (auto simp: fresh_for_def)
    have log4: "log_seat pid pu4" using log2 pu4 pu3 by (simp add: log_seat_def)
    show ?thesis
    proof (cases "nxt = aid")
      case True
      then have "pu' = pu4" using Suc.prems(1) sub poll Raised read res by simp
      moreover have "fresh sc k pu4"
        unfolding fresh_def using judged_now[OF right k] True person pu4 pu3 pu2(1) pu1 pu0
        by (auto elim: fresh_for_person)
      ultimately show ?thesis using log4 person mono pu4 pu3 pu2 pu1 pu0 by (simp add: seated_def)
    next
      case False
      then have "watch sc n nxt 0 pu4 = Some (Inr head, pu')" using Suc.prems(1) sub poll Raised read res by simp
      note ih = Suc.IH[OF this log4, unfolded person, OF judged_now[OF right k]]
      with mono have "pu_now pu \<le> pu_now pu'" by linarith
      with ih person pu4 pu3 pu2 pu1 pu0 show ?thesis by simp
    qed
  qed (use rest in simp)
qed simp

lemma recheck_seated:
  assumes "recheck sc n pu = Some (Inr switched, pu')" and "log_seat pid pu" and "k \<le> pu_now pu"
  shows "seated sc k pid pu' \<and> pu_sent pu' = pu_sent pu \<and> se_judged_as (pu_seat pu') = pt_role (se_person (pu_seat pu')) \<and>
     pu_now pu \<le> pu_now pu' \<and>
     (\<not> switched \<longrightarrow> se_stream (pu_seat pu') = se_stream (pu_seat pu) \<and> se_shown (pu_seat pu') = se_shown (pu_seat pu))"
proof -
  let ?pu0 = "on_seat (\<lambda>s. s\<lparr>se_judged_as := pt_role (se_person s)\<rparr>) pu"
  obtain actors pu1 nxt pu2 where read: "read_actors sc ?pu0 = (actors, pu1)" and res: "resolve_seat actors pu1 = (nxt, pu2)"
    by fastforce
  note pu1 = read_actors_now(1)[OF read]
  from resolve_seat_right(2)[OF res read] obtain set where pu2: "pu2 = on_seat (se_watchable_update (\<lambda>_. set)) pu1" by blast
  have now: "pu_now pu \<le> pu_now pu2" using pu1 pu2 tick_simps(4)[of ?pu0 sc] by simp
  have log: "log_seat pid pu2" using assms(2) pu1 pu2 by (simp add: log_seat_def)
  have right: "holds_right sc (se_person (pu_seat pu2)) nxt (pu_now pu2)"
    using resolve_seat_right(1)[OF res read] pu2 by simp
  have judged: "fresh_for sc k (se_person (pu_seat pu2)) nxt pu2" using judged_now[OF right] now assms(3) by simp
  show ?thesis
  proof (cases "nxt = se_shown (pu_seat pu2)")
    case True
    then have pu': "pu' = pu2" "\<not> switched" using assms(1) read res by (simp_all add: recheck_def)
    moreover have "se_judged_as (pu_seat pu2) = pt_role (se_person (pu_seat pu2))" using pu1 pu2 by simp
    moreover from this have "fresh sc k pu2"
      unfolding fresh_def using judged True by (auto elim: fresh_for_person)
    ultimately show ?thesis using log now pu1 pu2 by (simp add: seated_def)
  next
    case False
    then obtain outcome where w: "watch sc n nxt 0 pu2 = Some (outcome, pu')" "Inr switched = map_sum id (\<lambda>_. True) outcome"
      using assms(1) read res by (auto simp: recheck_def)
    then obtain head where "watch sc n nxt 0 pu2 = Some (Inr head, pu')" and sw: "switched" by (cases outcome) auto
    note moved_on = watch_seated[OF this(1) log judged]
    with now have "pu_now pu \<le> pu_now pu'" by linarith
    with moved_on sw pu1 pu2 show ?thesis by simp
  qed
qed

subsection \<open>Handlers\<close>

text \<open>What a call that only looks someone up or queues a frame of the pump's own leaves as it is.\<close>

definition is_entry :: "pump_frame \<Rightarrow> bool" where
  "is_entry f = (case f of EntryFrame env \<Rightarrow> True | _ \<Rightarrow> False)"

definition quiet :: "pump \<Rightarrow> pump \<Rightarrow> bool" where
  "quiet pu pu' = (pu_now pu \<le> pu_now pu' \<and> (\<exists>fs. pu_sent pu' = pu_sent pu @ fs \<and> (\<forall>f \<in> set fs. \<not> is_entry f)))"

lemma quiet_same: "pu_sent pu' = pu_sent pu \<Longrightarrow> pu_now pu \<le> pu_now pu' \<Longrightarrow> quiet pu pu'"
  by (simp add: quiet_def)

lemma quiet_trans: "quiet a b \<Longrightarrow> quiet b c \<Longrightarrow> quiet a c"
  unfolding quiet_def by (metis UnE append_assoc order_trans set_append)

lemma quiet_close [simp]: "quiet pu (close_with sc why pu)"
  by (simp add: close_with_def quiet_def)

lemma close_with_simps [simp]:
  "pu_sent (close_with sc why pu) = pu_sent pu" "pu_seat (close_with sc why pu) = pu_seat pu"
  by (simp_all add: close_with_def)

lemma close_later [simp]: "m \<le> pu_now pu \<Longrightarrow> m \<le> pu_now (close_with sc why pu)"
  by (simp add: close_with_def)

lemma fresh_tick [simp]: "fresh sc k pu \<Longrightarrow> fresh sc k (tick sc pu)"
  by (simp add: fresh_def)

lemma fresh_close [simp]: "fresh sc k pu \<Longrightarrow> fresh sc k (close_with sc why pu)"
  using fresh_tick[of sc k pu] by (simp add: close_with_def fresh_def fresh_for_def)

lemma last_viewpoint_append [simp]:
  "last_viewpoint (fs @ [ViewpointFrame aid]) = Some aid"
  "last_viewpoint (fs @ [WatchableFrame shown_set]) = last_viewpoint fs" "last_viewpoint (fs @ [EntryFrame env]) = last_viewpoint fs"
  by (simp_all add: last_viewpoint_def)

definition same_id :: "schedule \<Rightarrow> string \<Rightarrow> bool" where
  "same_id sc pid = (\<forall>t q. sd_lookup sc t = Found q \<longrightarrow> pt_id q = pid)"

lemma revoked_keeps:
  assumes "revoked sc pu = (b, pu')" and "same_id sc pid" and "log_seat pid pu"
  shows "quiet pu pu' \<and> log_seat pid pu' \<and> (fresh sc k pu \<longrightarrow> fresh sc k pu') \<and> pu_sent pu' = pu_sent pu \<and>
     se_shown (pu_seat pu') = se_shown (pu_seat pu) \<and> se_stream (pu_seat pu') = se_stream (pu_seat pu)"
proof (cases "sd_lookup sc (pu_tick pu)")
  case Gone
  with assms(1) have "pu' = close_with sc CredentialGone (tick sc pu)" by (simp add: revoked_def)
  with assms(3) show ?thesis by (simp add: quiet_def log_seat_def)
next
  case LookupFault
  with assms show ?thesis by (auto simp: revoked_def quiet_def log_seat_def)
next
  case (Found q)
  with assms(1) have pu': "pu' = on_seat (se_person_update (\<lambda>_. q)) (tick sc pu)" by (simp add: revoked_def)
  have "pt_id q = pid" using Found assms(2) by (simp add: same_id_def)
  with assms(3) pu' have "log_seat pid pu'" "pt_id (judged_person (pu_seat pu)) = pt_id (judged_person (pu_seat pu'))"
    by (simp_all add: log_seat_def)
  moreover from this(2) have "fresh sc k pu \<longrightarrow> fresh sc k pu'"
    using fresh_tick[of sc k pu] fresh_for_person[of sc k "judged_person (pu_seat pu)" "se_shown (pu_seat pu)" "tick sc pu" "judged_person (pu_seat pu')"]
    by (simp add: fresh_def pu')
  ultimately show ?thesis by (simp add: pu' quiet_def)
qed

lemma queue_frame_keeps:
  assumes "queue_frame sc f pu = (b, pu')" and "\<not> is_entry f"
  shows "quiet pu pu'" and "b \<Longrightarrow> pu_seat pu' = pu_seat pu \<and> pu_sent pu' = pu_sent pu @ [f] \<and> (fresh sc k pu \<longrightarrow> fresh sc k pu')"
proof -
  have "quiet pu pu' \<and> (b \<longrightarrow> pu_seat pu' = pu_seat pu \<and> pu_sent pu' = pu_sent pu @ [f] \<and> (fresh sc k pu \<longrightarrow> fresh sc k pu'))"
  proof (cases "sd_write sc (pu_tick pu)")
    case Written
    then have "b" "pu' = (tick sc pu)\<lparr>pu_sent := pu_sent pu @ [f]\<rparr>" using assms(1) by (simp_all add: queue_frame_def)
    with assms(2) fresh_tick[of sc k pu] show ?thesis by (simp add: quiet_def fresh_def fresh_for_def)
  qed (use assms(1) in \<open>auto simp: queue_frame_def quiet_def\<close>)
  then show "quiet pu pu'" and "b \<Longrightarrow> pu_seat pu' = pu_seat pu \<and> pu_sent pu' = pu_sent pu @ [f] \<and> (fresh sc k pu \<longrightarrow> fresh sc k pu')"
    by simp_all
qed

lemma fresh_last_set [simp]: "fresh sc k (pu\<lparr>pu_last_set := s\<rparr>) = fresh sc k pu"
  by (simp add: fresh_def fresh_for_def)

lemma tell_keeps:
  assumes "tell sc pu = (b, pu')"
  shows "quiet pu pu'" and "b \<Longrightarrow> pu_seat pu' = pu_seat pu \<and> last_viewpoint (pu_sent pu') = last_viewpoint (pu_sent pu) \<and>
     (fresh sc k pu \<longrightarrow> fresh sc k pu')"
proof -
  let ?f = "WatchableFrame (se_watchable (pu_seat pu))" and ?pu = "pu\<lparr>pu_last_set := se_watchable (pu_seat pu)\<rparr>"
  let ?same = "\<not> se_wake (pu_seat pu) \<or> (pu_last_set pu \<noteq> None \<and> pu_last_set pu = se_watchable (pu_seat pu))"
  have "tell sc pu = (if ?same then (True, pu) else queue_frame sc ?f ?pu)" by (simp only: tell_def Let_def)
  with assms consider "b" "pu' = pu" | "queue_frame sc ?f ?pu = (b, pu')" by (metis prod.inject)
  then have "quiet pu pu' \<and> (b \<longrightarrow> pu_seat pu' = pu_seat pu \<and> last_viewpoint (pu_sent pu') = last_viewpoint (pu_sent pu) \<and>
     (fresh sc k pu \<longrightarrow> fresh sc k pu'))"
  proof cases
    case 2
    have "\<not> is_entry ?f" by (simp add: is_entry_def)
    from queue_frame_keeps(1)[OF 2 this] queue_frame_keeps(2)[OF 2 this, of k] show ?thesis by (auto simp: quiet_def)
  qed (simp add: quiet_def)
  then show "quiet pu pu'" and "b \<Longrightarrow> pu_seat pu' = pu_seat pu \<and> last_viewpoint (pu_sent pu') = last_viewpoint (pu_sent pu) \<and>
     (fresh sc k pu \<longrightarrow> fresh sc k pu')" by simp_all
qed

lemma announce_keeps:
  assumes "announce sc pu = (b, pu')"
  shows "quiet pu pu'" and "b \<Longrightarrow> pu_seat pu' = pu_seat pu \<and> last_viewpoint (pu_sent pu') = Some (se_shown (pu_seat pu)) \<and>
     (fresh sc k pu \<longrightarrow> fresh sc k pu')"
proof -
  have "\<not> is_entry (ViewpointFrame (se_shown (pu_seat pu)))" by (simp add: is_entry_def)
  note keeps = queue_frame_keeps[OF assms[unfolded announce_def] this]
  from keeps(1) keeps(2)[of k]
  show "quiet pu pu'" and "b \<Longrightarrow> pu_seat pu' = pu_seat pu \<and> last_viewpoint (pu_sent pu') = Some (se_shown (pu_seat pu)) \<and>
     (fresh sc k pu \<longrightarrow> fresh sc k pu')" by simp_all
qed

text \<open>A switch is announced before the loop goes on; a seat that stayed keeps what it was announced under.\<close>

lemma moved_keeps:
  assumes "moved sc outcome pu = (b, pu')" and "same_id sc pid" and "log_seat pid pu"
  shows "quiet pu pu'"
    and "b \<Longrightarrow> fresh sc k pu \<Longrightarrow> \<exists>switched. outcome = Inr switched \<and> seated sc k pid pu' \<and>
      (if switched then last_viewpoint (pu_sent pu') = Some (se_shown (pu_seat pu'))
       else pu_seat pu' = pu_seat pu \<and> last_viewpoint (pu_sent pu') = last_viewpoint (pu_sent pu))"
proof -
  have "quiet pu pu' \<and> (b \<longrightarrow> fresh sc k pu \<longrightarrow> (\<exists>switched. outcome = Inr switched \<and> seated sc k pid pu' \<and>
      (if switched then last_viewpoint (pu_sent pu') = Some (se_shown (pu_seat pu'))
       else pu_seat pu' = pu_seat pu \<and> last_viewpoint (pu_sent pu') = last_viewpoint (pu_sent pu))))"
  proof (cases outcome)
    case (Inl err)
    with assms(1) show ?thesis by (auto simp: moved_def)
  next
    case (Inr switched)
    obtain gone pu1 where g: "(if switched then revoked sc pu else (False, pu)) = (gone, pu1)" by fastforce
    have k1: "quiet pu pu1" "log_seat pid pu1" "fresh sc k pu \<longrightarrow> fresh sc k pu1" "\<not> switched \<longrightarrow> pu1 = pu"
      using g revoked_keeps[OF _ assms(2,3), of gone pu1 k] assms(3) by (auto simp: quiet_def split: if_splits)
    obtain told pu2 where t: "tell sc pu1 = (told, pu2)" by fastforce
    note k2 = tell_keeps(1)[OF t] tell_keeps(2)[OF t, of k]
    consider "gone" "\<not> b" "pu' = pu1" | "\<not> gone" "\<not> told" "\<not> b" "pu' = pu2"
      | "\<not> gone" "told" "\<not> switched" "b" "pu' = pu2" | "\<not> gone" "told" "switched" "announce sc pu2 = (b, pu')"
      using assms(1) Inr g t by (cases gone; cases told; cases switched) (simp_all add: moved_def)
    then show ?thesis
    proof cases
      case 1
      with k1 show ?thesis by simp
    next
      case 2
      with k1 k2 show ?thesis by (auto intro: quiet_trans)
    next
      case 3
      with k1 k2 Inr show ?thesis
        by (auto simp: seated_def log_seat_simps[of pu2 pu1] intro: quiet_trans)
    next
      case 4
      note k3 = announce_keeps(1)[OF 4(4)] announce_keeps(2)[OF 4(4), of k]
      have "quiet pu pu'" using k1(1) k2(1) k3(1) by (blast intro: quiet_trans)
      moreover have "b \<longrightarrow> fresh sc k pu \<longrightarrow> seated sc k pid pu' \<and> last_viewpoint (pu_sent pu') = Some (se_shown (pu_seat pu'))"
        using k1 k2(2)[OF 4(2)] k3(2) log_seat_simps[of pu2 pu1] log_seat_simps[of pu' pu2] by (simp add: seated_def)
      ultimately show ?thesis using Inr 4 by auto
    qed
  qed
  then show "quiet pu pu'" and "b \<Longrightarrow> fresh sc k pu \<Longrightarrow> \<exists>switched. outcome = Inr switched \<and> seated sc k pid pu' \<and>
      (if switched then last_viewpoint (pu_sent pu') = Some (se_shown (pu_seat pu'))
       else pu_seat pu' = pu_seat pu \<and> last_viewpoint (pu_sent pu') = last_viewpoint (pu_sent pu))" by blast+
qed

subsection \<open>The loop\<close>

lemma pump_ok_simps:
  "pump_ok sc pid pu \<longleftrightarrow> log_seat pid pu \<and> fresh sc 0 pu \<and> last_viewpoint (pu_sent pu) = Some (se_shown (pu_seat pu))"
  by (simp add: pump_ok_def seated_def)

lemma moved_pump_ok:
  assumes "moved sc outcome pu = (True, pu')" and "same_id sc pid" and "log_seat pid pu" and "fresh sc 0 pu"
    and "outcome = Inr False \<Longrightarrow> last_viewpoint (pu_sent pu) = Some (se_shown (pu_seat pu))"
  shows "pump_ok sc pid pu'"
  using moved_keeps(2)[OF assms(1-3) _ assms(4)] assms(5) by (auto simp: pump_ok_def split: if_splits)

text \<open>A judgment by the actors of now is a fresh one, whatever was known before.\<close>

lemma recheck_pump_ok:
  assumes "recheck sc n pu = Some (outcome, pu1)" and "moved sc outcome pu1 = (True, pu')" and "same_id sc pid"
    and "log_seat pid pu" and "last_viewpoint (pu_sent pu) = Some (se_shown (pu_seat pu))"
  shows "pump_ok sc pid pu'"
proof -
  obtain switched where out: "outcome = Inr switched" using assms(2) by (cases outcome) (simp_all add: moved_def)
  from recheck_seated[OF assms(1)[unfolded out] assms(4), of 0] have
    "log_seat pid pu1" "fresh sc 0 pu1" "pu_sent pu1 = pu_sent pu" "\<not> switched \<longrightarrow> se_shown (pu_seat pu1) = se_shown (pu_seat pu)"
    by (simp_all add: seated_def)
  with assms(5) out show ?thesis by (intro moved_pump_ok[OF assms(2,3)]) auto
qed

lemma on_wake_ok:
  assumes "on_wake sc n pu = Some (True, pu')" and "same_id sc pid" and "log_seat pid pu"
    and "last_viewpoint (pu_sent pu) = Some (se_shown (pu_seat pu))"
  shows "pump_ok sc pid pu'"
proof -
  obtain gone pu1 where r: "revoked sc pu = (gone, pu1)" by fastforce
  with assms(1) obtain outcome pu2 where run: "recheck sc n pu1 = Some (outcome, pu2)" "moved sc outcome pu2 = (True, pu')"
    by (cases gone) (auto simp: on_wake_def)
  from revoked_keeps[OF r assms(2,3)] have "log_seat pid pu1" "pu_sent pu1 = pu_sent pu"
    "se_shown (pu_seat pu1) = se_shown (pu_seat pu)" by simp_all
  with assms(4) show ?thesis by (intro recheck_pump_ok[OF run assms(2)]) simp_all
qed

lemma on_perch_ok:
  assumes "on_perch sc n aid pu = Some (True, pu')" and "same_id sc pid" and "pump_ok sc pid pu"
  shows "pump_ok sc pid pu'"
proof -
  obtain gone pu1 where r: "revoked sc pu = (gone, pu1)" by fastforce
  obtain actors pu2 where read: "read_actors sc pu1 = (actors, pu2)" by fastforce
  have log: "log_seat pid pu" using assms(3) by (simp add: pump_ok_simps)
  from revoked_keeps[OF r assms(2) log, of 0] assms(3) have ok1: "pump_ok sc pid pu1" by (simp add: pump_ok_simps)
  note pu2 = read_actors_now[OF read]
  have ok2: "pump_ok sc pid pu2" using ok1 unfolding pu2(1) by (simp add: pump_ok_simps log_seat_def)
  have step: "pu' = pu1 \<or> pu' = pu2 \<or>
      may_watch (se_person (pu_seat pu2)) aid actors = None \<and>
      (\<exists>outcome pu3. watch sc n aid 0 pu2 = Some (outcome, pu3) \<and> moved sc (map_sum id (\<lambda>_. True) outcome) pu3 = (True, pu'))"
    using assms(1) r read by (cases gone) (auto simp: on_perch_def split: if_splits)
  then show ?thesis
  proof (elim disjE conjE exE)
    fix outcome pu3
    assume may: "may_watch (se_person (pu_seat pu2)) aid actors = None" and w: "watch sc n aid 0 pu2 = Some (outcome, pu3)"
      and m: "moved sc (map_sum id (\<lambda>_. True) outcome) pu3 = (True, pu')"
    obtain head where out: "outcome = Inr head" using m by (cases outcome) (simp_all add: moved_def)
    have "holds_right sc (se_person (pu_seat pu2)) aid (pu_now pu2)"
      using pu2(2)[of "se_person (pu_seat pu2)" aid] may by blast
    from judged_now[OF this, of 0] have "fresh_for sc 0 (se_person (pu_seat pu2)) aid pu2" by simp
    from watch_seated[OF w[unfolded out] _ this, of pid] ok2 have "log_seat pid pu3" "fresh sc 0 pu3"
      by (simp_all add: pump_ok_simps seated_def)
    then show ?thesis by (intro moved_pump_ok[OF m assms(2)]) (simp_all add: out)
  qed (use ok1 ok2 in simp_all)
qed

text \<open>A rejudged seat is judged by the role its participant has.\<close>

lemma rejudge_seated:
  assumes "rejudge sc n pu = Some (Inr switched, pu')" and "seated sc k pid pu"
  shows "seated sc k pid pu' \<and> pu_sent pu' = pu_sent pu \<and> pu_now pu \<le> pu_now pu' \<and>
     se_judged_as (pu_seat pu') = pt_role (se_person (pu_seat pu')) \<and>
     (\<not> switched \<longrightarrow> se_stream (pu_seat pu') = se_stream (pu_seat pu) \<and> se_shown (pu_seat pu') = se_shown (pu_seat pu))"
proof (cases "pt_role (se_person (pu_seat pu)) = se_judged_as (pu_seat pu)")
  case True
  with assms show ?thesis by (simp add: rejudge_def)
next
  case False
  then have "recheck sc n pu = Some (Inr switched, pu')" using assms(1) by (simp add: rejudge_def)
  moreover have "k \<le> pu_now pu" "log_seat pid pu" using assms(2) by (auto simp: seated_def fresh_def fresh_for_def)
  ultimately show ?thesis using recheck_seated by blast
qed

lemma admit_seated:
  assumes "admit sc n pu = Some (Inr switched, pu')" and "seated sc 0 pid pu" and "k \<le> pu_now pu"
  shows "seated sc k pid pu' \<and> pu_sent pu' = pu_sent pu \<and> pu_now pu \<le> pu_now pu' \<and>
     (\<not> switched \<longrightarrow> se_stream (pu_seat pu') = se_stream (pu_seat pu) \<and> se_shown (pu_seat pu') = se_shown (pu_seat pu))"
proof -
  obtain answer pu1 where poll: "poll_wake sc pu = (answer, pu1)" by fastforce
  have log: "log_seat pid pu" and wake: "se_wake (pu_seat pu)" and fr: "fresh sc 0 pu"
    using assms(2) by (simp_all add: seated_def log_seat_def)
  note p = poll_wake_cases(1-3)[OF poll wake]
  have log1: "log_seat pid pu1" using log log_seat_simps[OF p(1)] by simp
  show ?thesis
  proof (cases answer)
    case Quiet
    with assms(1) poll have pu': "pu' = pu1" "\<not> switched" by (simp_all add: admit_def)
    have "fresh sc k pu1"
      using poll_wake_cases(4)[OF poll wake Quiet fr[unfolded fresh_def] assms(3)] p(1) by (simp add: fresh_def)
    with pu' log1 p show ?thesis by (simp add: seated_def)
  next
    case Raised
    with assms(1) poll have "recheck sc n pu1 = Some (Inr switched, pu')" by (simp add: admit_def)
    from recheck_seated[OF this log1, of k] p assms(3) show ?thesis by simp
  qed (use assms(1) poll in \<open>simp add: admit_def\<close>)
qed

text \<open>An entry goes out last, alone, and only by a seat that stayed where it was through every judgment.\<close>

definition sent_by_right :: "schedule \<Rightarrow> nat \<Rightarrow> string \<Rightarrow> envelope \<Rightarrow> pump \<Rightarrow> pump \<Rightarrow> bool" where
  "sent_by_right sc cause pid env pu pu' =
     (\<exists>pu1. quiet pu pu1 \<and> seated sc cause pid pu1 \<and> pu_seat pu' = pu_seat pu1 \<and> pu_now pu1 \<le> pu_now pu' \<and>
        pu_sent pu' = pu_sent pu1 @ [EntryFrame env] \<and> pump_ok sc pid pu' \<and>
        se_judged_as (pu_seat pu1) = pt_role (se_person (pu_seat pu1)) \<and>
        se_stream (pu_seat pu1) = se_stream (pu_seat pu))"

lemma sent_by_right_from:
  assumes "sent_by_right sc cause pid env pu1 pu'" and "quiet pu pu1" and "se_stream (pu_seat pu1) = se_stream (pu_seat pu)"
  shows "sent_by_right sc cause pid env pu pu'"
proof -
  from assms(1) obtain pu2 where pu2: "quiet pu1 pu2" and rest: "seated sc cause pid pu2 \<and> pu_seat pu' = pu_seat pu2 \<and>
      pu_now pu2 \<le> pu_now pu' \<and> pu_sent pu' = pu_sent pu2 @ [EntryFrame env] \<and> pump_ok sc pid pu' \<and>
      se_judged_as (pu_seat pu2) = pt_role (se_person (pu_seat pu2)) \<and> se_stream (pu_seat pu2) = se_stream (pu_seat pu1)"
    unfolding sent_by_right_def by blast
  have "quiet pu pu2" using quiet_trans[OF assms(2) pu2] .
  with rest assms(3) show ?thesis unfolding sent_by_right_def by (intro exI[of _ pu2]) simp
qed

lemma deliver_cases:
  assumes "deliver sc env pu = (go, pu')" and "pump_ok sc pid pu"
  shows "\<not> go \<and> quiet pu pu' \<or> go \<and> pu_seat pu' = pu_seat pu \<and> pu_now pu \<le> pu_now pu' \<and>
     pu_sent pu' = pu_sent pu @ [EntryFrame env] \<and> pump_ok sc pid pu'"
proof (cases "sd_write sc (pu_tick pu)")
  case Written
  then have "go" "pu' = (tick sc pu)\<lparr>pu_sent := pu_sent pu @ [EntryFrame env]\<rparr>"
    using assms(1) by (simp_all add: deliver_def queue_frame_def)
  with assms(2) fresh_tick[of sc 0 pu] show ?thesis
    by (simp add: pump_ok_simps log_seat_def fresh_def fresh_for_def)
qed (use assms(1) in \<open>auto simp: deliver_def queue_frame_def quiet_def\<close>)

lemma revoked_quiet: "revoked sc pu = (b, pu') \<Longrightarrow> quiet pu pu'"
  by (auto simp: revoked_def quiet_def split: looked.splits)

lemma watch_quiet: "watch sc n aid cursor pu = Some (outcome, pu') \<Longrightarrow> quiet pu pu'"
proof (induction n arbitrary: aid cursor pu)
  case (Suc n)
  let ?pu0 = "show_log aid pu"
  have q0: "quiet pu ?pu0" by (simp add: quiet_def show_log_def)
  obtain r pu1 where sub: "subscribe_log sc aid cursor ?pu0 = (r, pu1)" by fastforce
  have q1: "quiet ?pu0 pu1" using sub by (auto simp: subscribe_log_def quiet_def split: if_splits sum.splits)
  obtain answer pu2 where poll: "poll_wake sc pu1 = (answer, pu2)" by fastforce
  have q2: "quiet pu1 pu2" using poll by (auto simp: poll_wake_def quiet_def Let_def split: if_splits)
  obtain actors pu3 nxt pu4 where read: "read_actors sc pu2 = (actors, pu3)" and res: "resolve_seat actors pu3 = (nxt, pu4)"
    by fastforce
  have q4: "quiet pu2 pu4"
    using read_actors_now(1)[OF read] resolve_seat_right(2)[OF res read] by (auto simp: quiet_def)
  have q: "quiet pu pu1" "quiet pu pu2" "quiet pu pu4" using q0 q1 q2 q4 by (blast intro: quiet_trans)+
  from Suc.prems sub poll read res have "pu' = pu1 \<or> pu' = pu2 \<or> pu' = pu4 \<or> watch sc n nxt 0 pu4 = Some (outcome, pu')"
    by (cases r; cases answer) (auto split: if_splits)
  with q Suc.IH show ?case by (blast intro: quiet_trans)
qed simp

lemma recheck_quiet:
  assumes "recheck sc n pu = Some (outcome, pu')"
  shows "quiet pu pu'"
proof -
  let ?pu0 = "on_seat (\<lambda>s. s\<lparr>se_judged_as := pt_role (se_person s)\<rparr>) pu"
  obtain actors pu1 nxt pu2 where read: "read_actors sc ?pu0 = (actors, pu1)" and res: "resolve_seat actors pu1 = (nxt, pu2)"
    by fastforce
  have "quiet pu pu2" using read_actors_now(1)[OF read] resolve_seat_right(2)[OF res read] by (auto simp: quiet_def)
  moreover have "pu' = pu2 \<or> (\<exists>r. watch sc n nxt 0 pu2 = Some (r, pu'))"
    using assms read res by (auto simp: recheck_def split: if_splits)
  ultimately show ?thesis using watch_quiet by (blast intro: quiet_trans)
qed

lemma rejudge_quiet: "rejudge sc n pu = Some (outcome, pu') \<Longrightarrow> quiet pu pu'"
  by (auto simp: rejudge_def quiet_same dest: recheck_quiet split: if_splits)

lemma admit_quiet:
  assumes "admit sc n pu = Some (outcome, pu')"
  shows "quiet pu pu'"
proof -
  obtain answer pu1 where poll: "poll_wake sc pu = (answer, pu1)" by fastforce
  then have "quiet pu pu1" by (auto simp: poll_wake_def quiet_def Let_def split: if_splits)
  moreover have "pu' = pu1 \<or> recheck sc n pu1 = Some (outcome, pu')"
    using assms poll by (cases answer) (simp_all add: admit_def)
  ultimately show ?thesis using recheck_quiet by (blast intro: quiet_trans)
qed

lemma send_entry_cases:
  assumes run: "send_entry sc n env pu = Some (go, pu')" and ids: "same_id sc pid" and "seated sc cause pid pu"
    and view: "last_viewpoint (pu_sent pu) = Some (se_shown (pu_seat pu))"
  shows "quiet pu pu' \<and> (go \<longrightarrow> pump_ok sc pid pu') \<or> go \<and> sent_by_right sc cause pid env pu pu'"
proof -
  obtain again pu1 where re: "rejudge sc n pu = Some (again, pu1)" using run by (auto simp: send_entry_def split: option.splits)
  obtain b pu2 where m: "moved sc again pu1 = (b, pu2)" by fastforce
  note q1 = rejudge_quiet[OF re]
  show ?thesis
  proof (cases again)
    case (Inl err)
    then have "pu' = close_with sc StreamLost pu1" "\<not> go" using run re by (auto simp: send_entry_def moved_def)
    with quiet_trans[OF q1 quiet_close] show ?thesis by simp
  next
    case (Inr sw)
    note k1 = rejudge_seated[OF re[unfolded Inr] assms(3)]
    then have s1: "log_seat pid pu1" "fresh sc cause pu1" by (simp_all add: seated_def)
    note q2 = quiet_trans[OF q1 moved_keeps(1)[OF m ids s1(1)]]
    consider "\<not> b" "\<not> go" "pu' = pu2" | "b" "sw" "go" "pu' = pu2" | "b" "\<not> sw" "deliver sc env pu2 = (go, pu')"
      using run re m Inr by (cases b; cases sw) (simp_all add: send_entry_def)
    then show ?thesis
    proof cases
      case 2
      from moved_keeps(2)[OF m ids s1(1) 2(1) s1(2)] Inr 2 q2 show ?thesis
        using fresh_for_mono by (auto simp: pump_ok_simps seated_def fresh_def)
    next
      case 3
      from moved_keeps(2)[OF m ids s1(1) 3(1) s1(2)] Inr 3(2) have
        k2: "seated sc cause pid pu2" "pu_seat pu2 = pu_seat pu1" "last_viewpoint (pu_sent pu2) = last_viewpoint (pu_sent pu1)"
        by auto
      then have "pump_ok sc pid pu2"
        using view k1 3(2) fresh_for_mono by (auto simp: pump_ok_simps seated_def fresh_def)
      from deliver_cases[OF 3(3) this] q2 k1 k2 3(2) show ?thesis
        unfolding sent_by_right_def by (auto intro: quiet_trans)
    qed (use q2 in simp)
  qed
qed

lemma on_entry_cases:
  assumes "on_entry sc n env pu = Some (go, pu')" and ids: "same_id sc pid" and ok: "pump_ok sc pid pu" and "cause \<le> pu_now pu"
  shows "quiet pu pu' \<and> (go \<longrightarrow> pump_ok sc pid pu') \<or> go \<and> sent_by_right sc cause pid env pu pu'"
proof -
  obtain gone pu1 where r1: "revoked sc pu = (gone, pu1)" by fastforce
  have log: "log_seat pid pu" "fresh sc 0 pu" using ok by (simp_all add: pump_ok_simps)
  note k1 = revoked_keeps[OF r1 ids log(1), of 0]
  show ?thesis
  proof (cases gone)
    case True
    with assms(1) r1 k1 show ?thesis by (simp add: on_entry_def)
  next
    case False
    note one = assms(1)[unfolded on_entry_def r1, simplified False bool.case prod.case]
    obtain outcome pu2 where ad: "admit sc n pu1 = Some (outcome, pu2)" using one by (auto split: option.splits)
    note q2 = quiet_trans[OF conjunct1[OF k1] admit_quiet[OF ad]]
    show ?thesis
    proof (cases outcome)
      case (Inl err)
      then have "pu' = close_with sc StreamLost pu2" "\<not> go" using one ad by (auto simp: moved_def)
      with q2 quiet_trans[OF q2 quiet_close] show ?thesis by simp
    next
      case (Inr sw)
      note two = one[unfolded ad Inr, simplified option.case prod.case sum.case]
      have "seated sc 0 pid pu1" using k1 log by (simp add: seated_def)
      from admit_seated[OF ad[unfolded Inr] this, of cause] assms(4) k1 have k2: "seated sc cause pid pu2"
        "pu_sent pu2 = pu_sent pu"
        "\<not> sw \<longrightarrow> se_stream (pu_seat pu2) = se_stream (pu_seat pu) \<and> se_shown (pu_seat pu2) = se_shown (pu_seat pu)"
        by (simp_all add: quiet_def)
      obtain gone3 pu3 where r3: "revoked sc pu2 = (gone3, pu3)" by fastforce
      have log2: "log_seat pid pu2" using k2(1) by (simp add: seated_def)
      note k3 = revoked_keeps[OF r3 ids log2, of cause]
      note q3 = quiet_trans[OF q2 conjunct1[OF k3]]
      show ?thesis
      proof (cases gone3)
        case True
        with two r3 q3 show ?thesis by simp
      next
        case False
        obtain b4 pu4 where m4: "moved sc (Inr sw) pu3 = (b4, pu4)" by fastforce
        have s3: "log_seat pid pu3" "fresh sc cause pu3" using k3 k2(1) by (simp_all add: seated_def)
        note q4 = quiet_trans[OF q3 moved_keeps(1)[OF m4 ids s3(1)]]
        note three = two[unfolded r3, simplified False bool.case prod.case m4]
        show ?thesis
        proof (cases "b4")
          case False
          with three q4 show ?thesis by simp
        next
          case True
          note k4 = moved_keeps(2)[OF m4 ids s3(1) True s3(2)]
          show ?thesis
          proof (cases sw)
            case True
            with three \<open>b4\<close> have "pu' = pu4" by simp
            with k4 True q4 show ?thesis using fresh_for_mono by (auto simp: pump_ok_simps seated_def fresh_def)
          next
            case False
            then have s4: "seated sc cause pid pu4" "pu_seat pu4 = pu_seat pu3" "last_viewpoint (pu_sent pu4) = last_viewpoint (pu_sent pu3)"
              using k4 by auto
            have "send_entry sc n env pu4 = Some (go, pu')" using three \<open>b4\<close> False by simp
            moreover have "last_viewpoint (pu_sent pu4) = Some (se_shown (pu_seat pu4))"
              using s4(2,3) k3 k2(2,3) False ok by (simp add: pump_ok_simps)
            ultimately have "quiet pu4 pu' \<and> (go \<longrightarrow> pump_ok sc pid pu') \<or> go \<and> sent_by_right sc cause pid env pu4 pu'"
              using send_entry_cases[OF _ ids s4(1)] by blast
            moreover have "sent_by_right sc cause pid env pu pu'" if "sent_by_right sc cause pid env pu4 pu'"
              using sent_by_right_from[OF that q4] s4(2) k3 k2(3) False by simp
            ultimately show ?thesis using q4 by (blast intro: quiet_trans)
          qed
        qed
      qed
    qed
  qed
qed

lemma seat_wait_ok: "pump_ok sc pid pu \<Longrightarrow> pump_ok sc pid (tick sc pu)"
  by (simp add: pump_ok_simps log_seat_def)

lemma pump_turn_ok:
  assumes "pump_turn sc n ev pu = Some (True, pu')" and "ready ev pu" and "same_id sc pid" and "pump_ok sc pid pu"
  shows "pump_ok sc pid pu'"
proof (cases ev)
  case (PerchTaken taken)
  with assms on_perch_ok show ?thesis by (cases taken) auto
next
  case WakeReady
  then have run: "on_wake sc n (pu\<lparr>pu_raised := False\<rparr>) = Some (True, pu')" using assms(1) by simp
  from assms(4) show ?thesis by (intro on_wake_ok[OF run assms(3)]) (simp_all add: pump_ok_simps log_seat_def)
next
  case RejudgeAsked
  then have run: "on_wake sc n pu = Some (True, pu')" using assms(1) by simp
  from assms(4) show ?thesis by (intro on_wake_ok[OF run assms(3)]) (simp_all add: pump_ok_simps)
next
  case (EntryReady cause env)
  with assms have "on_entry sc n env pu = Some (True, pu')" "cause \<le> pu_now pu" by simp_all
  from on_entry_cases[OF this(1) assms(3,4) this(2)] show ?thesis by (auto simp: sent_by_right_def)
qed (use assms in simp_all)

lemma open_seat_ok:
  assumes "open_seat sc n p named after appends = Some (Inr head, pu)" and "watches_a_log (pt_role p)"
  shows "log_seat (pt_id p) pu \<and> fresh sc 0 pu"
proof -
  define pu0 where "pu0 = \<lparr>pu_seat = \<lparr>se_person = p, se_stream = None, se_wake = False, se_shown = [],
      se_judged_as = pt_role p, se_watchable = None, se_told = None\<rparr>, pu_last_set = None, pu_sent = [], pu_close = None,
      pu_now = appends, pu_raised = False, pu_tick = 0\<rparr>"
  define pu1 where "pu1 = on_seat (se_wake_update (\<lambda>_. True)) ((tick sc pu0)\<lparr>pu_raised := False\<rparr>)"
  obtain actors pu2 where read: "read_actors sc pu1 = (actors, pu2)" by fastforce
  define pu3 where "pu3 = on_seat (se_watchable_update (\<lambda>_. Some (watchable p actors))) pu2"
  have run: "(if named \<noteq> [] \<and> may_watch p named actors = None then watch sc n named after pu3
      else watch sc n (default_viewpoint p actors) 0 pu3) = Some (Inr head, pu)"
    using assms read unfolding open_seat_def Let_def pu0_def[symmetric]
    by (auto simp: pu1_def[symmetric] pu3_def[symmetric] split: if_splits)
  have person: "se_person (pu_seat pu3) = p" and log: "log_seat (pt_id p) pu3"
    using read_actors_now(1)[OF read] by (simp_all add: pu3_def pu1_def pu0_def log_seat_def stream_ok_def)
  have right: "holds_right sc p aid (pu_now pu3)" if "aid = [] \<or> may_watch p aid actors = None" for aid
    using that read_actors_now(2)[OF read, of p aid] by (auto simp: pu3_def holds_right_def)
  have own: "default_viewpoint p actors = [] \<or> may_watch p (default_viewpoint p actors) actors = None"
    by (cases "default_viewpoint p actors = []") (simp_all add: default_is_watchable)
  obtain aid cursor where "watch sc n aid cursor pu3 = Some (Inr head, pu)" "aid = [] \<or> may_watch p aid actors = None"
    using run own by (auto split: if_splits)
  with watch_seated[OF this(1) log, of 0] judged_now[OF right, of aid 0] person show ?thesis
    by (simp add: seated_def)
qed

lemma pump_start_ok:
  assumes "pump_start sc n pu = Some (True, pu')" and "same_id sc pid" and "log_seat pid pu" and "fresh sc 0 pu"
  shows "pump_ok sc pid pu'"
proof -
  obtain gone pu1 where r: "revoked sc pu = (gone, pu1)" by fastforce
  note k1 = revoked_keeps[OF r assms(2,3), of 0]
  then have wake: "se_wake (pu_seat pu1)" by (simp add: log_seat_def)
  obtain told pu2 where t: "tell sc pu1 = (told, pu2)" by fastforce
  obtain ann pu3 where a: "announce sc pu2 = (ann, pu3)" by fastforce
  obtain outcome pu4 where run: "recheck sc n pu3 = Some (outcome, pu4)" "moved sc outcome pu4 = (True, pu')"
    and "told" "ann"
    using assms(1) r wake t a by (cases gone; cases told; cases ann) (auto simp: pump_start_def)
  note k2 = tell_keeps(2)[OF t \<open>told\<close>] and k3 = announce_keeps(2)[OF a \<open>ann\<close>]
  have "log_seat pid pu3" using k1 k2 k3 log_seat_simps[of pu2 pu1] log_seat_simps[of pu3 pu2] by simp
  moreover have "last_viewpoint (pu_sent pu3) = Some (se_shown (pu_seat pu3))" using k3 by simp
  ultimately show ?thesis by (rule recheck_pump_ok[OF run assms(2)])
qed

lemma pumping_ok:
  assumes "pumping sc n p named after pu" and "watches_a_log (pt_role p)" and "same_id sc (pt_id p)"
  shows "pump_ok sc (pt_id p) pu"
  using assms(1)
proof induction
  case (pumping_start appends head pu pu')
  from open_seat_ok[OF pumping_start(1) assms(2)] pump_start_ok[OF pumping_start(2) assms(3)] show ?case by blast
next
  case (pumping_wait pu)
  then show ?case by (intro seat_wait_ok)
next
  case (pumping_step pu ev pu')
  then show ?case using pump_turn_ok[OF _ _ assms(3)] by blast
qed

subsection \<open>A connection, tick by tick\<close>

text \<open>One player, whose hero is of the party until a second append takes it out; the appends come at the ticks 8
  and 20.\<close>

definition demo_hero :: "actor_kind \<Rightarrow> actor" where
  "demo_hero kind =
     \<lparr>actor_id = ''hero'', actor_name = ''Mira'', actor_module_id = '''', actor_attributes = fmempty,
      actor_resources = fmempty, actor_module_data = None, actor_controller_id = ''ann'', actor_controller_ids = [''ann''],
      actor_kind_of = kind\<rparr>"

definition demo_watcher :: participant where
  "demo_watcher = \<lparr>pt_id = ''ann'', pt_name = ''Ann'', pt_role = RolePlayer\<rparr>"

definition demo_schedule :: schedule where
  "demo_schedule =
     \<lparr>sd_actors = (\<lambda>v. fmupd ''hero'' (demo_hero (if v < 2 then KIND_PARTY_MEMBER else KIND_NON_PARTY)) fmempty),
      sd_appends = (\<lambda>t. if t = 8 \<or> t = 20 then 1 else 0), sd_poisoned = (\<lambda>_. False), sd_lookup = (\<lambda>_. Found demo_watcher),
      sd_subscribe = (\<lambda>_. Inr 0), sd_ended = (\<lambda>_. False), sd_write = (\<lambda>_. Written), sd_closing = (\<lambda>_. False)\<rparr>"

definition demo_entry :: envelope where
  "demo_entry = payload_only (NoteDeleted ''a door opens'')"

definition demo_opened :: pump where
  "demo_opened = snd (the (open_seat demo_schedule 2 demo_watcher '''' 0 0))"

definition demo_started :: pump where
  "demo_started = snd (the (pump_start demo_schedule 2 demo_opened))"

definition demo_turn :: pump where
  "demo_turn = tick demo_schedule demo_started"

lemma some_pair: "map_option fst x = Some a \<Longrightarrow> x = Some (a, snd (the x))"
  by (cases x) auto

lemma demo_pumping: "pumping demo_schedule 2 demo_watcher '''' 0 demo_turn"
proof -
  have "map_option fst (open_seat demo_schedule 2 demo_watcher '''' 0 0) = Some (Inr 0)" by code_simp
  note opened = some_pair[OF this, folded demo_opened_def]
  have "map_option fst (pump_start demo_schedule 2 demo_opened) = Some True" by code_simp
  note started = some_pair[OF this, folded demo_started_def]
  show ?thesis unfolding demo_turn_def by (intro pumping_wait pumping_start[OF opened started])
qed

lemma demo_turn_sends:
  "\<exists>pu'. pump_turn demo_schedule 2 (EntryReady 1 demo_entry) demo_turn = Some (True, pu') \<and>
     EntryFrame demo_entry \<in> set (drop (length (pu_sent demo_turn)) (pu_sent pu'))"
proof -
  have "map_option fst (pump_turn demo_schedule 2 (EntryReady 1 demo_entry) demo_turn) = Some True" by code_simp
  note sent = some_pair[OF this]
  have "EntryFrame demo_entry \<in> set (drop (length (pu_sent demo_turn))
      (pu_sent (snd (the (pump_turn demo_schedule 2 (EntryReady 1 demo_entry) demo_turn)))))" by code_simp
  with sent show ?thesis by blast
qed

text \<open>The entry of the append that takes the hero out of the party stays in.\<close>

lemma demo_taken_out:
  "map_option fst (pump_turn demo_schedule 2 (EntryReady 2 demo_entry) (tick demo_schedule (demo_turn\<lparr>pu_tick := 20\<rparr>))) = Some True \<and>
   EntryFrame demo_entry \<notin> set (pu_sent (snd (the (pump_turn demo_schedule 2 (EntryReady 2 demo_entry) (tick demo_schedule (demo_turn\<lparr>pu_tick := 20\<rparr>))))))"
  by code_simp

text \<open>C38: Nobody is sent what they may no longer watch. Take the seat of a player or a spectator at any turn of its
  pump, in any interleaving of appends, promotions, perches and other connections' traffic with the pump's own
  calls. If a turn sends an entry of the log, it is the last frame of that turn, and: the participant, in the role
  they have by the last look at the identity store, may watch that log among the actors as they were at some
  moment at or after the append that caused the entry; so an append that takes a right away lets no entry of its
  own out by that right, nor of any later one. And the log is the one the connection was last told it is watching.\<close>

theorem entry_sent_by_right:
  assumes "watches_a_log (pt_role p)" and "\<forall>t q. sd_lookup sc t = Found q \<longrightarrow> pt_id q = pt_id p"
    and "pumping sc n p named after pu" and "ready (EntryReady cause env) pu"
    and "pump_turn sc n (EntryReady cause env) pu = Some (go, pu')"
    and "EntryFrame e \<in> set (drop (length (pu_sent pu)) (pu_sent pu'))"
  shows "e = env \<and> last (pu_sent pu') = EntryFrame env \<and>
    (\<exists>aid c v. se_stream (pu_seat pu) = Some (LogStream aid c) \<and> cause \<le> v \<and> v \<le> pu_now pu' \<and>
       may_watch (se_person (pu_seat pu')) aid (sd_actors sc v) = None \<and> last_viewpoint (pu_sent pu') = Some aid)"
proof -
  have ids: "same_id sc (pt_id p)" using assms(2) by (simp add: same_id_def)
  have ok: "pump_ok sc (pt_id p) pu" using pumping_ok[OF assms(3,1) ids] .
  have run: "on_entry sc n env pu = Some (go, pu')" and cause: "cause \<le> pu_now pu" and some: "se_stream (pu_seat pu) \<noteq> None"
    using assms(4,5) by simp_all
  have "is_entry (EntryFrame e)" by (simp add: is_entry_def)
  with assms(6) have "\<not> quiet pu pu'" unfolding quiet_def by (metis append_eq_conv_conj)
  with on_entry_cases[OF run ids ok cause] obtain pu1 fs where
    pu1: "seated sc cause (pt_id p) pu1" "pu_seat pu' = pu_seat pu1" "pu_now pu1 \<le> pu_now pu'"
      "pu_sent pu' = pu_sent pu1 @ [EntryFrame env]" "pump_ok sc (pt_id p) pu'"
      "se_judged_as (pu_seat pu1) = pt_role (se_person (pu_seat pu1))" "se_stream (pu_seat pu1) = se_stream (pu_seat pu)"
    and fs: "pu_sent pu1 = pu_sent pu @ fs" "\<forall>f \<in> set fs. \<not> is_entry f"
    by (auto simp: sent_by_right_def quiet_def)
  from assms(6) fs pu1(4) have e: "e = env" by (auto simp: is_entry_def)
  have stream: "stream_ok (pu_seat pu1)" using pu1(1) by (simp add: seated_def log_seat_def)
  with some pu1(7) obtain aid c where aid: "se_stream (pu_seat pu) = Some (LogStream aid c)" "aid = se_shown (pu_seat pu1)" "aid \<noteq> []"
    by (auto simp: stream_ok_def split: option.splits stream.splits)
  from pu1(1) obtain v where v: "cause \<le> v" "v \<le> pu_now pu1" "holds_right sc (judged_person (pu_seat pu1)) aid v"
    using aid(2) by (auto simp: seated_def fresh_def fresh_for_def)
  have "holds_right sc (se_person (pu_seat pu1)) aid v"
    using v(3) holds_right_person[of "judged_person (pu_seat pu1)" "se_person (pu_seat pu1)"] pu1(6) by simp
  with aid(3) have "may_watch (se_person (pu_seat pu')) aid (sd_actors sc v) = None" by (simp add: holds_right_def pu1(2))
  moreover have "last_viewpoint (pu_sent pu') = Some aid" using pu1(2,5) aid(2) by (simp add: pump_ok_simps)
  ultimately show ?thesis using e v(1,2) pu1(3,4) aid(1) by (metis last_snoc order_trans)
qed

subsection \<open>Settling\<close>

text \<open>The turns of \<open>watch\<close> a pump may still need when nothing is appended from tick \<open>T\<close> on.\<close>

definition unsettled :: "nat \<Rightarrow> pump \<Rightarrow> nat" where
  "unsettled T pu = T - pu_tick pu + (if pu_raised pu \<or> pu_tick pu < T then 1 else 0)"

definition quiet_from :: "schedule \<Rightarrow> nat \<Rightarrow> bool" where
  "quiet_from sc T = (\<forall>t \<ge> T. sd_appends sc t = 0)"

lemma unsettled_bound: "unsettled T pu < T + 2"
  unfolding unsettled_def by (cases "pu_raised pu \<or> pu_tick pu < T") simp_all

lemma appended_early: "quiet_from sc T \<Longrightarrow> 0 < sd_appends sc t \<Longrightarrow> t < T"
  unfolding quiet_from_def by (metis less_numeral_extra(3) not_less)

lemma raised_turn_settles:
  assumes "poll_wake sc pu = (Raised, pu1)" and "read_actors sc pu1 = (actors, pu2)" and "resolve_seat actors pu2 = (nxt, pu3)"
    and "quiet_from sc T"
  shows "unsettled T pu3 < unsettled T pu"
proof -
  have pu1: "pu1 = (tick sc pu)\<lparr>pu_raised := False\<rparr>" and up: "pu_raised pu \<or> 0 < sd_appends sc (pu_tick pu)"
    using assms(1) by (auto simp: poll_wake_def Let_def tick_def split: if_splits)
  have "pu2 = tick sc pu1" using read_actors_now(1)[OF assms(2)] .
  with assms(3) have pu3: "pu_tick pu3 = pu_tick pu + 2" "pu_raised pu3 = (0 < sd_appends sc (Suc (pu_tick pu)))"
    by (auto simp: pu1 resolve_seat_def Let_def tick_def)
  from up have "pu_raised pu \<or> pu_tick pu < T" using appended_early[OF assms(4)] by blast
  moreover have "pu_raised pu3 \<Longrightarrow> Suc (pu_tick pu) < T" using pu3(2) appended_early[OF assms(4)] by simp
  ultimately show ?thesis using pu3(1) by (auto simp: unsettled_def)
qed

lemma subscribe_settles:
  assumes "subscribe_log sc aid cursor (show_log aid pu) = (r, pu1)" and "quiet_from sc T"
  shows "unsettled T pu1 \<le> unsettled T pu"
proof -
  have "pu_tick pu1 = pu_tick pu \<and> pu_raised pu1 = pu_raised pu \<or>
      pu_tick pu1 = Suc (pu_tick pu) \<and> pu_raised pu1 = (pu_raised pu \<or> 0 < sd_appends sc (pu_tick pu))"
    using assms(1) by (auto simp: subscribe_log_def show_log_def tick_def split: if_splits sum.splits)
  moreover have "0 < sd_appends sc (pu_tick pu) \<Longrightarrow> pu_tick pu < T" by (rule appended_early[OF assms(2)])
  ultimately show ?thesis by (auto simp: unsettled_def)
qed

lemma watch_settles:
  assumes "quiet_from sc T"
  shows "unsettled T pu < n \<Longrightarrow> n \<le> m \<Longrightarrow> \<exists>r. watch sc n aid cursor pu = Some r \<and> watch sc m aid cursor pu = Some r"
proof (induction n arbitrary: aid cursor pu m)
  case (Suc n)
  then obtain m' where m': "m = Suc m'" "n \<le> m'" by (cases m) simp_all
  obtain r pu1 where sub: "subscribe_log sc aid cursor (show_log aid pu) = (r, pu1)" by fastforce
  obtain answer pu2 where poll: "poll_wake sc pu1 = (answer, pu2)" by fastforce
  obtain actors pu3 nxt pu4 where read: "read_actors sc pu2 = (actors, pu3)" and res: "resolve_seat actors pu3 = (nxt, pu4)"
    by fastforce
  show ?case
  proof (cases "answer = Raised")
    case True
    then have "unsettled T pu4 < n"
      using raised_turn_settles[OF poll[unfolded True] read res assms] subscribe_settles[OF sub assms] Suc.prems(1) by linarith
    from Suc.IH[OF this m'(2)] show ?thesis using sub poll read res m'(1) True by (cases r) auto
  next
    case False
    with sub poll m'(1) show ?thesis by (cases r; cases answer) auto
  qed
qed simp

lemma watch_ends:
  assumes "quiet_from sc T" and "T + 2 \<le> n" and "n \<le> m"
  shows "watch sc m aid cursor pu = watch sc n aid cursor pu" and "watch sc n aid cursor pu \<noteq> None"
proof -
  have "unsettled T pu < n" using unsettled_bound[of T pu] assms(2) by linarith
  from watch_settles[OF assms(1) this assms(3), of aid cursor] obtain r where
    "watch sc n aid cursor pu = Some r" "watch sc m aid cursor pu = Some r" by blast
  then show "watch sc m aid cursor pu = watch sc n aid cursor pu" "watch sc n aid cursor pu \<noteq> None" by simp_all
qed

lemma recheck_ends:
  assumes "quiet_from sc T" and "T + 2 \<le> n" and "n \<le> m"
  shows "recheck sc m pu = recheck sc n pu" and "recheck sc n pu \<noteq> None"
  by (simp_all add: recheck_def watch_ends[OF assms] del: not_None_eq split: prod.splits)

lemma pump_turn_ends:
  assumes "quiet_from sc T" and "T + 2 \<le> n" and "n \<le> m"
  shows "pump_turn sc m ev pu = pump_turn sc n ev pu" and "pump_turn sc n ev pu \<noteq> None"
proof -
  note ends = watch_ends[OF assms] recheck_ends[OF assms]
  have wakes: "on_wake sc m q = on_wake sc n q" "on_wake sc n q \<noteq> None" for q
    by (simp_all add: on_wake_def ends del: not_None_eq split: prod.splits bool.splits)
  have perches: "on_perch sc m aid q = on_perch sc n aid q" "on_perch sc n aid q \<noteq> None" for aid q
    by (simp_all add: on_perch_def ends del: not_None_eq split: prod.splits bool.splits)
  have rejudges: "rejudge sc m q = rejudge sc n q" "rejudge sc n q \<noteq> None" for q
    by (simp_all add: rejudge_def ends del: not_None_eq)
  have sends: "send_entry sc m env q = send_entry sc n env q" "send_entry sc n env q \<noteq> None" for env q
    by (simp_all add: send_entry_def rejudges del: not_None_eq split: prod.splits bool.splits option.splits)
  have admits: "admit sc m q = admit sc n q" "admit sc n q \<noteq> None" for q
    by (simp_all add: admit_def ends del: not_None_eq split: prod.splits poll.splits)
  have entries: "on_entry sc m env q = on_entry sc n env q" "on_entry sc n env q \<noteq> None" for env q
    by (simp_all add: on_entry_def admits sends del: not_None_eq split: prod.splits bool.splits option.splits)
  have "pump_turn sc m ev pu = pump_turn sc n ev pu \<and> pump_turn sc n ev pu \<noteq> None"
  proof (cases ev)
    case (PerchTaken taken)
    then show ?thesis by (cases taken) (simp_all add: perches del: not_None_eq)
  qed (simp_all add: wakes entries del: not_None_eq)
  then show "pump_turn sc m ev pu = pump_turn sc n ev pu" "pump_turn sc n ev pu \<noteq> None" by simp_all
qed

text \<open>C39: A seat settles. A connection whose log changes under it switches again for every append it is overtaken by,
  so a turn of the pump could chase appends for ever; once the table is quiet (nothing is appended from the pump's
  tick \<open>T\<close> on) every turn ends: whatever became ready, \<open>T + 2\<close> passes of the switch are enough in any state, and
  more change nothing in what the turn does.\<close>

theorem seat_settles:
  assumes "\<forall>t. T \<le> t \<longrightarrow> sd_appends sc t = 0" and "T + 2 \<le> n" and "n \<le> m"
  shows "\<exists>go pu'. pump_turn sc n ev pu = Some (go, pu') \<and> pump_turn sc m ev pu = Some (go, pu')"
proof -
  have "quiet_from sc T" using assms(1) by (simp add: quiet_from_def)
  from pump_turn_ends[OF this assms(2,3)] show ?thesis by force
qed

theorem seat_settles_witness:
  "\<exists>go pu'. pump_turn (demo_schedule\<lparr>sd_appends := \<lambda>t. if t < 5 then 1 else 0\<rparr>) 7 WakeReady demo_turn = Some (go, pu') \<and>
     pump_turn (demo_schedule\<lparr>sd_appends := \<lambda>t. if t < 5 then 1 else 0\<rparr>) 40 WakeReady demo_turn = Some (go, pu')"
  by (rule seat_settles[of 5]) simp_all

theorem entry_sent_by_right_witness:
  "\<exists>pu pu' v. pumping demo_schedule 2 demo_watcher '''' 0 pu \<and>
     pump_turn demo_schedule 2 (EntryReady 1 demo_entry) pu = Some (True, pu') \<and> last (pu_sent pu') = EntryFrame demo_entry \<and>
     1 \<le> v \<and> v \<le> pu_now pu' \<and> may_watch (se_person (pu_seat pu')) ''hero'' (sd_actors demo_schedule v) = None \<and>
     last_viewpoint (pu_sent pu') = Some ''hero''"
proof -
  obtain pu' where run: "pump_turn demo_schedule 2 (EntryReady 1 demo_entry) demo_turn = Some (True, pu')"
    and sent: "EntryFrame demo_entry \<in> set (drop (length (pu_sent demo_turn)) (pu_sent pu'))"
    using demo_turn_sends by blast
  have ready: "ready (EntryReady 1 demo_entry) demo_turn" and shown: "se_stream (pu_seat demo_turn) = Some (LogStream ''hero'' 0)"
    by code_simp+
  from entry_sent_by_right[OF _ _ demo_pumping ready run sent] shown run demo_pumping show ?thesis
    by (fastforce simp: demo_watcher_def demo_schedule_def watches_a_log_def)
qed

end
