(* ===== verification/Eventgen.thy ===== *)
theory Eventgen
  imports Fold "HOL-Library.Monad_Syntax" "HOL-Library.Product_Lexorder"
begin

text \<open>
  \<open>internal/eventgen/model.go\<close>: the generator of campaign histories. Its model believes what exists, draws the next
  event against that belief, and says of each draw whether the engine must refuse it. A draw reads the random
  source, which is a tape of numbers, each cut to the range the call asks for; a \<open>panic\<close> (an empty choice, an event
  without a case) is \<^const>\<open>None\<close>. Counters and the index of a step are unbounded here.
\<close>

subsection \<open>The random source\<close>

type_synonym tape = "nat \<Rightarrow> nat"

definition after :: "tape \<Rightarrow> tape" where
  "after t = (\<lambda>i. t (Suc i))"

text \<open>\<open>Float64\<close> is a multiple of \<open>2 ^ -53\<close> below 1; it is its numerator here.\<close>

definition float64 :: "tape \<Rightarrow> nat \<times> tape" where
  "float64 t = (t 0 mod 2 ^ 53, after t)"

definition drawn_under :: "nat \<Rightarrow> nat \<Rightarrow> bool" where
  "drawn_under r percent = (100 * r < percent * 2 ^ 53)"

text \<open>\<open>Intn\<close> and \<open>Int31n\<close> panic when asked to choose from nothing.\<close>

definition intn :: "nat \<Rightarrow> tape \<Rightarrow> (nat \<times> tape) option" where
  "intn n t = (if n = 0 then None else Some (t 0 mod n, after t))"

definition pick :: "'a list \<Rightarrow> tape \<Rightarrow> ('a \<times> tape) option" where
  "pick xs t = map_option (apfst ((!) xs)) (intn (length xs) t)"

definition coordinate :: "nat \<Rightarrow> tape \<Rightarrow> (int32 \<times> tape) option" where
  "coordinate n t = map_option (apfst word_of_nat) (intn n t)"

subsection \<open>The model\<close>

record gen_action =
  ga_env :: "envelope option"
  ga_kind :: string
  ga_must_fail :: bool
  ga_anchors :: bool

record gen_model =
  gm_session_id :: string
  gm_actor_role :: string
  gm_scenes :: "string list"
  gm_actors :: "string list"
  gm_tokens :: "string list"
  gm_token_scene :: "(string, string) fmap"
  gm_token_pos :: "(string, int32 \<times> int32) fmap"
  gm_token_actor :: "(string, string) fmap"
  gm_open_doors :: "(string, (int32 \<times> int32) fset) fmap"
  gm_grants :: "(string, string list) fmap"
  gm_conditions :: "(string, string list) fmap"
  gm_seqs :: "int list"
  gm_session_open :: bool
  gm_id_n :: nat
  gm_scene_n :: nat
  gm_actor_n :: nat
  gm_token_n :: nat
  gm_note_n :: nat
  gm_note_keys :: "string list"

definition new_gen_model :: gen_model where
  "new_gen_model =
     \<lparr>gm_session_id = ''sess-1'', gm_actor_role = ''dm'', gm_scenes = [], gm_actors = [], gm_tokens = [],
      gm_token_scene = fmempty, gm_token_pos = fmempty, gm_token_actor = fmempty, gm_open_doors = fmempty,
      gm_grants = fmempty, gm_conditions = fmempty, gm_seqs = [], gm_session_open = False, gm_id_n = 0, gm_scene_n = 0,
      gm_actor_n = 0, gm_token_n = 0, gm_note_n = 0, gm_note_keys = []\<rparr>"

definition gen_accepted :: "gen_action \<Rightarrow> int \<Rightarrow> gen_model \<Rightarrow> gen_model" where
  "gen_accepted a seq m = (if ga_anchors a then m\<lparr>gm_seqs := gm_seqs m @ [seq]\<rparr> else m)"

fun has_case :: "payload \<Rightarrow> bool" where
  "has_case (AttackRolled _) = False"
| "has_case (AbilityUsed _) = False"
| "has_case (ResourceChanged _) = False"
| "has_case (AdventureLoaded _ _) = False"
| "has_case (TokenHidden _) = False"
| "has_case (SceneSeen _) = False"
| "has_case (WhisperAdded _) = False"
| "has_case _ = True"

definition gen_env :: "payload \<Rightarrow> gen_model \<Rightarrow> (envelope \<times> gen_model) option" where
  "gen_env p m =
     (if has_case p then
        Some (\<lparr>env_event_id = ''evt-'' @ show_nat (Suc (gm_id_n m)), env_sequence = 0, env_occurred_at = None,
               env_session_id = gm_session_id m, env_actor_role = gm_actor_role m, env_participant_id = [],
               env_payload = Some p\<rparr>, m\<lparr>gm_id_n := Suc (gm_id_n m)\<rparr>)
      else None)"

type_synonym drawn = "(gen_action \<times> gen_model \<times> tape) option"

definition emit :: "string \<Rightarrow> bool \<Rightarrow> bool \<Rightarrow> payload \<Rightarrow> gen_model \<Rightarrow> tape \<Rightarrow> drawn" where
  "emit kind must_fail anchors p m t =
     do { (e, m') \<leftarrow> gen_env p m;
          Some (\<lparr>ga_env = Some e, ga_kind = kind, ga_must_fail = must_fail, ga_anchors = anchors\<rparr>, m', t) }"

text \<open>Reading a Go map of slices at an absent key gives the nil slice.\<close>

definition slice_at :: "(string, 'a list) fmap \<Rightarrow> string \<Rightarrow> 'a list" where
  "slice_at m k = (case fmlookup m k of None \<Rightarrow> [] | Some xs \<Rightarrow> xs)"

definition cut_out :: "nat \<Rightarrow> 'a list \<Rightarrow> 'a list" where
  "cut_out i xs = take i xs @ drop (Suc i) xs"

subsection \<open>Names\<close>

definition gen_scene_id :: "nat \<Rightarrow> string" where "gen_scene_id n = ''prop-scn-'' @ show_nat n"
definition gen_actor_id :: "nat \<Rightarrow> string" where "gen_actor_id n = ''prop-actor-'' @ show_nat n"
definition gen_token_id :: "nat \<Rightarrow> string" where "gen_token_id n = ''prop-tok-'' @ show_nat n"
definition gen_note_key :: "nat \<Rightarrow> string" where "gen_note_key n = ''prop-note-'' @ show_nat n"
definition gen_participant :: "nat \<Rightarrow> string" where "gen_participant n = ''prop-p-'' @ show_nat n"
definition gen_condition_id :: "nat \<Rightarrow> string" where "gen_condition_id n = ''prop-cond-'' @ show_nat n"

definition absent_scene :: "nat \<Rightarrow> string" where "absent_scene idx = ''prop-scn-absent-'' @ show_nat idx"
definition absent_token :: "nat \<Rightarrow> string" where "absent_token idx = ''prop-tok-absent-'' @ show_nat idx"
definition absent_note :: "nat \<Rightarrow> string" where "absent_note idx = ''prop-note-absent-'' @ show_nat idx"
definition absent_condition :: "nat \<Rightarrow> string" where "absent_condition idx = ''prop-cond-absent-'' @ show_nat idx"

subsection \<open>Scenes, actors, sessions\<close>

definition gen_scene_created :: "gen_model \<Rightarrow> tape \<Rightarrow> drawn" where
  "gen_scene_created m t =
     (let n = Suc (gm_scene_n m); id = gen_scene_id n in
      emit ''sceneCreated'' False True
        (SceneCreated \<lparr>scr_scene_id = id, scr_name = id, scr_grid_width = 20, scr_grid_height = 20,
           scr_tiles = fmempty, scr_objects = []\<rparr>)
        (m\<lparr>gm_scene_n := n, gm_scenes := gm_scenes m @ [id]\<rparr>) t)"

definition gen_add_actor :: "gen_model \<Rightarrow> tape \<Rightarrow> drawn" where
  "gen_add_actor m t =
     (let n = Suc (gm_actor_n m); id = gen_actor_id n in
      emit ''addActor'' False True
        (ActorAdded (Some \<lparr>actor_id = id, actor_name = id, actor_module_id = ''prop-module'',
           actor_attributes = fmempty, actor_resources = fmupd ''pool'' \<lparr>res_current = 3, res_max = 5\<rparr> fmempty,
           actor_module_data = None, actor_controller_id = [], actor_controller_ids = [],
           actor_kind_of = KIND_UNSPECIFIED\<rparr>))
        (m\<lparr>gm_actor_n := n, gm_actors := gm_actors m @ [id]\<rparr>) t)"

definition gen_start_session :: "gen_model \<Rightarrow> tape \<Rightarrow> drawn" where
  "gen_start_session m t = emit ''startSession'' False True (SessionStarted ''prop-session'') (m\<lparr>gm_session_open := True\<rparr>) t"

definition gen_end_session :: "gen_model \<Rightarrow> tape \<Rightarrow> drawn" where
  "gen_end_session m t = emit ''endSession'' False True SessionEnded (m\<lparr>gm_session_open := False\<rparr>) t"

subsection \<open>Tokens\<close>

definition gen_place_token :: "gen_model \<Rightarrow> tape \<Rightarrow> drawn" where
  "gen_place_token m t =
     (let n = Suc (gm_token_n m); id = gen_token_id n in
      do { (scene, t) \<leftarrow> pick (gm_scenes m) t;
           (actor, t) \<leftarrow> pick (gm_actors m) t;
           (x, t) \<leftarrow> coordinate 50 t;
           (y, t) \<leftarrow> coordinate 50 t;
           emit ''placeToken'' False True
             (TokenPlaced \<lparr>tp_token_id = id, tp_scene_id = scene, tp_actor_id = actor,
                tp_position = Some \<lparr>gp_x = x, gp_y = y\<rparr>, tp_name = ''seen '' @ id, tp_notes = [],
                tp_gm_name = ''true '' @ id, tp_gm_notes = []\<rparr>)
             (m\<lparr>gm_token_n := n, gm_tokens := gm_tokens m @ [id], gm_token_scene := fmupd id scene (gm_token_scene m),
                gm_token_pos := fmupd id (x, y) (gm_token_pos m), gm_token_actor := fmupd id actor (gm_token_actor m)\<rparr>) t })"

definition describe_notes :: "string list" where
  "describe_notes = ['''', ''prop-notes'']"

definition gen_describe_token :: "nat \<Rightarrow> gen_model \<Rightarrow> tape \<Rightarrow> drawn" where
  "gen_describe_token idx m t =
     do { (id, t) \<leftarrow> pick (gm_tokens m) t;
          emit ''describeToken'' False True
            (TokenDescribed \<lparr>td_token_id = id, td_name = ''rewritten '' @ id,
               td_notes = describe_notes ! (idx mod length describe_notes), td_gm_name = ''true '' @ id,
               td_gm_notes = describe_notes ! (idx div 2 mod length describe_notes)\<rparr>) m t }"

definition move_reasons :: "string list" where
  "move_reasons = ['''', ''prop-reason'']"

definition gen_move_token :: "nat \<Rightarrow> gen_model \<Rightarrow> tape \<Rightarrow> drawn" where
  "gen_move_token idx m t =
     do { (id, t) \<leftarrow> pick (gm_tokens m) t;
          let (from_x, from_y) = (case fmlookup (gm_token_pos m) id of None \<Rightarrow> (0, 0) | Some p \<Rightarrow> p);
          (x, t) \<leftarrow> coordinate 50 t;
          (y, t) \<leftarrow> coordinate 50 t;
          let scene = (case fmlookup (gm_token_scene m) id of None \<Rightarrow> [] | Some s \<Rightarrow> s);
          emit ''moveToken'' False True
            (TokenMoved \<lparr>tm_token_id = id, tm_scene_id = scene, tm_from = Some \<lparr>gp_x = from_x, gp_y = from_y\<rparr>,
               tm_to = Some \<lparr>gp_x = x, gp_y = y\<rparr>, tm_reason = move_reasons ! (idx mod length move_reasons)\<rparr>)
            (m\<lparr>gm_token_pos := fmupd id (x, y) (gm_token_pos m)\<rparr>) t }"

definition gen_remove_token :: "nat \<Rightarrow> gen_model \<Rightarrow> tape \<Rightarrow> drawn" where
  "gen_remove_token idx m t =
     (let (absent, t) = (if gm_tokens m = [] then (True, t) else apfst (\<lambda>r. drawn_under r 20) (float64 t)) in
      if absent then emit ''removeToken'' True False (TokenRemoved (absent_token idx)) m t
      else do { (i, t) \<leftarrow> intn (length (gm_tokens m)) t;
                let id = gm_tokens m ! i;
                emit ''removeToken'' False True (TokenRemoved id)
                  (m\<lparr>gm_tokens := cut_out i (gm_tokens m), gm_token_scene := fmdrop id (gm_token_scene m),
                     gm_token_pos := fmdrop id (gm_token_pos m), gm_token_actor := fmdrop id (gm_token_actor m)\<rparr>) t })"

text \<open>An actor with a token on the board is the refusal, one without is removed; \<open>ga_env\<close> is absent when every actor
  has one.\<close>

definition gen_remove_actor :: "gen_model \<Rightarrow> tape \<Rightarrow> drawn" where
  "gen_remove_actor m t =
     (let on_board = (\<lambda>a. a \<in> fmran' (gm_token_actor m));
          held = filter on_board (gm_actors m); clean = filter (\<lambda>a. \<not> on_board a) (gm_actors m);
          (blocked, t) = (if held = [] then (False, t) else apfst (\<lambda>r. drawn_under r 25) (float64 t)) in
      if blocked then do { (id, t) \<leftarrow> pick held t; emit ''removeActor'' True False (ActorRemoved id) m t }
      else if clean \<noteq> [] then
        do { (id, t) \<leftarrow> pick clean t;
             emit ''removeActor'' False True (ActorRemoved id)
               (m\<lparr>gm_actors := filter (\<lambda>a. a \<noteq> id) (gm_actors m), gm_grants := fmdrop id (gm_grants m),
                  gm_conditions := fmdrop id (gm_conditions m)\<rparr>) t }
      else Some (\<lparr>ga_env = None, ga_kind = ''removeActor'', ga_must_fail = False, ga_anchors = False\<rparr>, m, t))"

subsection \<open>Narration and notes\<close>

definition gen_add_narration :: "nat \<Rightarrow> gen_model \<Rightarrow> tape \<Rightarrow> drawn" where
  "gen_add_narration idx m t =
     (let (anchored, t) = (if length (gm_seqs m) < 2 then (False, t) else apfst (\<lambda>r. drawn_under r 50) (float64 t));
          entry = (\<lambda>a b. NarrationAdded \<lparr>na_text = ''narration entry #'' @ show_nat idx, na_as = [], na_anchor_from = a,
                     na_anchor_to = b, na_out_of_character = False\<rparr>) in
      if anchored then
        do { (a, t) \<leftarrow> pick (gm_seqs m) t;
             (b, t) \<leftarrow> pick (gm_seqs m) t;
             emit ''addNarration'' False False (if b < a then entry b a else entry a b) m t }
      else emit ''addNarration'' False False (entry 0 0) m t)"

definition note_visibilities :: "note_visibility list" where
  "note_visibilities = [VISIBILITY_UNSPECIFIED, VISIBILITY_PUBLIC, VISIBILITY_SECRET]"

definition gen_upsert_note :: "nat \<Rightarrow> gen_model \<Rightarrow> tape \<Rightarrow> drawn" where
  "gen_upsert_note idx m t =
     (let (again, t) = (if gm_note_keys m = [] then (False, t) else apfst (\<lambda>r. drawn_under r 30) (float64 t));
          note = (\<lambda>key. NoteUpserted \<lparr>nu_key = key, nu_title = ''Note '' @ key,
                    nu_text = ''text for '' @ key @ '' at action #'' @ show_nat idx,
                    nu_visibility = note_visibilities ! (idx mod length note_visibilities)\<rparr>) in
      if again then do { (key, t) \<leftarrow> pick (gm_note_keys m) t; emit ''upsertNote'' False False (note key) m t }
      else let n = Suc (gm_note_n m); key = gen_note_key n in
        emit ''upsertNote'' False False (note key) (m\<lparr>gm_note_n := n, gm_note_keys := gm_note_keys m @ [key]\<rparr>) t)"

definition gen_delete_note :: "nat \<Rightarrow> gen_model \<Rightarrow> tape \<Rightarrow> drawn" where
  "gen_delete_note idx m t =
     (let (absent, t) = (if gm_note_keys m = [] then (True, t) else apfst (\<lambda>r. drawn_under r 30) (float64 t)) in
      if absent then emit ''deleteNote'' True False (NoteDeleted (absent_note idx)) m t
      else do { (i, t) \<leftarrow> intn (length (gm_note_keys m)) t;
                emit ''deleteNote'' False False (NoteDeleted (gm_note_keys m ! i))
                  (m\<lparr>gm_note_keys := cut_out i (gm_note_keys m)\<rparr>) t })"

subsection \<open>Doors\<close>

definition doors_of :: "gen_model \<Rightarrow> string \<Rightarrow> (int32 \<times> int32) fset" where
  "doors_of m s = (case fmlookup (gm_open_doors m) s of None \<Rightarrow> {||} | Some ds \<Rightarrow> ds)"

definition gen_open_door :: "nat \<Rightarrow> gen_model \<Rightarrow> tape \<Rightarrow> drawn" where
  "gen_open_door idx m t =
     (let (r, t) = float64 t; unknown = drawn_under r 15 in
      do { (scene, t) \<leftarrow> (if unknown then Some (absent_scene idx, t) else pick (gm_scenes m) t);
           (x, t) \<leftarrow> coordinate 20 t;
           (y, t) \<leftarrow> coordinate 20 t;
           emit ''openDoor'' unknown (\<not> unknown) (DoorOpened scene (Some \<lparr>gp_x = x, gp_y = y\<rparr>))
             (if unknown then m
              else m\<lparr>gm_open_doors := fmupd scene (finsert (x, y) (doors_of m scene)) (gm_open_doors m)\<rparr>) t })"

text \<open>The open squares are 0 to 19 on each axis, where the order of the words is the order \<open>SortFunc\<close> is given.\<close>

definition gen_close_door :: "gen_model \<Rightarrow> tape \<Rightarrow> drawn" where
  "gen_close_door m t =
     do { (scene, t) \<leftarrow> pick (gm_scenes m) t;
          let ds = doors_of m scene;
          let (opened, t) = (if ds = {||} then (False, t) else apfst (\<lambda>r. drawn_under r 80) (float64 t));
          ((x, y), t) \<leftarrow> (if opened then pick (sorted_list_of_fset ds) t
                        else do { (x, t) \<leftarrow> coordinate 20 t; (y, t) \<leftarrow> coordinate 20 t; Some ((x, y), t) });
          emit ''closeDoor'' False True (DoorClosed scene (Some \<lparr>gp_x = x, gp_y = y\<rparr>))
            (if opened then m\<lparr>gm_open_doors := fmupd scene (ds |-| {|(x, y)|}) (gm_open_doors m)\<rparr> else m) t }"

subsection \<open>Control and conditions\<close>

definition gen_grant_control :: "gen_model \<Rightarrow> tape \<Rightarrow> drawn" where
  "gen_grant_control m t =
     do { (actor, t) \<leftarrow> pick (gm_actors m) t;
          (k, t) \<leftarrow> intn 4 t;
          let pid = gen_participant k;
          let held = slice_at (gm_grants m) actor;
          emit ''grantControl'' False True
            (ActorControlGranted \<lparr>cg_actor_id = actor, cg_participant_id = pid, cg_kind = KIND_PARTY_MEMBER\<rparr>)
            (if pid \<in> set held then m else m\<lparr>gm_grants := fmupd actor (held @ [pid]) (gm_grants m)\<rparr>) t }"

definition gen_revoke_control :: "gen_model \<Rightarrow> tape \<Rightarrow> drawn" where
  "gen_revoke_control m t =
     do { (actor, t) \<leftarrow> pick (gm_actors m) t;
          (k, t) \<leftarrow> intn 4 t;
          let held = slice_at (gm_grants m) actor;
          let (theirs, t) = (if held = [] then (False, t) else apfst (\<lambda>r. drawn_under r 80) (float64 t));
          (pid, t) \<leftarrow> (if theirs then pick held t else Some (gen_participant k, t));
          emit ''revokeControl'' False True (ActorControlRevoked actor pid)
            (if held = [] then m else m\<lparr>gm_grants := fmupd actor (filter (\<lambda>p. p \<noteq> pid) held) (gm_grants m)\<rparr>) t }"

definition gen_apply_condition :: "gen_model \<Rightarrow> tape \<Rightarrow> drawn" where
  "gen_apply_condition m t =
     do { (actor, t) \<leftarrow> pick (gm_actors m) t;
          let held = slice_at (gm_conditions m) actor;
          let (again, t) = (if held = [] then (False, t) else apfst (\<lambda>r. drawn_under r 20) (float64 t));
          (k, t) \<leftarrow> intn 5 t;
          (cid, t) \<leftarrow> (if again then pick held t else Some (gen_condition_id k, t));
          let duplicate = (again \<or> cid \<in> set held);
          emit ''applyCondition'' duplicate (\<not> duplicate)
            (ConditionApplied \<lparr>ce_actor_id = actor, ce_condition_id = cid, ce_source = ''prop''\<rparr>)
            (if duplicate then m else m\<lparr>gm_conditions := fmupd actor (held @ [cid]) (gm_conditions m)\<rparr>) t }"

definition gen_remove_condition :: "nat \<Rightarrow> gen_model \<Rightarrow> tape \<Rightarrow> drawn" where
  "gen_remove_condition idx m t =
     (let carriers = filter (\<lambda>a. slice_at (gm_conditions m) a \<noteq> []) (keys (gm_conditions m)) in
      do { (actor, t) \<leftarrow> pick (if carriers = [] then gm_actors m else carriers) t;
           let held = slice_at (gm_conditions m) actor;
           let (absent, t) = (if held = [] then (True, t) else apfst (\<lambda>r. drawn_under r 25) (float64 t));
           let gone = (\<lambda>cid. ConditionRemoved \<lparr>ce_actor_id = actor, ce_condition_id = cid, ce_source = ''prop''\<rparr>);
           if absent then emit ''removeCondition'' True False (gone (absent_condition idx)) m t
           else do { (i, t) \<leftarrow> intn (length held) t;
                     emit ''removeCondition'' False True (gone (held ! i))
                       (m\<lparr>gm_conditions := fmupd actor (cut_out i held) (gm_conditions m)\<rparr>) t } })"

subsection \<open>A step\<close>

definition gen_step :: "nat \<Rightarrow> gen_model \<Rightarrow> tape \<Rightarrow> drawn" where
  "gen_step idx m t0 =
     (let (r, t) = float64 t0; moves = (gm_tokens m \<noteq> []); scenes = (gm_scenes m \<noteq> []); actors = (gm_actors m \<noteq> []) in
      if drawn_under r 5 then gen_scene_created m t
      else if drawn_under r 15 then gen_add_actor m t
      else if drawn_under r 28 \<and> scenes \<and> actors then gen_place_token m t
      else if drawn_under r 48 \<and> moves then gen_move_token idx m t
      else if drawn_under r 52 \<and> moves then gen_describe_token idx m t
      else if drawn_under r 60 then gen_add_narration idx m t
      else if drawn_under r 64 then gen_upsert_note idx m t
      else if drawn_under r 68 then gen_delete_note idx m t
      else if drawn_under r 72 \<and> scenes then gen_open_door idx m t
      else if drawn_under r 76 \<and> scenes then gen_close_door m t
      else if drawn_under r 79 \<and> actors then gen_grant_control m t
      else if drawn_under r 82 \<and> actors then gen_revoke_control m t
      else if drawn_under r 86 \<and> actors then gen_apply_condition m t
      else if drawn_under r 91 \<and> actors then gen_remove_condition idx m t
      else if drawn_under r 94 then gen_remove_token idx m t
      else if drawn_under r 96 \<and> actors then gen_remove_actor m t
      else if \<not> gm_session_open m then gen_start_session m t
      else let (r, t) = float64 t in if drawn_under r 15 then gen_end_session m t else gen_add_actor m t)"

end
