(* ===== verification/Eventgen_Props.thy ===== *)
theory Eventgen_Props
  imports Eventgen Fold_Inv
begin

text \<open>
  The generator against the engine. \<open>believes\<close> says that what the generator believes is what a state holds; every
  draw keeps it, and the engine's answer to the event drawn is the one the draw announced. So a walk of any length
  never panics and never announces a refusal the engine does not make, or the other way round.
\<close>

subsection \<open>Names\<close>

definition named :: "(nat \<Rightarrow> string) \<Rightarrow> nat \<Rightarrow> string set \<Rightarrow> bool" where
  "named f n S = (\<forall>s \<in> S. \<exists>k \<le> n. s = f k)"

lemma named_empty [simp]: "named f n {}"
  by (simp add: named_def)

lemma named_insert [simp]: "named f n (insert s S) \<longleftrightarrow> (\<exists>k \<le> n. s = f k) \<and> named f n S"
  by (auto simp: named_def)

lemma named_subset: "named f n S \<Longrightarrow> T \<subseteq> S \<Longrightarrow> named f n T"
  unfolding named_def by blast

lemma named_Suc [simp]: "named f n S \<Longrightarrow> named f (Suc n) S"
  unfolding named_def by (blast intro: le_SucI)

lemma named_next: "named f n S \<Longrightarrow> inj f \<Longrightarrow> f (Suc n) \<notin> S"
  unfolding named_def by (metis Suc_n_not_le_n injD)

lemma length_show_nat: "n < 10 ^ d \<Longrightarrow> 0 < d \<Longrightarrow> length (show_nat n) \<le> d"
proof (induction d arbitrary: n)
  case (Suc d)
  show ?case
  proof (cases "n < 10")
    case True
    then show ?thesis by (subst show_nat.simps) simp
  next
    case False
    with Suc.prems have "n div 10 < 10 ^ d" "0 < d" by (auto simp: less_mult_imp_div_less intro: gr0I)
    with Suc.IH False show ?thesis by (subst show_nat.simps) simp
  qed
qed simp

lemma length_show_index: "n < 2 ^ 63 \<Longrightarrow> length (show_nat n) \<le> 19"
  by (rule length_show_nat) simp_all

lemma show_nat_not: "\<not> is_digit c \<Longrightarrow> show_nat k \<noteq> c # cs"
  using show_nat_hd by blast

lemmas name_defs = gen_scene_id_def gen_actor_id_def gen_token_id_def gen_note_key_def gen_participant_def
  gen_condition_id_def absent_scene_def absent_token_def absent_note_def absent_condition_def

lemma names_inj [simp]:
  "inj gen_scene_id" "inj gen_actor_id" "inj gen_token_id" "inj gen_note_key" "inj gen_participant" "inj gen_condition_id"
  by (simp_all add: inj_def name_defs)

text \<open>An absent name is none the counters make: it goes on with a letter.\<close>

lemma absent_no_name:
  "absent_scene idx \<noteq> gen_scene_id k" "absent_token idx \<noteq> gen_token_id k"
  "absent_note idx \<noteq> gen_note_key k" "absent_condition idx \<noteq> gen_condition_id k"
  using show_nat_not[of "CHR ''a''" k] by (auto simp: name_defs is_digit_def dest: sym)

lemma absent_not_named [simp]:
  "named gen_scene_id n S \<Longrightarrow> absent_scene idx \<notin> S"
  "named gen_token_id n S \<Longrightarrow> absent_token idx \<notin> S"
  "named gen_note_key n S \<Longrightarrow> absent_note idx \<notin> S"
  "named gen_condition_id n S \<Longrightarrow> absent_condition idx \<notin> S"
  unfolding named_def using absent_no_name by metis+

lemma names_fit [simp]:
  assumes "n < 2 ^ 63"
  shows "\<not> bad_id (gen_scene_id n)" "\<not> bad_id (gen_actor_id n)" "\<not> bad_id (gen_token_id n)"
    "\<not> bad_id (gen_participant n)" "\<not> bad_id (gen_condition_id n)" "\<not> bad_id (gen_note_key n)"
  using length_show_index[OF assms] by (simp_all add: bad_id_def name_defs)

subsection \<open>What the generator believes\<close>

definition tokens_match :: "string list \<Rightarrow> (string, string) fmap \<Rightarrow> (string, string) fmap \<Rightarrow> (string, token) fmap \<Rightarrow> bool" where
  "tokens_match ids scene_of actor_of toks =
     (distinct ids \<and> set ids = fmdom' toks \<and> fmdom' actor_of = fmdom' toks \<and>
      (\<forall>id tok. fmlookup toks id = Some tok \<longrightarrow> fmlookup actor_of id = Some (tok_actor_id tok)) \<and>
      (\<forall>id \<in> fmdom' toks. \<exists>s. fmlookup scene_of id = Some s \<and> \<not> bad_id s))"

definition conditions_match ::
  "(string, string list) fmap \<Rightarrow> string set \<Rightarrow> (string, actor_condition list) fmap \<Rightarrow> bool" where
  "conditions_match held actors cs =
     (\<forall>a. map ac_id (slice_at cs a) = slice_at held a \<and> distinct (slice_at held a) \<and>
        named gen_condition_id 4 (set (slice_at held a)) \<and> (slice_at held a \<noteq> [] \<longrightarrow> a \<in> actors))"

definition in_session :: "session list \<Rightarrow> bool" where
  "in_session ss = (\<exists>s \<in> set ss. ses_end s = 0)"

definition anchors_ok :: "int list \<Rightarrow> int \<Rightarrow> bool" where
  "anchors_ok seqs seq = (0 < seq \<and> (\<forall>s \<in> set seqs. 0 < s \<and> s < seq))"

lemma anchors_ok_next [simp]:
  assumes "anchors_ok seqs seq"
  shows "anchors_ok seqs (seq + 1)" "anchors_ok (seqs @ [seq]) (seq + 1)"
  using assms by (auto simp: anchors_ok_def)

definition counters_ok :: "gen_model \<Rightarrow> bool" where
  "counters_ok m =
     (gm_scene_n m \<le> gm_id_n m \<and> gm_actor_n m \<le> gm_id_n m \<and> gm_token_n m \<le> gm_id_n m \<and> gm_note_n m \<le> gm_id_n m)"

definition matches :: "gen_model \<Rightarrow> state \<Rightarrow> int \<Rightarrow> bool" where
  "matches m st seq =
     (\<not> bad_id (gm_session_id m) \<and> counters_ok m \<and>
      set (gm_scenes m) = fmdom' (st_scenes st) \<and> named gen_scene_id (gm_scene_n m) (fmdom' (st_scenes st)) \<and>
      set (gm_actors m) = fmdom' (st_actors st) \<and> named gen_actor_id (gm_actor_n m) (fmdom' (st_actors st)) \<and>
      tokens_match (gm_tokens m) (gm_token_scene m) (gm_token_actor m) (st_tokens st) \<and>
      named gen_token_id (gm_token_n m) (fmdom' (st_tokens st)) \<and>
      gm_session_open m = in_session (st_sessions st) \<and>
      conditions_match (gm_conditions m) (fmdom' (st_actors st)) (st_conditions st) \<and>
      (\<forall>a. named gen_participant 3 (set (slice_at (gm_grants m) a))) \<and>
      distinct (gm_note_keys m) \<and> set (gm_note_keys m) = fmdom' (st_notes st) \<and>
      named gen_note_key (gm_note_n m) (fmdom' (st_notes st)) \<and>
      anchors_ok (gm_seqs m) seq)"

definition believes :: "gen_model \<Rightarrow> state \<Rightarrow> int \<Rightarrow> bool" where
  "believes m st seq = (wf_state st \<and> matches m st seq)"

text \<open>The engine's answer to a drawn event is the one announced, and the belief holds after it.\<close>

definition judged_right :: "gen_action \<Rightarrow> gen_model \<Rightarrow> state \<Rightarrow> int \<Rightarrow> bool" where
  "judged_right a m st seq =
     (case ga_env a of
        None \<Rightarrow> believes m st seq
      | Some env \<Rightarrow>
          (case apply_event st (env\<lparr>env_sequence := seq\<rparr>) of
             Inl _ \<Rightarrow> ga_must_fail a \<and> believes m st seq
           | Inr st' \<Rightarrow> \<not> ga_must_fail a \<and> believes (gen_accepted a seq m) st' (seq + 1)))"

definition legal_draw :: "drawn \<Rightarrow> nat \<Rightarrow> state \<Rightarrow> int \<Rightarrow> bool" where
  "legal_draw d n st seq = (\<exists>a m t. d = Some (a, m, t) \<and> gm_id_n m \<le> Suc n \<and> judged_right a m st seq)"

lemma new_model_believes: "believes new_gen_model new_state 1"
  by (simp add: believes_def matches_def new_gen_model_def new_state_def tokens_match_def conditions_match_def slice_at_def bad_id_def
      counters_ok_def in_session_def anchors_ok_def wf_new_state[unfolded new_state_def])

subsection \<open>Draws\<close>

lemma pick_from: "xs \<noteq> [] \<Longrightarrow> \<exists>x \<in> set xs. pick xs t = Some (x, after t)"
  by (auto simp: pick_def intn_def)

lemma intn_Some [simp]: "0 < n \<Longrightarrow> intn n t = Some (t 0 mod n, after t)"
  by (simp add: intn_def)

lemma coordinate_Some [simp]: "0 < n \<Longrightarrow> coordinate n t = Some (word_of_nat (t 0 mod n), after t)"
  by (simp add: coordinate_def)

lemma set_cut_out: "distinct xs \<Longrightarrow> i < length xs \<Longrightarrow> set (cut_out i xs) = set xs - {xs ! i}"
proof -
  assume d: "distinct xs" and i: "i < length xs"
  then have "xs = take i xs @ xs ! i # drop (Suc i) xs" by (simp add: id_take_nth_drop)
  with d show ?thesis unfolding cut_out_def
    by (metis Diff_insert_absorb Un_insert_right distinct.simps(2) distinct_append list.simps(15) set_append
        Un_iff disjoint_iff insertCI)
qed

lemma distinct_cut_out: "distinct xs \<Longrightarrow> distinct (cut_out i xs)"
  unfolding cut_out_def using set_take_disj_set_drop_if_distinct[of xs i "Suc i"] by simp

lemma slice_at_upd [simp]: "slice_at (fmupd k v m) a = (if a = k then v else slice_at m a)"
  by (simp add: slice_at_def)

lemma slice_at_drop [simp]: "slice_at (fmdrop k m) a = (if a = k then [] else slice_at m a)"
  by (simp add: slice_at_def)

lemma conditions_of_slice: "conditions_of st a = slice_at (st_conditions st) a"
  by (simp add: conditions_of_def slice_at_def)

text \<open>An emitted event, judged.\<close>

lemma emit_legal:
  assumes "has_case p" and "wf_state st"
    and "\<And>env. env_payload env = Some p \<Longrightarrow> env_session_id env = gm_session_id m \<Longrightarrow> env_sequence env = seq \<Longrightarrow>
      case apply_payload st env p of
        Inl _ \<Rightarrow> must_fail \<and> matches (m\<lparr>gm_id_n := Suc (gm_id_n m)\<rparr>) st seq
      | Inr st' \<Rightarrow> \<not> must_fail \<and> (wf_state st' \<longrightarrow>
          matches (m\<lparr>gm_id_n := Suc (gm_id_n m), gm_seqs := (if anchors then gm_seqs m @ [seq] else gm_seqs m)\<rparr>) st' (seq + 1))"
  shows "legal_draw (emit kind must_fail anchors p m t) (gm_id_n m) st seq"
proof -
  define env where "env = \<lparr>env_event_id = ''evt-'' @ show_nat (Suc (gm_id_n m)), env_sequence = seq, env_occurred_at = None,
      env_session_id = gm_session_id m, env_actor_role = gm_actor_role m, env_participant_id = [], env_payload = Some p\<rparr>"
  have env: "apply_event st env = apply_payload st env p" by (simp add: apply_event_def env_def)
  note judged = assms(3)[of env, unfolded env_def, simplified, folded env_def]
  show ?thesis
  proof (cases "apply_payload st env p")
    case (Inl err)
    with judged assms(1,2) env show ?thesis
      by (simp add: legal_draw_def judged_right_def emit_def gen_env_def believes_def env_def)
  next
    case (Inr st')
    with apply_event_wf[OF assms(2)] env have "wf_state st'" by simp
    with judged assms(1) env Inr show ?thesis
      by (cases anchors) (simp_all add: legal_draw_def judged_right_def emit_def gen_env_def believes_def env_def gen_accepted_def)
  qed
qed

text \<open>The model's own updates, before the event is stamped.\<close>

lemmas run_draw = prod.case if_True if_False Option.bind.bind_lunit not_False_eq_True not_True_eq_False

lemmas draw_defs = matches_def counters_ok_def tokens_match_def

subsection \<open>Every draw is legal\<close>

lemma name_fits:
  assumes "named f n S" and "s \<in> S" and "\<And>k. k < 2 ^ 63 \<Longrightarrow> \<not> bad_id (f k)" and "n < 2 ^ 63"
  shows "\<not> bad_id s"
  using assms unfolding named_def by (metis le_less_trans)

lemma good_id: "\<not> bad_id s \<Longrightarrow> s \<noteq> [] \<and> \<not> 128 < length s \<and> \<not> 256 < length s"
  by (auto simp: bad_id_def)

lemma scene_created_legal:
  assumes "believes m st seq" and "gm_id_n m < 2 ^ 62"
  shows "legal_draw (gen_scene_created m t) (gm_id_n m) st seq"
proof -
  let ?id = "gen_scene_id (Suc (gm_scene_n m))"
  have "named gen_scene_id (gm_scene_n m) (fmdom' (st_scenes st))" and n: "Suc (gm_scene_n m) < 2 ^ 63"
    using assms by (simp_all add: believes_def draw_defs)
  then have new: "fmlookup (st_scenes st) ?id = None" and id: "\<not> bad_id ?id"
    using named_next[OF _ names_inj(1)] names_fit(1)[OF n] by (blast intro: fmdom'_notD)+
  show ?thesis unfolding gen_scene_created_def Let_def
    using assms new id good_id[OF id] by (intro emit_legal[of _ _ "m\<lparr>gm_scene_n := _, gm_scenes := _\<rparr>", simplified])
      (auto simp: believes_def draw_defs apply_payload_def apply_scene_created_def)
qed

lemma add_actor_legal:
  assumes "believes m st seq" and "gm_id_n m < 2 ^ 62"
  shows "legal_draw (gen_add_actor m t) (gm_id_n m) st seq"
proof -
  let ?id = "gen_actor_id (Suc (gm_actor_n m))"
  have "named gen_actor_id (gm_actor_n m) (fmdom' (st_actors st))" and n: "Suc (gm_actor_n m) < 2 ^ 63"
    using assms by (simp_all add: believes_def draw_defs)
  then have new: "fmlookup (st_actors st) ?id = None" and id: "\<not> bad_id ?id"
    using named_next[OF _ names_inj(2)] names_fit(2)[OF n] by (blast intro: fmdom'_notD)+
  show ?thesis unfolding gen_add_actor_def Let_def
    using assms new id good_id[OF id] by (intro emit_legal[of _ _ "m\<lparr>gm_actor_n := _, gm_actors := _\<rparr>", simplified])
      (auto simp: believes_def draw_defs apply_payload_def apply_actor_added_def put_actor_def conditions_match_def
        bad_keys_def key_length_def)
qed

lemma in_session_iff: "open_session st = None \<longleftrightarrow> \<not> in_session (st_sessions st)"
  by (auto simp: open_session_None in_session_def)

lemma start_session_legal:
  assumes "believes m st seq" and "\<not> gm_session_open m"
  shows "legal_draw (gen_start_session m t) (gm_id_n m) st seq"
  unfolding gen_start_session_def
  using assms in_session_iff[of st]
  by (intro emit_legal[of _ _ "m\<lparr>gm_session_open := _\<rparr>", simplified])
    (auto simp: believes_def draw_defs apply_payload_def apply_session_started_def in_session_def)

lemma ended_session:
  assumes "wf_sessions ss" and "i < length ss" and "ses_end (ss ! i) = 0" and "(seq :: int) \<noteq> 0"
  shows "\<not> in_session (ss[i := (ss ! i)\<lparr>ses_end := seq\<rparr>])"
proof -
  from assms(1-3) have "Suc i = length ss" by (simp add: wf_sessions_def)
  then have "ses_end (ss[i := (ss ! i)\<lparr>ses_end := seq\<rparr>] ! k) \<noteq> 0" if "k < length ss" for k
    using that assms(1,4) by (cases "k = i") (auto simp: wf_sessions_def)
  then show ?thesis by (auto simp: in_session_def in_set_conv_nth)
qed

lemma end_session_legal:
  assumes "believes m st seq" and "gm_session_open m"
  shows "legal_draw (gen_end_session m t) (gm_id_n m) st seq"
proof -
  obtain i where i: "open_session st = Some i" using assms in_session_iff[of st] by (auto simp: believes_def draw_defs)
  have "wf_sessions (st_sessions st)" using assms(1) wf_stateD(5) by (simp add: believes_def)
  from ended_session[OF this open_session_Some(1,2)[OF i]] have
    "s \<noteq> 0 \<Longrightarrow> \<not> in_session ((st_sessions st)[i := (st_sessions st ! i)\<lparr>ses_end := s\<rparr>])" for s :: int by simp
  then show ?thesis unfolding gen_end_session_def
    using assms i by (intro emit_legal[of _ _ "m\<lparr>gm_session_open := _\<rparr>", simplified])
      (auto simp: believes_def draw_defs apply_payload_def apply_session_ended_def anchors_ok_def)
qed

lemma place_token_legal:
  assumes "believes m st seq" and "gm_id_n m < 2 ^ 62" and "gm_scenes m \<noteq> []" and "gm_actors m \<noteq> []"
  shows "legal_draw (gen_place_token m t) (gm_id_n m) st seq"
proof -
  let ?id = "gen_token_id (Suc (gm_token_n m))"
  have "named gen_token_id (gm_token_n m) (fmdom' (st_tokens st))" and n: "Suc (gm_token_n m) < 2 ^ 63"
    and sn: "gm_scene_n m < 2 ^ 63" and scenes: "named gen_scene_id (gm_scene_n m) (fmdom' (st_scenes st))"
    using assms by (simp_all add: believes_def draw_defs)
  then have new: "fmlookup (st_tokens st) ?id = None" "?id \<notin> fmdom' (st_tokens st)" and id: "\<not> bad_id ?id"
    using named_next[OF _ names_inj(3)] names_fit(3)[OF n] by (blast intro: fmdom'_notD)+
  obtain sc t1 where sc: "sc \<in> set (gm_scenes m)" "pick (gm_scenes m) t = Some (sc, t1)"
    using pick_from[OF assms(3)] by blast
  obtain a t2 where a: "a \<in> set (gm_actors m)" "pick (gm_actors m) t1 = Some (a, t2)"
    using pick_from[OF assms(4)] by blast
  have fits: "\<not> bad_id sc" using name_fits[OF scenes _ names_fit(1) sn, of sc] sc(1) assms(1) by (simp add: believes_def draw_defs)
  have known: "fmlookup (st_scenes st) sc \<noteq> None" "fmlookup (st_actors st) a \<noteq> None"
    using sc(1) a(1) assms(1) by (auto simp: believes_def draw_defs fmlookup_dom'_iff)
  show ?thesis unfolding gen_place_token_def Let_def
    using assms new id fits known by (simp add: sc(2) a(2),
        intro emit_legal[of _ _ "m\<lparr>gm_token_n := _, gm_tokens := _, gm_token_scene := _, gm_token_pos := _, gm_token_actor := _\<rparr>", simplified])
      (auto simp: believes_def draw_defs apply_payload_def apply_token_placed_def put_token_def split: if_splits)
qed

text \<open>The rest of a token's story rests on its being on the board.\<close>

lemma held_token:
  assumes "believes m st seq" and "tid \<in> set (gm_tokens m)" and "gm_id_n m < 2 ^ 62"
  obtains tok s where "fmlookup (st_tokens st) tid = Some tok" "fmlookup (gm_token_scene m) tid = Some s" "\<not> bad_id s"
    "fmlookup (gm_token_actor m) tid = Some (tok_actor_id tok)"
proof -
  have toks: "tokens_match (gm_tokens m) (gm_token_scene m) (gm_token_actor m) (st_tokens st)"
    using assms(1) by (simp add: believes_def matches_def)
  with assms(2) obtain tok where "fmlookup (st_tokens st) tid = Some tok" by (auto simp: tokens_match_def fmlookup_dom'_iff)
  with toks assms(2) that show ?thesis by (auto simp: tokens_match_def)
qed

lemma describe_token_legal:
  assumes "believes m st seq" and "gm_id_n m < 2 ^ 62" and "gm_tokens m \<noteq> []"
  shows "legal_draw (gen_describe_token idx m t) (gm_id_n m) st seq"
proof -
  obtain tid t1 where tid: "tid \<in> set (gm_tokens m)" "pick (gm_tokens m) t = Some (tid, t1)" using pick_from[OF assms(3)] by blast
  obtain tok s where tok: "fmlookup (st_tokens st) tid = Some tok" "fmlookup (gm_token_actor m) tid = Some (tok_actor_id tok)"
    using held_token[OF assms(1) tid(1) assms(2)] by blast
  then have "insert tid (fmdom' (st_tokens st)) = fmdom' (st_tokens st)" by (auto simp: fmlookup_dom'_iff)
  then show ?thesis unfolding gen_describe_token_def
    using assms tok by (simp add: tid(2), intro emit_legal[of _ _ m, simplified])
      (auto simp: believes_def draw_defs apply_payload_def apply_token_described_def put_token_def)
qed

lemma move_token_legal:
  assumes "believes m st seq" and "gm_id_n m < 2 ^ 62" and "gm_tokens m \<noteq> []"
  shows "legal_draw (gen_move_token idx m t) (gm_id_n m) st seq"
proof -
  obtain tid t1 where tid: "tid \<in> set (gm_tokens m)" "pick (gm_tokens m) t = Some (tid, t1)" using pick_from[OF assms(3)] by blast
  obtain tok s where tok: "fmlookup (st_tokens st) tid = Some tok" "fmlookup (gm_token_scene m) tid = Some s" "\<not> bad_id s"
    "fmlookup (gm_token_actor m) tid = Some (tok_actor_id tok)"
    using held_token[OF assms(1) tid(1) assms(2)] by blast
  then have "insert tid (fmdom' (st_tokens st)) = fmdom' (st_tokens st)" by (auto simp: fmlookup_dom'_iff)
  moreover have "length (move_reasons ! (idx mod length move_reasons)) \<le> 256"
    using nth_mem[of "idx mod length move_reasons" move_reasons] by (auto simp: move_reasons_def)
  ultimately show ?thesis unfolding gen_move_token_def Let_def
    using assms tok by (simp add: tid(2) split_def, intro emit_legal[of _ _ "m\<lparr>gm_token_pos := _\<rparr>", simplified])
      (auto simp: believes_def draw_defs apply_payload_def apply_token_moved_def put_token_def)
qed

lemma remove_token_legal:
  assumes "believes m st seq" and "gm_id_n m < 2 ^ 62"
  shows "legal_draw (gen_remove_token idx m t) (gm_id_n m) st seq"
proof -
  obtain absent t1 where draw: "(if gm_tokens m = [] then (True, t) else apfst (\<lambda>r. drawn_under r 20) (float64 t)) = (absent, t1)"
    by fastforce
  show ?thesis
  proof (cases absent)
    case True
    have "named gen_token_id (gm_token_n m) (fmdom' (st_tokens st))" using assms by (simp add: believes_def draw_defs)
    then have "fmlookup (st_tokens st) (absent_token idx) = None" by (auto intro: fmdom'_notD)
    with assms show ?thesis unfolding gen_remove_token_def
      by (simp add: draw True, intro emit_legal[of _ _ m, simplified])
        (auto simp: believes_def draw_defs apply_payload_def apply_token_removed_def)
  next
    case False
    then have i: "t1 0 mod length (gm_tokens m) < length (gm_tokens m)" and some: "gm_tokens m \<noteq> []"
      using draw by (auto split: if_splits)
    let ?i = "t1 0 mod length (gm_tokens m)"
    have on: "distinct (gm_tokens m)" "gm_tokens m ! ?i \<in> set (gm_tokens m)"
      using assms(1) nth_mem[OF i] by (simp_all only: believes_def draw_defs)
    obtain tok where tok: "fmlookup (st_tokens st) (gm_tokens m ! ?i) = Some tok" using held_token[OF assms(1) on(2) assms(2)] by blast
    note cut = set_cut_out[OF on(1) i] distinct_cut_out[OF on(1), of ?i]
    have taken: "intn (length (gm_tokens m)) t1 = Some (?i, after t1)" using some by simp
    have off: "\<not> absent" using False .
    show ?thesis unfolding gen_remove_token_def Let_def draw eq_False[THEN iffD2, OF off] taken run_draw
      using assms tok cut by (intro emit_legal[of _ _ "m\<lparr>gm_tokens := _, gm_token_scene := _, gm_token_pos := _, gm_token_actor := _\<rparr>", simplified])
        (auto simp: believes_def draw_defs apply_payload_def apply_token_removed_def intro: named_subset)
  qed
qed

lemma on_board_iff:
  assumes "believes m st seq"
  shows "a \<in> fmran' (gm_token_actor m) \<longleftrightarrow> standing_token st a \<noteq> []"
proof -
  have toks: "fmdom' (gm_token_actor m) = fmdom' (st_tokens st)"
    "\<forall>tid tok. fmlookup (st_tokens st) tid = Some tok \<longrightarrow> fmlookup (gm_token_actor m) tid = Some (tok_actor_id tok)"
    using assms by (simp_all add: believes_def draw_defs)
  have "a \<in> fmran' (gm_token_actor m) \<longleftrightarrow> (\<exists>tid tok. fmlookup (st_tokens st) tid = Some tok \<and> tok_actor_id tok = a)"
    using toks by (auto simp: fmlookup_ran'_iff) (metis fmdom'_notI fmlookup_dom'_iff option.inject option.distinct(1))+
  also have "\<dots> \<longleftrightarrow> tokens_of st a \<noteq> {}" using tokens_of_iff[of _ st a] by blast
  finally show ?thesis using standing_token_least(1)[OF wf_no_empty_token] assms by (simp add: believes_def)
qed

lemma remove_actor_legal:
  assumes "believes m st seq"
  shows "legal_draw (gen_remove_actor m t) (gm_id_n m) st seq"
proof -
  let ?on = "\<lambda>a. a \<in> fmran' (gm_token_actor m)"
  let ?held = "filter ?on (gm_actors m)" and ?clean = "filter (\<lambda>a. \<not> ?on a) (gm_actors m)"
  obtain barred t1 where draw: "(if ?held = [] then (False, t) else apfst (\<lambda>r. drawn_under r 25) (float64 t)) = (barred, t1)"
    by fastforce
  have known: "fmlookup (st_actors st) a \<noteq> None" if "a \<in> set (gm_actors m)" for a
    using that assms by (simp add: believes_def draw_defs fmlookup_dom'_iff)
  consider "barred" | "\<not> barred" "?clean \<noteq> []" | "\<not> barred" "?clean = []" by blast
  then show ?thesis
  proof cases
    case 1
    then have "?held \<noteq> []" using draw by (auto split: if_splits)
    then obtain a t2 where a: "a \<in> set ?held" "pick ?held t1 = Some (a, t2)" using pick_from by blast
    then have "fmlookup (st_actors st) a \<noteq> None" "standing_token st a \<noteq> []" using known on_board_iff[OF assms] by auto
    with assms show ?thesis unfolding gen_remove_actor_def Let_def
      by (simp only: draw 1 a(2) run_draw, intro emit_legal[of _ _ m, simplified])
        (auto simp: believes_def draw_defs apply_payload_def apply_actor_removed_def)
  next
    case 2
    then obtain a t2 where a: "a \<in> set ?clean" "pick ?clean t1 = Some (a, t2)" using pick_from by blast
    then have "fmlookup (st_actors st) a \<noteq> None" "standing_token st a = []" using known on_board_iff[OF assms] by auto
    moreover have "set (filter (\<lambda>b. b \<noteq> a) (gm_actors m)) = set (gm_actors m) - {a}" by auto
    ultimately show ?thesis unfolding gen_remove_actor_def Let_def using assms
      by (simp only: draw 2 a(2) run_draw,
          intro emit_legal[of _ _ "m\<lparr>gm_actors := _, gm_grants := _, gm_conditions := _\<rparr>", simplified])
        (auto simp: believes_def draw_defs apply_payload_def apply_actor_removed_def conditions_match_def intro: named_subset)
  next
    case 3
    with assms show ?thesis unfolding gen_remove_actor_def Let_def
      by (simp only: draw 3 run_draw simp_thms) (simp add: legal_draw_def judged_right_def)
  qed
qed

lemma text_fits: "n < 2 ^ 63 \<Longrightarrow> length s \<le> 8000 \<Longrightarrow> length (s @ show_nat n) \<le> 8192"
  using length_show_index[of n] by simp

lemma add_narration_legal:
  assumes "believes m st seq" and "idx < 2 ^ 62"
  shows "legal_draw (gen_add_narration idx m t) (gm_id_n m) st seq"
proof -
  let ?text = "''narration entry #'' @ show_nat idx"
  let ?entry = "\<lambda>a b. NarrationAdded \<lparr>na_text = ?text, na_as = [], na_anchor_from = a, na_anchor_to = b,
      na_out_of_character = False\<rparr>"
  have words: "?text \<noteq> []" "\<not> 8192 < length ?text" using text_fits[of idx "''narration entry #''"] assms(2) by simp_all
  have judged: "legal_draw (emit ''addNarration'' False False (?entry a b) m t') (gm_id_n m) st seq"
    if "a = 0 \<and> b = 0 \<or> 0 < a \<and> a \<le> b \<and> b < seq" for a b t'
    using that assms words by (intro emit_legal[of _ _ m, simplified])
      (auto simp: believes_def draw_defs apply_payload_def apply_narration_added_def Let_def)
  obtain anchored t1 where draw:
    "(if length (gm_seqs m) < 2 then (False, t) else apfst (\<lambda>r. drawn_under r 50) (float64 t)) = (anchored, t1)" by fastforce
  show ?thesis
  proof (cases anchored)
    case True
    then have "gm_seqs m \<noteq> []" using draw by (auto split: if_splits)
    then obtain a t2 b t3 where a: "a \<in> set (gm_seqs m)" "pick (gm_seqs m) t1 = Some (a, t2)"
      and b: "b \<in> set (gm_seqs m)" "pick (gm_seqs m) t2 = Some (b, t3)" using pick_from by metis
    have "0 < a \<and> a < seq" "0 < b \<and> b < seq" using a(1) b(1) assms(1) by (simp_all add: believes_def draw_defs anchors_ok_def)
    then show ?thesis unfolding gen_add_narration_def Let_def
      using judged[of b a t3] judged[of a b t3]
      by (simp only: draw True a(2) b(2) run_draw) (auto split: if_splits)
  next
    case False
    then have off: "anchored = False" by simp
    show ?thesis unfolding gen_add_narration_def Let_def draw off run_draw by (rule judged) simp
  qed
qed

lemma note_fits:
  assumes "\<not> bad_id key" and "idx < 2 ^ 62"
  shows "length key \<noteq> 0" "\<not> 128 < length key" "\<not> 256 < length (''Note '' @ key)"
    "\<not> 8192 < length (''text for '' @ key @ '' at action #'' @ show_nat idx)"
  using assms length_show_index[of idx] by (auto simp: bad_id_def)

lemma upsert_note_legal:
  assumes "believes m st seq" and "gm_id_n m < 2 ^ 62" and "idx < 2 ^ 62"
  shows "legal_draw (gen_upsert_note idx m t) (gm_id_n m) st seq"
proof -
  have keys: "named gen_note_key (gm_note_n m) (fmdom' (st_notes st))" "set (gm_note_keys m) = fmdom' (st_notes st)"
    and n: "Suc (gm_note_n m) < 2 ^ 63" using assms by (simp_all add: believes_def draw_defs)
  obtain again t1 where draw: "(if gm_note_keys m = [] then (False, t) else apfst (\<lambda>r. drawn_under r 30) (float64 t)) = (again, t1)"
    by fastforce
  show ?thesis
  proof (cases again)
    case True
    then have "gm_note_keys m \<noteq> []" using draw by (auto split: if_splits)
    then obtain key t2 where key: "key \<in> set (gm_note_keys m)" "pick (gm_note_keys m) t1 = Some (key, t2)" using pick_from by blast
    have on: "again = True" using True by simp
    have "\<not> bad_id key" using name_fits[OF keys(1) _ names_fit(6)] key(1) keys(2) n by simp
    note fits = note_fits[OF this assms(3)]
    have "insert key (fmdom' (st_notes st)) = fmdom' (st_notes st)" using key(1) keys(2) by auto
    then show ?thesis unfolding gen_upsert_note_def Let_def draw on run_draw key(2)
      using assms fits by (intro emit_legal[of _ _ m, simplified])
        (auto simp: believes_def draw_defs apply_payload_def apply_note_upserted_def)
  next
    case False
    then have off: "again = False" by simp
    let ?key = "gen_note_key (Suc (gm_note_n m))"
    have new: "?key \<notin> fmdom' (st_notes st)" using named_next[OF keys(1) names_inj(4)] .
    note fits = note_fits[OF names_fit(6)[OF n] assms(3)]
    show ?thesis unfolding gen_upsert_note_def Let_def draw off run_draw
      using assms fits new by (intro emit_legal[of _ _ "m\<lparr>gm_note_n := _, gm_note_keys := _\<rparr>", simplified])
        (auto simp: believes_def draw_defs apply_payload_def apply_note_upserted_def)
  qed
qed

lemma delete_note_legal:
  assumes "believes m st seq"
  shows "legal_draw (gen_delete_note idx m t) (gm_id_n m) st seq"
proof -
  have keys: "named gen_note_key (gm_note_n m) (fmdom' (st_notes st))" "distinct (gm_note_keys m)"
    "set (gm_note_keys m) = fmdom' (st_notes st)" using assms by (simp_all add: believes_def draw_defs)
  obtain absent t1 where draw: "(if gm_note_keys m = [] then (True, t) else apfst (\<lambda>r. drawn_under r 30) (float64 t)) = (absent, t1)"
    by fastforce
  show ?thesis
  proof (cases absent)
    case True
    have on: "absent = True" using True by simp
    have "fmlookup (st_notes st) (absent_note idx) = None" using keys(1) by (auto intro: fmdom'_notD)
    then show ?thesis unfolding gen_delete_note_def Let_def draw on run_draw
      using assms by (intro emit_legal[of _ _ m, simplified])
        (auto simp: believes_def draw_defs apply_payload_def apply_note_deleted_def)
  next
    case False
    then have off: "absent = False" and some: "gm_note_keys m \<noteq> []" using draw by (auto split: if_splits)
    let ?i = "t1 0 mod length (gm_note_keys m)"
    have i: "?i < length (gm_note_keys m)" using some by simp
    have taken: "intn (length (gm_note_keys m)) t1 = Some (?i, after t1)" using some by simp
    have "fmlookup (st_notes st) (gm_note_keys m ! ?i) \<noteq> None" using nth_mem[OF i] keys(3) by (simp add: fmlookup_dom'_iff)
    then show ?thesis unfolding gen_delete_note_def Let_def draw off taken run_draw
      using assms set_cut_out[OF keys(2) i] distinct_cut_out[OF keys(2), of ?i]
      by (intro emit_legal[of _ _ "m\<lparr>gm_note_keys := _\<rparr>", simplified])
        (auto simp: believes_def draw_defs apply_payload_def apply_note_deleted_def intro: named_subset)
  qed
qed

lemma known_scene:
  assumes "believes m st seq" and "s \<in> set (gm_scenes m)"
  shows "fmlookup (st_scenes st) s \<noteq> None" "insert s (fmdom' (st_scenes st)) = fmdom' (st_scenes st)"
  using assms by (auto simp: believes_def draw_defs fmlookup_dom'_iff)

lemma open_door_legal:
  assumes "believes m st seq" and "gm_scenes m \<noteq> []"
  shows "legal_draw (gen_open_door idx m t) (gm_id_n m) st seq"
proof -
  obtain r t1 where draw: "float64 t = (r, t1)" by fastforce
  show ?thesis
  proof (cases "drawn_under r 15")
    case True
    then have on: "drawn_under r 15 = True" by simp
    have "named gen_scene_id (gm_scene_n m) (fmdom' (st_scenes st))" using assms by (simp add: believes_def draw_defs)
    then have "fmlookup (st_scenes st) (absent_scene idx) = None" by (auto intro: fmdom'_notD)
    then show ?thesis unfolding gen_open_door_def Let_def draw run_draw on coordinate_Some[of 20, simplified]
      using assms by (simp, intro emit_legal[of _ _ m, simplified])
        (auto simp: believes_def draw_defs apply_payload_def apply_door_opened_def)
  next
    case False
    then have off: "drawn_under r 15 = False" by simp
    obtain s t2 where s: "s \<in> set (gm_scenes m)" "pick (gm_scenes m) t1 = Some (s, t2)" using pick_from[OF assms(2)] by blast
    show ?thesis unfolding gen_open_door_def Let_def draw run_draw off s(2)
      using assms known_scene[OF assms(1) s(1)]
      by (simp, intro emit_legal[of _ _ "m\<lparr>gm_open_doors := _\<rparr>", simplified])
        (auto simp: believes_def draw_defs apply_payload_def apply_door_opened_def put_scene_def)
  qed
qed

lemma close_door_legal:
  assumes "believes m st seq" and "gm_scenes m \<noteq> []"
  shows "legal_draw (gen_close_door m t) (gm_id_n m) st seq"
proof -
  obtain s t1 where s: "s \<in> set (gm_scenes m)" "pick (gm_scenes m) t = Some (s, t1)" using pick_from[OF assms(2)] by blast
  obtain opened t2 where draw: "(if doors_of m s = {||} then (False, t1) else apfst (\<lambda>r. drawn_under r 80) (float64 t1)) = (opened, t2)"
    by fastforce
  have judged: "legal_draw (emit ''closeDoor'' False True (DoorClosed s (Some p)) (m\<lparr>gm_open_doors := ds\<rparr>) t') (gm_id_n m) st seq"
    for p ds t'
    using assms known_scene[OF assms(1) s(1)]
    by (intro emit_legal[of _ _ "m\<lparr>gm_open_doors := _\<rparr>", simplified])
      (auto simp: believes_def draw_defs apply_payload_def apply_door_closed_def put_scene_def)
  show ?thesis
  proof (cases opened)
    case True
    then have on: "opened = True" and "sorted_list_of_fset (doors_of m s) \<noteq> []"
      using draw by (auto simp: sorted_list_of_fset.rep_eq split: if_splits)
    then obtain x y t3 where xy: "pick (sorted_list_of_fset (doors_of m s)) t2 = Some ((x, y), t3)" using pick_from by fastforce
    show ?thesis unfolding gen_close_door_def Let_def s(2) draw on xy run_draw by (rule judged)
  next
    case False
    then have off: "opened = False" by simp
    show ?thesis unfolding gen_close_door_def Let_def s(2) draw off run_draw
      using judged[of _ "gm_open_doors m"] by simp
  qed
qed

lemma known_actor:
  assumes "believes m st seq" and "a \<in> set (gm_actors m)"
  obtains x where "fmlookup (st_actors st) a = Some x" "insert a (fmdom' (st_actors st)) = fmdom' (st_actors st)"
  using assms by (fastforce simp: believes_def matches_def fmlookup_dom'_iff)

lemma participant_fits: "k \<le> 3 \<Longrightarrow> gen_participant k \<noteq> [] \<and> \<not> 128 < length (gen_participant k)"
  using good_id[OF names_fit(4)[of k]] by simp

lemma grant_control_legal:
  assumes "believes m st seq" and "gm_actors m \<noteq> []"
  shows "legal_draw (gen_grant_control m t) (gm_id_n m) st seq"
proof -
  obtain a t1 where a: "a \<in> set (gm_actors m)" "pick (gm_actors m) t = Some (a, t1)" using pick_from[OF assms(2)] by blast
  obtain x where x: "fmlookup (st_actors st) a = Some x" "insert a (fmdom' (st_actors st)) = fmdom' (st_actors st)"
    using known_actor[OF assms(1) a(1)] .
  let ?pid = "gen_participant (t1 0 mod 4)"
  have k: "t1 0 mod 4 \<le> 3" using mod_less_divisor[of 4 "t1 0"] by linarith
  have taken: "intn 4 t1 = Some (t1 0 mod 4, after t1)" by simp
  have judged: "legal_draw (emit ''grantControl'' False True
      (ActorControlGranted \<lparr>cg_actor_id = a, cg_participant_id = ?pid, cg_kind = KIND_PARTY_MEMBER\<rparr>) (m\<lparr>gm_grants := gs\<rparr>) t')
      (gm_id_n m) st seq" if "\<forall>b. named gen_participant 3 (set (slice_at gs b))" for gs t'
    using that assms x participant_fits[OF k]
    by (intro emit_legal[of _ _ "m\<lparr>gm_grants := _\<rparr>", simplified])
      (auto simp: believes_def draw_defs apply_payload_def apply_control_granted_def control_target_def put_actor_def Let_def)
  have held: "\<forall>b. named gen_participant 3 (set (slice_at (gm_grants m) b))" using assms(1) by (simp add: believes_def matches_def)
  then have grown: "\<forall>b. named gen_participant 3 (set (slice_at (fmupd a (slice_at (gm_grants m) a @ [?pid]) (gm_grants m)) b))"
    using k by auto
  show ?thesis unfolding gen_grant_control_def Let_def a(2) taken run_draw using judged[OF held] judged[OF grown] by simp
qed

lemma revoke_control_legal:
  assumes "believes m st seq" and "gm_actors m \<noteq> []"
  shows "legal_draw (gen_revoke_control m t) (gm_id_n m) st seq"
proof -
  obtain a t1 where a: "a \<in> set (gm_actors m)" "pick (gm_actors m) t = Some (a, t1)" using pick_from[OF assms(2)] by blast
  obtain x where x: "fmlookup (st_actors st) a = Some x" "insert a (fmdom' (st_actors st)) = fmdom' (st_actors st)"
    using known_actor[OF assms(1) a(1)] .
  let ?k = "t1 0 mod 4" and ?held = "slice_at (gm_grants m) a"
  have k: "?k \<le> 3" using mod_less_divisor[of 4 "t1 0"] by linarith
  have taken: "intn 4 t1 = Some (?k, after t1)" by simp
  have held: "\<forall>b. named gen_participant 3 (set (slice_at (gm_grants m) b))" using assms(1) by (simp add: believes_def matches_def)
  obtain theirs t2 where draw: "(if ?held = [] then (False, after t1) else apfst (\<lambda>r. drawn_under r 80) (float64 (after t1))) = (theirs, t2)"
    by fastforce
  obtain pid t3 where pid: "(if theirs then pick ?held t2 else Some (gen_participant ?k, t2)) = Some (pid, t3)"
    "\<exists>k \<le> 3. pid = gen_participant k"
  proof (cases theirs)
    case True
    then have "?held \<noteq> []" using draw by (auto split: if_splits)
    then show ?thesis using pick_from[of ?held t2] held that True by (fastforce simp: named_def)
  next
    case False
    with k that show ?thesis by auto
  qed
  from pid(2) participant_fits have fits: "pid \<noteq> []" "\<not> 128 < length pid" by auto
  have judged: "legal_draw (emit ''revokeControl'' False True (ActorControlRevoked a pid) (m\<lparr>gm_grants := gs\<rparr>) t')
      (gm_id_n m) st seq" if "\<forall>b. named gen_participant 3 (set (slice_at gs b))" for gs t'
    using that assms x fits
    by (intro emit_legal[of _ _ "m\<lparr>gm_grants := _\<rparr>", simplified])
      (auto simp: believes_def draw_defs apply_payload_def apply_control_revoked_def control_target_def put_actor_def Let_def)
  have cut: "\<forall>b. named gen_participant 3 (set (slice_at (fmupd a (filter (\<lambda>p. p \<noteq> pid) ?held) (gm_grants m)) b))"
    using held by (auto intro: named_subset)
  show ?thesis unfolding gen_revoke_control_def Let_def a(2) taken run_draw draw pid(1)
    using judged[OF held] judged[OF cut] by simp
qed

lemma carried:
  assumes "believes m st seq"
  shows "map ac_id (conditions_of st a) = slice_at (gm_conditions m) a" "distinct (slice_at (gm_conditions m) a)"
    "named gen_condition_id 4 (set (slice_at (gm_conditions m) a))"
    "slice_at (gm_conditions m) a \<noteq> [] \<Longrightarrow> a \<in> set (gm_actors m)"
    "ac_id ` set (conditions_of st a) = set (slice_at (gm_conditions m) a)"
proof -
  have match: "conditions_match (gm_conditions m) (set (gm_actors m)) (st_conditions st)" using assms by (simp add: believes_def matches_def)
  then show list: "map ac_id (conditions_of st a) = slice_at (gm_conditions m) a" by (simp add: conditions_match_def conditions_of_slice)
  from match show "distinct (slice_at (gm_conditions m) a)" "named gen_condition_id 4 (set (slice_at (gm_conditions m) a))"
    "slice_at (gm_conditions m) a \<noteq> [] \<Longrightarrow> a \<in> set (gm_actors m)" unfolding conditions_match_def by blast+
  from list show "ac_id ` set (conditions_of st a) = set (slice_at (gm_conditions m) a)" by (metis set_map)
qed

lemma conditions_put:
  assumes "conditions_match held actors cs" and "a \<in> actors" and "map ac_id xs = ys" and "distinct ys"
    and "named gen_condition_id 4 (set ys)"
  shows "conditions_match (fmupd a ys held) actors (fmupd a xs cs)"
  using assms by (simp add: conditions_match_def)

lemma apply_condition_legal:
  assumes "believes m st seq" and "gm_actors m \<noteq> []"
  shows "legal_draw (gen_apply_condition m t) (gm_id_n m) st seq"
proof -
  obtain a t1 where a: "a \<in> set (gm_actors m)" "pick (gm_actors m) t = Some (a, t1)" using pick_from[OF assms(2)] by blast
  obtain x where x: "fmlookup (st_actors st) a = Some x" using known_actor[OF assms(1) a(1)] .
  let ?held = "slice_at (gm_conditions m) a"
  note held = carried[OF assms(1), of a]
  obtain again t2 where draw: "(if ?held = [] then (False, t1) else apfst (\<lambda>r. drawn_under r 20) (float64 t1)) = (again, t2)" by fastforce
  let ?k = "t2 0 mod 5"
  have k: "?k \<le> 4" using mod_less_divisor[of 5 "t2 0"] by linarith
  have taken: "intn 5 t2 = Some (?k, after t2)" by simp
  obtain cid t3 where cid: "(if again then pick ?held (after t2) else Some (gen_condition_id ?k, after t2)) = Some (cid, t3)"
    "again \<longrightarrow> cid \<in> set ?held" "\<exists>k \<le> 4. cid = gen_condition_id k"
  proof (cases again)
    case True
    then have "?held \<noteq> []" using draw by (auto split: if_splits)
    then obtain c where "c \<in> set ?held" "pick ?held (after t2) = Some (c, after (after t2))" using pick_from by blast
    with True held(3) that show ?thesis by (auto simp: named_def)
  next
    case False
    with k that show ?thesis by auto
  qed
  have fits: "\<not> bad_id cid" using cid(3) names_fit(5) by fastforce
  have dup: "(again \<or> cid \<in> set ?held) = (cid \<in> set ?held)" using cid(2) by blast
  show ?thesis
  proof (cases "cid \<in> set ?held")
    case True
    then show ?thesis unfolding gen_apply_condition_def Let_def a(2) draw taken run_draw cid(1) dup
      using assms x held(5) by (simp, intro emit_legal[of _ _ m, simplified])
        (auto simp: believes_def draw_defs apply_payload_def apply_condition_applied_def)
  next
    case False
    have "conditions_match (fmupd a (?held @ [cid]) (gm_conditions m)) (fmdom' (st_actors st))
        (fmupd a (conditions_of st a @ [\<lparr>ac_id = cid, ac_source = ''prop'', ac_applied_seq = n\<rparr>]) (st_conditions st))" for n
      using assms(1) a(1) held(1-3) False cid(3) by (intro conditions_put) (auto simp: believes_def matches_def)
    with False show ?thesis unfolding gen_apply_condition_def Let_def a(2) draw taken run_draw cid(1) dup
      using assms x held(5) fits by (simp, intro emit_legal[of _ _ "m\<lparr>gm_conditions := _\<rparr>", simplified])
        (auto simp: believes_def draw_defs apply_payload_def apply_condition_applied_def)
  qed
qed

lemma remove_first_absent: "remove_first_condition cid cs = None \<longleftrightarrow> cid \<notin> ac_id ` set cs"
  by (induction cs) auto

lemma remove_first_nth:
  "distinct (map ac_id cs) \<Longrightarrow> i < length cs \<Longrightarrow>
    \<exists>cs'. remove_first_condition (map ac_id cs ! i) cs = Some cs' \<and> map ac_id cs' = cut_out i (map ac_id cs)"
proof (induction cs arbitrary: i)
  case (Cons c cs)
  show ?case
  proof (cases i)
    case 0
    then show ?thesis by (simp add: cut_out_def)
  next
    case (Suc j)
    with Cons.IH[of j] Cons.prems obtain cs' where
      "remove_first_condition (map ac_id cs ! j) cs = Some cs'" "map ac_id cs' = cut_out j (map ac_id cs)" by auto
    moreover have "ac_id c \<noteq> map ac_id cs ! j" using Cons.prems Suc nth_mem[of j "map ac_id cs"] by auto
    ultimately show ?thesis using Suc by (simp add: cut_out_def)
  qed
qed simp

lemma remove_condition_legal:
  assumes "believes m st seq" and "gm_actors m \<noteq> []"
  shows "legal_draw (gen_remove_condition idx m t) (gm_id_n m) st seq"
proof -
  let ?carriers = "filter (\<lambda>a. slice_at (gm_conditions m) a \<noteq> []) (keys (gm_conditions m))"
  let ?pool = "if ?carriers = [] then gm_actors m else ?carriers"
  have "?pool \<noteq> []" using assms(2) by simp
  then obtain a t1 where pool: "a \<in> set ?pool" "pick ?pool t = Some (a, t1)" using pick_from by blast
  note held = carried[OF assms(1), of a]
  have a: "a \<in> set (gm_actors m)" using pool(1) held(4) by (auto split: if_splits)
  obtain x where x: "fmlookup (st_actors st) a = Some x" using known_actor[OF assms(1) a] .
  let ?held = "slice_at (gm_conditions m) a"
  obtain absent t2 where draw: "(if ?held = [] then (True, t1) else apfst (\<lambda>r. drawn_under r 25) (float64 t1)) = (absent, t2)" by fastforce
  show ?thesis
  proof (cases absent)
    case True
    then have on: "absent = True" by simp
    have "remove_first_condition (absent_condition idx) (conditions_of st a) = None"
      using held(3,5) by (simp add: remove_first_absent)
    then show ?thesis unfolding gen_remove_condition_def Let_def pool(2) run_draw draw on
      using assms x by (intro emit_legal[of _ _ m, simplified])
        (auto simp: believes_def draw_defs apply_payload_def apply_condition_removed_def)
  next
    case False
    then have off: "absent = False" and some: "?held \<noteq> []" using draw by (auto split: if_splits)
    let ?i = "t2 0 mod length ?held"
    have i: "?i < length ?held" using some by simp
    have taken: "intn (length ?held) t2 = Some (?i, after t2)" using some by simp
    have "distinct (map ac_id (conditions_of st a))" "?i < length (conditions_of st a)"
      using held(2) i unfolding held(1)[symmetric] by simp_all
    from remove_first_nth[OF this] obtain cs' where
      cs': "remove_first_condition (?held ! ?i) (conditions_of st a) = Some cs'" "map ac_id cs' = cut_out ?i ?held"
      unfolding held(1) by blast
    have "conditions_match (fmupd a (cut_out ?i ?held) (gm_conditions m)) (fmdom' (st_actors st)) (fmupd a cs' (st_conditions st))"
      using assms(1) a cs'(2) distinct_cut_out[OF held(2)] set_cut_out[OF held(2) i] held(3)
      by (intro conditions_put) (auto simp: believes_def matches_def intro: named_subset)
    then show ?thesis unfolding gen_remove_condition_def Let_def pool(2) run_draw draw off taken
      using assms x cs'(1) by (intro emit_legal[of _ _ "m\<lparr>gm_conditions := _\<rparr>", simplified])
        (auto simp: believes_def draw_defs apply_payload_def apply_condition_removed_def)
  qed
qed

lemma step_legal:
  assumes "believes m st seq" and "gm_id_n m < 2 ^ 62" and "idx < 2 ^ 62"
  shows "legal_draw (gen_step idx m t) (gm_id_n m) st seq"
  unfolding gen_step_def Let_def split_def
  using scene_created_legal[OF assms(1,2)] add_actor_legal[OF assms(1,2)] place_token_legal[OF assms(1,2)]
    move_token_legal[OF assms(1,2)] describe_token_legal[OF assms(1,2)] add_narration_legal[OF assms(1,3)]
    upsert_note_legal[OF assms] delete_note_legal[OF assms(1)] open_door_legal[OF assms(1)] close_door_legal[OF assms(1)]
    grant_control_legal[OF assms(1)] revoke_control_legal[OF assms(1)] apply_condition_legal[OF assms(1)]
    remove_condition_legal[OF assms(1)] remove_token_legal[OF assms(1,2)] remove_actor_legal[OF assms(1)]
    start_session_legal[OF assms(1)] end_session_legal[OF assms(1)]
  by simp

subsection \<open>A walk\<close>

text \<open>A walk of \<open>n\<close> steps: draw, put the event to the engine, and report the sequence of an accepted one back.
  Each verdict pairs what the draw announced with whether the engine refused.\<close>

fun walk :: "nat \<Rightarrow> nat \<Rightarrow> int \<Rightarrow> gen_model \<Rightarrow> state \<Rightarrow> tape \<Rightarrow> (bool \<times> bool) list option" where
  "walk 0 idx seq m st t = Some []"
| "walk (Suc n) idx seq m st t =
     (case gen_step idx m t of
        None \<Rightarrow> None
      | Some (a, m', t') \<Rightarrow>
          (case ga_env a of
             None \<Rightarrow> walk n (Suc idx) seq m' st t'
           | Some env \<Rightarrow>
               (case apply_event st (env\<lparr>env_sequence := seq\<rparr>) of
                  Inl _ \<Rightarrow> map_option ((#) (ga_must_fail a, True)) (walk n (Suc idx) seq m' st t')
                | Inr st' \<Rightarrow>
                    map_option ((#) (ga_must_fail a, False)) (walk n (Suc idx) (seq + 1) (gen_accepted a seq m') st' t'))))"

lemma walk_judged:
  assumes "believes m st seq" and "gm_id_n m + n \<le> 2 ^ 62" and "idx + n \<le> 2 ^ 62"
  shows "\<exists>vs. walk n idx seq m st t = Some vs \<and> (\<forall>(announced, refused) \<in> set vs. announced = refused)"
  using assms
proof (induction n arbitrary: idx seq m st t)
  case (Suc n)
  then have "gm_id_n m < 2 ^ 62" "idx < 2 ^ 62" by simp_all
  from step_legal[OF Suc.prems(1) this, of t] obtain a m' t' where
    step: "gen_step idx m t = Some (a, m', t')" "gm_id_n m' \<le> Suc (gm_id_n m)" and judged: "judged_right a m' st seq"
    by (auto simp: legal_draw_def)
  have n': "gm_id_n m' + n \<le> 2 ^ 62" "gm_id_n (gen_accepted a seq m') + n \<le> 2 ^ 62" "Suc idx + n \<le> 2 ^ 62"
    using step(2) Suc.prems(2,3) by (simp_all add: gen_accepted_def)
  show ?case
  proof (cases "ga_env a")
    case None
    with judged Suc.IH[OF _ n'(1,3)] step(1) show ?thesis by (simp add: judged_right_def)
  next
    case (Some env)
    show ?thesis
    proof (cases "apply_event st (env\<lparr>env_sequence := seq\<rparr>)")
      case (Inl err)
      with judged Some have "believes m' st seq" "ga_must_fail a" by (simp_all add: judged_right_def)
      with Suc.IH[OF this(1) n'(1,3), of t'] step(1) Some Inl show ?thesis by auto
    next
      case (Inr st')
      with judged Some have "believes (gen_accepted a seq m') st' (seq + 1)" "\<not> ga_must_fail a" by (simp_all add: judged_right_def)
      with Suc.IH[OF this(1) n'(2,3), of t'] step(1) Some Inr show ?thesis by auto
    qed
  qed
qed simp

text \<open>C40: The generator knows the engine. From nothing, whatever the random source gives, a walk of up to
  \<open>2 ^ 62\<close> steps never panics, and every event it draws gets the engine's answer its draw announced: one drawn to be
  refused is refused by the fold of everything accepted so far, and every other one is accepted.\<close>

theorem generated_walks_are_judged:
  assumes "n \<le> 2 ^ 62"
  shows "\<exists>vs. walk n 0 1 new_gen_model new_state t = Some vs \<and> (\<forall>(announced, refused) \<in> set vs. announced = refused)"
  using walk_judged[OF new_model_believes] assms by (simp add: new_gen_model_def)

text \<open>A scene, then a note deleted that nobody wrote.\<close>

definition demo_tape :: tape where
  "demo_tape i = (if i = 0 then 0 else 66 * 2 ^ 53 div 100)"

lemma demo_walk: "walk 2 0 1 new_gen_model new_state demo_tape = Some [(False, False), (True, True)]"
  unfolding numeral_2_eq_2
  by (simp add: gen_step_def float64_def demo_tape_def drawn_under_def after_def Let_def new_gen_model_def new_state_def
      gen_scene_created_def gen_delete_note_def emit_def gen_env_def apply_event_def apply_payload_def
      apply_scene_created_def apply_note_deleted_def gen_accepted_def gen_scene_id_def bad_id_def show_nat.simps)

theorem generated_walks_are_judged_witness:
  "\<exists>vs. walk 2 0 1 new_gen_model new_state demo_tape = Some vs \<and> (True, True) \<in> set vs \<and> (False, False) \<in> set vs \<and>
     (\<forall>(announced, refused) \<in> set vs. announced = refused)"
proof -
  obtain vs where "walk 2 0 1 new_gen_model new_state demo_tape = Some vs" "\<forall>(announced, refused) \<in> set vs. announced = refused"
    using generated_walks_are_judged[of 2 demo_tape] by auto
  with demo_walk show ?thesis by auto
qed

end
