(* ===== verification/Presence_Props.thy ===== *)
theory Presence_Props
  imports Presence
begin

text \<open>
  No ghosts: once nobody has an arrival or a departure left to announce, every connection that missed no frame has
  been told exactly who is there, whatever the order in which connections came, went and announced.
\<close>

subsection \<open>What a connection has been told\<close>

definition hears :: "presence_frame \<Rightarrow> string set \<Rightarrow> string set" where
  "hears f told = (case f of
     SnapshotFrame ps \<Rightarrow> set (map fst ps) | ConnectedFrame p _ \<Rightarrow> insert p told | DisconnectedFrame p _ \<Rightarrow> told - {p})"

definition told_present :: "presence_frame list \<Rightarrow> string set" where
  "told_present fs = fold hears fs {}"

lemma told_present_snoc [simp]: "told_present (fs @ [f]) = hears f (told_present fs)"
  by (simp add: told_present_def)

definition who :: "registry \<Rightarrow> string set" where
  "who rg = {pid. \<exists>i c. fmlookup (rg_conns rg) i = Some c \<and> pn_participant c = pid}"

definition conns_of :: "registry \<Rightarrow> string \<Rightarrow> nat set" where
  "conns_of rg pid = {i. \<exists>c. fmlookup (rg_conns rg) i = Some c \<and> pn_participant c = pid}"

lemma finite_conns_of [simp]: "finite (conns_of rg pid)"
  by (rule finite_subset[of _ "fmdom' (rg_conns rg)"]) (auto simp: conns_of_def fmlookup_dom'_iff)

lemma who_iff: "pid \<in> who rg \<longleftrightarrow> conns_of rg pid \<noteq> {}"
  by (auto simp: who_def conns_of_def)

lemma present_from_ids:
  "set (map fst (present_from conns seen is)) =
     {pn_participant c | i c. i \<in> set is \<and> fmlookup conns i = Some c} - set seen"
  by (induction "is" arbitrary: seen) (auto split: option.splits)

lemma present_ids: "set (map fst (present rg)) = who rg"
  unfolding present_def present_from_ids who_def by (auto simp: fmlookup_dom'_iff)

lemma participant_ids_who: "set (participant_ids rg) = who rg"
  by (simp only: participant_ids_def present_ids)

subsection \<open>A fan-out\<close>

definition handed :: "(nat \<Rightarrow> bool) \<Rightarrow> presence_frame \<Rightarrow> nat set \<Rightarrow> nat \<Rightarrow> presence_conn \<Rightarrow> presence_conn" where
  "handed room f S i c = (if i \<in> S \<and> room i then c\<lparr>pn_queue := pn_queue c @ [f]\<rparr> else c)"

lemma send_presence_lookup:
  "fmlookup (rg_conns (send_presence room f j rg)) i = map_option (handed room f {j} i) (fmlookup (rg_conns rg) i)"
  by (cases "fmlookup (rg_conns rg) i") (auto simp: send_presence_def handed_def split: option.splits)

lemma send_presence_counts [simp]: "rg_counts (send_presence room f j rg) = rg_counts rg"
  by (simp add: send_presence_def split: option.splits)

lemma send_all_lookup:
  "distinct ts \<Longrightarrow> fmlookup (rg_conns (send_all room f ts rg)) i = map_option (handed room f (set ts) i) (fmlookup (rg_conns rg) i)"
proof (induction ts arbitrary: rg)
  case Nil
  then show ?case by (cases "fmlookup (rg_conns rg) i") (simp_all add: send_all_def handed_def)
next
  case (Cons t ts)
  then have "fmlookup (rg_conns (send_all room f ts (send_presence room f t rg))) i =
      map_option (handed room f (set ts) i) (map_option (handed room f {t} i) (fmlookup (rg_conns rg) i))"
    by (simp add: send_presence_lookup)
  moreover have "handed room f (set ts) i (handed room f {t} i c) = handed room f (set (t # ts)) i c" for c
    using Cons.prems by (auto simp: handed_def)
  ultimately show ?case by (simp add: send_all_def option.map_comp comp_def)
qed

lemma send_all_counts [simp]: "rg_counts (send_all room f ts rg) = rg_counts rg"
  by (induction ts arbitrary: rg) (simp_all add: send_all_def)

lemma handed_simps [simp]: "pn_participant (handed room f S i c) = pn_participant c" "pn_name (handed room f S i c) = pn_name c"
  by (simp_all add: handed_def)

lemma targets_distinct [simp]: "distinct (targets except deny rg)"
  by (simp add: targets_def)

lemma targets_iff:
  "i \<in> set (targets except deny rg) \<longleftrightarrow>
     Some i \<noteq> except \<and> (\<exists>c. fmlookup (rg_conns rg) i = Some c \<and> pn_participant c \<notin> set deny)"
  by (auto simp: targets_def fmlookup_dom'_iff split: option.splits)

subsection \<open>Serving\<close>

text \<open>The connections a frame meant for everybody (but the one it is about) does not reach.\<close>

definition missing :: "(nat \<Rightarrow> bool) \<Rightarrow> bool \<Rightarrow> nat option \<Rightarrow> string list \<Rightarrow> registry \<Rightarrow> nat set" where
  "missing room encoded except deny rg =
     {i. Some i \<noteq> except \<and> (\<not> encoded \<or> \<not> room i \<or> (\<exists>c. fmlookup (rg_conns rg) i = Some c \<and> pn_participant c \<in> set deny))}"

text \<open>A run of the table, with the connections that have missed a frame.\<close>

inductive served :: "presence_table \<Rightarrow> nat set \<Rightarrow> bool" where
  served_open: "served open_table {}"
| served_connects: "served tb missed \<Longrightarrow> fmlookup (rg_conns (pr_registry tb)) i = None \<Longrightarrow>
    served (connects room encoded i pid name tb) (if encoded \<and> room i then missed - {i} else insert i missed)"
| served_arrives: "served tb missed \<Longrightarrow> i \<in> set (pr_arriving tb) \<Longrightarrow>
    served (arrives room encoded deny i tb) (missed \<union> missing room encoded (Some i) deny (pr_registry tb))"
| served_leaves: "served tb missed \<Longrightarrow> i \<notin> set (pr_arriving tb) \<Longrightarrow> served (leaves i tb) missed"
| served_departs: "served tb missed \<Longrightarrow> (pid, name) \<in> set (pr_departing tb) \<Longrightarrow>
    served (departs room encoded deny pid name tb) (missed \<union> missing room encoded None deny (pr_registry tb))"
| served_promotes: "served tb missed \<Longrightarrow> served (promotes room encoded deny pid tb) missed"

definition counts_right :: "registry \<Rightarrow> bool" where
  "counts_right rg = (\<forall>pid. fmlookup (rg_counts rg) pid =
     (if conns_of rg pid = {} then None else Some (int (card (conns_of rg pid)))))"

definition told_right :: "presence_table \<Rightarrow> nat set \<Rightarrow> bool" where
  "told_right tb missed = (\<forall>i c. fmlookup (rg_conns (pr_registry tb)) i = Some c \<longrightarrow> i \<notin> missed \<longrightarrow>
     pn_participant c \<in> told_present (pn_queue c) \<and>
     who (pr_registry tb) \<subseteq> told_present (pn_queue c) \<union>
       {pid. \<exists>j \<in> set (pr_arriving tb). j \<in> conns_of (pr_registry tb) pid} \<and>
     told_present (pn_queue c) \<subseteq> who (pr_registry tb) \<union> fst ` set (pr_departing tb))"

definition arrivals_here :: "presence_table \<Rightarrow> bool" where
  "arrivals_here tb = (set (pr_arriving tb) \<subseteq> fmdom' (rg_conns (pr_registry tb)))"

lemma count_of_right: "counts_right rg \<Longrightarrow> count_of rg pid = int (card (conns_of rg pid))"
  by (simp add: counts_right_def count_of_def)

text \<open>What a fan-out leaves alone: who is connected, and the counts.\<close>

definition same_conns :: "registry \<Rightarrow> registry \<Rightarrow> bool" where
  "same_conns rg rg' = (rg_counts rg' = rg_counts rg \<and>
     (\<forall>i. map_option pn_participant (fmlookup (rg_conns rg') i) = map_option pn_participant (fmlookup (rg_conns rg) i)))"

lemma same_connsD:
  assumes "same_conns rg rg'"
  shows "conns_of rg' pid = conns_of rg pid" and "who rg' = who rg" and "fmdom' (rg_conns rg') = fmdom' (rg_conns rg)"
    and "counts_right rg' = counts_right rg"
proof -
  have same: "map_option pn_participant (fmlookup (rg_conns rg') i) = map_option pn_participant (fmlookup (rg_conns rg) i)" for i
    using assms by (simp add: same_conns_def)
  have conns: "conns_of rg'' q = {i. map_option pn_participant (fmlookup (rg_conns rg'') i) = Some q}" for rg'' q
    by (auto simp: conns_of_def)
  show c: "conns_of rg' pid = conns_of rg pid" for pid by (simp add: conns same)
  show "who rg' = who rg" by (rule set_eqI) (simp add: who_iff c)
  have "(i \<in> fmdom' (rg_conns rg')) = (i \<in> fmdom' (rg_conns rg))" for i
    using same[of i] by (cases "fmlookup (rg_conns rg) i"; cases "fmlookup (rg_conns rg') i") (auto simp: fmlookup_dom'_iff)
  then show "fmdom' (rg_conns rg') = fmdom' (rg_conns rg)" by blast
  show "counts_right rg' = counts_right rg" using assms by (simp add: counts_right_def c same_conns_def)
qed

lemma send_all_same:
  assumes "distinct ts"
  shows "same_conns rg (send_all room f ts rg)"
  by (simp add: same_conns_def send_all_lookup[OF assms] option.map_comp comp_def)

lemma rejudge_lookup:
  "fmlookup (rg_conns (rejudge_all pid rg)) i =
     map_option (\<lambda>c. if pn_participant c = pid then c\<lparr>pn_rejudge := True\<rparr> else c) (fmlookup (rg_conns rg) i)"
  by (simp add: rejudge_all_def)

lemma rejudge_same: "same_conns rg (rejudge_all pid rg)"
  unfolding same_conns_def rejudge_lookup by (auto simp: rejudge_all_def option.map_comp comp_def intro!: option.map_cong)

subsection \<open>The invariant\<close>

definition table_right :: "presence_table \<Rightarrow> nat set \<Rightarrow> bool" where
  "table_right tb missed = (counts_right (pr_registry tb) \<and> arrivals_here tb \<and> told_right tb missed)"

definition arriving_ids :: "presence_table \<Rightarrow> string set" where
  "arriving_ids tb = {pid. \<exists>j \<in> set (pr_arriving tb). j \<in> conns_of (pr_registry tb) pid}"

lemma told_rightD:
  assumes "told_right tb missed" and "fmlookup (rg_conns (pr_registry tb)) i = Some c" and "i \<notin> missed"
  shows "pn_participant c \<in> told_present (pn_queue c)"
    and "who (pr_registry tb) \<subseteq> told_present (pn_queue c) \<union> arriving_ids tb"
    and "told_present (pn_queue c) \<subseteq> who (pr_registry tb) \<union> fst ` set (pr_departing tb)"
  using assms unfolding told_right_def arriving_ids_def by blast+

lemma told_rightI:
  assumes "\<And>i c. fmlookup (rg_conns (pr_registry tb)) i = Some c \<Longrightarrow> i \<notin> missed \<Longrightarrow>
     pn_participant c \<in> told_present (pn_queue c) \<and> who (pr_registry tb) \<subseteq> told_present (pn_queue c) \<union> arriving_ids tb \<and>
     told_present (pn_queue c) \<subseteq> who (pr_registry tb) \<union> fst ` set (pr_departing tb)"
  shows "told_right tb missed"
  using assms unfolding told_right_def arriving_ids_def by blast

lemma own_who: "fmlookup (rg_conns rg) i = Some c \<Longrightarrow> pn_participant c \<in> who rg"
  by (auto simp: who_def)

lemma open_right: "table_right open_table {}"
  by (simp add: table_right_def open_table_def no_connections_def counts_right_def conns_of_def arrivals_here_def told_right_def)

lemma connects_right:
  assumes "table_right tb missed" and "fmlookup (rg_conns (pr_registry tb)) i = None"
  shows "table_right (connects room encoded i pid name tb) (if encoded \<and> room i then missed - {i} else insert i missed)"
    (is "table_right ?tb ?missed")
proof -
  let ?rg = "pr_registry tb"
  define c0 where "c0 = \<lparr>pn_participant = pid, pn_name = name, pn_rejudge = False, pn_queue = []\<rparr>"
  define rg1 where "rg1 = ?rg\<lparr>rg_conns := fmupd i c0 (rg_conns ?rg), rg_counts := fmupd pid (count_of ?rg pid + 1) (rg_counts ?rg)\<rparr>"
  define rg2 where "rg2 = (if encoded then send_presence room (SnapshotFrame (present rg1)) i rg1 else rg1)"
  define first where "first = (count_of ?rg pid + 1 = 1)"
  have right: "counts_right ?rg" "arrivals_here tb" "told_right tb missed" using assms(1) by (simp_all add: table_right_def)
  have tb: "pr_registry ?tb = rg2" "pr_arriving ?tb = (if first then i # pr_arriving tb else pr_arriving tb)"
    "pr_departing ?tb = pr_departing tb"
    by (simp_all add: connects_def join_and_send_def Let_def rg1_def rg2_def c0_def first_def)
  have conns1: "conns_of rg1 q = (if q = pid then insert i (conns_of ?rg q) else conns_of ?rg q)" for q
    using assms(2) by (auto simp: conns_of_def rg1_def c0_def)
  have lookup2: "fmlookup (rg_conns rg2) j = map_option (if encoded then handed room (SnapshotFrame (present rg1)) {i} j else id)
      (fmlookup (rg_conns rg1) j)" for j by (simp add: rg2_def send_presence_lookup option.map_id)
  then have same: "same_conns rg1 rg2" by (simp add: same_conns_def rg2_def option.map_comp comp_def)
  have new: "i \<notin> conns_of ?rg pid" using assms(2) by (simp add: conns_of_def)
  have counts: "counts_right rg2" unfolding same_connsD(4)[OF same]
    using right(1) new unfolding counts_right_def conns1 by (auto simp: rg1_def count_of_right[OF right(1)])
  have first: "first \<longleftrightarrow> conns_of ?rg pid = {}" using count_of_right[OF right(1), of pid] by (simp add: first_def)
  have who2: "who rg2 = insert pid (who ?rg)" unfolding same_connsD(2)[OF same] by (auto simp: who_iff conns1 split: if_splits)
  have here: "arrivals_here ?tb"
    using right(2) by (auto simp: arrivals_here_def tb same_connsD(3)[OF same] rg1_def)
  have arriving: "arriving_ids tb \<subseteq> arriving_ids ?tb"
    by (auto simp: arriving_ids_def tb same_connsD(1)[OF same] conns1 split: if_splits)
  have pid: "pid \<in> who ?rg \<or> pid \<in> arriving_ids ?tb"
    using first by (auto simp: arriving_ids_def tb same_connsD(1)[OF same] conns1 who_iff)
  have "told_right ?tb ?missed"
  proof (rule told_rightI, unfold tb(1,3) who2)
    fix j c
    assume c: "fmlookup (rg_conns rg2) j = Some c" and j: "j \<notin> ?missed"
    show "pn_participant c \<in> told_present (pn_queue c) \<and> insert pid (who ?rg) \<subseteq> told_present (pn_queue c) \<union> arriving_ids ?tb \<and>
        told_present (pn_queue c) \<subseteq> insert pid (who ?rg) \<union> fst ` set (pr_departing tb)"
    proof (cases "j = i")
      case True
      with j have "encoded" "room i" by (auto split: if_splits)
      with c True have "c = c0\<lparr>pn_queue := [SnapshotFrame (present rg1)]\<rparr>" by (simp add: lookup2 rg1_def handed_def c0_def)
      then have "told_present (pn_queue c) = who rg2" "pn_participant c = pid"
        by (simp_all add: told_present_def hears_def present_ids[of rg1, unfolded set_map] same_connsD(2)[OF same] c0_def)
      with who2 show ?thesis by auto
    next
      case False
      with c have "fmlookup (rg_conns ?rg) j = Some c" by (cases "encoded") (auto simp: lookup2 rg1_def handed_def)
      moreover have "j \<notin> missed" using j False by (auto split: if_splits)
      ultimately show ?thesis using told_rightD[OF right(3), of j c] pid arriving by blast
    qed
  qed
  with counts here show ?thesis by (simp add: table_right_def tb)
qed

text \<open>A table whose connections are the same ones, told more, fewer or the same.\<close>

lemma told_again:
  assumes "table_right tb missed" and "same_conns (pr_registry tb) (pr_registry tb')"
    and "missed \<subseteq> missed'" and "set (pr_arriving tb') \<subseteq> set (pr_arriving tb)"
    and "\<And>i c'. fmlookup (rg_conns (pr_registry tb')) i = Some c' \<Longrightarrow> i \<notin> missed' \<Longrightarrow>
      \<exists>c. fmlookup (rg_conns (pr_registry tb)) i = Some c \<and> pn_participant c' = pn_participant c \<and>
        told_present (pn_queue c) \<inter> who (pr_registry tb) \<subseteq> told_present (pn_queue c') \<and>
        arriving_ids tb \<subseteq> told_present (pn_queue c') \<union> arriving_ids tb' \<and>
        told_present (pn_queue c') \<subseteq> who (pr_registry tb) \<union> fst ` set (pr_departing tb') \<union>
          (told_present (pn_queue c) - fst ` set (pr_departing tb))"
  shows "table_right tb' missed'"
proof -
  have right: "counts_right (pr_registry tb)" "arrivals_here tb" "told_right tb missed" using assms(1) by (simp_all add: table_right_def)
  note same = same_connsD[OF assms(2)]
  have "told_right tb' missed'"
  proof (rule told_rightI, unfold same(2))
    fix i c'
    assume "fmlookup (rg_conns (pr_registry tb')) i = Some c'" and "i \<notin> missed'"
    from assms(5)[OF this] obtain c where c: "fmlookup (rg_conns (pr_registry tb)) i = Some c" "pn_participant c' = pn_participant c"
      and told: "told_present (pn_queue c) \<inter> who (pr_registry tb) \<subseteq> told_present (pn_queue c')"
        "arriving_ids tb \<subseteq> told_present (pn_queue c') \<union> arriving_ids tb'"
        "told_present (pn_queue c') \<subseteq> who (pr_registry tb) \<union> fst ` set (pr_departing tb') \<union>
          (told_present (pn_queue c) - fst ` set (pr_departing tb))" by blast
    have "i \<notin> missed" using \<open>i \<notin> missed'\<close> assms(3) by blast
    note old = told_rightD[OF right(3) c(1) this]
    show "pn_participant c' \<in> told_present (pn_queue c') \<and>
        who (pr_registry tb) \<subseteq> told_present (pn_queue c') \<union> arriving_ids tb' \<and>
        told_present (pn_queue c') \<subseteq> who (pr_registry tb) \<union> fst ` set (pr_departing tb')"
      using old told c(2) own_who[OF c(1)] by auto
  qed
  moreover have "arrivals_here tb'" using right(2) assms(4) same(3) by (auto simp: arrivals_here_def)
  ultimately show ?thesis using right(1) same(4) by (simp add: table_right_def)
qed

lemma arrives_right:
  assumes "table_right tb missed" and "i \<in> set (pr_arriving tb)"
  shows "table_right (arrives room encoded deny i tb) (missed \<union> missing room encoded (Some i) deny (pr_registry tb))"
    (is "table_right ?tb ?missed")
proof -
  let ?rg = "pr_registry tb"
  have "i \<in> fmdom' (rg_conns ?rg)" using assms by (auto simp: table_right_def arrivals_here_def)
  then obtain c0 where c0: "fmlookup (rg_conns ?rg) i = Some c0" by (auto simp: fmlookup_dom'_iff)
  let ?pid = "pn_participant c0" and ?ts = "targets (Some i) deny ?rg"
  let ?f = "ConnectedFrame ?pid (pn_name c0)"
  have rg: "pr_registry ?tb = (if encoded then send_all room ?f ?ts ?rg else ?rg)" "pr_departing ?tb = pr_departing tb"
    "pr_arriving ?tb = removeAll i (pr_arriving tb)"
    by (simp_all add: arrives_def announce_presence_def c0 broadcast_def)
  have same: "same_conns ?rg (pr_registry ?tb)" using send_all_same[of ?ts ?rg room ?f] by (simp add: rg same_conns_def)
  have arriving: "arriving_ids tb \<subseteq> insert ?pid (arriving_ids ?tb)"
    unfolding arriving_ids_def rg(3) same_connsD(1)[OF same] using c0 by (auto simp: conns_of_def)
  show ?thesis
  proof (rule told_again[OF assms(1) same])
    fix j c'
    assume c': "fmlookup (rg_conns (pr_registry ?tb)) j = Some c'" and j: "j \<notin> ?missed"
    then obtain c where c: "fmlookup (rg_conns ?rg) j = Some c" "c' = (if encoded then handed room ?f (set ?ts) j c else c)"
      by (auto simp: rg send_all_lookup split: if_splits)
    have old: "told_right tb missed" using assms(1) by (simp add: table_right_def)
    have "told_present (pn_queue c') = insert ?pid (told_present (pn_queue c))"
    proof (cases "j = i")
      case True
      with c c0 have "c' = c" "c = c0" by (simp_all add: handed_def targets_iff)
      with told_rightD(1)[OF old c(1)] j show ?thesis by auto
    next
      case False
      with j c(1) have "encoded" "room j" "j \<in> set ?ts" by (auto simp: missing_def targets_iff)
      with c(2) show ?thesis by (simp add: handed_def hears_def)
    qed
    moreover have "pn_participant c' = pn_participant c" using c(2) by simp
    ultimately show "\<exists>c. fmlookup (rg_conns ?rg) j = Some c \<and> pn_participant c' = pn_participant c \<and>
        told_present (pn_queue c) \<inter> who ?rg \<subseteq> told_present (pn_queue c') \<and>
        arriving_ids tb \<subseteq> told_present (pn_queue c') \<union> arriving_ids ?tb \<and>
        told_present (pn_queue c') \<subseteq> who ?rg \<union> fst ` set (pr_departing ?tb) \<union> (told_present (pn_queue c) - fst ` set (pr_departing tb))"
      using c(1) arriving own_who[OF c0] by (intro exI[of _ c]) (auto simp: rg(2))
  qed (auto simp: rg(3))
qed

lemma departs_right:
  assumes "table_right tb missed"
  shows "table_right (departs room encoded deny pid name tb) (missed \<union> missing room encoded None deny (pr_registry tb))"
    (is "table_right ?tb ?missed")
proof -
  let ?rg = "pr_registry tb" and ?ts = "targets None deny (pr_registry tb)" and ?f = "DisconnectedFrame pid name"
  have gone: "fmlookup (rg_counts ?rg) pid \<noteq> None \<longleftrightarrow> pid \<in> who ?rg"
    using assms by (simp add: table_right_def counts_right_def who_iff)
  let ?heard = "pid \<notin> who ?rg \<and> encoded"
  have rg: "pr_registry ?tb = (if ?heard then send_all room ?f ?ts ?rg else ?rg)" "pr_arriving ?tb = pr_arriving tb"
    "pr_departing ?tb = remove1 (pid, name) (pr_departing tb)"
    using gone by (simp_all add: departs_def announce_if_absent_def)
  have same: "same_conns ?rg (pr_registry ?tb)" using send_all_same[of ?ts ?rg room ?f] by (simp add: rg(1) same_conns_def)
  have arriving: "arriving_ids ?tb = arriving_ids tb" by (simp add: arriving_ids_def rg(2) same_connsD(1)[OF same])
  have departing: "fst ` set (pr_departing tb) \<subseteq> insert pid (fst ` set (pr_departing ?tb))"
    unfolding rg(3) using in_set_remove1[of _ "(pid, name)" "pr_departing tb"] by (auto simp: image_iff)
  show ?thesis
  proof (rule told_again[OF assms same])
    fix j c'
    assume c': "fmlookup (rg_conns (pr_registry ?tb)) j = Some c'" and j: "j \<notin> ?missed"
    then obtain c where c: "fmlookup (rg_conns ?rg) j = Some c" "c' = (if ?heard then handed room ?f (set ?ts) j c else c)"
      by (auto simp: rg(1) send_all_lookup split: if_splits)
    have old: "told_right tb missed" using assms by (simp add: table_right_def)
    have told: "told_present (pn_queue c') = (if pid \<in> who ?rg then told_present (pn_queue c) else told_present (pn_queue c) - {pid})"
      using j c by (auto simp: missing_def targets_iff handed_def hears_def)
    have "told_present (pn_queue c) \<subseteq> who ?rg \<union> fst ` set (pr_departing tb)" using told_rightD(3)[OF old c(1)] j by simp
    then have "told_present (pn_queue c') \<subseteq> who ?rg \<union> fst ` set (pr_departing ?tb)" using departing told by auto
    moreover have "pn_participant c' = pn_participant c" using c(2) by simp
    moreover have "pid \<notin> arriving_ids tb" if "pid \<notin> who ?rg" using that by (auto simp: arriving_ids_def who_iff)
    ultimately show "\<exists>c. fmlookup (rg_conns ?rg) j = Some c \<and> pn_participant c' = pn_participant c \<and>
        told_present (pn_queue c) \<inter> who ?rg \<subseteq> told_present (pn_queue c') \<and>
        arriving_ids tb \<subseteq> told_present (pn_queue c') \<union> arriving_ids ?tb \<and>
        told_present (pn_queue c') \<subseteq> who ?rg \<union> fst ` set (pr_departing ?tb) \<union> (told_present (pn_queue c) - fst ` set (pr_departing tb))"
      using c(1) told by (intro exI[of _ c]) (auto simp: arriving split: if_splits)
  qed (simp_all add: rg(2))
qed

lemma name_in_who: "name_in pid rg = Some name \<Longrightarrow> pid \<in> who rg"
  unfolding present_ids[symmetric] by (auto simp: name_in_def find_Some_iff image_iff) (metis fst_conv nth_mem)

lemma promotes_right:
  assumes "table_right tb missed"
  shows "table_right (promotes room encoded deny pid tb) missed" (is "table_right ?tb _")
proof -
  let ?rg = "pr_registry tb" and ?re = "rejudge_all pid (pr_registry tb)"
  let ?ts = "targets None deny ?re"
  have rg: "pr_arriving ?tb = pr_arriving tb" "pr_departing ?tb = pr_departing tb" by (simp_all add: promotes_def)
  have sent: "pr_registry ?tb = ?re \<or>
      (\<exists>name. pr_registry ?tb = send_all room (ConnectedFrame pid name) ?ts ?re \<and> pid \<in> who ?re)"
    by (cases "name_in pid ?re") (auto simp: promotes_def announce_if_present_def name_in_who)
  then have same: "same_conns ?rg (pr_registry ?tb)"
    using rejudge_same[of ?rg pid] send_all_same[of ?ts ?re room] by (auto simp: same_conns_def)
  have who: "who ?re = who ?rg" using same_connsD(2)[OF rejudge_same] .
  have arriving: "arriving_ids ?tb = arriving_ids tb" by (simp add: arriving_ids_def rg(1) same_connsD(1)[OF same])
  show ?thesis
  proof (rule told_again[OF assms same])
    fix j c'
    assume c': "fmlookup (rg_conns (pr_registry ?tb)) j = Some c'" and j: "j \<notin> missed"
    from sent obtain c where c: "fmlookup (rg_conns ?rg) j = Some c" "pn_participant c' = pn_participant c"
      and told: "told_present (pn_queue c') = told_present (pn_queue c) \<or>
        pid \<in> who ?rg \<and> told_present (pn_queue c') = insert pid (told_present (pn_queue c))"
      using c' by (auto simp: rejudge_lookup send_all_lookup handed_def hears_def who split: if_splits)
    have old: "told_right tb missed" using assms by (simp add: table_right_def)
    show "\<exists>c. fmlookup (rg_conns ?rg) j = Some c \<and> pn_participant c' = pn_participant c \<and>
        told_present (pn_queue c) \<inter> who ?rg \<subseteq> told_present (pn_queue c') \<and>
        arriving_ids tb \<subseteq> told_present (pn_queue c') \<union> arriving_ids ?tb \<and>
        told_present (pn_queue c') \<subseteq> who ?rg \<union> fst ` set (pr_departing ?tb) \<union> (told_present (pn_queue c) - fst ` set (pr_departing tb))"
      using c told told_rightD(3)[OF old c(1) j] by (intro exI[of _ c]) (auto simp: arriving rg(2))
  qed (simp_all add: rg(1))
qed

lemma leaves_right:
  assumes "table_right tb missed" and "i \<notin> set (pr_arriving tb)"
  shows "table_right (leaves i tb) missed" (is "table_right ?tb _")
proof (cases "fmlookup (rg_conns (pr_registry tb)) i")
  case None
  then have "?tb = tb" by (simp add: leaves_def leave_registry_def)
  with assms(1) show ?thesis by simp
next
  case (Some c0)
  let ?rg = "pr_registry tb" and ?pid = "pn_participant c0" and ?rg' = "pr_registry ?tb"
  have right: "counts_right ?rg" "arrivals_here tb" "told_right tb missed" using assms(1) by (simp_all add: table_right_def)
  let ?n = "count_of ?rg ?pid - 1"
  have i: "i \<in> conns_of ?rg ?pid" using Some by (simp add: conns_of_def)
  have rg: "rg_conns ?rg' = fmdrop i (rg_conns ?rg)" "pr_arriving ?tb = pr_arriving tb"
    "rg_counts ?rg' = (if ?n \<le> 0 then fmdrop ?pid (rg_counts ?rg) else fmupd ?pid ?n (rg_counts ?rg))"
    "pr_departing ?tb = (if ?n \<le> 0 then (?pid, pn_name c0) # pr_departing tb else pr_departing tb)"
    using Some by (simp_all add: leaves_def leave_registry_def Let_def)
  have conns: "conns_of ?rg' q = conns_of ?rg q - {i}" for q by (auto simp: conns_of_def rg(1))
  have others: "conns_of ?rg q - {i} = conns_of ?rg q" if "q \<noteq> ?pid" for q using that Some by (auto simp: conns_of_def)
  have card: "card (conns_of ?rg ?pid - {i}) = card (conns_of ?rg ?pid) - 1" "0 < card (conns_of ?rg ?pid)"
    using i by (auto simp: card_gt_0_iff)
  have n: "?n = int (card (conns_of ?rg ?pid - {i}))" using card by (simp add: count_of_right[OF right(1)])
  then have last: "?n \<le> 0 \<longleftrightarrow> conns_of ?rg ?pid - {i} = {}" by (simp add: card_eq_0_iff)
  have counts: "counts_right ?rg'" unfolding counts_right_def
  proof
    fix q
    show "fmlookup (rg_counts ?rg') q = (if conns_of ?rg' q = {} then None else Some (int (card (conns_of ?rg' q))))"
    proof (cases "q = ?pid")
      case True
      then show ?thesis unfolding conns rg(3) last by (simp add: n)
    next
      case False
      then show ?thesis using right(1) others[OF False] unfolding conns rg(3) counts_right_def by simp
    qed
  qed
  have in_who: "q \<in> who ?rg' \<longleftrightarrow> (if q = ?pid then \<not> ?n \<le> 0 else q \<in> who ?rg)" for q
    using last by (cases "q = ?pid") (simp_all add: who_iff conns others)
  have who: "who ?rg \<subseteq> who ?rg' \<union> (if ?n \<le> 0 then {?pid} else {})" "who ?rg' \<subseteq> who ?rg"
    unfolding subset_iff Un_iff in_who using own_who[OF Some] by simp_all
  have arriving: "arriving_ids tb \<subseteq> arriving_ids ?tb" using assms(2) by (auto simp: arriving_ids_def rg(2) conns)
  have "told_right ?tb missed"
  proof (rule told_rightI)
    fix j c
    assume "fmlookup (rg_conns ?rg') j = Some c" and j: "j \<notin> missed"
    then have "fmlookup (rg_conns ?rg) j = Some c" by (simp add: rg(1) split: if_splits)
    note told = told_rightD[OF right(3) this j]
    show "pn_participant c \<in> told_present (pn_queue c) \<and> who ?rg' \<subseteq> told_present (pn_queue c) \<union> arriving_ids ?tb \<and>
        told_present (pn_queue c) \<subseteq> who ?rg' \<union> fst ` set (pr_departing ?tb)"
      using told who arriving unfolding rg(4) by (auto split: if_splits)
  qed
  moreover have "arrivals_here ?tb" using right(2) assms(2) by (auto simp: arrivals_here_def rg(1,2))
  ultimately show ?thesis using counts by (simp add: table_right_def)
qed

lemma served_right: "served tb missed \<Longrightarrow> table_right tb missed"
  by (induction rule: served.induct)
    (intro open_right connects_right arrives_right leaves_right departs_right promotes_right; assumption)+

text \<open>C34: No ghosts. Let connections come and go in any order, each announcing the arrival or the departure it caused
  whenever it gets to it, with promotions between. The registry counts, for every participant, the connections they
  have. And once nobody has an announcement left to make, each connection that missed no frame has been told, in
  all it was sent, of exactly the participants who are there.\<close>

theorem presence_has_no_ghosts:
  assumes "served tb missed" and "pr_arriving tb = []" and "pr_departing tb = []"
    and "fmlookup (rg_conns (pr_registry tb)) i = Some c" and "i \<notin> missed"
  shows "told_present (pn_queue c) = set (participant_ids (pr_registry tb)) \<and>
    (\<forall>pid. count_of (pr_registry tb) pid = int (card (conns_of (pr_registry tb) pid)))"
proof -
  have right: "counts_right (pr_registry tb)" "told_right tb missed" using served_right[OF assms(1)] by (simp_all add: table_right_def)
  from told_rightD[OF right(2) assms(4,5)] assms(2,3) have "told_present (pn_queue c) = who (pr_registry tb)"
    by (auto simp: arriving_ids_def)
  then show ?thesis by (simp add: participant_ids_who count_of_right[OF right(1)])
qed

subsection \<open>A table\<close>

text \<open>Ann connects, then Ben on two devices; one of his devices goes, and everything is announced.\<close>

definition demo_presence :: presence_table where
  "demo_presence = leaves 2 (connects (\<lambda>_. True) True 3 ''ben'' ''Ben'' (arrives (\<lambda>_. True) True [] 2
     (connects (\<lambda>_. True) True 2 ''ben'' ''Ben'' (arrives (\<lambda>_. True) True [] 1 (connects (\<lambda>_. True) True 1 ''ann'' ''Ann'' open_table)))))"

lemma demo_presence_there:
  "pr_arriving demo_presence = []" "pr_departing demo_presence = []"
  "map_option pn_queue (fmlookup (rg_conns (pr_registry demo_presence)) 1) =
     Some [SnapshotFrame [(''ann'', ''Ann'')], ConnectedFrame ''ben'' ''Ben'']"
  "participant_ids (pr_registry demo_presence) = [''ann'', ''ben'']"
  by code_simp+

lemma connects_served:
  "served tb {} \<Longrightarrow> fmlookup (rg_conns (pr_registry tb)) i = None \<Longrightarrow> served (connects (\<lambda>_. True) True i pid name tb) {}"
  using served_connects[where missed = "{}" and encoded = True and room = "\<lambda>_. True"] by fastforce

lemma arrives_served:
  "served tb {} \<Longrightarrow> i \<in> set (pr_arriving tb) \<Longrightarrow> served (arrives (\<lambda>_. True) True [] i tb) {}"
  using served_arrives[where missed = "{}" and encoded = True and room = "\<lambda>_. True" and deny = "[]"] by (fastforce simp: missing_def)

lemma demo_presence_served: "served demo_presence {}"
  unfolding demo_presence_def
  by (intro served_leaves connects_served arrives_served served_open) code_simp+

theorem presence_has_no_ghosts_witness:
  "\<exists>c. fmlookup (rg_conns (pr_registry demo_presence)) 1 = Some c \<and> told_present (pn_queue c) = {''ann'', ''ben''} \<and>
     count_of (pr_registry demo_presence) ''ben'' = int (card (conns_of (pr_registry demo_presence) ''ben''))"
proof -
  obtain c where c: "fmlookup (rg_conns (pr_registry demo_presence)) 1 = Some c"
    using demo_presence_there(3) by (cases "fmlookup (rg_conns (pr_registry demo_presence)) 1") simp_all
  from presence_has_no_ghosts[OF demo_presence_served demo_presence_there(1,2) c]
  show ?thesis using c demo_presence_there(4) by auto
qed

end
