(* ===== verification/Spec2Isabelle.thy ===== *)
theory Spec2Isabelle
  imports Scene_Props Compose_Props Perceive_Board Campaign_Anchors Subscribe_Props Identity_Props Convert Map_Props Rules_Load_Props Gateway_Player Gateway_Guards Seat_Props Eventgen_Props Presence_Props
begin

text \<open>
  A model of the server of the vtt-platform, a virtual tabletop: Go code under \<open>src/internal\<close>.

  The program. A campaign is one append-only log of events. \<open>internal/engine\<close> folds the log into the state of the
  table (scenes, tokens, actors, notes, sessions). \<open>internal/rules\<close> decides what an ability does: a sandboxed
  expression language, rollers, effects, and a compiler that turns the atoms of a ruleset into bindings.
  \<open>internal/sight\<close> says which squares an eye sees. \<open>internal/perceive\<close> decides, per viewer, which of the campaign's
  events that viewer may be sent, and in what form. \<open>internal/store\<close> keeps the log in a database and hands new
  events to subscribers. \<open>internal/campaign\<close> is the writer: it validates a batch against a snapshot of the state,
  fans it out to a log per character (each a perceived version of the campaign, itself a log that folds), stores
  both in one transaction, applies it to the live state and notifies. \<open>internal/gateway\<close> is the server: it resolves who a
  connection is (\<open>internal/identity\<close>), decides which commands they may issue, turns a command into a batch, and sends
  each connection the log it may watch. \<open>internal/mapdef\<close>, \<open>artlib\<close> and \<open>adventure\<close> load what a game starts from.

  Reading order, theory by theory, with the source each models.

  \<^item> \<open>Prelude\<close>: results (\<open>'e + 'a\<close>), finite maps and their sorted keys, words read as signed integers, text.
  \<^item> \<open>Wire\<close> (\<open>contract/vtt/v1/events.proto\<close>): the envelope, its payload variants and the messages they carry;
    int32 fields are \<open>32 word\<close>, proto3 maps are finite maps, an absent message is \<open>None\<close>.
  \<^item> \<open>World\<close> (\<open>engine/state.go\<close>, \<open>terrain.go\<close>, \<open>actorkind.go\<close>): \<open>state\<close>, \<open>new_state\<close>, \<open>snapshot\<close>, \<open>blocked\<close>.
  \<^item> \<open>Fold\<close> (\<open>engine/apply.go\<close>): one function per arm of \<open>Apply\<close>, composed by \<open>apply_event\<close>; \<open>apply_events\<close> replays.
    \<open>Fold_Inv\<close>, \<open>Fold_Bounds\<close>, \<open>Engine_Props\<close>, \<open>Scene_Props\<close>: the state invariant \<open>wf_state\<close> and what each event does.
  \<^item> \<open>Expr\<close>, \<open>Expr_Parse\<close> (\<open>rules/expr.go\<close>): evaluation in int64, the lexer and the recursive-descent parser;
    \<open>Expr_Props\<close> and \<open>Parse_Props\<close>: bounds, termination, and what the parser accepts.
  \<^item> \<open>Roller\<close>, \<open>Ruleset\<close>, \<open>Resolve\<close> (\<open>rules/crypto_roller.go\<close>, \<open>format.go\<close>, \<open>resolve.go\<close>); \<open>Resolve_Props\<close>: the events
    of a resolution fold onto the state it was resolved against.
  \<^item> \<open>Dag\<close>, \<open>Compile\<close>, \<open>Compose\<close> (\<open>rules/compile.go\<close>); \<open>Compose_Props\<close>: composition is acyclic and ordered.
    \<open>Files\<close>, \<open>Rules_Load\<close> (\<open>rules/load.go\<close>): a ruleset directory read and checked file by file; \<open>Rules_Load_Props\<close>:
    what loads is sound, its expressions evaluate, and an ability used from it folds.
  \<^item> \<open>Sight\<close> (\<open>sight/sight.go\<close>); \<open>Sight_Props\<close>: the seen squares against their definition, and monotonicity.
  \<^item> \<open>Perceive\<close> (\<open>perceive/projection.go\<close>), a record for \<open>Projection\<close> and one function per method.
    \<open>Perceive_Props\<close>: nothing unseen is told. \<open>Perceive_Fold\<close>, \<open>Perceive_Actors\<close>, \<open>Perceive_Status\<close>, \<open>Perceive_Board\<close>: the frames
    fold onto the viewer's copy of the state and bring it to what the viewer sees.
  \<^item> \<open>Store\<close> (\<open>store/store.go\<close>): \<open>append_batch\<close> over a heap of shared envelopes and two tables; \<open>append_values\<close> is the
    same call with envelopes by value, as the campaign makes it. \<open>Store_Props\<close>: all or nothing. \<open>Store_Log\<close>: the
    contract of a log, as the locales \<open>event_log\<close> and \<open>character_logs\<close>, and their interpretation on the store.
  \<^item> \<open>Subscribe\<close> (\<open>store/subscribe.go\<close>): subscribers and pumps as step relations, the store with its subscribers as
    \<open>hub_step\<close>. \<open>Subscribe_Props\<close>: what a consumer has received, and that it receives everything.
  \<^item> \<open>Campaign\<close> (\<open>campaign/campaign.go\<close>, \<open>fanout.go\<close>, \<open>foldprefix.go\<close>). \<open>Campaign_Props\<close>, \<open>Campaign_Steps\<close>: the step relation of a
    campaign, its invariant over the contract of \<open>Store_Log\<close>, and the equality of live state and replay.
    \<open>Campaign_Anchors\<close>: the character logs.
  \<^item> \<open>Eventgen\<close> (\<open>eventgen/model.go\<close>): the generator of histories, a draw at a time. \<open>Eventgen_Props\<close>: \<open>believes\<close> relates its model to
    the engine's state, and the fold refuses exactly the events it drew to be refused.
  \<^item> \<open>Identity\<close>, \<open>Runes\<close>, \<open>Join\<close> (\<open>identity/identity.go\<close>, \<open>gateway/join.go\<close>): participants, tokens, the join door.
    \<open>Identity_Props\<close>: whose a credential is, and how many a door lets in, under any interleaving of its statements.
  \<^item> \<open>Command\<close>, \<open>Authz\<close>, \<open>Convert\<close> (\<open>gateway/authz.go\<close>, \<open>viewpoint.go\<close>, the three \<open>_validate\<close> files, \<open>convert.go\<close>): the client's
    commands, who may issue which, who may watch what, and the event a command becomes.
  \<^item> \<open>Artlib\<close>, \<open>Mapdef\<close>, \<open>Map_Load\<close> (\<open>artlib/artlib.go\<close>, \<open>mapdef/*.go\<close>): art files and maps, and \<open>Map_Props\<close>: a piece found is
    installed, and a map that loads compiles. \<open>Adventure\<close> (\<open>adventure/*.go\<close>), \<open>Adventure_Props\<close>: an adventure that
    loads is a batch that folds.
  \<^item> \<open>Gateway\<close> (\<open>gateway/server.go\<close>, \<open>ruleset.go\<close>, \<open>map.go\<close>, \<open>adventure.go\<close>): a command from its gates to the append and back, over a
    record of everything the server holds. \<open>Gateway_Props\<close>, \<open>Gateway_Player\<close>, \<open>Gateway_Guards\<close>: a command appends as its
    issuer, what a player's command can append, the reach of a hand to a door, and the staff no command touches.
  \<^item> \<open>Seat\<close> (\<open>gateway/seat.go\<close>, the pump of \<open>server.go\<close>): which log a connection is sent. \<open>Seat_Props\<close>: an entry leaves only by a right
    that outlived the append which caused it, and a seat settles.
  \<^item> \<open>Presence\<close> (\<open>gateway/presence.go\<close>, its calls in \<open>server.go\<close>): who is connected. \<open>Presence_Props\<close>: no ghosts.

  How they meet. \<open>Gateway\<close> calls \<open>Authz\<close>, \<open>Convert\<close>, \<open>Resolve\<close>, \<open>Mapdef\<close>, \<open>Adventure\<close>, \<open>Identity\<close> and \<open>Presence\<close>, and appends through \<open>Campaign\<close>,
  which folds with \<open>Fold\<close>, perceives with \<open>Perceive\<close> and stores through the contract of \<open>Store_Log\<close>. \<open>Seat\<close> reads the
  actors of a campaign and the rights of \<open>Authz\<close>.

  Conventions. A Go function that returns an error returns \<open>'e + 'a\<close>, the error a constructor that names the
  branch; its prose is not modelled. A method that mutates its receiver returns it. Go's random map order is
  removed where the code sorts, and modelled by sorted keys where the order cannot matter. float64
  arithmetic in \<open>Sight\<close> is on rationals rounded to 53 bits, as IEEE 754 rounds in the range that int32
  coordinates reach. A nil map or slice and an empty one are one value, except where the code tells them apart
  (\<open>go_make\<close>).

  Bounds and fuel. The expression parser carries the fuel of its recursion; it starts with the characters left
  plus one, and each call consumes a token, so it never runs out (\<open>Parse_Props\<close>). The depth limit 200 is the
  code's own. The topological sort runs its loop once per atom. A seat's switch loops for as long as appends
  overtake it, so \<open>watch\<close> has fuel: if nothing is appended from the pump's tick \<open>T\<close> on, \<open>T + 2\<close> is enough and more changes
  nothing (\<open>seat_settles\<close>). The generator's counters are unbounded naturals; its property covers walks of up to \<open>2 ^ 62\<close>
  steps, where the code's 64-bit counters do not wrap. Everything else recurs structurally or on a measure.

  Hypotheses and parameters. \<open>codec_ok\<close>: what protobuf marshals it unmarshals to the same message. \<open>db_op \<Rightarrow> bool\<close> says
  which database statements fail; every theorem holds for all of them. Random bytes, ids and clock readings are
  parameters, as are: what strict JSON decoding makes of a file, \<open>strings.ToLower\<close> and Unicode's classes of
  characters, the hash of a token, a directory's entries and what reading one answers. \<open>schedule\<close> says what each
  call of a pump meets, and the random source of the generator is a tape of numbers; their theorems hold for every
  schedule and every tape. \<open>lawful_draw\<close> is the range \<open>crypto/rand.Int\<close> documents. \<open>entry_sent_by_right\<close> assumes that
  looking a participant up by id gives that participant.

  Not modelled. The protobuf encoding and SQLite themselves; file locks and the making of directories; wall-clock
  time, so the send budget of a presence frame and the write deadlines are only that a frame arrives or does not;
  the bytes on a WebSocket, the writer's flush and pings; the read-only HTTP routes; \<open>Validate\<close> of the art library; the
  campaign's settings file; the harness, the conformance suites, the tool server and the command line, which
  drive this code from outside; the TypeScript client. A call into one of these is a parameter, or the manifest
  says it is left out.
\<close>

end
